(* ===== verification/Prelude.thy ===== *)
theory Prelude
  imports Main "HOL-Library.List_Lexorder" "HOL-Library.Char_ord" "HOL-Library.Product_Lexorder"
begin

text \<open>
  Shared vocabulary of the development.

  A Python \<open>str\<close> is a \<open>string\<close> whose characters are read as the code points below 256;
  Python integers are \<open>int\<close>; a validated constructor (\<open>__post_init__\<close>) is a list of guards, in the
  order the code tests them, of which the first that fires gives the exception raised
  (\<open>first_error\<close>). Code that raises returns a sum: \<open>Inl\<close> the exception, \<open>Inr\<close> the value.
\<close>

section \<open>Collections of the development\<close>

named_theorems guard_simps \<open>unfolding of guard lists\<close>

named_theorems inv_intros \<open>introduction rules of the invariants the operations preserve\<close>

section \<open>Guards and results\<close>

text \<open>The two built-in exceptions the validated constructors raise, with their message.\<close>

datatype py_error = ValueError string | TypeError string

fun first_error :: "(bool \<times> 'e) list \<Rightarrow> 'e option" where
  "first_error [] = None"
| "first_error ((c, e) # gs) = (if c then Some e else first_error gs)"

definition guarded :: "(bool \<times> 'e) list \<Rightarrow> 'a \<Rightarrow> 'e + 'a" where
  "guarded gs x = (case first_error gs of Some e \<Rightarrow> Inl e | None \<Rightarrow> Inr x)"

lemma first_error_None_iff: "first_error gs = None \<longleftrightarrow> (\<forall>g \<in> set gs. \<not> fst g)"
proof (induction gs)
  case (Cons g gs)
  then show ?case by (cases g) simp
qed simp

lemma first_error_append:
  "first_error (gs @ hs) = (case first_error gs of Some e \<Rightarrow> Some e | None \<Rightarrow> first_error hs)"
  by (induction gs) auto

lemma first_error_SomeD: "first_error gs = Some e \<Longrightarrow> (True, e) \<in> set gs"
  by (induction gs) (auto split: if_splits)

lemma guarded_Inr_iff [guard_simps]: "guarded gs x = Inr y \<longleftrightarrow> first_error gs = None \<and> y = x"
  by (auto simp: guarded_def split: option.splits)

lemma guarded_Inl_iff [guard_simps]: "guarded gs x = Inl e \<longleftrightarrow> first_error gs = Some e"
  by (auto simp: guarded_def split: option.splits)

fun bind_res :: "'e + 'a \<Rightarrow> ('a \<Rightarrow> 'e + 'b) \<Rightarrow> 'e + 'b" where
  "bind_res (Inl e) f = Inl e"
| "bind_res (Inr x) f = f x"

lemma bind_res_Inr_iff [guard_simps]:
  "bind_res m f = Inr y \<longleftrightarrow> (\<exists>x. m = Inr x \<and> f x = Inr y)"
  by (cases m) auto

lemma bind_res_Inl_iff:
  "bind_res m f = Inl e \<longleftrightarrow> m = Inl e \<or> (\<exists>x. m = Inr x \<and> f x = Inl e)"
  by (cases m) auto

text \<open>The elements one after the other, up to the first that raises.\<close>

fun sequence_res :: "('a \<Rightarrow> 'e + 'b) \<Rightarrow> 'a list \<Rightarrow> 'e + 'b list" where
  "sequence_res f [] = Inr []"
| "sequence_res f (x # xs) = bind_res (f x) (\<lambda>y. bind_res (sequence_res f xs) (\<lambda>ys. Inr (y # ys)))"

lemma sequence_res_map: "\<forall>x \<in> set xs. f (g x) = Inr x \<Longrightarrow> sequence_res f (map g xs) = Inr xs"
  by (induction xs) auto

lemma sequence_res_Inr: "sequence_res f xs = Inr ys \<Longrightarrow> list_all2 (\<lambda>x y. f x = Inr y) xs ys"
  by (induction xs arbitrary: ys) (auto simp: bind_res_Inr_iff)

lemma sequence_res_all: "sequence_res f xs = Inr ys \<Longrightarrow> (\<And>x y. f x = Inr y \<Longrightarrow> P y) \<Longrightarrow> \<forall>y \<in> set ys. P y"
  by (induction xs arbitrary: ys) (auto simp: bind_res_Inr_iff)

lemma sequence_res_copies: "\<forall>x \<in> set xs. f x = Inr (g x) \<Longrightarrow> sequence_res f xs = Inr (map g xs)"
  by (induction xs) auto

lemma sequence_res_elem: "sequence_res f xs = Inr ys \<Longrightarrow> x \<in> set xs \<Longrightarrow> \<exists>y. f x = Inr y"
  by (induction xs arbitrary: ys) (auto simp: bind_res_Inr_iff)

section \<open>Strings\<close>

text \<open>
  The characters \<open>str.strip\<close> removes, among the code points below 256: tab to carriage return, the
  four information separators, space, next line and no-break space.
\<close>

definition py_space :: "char \<Rightarrow> bool" where
  "py_space c \<longleftrightarrow>
     (let n = (of_char c :: nat)
      in (9 \<le> n \<and> n \<le> 13) \<or> (28 \<le> n \<and> n \<le> 32) \<or> n = 133 \<or> n = 160)"

definition py_strip :: "string \<Rightarrow> string" where
  "py_strip s = rev (dropWhile py_space (rev (dropWhile py_space s)))"

text \<open>\<open>not s.strip()\<close>.\<close>

definition blank :: "string \<Rightarrow> bool" where
  "blank s \<longleftrightarrow> py_strip s = []"

lemma all_dropWhile_iff: "(\<forall>x \<in> set (dropWhile P xs). P x) \<longleftrightarrow> (\<forall>x \<in> set xs. P x)"
  by (induction xs) auto

lemma dropWhile_rev_empty_iff: "dropWhile P (rev (dropWhile P xs)) = [] \<longleftrightarrow> (\<forall>x \<in> set xs. P x)"
  by (simp add: dropWhile_eq_Nil_conv all_dropWhile_iff)

lemma blank_iff: "blank s \<longleftrightarrow> (\<forall>c \<in> set s. py_space c)"
  by (simp only: blank_def py_strip_def rev_is_Nil_conv dropWhile_rev_empty_iff)

lemma blank_Nil [simp]: "blank []"
  by (simp add: blank_iff)

lemma blank_append [simp]: "blank (s @ t) \<longleftrightarrow> blank s \<and> blank t"
  by (auto simp: blank_iff)

lemma not_blank_nonempty: "\<not> blank s \<Longrightarrow> s \<noteq> []"
  by auto

lemma dropWhile_idem_snoc:
  "ys \<noteq> [] \<Longrightarrow> \<not> P (last ys) \<Longrightarrow> rev (dropWhile P (rev ys)) = ys"
  by (cases ys rule: rev_cases) auto

lemma rev_dropWhile_rev_last:
  "rev (dropWhile P (rev xs)) \<noteq> [] \<Longrightarrow> \<not> P (last (rev (dropWhile P (rev xs))))"
  by (metis hd_dropWhile last_rev rev.simps(1))

lemma dropWhile_hd_keep: "xs \<noteq> [] \<Longrightarrow> \<not> P (hd xs) \<Longrightarrow> dropWhile P xs = xs"
  by (cases xs) auto

text \<open>Stripping twice is stripping once: the validated constructors are idempotent on their fields.\<close>

lemma py_strip_idem [simp]: "py_strip (py_strip s) = py_strip s"
proof (cases "py_strip s = []")
  case True
  then show ?thesis by (simp only: True) (simp add: py_strip_def)
next
  case False
  define u where "u = dropWhile py_space s"
  have st: "py_strip s = rev (dropWhile py_space (rev u))"
    by (simp add: py_strip_def u_def)
  have pre: "\<exists>zs. u = py_strip s @ zs"
    unfolding st by (metis rev_append rev_rev_ident takeWhile_dropWhile_id)
  then obtain zs where zs: "u = py_strip s @ zs" by blast
  have "u \<noteq> []" using zs False by auto
  then have "\<not> py_space (hd u)"
    unfolding u_def by (rule hd_dropWhile)
  then have h: "\<not> py_space (hd (py_strip s))"
    using zs False by simp
  have l: "\<not> py_space (last (py_strip s))"
    using False unfolding st by (rule rev_dropWhile_rev_last)
  show ?thesis
    using dropWhile_hd_keep [of "py_strip s" py_space] dropWhile_idem_snoc [of "py_strip s" py_space] False h l
    by (simp add: py_strip_def [of "py_strip s"])
qed

text \<open>Decimal rendering of an integer (\<open>str(n)\<close>, \<open>f"{n}"\<close>).\<close>

fun show_nat :: "nat \<Rightarrow> string" where
  "show_nat n = (if n < 10 then [char_of (48 + n)] else show_nat (n div 10) @ [char_of (48 + n mod 10)])"

declare show_nat.simps [simp del]

definition show_int :: "int \<Rightarrow> string" where
  "show_int i = (if i < 0 then ''-'' @ show_nat (nat (- i)) else show_nat (nat i))"

lemma show_nat_nonempty [simp]: "show_nat n \<noteq> []"
  by (subst show_nat.simps) simp

section \<open>Lists and dictionaries\<close>

text \<open>
  The dictionary comprehension \<open>{k(x): x for x in xs}\<close>: a later element overwrites an earlier
  one with the same key.
\<close>

definition dict_by :: "('a \<Rightarrow> 'k) \<Rightarrow> 'a list \<Rightarrow> 'k \<Rightarrow> 'a option" where
  "dict_by k xs = map_of (rev (map (\<lambda>x. (k x, x)) xs))"

lemma dict_by_None_iff [simp]: "dict_by k xs i = None \<longleftrightarrow> i \<notin> k ` set xs"
  by (auto simp: dict_by_def map_of_eq_None_iff image_iff)

lemma dict_by_SomeD: "dict_by k xs i = Some x \<Longrightarrow> x \<in> set xs \<and> k x = i"
  by (auto simp: dict_by_def dest: map_of_SomeD)

lemma dict_by_distinct:
  assumes "distinct (map k xs)" and "x \<in> set xs"
  shows "dict_by k xs (k x) = Some x"
proof -
  have d: "distinct (map fst (rev (map (\<lambda>x. (k x, x)) xs)))"
    using assms(1) by (simp add: rev_map [symmetric] o_def)
  show ?thesis
    unfolding dict_by_def using assms(2) by (intro map_of_is_SomeI [OF d]) simp
qed

text \<open>The number of keys of that dictionary: the number of different keys.\<close>

definition dict_size :: "('a \<Rightarrow> 'k) \<Rightarrow> 'a list \<Rightarrow> nat" where
  "dict_size k xs = length (remdups (map k xs))"

lemma dict_size_distinct: "dict_size k xs = length xs \<longleftrightarrow> distinct (map k xs)"
  using length_remdups_eq [of "map k xs"]
  by (metis dict_size_def length_map length_remdups_card_conv card_distinct distinct_card distinct_remdups set_remdups)

lemma list_all_take: "list_all P xs \<Longrightarrow> list_all P (take n xs)"
  by (auto simp: list_all_iff dest: in_set_takeD)

lemma distinct_map_inj_eq: "distinct (map f xs) \<Longrightarrow> x \<in> set xs \<Longrightarrow> y \<in> set xs \<Longrightarrow> f x = f y \<Longrightarrow> x = y"
  by (auto simp: distinct_map dest: inj_onD)

end
