(* ===== verification/ExecutionLedger.thy ===== *)
theory ExecutionLedger
  imports Prelude "HOL-Library.Sublist"
begin

text \<open>
  The governed-execution ledger: \<open>src/eag/governed_execution/enums.py\<close>, \<open>models.py\<close> and
  \<open>state_machine.py\<close>. A context is an immutable record whose history is validated every time one is
  built; the state machine appends one transition record per accepted transition, spends the budgets
  and returns the old context unchanged when it refuses. The clock (\<open>occurred_at\<close>) is an argument.
\<close>

section \<open>Vocabulary\<close>

datatype exec_state =
    CREATED | CONTEXT_ASSEMBLING | PLANNING | DECIDING | PROPOSING | APPROVAL_PENDING
  | AUTHORIZING | MUTATING | VERIFYING | REFLECTING | REPLANNING | COMPLETED | FAILED | ABORTED

datatype exec_stop_reason =
    SUCCESS | ITERATION_BUDGET_EXHAUSTED | MUTATION_BUDGET_EXHAUSTED
  | VERIFICATION_BUDGET_EXHAUSTED | POLICY_REJECTED | AUTHORIZATION_FAILED | PROVIDER_FAILED
  | VERIFICATION_FAILED | UNRECOVERABLE | USER_ABORTED

datatype evidence_kind =
    PLAN | DECISION | PROPOSAL | AUTHORIZATION | MUTATION_RECEIPT | VERIFICATION | REFLECTION
  | MEMORY | REPLANNING_EVIDENCE

definition is_terminal :: "exec_state \<Rightarrow> bool" where
  "is_terminal s \<longleftrightarrow> s \<in> {COMPLETED, FAILED, ABORTED}"

fun legal_transitions :: "exec_state \<Rightarrow> exec_state set" where
  "legal_transitions CREATED = {CONTEXT_ASSEMBLING, ABORTED}"
| "legal_transitions CONTEXT_ASSEMBLING = {PLANNING, FAILED}"
| "legal_transitions PLANNING = {DECIDING, FAILED, ABORTED}"
| "legal_transitions DECIDING = {PROPOSING, FAILED}"
| "legal_transitions PROPOSING = {APPROVAL_PENDING, AUTHORIZING, FAILED}"
| "legal_transitions APPROVAL_PENDING = {AUTHORIZING, ABORTED}"
| "legal_transitions AUTHORIZING = {MUTATING, FAILED}"
| "legal_transitions MUTATING = {VERIFYING, FAILED}"
| "legal_transitions VERIFYING = {COMPLETED, REFLECTING, FAILED}"
| "legal_transitions REFLECTING = {REPLANNING, FAILED}"
| "legal_transitions REPLANNING = {CONTEXT_ASSEMBLING, FAILED}"
| "legal_transitions COMPLETED = {}"
| "legal_transitions FAILED = {}"
| "legal_transitions ABORTED = {}"

section \<open>Frozen metadata\<close>

text \<open>
  The Python values \<open>_freeze_metadata_value\<close> distinguishes. \<open>PAtom\<close> is a float, a datetime or an
  enum member (type name, representation); \<open>POther\<close> is any other object. The items of a set are
  listed in iteration order.
\<close>

datatype pyval =
    PNone | PBool bool | PInt int | PStr string | PBytes "nat list" | PAtom string string
  | PBytearray "nat list" | PList "pyval list" | PTuple "pyval list" | PSet "pyval list"
  | PFrozenset "pyval list" | PDict "(pyval \<times> pyval) list" | PProxy "(pyval \<times> pyval) list"
  | POther string

fun is_pystr :: "pyval \<Rightarrow> bool" where
  "is_pystr (PStr s) = True"
| "is_pystr _ = False"

fun freeze_value :: "pyval \<Rightarrow> py_error + pyval"
  and freeze_items :: "pyval list \<Rightarrow> py_error + pyval list"
  and freeze_pairs :: "(pyval \<times> pyval) list \<Rightarrow> py_error + (pyval \<times> pyval) list" where
  "freeze_value (PDict kvs) = bind_res (freeze_pairs kvs) (\<lambda>r. Inr (PProxy r))"
| "freeze_value (PProxy kvs) = bind_res (freeze_pairs kvs) (\<lambda>r. Inr (PProxy r))"
| "freeze_value (PList xs) = bind_res (freeze_items xs) (\<lambda>r. Inr (PTuple r))"
| "freeze_value (PTuple xs) = bind_res (freeze_items xs) (\<lambda>r. Inr (PTuple r))"
| "freeze_value (PSet xs) = bind_res (freeze_items xs) (\<lambda>r. Inr (PFrozenset r))"
| "freeze_value (PFrozenset xs) = bind_res (freeze_items xs) (\<lambda>r. Inr (PFrozenset r))"
| "freeze_value (PBytearray b) = Inr (PBytes b)"
| "freeze_value (POther t) =
     Inl (TypeError (''metadata contains unsupported mutable or non-deterministic value type '' @ t))"
| "freeze_value v = Inr v"
| "freeze_items [] = Inr []"
| "freeze_items (x # xs) =
     bind_res (freeze_value x) (\<lambda>y. bind_res (freeze_items xs) (\<lambda>ys. Inr (y # ys)))"
| "freeze_pairs [] = Inr []"
| "freeze_pairs (kv # kvs) =
     (if is_pystr (fst kv)
      then bind_res (freeze_value (snd kv)) (\<lambda>y.
             bind_res (freeze_pairs kvs) (\<lambda>ys. Inr ((fst kv, y) # ys)))
      else Inl (TypeError ''metadata mapping keys must be strings''))"

fun is_mapping :: "pyval \<Rightarrow> bool" where
  "is_mapping (PDict _) = True"
| "is_mapping (PProxy _) = True"
| "is_mapping _ = False"

definition freeze_mapping :: "pyval \<Rightarrow> py_error + pyval" where
  "freeze_mapping v =
     (if is_mapping v then freeze_value v else Inl (TypeError ''metadata must be a Mapping''))"

text \<open>No list, set, dict or bytearray remains anywhere inside a frozen value.\<close>

fun immutable :: "pyval \<Rightarrow> bool" where
  "immutable (PList _) = False"
| "immutable (PSet _) = False"
| "immutable (PDict _) = False"
| "immutable (PBytearray _) = False"
| "immutable (POther _) = False"
| "immutable (PTuple xs) = list_all immutable xs"
| "immutable (PFrozenset xs) = list_all immutable xs"
| "immutable (PProxy kvs) = list_all (\<lambda>kv. is_pystr (fst kv) \<and> immutable (snd kv)) kvs"
| "immutable _ = True"

lemma freeze_immutable:
  "freeze_value v = Inr w \<Longrightarrow> immutable w"
  "freeze_items vs = Inr ws \<Longrightarrow> list_all immutable ws"
  "freeze_pairs kvs = Inr lvs \<Longrightarrow> list_all (\<lambda>kv. is_pystr (fst kv) \<and> immutable (snd kv)) lvs"
  by (induction v and vs and kvs arbitrary: w and ws and lvs
      rule: freeze_value_freeze_items_freeze_pairs.induct)
    (auto simp: bind_res_Inr_iff split: if_splits)

lemma freeze_fixpoint:
  "immutable v \<Longrightarrow> freeze_value v = Inr v"
  "list_all immutable vs \<Longrightarrow> freeze_items vs = Inr vs"
  "list_all (\<lambda>kv. is_pystr (fst kv) \<and> immutable (snd kv)) kvs \<Longrightarrow> freeze_pairs kvs = Inr kvs"
  by (induction v and vs and kvs rule: freeze_value_freeze_items_freeze_pairs.induct) auto

lemma freeze_mapping_Inr_iff:
  "freeze_mapping v = Inr v \<longleftrightarrow> is_mapping v \<and> immutable v"
  by (auto simp: freeze_mapping_def dest: freeze_immutable intro: freeze_fixpoint split: if_splits)

section \<open>Budgets\<close>

record execution_budget =
  max_iterations :: int
  max_mutations :: int
  max_verifications :: int
  iterations_used :: int
  mutations_used :: int
  verifications_used :: int

definition budget_errors :: "execution_budget \<Rightarrow> (bool \<times> py_error) list" where
  "budget_errors b =
    [(max_iterations b < 1, ValueError ''max_iterations must be a positive integer''),
     (max_mutations b < 1, ValueError ''max_mutations must be a positive integer''),
     (max_verifications b < 1, ValueError ''max_verifications must be a positive integer''),
     (iterations_used b < 0, ValueError ''iterations_used must be a non-negative integer''),
     (mutations_used b < 0, ValueError ''mutations_used must be a non-negative integer''),
     (verifications_used b < 0, ValueError ''verifications_used must be a non-negative integer''),
     (iterations_used b > max_iterations b,
        ValueError ''iterations_used cannot exceed max_iterations''),
     (mutations_used b > max_mutations b,
        ValueError ''mutations_used cannot exceed max_mutations''),
     (verifications_used b > max_verifications b,
        ValueError ''verifications_used cannot exceed max_verifications'')]"

definition make_budget :: "execution_budget \<Rightarrow> py_error + execution_budget" where
  "make_budget b = guarded (budget_errors b) b"

definition iterations_remaining :: "execution_budget \<Rightarrow> int" where
  "iterations_remaining b = max_iterations b - iterations_used b"

definition mutations_remaining :: "execution_budget \<Rightarrow> int" where
  "mutations_remaining b = max_mutations b - mutations_used b"

definition verifications_remaining :: "execution_budget \<Rightarrow> int" where
  "verifications_remaining b = max_verifications b - verifications_used b"

definition consume_iteration :: "execution_budget \<Rightarrow> py_error + execution_budget" where
  "consume_iteration b =
     (if iterations_remaining b = 0 then Inl (ValueError ''iteration budget is exhausted'')
      else make_budget (b\<lparr>iterations_used := iterations_used b + 1\<rparr>))"

definition consume_mutation :: "execution_budget \<Rightarrow> py_error + execution_budget" where
  "consume_mutation b =
     (if mutations_remaining b = 0 then Inl (ValueError ''mutation budget is exhausted'')
      else make_budget (b\<lparr>mutations_used := mutations_used b + 1\<rparr>))"

definition consume_verification :: "execution_budget \<Rightarrow> py_error + execution_budget" where
  "consume_verification b =
     (if verifications_remaining b = 0 then Inl (ValueError ''verification budget is exhausted'')
      else make_budget (b\<lparr>verifications_used := verifications_used b + 1\<rparr>))"

definition budget_ok :: "execution_budget \<Rightarrow> bool" where
  "budget_ok b \<longleftrightarrow>
     1 \<le> max_iterations b \<and> 1 \<le> max_mutations b \<and> 1 \<le> max_verifications b \<and>
     0 \<le> iterations_used b \<and> 0 \<le> mutations_used b \<and> 0 \<le> verifications_used b \<and>
     iterations_used b \<le> max_iterations b \<and> mutations_used b \<le> max_mutations b \<and>
     verifications_used b \<le> max_verifications b"

lemma make_budget_Inr_iff: "make_budget b = Inr b' \<longleftrightarrow> budget_ok b \<and> b' = b"
  by (auto simp: make_budget_def guarded_Inr_iff first_error_None_iff budget_errors_def budget_ok_def)

lemma consume_iteration_eq:
  "budget_ok b \<Longrightarrow> consume_iteration b =
     (if iterations_used b = max_iterations b
      then Inl (ValueError ''iteration budget is exhausted'')
      else Inr (b\<lparr>iterations_used := iterations_used b + 1\<rparr>))"
  by (auto simp: consume_iteration_def iterations_remaining_def make_budget_Inr_iff budget_ok_def)

lemma consume_mutation_eq:
  "budget_ok b \<Longrightarrow> consume_mutation b =
     (if mutations_used b = max_mutations b
      then Inl (ValueError ''mutation budget is exhausted'')
      else Inr (b\<lparr>mutations_used := mutations_used b + 1\<rparr>))"
  by (auto simp: consume_mutation_def mutations_remaining_def make_budget_Inr_iff budget_ok_def)

lemma consume_verification_eq:
  "budget_ok b \<Longrightarrow> consume_verification b =
     (if verifications_used b = max_verifications b
      then Inl (ValueError ''verification budget is exhausted'')
      else Inr (b\<lparr>verifications_used := verifications_used b + 1\<rparr>))"
  by (auto simp: consume_verification_def verifications_remaining_def make_budget_Inr_iff budget_ok_def)

section \<open>Evidence references and transition records\<close>

record evidence_ref =
  ev_kind :: evidence_kind
  reference_id :: string
  digest :: string
  ev_metadata :: pyval

definition make_evidence :: "evidence_ref \<Rightarrow> py_error + evidence_ref" where
  "make_evidence e =
     (if blank (reference_id e) then Inl (ValueError ''reference_id cannot be empty'')
      else bind_res (freeze_mapping (ev_metadata e)) (\<lambda>m. Inr (e\<lparr>ev_metadata := m\<rparr>)))"

record transition_record =
  sequence :: int
  rec_iteration :: int
  from_state :: exec_state
  to_state :: exec_state
  occurred_at :: int
  rec_reason :: "exec_stop_reason option"
  rec_evidence :: "evidence_ref list"

definition make_record :: "transition_record \<Rightarrow> py_error + transition_record" where
  "make_record r =
     guarded [(sequence r < 1, ValueError ''sequence must be a positive integer''),
              (rec_iteration r < 0, ValueError ''iteration must be a non-negative integer'')] r"

definition terminal_reason_errors :: "exec_state \<Rightarrow> exec_stop_reason option \<Rightarrow> (bool \<times> py_error) list" where
  "terminal_reason_errors target reason =
     (if \<not> is_terminal target
      then [(reason \<noteq> None, ValueError ''stop_reason is only legal for a terminal state'')]
      else
       [(reason = None, ValueError ''terminal transition requires a stop_reason''),
        (target = COMPLETED \<and> reason \<noteq> Some SUCCESS,
           ValueError ''completed state requires success stop reason''),
        (target = ABORTED \<and> reason \<noteq> Some USER_ABORTED,
           ValueError ''aborted state requires user_aborted stop reason''),
        (target = FAILED \<and> reason \<in> {Some SUCCESS, Some USER_ABORTED},
           ValueError ''failed state requires a failure stop reason'')])"

definition validate_terminal_stop_reason :: "exec_state \<Rightarrow> exec_stop_reason option \<Rightarrow> py_error option" where
  "validate_terminal_stop_reason target reason = first_error (terminal_reason_errors target reason)"

text \<open>What the contract says, as one predicate.\<close>

definition reason_ok :: "exec_state \<Rightarrow> exec_stop_reason option \<Rightarrow> bool" where
  "reason_ok target reason \<longleftrightarrow>
     (case reason of
        None \<Rightarrow> \<not> is_terminal target
      | Some r \<Rightarrow>
          (target = COMPLETED \<and> r = SUCCESS) \<or> (target = ABORTED \<and> r = USER_ABORTED) \<or>
          (target = FAILED \<and> r \<noteq> SUCCESS \<and> r \<noteq> USER_ABORTED))"

lemma validate_terminal_stop_reason_None_iff:
  "validate_terminal_stop_reason t r = None \<longleftrightarrow> reason_ok t r"
  by (cases t; cases r)
    (auto simp: validate_terminal_stop_reason_def terminal_reason_errors_def reason_ok_def is_terminal_def)

section \<open>The context and its ledger\<close>

record exec_context =
  execution_id :: string
  run_id :: string
  goal :: string
  state :: exec_state
  iteration :: int
  budget :: execution_budget
  history :: "transition_record list"
  evidence :: "evidence_ref list"
  stop_reason :: "exec_stop_reason option"
  ctx_metadata :: pyval

text \<open>The local variables of \<open>_validate_history\<close>'s loop.\<close>

record scan =
  expected_state :: exec_state
  expected_iteration :: int
  mutation_entries :: int
  verification_entries :: int
  ledger_evidence :: "evidence_ref list"

definition scan_start :: scan where
  "scan_start = \<lparr>expected_state = CREATED, expected_iteration = 0, mutation_entries = 0,
                 verification_entries = 0, ledger_evidence = []\<rparr>"

definition entered :: "exec_state \<Rightarrow> transition_record \<Rightarrow> int" where
  "entered s r = (if to_state r = s then 1 else 0)"

definition scan_record :: "int \<Rightarrow> scan \<Rightarrow> transition_record \<Rightarrow> py_error + scan" where
  "scan_record expected_sequence sc r =
     (let it = expected_iteration sc + entered CONTEXT_ASSEMBLING r in
      case first_error
        ([(sequence r \<noteq> expected_sequence,
             ValueError ''history sequence must be contiguous and start at one''),
          (from_state r \<noteq> expected_state sc,
             ValueError ''history transitions must originate at created and remain contiguous''),
          (to_state r \<notin> legal_transitions (from_state r),
             ValueError ''history contains an illegal transition''),
          (is_terminal (expected_state sc),
             ValueError ''terminal history state cannot have additional transitions''),
          (rec_iteration r \<noteq> it,
             ValueError ''history iteration must match the recorded lifecycle'')]
         @ terminal_reason_errors (to_state r) (rec_reason r)) of
        Some e \<Rightarrow> Inl e
      | None \<Rightarrow>
          Inr \<lparr>expected_state = to_state r, expected_iteration = it,
               mutation_entries = mutation_entries sc + entered MUTATING r,
               verification_entries = verification_entries sc + entered VERIFYING r,
               ledger_evidence = ledger_evidence sc @ rec_evidence r\<rparr>)"

fun scan_history :: "int \<Rightarrow> scan \<Rightarrow> transition_record list \<Rightarrow> py_error + scan" where
  "scan_history n sc [] = Inr sc"
| "scan_history n sc (r # rs) = bind_res (scan_record n sc r) (\<lambda>sc'. scan_history (n + 1) sc' rs)"

definition initial_context_errors :: "exec_context \<Rightarrow> (bool \<times> py_error) list" where
  "initial_context_errors c =
    [(state c \<noteq> CREATED, ValueError ''non-created context requires a valid transition history''),
     (iteration c \<noteq> 0 \<or> iterations_used (budget c) \<noteq> 0,
        ValueError ''created context cannot consume iteration budget''),
     (mutations_used (budget c) \<noteq> 0, ValueError ''created context cannot consume mutation budget''),
     (verifications_used (budget c) \<noteq> 0,
        ValueError ''created context cannot consume verification budget''),
     (evidence c \<noteq> [], ValueError ''created context cannot contain ledger evidence''),
     (stop_reason c \<noteq> None, ValueError ''created context cannot have a stop_reason'')]"

definition final_context_errors :: "exec_context \<Rightarrow> scan \<Rightarrow> (bool \<times> py_error) list" where
  "final_context_errors c sc =
    [(expected_state sc \<noteq> state c, ValueError ''history terminal state must equal current state''),
     (expected_iteration sc \<noteq> iteration c,
        ValueError ''history iteration must equal current iteration''),
     (iteration c \<noteq> iterations_used (budget c),
        ValueError ''iteration must equal the consumed iteration budget''),
     (mutation_entries sc \<noteq> mutations_used (budget c),
        ValueError ''mutation budget must equal legitimate mutating entries''),
     (verification_entries sc \<noteq> verifications_used (budget c),
        ValueError ''verification budget must equal legitimate verifying entries''),
     (ledger_evidence sc \<noteq> evidence c,
        ValueError ''context evidence must exactly equal flattened ledger evidence''),
     (is_terminal (state c) \<and> stop_reason c \<noteq> rec_reason (last (history c)),
        ValueError ''terminal context stop_reason must match the final ledger record''),
     (\<not> is_terminal (state c) \<and> stop_reason c \<noteq> None,
        ValueError ''stop_reason requires a terminal state'')]"

definition validate_history :: "exec_context \<Rightarrow> py_error option" where
  "validate_history c =
     (if history c = [] then first_error (initial_context_errors c)
      else case scan_history 1 scan_start (history c) of
             Inl e \<Rightarrow> Some e
           | Inr sc \<Rightarrow> first_error (final_context_errors c sc))"

definition make_context :: "exec_context \<Rightarrow> py_error + exec_context" where
  "make_context c =
     (case first_error
        [(blank (execution_id c), ValueError ''execution_id cannot be empty''),
         (blank (run_id c), ValueError ''run_id cannot be empty''),
         (blank (goal c), ValueError ''goal cannot be empty''),
         (iteration c < 0, ValueError ''iteration must be a non-negative integer'')] of
        Some e \<Rightarrow> Inl e
      | None \<Rightarrow>
          (case validate_history c of
             Some e \<Rightarrow> Inl e
           | None \<Rightarrow> bind_res (freeze_mapping (ctx_metadata c)) (\<lambda>m. Inr (c\<lparr>ctx_metadata := m\<rparr>))))"

text \<open>
  A context that its own constructor accepts unchanged, over a budget that its constructor accepts:
  the values of type \<open>GovernedExecutionContext\<close> the program can hold.
\<close>

definition valid_context :: "exec_context \<Rightarrow> bool" where
  "valid_context c \<longleftrightarrow> make_context c = Inr c \<and> make_budget (budget c) = Inr (budget c)"

section \<open>Facts about the scan\<close>

definition record_ok :: "int \<Rightarrow> exec_state \<Rightarrow> int \<Rightarrow> transition_record \<Rightarrow> bool" where
  "record_ok n s i r \<longleftrightarrow>
     sequence r = n \<and> from_state r = s \<and> to_state r \<in> legal_transitions s \<and> \<not> is_terminal s \<and>
     rec_iteration r = i + entered CONTEXT_ASSEMBLING r \<and> reason_ok (to_state r) (rec_reason r)"

definition scan_next :: "scan \<Rightarrow> transition_record \<Rightarrow> scan" where
  "scan_next sc r =
     \<lparr>expected_state = to_state r,
      expected_iteration = expected_iteration sc + entered CONTEXT_ASSEMBLING r,
      mutation_entries = mutation_entries sc + entered MUTATING r,
      verification_entries = verification_entries sc + entered VERIFYING r,
      ledger_evidence = ledger_evidence sc @ rec_evidence r\<rparr>"

lemma legal_not_terminal: "t \<in> legal_transitions s \<Longrightarrow> \<not> is_terminal s"
  by (cases s) (auto simp: is_terminal_def)

lemma scan_record_Inr_iff:
  "scan_record n sc r = Inr sc' \<longleftrightarrow>
     record_ok n (expected_state sc) (expected_iteration sc) r \<and> sc' = scan_next sc r"
proof -
  have "first_error (terminal_reason_errors (to_state r) (rec_reason r)) = None
          \<longleftrightarrow> reason_ok (to_state r) (rec_reason r)"
    using validate_terminal_stop_reason_None_iff [of "to_state r" "rec_reason r"]
    by (simp add: validate_terminal_stop_reason_def)
  then show ?thesis
    by (auto simp: scan_record_def Let_def record_ok_def scan_next_def first_error_append
        split: option.splits if_splits)
qed

lemma scan_history_append:
  "scan_history n sc (rs @ ts) =
     bind_res (scan_history n sc rs) (\<lambda>sc'. scan_history (n + int (length rs)) sc' ts)"
proof (induction rs arbitrary: n sc)
  case (Cons r rs)
  then show ?case by (cases "scan_record n sc r") (simp_all add: algebra_simps)
qed simp

lemma scan_history_snoc_Inr_iff:
  "scan_history n sc (rs @ [r]) = Inr sc' \<longleftrightarrow>
     (\<exists>m. scan_history n sc rs = Inr m \<and>
          record_ok (n + int (length rs)) (expected_state m) (expected_iteration m) r \<and>
          sc' = scan_next m r)"
  by (auto simp: scan_history_append bind_res_Inr_iff scan_record_Inr_iff)

text \<open>Validity of a context, spelled out.\<close>

definition ledger_ok :: "exec_context \<Rightarrow> bool" where
  "ledger_ok c \<longleftrightarrow>
     (\<exists>sc. scan_history 1 scan_start (history c) = Inr sc \<and>
       expected_state sc = state c \<and> expected_iteration sc = iteration c \<and>
       iteration c = iterations_used (budget c) \<and> mutation_entries sc = mutations_used (budget c) \<and>
       verification_entries sc = verifications_used (budget c) \<and> ledger_evidence sc = evidence c \<and>
       (if is_terminal (state c) then stop_reason c = rec_reason (last (history c))
        else stop_reason c = None))"

lemma validate_history_None_iff: "validate_history c = None \<longleftrightarrow> ledger_ok c"
proof (cases "history c = []")
  case True
  then show ?thesis
    by (auto simp: validate_history_def initial_context_errors_def ledger_ok_def scan_start_def
        is_terminal_def)
next
  case False
  then show ?thesis
    by (auto simp: validate_history_def final_context_errors_def ledger_ok_def
        split: sum.splits if_splits)
qed

definition header_ok :: "exec_context \<Rightarrow> bool" where
  "header_ok c \<longleftrightarrow> \<not> blank (execution_id c) \<and> \<not> blank (run_id c) \<and> \<not> blank (goal c) \<and>
     is_mapping (ctx_metadata c) \<and> immutable (ctx_metadata c)"

lemma scan_history_iteration_nonneg:
  "scan_history n sc rs = Inr sc' \<Longrightarrow> expected_iteration sc \<le> expected_iteration sc'"
proof (induction rs arbitrary: n sc)
  case (Cons r rs)
  then show ?case
    by (fastforce simp: bind_res_Inr_iff scan_record_Inr_iff scan_next_def entered_def split: if_splits)
qed simp

lemma ctx_metadata_update_id: "c\<lparr>ctx_metadata := m\<rparr> = c \<longleftrightarrow> m = ctx_metadata c"
  by (cases c) auto

lemma valid_context_iff:
  "valid_context c \<longleftrightarrow> header_ok c \<and> ledger_ok c \<and> budget_ok (budget c)"
proof -
  have nn: "0 \<le> iteration c" if "ledger_ok c"
    using that scan_history_iteration_nonneg [of 1 scan_start "history c"]
    by (auto simp: ledger_ok_def scan_start_def)
  have "make_context c = Inr c \<longleftrightarrow> header_ok c \<and> ledger_ok c"
    using nn unfolding validate_history_None_iff [symmetric]
    by (auto simp: make_context_def header_ok_def freeze_mapping_Inr_iff
        bind_res_Inr_iff ctx_metadata_update_id split: if_splits option.splits)
  then show ?thesis
    by (simp add: valid_context_def make_budget_Inr_iff)
qed

lemmas valid_contextD = valid_context_iff [THEN iffD1]

end
