(* ===== verification/StateMachine.thy ===== *)
theory StateMachine
  imports ExecutionLedger
begin

text \<open>
  The transition controller: \<open>src/eag/governed_execution/state_machine.py\<close>. A transition is refused
  with the old context, or appends one record to the ledger. The event bus is told afterwards; its
  handlers may raise, and nothing they do changes the result.
\<close>

section \<open>Transitions\<close>

record transition_result =
  accepted :: bool
  res_context :: exec_context
  error_code :: "string option"

datatype exec_event =
    ExecutionStarted string string int int exec_state
  | ExecutionTransitioned string string int int exec_state exec_state nat
  | ExecutionStopped string string int int exec_state exec_stop_reason

definition is_legal :: "exec_state \<Rightarrow> exec_state \<Rightarrow> bool" where
  "is_legal s t \<longleftrightarrow> t \<in> legal_transitions s"

text \<open>
  The first half of \<open>_advance\<close>: entering \<open>CONTEXT_ASSEMBLING\<close>, \<open>MUTATING\<close> or \<open>VERIFYING\<close> spends a
  budget; an exhausted budget turns the target into \<open>FAILED\<close> with its own stop reason.
\<close>

definition spend :: "exec_context \<Rightarrow> exec_state \<Rightarrow>
    exec_state \<times> int \<times> execution_budget \<times> exec_stop_reason option" where
  "spend c target =
     (case target of
        CONTEXT_ASSEMBLING \<Rightarrow>
          (case consume_iteration (budget c) of
             Inr b \<Rightarrow> (target, iterations_used b, b, None)
           | Inl _ \<Rightarrow> (FAILED, iteration c, budget c, Some ITERATION_BUDGET_EXHAUSTED))
      | MUTATING \<Rightarrow>
          (case consume_mutation (budget c) of
             Inr b \<Rightarrow> (target, iteration c, b, None)
           | Inl _ \<Rightarrow> (FAILED, iteration c, budget c, Some MUTATION_BUDGET_EXHAUSTED))
      | VERIFYING \<Rightarrow>
          (case consume_verification (budget c) of
             Inr b \<Rightarrow> (target, iteration c, b, None)
           | Inl _ \<Rightarrow> (FAILED, iteration c, budget c, Some VERIFICATION_BUDGET_EXHAUSTED))
      | _ \<Rightarrow> (target, iteration c, budget c, None))"

definition py_or :: "'a option \<Rightarrow> 'a option \<Rightarrow> 'a option" where
  "py_or a b = (case a of Some x \<Rightarrow> Some x | None \<Rightarrow> b)"

definition advance :: "exec_context \<Rightarrow> exec_state \<Rightarrow> evidence_ref list \<Rightarrow> exec_stop_reason option \<Rightarrow> int
    \<Rightarrow> py_error + exec_context" where
  "advance c target ev reason now =
     (case spend c target of (t, it, b, exhausted) \<Rightarrow>
       (let r = py_or exhausted reason in
        case validate_terminal_stop_reason t r of
          Some e \<Rightarrow> Inl e
        | None \<Rightarrow>
            bind_res (make_record \<lparr>sequence = int (length (history c)) + 1, rec_iteration = it,
                        from_state = state c, to_state = t, occurred_at = now, rec_reason = r,
                        rec_evidence = ev\<rparr>) (\<lambda>rec.
              make_context (c\<lparr>state := t, iteration := it, budget := b, history := history c @ [rec],
                              evidence := evidence c @ ev, stop_reason := r\<rparr>))))"

definition budget_or_validation_code :: "string \<Rightarrow> string" where
  "budget_or_validation_code message =
     (if sublist ''budget'' message then ''budget_exhausted''
      else if sublist ''stop_reason'' message \<or> sublist ''stop reason'' message
      then ''invalid_stop_reason'' else ''invalid_transition_input'')"

fun publish :: "(exec_event \<Rightarrow> bool) \<Rightarrow> exec_event list \<Rightarrow> exec_event list" where
  "publish raises [] = []"
| "publish raises (e # es) = e # (if raises e then [] else publish raises es)"

definition transition_events :: "exec_context \<Rightarrow> exec_context \<Rightarrow> exec_event list" where
  "transition_events prev cur =
     (let r = last (history cur) in
      (if state prev = CREATED
       then [ExecutionStarted (execution_id cur) (run_id cur) (iteration cur) (sequence r) (state cur)]
       else [])
      @ [ExecutionTransitioned (execution_id cur) (run_id cur) (iteration cur) (sequence r)
           (state prev) (state cur) (length (rec_evidence r))]
      @ (case stop_reason cur of
           Some why \<Rightarrow>
             if is_terminal (state cur)
             then [ExecutionStopped (execution_id cur) (run_id cur) (iteration cur) (sequence r)
                     (state cur) why]
             else []
         | None \<Rightarrow> []))"

text \<open>
  \<open>transition\<close>: the result, and the events handed to the bus (none without a bus; a handler that
  raises ends the publication). A \<open>TypeError\<close> is not caught.
\<close>

definition transition :: "(exec_event \<Rightarrow> bool) option \<Rightarrow> exec_context \<Rightarrow> exec_state \<Rightarrow>
    evidence_ref list \<Rightarrow> exec_stop_reason option \<Rightarrow> int \<Rightarrow> py_error + transition_result \<times> exec_event list" where
  "transition bus c target ev reason now =
     (if \<not> is_legal (state c) target
      then Inr (\<lparr>accepted = False, res_context = c, error_code = Some ''illegal_transition''\<rparr>, [])
      else case advance c target ev reason now of
             Inl (ValueError m) \<Rightarrow>
               Inr (\<lparr>accepted = False, res_context = c,
                     error_code = Some (budget_or_validation_code m)\<rparr>, [])
           | Inl (TypeError m) \<Rightarrow> Inl (TypeError m)
           | Inr c' \<Rightarrow>
               Inr (\<lparr>accepted = True, res_context = c', error_code = None\<rparr>,
                    case bus of None \<Rightarrow> [] | Some raises \<Rightarrow> publish raises (transition_events c c')))"

datatype transition_exn = IllegalTransition exec_state exec_state | Rejected "string option" | Uncaught py_error

definition transition_or_raise :: "(exec_event \<Rightarrow> bool) option \<Rightarrow> exec_context \<Rightarrow> exec_state \<Rightarrow>
    evidence_ref list \<Rightarrow> exec_stop_reason option \<Rightarrow> int \<Rightarrow> transition_exn + exec_context" where
  "transition_or_raise bus c target ev reason now =
     (case transition bus c target ev reason now of
        Inl e \<Rightarrow> Inl (Uncaught e)
      | Inr (res, _) \<Rightarrow>
          if accepted res then Inr (res_context res)
          else if error_code res = Some ''illegal_transition''
          then Inl (IllegalTransition (state c) target)
          else Inl (Rejected (error_code res)))"

section \<open>The record a transition appends\<close>

definition next_record :: "exec_context \<Rightarrow> exec_state \<Rightarrow> evidence_ref list \<Rightarrow> exec_stop_reason option \<Rightarrow> int
    \<Rightarrow> transition_record" where
  "next_record c target ev reason now =
     (case spend c target of (t, it, b, exhausted) \<Rightarrow>
        \<lparr>sequence = int (length (history c)) + 1, rec_iteration = it, from_state = state c,
         to_state = t, occurred_at = now, rec_reason = py_or exhausted reason, rec_evidence = ev\<rparr>)"

definition next_context :: "exec_context \<Rightarrow> exec_state \<Rightarrow> evidence_ref list \<Rightarrow> exec_stop_reason option \<Rightarrow> int
    \<Rightarrow> exec_context" where
  "next_context c target ev reason now =
     (case spend c target of (t, it, b, exhausted) \<Rightarrow>
        c\<lparr>state := t, iteration := it, budget := b,
          history := history c @ [next_record c target ev reason now],
          evidence := evidence c @ ev, stop_reason := py_or exhausted reason\<rparr>)"

text \<open>The effective target and stop reason of a request.\<close>

definition exhausted :: "exec_context \<Rightarrow> exec_state \<Rightarrow> bool" where
  "exhausted c target \<longleftrightarrow>
     (target = CONTEXT_ASSEMBLING \<and> iterations_used (budget c) = max_iterations (budget c)) \<or>
     (target = MUTATING \<and> mutations_used (budget c) = max_mutations (budget c)) \<or>
     (target = VERIFYING \<and> verifications_used (budget c) = max_verifications (budget c))"

section \<open>One transition from a valid context\<close>

lemma scan_history_started:
  "scan_history n sc rs = Inr sc' \<Longrightarrow> rs \<noteq> [] \<Longrightarrow> expected_state sc' \<noteq> CREATED"
proof (induction rs arbitrary: n sc)
  case (Cons r rs)
  have "to_state r \<noteq> CREATED" if "to_state r \<in> legal_transitions s" for s
    using that by (cases s) auto
  with Cons show ?case
    by (cases "rs = []") (auto simp: bind_res_Inr_iff scan_record_Inr_iff scan_next_def record_ok_def)
qed simp

lemma created_fresh: "ledger_ok c \<Longrightarrow> state c = CREATED \<Longrightarrow> history c = [] \<and> iteration c = 0"
  using scan_history_started [of 1 scan_start "history c"]
  by (cases "history c = []") (auto simp: ledger_ok_def scan_start_def)

text \<open>What \<open>spend\<close> hands to the record: still legal, within budget, and counted.\<close>

definition spent_ok :: "exec_context \<Rightarrow> exec_state \<Rightarrow>
    exec_state \<times> int \<times> execution_budget \<times> exec_stop_reason option \<Rightarrow> bool" where
  "spent_ok c target p \<longleftrightarrow> (case p of (t, it, b, ex) \<Rightarrow>
     t \<in> legal_transitions (state c) \<and> budget_ok b \<and>
     max_iterations b = max_iterations (budget c) \<and> max_mutations b = max_mutations (budget c) \<and>
     max_verifications b = max_verifications (budget c) \<and>
     it = iteration c + (if t = CONTEXT_ASSEMBLING then 1 else 0) \<and> iterations_used b = it \<and>
     mutations_used b = mutations_used (budget c) + (if t = MUTATING then 1 else 0) \<and>
     verifications_used b = verifications_used (budget c) + (if t = VERIFYING then 1 else 0) \<and>
     (if exhausted c target then t = FAILED \<and> ex \<noteq> None \<and> reason_ok FAILED ex
      else t = target \<and> ex = None))"

lemma FAILED_alternative:
  "t \<in> legal_transitions s \<Longrightarrow> t \<in> {CONTEXT_ASSEMBLING, MUTATING, VERIFYING} \<Longrightarrow> s \<noteq> CREATED \<Longrightarrow>
     FAILED \<in> legal_transitions s"
  by (cases s) auto

lemma valid_iteration_used: "valid_context c \<Longrightarrow> iterations_used (budget c) = iteration c"
  by (auto simp: valid_context_iff ledger_ok_def)

lemma spend_ok:
  assumes "valid_context c" and "target \<in> legal_transitions (state c)"
  shows "spent_ok c target (spend c target)"
proof -
  have b: "budget_ok (budget c)" and l: "ledger_ok c"
    using assms(1) by (simp_all add: valid_context_iff)
  have used: "iterations_used (budget c) = iteration c"
    using assms(1) by (rule valid_iteration_used)
  have started: "state c \<noteq> CREATED" if "exhausted c target"
  proof
    assume s: "state c = CREATED"
    with created_fresh [OF l] used have "iterations_used (budget c) = 0" by simp
    with that s assms(2) b show False by (auto simp: exhausted_def budget_ok_def)
  qed
  have F: "FAILED \<in> legal_transitions (state c)" if "exhausted c target"
    using FAILED_alternative [OF assms(2) _ started [OF that]] that by (auto simp: exhausted_def)
  show ?thesis
  proof (cases "exhausted c target")
    case True
    with F b used show ?thesis
      by (auto simp: spent_ok_def spend_def exhausted_def consume_iteration_eq consume_mutation_eq
          consume_verification_eq reason_ok_def)
  next
    case False
    with b used assms(2) show ?thesis
      by (cases target)
        (auto simp: spent_ok_def spend_def exhausted_def consume_iteration_eq consume_mutation_eq
          consume_verification_eq budget_ok_def)
  qed
qed

lemma next_context_valid:
  assumes v: "valid_context c" and l: "target \<in> legal_transitions (state c)"
    and r: "reason_ok (to_state (next_record c target ev reason now))
              (rec_reason (next_record c target ev reason now))"
  shows "valid_context (next_context c target ev reason now)"
proof -
  obtain t it b ex where sp: "spend c target = (t, it, b, ex)" by (cases "spend c target")
  have ok: "spent_ok c target (t, it, b, ex)" using spend_ok [OF v l] by (simp add: sp)
  obtain sc where sc: "scan_history 1 scan_start (history c) = Inr sc" "expected_state sc = state c"
    "expected_iteration sc = iteration c" "mutation_entries sc = mutations_used (budget c)"
    "verification_entries sc = verifications_used (budget c)" "ledger_evidence sc = evidence c"
    using v by (auto simp: valid_context_iff ledger_ok_def)
  let ?r = "next_record c target ev reason now"
  have rec: "record_ok (1 + int (length (history c))) (expected_state sc) (expected_iteration sc) ?r"
    using ok sc r l legal_not_terminal
    by (auto simp: record_ok_def next_record_def sp spent_ok_def entered_def)
  then have scan: "scan_history 1 scan_start (history c @ [?r]) = Inr (scan_next sc ?r)"
    using sc by (simp add: scan_history_snoc_Inr_iff)
  have "\<not> is_terminal t \<Longrightarrow> py_or ex reason = None"
    using r by (auto simp: next_record_def sp reason_ok_def is_terminal_def split: option.splits)
  then have "ledger_ok (next_context c target ev reason now)"
    using scan ok sc
    by (auto simp: ledger_ok_def next_context_def sp scan_next_def next_record_def spent_ok_def
        entered_def)
  moreover have "header_ok (next_context c target ev reason now)"
    using v by (auto simp: valid_context_iff header_ok_def next_context_def sp)
  moreover have "budget_ok (budget (next_context c target ev reason now))"
    using ok by (auto simp: next_context_def sp spent_ok_def)
  ultimately show ?thesis by (simp add: valid_context_iff)
qed

lemma make_record_next: "valid_context c \<Longrightarrow> target \<in> legal_transitions (state c) \<Longrightarrow>
    make_record (next_record c target ev reason now) = Inr (next_record c target ev reason now)"
  using spend_ok [of c target]
  by (auto simp: make_record_def guarded_Inr_iff next_record_def spent_ok_def budget_ok_def
      split: prod.splits)

text \<open>\<open>_advance\<close> from a valid context: only the stop reason can be wrong.\<close>

lemma advance_eq:
  assumes v: "valid_context c" and l: "target \<in> legal_transitions (state c)"
  shows "advance c target ev reason now =
    (let r = next_record c target ev reason now in
     case validate_terminal_stop_reason (to_state r) (rec_reason r) of
       Some e \<Rightarrow> Inl e | None \<Rightarrow> Inr (next_context c target ev reason now))"
proof -
  obtain t it b ex where sp: "spend c target = (t, it, b, ex)" by (cases "spend c target")
  let ?r = "next_record c target ev reason now"
  have fields: "to_state ?r = t" "rec_reason ?r = py_or ex reason"
    by (simp_all add: next_record_def sp)
  have rec: "?r = \<lparr>sequence = int (length (history c)) + 1, rec_iteration = it,
      from_state = state c, to_state = t, occurred_at = now, rec_reason = py_or ex reason,
      rec_evidence = ev\<rparr>"
    by (simp add: next_record_def sp)
  have ctx: "next_context c target ev reason now =
      c\<lparr>state := t, iteration := it, budget := b, history := history c @ [?r],
        evidence := evidence c @ ev, stop_reason := py_or ex reason\<rparr>"
    by (simp add: next_context_def sp)
  show ?thesis
  proof (cases "validate_terminal_stop_reason t (py_or ex reason)")
    case None
    then have "valid_context (next_context c target ev reason now)"
      using next_context_valid [OF v l] fields by (simp add: validate_terminal_stop_reason_None_iff)
    then have "make_context (next_context c target ev reason now)
        = Inr (next_context c target ev reason now)"
      by (simp add: valid_context_def)
    then show ?thesis
      using None make_record_next [OF v l, of ev reason now] fields
      by (simp add: advance_def sp Let_def flip: rec ctx)
  next
    case (Some e)
    then show ?thesis using fields by (simp add: advance_def sp Let_def)
  qed
qed

lemma reason_error_code:
  "validate_terminal_stop_reason t r = Some e \<Longrightarrow>
     \<exists>m. e = ValueError m \<and> budget_or_validation_code m = ''invalid_stop_reason''"
proof -
  assume "validate_terminal_stop_reason t r = Some e"
  then have "(True, e) \<in> set (terminal_reason_errors t r)"
    by (auto simp: validate_terminal_stop_reason_def dest: first_error_SomeD)
  moreover have "budget_or_validation_code m = ''invalid_stop_reason''"
    if "m \<in> {''stop_reason is only legal for a terminal state'',
             ''terminal transition requires a stop_reason'',
             ''completed state requires success stop reason'',
             ''aborted state requires user_aborted stop reason'',
             ''failed state requires a failure stop reason''}" for m
    using that by (elim insertE emptyE) (simp_all, code_simp+)
  ultimately show ?thesis
    by (auto simp: terminal_reason_errors_def split: if_splits)
qed

section \<open>The result of a transition\<close>

definition effective_ok :: "exec_context \<Rightarrow> exec_state \<Rightarrow> exec_stop_reason option \<Rightarrow> bool" where
  "effective_ok c target reason \<longleftrightarrow> exhausted c target \<or> reason_ok target reason"

lemma effective_ok_iff:
  assumes "valid_context c" and "target \<in> legal_transitions (state c)"
  shows "reason_ok (to_state (next_record c target ev reason now))
           (rec_reason (next_record c target ev reason now)) \<longleftrightarrow> effective_ok c target reason"
  using spend_ok [OF assms]
  by (auto simp: spent_ok_def next_record_def effective_ok_def py_or_def reason_ok_def
      split: prod.splits if_splits option.splits)

lemma transition_result_eq:
  assumes v: "valid_context c"
  shows "transition bus c target ev reason now =
    (if target \<notin> legal_transitions (state c)
     then Inr (\<lparr>accepted = False, res_context = c, error_code = Some ''illegal_transition''\<rparr>, [])
     else if \<not> effective_ok c target reason
     then Inr (\<lparr>accepted = False, res_context = c, error_code = Some ''invalid_stop_reason''\<rparr>, [])
     else Inr (\<lparr>accepted = True, res_context = next_context c target ev reason now,
                error_code = None\<rparr>,
               case bus of None \<Rightarrow> []
               | Some raises \<Rightarrow>
                   publish raises (transition_events c (next_context c target ev reason now))))"
proof (cases "target \<in> legal_transitions (state c)")
  case True
  let ?r = "next_record c target ev reason now"
  have eff: "validate_terminal_stop_reason (to_state ?r) (rec_reason ?r) = None
      \<longleftrightarrow> effective_ok c target reason"
    using effective_ok_iff [OF v True] by (simp add: validate_terminal_stop_reason_None_iff)
  show ?thesis
  proof (cases "validate_terminal_stop_reason (to_state ?r) (rec_reason ?r)")
    case None
    with eff True show ?thesis
      by (simp add: transition_def is_legal_def advance_eq [OF v True] Let_def)
  next
    case (Some e)
    then obtain m where "e = ValueError m" "budget_or_validation_code m = ''invalid_stop_reason''"
      using reason_error_code by blast
    with Some eff True show ?thesis
      by (simp add: transition_def is_legal_def advance_eq [OF v True] Let_def)
  qed
qed (simp add: transition_def is_legal_def)

end
