(* ===== verification/ExecutionRuns.thy ===== *)
theory ExecutionRuns
  imports StateMachine
begin

text \<open>
  Runs of the transition controller. The step relation is one accepted call of \<open>transition\<close>; the
  reconstruction check of the ledger (\<open>_validate_history\<close>) accepts exactly the contexts that runs of
  the controller reach, so a stored ledger that validates is the ledger of a legal execution.
\<close>

section \<open>Steps and reachability\<close>

inductive ledger_step :: "exec_context \<Rightarrow> exec_context \<Rightarrow> bool" where
  accept: "transition bus c target ev reason now = Inr (res, evs) \<Longrightarrow> accepted res \<Longrightarrow>
     ledger_step c (res_context res)"

inductive_cases ledger_stepE: "ledger_step c c'"

inductive ledger_reachable :: "exec_context \<Rightarrow> exec_context \<Rightarrow> bool" for c0 where
  start: "ledger_reachable c0 c0"
| step: "ledger_reachable c0 c \<Longrightarrow> ledger_step c c' \<Longrightarrow> ledger_reachable c0 c'"

text \<open>The freshly created context of the same execution.\<close>

definition rewind :: "exec_context \<Rightarrow> exec_context" where
  "rewind c = c\<lparr>state := CREATED, iteration := 0,
     budget := (budget c)\<lparr>iterations_used := 0, mutations_used := 0, verifications_used := 0\<rparr>,
     history := [], evidence := [], stop_reason := None\<rparr>"

lemma ledger_step_next:
  assumes "valid_context c" and "ledger_step c c'"
  obtains target ev reason now where "target \<in> legal_transitions (state c)"
    and "effective_ok c target reason" and "c' = next_context c target ev reason now"
  using assms(2)
proof (cases rule: ledger_step.cases)
  case (accept bus target ev reason now res evs)
  then show ?thesis
    using that [of target reason ev now] transition_result_eq [OF assms(1), of bus target ev reason now]
    by (auto split: if_splits)
qed

lemma next_context_step:
  assumes "valid_context c" and "target \<in> legal_transitions (state c)"
    and "effective_ok c target reason"
  shows "ledger_step c (next_context c target ev reason now)"
  using ledger_step.accept [of None c target ev reason now]
    transition_result_eq [OF assms(1), of None target ev reason now] assms by auto

lemma ledger_step_valid [inv_intros]:
  assumes "valid_context c" and "ledger_step c c'"
  shows "valid_context c'"
  using ledger_step_next [OF assms] next_context_valid [OF assms(1)] effective_ok_iff [OF assms(1)]
  by metis

lemma ledger_step_frame:
  assumes "valid_context c" and "ledger_step c c'"
  shows "\<exists>r. history c' = history c @ [r] \<and> evidence c' = evidence c @ rec_evidence r \<and>
    state c' = to_state r \<and> execution_id c' = execution_id c \<and> run_id c' = run_id c \<and>
    goal c' = goal c \<and> ctx_metadata c' = ctx_metadata c \<and> rewind c' = rewind c"
  using assms
proof (elim ledger_step_next)
  fix target ev reason now
  assume l: "target \<in> legal_transitions (state c)"
    and c': "c' = next_context c target ev reason now"
  have "spent_ok c target (spend c target)" using assms(1) l by (rule spend_ok)
  then show ?thesis
    unfolding c'
    by (auto simp: next_context_def next_record_def rewind_def spent_ok_def split: prod.splits)
qed

lemma reachable_valid:
  "ledger_reachable c0 c \<Longrightarrow> valid_context c0 \<Longrightarrow> valid_context c"
  by (induction rule: ledger_reachable.induct) (auto intro: inv_intros)

lemma reachable_rewind:
  "ledger_reachable c0 c \<Longrightarrow> valid_context c0 \<Longrightarrow> rewind c = rewind c0"
proof (induction rule: ledger_reachable.induct)
  case (step c c')
  then show ?case
    using ledger_step_frame [OF reachable_valid [OF step.hyps(1)]] by auto
qed simp

section \<open>Undoing the last record\<close>

lemma scan_next_counts:
  "scan_history n sc rs = Inr sc' \<Longrightarrow>
     mutation_entries sc \<le> mutation_entries sc' \<and> verification_entries sc \<le> verification_entries sc'"
proof (induction rs arbitrary: n sc)
  case (Cons r rs)
  then show ?case
    by (fastforce simp: bind_res_Inr_iff scan_record_Inr_iff scan_next_def entered_def split: if_splits)
qed simp

definition undo :: "exec_context \<Rightarrow> transition_record list \<Rightarrow> scan \<Rightarrow> exec_context" where
  "undo c rs m = c\<lparr>state := expected_state m, iteration := expected_iteration m,
     budget := (budget c)\<lparr>iterations_used := expected_iteration m,
                          mutations_used := mutation_entries m,
                          verifications_used := verification_entries m\<rparr>,
     history := rs, evidence := ledger_evidence m, stop_reason := None\<rparr>"

lemma undo_sel [simp]:
  "state (undo c rs m) = expected_state m" "iteration (undo c rs m) = expected_iteration m"
  "budget (undo c rs m) = (budget c)\<lparr>iterations_used := expected_iteration m,
     mutations_used := mutation_entries m, verifications_used := verification_entries m\<rparr>"
  "history (undo c rs m) = rs" "evidence (undo c rs m) = ledger_evidence m"
  by (simp_all add: undo_def)

lemma undo_valid:
  assumes v: "valid_context c" and h: "history c = rs @ [r]"
    and m: "scan_history 1 scan_start rs = Inr m"
    and rec: "record_ok (1 + int (length rs)) (expected_state m) (expected_iteration m) r"
    and fin: "iteration c = expected_iteration (scan_next m r)"
      "mutations_used (budget c) = mutation_entries (scan_next m r)"
      "verifications_used (budget c) = verification_entries (scan_next m r)"
  shows "valid_context (undo c rs m)"
proof -
  have nn: "0 \<le> expected_iteration m" "0 \<le> mutation_entries m" "0 \<le> verification_entries m"
    using scan_history_iteration_nonneg [OF m] scan_next_counts [OF m]
    by (simp_all add: scan_start_def)
  have "ledger_ok (undo c rs m)"
    using m rec by (simp add: ledger_ok_def undo_def record_ok_def)
  moreover have "header_ok (undo c rs m)"
    using v by (simp add: valid_context_iff header_ok_def undo_def)
  moreover have "budget_ok (budget (undo c rs m))"
    using v nn fin
    by (auto simp: valid_context_iff budget_ok_def undo_def ledger_ok_def scan_next_def entered_def
        split: if_splits)
  ultimately show ?thesis by (simp add: valid_context_iff)
qed

lemma undo_step:
  assumes v: "valid_context c" and h: "history c = rs @ [r]"
  obtains p where "valid_context p" "ledger_step p c" "history p = rs" "rewind p = rewind c"
proof -
  obtain sc where sc: "scan_history 1 scan_start (rs @ [r]) = Inr sc" "expected_state sc = state c"
    "expected_iteration sc = iteration c" "iteration c = iterations_used (budget c)"
    "mutation_entries sc = mutations_used (budget c)"
    "verification_entries sc = verifications_used (budget c)" "ledger_evidence sc = evidence c"
    and stop: "if is_terminal (state c) then stop_reason c = rec_reason r else stop_reason c = None"
    using v h by (auto simp: valid_context_iff ledger_ok_def)
  obtain m where m: "scan_history 1 scan_start rs = Inr m"
    and rec: "record_ok (1 + int (length rs)) (expected_state m) (expected_iteration m) r"
    and scm: "sc = scan_next m r"
    using sc(1) by (auto simp: scan_history_snoc_Inr_iff)
  let ?p = "undo c rs m"
  have vp: "valid_context ?p"
    using undo_valid [OF v h m rec] sc scm by simp
  have bc: "budget_ok (budget c)" using v by (simp add: valid_context_iff)
  have legal: "to_state r \<in> legal_transitions (state ?p)"
    using rec by (simp add: record_ok_def undo_def)
  have fresh: "\<not> exhausted ?p (to_state r)"
    using bc sc scm by (auto simp: exhausted_def undo_def scan_next_def entered_def budget_ok_def)
  have eff: "effective_ok ?p (to_state r) (rec_reason r)"
    using rec by (simp add: effective_ok_def record_ok_def)
  obtain t it b ex where sp: "spend ?p (to_state r) = (t, it, b, ex)"
    by (cases "spend ?p (to_state r)")
  have ok: "spent_ok ?p (to_state r) (t, it, b, ex)"
    using spend_ok [OF vp legal] by (simp add: sp)
  have t: "t = to_state r" and ex: "ex = None" using ok fresh by (simp_all add: spent_ok_def)
  have reason: "stop_reason c = rec_reason r"
    using stop rec sc scm by (cases "rec_reason r") (auto simp: record_ok_def reason_ok_def is_terminal_def scan_next_def)
  have bud: "b = budget c"
    using ok t sc scm by (auto simp: spent_ok_def undo_def scan_next_def entered_def intro!: execution_budget.equality)
  have nr: "next_record ?p (to_state r) (rec_evidence r) (rec_reason r) (occurred_at r) = r"
    unfolding next_record_def sp prod.case using rec ok t ex
    by (cases r) (auto simp: record_ok_def spent_ok_def entered_def py_or_def)
  have "next_context ?p (to_state r) (rec_evidence r) (rec_reason r) (occurred_at r) = c"
    unfolding next_context_def sp nr prod.case
    using ok t ex sc scm h reason bud
    by (cases c) (auto simp: undo_def scan_next_def spent_ok_def py_or_def entered_def)
  then have "ledger_step ?p c"
    using next_context_step [OF vp legal eff, of "rec_evidence r" "occurred_at r"] by simp
  moreover have "rewind ?p = rewind c" by (simp add: rewind_def undo_def)
  ultimately show ?thesis using that [of ?p] vp by (simp add: undo_def)
qed

section \<open>Validated ledgers are the ledgers of runs\<close>

lemma valid_empty_history: "valid_context c \<Longrightarrow> history c = [] \<Longrightarrow> rewind c = c"
  by (cases c; cases "budget c")
    (auto simp: valid_context_iff ledger_ok_def scan_start_def rewind_def is_terminal_def
      split: if_splits)

lemma valid_reachable: "valid_context c \<Longrightarrow> ledger_reachable (rewind c) c"
proof (induction "history c" arbitrary: c rule: rev_induct)
  case Nil
  then show ?case using valid_empty_history [of c] by (auto intro: ledger_reachable.start)
next
  case (snoc r rs)
  obtain p where p: "valid_context p" "ledger_step p c" "history p = rs" "rewind p = rewind c"
    using undo_step [OF snoc.prems] snoc.hyps(2) by metis
  then have "ledger_reachable (rewind c) p" using snoc.hyps(1) by fastforce
  then show ?case using p(2) by (rule ledger_reachable.step)
qed

lemma rewind_valid: "valid_context c \<Longrightarrow> valid_context (rewind c)"
  by (auto simp: valid_context_iff header_ok_def ledger_ok_def rewind_def scan_start_def
      budget_ok_def is_terminal_def)

section \<open>Bounds\<close>

text \<open>
  Within one iteration the states are entered in a fixed order; a terminal state comes last. The rank
  counts the records written since the iteration began.
\<close>

fun rank :: "exec_state \<Rightarrow> int" where
  "rank CREATED = 10" | "rank CONTEXT_ASSEMBLING = 1" | "rank PLANNING = 2" | "rank DECIDING = 3"
| "rank PROPOSING = 4" | "rank APPROVAL_PENDING = 5" | "rank AUTHORIZING = 6" | "rank MUTATING = 7"
| "rank VERIFYING = 8" | "rank REFLECTING = 9" | "rank REPLANNING = 10" | "rank COMPLETED = 11"
| "rank FAILED = 11" | "rank ABORTED = 11"

lemma legal_rank:
  "t \<in> legal_transitions s \<Longrightarrow>
     rank s + 1 \<le> rank t + (if t = CONTEXT_ASSEMBLING then 10 else 0)"
  by (cases s) auto

lemma scan_length_bound:
  "scan_history n sc rs = Inr sc' \<Longrightarrow>
     int (length rs) + 10 * expected_iteration sc + rank (expected_state sc)
       \<le> 10 * expected_iteration sc' + rank (expected_state sc')"
proof (induction rs arbitrary: n sc)
  case (Cons r rs)
  then obtain m where rec: "record_ok n (expected_state sc) (expected_iteration sc) r"
    and m: "m = scan_next sc r" and tl: "scan_history (n + 1) m rs = Inr sc'"
    by (auto simp: bind_res_Inr_iff scan_record_Inr_iff)
  have "rank (expected_state sc) + 1
      \<le> rank (to_state r) + (if to_state r = CONTEXT_ASSEMBLING then 10 else 0)"
    using rec by (intro legal_rank) (simp add: record_ok_def)
  with Cons.IH [OF tl] show ?case
    by (simp add: m scan_next_def entered_def split: if_splits)
qed simp

lemma rank_le: "rank s \<le> 11"
  by (cases s) auto

lemma history_bound:
  assumes "valid_context c"
  shows "int (length (history c)) \<le> 10 * iteration c + 1"
  using assms scan_length_bound [of 1 scan_start "history c"] rank_le [of "state c"]
  by (auto simp: valid_context_iff ledger_ok_def scan_start_def)

inductive ledger_run :: "nat \<Rightarrow> exec_context \<Rightarrow> exec_context \<Rightarrow> bool" where
  run_zero: "ledger_run 0 c c"
| run_step: "ledger_step c c' \<Longrightarrow> ledger_run n c' c'' \<Longrightarrow> ledger_run (Suc n) c c''"

lemma ledger_run_length:
  "ledger_run n c c' \<Longrightarrow> valid_context c \<Longrightarrow>
     valid_context c' \<and> length (history c') = length (history c) + n \<and>
     max_iterations (budget c') = max_iterations (budget c)"
proof (induction rule: ledger_run.induct)
  case (run_step c c' n c'')
  have "valid_context c'" using run_step.prems run_step.hyps(1) by (rule ledger_step_valid)
  moreover have "length (history c') = length (history c) + 1"
    and "rewind c' = rewind c"
    using ledger_step_frame [OF run_step.prems run_step.hyps(1)] by auto
  moreover have "max_iterations (budget c') = max_iterations (budget c)"
    using \<open>rewind c' = rewind c\<close>
    by (cases c; cases c'; cases "budget c"; cases "budget c'") (auto simp: rewind_def)
  ultimately show ?case using run_step.IH by simp
qed simp

section \<open>What precedes what\<close>

lemma scan_nth:
  "scan_history n sc rs = Inr sc' \<Longrightarrow> i < length rs \<Longrightarrow>
     to_state (rs ! i) \<in> legal_transitions (from_state (rs ! i)) \<and>
     from_state (rs ! i) = (if i = 0 then expected_state sc else to_state (rs ! (i - 1)))"
proof (induction rs arbitrary: n sc i)
  case (Cons r rs)
  then obtain m where rec: "record_ok n (expected_state sc) (expected_iteration sc) r"
    and m: "m = scan_next sc r" and tl: "scan_history (n + 1) m rs = Inr sc'"
    by (auto simp: bind_res_Inr_iff scan_record_Inr_iff)
  show ?case
  proof (cases i)
    case 0
    then show ?thesis using rec by (simp add: record_ok_def)
  next
    case (Suc j)
    then show ?thesis
      using Cons.IH [OF tl, of j] Cons.prems(2) m by (auto simp: scan_next_def nth_Cons' split: if_splits)
  qed
qed simp

lemma valid_nth:
  assumes "valid_context c" and "i < length (history c)"
  shows "to_state (history c ! i)
    \<in> legal_transitions (if i = 0 then CREATED else to_state (history c ! (i - 1)))"
  using assms scan_nth [of 1 scan_start "history c" _ i]
  by (auto simp: valid_context_iff ledger_ok_def scan_start_def split: if_splits)

lemma enters_COMPLETED: "COMPLETED \<in> legal_transitions s \<Longrightarrow> s = VERIFYING"
  by (cases s) auto

lemma enters_VERIFYING: "VERIFYING \<in> legal_transitions s \<Longrightarrow> s = MUTATING"
  by (cases s) auto

lemma enters_MUTATING: "MUTATING \<in> legal_transitions s \<Longrightarrow> s = AUTHORIZING"
  by (cases s) auto

lemma enters_AUTHORIZING: "AUTHORIZING \<in> legal_transitions s \<Longrightarrow> s = PROPOSING \<or> s = APPROVAL_PENDING"
  by (cases s) auto

lemmas enters = enters_COMPLETED enters_VERIFYING enters_MUTATING enters_AUTHORIZING

lemma valid_predecessor:
  assumes "valid_context c" and "i < length (history c)" and "to_state (history c ! i) = t"
    and "t \<in> {COMPLETED, VERIFYING, MUTATING, AUTHORIZING}"
  shows "0 < i \<and> t \<in> legal_transitions (to_state (history c ! (i - 1)))"
proof -
  have "t \<in> legal_transitions (if i = 0 then CREATED else to_state (history c ! (i - 1)))"
    using valid_nth [OF assms(1,2)] assms(3) by simp
  moreover have "t \<notin> legal_transitions CREATED" using assms(4) by auto
  ultimately show ?thesis by (auto split: if_splits)
qed

lemma verified_chain:
  assumes v: "valid_context c" and i: "i < length (history c)"
    and t: "to_state (history c ! i) = COMPLETED"
  shows "3 \<le> i \<and> to_state (history c ! (i - 1)) = VERIFYING \<and>
    to_state (history c ! (i - 2)) = MUTATING \<and> to_state (history c ! (i - 3)) = AUTHORIZING"
proof -
  have 1: "0 < i" "to_state (history c ! (i - 1)) = VERIFYING"
    using valid_predecessor [OF v i t] enters by auto
  have 2: "0 < i - 1" "to_state (history c ! (i - 2)) = MUTATING"
    using valid_predecessor [OF v _ 1(2)] i enters by (auto simp: numeral_2_eq_2 numeral_3_eq_3)
  have 3: "0 < i - 2" "to_state (history c ! (i - 3)) = AUTHORIZING"
    using valid_predecessor [OF v _ 2(2)] i enters by (auto simp: numeral_2_eq_2 numeral_3_eq_3)
  show ?thesis using 1 2 3 by auto
qed

lemma count_entries:
  "scan_history n sc rs = Inr sc' \<Longrightarrow>
     mutation_entries sc' = mutation_entries sc
       + int (length (filter (\<lambda>r. to_state r = MUTATING) rs)) \<and>
     verification_entries sc' = verification_entries sc
       + int (length (filter (\<lambda>r. to_state r = VERIFYING) rs)) \<and>
     expected_iteration sc' = expected_iteration sc
       + int (length (filter (\<lambda>r. to_state r = CONTEXT_ASSEMBLING) rs))"
proof (induction rs arbitrary: n sc)
  case (Cons r rs)
  then show ?case
    by (fastforce simp: bind_res_Inr_iff scan_record_Inr_iff scan_next_def entered_def)
qed simp

end
