(* ===== verification/Ledger_Properties.thy ===== *)
theory Ledger_Properties
  imports ExecutionRuns
begin

text \<open>
  The properties of the execution ledger and its state machine, with concrete contexts that satisfy
  their hypotheses.
\<close>

section \<open>A concrete execution\<close>

definition demo_budget :: execution_budget where
  "demo_budget = \<lparr>max_iterations = 2, max_mutations = 2, max_verifications = 2,
     iterations_used = 0, mutations_used = 0, verifications_used = 0\<rparr>"

definition demo_context :: exec_context where
  "demo_context = \<lparr>execution_id = ''exec'', run_id = ''run'', goal = ''goal'', state = CREATED,
     iteration = 0, budget = demo_budget, history = [], evidence = [], stop_reason = None,
     ctx_metadata = PProxy []\<rparr>"

definition demo_path :: "exec_state list" where
  "demo_path = [CONTEXT_ASSEMBLING, PLANNING, DECIDING, PROPOSING, AUTHORIZING, MUTATING, VERIFYING]"

fun follow :: "exec_context \<Rightarrow> exec_state list \<Rightarrow> exec_context" where
  "follow c [] = c"
| "follow c (t # ts) = follow (next_context c t [] None 0) ts"

definition demo_done :: exec_context where
  "demo_done = next_context (follow demo_context demo_path) COMPLETED [] (Some SUCCESS) 0"

lemma demo_valid: "valid_context demo_context"
  by code_simp

lemma demo_done_valid: "valid_context demo_done"
  by code_simp

lemma demo_done_state: "state demo_done = COMPLETED \<and> stop_reason demo_done = Some SUCCESS
    \<and> length (history demo_done) = 8"
  by code_simp

section \<open>Properties\<close>

text \<open>C1. Every request to the state machine over a valid context has one of three outcomes: an illegal
  target is refused as \<open>illegal_transition\<close>; a legal target with a stop reason that does not fit it is
  refused as \<open>invalid_stop_reason\<close> unless a budget is exhausted; otherwise the request is accepted, and the
  new context is valid, has the target as its state (\<open>FAILED\<close> when the budget it would spend is exhausted)
  and one more record at the end of its ledger. Refusals return the old context and publish nothing, no
  exception escapes, and the code \<open>budget_exhausted\<close> is never returned.\<close>

theorem transition_outcome:
  assumes "valid_context c"
  shows "if target \<notin> legal_transitions (state c)
    then transition bus c target ev reason now
      = Inr (\<lparr>accepted = False, res_context = c, error_code = Some ''illegal_transition''\<rparr>, [])
    else if \<not> exhausted c target \<and> \<not> reason_ok target reason
    then transition bus c target ev reason now
      = Inr (\<lparr>accepted = False, res_context = c, error_code = Some ''invalid_stop_reason''\<rparr>, [])
    else \<exists>c' evs r. transition bus c target ev reason now
        = Inr (\<lparr>accepted = True, res_context = c', error_code = None\<rparr>, evs) \<and>
      valid_context c' \<and> state c' = (if exhausted c target then FAILED else target) \<and>
      history c' = history c @ [r] \<and> to_state r = state c' \<and> from_state r = state c \<and>
      evidence c' = evidence c @ ev"
proof (cases "target \<in> legal_transitions (state c)")
  case True
  note ok = spend_ok [OF assms True]
  have "valid_context (next_context c target ev reason now)" if "effective_ok c target reason"
    using next_context_valid [OF assms True] effective_ok_iff [OF assms True] that by blast
  then show ?thesis
    using transition_result_eq [OF assms, of bus target ev reason now] True ok
    by (auto simp: effective_ok_def next_context_def next_record_def spent_ok_def split: prod.splits)
qed (simp add: transition_result_eq [OF assms])

theorem transition_outcome_witness:
  "transition None demo_context FAILED [] None 0
     = Inr (\<lparr>accepted = False, res_context = demo_context, error_code = Some ''illegal_transition''\<rparr>, [])"
proof -
  have "FAILED \<notin> legal_transitions (state demo_context)" by (simp add: demo_context_def)
  then show ?thesis
    using transition_outcome [OF demo_valid, of FAILED None "[]" None 0] by simp
qed

text \<open>C2. The reconstruction check is exact: a context passes the constructor's ledger validation if and only
  if it is reached from the freshly created context of the same execution by accepted transitions of the state
  machine (soundness and completeness of \<open>_validate_history\<close> for the transition relation).\<close>

theorem validated_iff_reachable:
  "valid_context c \<longleftrightarrow> valid_context (rewind c) \<and> ledger_reachable (rewind c) c"
  using valid_reachable rewind_valid reachable_valid by blast

text \<open>C3. Executions are bounded: from a valid context, at most \<open>10 * max_iterations + 1\<close> records can ever be
  written, so no run of accepted transitions is longer than what the ledger has left.\<close>

theorem runs_bounded:
  assumes "valid_context c" and "ledger_run n c c'"
  shows "int (length (history c)) + int n \<le> 10 * max_iterations (budget c) + 1"
proof -
  have v: "valid_context c'" and len: "length (history c') = length (history c) + n"
    and m: "max_iterations (budget c') = max_iterations (budget c)"
    using ledger_run_length [OF assms(2,1)] by simp_all
  have "iteration c' \<le> max_iterations (budget c')"
    using v valid_iteration_used [OF v] by (simp add: valid_context_iff budget_ok_def)
  then show ?thesis using history_bound [OF v] len m by simp
qed

theorem runs_bounded_witness:
  "int (length (history demo_context)) + int (Suc 0) \<le> 10 * max_iterations (budget demo_context) + 1"
proof -
  have "ledger_step demo_context (next_context demo_context CONTEXT_ASSEMBLING [] None 0)"
    by (rule next_context_step [OF demo_valid]) (simp add: demo_context_def, code_simp)
  then show ?thesis
    using runs_bounded [OF demo_valid ledger_run.run_step [OF _ ledger_run.run_zero]] by blast
qed

text \<open>C4. A completed execution was authorized, mutated and verified, in that order, as its last steps: the
  ledger ends with the records entering \<open>AUTHORIZING\<close>, \<open>MUTATING\<close>, \<open>VERIFYING\<close> and \<open>COMPLETED\<close>, and its stop
  reason is \<open>SUCCESS\<close>.\<close>

theorem completed_was_verified:
  assumes "valid_context c" and "state c = COMPLETED"
  shows "\<exists>rs a m w d. history c = rs @ [a, m, w, d] \<and> map to_state [a, m, w, d]
      = [AUTHORIZING, MUTATING, VERIFYING, COMPLETED] \<and> stop_reason c = Some SUCCESS"
proof -
  obtain sc where sc: "scan_history 1 scan_start (history c) = Inr sc" "expected_state sc = COMPLETED"
    and stop: "stop_reason c = rec_reason (last (history c))"
    using assms by (auto simp: valid_context_iff ledger_ok_def is_terminal_def)
  then have ne: "history c \<noteq> []" by (auto simp: scan_start_def)
  then obtain rs r where h: "history c = rs @ [r]" by (metis rev_exhaust)
  have r: "to_state r = COMPLETED" "reason_ok (to_state r) (rec_reason r)"
    using sc h by (auto simp: scan_history_snoc_Inr_iff scan_next_def record_ok_def)
  let ?n = "length rs"
  have chain: "3 \<le> ?n" "to_state (history c ! (?n - 1)) = VERIFYING"
    "to_state (history c ! (?n - 2)) = MUTATING" "to_state (history c ! (?n - 3)) = AUTHORIZING"
    using verified_chain [OF assms(1), of ?n] h r(1) by auto
  define k where "k = ?n - 3"
  have len: "?n = Suc (Suc (Suc k))" using chain(1) by (simp add: k_def)
  then have "rs = take k rs @ [rs ! k, rs ! Suc k, rs ! Suc (Suc k)]"
    by (metis Cons_nth_drop_Suc append_take_drop_id drop_all lessI less_Suc_eq order_refl)
  moreover have "to_state (rs ! k) = AUTHORIZING" "to_state (rs ! Suc k) = MUTATING"
    "to_state (rs ! Suc (Suc k)) = VERIFYING"
    using chain(2-4) len by (simp_all add: h nth_append numeral_2_eq_2 numeral_3_eq_3)
  moreover have "stop_reason c = Some SUCCESS"
    using stop r h by (auto simp: reason_ok_def is_terminal_def split: option.splits)
  ultimately show ?thesis
    using r(1) h by (intro exI [of _ "take k rs"] exI [of _ "rs ! k"] exI [of _ "rs ! Suc k"]
        exI [of _ "rs ! Suc (Suc k)"] exI [of _ r]) auto
qed

theorem completed_was_verified_witness:
  "\<exists>rs a m w d. history demo_done = rs @ [a, m, w, d] \<and> map to_state [a, m, w, d]
      = [AUTHORIZING, MUTATING, VERIFYING, COMPLETED] \<and> stop_reason demo_done = Some SUCCESS"
  using completed_was_verified [OF demo_done_valid] demo_done_state by simp

text \<open>The budgets bound the effects: the ledger of a valid context enters \<open>CONTEXT_ASSEMBLING\<close>, \<open>MUTATING\<close>
  and \<open>VERIFYING\<close> exactly as often as its budget counters say, which is never more than their limits.\<close>

theorem effects_within_budget:
  assumes "valid_context c"
  shows "int (length (filter (\<lambda>r. to_state r = CONTEXT_ASSEMBLING) (history c))) = iterations_used (budget c)
    \<and> iterations_used (budget c) \<le> max_iterations (budget c)
    \<and> int (length (filter (\<lambda>r. to_state r = MUTATING) (history c))) = mutations_used (budget c)
    \<and> mutations_used (budget c) \<le> max_mutations (budget c)
    \<and> int (length (filter (\<lambda>r. to_state r = VERIFYING) (history c))) = verifications_used (budget c)
    \<and> verifications_used (budget c) \<le> max_verifications (budget c)"
proof -
  obtain sc where "scan_history 1 scan_start (history c) = Inr sc"
    "expected_iteration sc = iterations_used (budget c)"
    "mutation_entries sc = mutations_used (budget c)"
    "verification_entries sc = verifications_used (budget c)" and b: "budget_ok (budget c)"
    using assms by (auto simp: valid_context_iff ledger_ok_def)
  then show ?thesis
    using count_entries [of 1 scan_start "history c" sc] by (simp add: scan_start_def budget_ok_def)
qed

theorem effects_within_budget_witness:
  "int (length (filter (\<lambda>r. to_state r = MUTATING) (history demo_done))) \<le> max_mutations (budget demo_done)"
  using effects_within_budget [OF demo_done_valid] by simp

text \<open>Event delivery never decides the state: whatever the bus is, and whatever its handlers raise, the
  result of a transition is the same, and the events a bus is given are a prefix of those a well-behaved
  bus is given.\<close>

theorem bus_is_irrelevant:
  "map_sum id fst (transition bus c target ev reason now) = map_sum id fst (transition None c target ev reason now)
   \<and> prefix (case transition bus c target ev reason now of Inl _ \<Rightarrow> [] | Inr p \<Rightarrow> snd p)
            (case transition (Some (\<lambda>_. False)) c target ev reason now of Inl _ \<Rightarrow> [] | Inr p \<Rightarrow> snd p)"
proof -
  have pre: "prefix (publish f es) (publish (\<lambda>_. False) es)" for f es
    by (induction es) auto
  show ?thesis
    using pre by (auto simp: transition_def split: sum.splits py_error.splits option.splits)
qed

text \<open>Freezing metadata removes every mutable container, at any depth, and a frozen value is frozen to
  itself, so rebuilding a context (which freezes its metadata again) never changes it.\<close>

theorem freeze_is_idempotent:
  assumes "freeze_value v = Inr w"
  shows "immutable w \<and> freeze_value w = Inr w"
  using freeze_immutable(1) [OF assms] freeze_fixpoint(1) by blast

theorem freeze_is_idempotent_witness:
  "immutable (PProxy [(PStr ''k'', PTuple [PInt 1, PBytes [0]])])
   \<and> freeze_value (PProxy [(PStr ''k'', PTuple [PInt 1, PBytes [0]])])
       = Inr (PProxy [(PStr ''k'', PTuple [PInt 1, PBytes [0]])])"
  by (rule freeze_is_idempotent [of "PDict [(PStr ''k'', PList [PInt 1, PBytearray [0]])]"]) simp

end
