(* ===== verification/Digraph.thy ===== *)
theory Digraph
  imports Prelude
begin

text \<open>
  Depth-first search as the graph classes of the repository write it: the cycle check with its
  \<open>visited\<close> and \<open>recursion_stack\<close> sets (\<open>_check_cycles\<close> of \<open>task_graph/graph.py\<close> and of
  \<open>execution_graph/graph.py\<close>, the same text) and the postorder search of \<open>topological_sort\<close>.

  Both searches recurse on children, so they take fuel; the interface \<open>graph_api\<close> says what a
  graph class promises of its children map, and inside it the searches are shown to end with one
  unit of fuel per node, the check to be exact, and the postorder to be a topological order.
\<close>

section \<open>The cycle check\<close>

text \<open>
  \<open>dfs\<close> of \<open>_check_cycles\<close>: the result says whether a cycle was found; the two sets are the
  closure's mutable state. \<open>None\<close> is the fuel running out.
\<close>

type_synonym 'a search = "'a set \<times> 'a set"

function cyc_visit :: "nat \<Rightarrow> ('a \<Rightarrow> 'a list) \<Rightarrow> 'a \<Rightarrow> 'a search \<Rightarrow> (bool \<times> 'a search) option"
  and cyc_children :: "nat \<Rightarrow> ('a \<Rightarrow> 'a list) \<Rightarrow> 'a list \<Rightarrow> 'a search \<Rightarrow> (bool \<times> 'a search) option" where
  "cyc_visit 0 kids v s = None"
| "cyc_visit (Suc n) kids v (vis, stk) =
     (case cyc_children n kids (kids v) (insert v vis, insert v stk) of
        None \<Rightarrow> None
      | Some (found, vis', stk') \<Rightarrow>
          Some (if found then (True, vis', stk') else (False, vis', stk' - {v})))"
| "cyc_children n kids [] s = Some (False, s)"
| "cyc_children n kids (c # cs) (vis, stk) =
     (if c \<notin> vis
      then (case cyc_visit n kids c (vis, stk) of
              None \<Rightarrow> None
            | Some (found, s) \<Rightarrow> if found then Some (True, s) else cyc_children n kids cs s)
      else if c \<in> stk then Some (True, vis, stk)
      else cyc_children n kids cs (vis, stk))"
  by pat_completeness auto
termination
  by (relation "measures [case_sum (\<lambda>p. fst p) (\<lambda>p. fst p),
        case_sum (\<lambda>p. 0) (\<lambda>p. Suc (length (fst (snd (snd p)))))]") auto

text \<open>The loop over the nodes; \<open>Some True\<close> is the \<open>CycleError\<close>.\<close>

fun cyc_roots :: "nat \<Rightarrow> ('a \<Rightarrow> 'a list) \<Rightarrow> 'a list \<Rightarrow> 'a search \<Rightarrow> bool option" where
  "cyc_roots n kids [] s = Some False"
| "cyc_roots n kids (v # vs) (vis, stk) =
     (if v \<in> vis then cyc_roots n kids vs (vis, stk)
      else case cyc_visit n kids v (vis, stk) of
             None \<Rightarrow> None
           | Some (found, s) \<Rightarrow> if found then Some True else cyc_roots n kids vs s)"

text \<open>One unit of fuel per node is enough: a visit marks a node that was not marked before.\<close>

definition check_cycles :: "('a \<Rightarrow> 'a list) \<Rightarrow> 'a list \<Rightarrow> bool option" where
  "check_cycles kids vs = cyc_roots (length vs) kids vs ({}, {})"

section \<open>The postorder search\<close>

text \<open>\<open>dfs\<close> of \<open>topological_sort\<close>: the closure's state is the visited set and the stack.\<close>

type_synonym 'a order = "'a set \<times> 'a list"

function post_visit :: "nat \<Rightarrow> ('a \<Rightarrow> 'a list) \<Rightarrow> 'a \<Rightarrow> 'a order \<Rightarrow> 'a order option"
  and post_children :: "nat \<Rightarrow> ('a \<Rightarrow> 'a list) \<Rightarrow> 'a list \<Rightarrow> 'a order \<Rightarrow> 'a order option" where
  "post_visit 0 kids v s = None"
| "post_visit (Suc n) kids v (vis, out) =
     (case post_children n kids (kids v) (insert v vis, out) of
        None \<Rightarrow> None
      | Some (vis', out') \<Rightarrow> Some (vis', out' @ [v]))"
| "post_children n kids [] s = Some s"
| "post_children n kids (c # cs) (vis, out) =
     (if c \<notin> vis
      then (case post_visit n kids c (vis, out) of
              None \<Rightarrow> None
            | Some s \<Rightarrow> post_children n kids cs s)
      else post_children n kids cs (vis, out))"
  by pat_completeness auto
termination
  by (relation "measures [case_sum (\<lambda>p. fst p) (\<lambda>p. fst p),
        case_sum (\<lambda>p. 0) (\<lambda>p. Suc (length (fst (snd (snd p)))))]") auto

text \<open>The loop over the start nodes has the text of the loop over the children.\<close>

definition post_order :: "('a \<Rightarrow> 'a list) \<Rightarrow> 'a list \<Rightarrow> 'a list option" where
  "post_order kids vs = map_option snd (post_children (length vs) kids vs ({}, []))"

section \<open>Edges and order\<close>

definition edge_rel :: "('a \<Rightarrow> 'a list) \<Rightarrow> ('a \<times> 'a) set" where
  "edge_rel kids = {(v, c). c \<in> set (kids v)}"

lemma edge_rel_iff [simp]: "(v, c) \<in> edge_rel kids \<longleftrightarrow> c \<in> set (kids v)"
  by (simp add: edge_rel_def)

text \<open>Every element of the list comes after all its children.\<close>

fun children_first :: "('a \<Rightarrow> 'a list) \<Rightarrow> 'a set \<Rightarrow> 'a list \<Rightarrow> bool" where
  "children_first kids seen [] \<longleftrightarrow> True"
| "children_first kids seen (v # vs) \<longleftrightarrow> set (kids v) \<subseteq> seen \<and> children_first kids (insert v seen) vs"

lemma children_first_append:
  "children_first kids seen (xs @ ys) \<longleftrightarrow>
     children_first kids seen xs \<and> children_first kids (seen \<union> set xs) ys"
  by (induction xs arbitrary: seen) auto

section \<open>Facts of the searches that need no finiteness\<close>

lemma closed_trancl:
  assumes "(x, y) \<in> (edge_rel kids)\<^sup>+" and "x \<in> D" and "\<And>z. z \<in> D \<Longrightarrow> set (kids z) \<subseteq> D"
  shows "y \<in> D"
  using assms(1,2) by (induction) (auto dest!: assms(3))

text \<open>
  The invariant of the check: the finished nodes \<open>vis - stk\<close> are closed under children and lie on
  no cycle.
\<close>

definition search_inv :: "('a \<Rightarrow> 'a list) \<Rightarrow> 'a set \<Rightarrow> 'a set \<Rightarrow> bool" where
  "search_inv kids vis stk \<longleftrightarrow> stk \<subseteq> vis
     \<and> (\<forall>x \<in> vis - stk. set (kids x) \<subseteq> vis - stk)
     \<and> (\<forall>x \<in> vis - stk. (x, x) \<notin> (edge_rel kids)\<^sup>+)"

lemma search_inv_push: "search_inv kids vis stk \<Longrightarrow> v \<notin> vis \<Longrightarrow> search_inv kids (insert v vis) (insert v stk)"
proof -
  assume i: "search_inv kids vis stk" and v: "v \<notin> vis"
  have "insert v vis - insert v stk = vis - stk" using v by auto
  with i show ?thesis by (auto simp: search_inv_def)
qed

lemma search_inv_pop:
  assumes i: "search_inv kids vis (insert v stk)" and k: "set (kids v) \<subseteq> vis - insert v stk"
    and v: "v \<notin> stk"
  shows "search_inv kids vis stk"
proof -
  let ?D = "vis - insert v stk"
  have vv: "v \<in> vis" using i by (auto simp: search_inv_def)
  have cl: "\<And>z. z \<in> ?D \<Longrightarrow> set (kids z) \<subseteq> ?D" using i by (auto simp: search_inv_def)
  have D: "vis - stk = insert v ?D" using v vv by auto
  have nv: "(v, v) \<notin> (edge_rel kids)\<^sup>+"
  proof
    assume "(v, v) \<in> (edge_rel kids)\<^sup>+"
    then obtain c where c: "(v, c) \<in> edge_rel kids" "(c, v) \<in> (edge_rel kids)\<^sup>*"
      by (metis tranclD)
    from c(1) k have "c \<in> ?D" by auto
    moreover from this have "c \<noteq> v" by auto
    ultimately have "v \<in> ?D"
      using c(2) closed_trancl [of c v kids ?D] cl by (metis rtranclD)
    then show False by simp
  qed
  show ?thesis
    unfolding search_inv_def D using i k cl nv by (auto simp: search_inv_def)
qed

text \<open>A visit that finds nothing restores the recursion stack, marks the node and keeps the invariant.\<close>

lemma cyc_clean:
  shows "\<And>vis stk vis' stk'. cyc_visit n kids v s = Some (False, vis', stk') \<Longrightarrow> s = (vis, stk) \<Longrightarrow>
           search_inv kids vis stk \<Longrightarrow> v \<notin> vis \<Longrightarrow>
           search_inv kids vis' stk' \<and> stk' = stk \<and> vis \<subseteq> vis' \<and> v \<in> vis'"
    and "\<And>vis stk vis' stk'. cyc_children n kids cs s = Some (False, vis', stk') \<Longrightarrow> s = (vis, stk) \<Longrightarrow>
           search_inv kids vis stk \<Longrightarrow>
           search_inv kids vis' stk' \<and> stk' = stk \<and> vis \<subseteq> vis' \<and> set cs \<subseteq> vis' - stk"
proof (induction n kids v s and n kids cs s rule: cyc_visit_cyc_children.induct)
  case (2 n kids v vis0 stk0)
  from "2.prems" obtain stk1 where
    k: "cyc_children n kids (kids v) (insert v vis, insert v stk) = Some (False, vis', stk1)"
    and s': "stk' = stk1 - {v}"
    by (auto split: option.splits if_splits prod.splits)
  have v: "v \<notin> stk" using "2.prems" by (auto simp: search_inv_def)
  have "search_inv kids vis' stk1 \<and> stk1 = insert v stk \<and> insert v vis \<subseteq> vis' \<and>
        set (kids v) \<subseteq> vis' - insert v stk"
    using "2.IH" [OF _ refl search_inv_push] k "2.prems" by auto
  with s' v search_inv_pop [of kids vis' v stk] show ?case by auto
next
  case (4 n kids c cs vis0 stk0)
  have eq [simp]: "vis0 = vis" "stk0 = stk" using "4.prems"(2) by auto
  show ?case
  proof (cases "c \<in> vis")
    case True
    with "4.prems"(1) have nc: "c \<notin> stk" and
      r: "cyc_children n kids cs (vis, stk) = Some (False, vis', stk')"
      by (auto split: if_splits)
    have "search_inv kids vis' stk' \<and> stk' = stk \<and> vis \<subseteq> vis' \<and> set cs \<subseteq> vis' - stk"
      using "4.IH"(3) [unfolded eq, OF _ _ r refl "4.prems"(3)] True nc by blast
    with True nc show ?thesis unfolding search_inv_def by auto
  next
    case False
    with "4.prems"(1) obtain v1 k1 where
      a: "cyc_visit n kids c (vis, stk) = Some (False, v1, k1)" and
      r: "cyc_children n kids cs (v1, k1) = Some (False, vis', stk')"
      by (auto split: option.splits if_splits)
    have i1: "search_inv kids v1 k1 \<and> k1 = stk \<and> vis \<subseteq> v1 \<and> c \<in> v1"
      using "4.IH"(1) [unfolded eq, OF _ a refl "4.prems"(3) False] False by blast
    then have i2: "search_inv kids vis' stk' \<and> stk' = k1 \<and> v1 \<subseteq> vis' \<and> set cs \<subseteq> vis' - k1"
      using "4.IH"(2) [unfolded eq, OF _ _ refl _ r refl] a False by blast
    have "c \<notin> stk" using False "4.prems"(3) by (auto simp: search_inv_def)
    with i1 i2 show ?thesis unfolding search_inv_def by auto
  qed
qed auto

text \<open>
  A visit that reports a cycle was right: every node of the recursion stack reaches the node being
  visited, so a child found on the stack closes a cycle.
\<close>

lemma cyc_found:
  shows "\<And>vis stk s'. cyc_visit n kids v s = Some (True, s') \<Longrightarrow> s = (vis, stk) \<Longrightarrow>
           search_inv kids vis stk \<Longrightarrow> v \<notin> vis \<Longrightarrow> (\<forall>x \<in> stk. (x, v) \<in> (edge_rel kids)\<^sup>*) \<Longrightarrow>
           \<exists>x. (x, x) \<in> (edge_rel kids)\<^sup>+"
    and "\<And>vis stk s' v. cyc_children n kids cs s = Some (True, s') \<Longrightarrow> s = (vis, stk) \<Longrightarrow>
           search_inv kids vis stk \<Longrightarrow> set cs \<subseteq> set (kids v) \<Longrightarrow>
           (\<forall>x \<in> stk. (x, v) \<in> (edge_rel kids)\<^sup>*) \<Longrightarrow> \<exists>x. (x, x) \<in> (edge_rel kids)\<^sup>+"
proof (induction n kids v s and n kids cs s rule: cyc_visit_cyc_children.induct)
  case (2 n kids v vis0 stk0)
  have eq: "vis0 = vis" "stk0 = stk" using "2.prems"(2) by auto
  from "2.prems"(1) eq obtain s1 where
    k: "cyc_children n kids (kids v) (insert v vis, insert v stk) = Some (True, s1)"
    by (auto split: option.splits if_splits prod.splits)
  show ?case
    using "2.IH" [unfolded eq, OF k refl search_inv_push [OF "2.prems"(3,4)] order_refl] "2.prems"(5)
    by blast
next
  case (4 n kids c cs vis0 stk0)
  have eq: "vis0 = vis" "stk0 = stk" using "4.prems"(2) by auto
  have e: "(v, c) \<in> edge_rel kids" using "4.prems"(4) by simp
  show ?case
  proof (cases "c \<in> vis")
    case True
    show ?thesis
    proof (cases "c \<in> stk")
      case True
      then have "(c, v) \<in> (edge_rel kids)\<^sup>*" using "4.prems"(5) by blast
      with e have "(c, c) \<in> (edge_rel kids)\<^sup>+" by (rule rtrancl_into_trancl1 [rotated])
      then show ?thesis by blast
    next
      case False
      then have r: "cyc_children n kids cs (vis, stk) = Some (True, s')"
        using "4.prems"(1) True by (auto simp: eq)
      have "set cs \<subseteq> set (kids v)" using "4.prems"(4) by simp
      from "4.IH"(3) [unfolded eq, OF _ _ r refl "4.prems"(3) this "4.prems"(5)] True False
      show ?thesis by blast
    qed
  next
    case False
    show ?thesis
    proof (cases "\<exists>s1. cyc_visit n kids c (vis, stk) = Some (True, s1)")
      case True
      then obtain s1 where a: "cyc_visit n kids c (vis, stk) = Some (True, s1)" by blast
      have "\<forall>x \<in> stk. (x, c) \<in> (edge_rel kids)\<^sup>*"
        using "4.prems"(5) e by (meson rtrancl.rtrancl_into_rtrancl)
      from "4.IH"(1) [unfolded eq, OF False a refl "4.prems"(3) False this] show ?thesis .
    next
      case no: False
      with "4.prems"(1) False obtain v1 k1 where
        a: "cyc_visit n kids c (vis, stk) = Some (False, v1, k1)" and
        r: "cyc_children n kids cs (v1, k1) = Some (True, s')"
        unfolding eq by (auto split: option.splits if_splits)
      have c: "search_inv kids v1 k1 \<and> k1 = stk"
        using cyc_clean(1) [OF a refl "4.prems"(3) False] by blast
      have cs: "set cs \<subseteq> set (kids v)" using "4.prems"(4) by simp
      have k: "\<forall>x \<in> k1. (x, v) \<in> (edge_rel kids)\<^sup>*" using c "4.prems"(5) by blast
      show ?thesis
        using "4.IH"(2) [unfolded eq, OF False a refl _ r refl _ cs k] c by blast
    qed
  qed
qed auto

text \<open>The fuel: as many units as there are unmarked nodes.\<close>

lemma cyc_fuel:
  assumes fin: "finite U" and closed: "\<And>x. set (kids x) \<subseteq> U"
  shows "v \<in> U \<Longrightarrow> v \<notin> vis \<Longrightarrow> card (U - vis) \<le> n \<Longrightarrow>
           \<exists>b vis' stk'. cyc_visit n kids v (vis, stk) = Some (b, vis', stk') \<and> vis \<subseteq> vis'"
    and "set cs \<subseteq> U \<Longrightarrow> card (U - vis) \<le> n \<Longrightarrow>
           \<exists>b vis' stk'. cyc_children n kids cs (vis, stk) = Some (b, vis', stk') \<and> vis \<subseteq> vis'"
proof (induction n arbitrary: v vis stk cs)
  case 0
  {
    case 1
    then show ?case using fin by auto
  next
    case 2
    then have "U \<subseteq> vis" using fin by auto
    with 2(1) show ?case by (induction cs) auto
  }
next
  case (Suc n)
  {
    fix v vis stk
    assume v: "v \<in> U" "v \<notin> vis" "card (U - vis) \<le> Suc n"
    have "U - insert v vis = (U - vis) - {v}" by auto
    then have "card (U - insert v vis) \<le> n"
      using v fin by (simp add: card_Diff_singleton)
    from Suc.IH(2) [OF closed this] obtain b vis' stk' where
      "cyc_children n kids (kids v) (insert v vis, insert v stk) = Some (b, vis', stk')"
      and "insert v vis \<subseteq> vis'" by blast
    then have "\<exists>b vis' stk'. cyc_visit (Suc n) kids v (vis, stk) = Some (b, vis', stk') \<and> vis \<subseteq> vis'"
      by auto
  }
  note visit = this
  {
    case 1
    then show ?case by (rule visit)
  next
    case 2
    then show ?case
    proof (induction cs arbitrary: vis stk)
      case (Cons c cs)
      show ?case
      proof (cases "c \<in> vis")
        case True
        have "card (U - vis) \<le> Suc n" "set cs \<subseteq> U" using Cons.prems by auto
        from Cons.IH [OF this(2) this(1), of stk] True show ?thesis
          by (cases "c \<in> stk") (auto simp del: cyc_visit.simps)
      next
        case False
        from visit [OF _ this Cons.prems(2), of stk] Cons.prems(1) obtain b v1 k1 where
          a: "cyc_visit (Suc n) kids c (vis, stk) = Some (b, v1, k1)" "vis \<subseteq> v1" by auto
        have "card (U - v1) \<le> Suc n"
          using Cons.prems(2) card_mono [of "U - vis" "U - v1"] a(2) fin by fastforce
        from Cons.IH [OF _ this, of k1] Cons.prems(1) obtain b' v2 k2 where
          "cyc_children (Suc n) kids cs (v1, k1) = Some (b', v2, k2)" "v1 \<subseteq> v2" by auto
        with a False show ?thesis by (cases b) (auto simp del: cyc_visit.simps)
      qed
    qed auto
  }
qed

text \<open>
  The postorder search: a node that is marked but not yet in the list reaches the node being
  visited, so in an acyclic graph every child met is unmarked or already in the list.
\<close>

definition order_inv :: "('a \<Rightarrow> 'a list) \<Rightarrow> 'a set \<Rightarrow> 'a list \<Rightarrow> bool" where
  "order_inv kids vis out \<longleftrightarrow> set out \<subseteq> vis \<and> distinct out \<and> children_first kids {} out"

lemma order_inv_mark: "order_inv kids vis out \<Longrightarrow> order_inv kids (insert v vis) out"
  by (auto simp: order_inv_def)

lemma order_inv_emit:
  "order_inv kids vis out \<Longrightarrow> v \<in> vis \<Longrightarrow> v \<notin> set out \<Longrightarrow> set (kids v) \<subseteq> set out \<Longrightarrow>
    order_inv kids vis (out @ [v])"
  by (auto simp: order_inv_def children_first_append)

definition emitted :: "('a \<Rightarrow> 'a list) \<Rightarrow> 'a set \<Rightarrow> 'a list \<Rightarrow> 'a set \<Rightarrow> 'a list \<Rightarrow> bool" where
  "emitted kids vis out vis' out' \<longleftrightarrow>
     order_inv kids vis' out' \<and> vis' - set out' = vis - set out \<and> set out \<subseteq> set out'"

lemma emitted_trans:
  "emitted kids vis out v1 o1 \<Longrightarrow> emitted kids v1 o1 vis' out' \<Longrightarrow> emitted kids vis out vis' out'"
  by (auto simp: emitted_def)

lemma post_sorted:
  assumes ac: "acyclic (edge_rel kids)"
  shows "post_visit n kids' v s = Some (vis', out') \<Longrightarrow> s = (vis, out) \<Longrightarrow> kids' = kids \<Longrightarrow> order_inv kids vis out \<Longrightarrow>
           v \<notin> vis \<Longrightarrow> (\<forall>x \<in> vis - set out. (x, v) \<in> (edge_rel kids)\<^sup>+) \<Longrightarrow>
           emitted kids vis out vis' out' \<and> v \<in> set out'"
    and "post_children n kids' cs s = Some (vis', out') \<Longrightarrow> s = (vis, out) \<Longrightarrow> kids' = kids \<Longrightarrow> order_inv kids vis out \<Longrightarrow>
           (\<forall>x \<in> vis - set out. \<forall>c \<in> set cs. (x, c) \<in> (edge_rel kids)\<^sup>+) \<Longrightarrow>
           emitted kids vis out vis' out' \<and> set cs \<subseteq> set out'"
proof (induction n kids' v s and n kids' cs s arbitrary: vis out vis' out' and vis out vis' out'
    rule: post_visit_post_children.induct)
  case (2 n kids' v vis0 out0)
  have eq: "vis0 = vis" "out0 = out" "kids' = kids" using "2.prems"(2,3) by auto
  from "2.prems"(1) eq obtain o1 where
    k: "post_children n kids (kids v) (insert v vis, out) = Some (vis', o1)" and o': "out' = o1 @ [v]"
    by (auto split: option.splits)
  have nv: "v \<notin> set out" using "2.prems"(4,5) by (auto simp: order_inv_def)
  have "\<forall>x \<in> insert v vis - set out. \<forall>c \<in> set (kids v). (x, c) \<in> (edge_rel kids)\<^sup>+"
    using "2.prems"(6) by (auto intro: r_into_trancl trancl_into_trancl)
  from "2.IH" [unfolded eq, OF k refl refl order_inv_mark [OF "2.prems"(4)] this]
  have e: "emitted kids (insert v vis) out vis' o1" and s: "set (kids v) \<subseteq> set o1" by blast+
  from e nv have vv: "v \<in> vis' - set o1" unfolding emitted_def by blast
  have "order_inv kids vis' (o1 @ [v])"
    using e vv s by (intro order_inv_emit) (auto simp: emitted_def)
  moreover have "vis' - set (o1 @ [v]) = vis - set out"
    using e "2.prems"(5) nv unfolding emitted_def by auto
  ultimately show ?case using e o' by (auto simp: emitted_def)
next
  case (4 n kids' c cs vis0 out0)
  have eq: "vis0 = vis" "out0 = out" "kids' = kids" using "4.prems"(2,3) by auto
  have cs: "\<forall>x \<in> vis - set out. \<forall>d \<in> set cs. (x, d) \<in> (edge_rel kids)\<^sup>+" using "4.prems"(5) by auto
  show ?case
  proof (cases "c \<in> vis")
    case True
    then have r: "post_children n kids cs (vis, out) = Some (vis', out')"
      using "4.prems"(1) eq by auto
    have "c \<in> set out" using "4.prems"(5) True ac by (force simp: acyclic_def)
    with "4.IH"(3) [unfolded eq, OF _ r refl refl "4.prems"(4) cs] True
    show ?thesis by (auto simp: emitted_def)
  next
    case False
    with "4.prems"(1) eq obtain v1 o1 where
      a: "post_visit n kids c (vis, out) = Some (v1, o1)" and
      r: "post_children n kids cs (v1, o1) = Some (vis', out')"
      by (auto split: option.splits)
    have "\<forall>x \<in> vis - set out. (x, c) \<in> (edge_rel kids)\<^sup>+" using "4.prems"(5) by auto
    from "4.IH"(1) [unfolded eq, OF False a refl refl "4.prems"(4) False this]
    have e: "emitted kids vis out v1 o1" "c \<in> set o1" by blast+
    from e(1) cs have "\<forall>x \<in> v1 - set o1. \<forall>d \<in> set cs. (x, d) \<in> (edge_rel kids)\<^sup>+"
      by (simp add: emitted_def)
    from "4.IH"(2) [unfolded eq, OF False a r refl refl _ this] e(1)
    have "emitted kids v1 o1 vis' out'" "set cs \<subseteq> set out'" by (auto simp: emitted_def)
    with e emitted_trans [OF e(1)] show ?thesis by (auto simp: emitted_def)
  qed
qed (auto simp: emitted_def)

lemma post_fuel:
  assumes fin: "finite U" and closed: "\<And>x. set (kids x) \<subseteq> U"
  shows "v \<in> U \<Longrightarrow> v \<notin> vis \<Longrightarrow> vis \<subseteq> U \<Longrightarrow> card (U - vis) \<le> n \<Longrightarrow>
           \<exists>vis' out'. post_visit n kids v (vis, out) = Some (vis', out') \<and> vis \<subseteq> vis' \<and> vis' \<subseteq> U"
    and "set cs \<subseteq> U \<Longrightarrow> vis \<subseteq> U \<Longrightarrow> card (U - vis) \<le> n \<Longrightarrow>
           \<exists>vis' out'. post_children n kids cs (vis, out) = Some (vis', out') \<and> vis \<subseteq> vis' \<and> vis' \<subseteq> U"
proof (induction n arbitrary: v vis out cs)
  case 0
  {
    case 1
    then show ?case using fin by auto
  next
    case 2
    then have "U \<subseteq> vis" using fin by auto
    with 2(1,2) show ?case by (induction cs) auto
  }
next
  case (Suc n)
  {
    fix v vis out
    assume v: "v \<in> U" "v \<notin> vis" "vis \<subseteq> U" "card (U - vis) \<le> Suc n"
    have "U - insert v vis = (U - vis) - {v}" by auto
    then have "card (U - insert v vis) \<le> n"
      using v fin by (simp add: card_Diff_singleton)
    from Suc.IH(2) [OF closed _ this] v obtain vis' out' where
      "post_children n kids (kids v) (insert v vis, out) = Some (vis', out')"
      and "insert v vis \<subseteq> vis'" "vis' \<subseteq> U" by blast
    then have "\<exists>vis' out'. post_visit (Suc n) kids v (vis, out) = Some (vis', out') \<and> vis \<subseteq> vis' \<and> vis' \<subseteq> U"
      by auto
  }
  note visit = this
  {
    case 1
    then show ?case by (rule visit)
  next
    case 2
    then show ?case
    proof (induction cs arbitrary: vis out)
      case (Cons c cs)
      have csU: "set cs \<subseteq> U" and c: "c \<in> U" using Cons.prems by auto
      show ?case
      proof (cases "c \<in> vis")
        case True
        from Cons.IH [OF csU Cons.prems(2,3), of out] True show ?thesis
          by (auto simp del: post_visit.simps)
      next
        case False
        from visit [OF c this Cons.prems(2,3), of out] obtain v1 o1 where
          a: "post_visit (Suc n) kids c (vis, out) = Some (v1, o1)" "vis \<subseteq> v1" "v1 \<subseteq> U" by auto
        have "card (U - v1) \<le> Suc n"
          using Cons.prems(3) card_mono [of "U - vis" "U - v1"] a(2) fin by fastforce
        from Cons.IH [OF csU a(3) this, of o1] obtain v2 o2 where
          "post_children (Suc n) kids cs (v1, o1) = Some (v2, o2)" "v1 \<subseteq> v2" "v2 \<subseteq> U" by auto
        with a False show ?thesis by (auto simp del: post_visit.simps)
      qed
    qed auto
  }
qed

section \<open>The interface of the graph classes\<close>

text \<open>
  What the two graph classes promise once their constructor has accepted the nodes and edges: the
  children map speaks of known nodes only.
\<close>

locale graph_api =
  fixes ok :: "'g \<Rightarrow> bool" and ids :: "'g \<Rightarrow> 'a list" and kids :: "'g \<Rightarrow> 'a \<Rightarrow> 'a list"
  assumes kids_known: "ok g \<Longrightarrow> set (kids g v) \<subseteq> set (ids g)"
    and kids_of_known: "ok g \<Longrightarrow> v \<notin> set (ids g) \<Longrightarrow> kids g v = []"
begin

lemma cycle_node: "ok g \<Longrightarrow> (x, y) \<in> (edge_rel (kids g))\<^sup>+ \<Longrightarrow> x \<in> set (ids g)"
  by (auto dest!: tranclD) (metis empty_iff empty_set kids_of_known)

lemma roots_exact:
  assumes g: "ok g"
  shows "set vs \<subseteq> set (ids g) \<Longrightarrow> search_inv (kids g) vis {} \<Longrightarrow> card (set (ids g) - vis) \<le> n \<Longrightarrow>
    \<exists>b. cyc_roots n (kids g) vs (vis, {}) = Some b \<and>
      (b \<longrightarrow> (\<exists>x. (x, x) \<in> (edge_rel (kids g))\<^sup>+)) \<and>
      (\<not> b \<longrightarrow> (\<forall>x \<in> set vs \<union> vis. (x, x) \<notin> (edge_rel (kids g))\<^sup>+))"
proof (induction vs arbitrary: vis)
  case Nil
  then show ?case by (auto simp: search_inv_def)
next
  case (Cons v vs)
  show ?case
  proof (cases "v \<in> vis")
    case True
    with Cons.IH [of vis] Cons.prems show ?thesis by auto
  next
    case new: False
    have v: "v \<in> set (ids g)" and vs: "set vs \<subseteq> set (ids g)" using Cons.prems(1) by auto
    have U: "set (ids g) - insert v vis \<subset> set (ids g) - vis" using v new by auto
    from cyc_fuel(1) [where kids = "kids g" and stk = "{}", OF finite_set kids_known [OF g] v new Cons.prems(3)]
    obtain b vis' stk' where
      r: "cyc_visit n (kids g) v (vis, {}) = Some (b, vis', stk')" and sub: "vis \<subseteq> vis'" by blast
    show ?thesis
    proof (cases b)
      case True
      with r have "\<exists>x. (x, x) \<in> (edge_rel (kids g))\<^sup>+"
        using cyc_found(1) [OF _ refl Cons.prems(2) new] by simp
      with r True new show ?thesis by auto
    next
      case False
      with r have c: "search_inv (kids g) vis' stk' \<and> stk' = {} \<and> vis \<subseteq> vis' \<and> v \<in> vis'"
        using cyc_clean(1) [OF _ refl Cons.prems(2) new] by simp
      have "card (set (ids g) - vis') \<le> n"
        using Cons.prems(3) card_mono [of "set (ids g) - vis" "set (ids g) - vis'"] sub by fastforce
      from Cons.IH [OF vs _ this] c obtain b' where
        "cyc_roots n (kids g) vs (vis', {}) = Some b'"
        "b' \<longrightarrow> (\<exists>x. (x, x) \<in> (edge_rel (kids g))\<^sup>+)"
        "\<not> b' \<longrightarrow> (\<forall>x \<in> set vs \<union> vis'. (x, x) \<notin> (edge_rel (kids g))\<^sup>+)" by blast
      with r False new c show ?thesis by auto
    qed
  qed
qed

text \<open>The check returns, and says \<open>True\<close> exactly when the edges have a cycle.\<close>

lemma check_exact:
  assumes g: "ok g"
  shows "check_cycles (kids g) (ids g) = Some (\<not> acyclic (edge_rel (kids g)))"
proof -
  have "card (set (ids g) - {}) \<le> length (ids g)" by (simp add: card_length)
  from roots_exact [OF g order_refl _ this] obtain b where
    b: "check_cycles (kids g) (ids g) = Some b"
      "b \<longrightarrow> (\<exists>x. (x, x) \<in> (edge_rel (kids g))\<^sup>+)"
      "\<not> b \<longrightarrow> (\<forall>x \<in> set (ids g). (x, x) \<notin> (edge_rel (kids g))\<^sup>+)"
    by (auto simp: check_cycles_def search_inv_def)
  moreover have "b \<longleftrightarrow> \<not> acyclic (edge_rel (kids g))"
    using b cycle_node [OF g] by (auto simp: acyclic_def)
  ultimately show ?thesis by simp
qed

text \<open>The postorder of an acyclic graph lists every node once, after all its children.\<close>

lemma order_exact:
  assumes g: "ok g" and ac: "acyclic (edge_rel (kids g))" and vs: "set vs = set (ids g)"
    and same: "\<And>v. set (kids' v) = set (kids g v)"
  shows "\<exists>out. post_order kids' vs = Some out \<and> distinct out \<and> set out = set (ids g) \<and>
           children_first (kids g) {} out"
proof -
  have er: "edge_rel kids' = edge_rel (kids g)" by (simp add: edge_rel_def same)
  have cf: "children_first kids' seen out = children_first (kids g) seen out" for seen out
    by (induction out arbitrary: seen) (simp_all add: same)
  have closed: "set (kids' x) \<subseteq> set (ids g)" for x using kids_known [OF g] same by simp
  have card: "card (set (ids g) - {}) \<le> length vs" unfolding vs [symmetric] by (simp add: card_length)
  from post_fuel(2) [where kids = kids' and out = "[]", OF finite_set closed _ _ card, of vs] vs obtain vis out where
    r: "post_children (length vs) kids' vs ({}, []) = Some (vis, out)" and sub: "vis \<subseteq> set (ids g)"
    by auto
  have "order_inv kids' {} []" by (simp add: order_inv_def)
  from post_sorted(2) [OF _ r refl refl this] ac er
  have "emitted kids' {} [] vis out" "set vs \<subseteq> set out" by auto
  with r sub vs cf show ?thesis
    by (auto simp: post_order_def emitted_def order_inv_def)
qed

end

end
