(* ===== verification/TaskGraph.thy ===== *)
theory TaskGraph
  imports Complex_Main Digraph "HOL-Library.Multiset"
begin

text \<open>
  The task graph of \<open>task_graph/graph.py\<close> with its nodes and edges (\<open>task_graph/models.py\<close>): the
  validating constructor, the queries, the readiness rule the scheduler uses and the topological
  order.

  A graph is the record of what \<open>__init__\<close> leaves on the object: the two tuples and the three maps
  built from them. An edge carries, beside its fields, the identity of the Python object
  (\<open>te_object\<close>), because the duplicate test compares with \<open>is\<close>. Metadata values are never read;
  durations are rationals.
\<close>

section \<open>Data\<close>

datatype task_priority = LOW | NORMAL | HIGH | CRITICAL

datatype dependency_type = FINISH_TO_START | START_TO_START | OPTIONAL

type_synonym metadata = "(string \<times> string) list"

record task_node =
  node_id :: string
  title :: string
  description :: string
  required_capability :: string
  priority :: task_priority
  estimated_duration :: rat
  dependencies :: "string list"
  metadata :: metadata

record task_edge =
  te_object :: nat
  te_source :: string
  te_target :: string
  te_type :: dependency_type
  te_metadata :: metadata

definition make_task_node :: "task_node \<Rightarrow> py_error + task_node" where
  "make_task_node n =
     guarded
       [(blank (title n), ValueError ''title cannot be empty or whitespace''),
        (estimated_duration n < 0, ValueError ''estimated_duration must be non-negative'')]
       (n\<lparr>title := py_strip (title n)\<rparr>)"

definition make_task_edge :: "task_edge \<Rightarrow> py_error + task_edge" where
  "make_task_edge e =
     guarded
       [(blank (te_source e), ValueError ''source cannot be empty or whitespace''),
        (blank (te_target e), ValueError ''target cannot be empty or whitespace'')]
       (e\<lparr>te_source := py_strip (te_source e), te_target := py_strip (te_target e)\<rparr>)"

text \<open>
  The errors of \<open>task_graph/errors.py\<close>; \<open>RecursionError\<close> is what running out of fuel in the
  depth-first search stands for, and is shown not to occur.
\<close>

datatype graph_error =
    CycleError | DuplicateNodeError | DuplicateEdgeError string string
  | MissingNodeError string | SelfDependencyError string | RecursionError

type_synonym adjacency = "string \<Rightarrow> string list option"

record task_graph =
  nodes :: "task_node list"
  edges :: "task_edge list"
  node_map :: "string \<Rightarrow> task_node option"
  children_map :: adjacency
  parents_map :: adjacency

section \<open>Adjacency maps\<close>

text \<open>\<open>m.get(k, [])\<close> and \<open>m[k].append(v)\<close>.\<close>

definition get_list :: "adjacency \<Rightarrow> string \<Rightarrow> string list" where
  "get_list m k = (case m k of Some vs \<Rightarrow> vs | None \<Rightarrow> [])"

definition append_at :: "adjacency \<Rightarrow> string \<Rightarrow> string \<Rightarrow> adjacency" where
  "append_at m k v = m(k \<mapsto> get_list m k @ [v])"

text \<open>\<open>{n.id: [] for n in nodes}\<close>.\<close>

definition empty_lists :: "string list \<Rightarrow> adjacency" where
  "empty_lists ks = (\<lambda>k. if k \<in> set ks then Some [] else None)"

lemma get_list_append_at [simp]:
  "get_list (append_at m k v) x = (if x = k then get_list m k @ [v] else get_list m x)"
  by (simp add: get_list_def append_at_def)

lemma get_list_empty [simp]: "get_list (empty_lists ks) x = []"
  by (simp add: get_list_def empty_lists_def)

section \<open>The constructor\<close>

text \<open>The checks of one edge, in order; the duplicate test skips the edge object itself.\<close>

definition edge_errors :: "(string \<Rightarrow> task_node option) \<Rightarrow> task_edge list \<Rightarrow> task_edge \<Rightarrow> (bool \<times> graph_error) list" where
  "edge_errors nm es e =
    [(nm (te_source e) = None, MissingNodeError (te_source e)),
     (nm (te_target e) = None, MissingNodeError (te_target e)),
     (te_source e = te_target e, SelfDependencyError (te_source e)),
     (\<exists>e' \<in> set es. te_object e' \<noteq> te_object e \<and> te_source e' = te_source e \<and> te_target e' = te_target e,
        DuplicateEdgeError (te_source e) (te_target e))]"

text \<open>The loop over the edges: check, then extend the two adjacency maps.\<close>

fun link_edges ::
  "(string \<Rightarrow> task_node option) \<Rightarrow> task_edge list \<Rightarrow> task_edge list \<Rightarrow> adjacency \<times> adjacency
     \<Rightarrow> graph_error + adjacency \<times> adjacency" where
  "link_edges nm es [] maps = Inr maps"
| "link_edges nm es (e # rest) (cm, pm) =
     (case first_error (edge_errors nm es e) of
        Some err \<Rightarrow> Inl err
      | None \<Rightarrow> link_edges nm es rest
          (append_at cm (te_source e) (te_target e), append_at pm (te_target e) (te_source e)))"

definition link_graph :: "task_node list \<Rightarrow> task_edge list \<Rightarrow> graph_error + task_graph" where
  "link_graph ns es =
     (let nm = dict_by node_id ns; fresh = empty_lists (map node_id ns)
      in if dict_size node_id ns \<noteq> length ns then Inl DuplicateNodeError
         else bind_res (link_edges nm es es (fresh, fresh))
                (\<lambda>(cm, pm). Inr \<lparr>nodes = ns, edges = es, node_map = nm, children_map = cm, parents_map = pm\<rparr>))"

abbreviation ids :: "task_graph \<Rightarrow> string list" where
  "ids g \<equiv> map node_id (nodes g)"

definition child_ids :: "task_graph \<Rightarrow> string \<Rightarrow> string list" where
  "child_ids g v = get_list (children_map g) v"

definition parent_ids :: "task_graph \<Rightarrow> string \<Rightarrow> string list" where
  "parent_ids g v = get_list (parents_map g) v"

definition cycle_check :: "task_graph \<Rightarrow> graph_error + task_graph" where
  "cycle_check g =
     (case check_cycles (child_ids g) (ids g) of
        None \<Rightarrow> Inl RecursionError
      | Some found \<Rightarrow> if found then Inl CycleError else Inr g)"

definition make_task_graph :: "task_node list \<Rightarrow> task_edge list \<Rightarrow> graph_error + task_graph" where
  "make_task_graph ns es = bind_res (link_graph ns es) cycle_check"

definition add_node :: "task_graph \<Rightarrow> task_node \<Rightarrow> graph_error + task_graph" where
  "add_node g n = make_task_graph (nodes g @ [n]) (edges g)"

definition add_edge :: "task_graph \<Rightarrow> task_edge \<Rightarrow> graph_error + task_graph" where
  "add_edge g e = make_task_graph (nodes g) (edges g @ [e])"

section \<open>Queries\<close>

text \<open>Looking the ids up in the node map; \<open>None\<close> is the \<open>KeyError\<close> of an unknown id.\<close>

definition lookup_all :: "(string \<Rightarrow> 'n option) \<Rightarrow> string list \<Rightarrow> 'n list option" where
  "lookup_all nm is = those (map nm is)"

definition parents :: "task_graph \<Rightarrow> string \<Rightarrow> task_node list option" where
  "parents g v = lookup_all (node_map g) (parent_ids g v)"

definition children :: "task_graph \<Rightarrow> string \<Rightarrow> task_node list option" where
  "children g v = lookup_all (node_map g) (child_ids g v)"

definition roots :: "task_graph \<Rightarrow> task_node list" where
  "roots g = filter (\<lambda>n. parent_ids g (node_id n) = []) (nodes g)"

definition leaves :: "task_graph \<Rightarrow> task_node list" where
  "leaves g = filter (\<lambda>n. child_ids g (node_id n) = []) (nodes g)"

text \<open>The value of \<open>priority_order\<close>.\<close>

fun priority_order :: "task_priority \<Rightarrow> nat" where
  "priority_order CRITICAL = 0"
| "priority_order HIGH = 1"
| "priority_order NORMAL = 2"
| "priority_order LOW = 3"

definition priority_key :: "task_node \<Rightarrow> nat \<times> string" where
  "priority_key n = (priority_order (priority n), node_id n)"

definition ready :: "task_graph \<Rightarrow> string set \<Rightarrow> task_node list" where
  "ready g completed =
     sort_key priority_key
       (filter (\<lambda>n. node_id n \<notin> completed \<and> (\<forall>p \<in> set (parent_ids g (node_id n)). p \<in> completed)) (nodes g))"

definition topological_sort :: "task_graph \<Rightarrow> task_node list option" where
  "topological_sort g =
     Option.bind (post_order (\<lambda>v. rev (sort (child_ids g v))) (rev (sort (ids g))))
       (\<lambda>stack. lookup_all (node_map g) (rev stack))"

section \<open>What linking establishes\<close>

text \<open>The edge test without the maps: every edge joins two known different nodes, and no other object joins them.\<close>

definition edges_ok :: "task_node list \<Rightarrow> task_edge list \<Rightarrow> bool" where
  "edges_ok ns es \<longleftrightarrow> (\<forall>e \<in> set es.
     te_source e \<in> node_id ` set ns \<and> te_target e \<in> node_id ` set ns \<and> te_source e \<noteq> te_target e \<and>
     (\<forall>e' \<in> set es. te_source e' = te_source e \<and> te_target e' = te_target e \<longrightarrow> te_object e' = te_object e))"

lemma edge_errors_None:
  "first_error (edge_errors (dict_by node_id ns) es e) = None \<longleftrightarrow>
     te_source e \<in> node_id ` set ns \<and> te_target e \<in> node_id ` set ns \<and> te_source e \<noteq> te_target e \<and>
     (\<forall>e' \<in> set es. te_source e' = te_source e \<and> te_target e' = te_target e \<longrightarrow> te_object e' = te_object e)"
  by (auto simp: edge_errors_def)

lemma link_edges_Inr:
  "link_edges nm es rest (cm, pm) = Inr (cm', pm') \<Longrightarrow>
     (\<forall>e \<in> set rest. first_error (edge_errors nm es e) = None) \<and>
     (\<forall>v. get_list cm' v = get_list cm v @ map te_target (filter (\<lambda>e. te_source e = v) rest)) \<and>
     (\<forall>v. get_list pm' v = get_list pm v @ map te_source (filter (\<lambda>e. te_target e = v) rest))"
proof (induction rest arbitrary: cm pm)
  case (Cons e rest)
  let ?cm = "append_at cm (te_source e) (te_target e)" and ?pm = "append_at pm (te_target e) (te_source e)"
  from Cons.prems have ok: "first_error (edge_errors nm es e) = None"
    and l: "link_edges nm es rest (?cm, ?pm) = Inr (cm', pm')"
    by (simp_all split: option.splits)
  from Cons.IH [OF l] ok show ?case by simp
qed simp

lemma link_edges_ok:
  "(\<forall>e \<in> set rest. first_error (edge_errors nm es e) = None) \<Longrightarrow> \<exists>r. link_edges nm es rest (cm, pm) = Inr r"
  by (induction rest arbitrary: cm pm) simp_all

lemma link_graph_error:
  assumes "link_graph ns es = Inl err"
  shows "err \<noteq> CycleError" and "err \<noteq> RecursionError"
proof -
  have "link_edges nm es rest maps = Inl err \<Longrightarrow> err \<noteq> CycleError \<and> err \<noteq> RecursionError" for nm rest maps
  proof (induction nm es rest maps rule: link_edges.induct)
    case (2 nm es e rest cm pm)
    then show ?case
      by (cases "first_error (edge_errors nm es e)") (auto simp: edge_errors_def split: if_splits)
  qed simp
  with assms show "err \<noteq> CycleError" and "err \<noteq> RecursionError"
    by (auto simp: link_graph_def Let_def bind_res_Inl_iff split: if_splits)
qed

text \<open>The graphs the constructor hands to the cycle check.\<close>

definition linked :: "task_graph \<Rightarrow> bool" where
  "linked g \<longleftrightarrow> link_graph (nodes g) (edges g) = Inr g"

lemma link_graph_Inr:
  assumes "link_graph ns es = Inr g"
  shows "nodes g = ns \<and> edges g = es \<and> distinct (map node_id ns) \<and> edges_ok ns es \<and>
    node_map g = dict_by node_id ns \<and>
    (\<forall>v. child_ids g v = map te_target (filter (\<lambda>e. te_source e = v) es)) \<and>
    (\<forall>v. parent_ids g v = map te_source (filter (\<lambda>e. te_target e = v) es))"
proof -
  from assms obtain cm pm where
    d: "distinct (map node_id ns)" and
    l: "link_edges (dict_by node_id ns) es es (empty_lists (map node_id ns), empty_lists (map node_id ns)) = Inr (cm, pm)" and
    g: "g = \<lparr>nodes = ns, edges = es, node_map = dict_by node_id ns, children_map = cm, parents_map = pm\<rparr>"
    by (auto simp: link_graph_def Let_def dict_size_distinct bind_res_Inr_iff split: if_splits)
  have "edges_ok ns es"
    using link_edges_Inr [OF l] unfolding edge_errors_None edges_ok_def by blast
  with link_edges_Inr [OF l] d g show ?thesis
    by (simp add: child_ids_def parent_ids_def)
qed

lemma link_graph_ok_iff:
  "(\<exists>g. link_graph ns es = Inr g) \<longleftrightarrow> distinct (map node_id ns) \<and> edges_ok ns es"
proof
  assume "distinct (map node_id ns) \<and> edges_ok ns es"
  then have d: "distinct (map node_id ns)" and e: "\<forall>e \<in> set es. first_error (edge_errors (dict_by node_id ns) es e) = None"
    unfolding edge_errors_None edges_ok_def by blast+
  from link_edges_ok [OF e] obtain r where
    "link_edges (dict_by node_id ns) es es (empty_lists (map node_id ns), empty_lists (map node_id ns)) = Inr r"
    by blast
  with d show "\<exists>g. link_graph ns es = Inr g"
    by (cases r) (auto simp: link_graph_def Let_def dict_size_distinct)
qed (use link_graph_Inr in blast)

lemma linked_facts:
  assumes "linked g"
  shows "distinct (ids g)" and "edges_ok (nodes g) (edges g)" and "node_map g = dict_by node_id (nodes g)"
    and "child_ids g v = map te_target (filter (\<lambda>e. te_source e = v) (edges g))"
    and "parent_ids g v = map te_source (filter (\<lambda>e. te_target e = v) (edges g))"
  using link_graph_Inr [OF assms [unfolded linked_def]] by auto

lemma edge_ends:
  assumes "linked g" and "e \<in> set (edges g)"
  shows "te_source e \<in> set (ids g)" and "te_target e \<in> set (ids g)" and "te_source e \<noteq> te_target e"
  using bspec [OF linked_facts(2) [OF assms(1), unfolded edges_ok_def] assms(2)] by auto

lemma child_iff: "linked g \<Longrightarrow> c \<in> set (child_ids g v) \<longleftrightarrow> (\<exists>e \<in> set (edges g). te_source e = v \<and> te_target e = c)"
  by (auto simp: linked_facts)

lemma parent_iff: "linked g \<Longrightarrow> p \<in> set (parent_ids g v) \<longleftrightarrow> v \<in> set (child_ids g p)"
  by (auto simp: linked_facts)

text \<open>The graph class provides the interface of the searches.\<close>

interpretation tasks: graph_api linked ids child_ids
proof
  fix g v
  assume "linked g"
  then show "set (child_ids g v) \<subseteq> set (ids g)"
    using edge_ends(2) by (auto simp: child_iff)
next
  fix g v
  assume "linked g" and "v \<notin> set (ids g)"
  then show "child_ids g v = []"
    using edge_ends(1) by (auto simp: linked_facts(4) filter_empty_conv)
qed

definition valid_graph :: "task_graph \<Rightarrow> bool" where
  "valid_graph g \<longleftrightarrow> make_task_graph (nodes g) (edges g) = Inr g"

lemma link_then_linked: "link_graph ns es = Inr g \<Longrightarrow> linked g"
  using link_graph_Inr by (auto simp: linked_def)

lemma make_task_graph_Inr:
  "make_task_graph ns es = Inr g \<longleftrightarrow> link_graph ns es = Inr g \<and> acyclic (edge_rel (child_ids g))"
  using tasks.check_exact [OF link_then_linked]
  by (auto simp: make_task_graph_def bind_res_Inr_iff cycle_check_def split: if_splits)

lemma valid_graph_iff: "valid_graph g \<longleftrightarrow> linked g \<and> acyclic (edge_rel (child_ids g))"
  by (simp add: valid_graph_def make_task_graph_Inr linked_def)

lemma made_valid [intro]: "make_task_graph ns es = Inr g \<Longrightarrow> valid_graph g"
  using link_graph_Inr by (auto simp: make_task_graph_Inr valid_graph_iff linked_def)

section \<open>Order, readiness and determinism\<close>

lemma children_first_sorted:
  "children_first kids seen out \<Longrightarrow> distinct out \<Longrightarrow> set out \<inter> seen = {} \<Longrightarrow>
     sorted_wrt (\<lambda>x y. y \<notin> set (kids x)) out"
  by (induction out arbitrary: seen) fastforce+

lemma lookup_all_Some: "(\<And>i. i \<in> set is \<Longrightarrow> nm i = Some (f i)) \<Longrightarrow> lookup_all nm is = Some (map f is)"
  by (induction "is") (simp_all add: lookup_all_def)

lemma node_lookup:
  assumes "linked g" and "i \<in> set (ids g)"
  shows "\<exists>n \<in> set (nodes g). node_map g i = Some n \<and> node_id n = i"
  using assms linked_facts(1,3) [OF assms(1)] by (auto simp: dict_by_distinct)

lemma node_lookup_self: "linked g \<Longrightarrow> n \<in> set (nodes g) \<Longrightarrow> node_map g (node_id n) = Some n"
  using linked_facts(1,3) by (simp add: dict_by_distinct)

text \<open>Looking up a list of different known ids that covers the graph gives back its nodes.\<close>

lemma lookup_all_nodes:
  assumes g: "linked g" and d: "distinct is" and s: "set is = set (ids g)"
  shows "\<exists>ns. lookup_all (node_map g) is = Some ns \<and> map node_id ns = is \<and> mset ns = mset (nodes g)"
proof -
  let ?f = "\<lambda>i. the (node_map g i)"
  have l: "lookup_all (node_map g) is = Some (map ?f is)"
    by (rule lookup_all_Some) (use node_lookup [OF g] s in fastforce)
  have "node_id (?f i) = i" if "i \<in> set is" for i
    using node_lookup [OF g, of i] that s by auto
  then have i: "map node_id (map ?f is) = is" by (simp add: map_idI)
  have dm: "distinct (map ?f is)" using i d by (metis distinct_map)
  have "set (map ?f is) = set (nodes g)"
    unfolding set_map s using node_lookup_self [OF g] by (force simp: image_iff)
  then have "mset (map ?f is) = mset (nodes g)"
    using dm linked_facts(1) [OF g] by (meson distinct_map set_eq_iff_mset_eq_distinct)
  with l i show ?thesis by blast
qed

lemma topological_sort_order:
  assumes g: "valid_graph g"
  shows "\<exists>out. topological_sort g = Some out \<and> mset out = mset (nodes g) \<and>
    sorted_wrt (\<lambda>a b. node_id a \<notin> set (child_ids g (node_id b))) out"
proof -
  have l: "linked g" and ac: "acyclic (edge_rel (child_ids g))" using g by (auto simp: valid_graph_iff)
  have "set (rev (sort (ids g))) = set (ids g)" by simp
  from tasks.order_exact [OF l ac this, of "\<lambda>v. rev (sort (child_ids g v))"] obtain stack where
    st: "post_order (\<lambda>v. rev (sort (child_ids g v))) (rev (sort (ids g))) = Some stack"
      "distinct stack" "set stack = set (ids g)" "children_first (child_ids g) {} stack" by auto
  from lookup_all_nodes [OF l, of "rev stack"] st(2,3) obtain out where
    o: "lookup_all (node_map g) (rev stack) = Some out" "map node_id out = rev stack"
      "mset out = mset (nodes g)" by auto
  have "sorted_wrt (\<lambda>x y. y \<notin> set (child_ids g x)) stack"
    using children_first_sorted [OF st(4,2)] by simp
  then have "sorted_wrt (\<lambda>a b. a \<notin> set (child_ids g b)) (map node_id out)"
    unfolding o(2) by (simp add: sorted_wrt_rev)
  then have "sorted_wrt (\<lambda>a b. node_id a \<notin> set (child_ids g (node_id b))) out"
    by (simp add: sorted_wrt_map)
  with o(1,3) st(1) show ?thesis by (simp add: topological_sort_def)
qed

lemma ready_iff:
  "linked g \<Longrightarrow> n \<in> set (ready g completed) \<longleftrightarrow>
     n \<in> set (nodes g) \<and> node_id n \<notin> completed \<and>
     (\<forall>e \<in> set (edges g). te_target e = node_id n \<longrightarrow> te_source e \<in> completed)"
  by (auto simp: ready_def linked_facts(5))

text \<open>
  An acyclic graph with a node left has a ready node: a minimal one among those not completed.
\<close>

lemma some_ready:
  assumes g: "valid_graph g" and n: "n \<in> set (nodes g)" "node_id n \<notin> completed"
  shows "ready g completed \<noteq> []"
proof -
  have l: "linked g" and ac: "acyclic (edge_rel (child_ids g))" using g by (auto simp: valid_graph_iff)
  let ?R = "edge_rel (child_ids g)" and ?Q = "{i \<in> set (ids g). i \<notin> completed}"
  have "?R \<subseteq> set (ids g) \<times> set (ids g)"
    using edge_ends [OF l] by (auto simp: child_iff [OF l])
  then have "finite ?R" by (rule finite_subset) simp
  then have wf: "wf ?R" using ac by (rule finite_acyclic_wf)
  have "node_id n \<in> ?Q" using n by simp
  from wfE_min [OF wf this] obtain i where i: "i \<in> ?Q" "\<And>j. (j, i) \<in> ?R \<Longrightarrow> j \<notin> ?Q"
    by blast
  have par: "\<forall>p \<in> set (parent_ids g i). p \<in> completed"
  proof
    fix p
    assume p: "p \<in> set (parent_ids g i)"
    then have "i \<in> set (child_ids g p)" by (simp add: parent_iff [OF l])
    then have "(p, i) \<in> ?R" and "p \<in> set (ids g)"
      using edge_ends(1) [OF l] by (auto simp: child_iff [OF l])
    with i(2) show "p \<in> completed" by blast
  qed
  from i(1) obtain m where "m \<in> set (nodes g)" "node_id m = i" by auto
  with i(1) par have "m \<in> set (ready g completed)" by (auto simp: ready_def)
  then show ?thesis by auto
qed

text \<open>Two graphs with the same nodes and edges, in whatever order they were given.\<close>

definition same_graph :: "task_graph \<Rightarrow> task_graph \<Rightarrow> bool" where
  "same_graph g h \<longleftrightarrow> mset (nodes g) = mset (nodes h) \<and> mset (edges g) = mset (edges h)"

lemma mset_filter_map_cong: "mset xs = mset ys \<Longrightarrow> mset (map f (filter P xs)) = mset (map f (filter P ys))"
  by (simp add: mset_filter)

lemma same_children: "linked g \<Longrightarrow> linked h \<Longrightarrow> same_graph g h \<Longrightarrow> sort (child_ids g v) = sort (child_ids h v)"
  by (intro sort_key_eq_sort_key) (auto simp: same_graph_def linked_facts(4) intro: mset_filter_map_cong)

lemma same_parents: "linked g \<Longrightarrow> linked h \<Longrightarrow> same_graph g h \<Longrightarrow> set (parent_ids g v) = set (parent_ids h v)"
  by (intro mset_eq_setD) (auto simp: same_graph_def linked_facts(5) intro: mset_filter_map_cong)

lemma same_lookup:
  assumes g: "linked g" and h: "linked h" and s: "same_graph g h"
  shows "node_map g = node_map h"
proof
  fix i
  have sn: "set (nodes g) = set (nodes h)" using s by (auto simp: same_graph_def dest: mset_eq_setD)
  show "node_map g i = node_map h i"
  proof (cases "i \<in> set (ids g)")
    case True
    then obtain n where n: "n \<in> set (nodes g)" "node_id n = i" by auto
    then show ?thesis using node_lookup_self [OF g, of n] node_lookup_self [OF h, of n] sn by simp
  next
    case False
    then have "i \<notin> set (ids h)" using sn by simp
    with False have "node_map g i = None" "node_map h i = None"
      by (simp_all add: linked_facts(3) [OF g] linked_facts(3) [OF h])
    then show ?thesis by simp
  qed
qed

lemma same_topological_sort:
  assumes "linked g" and "linked h" and "same_graph g h"
  shows "topological_sort g = topological_sort h"
proof -
  have "sort (ids g) = sort (ids h)"
    using assms(3) by (intro sort_key_eq_sort_key) (auto simp: same_graph_def)
  then show ?thesis
    by (simp add: topological_sort_def same_children [OF assms] same_lookup [OF assms])
qed

lemma same_ready:
  assumes g: "linked g" and h: "linked h" and s: "same_graph g h"
  shows "ready g completed = ready h completed"
proof -
  have "inj_on priority_key (set (nodes g))"
    using linked_facts(1) [OF g] by (auto simp: inj_on_def priority_key_def distinct_map)
  then show ?thesis
    using s unfolding ready_def
    by (intro sort_key_eq_sort_key)
      (auto simp: same_graph_def same_parents [OF g h s] inj_on_def)
qed

end
