(* ===== verification/ExecutionGraph.thy ===== *)
theory ExecutionGraph
  imports TaskGraph
begin

text \<open>
  The execution graph and the artifact graph of \<open>execution_graph/graph.py\<close>, their nodes and edges
  (\<open>execution_graph/models.py\<close>) and the mailboxes of \<open>execution_graph/messaging.py\<close>.

  The execution graph links its edges like the task graph but tests only that their ends are known;
  the artifact graph does the same and never looks for cycles.
\<close>

section \<open>Data\<close>

datatype node_state = PENDING | READY | RUNNING | NODE_COMPLETED | NODE_FAILED | SKIPPED

datatype failure_policy = FAIL_FAST | CONTINUE | RETRY | FALLBACK

record execution_node =
  xn_id :: string
  xn_task_id :: string
  xn_title :: string
  xn_state :: node_state
  xn_dependencies :: "string list"
  xn_metadata :: metadata

definition make_execution_node :: "execution_node \<Rightarrow> py_error + execution_node" where
  "make_execution_node n =
     guarded [(blank (xn_task_id n), ValueError ''task_id cannot be empty'')]
       (n\<lparr>xn_task_id := py_strip (xn_task_id n)\<rparr>)"

record execution_edge =
  xe_source :: string
  xe_target :: string

definition make_execution_edge :: "execution_edge \<Rightarrow> py_error + execution_edge" where
  "make_execution_edge e =
     guarded [(xe_source e = xe_target e, ValueError ''Source and target cannot be the same'')] e"

record artifact_node =
  an_id :: string
  an_path :: string
  creator_worker_id :: string
  an_version :: int
  an_metadata :: metadata

definition make_artifact_node :: "artifact_node \<Rightarrow> py_error + artifact_node" where
  "make_artifact_node n =
     guarded
       [(an_path n = [] \<or> py_strip (an_path n) = ''.'' \<or> py_strip (an_path n) = [],
          ValueError ''path cannot be empty'')] n"

text \<open>Both graphs are built from \<open>(source, target)\<close> edges; an \<open>ArtifactEdge\<close> is only that.\<close>

type_synonym artifact_edge = "string \<times> string"

record 'n linked_graph =
  lg_nodes :: "'n list"
  lg_edges :: "(string \<times> string) list"
  lg_node_map :: "string \<Rightarrow> 'n option"
  lg_children_map :: adjacency
  lg_parents_map :: adjacency

type_synonym execution_graph = "execution_node linked_graph"
type_synonym artifact_graph = "artifact_node linked_graph"

section \<open>Linking\<close>

text \<open>The loop over the edges, the same in both classes.\<close>

fun link_pairs ::
  "(string \<Rightarrow> 'n option) \<Rightarrow> (string \<times> string) list \<Rightarrow> adjacency \<times> adjacency \<Rightarrow> graph_error + adjacency \<times> adjacency" where
  "link_pairs nm [] maps = Inr maps"
| "link_pairs nm ((s, t) # rest) (cm, pm) =
     (if nm s = None then Inl (MissingNodeError s)
      else if nm t = None then Inl (MissingNodeError t)
      else link_pairs nm rest (append_at cm s t, append_at pm t s))"

definition link_nodes ::
  "('n \<Rightarrow> string) \<Rightarrow> 'n list \<Rightarrow> (string \<times> string) list \<Rightarrow> graph_error + 'n linked_graph" where
  "link_nodes key ns es =
     (let nm = dict_by key ns; fresh = empty_lists (map key ns)
      in if dict_size key ns \<noteq> length ns then Inl DuplicateNodeError
         else bind_res (link_pairs nm es (fresh, fresh))
                (\<lambda>(cm, pm). Inr \<lparr>lg_nodes = ns, lg_edges = es, lg_node_map = nm,
                   lg_children_map = cm, lg_parents_map = pm\<rparr>))"

section \<open>The execution graph\<close>

definition edge_pair :: "execution_edge \<Rightarrow> string \<times> string" where
  "edge_pair e = (xe_source e, xe_target e)"

abbreviation x_ids :: "execution_graph \<Rightarrow> string list" where
  "x_ids g \<equiv> map xn_id (lg_nodes g)"

definition x_children :: "'n linked_graph \<Rightarrow> string \<Rightarrow> string list" where
  "x_children g v = get_list (lg_children_map g) v"

definition x_parents :: "'n linked_graph \<Rightarrow> string \<Rightarrow> string list" where
  "x_parents g v = get_list (lg_parents_map g) v"

definition x_cycle_check :: "execution_graph \<Rightarrow> graph_error + execution_graph" where
  "x_cycle_check g =
     (case check_cycles (x_children g) (x_ids g) of
        None \<Rightarrow> Inl RecursionError
      | Some found \<Rightarrow> if found then Inl CycleError else Inr g)"

definition make_execution_graph :: "execution_node list \<Rightarrow> (string \<times> string) list \<Rightarrow> graph_error + execution_graph" where
  "make_execution_graph ns es = bind_res (link_nodes xn_id ns es) x_cycle_check"

definition x_add_node :: "execution_graph \<Rightarrow> execution_node \<Rightarrow> graph_error + execution_graph" where
  "x_add_node g n = make_execution_graph (lg_nodes g @ [n]) (lg_edges g)"

definition x_add_edge :: "execution_graph \<Rightarrow> execution_edge \<Rightarrow> graph_error + execution_graph" where
  "x_add_edge g e = make_execution_graph (lg_nodes g) (lg_edges g @ [edge_pair e])"

definition x_roots :: "execution_graph \<Rightarrow> execution_node list" where
  "x_roots g = filter (\<lambda>n. x_parents g (xn_id n) = []) (lg_nodes g)"

definition x_leaves :: "execution_graph \<Rightarrow> execution_node list" where
  "x_leaves g = filter (\<lambda>n. x_children g (xn_id n) = []) (lg_nodes g)"

definition x_ready :: "execution_graph \<Rightarrow> string set \<Rightarrow> execution_node list" where
  "x_ready g completed =
     sort_key xn_id
       (filter (\<lambda>n. xn_id n \<notin> completed \<and> (\<forall>p \<in> set (x_parents g (xn_id n)). p \<in> completed)) (lg_nodes g))"

definition is_complete :: "execution_graph \<Rightarrow> string set \<Rightarrow> bool" where
  "is_complete g completed \<longleftrightarrow> (\<forall>n \<in> set (lg_nodes g). xn_id n \<in> completed)"

section \<open>The artifact graph\<close>

definition make_artifact_graph :: "artifact_node list \<Rightarrow> artifact_edge list \<Rightarrow> graph_error + artifact_graph" where
  "make_artifact_graph ns es = link_nodes an_id ns es"

definition a_add_node :: "artifact_graph \<Rightarrow> artifact_node \<Rightarrow> graph_error + artifact_graph" where
  "a_add_node g n = make_artifact_graph (lg_nodes g @ [n]) (lg_edges g)"

definition a_add_edge :: "artifact_graph \<Rightarrow> artifact_edge \<Rightarrow> graph_error + artifact_graph" where
  "a_add_edge g e = make_artifact_graph (lg_nodes g) (lg_edges g @ [e])"

section \<open>Mailboxes\<close>

record worker_message =
  wm_id :: string
  sender_id :: string
  receiver_id :: string
  msg_type :: string
  content :: string

type_synonym mailbox = "worker_message list"

definition mb_receive :: "mailbox \<Rightarrow> worker_message \<Rightarrow> mailbox" where
  "mb_receive b m = b @ [m]"

definition mb_read_all :: "mailbox \<Rightarrow> worker_message list" where
  "mb_read_all b = b"

definition mb_clear :: "mailbox \<Rightarrow> mailbox" where
  "mb_clear b = []"

type_synonym router = "string \<Rightarrow> mailbox option"

definition router_register :: "router \<Rightarrow> string \<Rightarrow> router" where
  "router_register r w = (if r w = None then r(w \<mapsto> []) else r)"

definition route :: "router \<Rightarrow> worker_message \<Rightarrow> py_error + router" where
  "route r m =
     (case r (receiver_id m) of
        None \<Rightarrow> Inl (ValueError (''Receiver '' @ receiver_id m @ '' not registered''))
      | Some b \<Rightarrow> Inr (r(receiver_id m \<mapsto> mb_receive b m)))"

definition get_mailbox :: "router \<Rightarrow> string \<Rightarrow> py_error + mailbox" where
  "get_mailbox r w =
     (case r w of None \<Rightarrow> Inl (ValueError (''Worker '' @ w @ '' not registered'')) | Some b \<Rightarrow> Inr b)"

fun route_all :: "router \<Rightarrow> worker_message list \<Rightarrow> py_error + router" where
  "route_all r [] = Inr r"
| "route_all r (m # ms) = bind_res (route r m) (\<lambda>r'. route_all r' ms)"

text \<open>Each mailbox receives exactly the messages addressed to it, in the order they were routed.\<close>

lemma route_all_Inr:
  "route_all r ms = Inr r' \<Longrightarrow> r w = Some b \<Longrightarrow> r' w = Some (b @ filter (\<lambda>m. receiver_id m = w) ms)"
proof (induction ms arbitrary: r b)
  case (Cons m ms)
  from Cons.prems(1) obtain r1 where r1: "route r m = Inr r1" "route_all r1 ms = Inr r'"
    by (auto simp: bind_res_Inr_iff)
  from r1(1) Cons.prems(2) have "r1 w = Some (if receiver_id m = w then b @ [m] else b)"
    by (auto simp: route_def mb_receive_def split: option.splits)
  from Cons.IH [OF r1(2) this] show ?case by simp
qed simp

lemma route_all_ok: "(\<forall>m \<in> set ms. r (receiver_id m) \<noteq> None) \<Longrightarrow> \<exists>r'. route_all r ms = Inr r'"
proof (induction ms arbitrary: r)
  case (Cons m ms)
  from Cons.prems obtain b where b: "r (receiver_id m) = Some b" by auto
  have "\<forall>m' \<in> set ms. (r(receiver_id m \<mapsto> mb_receive b m)) (receiver_id m') \<noteq> None"
    using Cons.prems by auto
  from Cons.IH [OF this] b show ?case by (simp add: route_def fun_upd_def)
qed simp

section \<open>What linking establishes\<close>

definition ends_known :: "('n \<Rightarrow> string) \<Rightarrow> 'n list \<Rightarrow> (string \<times> string) list \<Rightarrow> bool" where
  "ends_known key ns es \<longleftrightarrow> (\<forall>(s, t) \<in> set es. s \<in> key ` set ns \<and> t \<in> key ` set ns)"

lemma link_pairs_Inr:
  "link_pairs nm es (cm, pm) = Inr (cm', pm') \<Longrightarrow>
     (\<forall>(s, t) \<in> set es. nm s \<noteq> None \<and> nm t \<noteq> None) \<and>
     (\<forall>v. get_list cm' v = get_list cm v @ map snd (filter (\<lambda>e. fst e = v) es)) \<and>
     (\<forall>v. get_list pm' v = get_list pm v @ map fst (filter (\<lambda>e. snd e = v) es))"
proof (induction es arbitrary: cm pm)
  case (Cons e es)
  obtain s t where e: "e = (s, t)" by (cases e)
  from Cons.prems have ok: "nm s \<noteq> None" "nm t \<noteq> None"
    and l: "link_pairs nm es (append_at cm s t, append_at pm t s) = Inr (cm', pm')"
    by (simp_all add: e split: if_splits)
  from Cons.IH [OF l] ok show ?case by (simp add: e)
qed simp

lemma link_pairs_ok:
  "(\<forall>(s, t) \<in> set es. nm s \<noteq> None \<and> nm t \<noteq> None) \<Longrightarrow> \<exists>r. link_pairs nm es (cm, pm) = Inr r"
  by (induction es arbitrary: cm pm) auto

lemma link_nodes_Inr:
  assumes "link_nodes key ns es = Inr g"
  shows "lg_nodes g = ns \<and> lg_edges g = es \<and> distinct (map key ns) \<and> ends_known key ns es \<and>
    (\<forall>v. x_children g v = map snd (filter (\<lambda>e. fst e = v) es)) \<and>
    (\<forall>v. x_parents g v = map fst (filter (\<lambda>e. snd e = v) es))"
proof -
  let ?fresh = "empty_lists (map key ns)"
  from assms obtain cm pm where
    d: "distinct (map key ns)" and
    l: "link_pairs (dict_by key ns) es (?fresh, ?fresh) = Inr (cm, pm)" and
    g: "g = \<lparr>lg_nodes = ns, lg_edges = es, lg_node_map = dict_by key ns, lg_children_map = cm, lg_parents_map = pm\<rparr>"
    by (auto simp: link_nodes_def Let_def dict_size_distinct bind_res_Inr_iff split: if_splits)
  have "ends_known key ns es"
    using link_pairs_Inr [OF l] by (simp add: ends_known_def)
  with link_pairs_Inr [OF l] d g show ?thesis
    by (simp add: x_children_def x_parents_def)
qed

lemma link_nodes_ok_iff: "(\<exists>g. link_nodes key ns es = Inr g) \<longleftrightarrow> distinct (map key ns) \<and> ends_known key ns es"
proof
  assume a: "distinct (map key ns) \<and> ends_known key ns es"
  then have "\<forall>(s, t) \<in> set es. dict_by key ns s \<noteq> None \<and> dict_by key ns t \<noteq> None"
    by (simp add: ends_known_def)
  from link_pairs_ok [OF this] obtain r where
    "link_pairs (dict_by key ns) es (empty_lists (map key ns), empty_lists (map key ns)) = Inr r" by blast
  with a show "\<exists>g. link_nodes key ns es = Inr g"
    by (cases r) (auto simp: link_nodes_def Let_def dict_size_distinct)
qed (use link_nodes_Inr in blast)

definition x_linked :: "execution_graph \<Rightarrow> bool" where
  "x_linked g \<longleftrightarrow> link_nodes xn_id (lg_nodes g) (lg_edges g) = Inr g"

lemma x_linked_facts:
  assumes "x_linked g"
  shows "distinct (x_ids g)" and "ends_known xn_id (lg_nodes g) (lg_edges g)"
    and "x_children g v = map snd (filter (\<lambda>e. fst e = v) (lg_edges g))"
    and "x_parents g v = map fst (filter (\<lambda>e. snd e = v) (lg_edges g))"
  using link_nodes_Inr [OF assms [unfolded x_linked_def]] by auto

lemma x_child_iff: "x_linked g \<Longrightarrow> c \<in> set (x_children g v) \<longleftrightarrow> (v, c) \<in> set (lg_edges g)"
  by (force simp: x_linked_facts)

lemma x_parent_iff: "x_linked g \<Longrightarrow> p \<in> set (x_parents g v) \<longleftrightarrow> (p, v) \<in> set (lg_edges g)"
  by (force simp: x_linked_facts)

lemma x_edge_ends:
  "x_linked g \<Longrightarrow> (s, t) \<in> set (lg_edges g) \<Longrightarrow> s \<in> set (x_ids g) \<and> t \<in> set (x_ids g)"
  by (frule x_linked_facts(2)) (auto simp: ends_known_def)

lemma x_edge_rel: "x_linked g \<Longrightarrow> edge_rel (x_children g) = set (lg_edges g)"
  by (auto simp: edge_rel_def x_child_iff)

interpretation executions: graph_api x_linked x_ids x_children
proof
  fix g v
  assume "x_linked g"
  then show "set (x_children g v) \<subseteq> set (x_ids g)"
    using x_edge_ends by (auto simp: x_child_iff)
next
  fix g v
  assume "x_linked g" and "v \<notin> set (x_ids g)"
  then show "x_children g v = []"
    using x_edge_ends [of g v] by (auto simp: x_linked_facts(3) filter_empty_conv)
qed

definition valid_execution_graph :: "execution_graph \<Rightarrow> bool" where
  "valid_execution_graph g \<longleftrightarrow> make_execution_graph (lg_nodes g) (lg_edges g) = Inr g"

lemma link_then_x_linked: "link_nodes xn_id ns es = Inr g \<Longrightarrow> x_linked g"
  using link_nodes_Inr by (auto simp: x_linked_def)

lemma make_execution_graph_Inr:
  "make_execution_graph ns es = Inr g \<longleftrightarrow> link_nodes xn_id ns es = Inr g \<and> acyclic (set es)"
proof -
  have "link_nodes xn_id ns es = Inr g \<Longrightarrow>
      check_cycles (x_children g) (x_ids g) = Some (\<not> acyclic (set es))" for g
    using executions.check_exact [OF link_then_x_linked] link_nodes_Inr x_edge_rel [OF link_then_x_linked]
    by metis
  then show ?thesis
    by (auto simp: make_execution_graph_def bind_res_Inr_iff x_cycle_check_def split: if_splits)
qed

lemma x_some_ready:
  assumes g: "valid_execution_graph g" and n: "\<not> is_complete g completed"
  shows "x_ready g completed \<noteq> []"
proof -
  from g have l: "x_linked g" and ac: "acyclic (set (lg_edges g))"
    by (auto simp: valid_execution_graph_def make_execution_graph_Inr x_linked_def)
  let ?Q = "{i \<in> set (x_ids g). i \<notin> completed}"
  have wf: "wf (set (lg_edges g))" using ac by (simp add: finite_acyclic_wf)
  from n obtain q where "q \<in> ?Q" by (auto simp: is_complete_def)
  from wfE_min [OF wf this] obtain i where i: "i \<in> ?Q" "\<And>j. (j, i) \<in> set (lg_edges g) \<Longrightarrow> j \<notin> ?Q"
    by blast
  have "\<forall>p \<in> set (x_parents g i). p \<in> completed"
    using i(2) x_edge_ends [OF l] by (auto simp: x_parent_iff [OF l])
  moreover from i(1) obtain m where "m \<in> set (lg_nodes g)" "xn_id m = i" by auto
  ultimately have "m \<in> set (x_ready g completed)" using i(1) by (auto simp: x_ready_def)
  then show ?thesis by auto
qed

lemma x_ready_iff:
  "x_linked g \<Longrightarrow> n \<in> set (x_ready g completed) \<longleftrightarrow>
     n \<in> set (lg_nodes g) \<and> xn_id n \<notin> completed \<and> (\<forall>p. (p, xn_id n) \<in> set (lg_edges g) \<longrightarrow> p \<in> completed)"
  by (auto simp: x_ready_def x_parent_iff)

end
