(* ===== verification/Workers.thy ===== *)
theory Workers
  imports TaskGraph
begin

text \<open>
  The worker pool of \<open>workers/\<close>: health tracking (\<open>health.py\<close>), the registry (\<open>registry.py\<close>), the
  manager that assigns and releases (\<open>manager.py\<close>), the capability matcher and the delegation
  engine (\<open>matcher.py\<close>, \<open>delegation.py\<close>) and the runtime that executes one task (\<open>runtime.py\<close>).

  These objects share each other by reference (manager, delegation engine and runtime hold the same
  registry and the same health manager), so the model keeps them in one record, threaded through
  every operation. A worker is its profile; what its \<open>execute\<close> does is not in the repository's
  hands and is a parameter: a function of everything published so far, the worker and the task,
  that returns a result or raises. The handlers subscribed to the event bus do not raise.
\<close>

section \<open>Data\<close>

datatype worker_role =
  GENERAL | BACKEND | FRONTEND | DATABASE | TESTING | REVIEW | DOCUMENTATION | DEVOPS | SECURITY | AI

datatype worker_state =
  IDLE | ASSIGNED | W_PLANNING | EXECUTING | WAITING | REVIEWING | BLOCKED | W_COMPLETED | W_FAILED

datatype worker_health = HEALTHY | BUSY | DEGRADED | UNAVAILABLE

datatype experience_level = JUNIOR | MID | SENIOR | EXPERT

fun role_value :: "worker_role \<Rightarrow> string" where
  "role_value GENERAL = ''general''"
| "role_value BACKEND = ''backend''"
| "role_value FRONTEND = ''frontend''"
| "role_value DATABASE = ''database''"
| "role_value TESTING = ''testing''"
| "role_value REVIEW = ''review''"
| "role_value DOCUMENTATION = ''documentation''"
| "role_value DEVOPS = ''devops''"
| "role_value SECURITY = ''security''"
| "role_value AI = ''ai''"

record worker_profile =
  w_id :: string
  w_name :: string
  w_role :: worker_role
  w_experience :: experience_level
  capabilities :: "string list"
  preferred_capabilities :: "string list"
  supported_languages :: "string list"
  frameworks :: "string list"
  domains :: "string list"
  preferred_tasks :: "string list"
  max_parallel_tasks :: int
  w_health :: worker_health
  w_metadata :: metadata

definition make_worker_profile :: "worker_profile \<Rightarrow> py_error + worker_profile" where
  "make_worker_profile p =
     guarded
       [(blank (w_name p), ValueError ''name cannot be empty or whitespace''),
        (max_parallel_tasks p < 1, ValueError ''max_parallel_tasks must be an integer >= 1'')]
       (p\<lparr>w_name := py_strip (w_name p)\<rparr>)"

record worker_task =
  wt_id :: string
  wt_title :: string
  wt_description :: string
  wt_required_capability :: string
  wt_complexity :: rat
  wt_priority :: task_priority

definition make_worker_task :: "worker_task \<Rightarrow> py_error + worker_task" where
  "make_worker_task t =
     guarded
       [(blank (wt_title t), ValueError ''title cannot be empty or whitespace''),
        (wt_complexity t < 0, ValueError ''estimated_complexity must be a non-negative number'')]
       (t\<lparr>wt_title := py_strip (wt_title t)\<rparr>)"

record worker_result =
  wr_worker_id :: string
  wr_task_id :: string
  success :: bool
  summary :: string
  artifacts :: "string list"
  warnings :: "string list"

definition make_worker_result :: "worker_result \<Rightarrow> py_error + worker_result" where
  "make_worker_result r =
     guarded
       [(blank (wr_worker_id r), ValueError ''worker_id cannot be empty or whitespace''),
        (blank (wr_task_id r), ValueError ''task_id cannot be empty or whitespace'')]
       (r\<lparr>wr_worker_id := py_strip (wr_worker_id r), wr_task_id := py_strip (wr_task_id r)\<rparr>)"

datatype worker_event =
    WorkerStarted string string
  | WorkerCompleted string string bool
  | WorkerFailed string string string
  | WorkerReleased string

text \<open>\<open>WorkerInstance\<close>, without the worker it was created for: the registry's under that id.\<close>

record worker_instance =
  inst_state :: worker_state
  current_task_id :: "string option"

text \<open>
  The registry's dictionary is the list of its values in insertion order, keyed by profile id. The
  bus is the list of what was published.
\<close>

record worker_pool =
  registry :: "worker_profile list"
  health :: "string \<Rightarrow> worker_health option"
  failure_counts :: "string \<Rightarrow> int option"
  degrade_threshold :: int
  unavailable_threshold :: int
  instances :: "string \<Rightarrow> worker_instance option"
  bus :: "worker_event list"
  completed_tasks :: int
  failed_tasks :: int

datatype worker_error =
    WorkerNotFoundError string | AlreadyRegistered string | InvalidValue py_error

definition new_pool :: worker_pool where
  "new_pool = \<lparr>registry = [], health = Map.empty, failure_counts = Map.empty, degrade_threshold = 1,
     unavailable_threshold = 3, instances = Map.empty, bus = [], completed_tasks = 0, failed_tasks = 0\<rparr>"

section \<open>Health\<close>

definition failure_count :: "worker_pool \<Rightarrow> string \<Rightarrow> int" where
  "failure_count p w = (case failure_counts p w of Some n \<Rightarrow> n | None \<Rightarrow> 0)"

definition record_success :: "worker_pool \<Rightarrow> string \<Rightarrow> worker_pool" where
  "record_success p w =
     p\<lparr>failure_counts := (failure_counts p)(w \<mapsto> 0), health := (health p)(w \<mapsto> HEALTHY)\<rparr>"

definition record_failure :: "worker_pool \<Rightarrow> string \<Rightarrow> worker_pool" where
  "record_failure p w =
     (let count = failure_count p w + 1;
          p' = p\<lparr>failure_counts := (failure_counts p)(w \<mapsto> count)\<rparr>
      in if count \<ge> unavailable_threshold p then p'\<lparr>health := (health p)(w \<mapsto> UNAVAILABLE)\<rparr>
         else if count \<ge> degrade_threshold p then p'\<lparr>health := (health p)(w \<mapsto> DEGRADED)\<rparr>
         else p')"

definition get_health :: "worker_pool \<Rightarrow> string \<Rightarrow> worker_health" where
  "get_health p w = (case health p w of Some h \<Rightarrow> h | None \<Rightarrow> HEALTHY)"

definition recover :: "worker_pool \<Rightarrow> string \<Rightarrow> worker_pool" where
  "recover p w =
     p\<lparr>health := (health p)(w \<mapsto> HEALTHY), failure_counts := (failure_counts p)(w \<mapsto> 0)\<rparr>"

section \<open>Registry\<close>

definition find_worker :: "worker_pool \<Rightarrow> string \<Rightarrow> worker_profile option" where
  "find_worker p w = List.find (\<lambda>x. w_id x = w) (registry p)"

definition register :: "worker_pool \<Rightarrow> worker_profile \<Rightarrow> worker_error + worker_pool" where
  "register p w =
     (if find_worker p (w_id w) \<noteq> None then Inl (AlreadyRegistered (w_id w))
      else Inr (p\<lparr>registry := registry p @ [w]\<rparr>))"

definition unregister :: "worker_pool \<Rightarrow> string \<Rightarrow> worker_pool \<times> bool" where
  "unregister p w =
     (p\<lparr>registry := filter (\<lambda>x. w_id x \<noteq> w) (registry p)\<rparr>, find_worker p w \<noteq> None)"

definition find_registered :: "worker_pool \<Rightarrow> string \<Rightarrow> worker_error + worker_profile" where
  "find_registered p w =
     (case find_worker p w of None \<Rightarrow> Inl (WorkerNotFoundError w) | Some x \<Rightarrow> Inr x)"

definition list_workers :: "worker_pool \<Rightarrow> worker_profile list" where
  "list_workers p = sort_key w_id (registry p)"

definition usable :: "worker_health \<Rightarrow> bool" where
  "usable h \<longleftrightarrow> h \<in> {HEALTHY, DEGRADED}"

definition available :: "worker_pool \<Rightarrow> worker_profile list" where
  "available p = filter (\<lambda>w. usable (get_health p (w_id w))) (list_workers p)"

definition by_role :: "worker_pool \<Rightarrow> worker_role \<Rightarrow> worker_profile list" where
  "by_role p r = filter (\<lambda>w. w_role w = r) (list_workers p)"

definition by_capability :: "worker_pool \<Rightarrow> string \<Rightarrow> worker_profile list" where
  "by_capability p c = filter (\<lambda>w. c \<in> set (capabilities w)) (list_workers p)"

definition by_health :: "worker_pool \<Rightarrow> worker_health \<Rightarrow> worker_profile list" where
  "by_health p h = filter (\<lambda>w. get_health p (w_id w) = h) (list_workers p)"

section \<open>Manager\<close>

definition fresh_instance :: worker_instance where
  "fresh_instance = \<lparr>inst_state = IDLE, current_task_id = None\<rparr>"

text \<open>\<open>_get_instance\<close> creates the instance of a registered worker the first time it is asked for.\<close>

definition get_instance :: "worker_pool \<Rightarrow> string \<Rightarrow> worker_error + worker_pool \<times> worker_instance" where
  "get_instance p w =
     (case instances p w of
        Some i \<Rightarrow> Inr (p, i)
      | None \<Rightarrow> bind_res (find_registered p w)
          (\<lambda>_. Inr (p\<lparr>instances := (instances p)(w \<mapsto> fresh_instance)\<rparr>, fresh_instance)))"

definition set_instance :: "worker_pool \<Rightarrow> string \<Rightarrow> worker_instance \<Rightarrow> worker_pool" where
  "set_instance p w i = p\<lparr>instances := (instances p)(w \<mapsto> i)\<rparr>"

text \<open>The loop that keeps the idle and usable candidates.\<close>

fun scan_candidates :: "worker_pool \<Rightarrow> worker_profile list \<Rightarrow> worker_error + worker_pool \<times> worker_profile list" where
  "scan_candidates p [] = Inr (p, [])"
| "scan_candidates p (w # ws) =
     bind_res (get_instance p (w_id w)) (\<lambda>(p1, i).
       bind_res (scan_candidates p1 ws) (\<lambda>(p2, rest).
         Inr (p2, if inst_state i = IDLE \<and> usable (get_health p (w_id w)) then w # rest else rest)))"

definition choose_worker :: "string \<Rightarrow> worker_profile list \<Rightarrow> worker_profile option" where
  "choose_worker cap avail =
     (let preferred = filter (\<lambda>w. cap \<in> set (preferred_capabilities w)) avail
      in case avail of
           [] \<Rightarrow> None
         | w # _ \<Rightarrow> if cap \<noteq> [] \<and> preferred \<noteq> [] then Some (hd preferred) else Some w)"

definition find_best_worker :: "worker_pool \<Rightarrow> worker_task \<Rightarrow> worker_error + worker_pool \<times> worker_profile option" where
  "find_best_worker p t =
     (let cap = wt_required_capability t;
          candidates = (if cap = [] then list_workers p else by_capability p cap)
      in bind_res (scan_candidates p candidates) (\<lambda>(p', avail). Inr (p', choose_worker cap avail)))"

text \<open>The legacy entry point wraps a bare task id in a task that requires \<open>python\<close>.\<close>

definition find_best_worker_for_task :: "worker_pool \<Rightarrow> string \<Rightarrow> worker_error + worker_pool \<times> worker_profile option" where
  "find_best_worker_for_task p tid =
     find_best_worker p \<lparr>wt_id = tid, wt_title = ''Legacy Execution'',
       wt_description = ''Legacy execution'', wt_required_capability = ''python'',
       wt_complexity = 1, wt_priority = NORMAL\<rparr>"

definition assign :: "worker_pool \<Rightarrow> string \<Rightarrow> string \<Rightarrow> worker_error + worker_pool \<times> bool" where
  "assign p w tid =
     bind_res (get_instance p w) (\<lambda>(p', i).
       if inst_state i \<noteq> IDLE then Inr (p', False)
       else Inr (set_instance p' w (i\<lparr>inst_state := ASSIGNED, current_task_id := Some tid\<rparr>), True))"

definition release :: "worker_pool \<Rightarrow> string \<Rightarrow> worker_error + worker_pool" where
  "release p w =
     bind_res (get_instance p w) (\<lambda>(p', i).
       Inr (set_instance p' w (i\<lparr>inst_state := IDLE, current_task_id := None\<rparr>)))"

definition get_state :: "worker_pool \<Rightarrow> string \<Rightarrow> worker_error + worker_pool \<times> worker_state" where
  "get_state p w = bind_res (get_instance p w) (\<lambda>(p', i). Inr (p', inst_state i))"

definition idle_workers :: "worker_pool \<Rightarrow> worker_profile list" where
  "idle_workers p =
     filter (\<lambda>w. case instances p (w_id w) of None \<Rightarrow> True | Some i \<Rightarrow> inst_state i = IDLE) (list_workers p)"

definition busy_workers :: "worker_pool \<Rightarrow> worker_profile list" where
  "busy_workers p =
     filter (\<lambda>w. case instances p (w_id w) of
         None \<Rightarrow> False | Some i \<Rightarrow> inst_state i \<in> {EXECUTING, ASSIGNED}) (list_workers p)"

section \<open>Matching and delegation\<close>

record capability_score =
  cs_worker_id :: string
  score :: int
  matched_capabilities :: "string list"
  missing_capabilities :: "string list"
  reasons :: "string list"

definition score_worker :: "worker_profile \<Rightarrow> worker_task \<Rightarrow> capability_score" where
  "score_worker w t =
     (let req = wt_required_capability t;
          prefers = req \<in> set (preferred_capabilities w);
          role = role_value (w_role w) = req;
          (s, matched, missing, why) =
            (if req = [] then (50, [], [], [''No specific capability required''])
             else if req \<in> set (capabilities w)
             then (80 + (if prefers then 20 else 0) + (if role then 10 else 0), [req], [],
                   [''Has required capability: '' @ req]
                   @ (if prefers then [''Prefers this capability: '' @ req] else [])
                   @ (if role then [''Role matches capability: '' @ req] else []))
             else (0, [], [req], [''Missing required capability: '' @ req]))
      in \<lparr>cs_worker_id = w_id w, score = min 100 s, matched_capabilities = matched,
          missing_capabilities = missing, reasons = why\<rparr>)"

definition rank_key :: "capability_score \<Rightarrow> int \<times> string" where
  "rank_key s = (- score s, cs_worker_id s)"

definition rank_workers :: "worker_profile list \<Rightarrow> worker_task \<Rightarrow> capability_score list" where
  "rank_workers ws t =
     (let scores = map (\<lambda>w. score_worker w t) ws;
          kept = (if wt_required_capability t \<noteq> [] then filter (\<lambda>s. score s > 0) scores else scores)
      in sort_key rank_key kept)"

definition best_worker :: "worker_profile list \<Rightarrow> worker_task \<Rightarrow> (worker_profile \<times> capability_score) option" where
  "best_worker ws t =
     (case rank_workers ws t of
        [] \<Rightarrow> None
      | best # _ \<Rightarrow> map_option (\<lambda>w. (w, best)) (List.find (\<lambda>w. w_id w = cs_worker_id best) ws))"

definition delegate :: "worker_pool \<Rightarrow> worker_task \<Rightarrow> worker_error + worker_pool \<times> (worker_profile \<times> capability_score) option" where
  "delegate p t =
     bind_res (scan_candidates p (list_workers p)) (\<lambda>(p', avail). Inr (p', best_worker avail t))"

section \<open>Runtime\<close>

datatype work_outcome = Returns worker_result | Raises string

type_synonym behaviour = "worker_event list \<Rightarrow> worker_profile \<Rightarrow> worker_task \<Rightarrow> work_outcome"

definition emit :: "worker_pool \<Rightarrow> worker_event \<Rightarrow> worker_pool" where
  "emit p e = p\<lparr>bus := bus p @ [e]\<rparr>"

text \<open>
  The body of the \<open>try\<close> and its \<open>except\<close>. The result built for an exception is itself validated, so
  a blank worker or task id raises from the handler.
\<close>

definition attempt :: "behaviour \<Rightarrow> worker_pool \<Rightarrow> worker_profile \<Rightarrow> worker_task
    \<Rightarrow> worker_pool \<times> (worker_error + worker_result)" where
  "attempt work p w t =
     (case work (bus p) w t of
        Returns r \<Rightarrow>
          if success r
          then ((emit (record_success p (w_id w)) (WorkerCompleted (w_id w) (wt_id t) True))
                  \<lparr>completed_tasks := completed_tasks p + 1\<rparr>, Inr r)
          else ((emit (record_failure p (w_id w)) (WorkerCompleted (w_id w) (wt_id t) False))
                  \<lparr>failed_tasks := failed_tasks p + 1\<rparr>, Inr r)
      | Raises msg \<Rightarrow>
          ((emit (record_failure p (w_id w)) (WorkerFailed (w_id w) (wt_id t) msg))
             \<lparr>failed_tasks := failed_tasks p + 1\<rparr>,
           map_sum InvalidValue (\<lambda>r. r)
             (make_worker_result \<lparr>wr_worker_id = w_id w, wr_task_id = wt_id t, success = False,
                summary = ''Execution failed with exception'', artifacts = [], warnings = [msg]\<rparr>)))"

text \<open>\<open>WorkerRuntime.execute\<close>; the \<open>finally\<close> clause releases the worker whatever happened.\<close>

definition run_task :: "behaviour \<Rightarrow> worker_pool \<Rightarrow> worker_profile \<Rightarrow> worker_task
    \<Rightarrow> worker_error + worker_pool \<times> (worker_error + worker_result)" where
  "run_task work p w t =
     bind_res (get_instance p (w_id w)) (\<lambda>(p0, i).
       let p1 = emit (set_instance p0 (w_id w) (i\<lparr>inst_state := EXECUTING\<rparr>)) (WorkerStarted (w_id w) (wt_id t));
           (p2, res) = attempt work p1 w t
       in bind_res (release p2 (w_id w)) (\<lambda>p3. Inr (emit p3 (WorkerReleased (w_id w)), res)))"

record runtime_metrics =
  total_workers :: nat
  idle_count :: nat
  busy_count :: nat
  m_completed :: int
  m_failed :: int
  queue_size :: int
  utilization :: rat

definition get_metrics :: "worker_pool \<Rightarrow> runtime_metrics" where
  "get_metrics p =
     (let total = length (list_workers p); busy = length (busy_workers p)
      in \<lparr>total_workers = total, idle_count = length (idle_workers p), busy_count = busy,
          m_completed = completed_tasks p, m_failed = failed_tasks p, queue_size = 0,
          utilization = (if total > 0 then of_nat busy / of_nat total else 0)\<rparr>)"

section \<open>The effect of the operations\<close>

text \<open>The pool in which \<open>w\<close> has an instance, and that instance.\<close>

definition ensure :: "worker_pool \<Rightarrow> string \<Rightarrow> worker_pool" where
  "ensure p w = (if instances p w = None then set_instance p w fresh_instance else p)"

definition inst_of :: "worker_pool \<Rightarrow> string \<Rightarrow> worker_instance" where
  "inst_of p w = (case instances p w of Some i \<Rightarrow> i | None \<Rightarrow> fresh_instance)"

definition registered :: "worker_pool \<Rightarrow> string \<Rightarrow> bool" where
  "registered p w \<longleftrightarrow> w \<in> w_id ` set (registry p)"

lemma find_worker_iff: "find_worker p w \<noteq> None \<longleftrightarrow> registered p w"
  by (auto simp: find_worker_def registered_def find_None_iff)

lemma find_worker_SomeD: "find_worker p w = Some x \<Longrightarrow> x \<in> set (registry p) \<and> w_id x = w"
  by (auto simp: find_worker_def find_Some_iff)

lemma set_list_workers [simp]: "set (list_workers p) = set (registry p)"
  by (simp add: list_workers_def)

lemma get_instance_eq: "registered p w \<Longrightarrow> get_instance p w = Inr (ensure p w, inst_of p w)"
  using find_worker_iff [of p w]
  by (auto simp: get_instance_def ensure_def inst_of_def find_registered_def set_instance_def split: option.splits)

lemma get_instance_unknown:
  "\<not> registered p w \<Longrightarrow> instances p w = None \<Longrightarrow> get_instance p w = Inl (WorkerNotFoundError w)"
  using find_worker_iff [of p w] by (auto simp: get_instance_def find_registered_def)

lemma ensure_simps [simp]:
  "registry (ensure p w) = registry p" "health (ensure p w) = health p"
  "failure_counts (ensure p w) = failure_counts p" "bus (ensure p w) = bus p"
  "degrade_threshold (ensure p w) = degrade_threshold p"
  "unavailable_threshold (ensure p w) = unavailable_threshold p"
  "inst_of (ensure p w) v = inst_of p v"
  "completed_tasks (ensure p w) = completed_tasks p" "failed_tasks (ensure p w) = failed_tasks p"
  by (simp_all add: ensure_def set_instance_def inst_of_def)

lemma registered_ensure [simp]: "registered (ensure p w) v \<longleftrightarrow> registered p v"
  by (simp add: registered_def)

lemma inst_of_set [simp]: "inst_of (set_instance p w i) v = (if v = w then i else inst_of p v)"
  by (simp add: inst_of_def set_instance_def)

lemma set_instance_simps [simp]:
  "registry (set_instance p w i) = registry p" "health (set_instance p w i) = health p"
  "failure_counts (set_instance p w i) = failure_counts p" "bus (set_instance p w i) = bus p"
  "degrade_threshold (set_instance p w i) = degrade_threshold p"
  "unavailable_threshold (set_instance p w i) = unavailable_threshold p"
  by (simp_all add: set_instance_def)

lemma registered_set_instance [simp]: "registered (set_instance p w i) v \<longleftrightarrow> registered p v"
  by (simp add: registered_def)

text \<open>
  What the manager's queries leave alone: everything but the instances, and of those what can be
  observed. Two pools are alike when they differ in instances created on demand only.
\<close>

definition alike :: "worker_pool \<Rightarrow> worker_pool \<Rightarrow> bool" where
  "alike p q \<longleftrightarrow> registry p = registry q \<and> health p = health q \<and> failure_counts p = failure_counts q \<and>
     degrade_threshold p = degrade_threshold q \<and> unavailable_threshold p = unavailable_threshold q \<and>
     bus p = bus q \<and> inst_of p = inst_of q"

lemma alike_refl [simp]: "alike p p"
  by (simp add: alike_def)

lemma alike_trans: "alike p q \<Longrightarrow> alike q r \<Longrightarrow> alike p r"
  by (simp add: alike_def)

lemma alike_ensure [simp]: "alike p (ensure p w)"
  by (simp add: alike_def fun_eq_iff)

lemma alike_obs:
  assumes "alike p q"
  shows "registry q = registry p" and "get_health q w = get_health p w" and "inst_of q w = inst_of p w"
    and "failure_count q w = failure_count p w" and "registered q w \<longleftrightarrow> registered p w"
    and "list_workers q = list_workers p" and "unavailable_threshold q = unavailable_threshold p"
    and "degrade_threshold q = degrade_threshold p" and "bus q = bus p"
    and "find_worker q w = find_worker p w"
  using assms by (auto simp: alike_def get_health_def failure_count_def registered_def list_workers_def find_worker_def)

definition idle_usable :: "worker_pool \<Rightarrow> worker_profile \<Rightarrow> bool" where
  "idle_usable p w \<longleftrightarrow> inst_state (inst_of p (w_id w)) = IDLE \<and> usable (get_health p (w_id w))"

lemma idle_usable_alike: "alike p q \<Longrightarrow> idle_usable q = idle_usable p"
  by (simp add: fun_eq_iff idle_usable_def alike_obs)

lemma scan_candidates_eq:
  "(\<forall>w \<in> set ws. registered p (w_id w)) \<Longrightarrow>
     \<exists>p'. scan_candidates p ws = Inr (p', filter (idle_usable p) ws) \<and> alike p p'"
proof (induction ws arbitrary: p)
  case (Cons w ws)
  have a: "alike p (ensure p (w_id w))" by simp
  have "\<forall>v \<in> set ws. registered (ensure p (w_id w)) (w_id v)" using Cons.prems by simp
  from Cons.IH [OF this] obtain p' where
    "scan_candidates (ensure p (w_id w)) ws = Inr (p', filter (idle_usable p) ws)" "alike (ensure p (w_id w)) p'"
    using idle_usable_alike [OF a] by auto
  moreover have "get_instance p (w_id w) = Inr (ensure p (w_id w), inst_of p (w_id w))"
    using Cons.prems by (simp add: get_instance_eq)
  ultimately show ?case
    using alike_trans [OF a] by (simp add: idle_usable_def [of p w])
qed simp

definition capable :: "string \<Rightarrow> worker_profile \<Rightarrow> bool" where
  "capable cap w \<longleftrightarrow> cap = [] \<or> cap \<in> set (capabilities w)"

definition candidates :: "worker_pool \<Rightarrow> string \<Rightarrow> worker_profile list" where
  "candidates p cap = filter (\<lambda>w. idle_usable p w \<and> capable cap w) (list_workers p)"

lemma set_candidates:
  "set (candidates p cap) = {w \<in> set (registry p). idle_usable p w \<and> capable cap w}"
  by (auto simp: candidates_def)

lemma find_best_worker_eq:
  "\<exists>p'. find_best_worker p t = Inr (p', choose_worker (wt_required_capability t) (candidates p (wt_required_capability t)))
     \<and> alike p p'"
proof -
  let ?cap = "wt_required_capability t"
  let ?ws = "if ?cap = [] then list_workers p else by_capability p ?cap"
  have "\<forall>w \<in> set ?ws. registered p (w_id w)" by (auto simp: registered_def by_capability_def)
  from scan_candidates_eq [OF this] obtain p' where
    "scan_candidates p ?ws = Inr (p', filter (idle_usable p) ?ws)" "alike p p'" by blast
  moreover have "filter (idle_usable p) ?ws = candidates p ?cap"
    by (auto simp: candidates_def by_capability_def capable_def intro: filter_cong)
  ultimately show ?thesis by (auto simp: find_best_worker_def Let_def)
qed

lemma choose_worker_in: "choose_worker cap ws = Some w \<Longrightarrow> w \<in> set ws"
  by (auto simp: choose_worker_def Let_def hd_in_set split: list.splits if_splits)
    (metis filter_empty_conv hd_in_set filter_is_subset list.set_intros subsetD)+

lemma choose_worker_None [simp]: "choose_worker cap ws = None \<longleftrightarrow> ws = []"
  by (simp add: choose_worker_def Let_def split: list.splits)

text \<open>Sorted by id, the first of a filtered list has the least id.\<close>

lemma sorted_filter_hd:
  assumes "sorted (map f xs)" and "filter P xs \<noteq> []" and "x \<in> set xs" and "P x"
  shows "f (hd (filter P xs)) \<le> f x"
proof -
  have "sorted (map f (filter P xs))" using assms(1) by (rule sorted_filter)
  moreover obtain y ys where "filter P xs = y # ys" using assms(2) by (cases "filter P xs") auto
  moreover have "x \<in> set (filter P xs)" using assms(3,4) by simp
  ultimately show ?thesis by auto
qed

section \<open>Health\<close>

definition health_level :: "worker_pool \<Rightarrow> int \<Rightarrow> worker_health" where
  "health_level p n =
     (if n \<ge> unavailable_threshold p then UNAVAILABLE
      else if n \<ge> degrade_threshold p then DEGRADED else HEALTHY)"

text \<open>
  The recorded health is the level of the recorded failures, whatever order the thresholds are in.
\<close>

definition health_inv :: "worker_pool \<Rightarrow> bool" where
  "health_inv p \<longleftrightarrow> degrade_threshold p \<ge> 1 \<and> unavailable_threshold p \<ge> 1 \<and>
     (\<forall>w. failure_count p w \<ge> 0 \<and> get_health p w = health_level p (failure_count p w))"

lemma failure_count_success [simp]:
  "failure_count (record_success p w) v = (if v = w then 0 else failure_count p v)"
  by (simp add: record_success_def failure_count_def)

lemma failure_count_failure [simp]:
  "failure_count (record_failure p w) v = (if v = w then failure_count p w + 1 else failure_count p v)"
  by (simp add: record_failure_def failure_count_def Let_def)

lemma record_simps [simp]:
  "registry (record_success p w) = registry p" "registry (record_failure p w) = registry p"
  "instances (record_success p w) = instances p" "instances (record_failure p w) = instances p"
  "bus (record_success p w) = bus p" "bus (record_failure p w) = bus p"
  "degrade_threshold (record_success p w) = degrade_threshold p"
  "degrade_threshold (record_failure p w) = degrade_threshold p"
  "unavailable_threshold (record_success p w) = unavailable_threshold p"
  "unavailable_threshold (record_failure p w) = unavailable_threshold p"
  by (simp_all add: record_success_def record_failure_def Let_def)

lemma health_inv_success [inv_intros]: "health_inv p \<Longrightarrow> health_inv (record_success p w)"
  by (auto simp: health_inv_def health_level_def get_health_def record_success_def failure_count_def)

lemma health_inv_failure [inv_intros]:
  assumes "health_inv p"
  shows "health_inv (record_failure p w)"
proof -
  have "get_health (record_failure p w) v =
      (if v \<noteq> w then get_health p v
       else if failure_count p w + 1 \<ge> unavailable_threshold p then UNAVAILABLE
       else if failure_count p w + 1 \<ge> degrade_threshold p then DEGRADED else get_health p w)" for v
    by (simp add: get_health_def record_failure_def Let_def)
  moreover have "get_health p w = health_level p (failure_count p w)" using assms by (simp add: health_inv_def)
  ultimately show ?thesis
    using assms by (auto simp: health_inv_def health_level_def)
qed

lemma health_inv_recover [inv_intros]: "health_inv p \<Longrightarrow> health_inv (recover p w)"
  by (auto simp: health_inv_def health_level_def get_health_def recover_def failure_count_def)

lemma health_inv_new [inv_intros]: "health_inv new_pool"
  by (simp add: health_inv_def new_pool_def failure_count_def get_health_def health_level_def)

lemma health_inv_cong:
  "health p = health q \<Longrightarrow> failure_counts p = failure_counts q \<Longrightarrow> degrade_threshold p = degrade_threshold q \<Longrightarrow>
    unavailable_threshold p = unavailable_threshold q \<Longrightarrow> health_inv p \<longleftrightarrow> health_inv q"
  by (simp add: health_inv_def failure_count_def get_health_def health_level_def)

lemma usable_iff: "health_inv p \<Longrightarrow> usable (get_health p w) \<longleftrightarrow> failure_count p w < unavailable_threshold p"
  by (auto simp: health_inv_def usable_def health_level_def)

section \<open>Running a task\<close>

text \<open>Whether the worker succeeds, and what the run adds to the bus.\<close>

definition succeeds :: "behaviour \<Rightarrow> worker_pool \<Rightarrow> worker_profile \<Rightarrow> worker_task \<Rightarrow> bool" where
  "succeeds work p w t =
     (case work (bus p @ [WorkerStarted (w_id w) (wt_id t)]) w t of Returns r \<Rightarrow> success r | Raises _ \<Rightarrow> False)"

definition run_events :: "behaviour \<Rightarrow> worker_pool \<Rightarrow> worker_profile \<Rightarrow> worker_task \<Rightarrow> worker_event list" where
  "run_events work p w t =
     [WorkerStarted (w_id w) (wt_id t),
      (case work (bus p @ [WorkerStarted (w_id w) (wt_id t)]) w t of
         Returns r \<Rightarrow> WorkerCompleted (w_id w) (wt_id t) (success r)
       | Raises msg \<Rightarrow> WorkerFailed (w_id w) (wt_id t) msg),
      WorkerReleased (w_id w)]"

definition after_run :: "behaviour \<Rightarrow> worker_pool \<Rightarrow> worker_profile \<Rightarrow> worker_task \<Rightarrow> worker_pool \<Rightarrow> bool" where
  "after_run work p w t p' \<longleftrightarrow>
     registry p' = registry p \<and> degrade_threshold p' = degrade_threshold p \<and>
     unavailable_threshold p' = unavailable_threshold p \<and>
     inst_of p' = (inst_of p)(w_id w := fresh_instance) \<and>
     bus p' = bus p @ run_events work p w t \<and>
     (\<forall>v. failure_count p' v =
        (if v = w_id w then if succeeds work p w t then 0 else failure_count p v + 1 else failure_count p v)) \<and>
     completed_tasks p' = completed_tasks p + (if succeeds work p w t then 1 else 0) \<and>
     failed_tasks p' = failed_tasks p + (if succeeds work p w t then 0 else 1)"

text \<open>The result handed back: the worker's own, or the failure built from its exception.\<close>

definition run_result :: "behaviour \<Rightarrow> worker_pool \<Rightarrow> worker_profile \<Rightarrow> worker_task \<Rightarrow> worker_error + worker_result" where
  "run_result work p w t =
     (case work (bus p @ [WorkerStarted (w_id w) (wt_id t)]) w t of
        Returns r \<Rightarrow> Inr r
      | Raises msg \<Rightarrow>
          map_sum InvalidValue (\<lambda>r. r)
            (make_worker_result \<lparr>wr_worker_id = w_id w, wr_task_id = wt_id t, success = False,
               summary = ''Execution failed with exception'', artifacts = [], warnings = [msg]\<rparr>))"

lemma emit_simps [simp]:
  "registry (emit p e) = registry p" "instances (emit p e) = instances p" "health (emit p e) = health p"
  "failure_counts (emit p e) = failure_counts p" "bus (emit p e) = bus p @ [e]"
  "degrade_threshold (emit p e) = degrade_threshold p" "unavailable_threshold (emit p e) = unavailable_threshold p"
  "completed_tasks (emit p e) = completed_tasks p" "failed_tasks (emit p e) = failed_tasks p"
  by (simp_all add: emit_def)

lemma counts_of_record [simp]:
  "completed_tasks (record_success p w) = completed_tasks p" "failed_tasks (record_success p w) = failed_tasks p"
  "completed_tasks (record_failure p w) = completed_tasks p" "failed_tasks (record_failure p w) = failed_tasks p"
  "completed_tasks (set_instance p w i) = completed_tasks p" "failed_tasks (set_instance p w i) = failed_tasks p"
  by (simp_all add: record_success_def record_failure_def Let_def set_instance_def)

lemma failure_count_cong: "failure_counts p = failure_counts q \<Longrightarrow> failure_count p = failure_count q"
  by (simp add: fun_eq_iff failure_count_def)

lemma failure_count_through [simp]:
  "failure_count (emit p e) v = failure_count p v" "failure_count (ensure p w) v = failure_count p v"
  "failure_count (set_instance p w i) v = failure_count p v"
  "failure_count (p\<lparr>completed_tasks := n\<rparr>) v = failure_count p v"
  "failure_count (p\<lparr>failed_tasks := n\<rparr>) v = failure_count p v"
  by (simp_all add: failure_count_def)

lemma inst_of_cong: "instances p = instances q \<Longrightarrow> inst_of p = inst_of q"
  by (simp add: fun_eq_iff inst_of_def)

lemma registered_cong: "registry p = registry q \<Longrightarrow> registered p = registered q"
  by (simp add: fun_eq_iff registered_def)

lemma health_inv_through [simp]:
  "health_inv (emit p e) \<longleftrightarrow> health_inv p" "health_inv (p\<lparr>completed_tasks := n\<rparr>) \<longleftrightarrow> health_inv p"
  "health_inv (p\<lparr>failed_tasks := n\<rparr>) \<longleftrightarrow> health_inv p" "health_inv (ensure p w) \<longleftrightarrow> health_inv p"
  "health_inv (set_instance p w i) \<longleftrightarrow> health_inv p"
  by (rule health_inv_cong; simp)+

text \<open>What \<open>attempt\<close> does to the pool.\<close>

lemma attempt_effect:
  assumes "attempt work p w t = (q, res)" and "bus p = b @ [WorkerStarted (w_id w) (wt_id t)]" and "b = bus p0"
  shows "registry q = registry p \<and> instances q = instances p \<and> degrade_threshold q = degrade_threshold p \<and>
    unavailable_threshold q = unavailable_threshold p \<and> res = run_result work p0 w t \<and>
    bus q @ [WorkerReleased (w_id w)] = b @ run_events work p0 w t \<and>
    (\<forall>v. failure_count q v =
        (if v = w_id w then if succeeds work p0 w t then 0 else failure_count p v + 1 else failure_count p v)) \<and>
    completed_tasks q = completed_tasks p + (if succeeds work p0 w t then 1 else 0) \<and>
    failed_tasks q = failed_tasks p + (if succeeds work p0 w t then 0 else 1)"
  using assms
  by (auto simp: attempt_def run_result_def run_events_def succeeds_def split: work_outcome.splits if_splits)

lemma attempt_health: "health_inv p \<Longrightarrow> attempt work p w t = (q, res) \<Longrightarrow> health_inv q"
proof -
  assume h: "health_inv p" and a: "attempt work p w t = (q, res)"
  have "health_inv (record_success p (w_id w))" "health_inv (record_failure p (w_id w))"
    using h by (auto intro: inv_intros)
  with a show ?thesis
    by (auto simp: attempt_def split: work_outcome.splits if_splits)
qed

lemma release_eq:
  "registered p w \<Longrightarrow> \<exists>q. release p w = Inr q \<and> registry q = registry p \<and> health q = health p \<and>
     failure_counts q = failure_counts p \<and> bus q = bus p \<and> degrade_threshold q = degrade_threshold p \<and>
     unavailable_threshold q = unavailable_threshold p \<and> completed_tasks q = completed_tasks p \<and>
     failed_tasks q = failed_tasks p \<and> inst_of q = (inst_of p)(w := fresh_instance)"
  by (auto simp: release_def get_instance_eq fresh_instance_def fun_eq_iff)

lemma run_task_effect:
  assumes "registered p (w_id w)"
  shows "\<exists>p'. run_task work p w t = Inr (p', run_result work p w t) \<and> after_run work p w t p' \<and>
    (health_inv p \<longrightarrow> health_inv p')"
proof -
  let ?p1 = "emit (set_instance (ensure p (w_id w)) (w_id w) (inst_of p (w_id w)\<lparr>inst_state := EXECUTING\<rparr>))
    (WorkerStarted (w_id w) (wt_id t))"
  obtain p2 res where a: "attempt work ?p1 w t = (p2, res)" by force
  note e = attempt_effect [OF a, of "bus p" p]
  have r: "registered p2 (w_id w)" using e assms by (simp add: registered_def)
  from release_eq [OF r] obtain p3 where
    p3: "release p2 (w_id w) = Inr p3" "registry p3 = registry p2" "health p3 = health p2"
      "failure_counts p3 = failure_counts p2" "bus p3 = bus p2" "degrade_threshold p3 = degrade_threshold p2"
      "unavailable_threshold p3 = unavailable_threshold p2" "completed_tasks p3 = completed_tasks p2"
      "failed_tasks p3 = failed_tasks p2" "inst_of p3 = (inst_of p2)(w_id w := fresh_instance)" by blast
  have run: "run_task work p w t = Inr (emit p3 (WorkerReleased (w_id w)), run_result work p w t)"
    using e a p3(1) by (simp add: run_task_def get_instance_eq [OF assms] Let_def)
  have inst: "inst_of p2 = inst_of ?p1" using e by (intro inst_of_cong) simp
  have "inst_of (emit p3 (WorkerReleased (w_id w))) = (inst_of p)(w_id w := fresh_instance)"
    using inst_of_cong [of "emit p3 (WorkerReleased (w_id w))" p3] p3(10) inst
      inst_of_cong [of ?p1 "set_instance (ensure p (w_id w)) (w_id w) (inst_of p (w_id w)\<lparr>inst_state := EXECUTING\<rparr>)"]
    by (simp add: fun_eq_iff)
  then have "after_run work p w t (emit p3 (WorkerReleased (w_id w)))"
    using e p3 failure_count_cong [OF p3(4)] by (simp add: after_run_def)
  moreover have "health_inv p \<longrightarrow> health_inv (emit p3 (WorkerReleased (w_id w)))"
  proof
    assume "health_inv p"
    then have "health_inv ?p1" by (subst health_inv_cong [of _ p]) simp_all
    from attempt_health [OF this a] have "health_inv p2" .
    then show "health_inv (emit p3 (WorkerReleased (w_id w)))"
      by (subst health_inv_cong [of _ p2]) (simp_all add: p3)
  qed
  ultimately show ?thesis using run by blast
qed

section \<open>Matching\<close>

lemma score_range: "0 \<le> score (score_worker w t) \<and> score (score_worker w t) \<le> 100"
  by (auto simp: score_worker_def Let_def)

lemma score_pos_iff: "score (score_worker w t) > 0 \<longleftrightarrow> capable (wt_required_capability t) w"
  by (auto simp: score_worker_def Let_def capable_def)

lemma score_id [simp]: "cs_worker_id (score_worker w t) = w_id w"
  by (simp add: score_worker_def Let_def split: prod.splits)

lemma set_rank: "set (rank_workers ws t) = (\<lambda>w. score_worker w t) ` {w \<in> set ws. capable (wt_required_capability t) w}"
  using score_pos_iff by (auto simp: rank_workers_def Let_def capable_def)

lemma rank_sorted: "sorted (map rank_key (rank_workers ws t))"
  by (simp add: rank_workers_def Let_def)

section \<open>The choice of a worker\<close>

text \<open>What the manager minimises: first the workers that prefer the capability, then the least id.\<close>

definition pick_key :: "string \<Rightarrow> worker_profile \<Rightarrow> nat \<times> string" where
  "pick_key cap w = (if cap \<noteq> [] \<and> cap \<in> set (preferred_capabilities w) then 0 else 1, w_id w)"

lemma Min_image_eqI: "finite C \<Longrightarrow> w \<in> C \<Longrightarrow> (\<And>v. v \<in> C \<Longrightarrow> f w \<le> f v) \<Longrightarrow> f w = Min (f ` C)"
  by (rule Min_eqI [symmetric]) auto

lemma sorted_candidates: "sorted (map w_id (candidates p cap))"
  unfolding candidates_def by (rule sorted_filter) (simp add: list_workers_def)

lemma choose_worker_least:
  assumes "choose_worker cap (candidates p cap) = Some w" and v: "v \<in> set (candidates p cap)"
  shows "pick_key cap w \<le> pick_key cap v"
proof -
  let ?c = "candidates p cap" and ?P = "\<lambda>x. cap \<in> set (preferred_capabilities x)"
  have "?c \<noteq> []" using v by auto
  show ?thesis
  proof (cases "cap \<noteq> [] \<and> filter ?P ?c \<noteq> []")
    case True
    with assms \<open>?c \<noteq> []\<close> have w: "w = hd (filter ?P ?c)"
      by (auto simp: choose_worker_def Let_def split: list.splits)
    have "?P w" using True w by (metis (mono_tags, lifting) filter_set hd_in_set mem_Collect_eq set_filter)
    moreover have "w_id w \<le> w_id v" if "?P v"
      using sorted_filter_hd [OF sorted_candidates, of ?P p cap v] True v that w by blast
    ultimately show ?thesis using True by (simp add: pick_key_def less_eq_prod_def)
  next
    case False
    with assms \<open>?c \<noteq> []\<close> have w: "w = hd ?c"
      by (auto simp: choose_worker_def Let_def split: list.splits)
    have "w_id w \<le> w_id v"
      using sorted_filter_hd [OF sorted_candidates, of "\<lambda>_. True" p cap v] \<open>?c \<noteq> []\<close> v w by simp
    moreover have "pick_key cap x = (1, w_id x)" if "x \<in> set ?c" for x
      using False that by (auto simp: pick_key_def filter_empty_conv)
    moreover have "w \<in> set ?c" using w \<open>?c \<noteq> []\<close> by simp
    ultimately show ?thesis using v by simp
  qed
qed

lemma best_worker_None: "best_worker ws t = None \<longleftrightarrow> \<not> (\<exists>w \<in> set ws. capable (wt_required_capability t) w)"
proof -
  have "rank_workers ws t = [] \<longleftrightarrow> \<not> (\<exists>w \<in> set ws. capable (wt_required_capability t) w)"
    using set_rank [of ws t] by (metis (no_types, lifting) empty_iff empty_set image_is_empty mem_Collect_eq
        set_empty2 Collect_empty_eq)
  moreover have "List.find (\<lambda>w. w_id w = cs_worker_id s) ws \<noteq> None" if "rank_workers ws t = s # r" for s r
  proof -
    have "s \<in> set (rank_workers ws t)" using that by simp
    then show ?thesis by (auto simp: set_rank find_None_iff)
  qed
  ultimately show ?thesis by (auto simp: best_worker_def split: list.splits)
qed

lemma best_worker_Some:
  assumes "best_worker ws t = Some (w, s)"
  shows "w \<in> set ws \<and> w_id w = cs_worker_id s \<and> s \<in> set (rank_workers ws t) \<and> (\<forall>x \<in> set (rank_workers ws t). rank_key s \<le> rank_key x)"
proof -
  from assms obtain r where r: "rank_workers ws t = s # r" and f: "List.find (\<lambda>w. w_id w = cs_worker_id s) ws = Some w"
    by (auto simp: best_worker_def split: list.splits)
  from f have "w \<in> set ws \<and> w_id w = cs_worker_id s" by (auto simp: find_Some_iff)
  moreover have "\<forall>x \<in> set (rank_workers ws t). rank_key s \<le> rank_key x" using rank_sorted [of ws t] r by auto
  ultimately show ?thesis using r by simp
qed

end
