(* ===== verification/ExecutionRuntime.thy ===== *)
theory ExecutionRuntime
  imports ExecutionGraph Workers
begin

text \<open>
  The batch executor and the parallel runtime of \<open>execution_graph/\<close> (\<open>executor.py\<close>, \<open>runtime.py\<close>).

  The executor runs the nodes of a batch one after the other on the worker pool; the runtime feeds
  it the ready nodes until every node is completed or failed. A raised exception leaves the pool as
  it is at that point, so the executor returns the pool beside its outcome. The loop of the runtime
  takes fuel; every round settles at least one node, so one unit per node and one more are enough.
\<close>

datatype execution_error = PoolFault worker_error | InvalidTask py_error

record batch_result =
  br_completed :: "string set"
  br_failed :: "string set"
  results :: "string \<Rightarrow> worker_result option"

definition empty_batch :: batch_result where
  "empty_batch = \<lparr>br_completed = {}, br_failed = {}, results = Map.empty\<rparr>"

definition task_of_node :: "execution_node \<Rightarrow> py_error + worker_task" where
  "task_of_node n =
     make_worker_task \<lparr>wt_id = xn_task_id n, wt_title = xn_title n, wt_description = [],
       wt_required_capability = [], wt_complexity = 1, wt_priority = NORMAL\<rparr>"

fun execute_batch :: "failure_policy \<Rightarrow> behaviour \<Rightarrow> worker_pool \<Rightarrow> batch_result \<Rightarrow> execution_node list
    \<Rightarrow> worker_pool \<times> (execution_error + batch_result)" where
  "execute_batch policy work p br [] = (p, Inr br)"
| "execute_batch policy work p br (n # ns) =
     (case find_best_worker_for_task p (xn_task_id n) of
        Inl e \<Rightarrow> (p, Inl (PoolFault e))
      | Inr (p1, None) \<Rightarrow>
          execute_batch policy work p1 (br\<lparr>br_failed := insert (xn_id n) (br_failed br)\<rparr>) ns
      | Inr (p1, Some w) \<Rightarrow>
          (case assign p1 (w_id w) (xn_id n) of
             Inl e \<Rightarrow> (p1, Inl (PoolFault e))
           | Inr (p2, _) \<Rightarrow>
               (case task_of_node n of
                  Inl e \<Rightarrow> (p2, Inl (InvalidTask e))
                | Inr t \<Rightarrow>
                    (case run_task work p2 w t of
                       Inl e \<Rightarrow> (p2, Inl (PoolFault e))
                     | Inr (p3, Inl e) \<Rightarrow> (p3, Inl (PoolFault e))
                     | Inr (p3, Inr r) \<Rightarrow>
                         let br1 = br\<lparr>results := (results br)(xn_id n \<mapsto> r)\<rparr>
                         in if success r
                            then execute_batch policy work p3
                                   (br1\<lparr>br_completed := insert (xn_id n) (br_completed br1)\<rparr>) ns
                            else let br2 = br1\<lparr>br_failed := insert (xn_id n) (br_failed br1)\<rparr>
                                 in if policy = FAIL_FAST then (p3, Inr br2)
                                    else execute_batch policy work p3 br2 ns))))"

text \<open>\<open>ParallelExecutionRuntime.execute\<close>: the two sets and the pool are the loop's state.\<close>

fun execute_parallel :: "nat \<Rightarrow> failure_policy \<Rightarrow> behaviour \<Rightarrow> execution_graph \<Rightarrow> worker_pool
    \<Rightarrow> string set \<Rightarrow> string set \<Rightarrow> (worker_pool \<times> (execution_error + string set \<times> string set)) option" where
  "execute_parallel 0 policy work g p don bad = None"
| "execute_parallel (Suc n) policy work g p don bad =
     (if is_complete g (don \<union> bad) then Some (p, Inr (don, bad))
      else let batch = x_ready g (don \<union> bad)
           in if batch = [] then Some (p, Inr (don, bad))
              else (case execute_batch policy work p empty_batch batch of
                      (p', Inl e) \<Rightarrow> Some (p', Inl e)
                    | (p', Inr br) \<Rightarrow>
                        let don' = don \<union> br_completed br; bad' = bad \<union> br_failed br
                        in if policy = FAIL_FAST \<and> br_failed br \<noteq> {} then Some (p', Inr (don', bad'))
                           else execute_parallel n policy work g p' don' bad'))"

section \<open>A batch settles its nodes\<close>

definition good_ids :: "worker_pool \<Rightarrow> bool" where
  "good_ids p \<longleftrightarrow> (\<forall>w \<in> set (registry p). \<not> blank (w_id w))"

definition good_nodes :: "execution_node list \<Rightarrow> bool" where
  "good_nodes ns \<longleftrightarrow> (\<forall>n \<in> set ns. \<not> blank (xn_task_id n) \<and> \<not> blank (xn_title n))"

lemma good_ids_cong: "registry p = registry q \<Longrightarrow> good_ids p \<longleftrightarrow> good_ids q"
  by (simp add: good_ids_def)

lemma result_of_good_ids:
  "\<not> blank (w_id w) \<Longrightarrow> \<not> blank (wt_id t) \<Longrightarrow> \<exists>r. run_result work p w t = Inr r"
  by (auto simp: run_result_def make_worker_result_def guarded_def split: work_outcome.splits)

text \<open>
  What a batch adds: the nodes it settles, split in two. Only fail-fast may leave some out, and then
  it reports a failure.
\<close>

definition settles :: "failure_policy \<Rightarrow> batch_result \<Rightarrow> batch_result \<Rightarrow> execution_node list \<Rightarrow> bool" where
  "settles policy br br' ns \<longleftrightarrow>
     (\<exists>C F. br_completed br' = br_completed br \<union> C \<and> br_failed br' = br_failed br \<union> F \<and> C \<inter> F = {} \<and>
        C \<union> F \<subseteq> xn_id ` set ns \<and> (C \<union> F = xn_id ` set ns \<or> policy = FAIL_FAST \<and> F \<noteq> {}))"

lemma settles_failed:
  "settles policy (br\<lparr>br_failed := insert (xn_id n) (br_failed br)\<rparr>) br' ns \<Longrightarrow> xn_id n \<notin> xn_id ` set ns \<Longrightarrow>
    settles policy br br' (n # ns)"
  unfolding settles_def
  by (elim exE, rename_tac C F, rule_tac x = C in exI, rule_tac x = "insert (xn_id n) F" in exI) auto

lemma settles_completed:
  "settles policy (br\<lparr>br_completed := insert (xn_id n) (br_completed br)\<rparr>) br' ns \<Longrightarrow> xn_id n \<notin> xn_id ` set ns \<Longrightarrow>
    settles policy br br' (n # ns)"
  unfolding settles_def
  by (elim exE, rename_tac C F, rule_tac x = "insert (xn_id n) C" in exI, rule_tac x = F in exI) auto

lemma settles_stop: "policy = FAIL_FAST \<Longrightarrow> settles policy br (br\<lparr>br_failed := insert (xn_id n) (br_failed br)\<rparr>) (n # ns)"
  unfolding settles_def by (rule exI [of _ "{}"], rule exI [of _ "{xn_id n}"]) auto

lemma settles_results [simp]: "settles policy (br\<lparr>results := m\<rparr>) br' ns \<longleftrightarrow> settles policy br br' ns"
  "settles policy br (br'\<lparr>results := m\<rparr>) ns \<longleftrightarrow> settles policy br br' ns"
  by (simp_all add: settles_def)

lemma assign_some:
  "registered p w \<Longrightarrow> \<exists>p' ok. assign p w tid = Inr (p', ok) \<and> registry p' = registry p"
  by (auto simp: assign_def get_instance_eq)

lemma execute_batch_settles:
  "good_ids p \<Longrightarrow> good_nodes ns \<Longrightarrow> distinct (map xn_id ns) \<Longrightarrow>
    \<exists>p' br'. execute_batch policy work p br ns = (p', Inr br') \<and> settles policy br br' ns \<and> registry p' = registry p"
proof (induction ns arbitrary: p br)
  case Nil
  then show ?case by (simp add: settles_def)
next
  case (Cons n ns)
  have ns: "good_nodes ns" "distinct (map xn_id ns)" "xn_id n \<notin> xn_id ` set ns"
    using Cons.prems by (auto simp: good_nodes_def)
  let ?t = "\<lparr>wt_id = xn_task_id n, wt_title = ''Legacy Execution'', wt_description = ''Legacy execution'',
    wt_required_capability = ''python'', wt_complexity = 1, wt_priority = NORMAL\<rparr> :: worker_task"
  from find_best_worker_eq [of p ?t] obtain p1 where
    f: "find_best_worker_for_task p (xn_task_id n) = Inr (p1, choose_worker ''python'' (candidates p ''python''))"
    and al: "alike p p1" by (auto simp: find_best_worker_for_task_def)
  have r1: "registry p1 = registry p" using alike_obs(1) [OF al] .
  show ?case
  proof (cases "choose_worker ''python'' (candidates p ''python'')")
    case None
    have "good_ids p1" using Cons.prems(1) good_ids_cong [OF r1] by simp
    from Cons.IH [OF this ns(1,2)] f None r1 settles_failed [OF _ ns(3)] show ?thesis by fastforce
  next
    case (Some w)
    then have w: "w \<in> set (registry p)" using choose_worker_in set_candidates by fastforce
    then have reg: "registered p1 (w_id w)" by (auto simp: registered_def r1)
    from assign_some [OF reg, of "xn_id n"] obtain p2 ok where
      p2: "assign p1 (w_id w) (xn_id n) = Inr (p2, ok)" "registry p2 = registry p1" by blast
    obtain t where t: "task_of_node n = Inr t" "wt_id t = xn_task_id n"
      using Cons.prems(2) by (auto simp: task_of_node_def make_worker_task_def guarded_def good_nodes_def)
    have reg2: "registered p2 (w_id w)" using w by (auto simp: registered_def r1 p2(2))
    from run_task_effect [OF reg2, of work t] obtain p3 where
      p3: "run_task work p2 w t = Inr (p3, run_result work p2 w t)" "after_run work p2 w t p3" by blast
    have "\<not> blank (w_id w)" "\<not> blank (wt_id t)" using w t(2) Cons.prems(1,2) by (auto simp: good_ids_def good_nodes_def)
    from result_of_good_ids [OF this, of work p2] obtain r where r: "run_result work p2 w t = Inr r" by blast
    have r3: "registry p3 = registry p" using p3(2) r1 p2(2) by (simp add: after_run_def)
    have g3: "good_ids p3" using Cons.prems(1) good_ids_cong [OF r3] by simp
    let ?br1 = "br\<lparr>results := (results br)(xn_id n \<mapsto> r)\<rparr>"
    show ?thesis
    proof (cases "success r")
      case True
      from Cons.IH [OF g3 ns(1,2), of "?br1\<lparr>br_completed := insert (xn_id n) (br_completed ?br1)\<rparr>"] obtain p4 br' where
        x: "execute_batch policy work p3 (?br1\<lparr>br_completed := insert (xn_id n) (br_completed ?br1)\<rparr>) ns = (p4, Inr br')"
          "settles policy (?br1\<lparr>br_completed := insert (xn_id n) (br_completed ?br1)\<rparr>) br' ns" "registry p4 = registry p3"
        by blast
      from settles_completed [OF x(2) ns(3)] have "settles policy br br' (n # ns)" by simp
      with x f Some p2(1) t(1) p3(1) r True r3 show ?thesis by (simp add: Let_def)
    next
      case False
      let ?br2 = "?br1\<lparr>br_failed := insert (xn_id n) (br_failed ?br1)\<rparr>"
      show ?thesis
      proof (cases "policy = FAIL_FAST")
        case True
        have "settles policy br ?br2 (n # ns)" using settles_stop [OF True, of ?br1] by simp
        with f Some p2(1) t(1) p3(1) r False r3 True show ?thesis by (simp add: Let_def)
      next
        case go: False
        from Cons.IH [OF g3 ns(1,2), of ?br2] obtain p4 br' where
          x: "execute_batch policy work p3 ?br2 ns = (p4, Inr br')" "settles policy ?br2 br' ns" "registry p4 = registry p3"
          by blast
        from settles_failed [OF x(2) ns(3)] have "settles policy br br' (n # ns)" by simp
        with x f Some p2(1) t(1) p3(1) r False go r3 show ?thesis by (simp add: Let_def)
      qed
    qed
  qed
qed

section \<open>The runtime\<close>

lemma x_ready_distinct: "x_linked g \<Longrightarrow> distinct (map xn_id (x_ready g s))"
proof -
  assume "x_linked g"
  from x_linked_facts(1) [OF this]
  have d: "distinct (map xn_id (filter (\<lambda>n. xn_id n \<notin> s \<and> (\<forall>p \<in> set (x_parents g (xn_id n)). p \<in> s)) (lg_nodes g)))"
    by (rule distinct_map_filter)
  have "mset (map xn_id (sort_key xn_id xs)) = mset (map xn_id xs)" for xs by simp
  from mset_eq_imp_distinct_iff [OF this] d show ?thesis
    unfolding x_ready_def by blast
qed

text \<open>
  With enough fuel the run ends without raising, the two sets are disjoint sets of node ids, and
  they cover the graph unless fail-fast stopped at a failure.
\<close>

lemma execute_parallel_ends:
  assumes valid: "valid_execution_graph g" and nodes: "good_nodes (lg_nodes g)"
  shows "good_ids p \<Longrightarrow> don \<union> bad \<subseteq> set (x_ids g) \<Longrightarrow> don \<inter> bad = {} \<Longrightarrow>
    card (set (x_ids g) - (don \<union> bad)) < n \<Longrightarrow>
    \<exists>p' don' bad'. execute_parallel n policy work g p don bad = Some (p', Inr (don', bad')) \<and>
      don \<subseteq> don' \<and> bad \<subseteq> bad' \<and> don' \<union> bad' \<subseteq> set (x_ids g) \<and> don' \<inter> bad' = {} \<and>
      (don' \<union> bad' = set (x_ids g) \<or> policy = FAIL_FAST \<and> bad' \<noteq> {})"
proof (induction n arbitrary: p don bad)
  case (Suc n)
  have l: "x_linked g" using valid by (simp add: valid_execution_graph_def make_execution_graph_Inr x_linked_def)
  show ?case
  proof (cases "is_complete g (don \<union> bad)")
    case True
    then have "set (x_ids g) \<subseteq> don \<union> bad" by (auto simp: is_complete_def)
    with Suc.prems True show ?thesis by auto
  next
    case False
    let ?b = "x_ready g (don \<union> bad)"
    have ne: "?b \<noteq> []" using x_some_ready [OF valid False] .
    have bn: "set ?b \<subseteq> set (lg_nodes g)" "xn_id ` set ?b \<inter> (don \<union> bad) = {}"
      using x_ready_iff [OF l] by auto
    have gb: "good_nodes ?b" using nodes bn(1) by (auto simp: good_nodes_def)
    from execute_batch_settles [OF Suc.prems(1) gb x_ready_distinct [OF l], of policy work empty_batch] obtain p1 br where
      b: "execute_batch policy work p empty_batch ?b = (p1, Inr br)" "settles policy empty_batch br ?b" "registry p1 = registry p"
      by blast
    from b(2) have s: "br_completed br \<inter> br_failed br = {}" "br_completed br \<union> br_failed br \<subseteq> xn_id ` set ?b"
      "br_completed br \<union> br_failed br = xn_id ` set ?b \<or> policy = FAIL_FAST \<and> br_failed br \<noteq> {}"
      by (auto simp: settles_def empty_batch_def)
    let ?don = "don \<union> br_completed br" and ?bad = "bad \<union> br_failed br"
    have "xn_id ` set ?b \<subseteq> set (x_ids g)" using bn(1) by auto
    then have sub: "?don \<union> ?bad \<subseteq> set (x_ids g)" using Suc.prems(2) s(2) by blast
    have dis: "?don \<inter> ?bad = {}" using Suc.prems(3) s(1,2) bn(2) by blast
    show ?thesis
    proof (cases "policy = FAIL_FAST \<and> br_failed br \<noteq> {}")
      case True
      have "execute_parallel (Suc n) policy work g p don bad = Some (p1, Inr (?don, ?bad))"
        using False ne b(1) True by (simp add: Let_def)
      with sub dis True show ?thesis by blast
    next
      case go: False
      then have all: "br_completed br \<union> br_failed br = xn_id ` set ?b" using s(3) by blast
      have g1: "good_ids p1" using Suc.prems(1) good_ids_cong [OF b(3)] by simp
      have "set (x_ids g) - (?don \<union> ?bad) \<subset> set (x_ids g) - (don \<union> bad)"
        using ne all bn sub by (cases ?b) auto
      then have "card (set (x_ids g) - (?don \<union> ?bad)) < card (set (x_ids g) - (don \<union> bad))"
        by (intro psubset_card_mono) auto
      then have "card (set (x_ids g) - (?don \<union> ?bad)) < n" using Suc.prems(4) by simp
      from Suc.IH [OF g1 sub dis this] obtain p' don' bad' where
        "execute_parallel n policy work g p1 ?don ?bad = Some (p', Inr (don', bad'))"
        "?don \<subseteq> don'" "?bad \<subseteq> bad'" "don' \<union> bad' \<subseteq> set (x_ids g)" "don' \<inter> bad' = {}"
        "don' \<union> bad' = set (x_ids g) \<or> policy = FAIL_FAST \<and> bad' \<noteq> {}" by blast
      moreover have "execute_parallel (Suc n) policy work g p don bad = execute_parallel n policy work g p1 ?don ?bad"
        using False ne b(1) go by (auto simp: Let_def simp del: execute_batch.simps)
      ultimately show ?thesis by auto
    qed
  qed
qed simp

end
