(* ===== verification/Scheduler.thy ===== *)
theory Scheduler
  imports Workers
begin

text \<open>
  The parallel scheduler of \<open>scheduler/\<close>: the ready queue (\<open>queue.py\<close>), the dispatcher
  (\<open>dispatcher.py\<close>) and the loop that executes a task graph batch by batch (\<open>runtime.py\<close>).

  The loop of \<open>execute_graph\<close> takes fuel. A failed task stays ready and is tried again, by whichever
  worker is still usable, so the rounds are bounded by the tasks left and by the failures the
  workers can still have before they become unavailable; \<open>round_bound\<close> is that bound.
\<close>

section \<open>The ready queue\<close>

datatype scheduler_error =
    QueueError string | WorkerFault worker_error | BadAssignment py_error | StopIteration

type_synonym queue = "task_node list"

definition contains :: "queue \<Rightarrow> string \<Rightarrow> bool" where
  "contains q i \<longleftrightarrow> (\<exists>t \<in> set q. node_id t = i)"

definition push :: "queue \<Rightarrow> task_node \<Rightarrow> scheduler_error + queue" where
  "push q t =
     (if contains q (node_id t) then Inl (QueueError (''Task '' @ node_id t @ '' is already in the queue''))
      else Inr (sort_key priority_key (q @ [t])))"

definition pop :: "queue \<Rightarrow> scheduler_error + task_node \<times> queue" where
  "pop q = (case q of [] \<Rightarrow> Inl (QueueError ''Queue is empty'') | t # rest \<Rightarrow> Inr (t, rest))"

definition peek :: "queue \<Rightarrow> scheduler_error + task_node" where
  "peek q = (case q of [] \<Rightarrow> Inl (QueueError ''Queue is empty'') | t # _ \<Rightarrow> Inr t)"

fun remove :: "queue \<Rightarrow> string \<Rightarrow> queue \<times> bool" where
  "remove [] i = ([], False)"
| "remove (t # q) i = (if node_id t = i then (q, True) else apfst ((#) t) (remove q i))"

definition size_of :: "queue \<Rightarrow> nat" where
  "size_of q = length q"

section \<open>The dispatcher\<close>

text \<open>The manager reads a \<open>TaskNode\<close> through the attributes it shares with \<open>WorkerTask\<close>.\<close>

definition as_task :: "task_node \<Rightarrow> worker_task" where
  "as_task n = \<lparr>wt_id = node_id n, wt_title = title n, wt_description = description n,
     wt_required_capability = required_capability n, wt_complexity = 1, wt_priority = priority n\<rparr>"

record worker_assignment =
  as_worker_id :: string
  as_task_id :: string

definition make_assignment :: "string \<Rightarrow> string \<Rightarrow> py_error + worker_assignment" where
  "make_assignment w t =
     guarded
       [(blank w, ValueError ''worker_id cannot be empty or whitespace''),
        (blank t, ValueError ''task_id cannot be empty or whitespace'')]
       \<lparr>as_worker_id = py_strip w, as_task_id = py_strip t\<rparr>"

definition dispatch :: "worker_pool \<Rightarrow> task_node \<Rightarrow> scheduler_error + worker_pool \<times> worker_assignment option" where
  "dispatch p t =
     (case find_best_worker p (as_task t) of
        Inl e \<Rightarrow> Inl (WorkerFault e)
      | Inr (p1, None) \<Rightarrow> Inr (p1, None)
      | Inr (p1, Some w) \<Rightarrow>
          (case assign p1 (w_id w) (node_id t) of
             Inl e \<Rightarrow> Inl (WorkerFault e)
           | Inr (p2, ok) \<Rightarrow>
               if \<not> ok then Inr (p2, None)
               else (case make_assignment (w_id w) (node_id t) of
                       Inl e \<Rightarrow> Inl (BadAssignment e)
                     | Inr a \<Rightarrow> Inr (p2, Some a))))"

section \<open>The scheduler\<close>

record scheduler =
  pool :: worker_pool
  queue :: queue
  completed :: "string set"
  failed :: "string set"
  total_cycles :: int
  batches_executed :: int
  tasks_completed :: nat
  tasks_failed :: nat
  average_batch_size :: rat
  total_batch_size :: nat
  max_parallelism :: nat

definition new_scheduler :: "worker_pool \<Rightarrow> scheduler" where
  "new_scheduler p = \<lparr>pool = p, queue = [], completed = {}, failed = {}, total_cycles = 0,
     batches_executed = 0, tasks_completed = 0, tasks_failed = 0, average_batch_size = 0,
     total_batch_size = 0, max_parallelism = 0\<rparr>"

text \<open>Step 1: push the ready tasks that are not waiting already.\<close>

fun push_ready :: "queue \<Rightarrow> task_node list \<Rightarrow> scheduler_error + queue" where
  "push_ready q [] = Inr q"
| "push_ready q (t # ts) =
     (if contains q (node_id t) then push_ready q ts
      else bind_res (push q t) (\<lambda>q'. push_ready q' ts))"

text \<open>Step 3: pop and dispatch until the queue is empty or a task finds no worker and goes back.\<close>

fun form_batch :: "worker_pool \<Rightarrow> queue \<Rightarrow> scheduler_error + worker_pool \<times> queue \<times> worker_assignment list" where
  "form_batch p [] = Inr (p, [], [])"
| "form_batch p (t # q) =
     bind_res (dispatch p t) (\<lambda>(p', a).
       case a of
         Some x \<Rightarrow> bind_res (form_batch p' q) (\<lambda>(p'', q', as). Inr (p'', q', x # as))
       | None \<Rightarrow> bind_res (push q t) (\<lambda>q'. Inr (p', q', [])))"

text \<open>\<open>_execute_batch\<close>: one assignment after the other.\<close>

definition run_assignment :: "behaviour \<Rightarrow> task_graph \<Rightarrow> scheduler \<Rightarrow> worker_assignment \<Rightarrow> scheduler_error + scheduler" where
  "run_assignment work g s a =
     (case find_registered (pool s) (as_worker_id a) of
        Inl e \<Rightarrow> Inl (WorkerFault e)
      | Inr w \<Rightarrow>
          (case List.find (\<lambda>n. node_id n = as_task_id a) (nodes g) of
             None \<Rightarrow> Inl StopIteration
           | Some t \<Rightarrow>
               (case run_task work (pool s) w (as_task t) of
                  Inl e \<Rightarrow> Inl (WorkerFault e)
                | Inr (p, Inl e) \<Rightarrow> Inl (WorkerFault e)
                | Inr (p, Inr r) \<Rightarrow>
                    Inr (if success r
                         then s\<lparr>pool := p, completed := insert (node_id t) (completed s)\<rparr>
                         else s\<lparr>pool := p, failed := insert (node_id t) (failed s)\<rparr>))))"

fun run_batch :: "behaviour \<Rightarrow> task_graph \<Rightarrow> scheduler \<Rightarrow> worker_assignment list \<Rightarrow> scheduler_error + scheduler" where
  "run_batch work g s [] = Inr s"
| "run_batch work g s (a # as) = bind_res (run_assignment work g s a) (\<lambda>s'. run_batch work g s' as)"

text \<open>The metrics at the end of a round; \<open>len\<close> of the two sets.\<close>

definition update_metrics :: "scheduler \<Rightarrow> nat \<Rightarrow> scheduler" where
  "update_metrics s parallelism =
     (let new_batches = batches_executed s + 1; new_total = total_batch_size s + parallelism
      in s\<lparr>total_cycles := total_cycles s + 1, batches_executed := new_batches,
           tasks_completed := card (completed s), tasks_failed := card (failed s),
           average_batch_size := of_nat new_total / of_int new_batches,
           max_parallelism := max (max_parallelism s) parallelism,
           total_batch_size := new_total\<rparr>)"

text \<open>One round of the loop: \<open>None\<close> in the result means the loop breaks.\<close>

definition scheduler_round :: "behaviour \<Rightarrow> task_graph \<Rightarrow> scheduler \<Rightarrow> scheduler_error + scheduler \<times> bool" where
  "scheduler_round work g s =
     bind_res (push_ready (queue s) (ready g (completed s))) (\<lambda>q.
       let s1 = s\<lparr>queue := q\<rparr>
       in if q = [] then Inr (s1, False)
          else bind_res (form_batch (pool s) q) (\<lambda>(p, q', as).
            let s2 = s1\<lparr>pool := p, queue := q'\<rparr>
            in if as = [] then Inr (s2, False)
               else bind_res (run_batch work g s2 as) (\<lambda>s3.
                 Inr (update_metrics s3 (length as), True))))"

fun execute_graph :: "nat \<Rightarrow> behaviour \<Rightarrow> task_graph \<Rightarrow> scheduler \<Rightarrow> (scheduler_error + scheduler) option" where
  "execute_graph 0 work g s = None"
| "execute_graph (Suc n) work g s =
     (case scheduler_round work g s of
        Inl e \<Rightarrow> Some (Inl e)
      | Inr (s', again) \<Rightarrow> if again then execute_graph n work g s' else Some (Inr s'))"

section \<open>Dispatching\<close>

text \<open>The ids for which the validated assignment keeps what it was given.\<close>

definition clean :: "string \<Rightarrow> bool" where
  "clean i \<longleftrightarrow> \<not> blank i \<and> py_strip i = i"

definition clean_pool :: "worker_pool \<Rightarrow> bool" where
  "clean_pool p \<longleftrightarrow> (\<forall>w \<in> set (registry p). clean (w_id w))"

definition clean_graph :: "task_graph \<Rightarrow> bool" where
  "clean_graph g \<longleftrightarrow> (\<forall>n \<in> set (nodes g). clean (node_id n))"

text \<open>Pools that differ in the instances only.\<close>

definition same_base :: "worker_pool \<Rightarrow> worker_pool \<Rightarrow> bool" where
  "same_base p q \<longleftrightarrow> registry p = registry q \<and> health p = health q \<and> failure_counts p = failure_counts q \<and>
     degrade_threshold p = degrade_threshold q \<and> unavailable_threshold p = unavailable_threshold q \<and> bus p = bus q"

lemma same_base_refl [simp]: "same_base p p"
  by (simp add: same_base_def)

lemma same_base_trans: "same_base p q \<Longrightarrow> same_base q r \<Longrightarrow> same_base p r"
  by (simp add: same_base_def)

lemma alike_same_base: "alike p q \<Longrightarrow> same_base p q"
  by (simp add: alike_def same_base_def)

lemma same_base_obs:
  assumes "same_base p q"
  shows "registered q w \<longleftrightarrow> registered p w" and "get_health q w = get_health p w"
    and "clean_pool q \<longleftrightarrow> clean_pool p" and "health_inv q \<longleftrightarrow> health_inv p" and "bus q = bus p"
    and "failure_count q w = failure_count p w" and "unavailable_threshold q = unavailable_threshold p"
    and "registry q = registry p"
  using assms health_inv_cong [of q p]
  by (auto simp: same_base_def registered_def get_health_def clean_pool_def failure_count_def)

lemma dispatch_effect:
  assumes "clean_pool p" and "clean (node_id t)"
  shows "\<exists>p' a. dispatch p t = Inr (p', a) \<and> same_base p p' \<and>
    (a = None \<longleftrightarrow> candidates p (required_capability t) = []) \<and> (a = None \<longrightarrow> alike p p') \<and>
    (\<forall>x. a = Some x \<longrightarrow> as_task_id x = node_id t \<and> registered p (as_worker_id x) \<and>
       usable (get_health p (as_worker_id x)))"
proof -
  let ?c = "candidates p (required_capability t)"
  from find_best_worker_eq [of p "as_task t"] obtain p1 where
    f: "find_best_worker p (as_task t) = Inr (p1, choose_worker (required_capability t) ?c)" and al: "alike p p1"
    by (auto simp: as_task_def)
  show ?thesis
  proof (cases "choose_worker (required_capability t) ?c")
    case None
    with f al show ?thesis by (auto simp: dispatch_def intro: alike_same_base)
  next
    case (Some w)
    then have w: "w \<in> set ?c" by (rule choose_worker_in)
    then have reg: "registered p (w_id w)" "w \<in> set (registry p)" and iu: "idle_usable p w"
      by (auto simp: set_candidates registered_def)
    have i: "inst_state (inst_of p1 (w_id w)) = IDLE"
      using iu alike_obs(3) [OF al] by (simp add: idle_usable_def)
    let ?p2 = "set_instance (ensure p1 (w_id w)) (w_id w)
      (inst_of p1 (w_id w)\<lparr>inst_state := ASSIGNED, current_task_id := Some (node_id t)\<rparr>)"
    have a: "assign p1 (w_id w) (node_id t) = Inr (?p2, True)"
      using i reg alike_obs(5) [OF al] by (simp add: assign_def get_instance_eq)
    have m: "make_assignment (w_id w) (node_id t) = Inr \<lparr>as_worker_id = w_id w, as_task_id = node_id t\<rparr>"
      using assms reg(2) by (auto simp: make_assignment_def guarded_def clean_def clean_pool_def)
    have "same_base p ?p2"
      using alike_same_base [OF al] by (simp add: same_base_def)
    moreover have "usable (get_health p (w_id w))" using iu by (simp add: idle_usable_def)
    moreover have "?c \<noteq> []" using w by auto
    ultimately show ?thesis using f Some a m reg by (simp add: dispatch_def)
  qed
qed

lemma push_fresh: "\<not> contains q (node_id t) \<Longrightarrow> push q t = Inr (sort_key priority_key (q @ [t]))"
  by (simp add: push_def)

lemma contains_iff: "contains q i \<longleftrightarrow> i \<in> node_id ` set q"
  by (auto simp: contains_def)

text \<open>The batch and the queue left over share out the tasks of the queue.\<close>

definition shares :: "queue \<Rightarrow> queue \<Rightarrow> worker_assignment list \<Rightarrow> bool" where
  "shares q q' as \<longleftrightarrow> set q' \<subseteq> set q \<and> distinct (map as_task_id as @ map node_id q') \<and>
     as_task_id ` set as \<union> node_id ` set q' = node_id ` set q"

lemma form_batch_effect:
  "clean_pool p \<Longrightarrow> (\<forall>t \<in> set q. clean (node_id t)) \<Longrightarrow> distinct (map node_id q) \<Longrightarrow>
    \<exists>p' q' as. form_batch p q = Inr (p', q', as) \<and> same_base p p' \<and> shares q q' as \<and>
      (\<forall>a \<in> set as. registered p (as_worker_id a) \<and> usable (get_health p (as_worker_id a))) \<and>
      (as = [] \<longrightarrow> q \<noteq> [] \<longrightarrow> hd q \<in> set q' \<and> candidates p' (required_capability (hd q)) = [])"
proof (induction q arbitrary: p)
  case Nil
  then show ?case by (simp add: shares_def)
next
  case (Cons t q)
  from dispatch_effect [OF Cons.prems(1), of t] Cons.prems(2) obtain p1 a where
    d: "dispatch p t = Inr (p1, a)" "same_base p p1"
      "a = None \<longleftrightarrow> candidates p (required_capability t) = []" "a = None \<Longrightarrow> alike p p1"
      "\<And>x. a = Some x \<Longrightarrow> as_task_id x = node_id t \<and> registered p (as_worker_id x) \<and>
         usable (get_health p (as_worker_id x))" by auto
  have t: "node_id t \<notin> node_id ` set q" using Cons.prems(3) by auto
  show ?case
  proof (cases a)
    case None
    have "push q t = Inr (sort_key priority_key (q @ [t]))"
      using t by (intro push_fresh) (simp add: contains_iff)
    moreover have "distinct (map node_id (sort_key priority_key (q @ [t])))"
    proof -
      have "mset (map node_id (sort_key priority_key (q @ [t]))) = mset (map node_id (t # q))" by simp
      with Cons.prems(3) show ?thesis by (metis mset_eq_imp_distinct_iff)
    qed
    moreover have "candidates p1 (required_capability t) = []"
      using d(3) None alike_obs(6) [OF d(4)] idle_usable_alike [OF d(4)] by (simp add: candidates_def)
    ultimately show ?thesis using d(1,2) None by (simp add: shares_def)
  next
    case (Some x)
    have "clean_pool p1" "\<forall>u \<in> set q. clean (node_id u)" "distinct (map node_id q)"
      using Cons.prems same_base_obs(3) [OF d(2)] by auto
    from Cons.IH [OF this] obtain p2 q' as where
      r: "form_batch p1 q = Inr (p2, q', as)" "same_base p1 p2" "shares q q' as"
        "\<And>a. a \<in> set as \<Longrightarrow> registered p1 (as_worker_id a) \<and> usable (get_health p1 (as_worker_id a))" by blast
    from r(3) t d(5) [OF Some] have "shares (t # q) q' (x # as)" by (auto simp: shares_def)
    with r d Some same_base_obs(1,2) [OF d(2)] same_base_trans [OF d(2) r(2)] show ?thesis by auto
  qed
qed

section \<open>The order of execution\<close>

text \<open>The tasks a log reports as succeeded, and the logs in which a task starts only after its parents succeeded.\<close>

fun succeeded :: "worker_event list \<Rightarrow> string set" where
  "succeeded [] = {}"
| "succeeded (WorkerCompleted w i ok # es) = (if ok then insert i (succeeded es) else succeeded es)"
| "succeeded (_ # es) = succeeded es"

fun started_in_order :: "task_graph \<Rightarrow> string set \<Rightarrow> worker_event list \<Rightarrow> bool" where
  "started_in_order g don [] \<longleftrightarrow> True"
| "started_in_order g don (WorkerStarted w i # es) \<longleftrightarrow> set (parent_ids g i) \<subseteq> don \<and> started_in_order g don es"
| "started_in_order g don (WorkerCompleted w i ok # es) \<longleftrightarrow>
     started_in_order g (if ok then insert i don else don) es"
| "started_in_order g don (_ # es) \<longleftrightarrow> started_in_order g don es"

lemma succeeded_append [simp]: "succeeded (xs @ ys) = succeeded xs \<union> succeeded ys"
  by (induction xs rule: succeeded.induct) auto

lemma started_in_order_append [simp]:
  "started_in_order g don (xs @ ys) \<longleftrightarrow> started_in_order g don xs \<and> started_in_order g (don \<union> succeeded xs) ys"
  by (induction xs arbitrary: don rule: succeeded.induct) auto

definition log_ok :: "worker_event list \<Rightarrow> task_graph \<Rightarrow> scheduler \<Rightarrow> bool" where
  "log_ok b0 g s \<longleftrightarrow> (\<exists>log. bus (pool s) = b0 @ log \<and> started_in_order g {} log \<and> completed s = succeeded log)"

text \<open>A task that may run: a node of the graph, not completed, whose parents are.\<close>

definition may_run :: "task_graph \<Rightarrow> scheduler \<Rightarrow> string \<Rightarrow> bool" where
  "may_run g s i \<longleftrightarrow> i \<in> set (ids g) \<and> i \<notin> completed s \<and> set (parent_ids g i) \<subseteq> completed s"

definition batch_inv :: "worker_event list \<Rightarrow> task_graph \<Rightarrow> scheduler \<Rightarrow> worker_assignment list \<Rightarrow> bool" where
  "batch_inv b0 g s as \<longleftrightarrow>
     linked g \<and> clean_graph g \<and> clean_pool (pool s) \<and> health_inv (pool s) \<and> log_ok b0 g s \<and>
     completed s \<subseteq> set (ids g) \<and> set (queue s) \<subseteq> set (nodes g) \<and>
     distinct (map as_task_id as @ map node_id (queue s)) \<and>
     (\<forall>t \<in> set (queue s). may_run g s (node_id t)) \<and>
     (\<forall>a \<in> set as. registered (pool s) (as_worker_id a) \<and> may_run g s (as_task_id a))"

definition sched_inv :: "worker_event list \<Rightarrow> task_graph \<Rightarrow> scheduler \<Rightarrow> bool" where
  "sched_inv b0 g s \<longleftrightarrow> batch_inv b0 g s []"

text \<open>The failures the workers can still have, and the bound on the rounds.\<close>

definition capacity :: "worker_pool \<Rightarrow> nat" where
  "capacity p = (\<Sum>w \<in> w_id ` set (registry p). nat (unavailable_threshold p - failure_count p w))"

definition full_capacity :: "worker_pool \<Rightarrow> nat" where
  "full_capacity p = card (w_id ` set (registry p)) * nat (unavailable_threshold p)"

definition round_bound :: "task_graph \<Rightarrow> scheduler \<Rightarrow> nat" where
  "round_bound g s = card (set (ids g) - completed s) * Suc (full_capacity (pool s)) + capacity (pool s)"

lemma capacity_le: "health_inv p \<Longrightarrow> capacity p \<le> full_capacity p"
proof -
  assume h: "health_inv p"
  have "capacity p \<le> (\<Sum>w \<in> w_id ` set (registry p). nat (unavailable_threshold p))"
  proof -
    have "0 \<le> failure_count p w" for w using h by (simp add: health_inv_def)
    then show ?thesis unfolding capacity_def by (intro sum_mono nat_mono) simp
  qed
  then show ?thesis by (simp add: full_capacity_def)
qed

lemma capacity_failure:
  assumes "registry p' = registry p" and "unavailable_threshold p' = unavailable_threshold p"
    and f: "\<forall>v. failure_count p' v = (if v = w then failure_count p w + 1 else failure_count p v)"
    and r: "registered p w"
  shows "capacity p' \<le> capacity p"
    and "failure_count p w < unavailable_threshold p \<Longrightarrow> capacity p' < capacity p"
proof -
  show "capacity p' \<le> capacity p"
    unfolding capacity_def assms(1,2) by (intro sum_mono nat_mono) (simp add: f)
  assume "failure_count p w < unavailable_threshold p"
  then show "capacity p' < capacity p"
    unfolding capacity_def assms(1,2) using r
    by (intro sum_strict_mono_ex1) (auto simp: f registered_def)
qed

lemma clean_result: "clean (w_id w) \<Longrightarrow> clean (wt_id t) \<Longrightarrow> \<exists>r. run_result work p w t = Inr r \<and> (success r \<longleftrightarrow> succeeds work p w t)"
  by (auto simp: run_result_def succeeds_def make_worker_result_def guarded_def clean_def split: work_outcome.splits)

lemma succeeded_run: "succeeded (run_events work p w t) = (if succeeds work p w t then {wt_id t} else {})"
  by (auto simp: run_events_def succeeds_def split: work_outcome.splits)

lemma ordered_run: "started_in_order g don (run_events work p w t) \<longleftrightarrow> set (parent_ids g (wt_id t)) \<subseteq> don"
  by (auto simp: run_events_def split: work_outcome.splits)

lemma find_node: "linked g \<Longrightarrow> i \<in> set (ids g) \<Longrightarrow>
    \<exists>t. List.find (\<lambda>n. node_id n = i) (nodes g) = Some t \<and> t \<in> set (nodes g) \<and> node_id t = i"
  by (cases "List.find (\<lambda>n. node_id n = i) (nodes g)") (auto simp: find_None_iff find_Some_iff)

text \<open>The loop of a batch: it never raises, keeps the invariant and never raises the bound.\<close>

lemma run_assignment_step:
  assumes inv: "batch_inv b0 g s (a # as)"
  shows "\<exists>s'. run_assignment work g s a = Inr s' \<and> batch_inv b0 g s' as \<and> completed s \<subseteq> completed s' \<and>
    round_bound g s' \<le> round_bound g s \<and>
    (failure_count (pool s) (as_worker_id a) < unavailable_threshold (pool s) \<longrightarrow> round_bound g s' < round_bound g s)"
proof -
  let ?p = "pool s" and ?i = "as_task_id a"
  have inv': "linked g" "clean_graph g" "clean_pool ?p" "health_inv ?p" "log_ok b0 g s" "completed s \<subseteq> set (ids g)"
    "may_run g s ?i" "registered ?p (as_worker_id a)" using inv by (auto simp: batch_inv_def)
  from inv'(8) obtain w where fw: "find_worker ?p (as_worker_id a) = Some w" using find_worker_iff by blast
  then have w: "w \<in> set (registry ?p)" "w_id w = as_worker_id a" by (auto dest: find_worker_SomeD)
  from inv'(7) find_node [OF inv'(1), of ?i] obtain t where
    t: "List.find (\<lambda>n. node_id n = ?i) (nodes g) = Some t" "t \<in> set (nodes g)" "node_id t = ?i"
    by (auto simp: may_run_def)
  have rw: "registered ?p (w_id w)" using w inv'(8) by simp
  from run_task_effect [OF rw, of work "as_task t"] obtain p' where
    r: "run_task work ?p w (as_task t) = Inr (p', run_result work ?p w (as_task t))"
      "after_run work ?p w (as_task t) p'" "health_inv ?p \<longrightarrow> health_inv p'" by blast
  let ?ok = "succeeds work ?p w (as_task t)"
  have wt: "wt_id (as_task t) = ?i" using t by (simp add: as_task_def)
  have cl: "clean (w_id w)" "clean (wt_id (as_task t))"
    using inv'(2,3) w(1) t(2) unfolding wt t(3) [symmetric] clean_pool_def clean_graph_def by blast+
  from clean_result [OF cl, of work ?p] obtain res where
    res: "run_result work ?p w (as_task t) = Inr res" "success res \<longleftrightarrow> ?ok" by blast
  define s' where "s' = (if ?ok then s\<lparr>pool := p', completed := insert ?i (completed s)\<rparr>
    else s\<lparr>pool := p', failed := insert ?i (failed s)\<rparr>)"
  have run: "run_assignment work g s a = Inr s'"
    using fw t r(1) res by (simp add: run_assignment_def find_registered_def s'_def)
  have ar: "registry p' = registry ?p" "unavailable_threshold p' = unavailable_threshold ?p"
    "bus p' = bus ?p @ run_events work ?p w (as_task t)"
    "\<forall>v. failure_count p' v = (if v = w_id w then if ?ok then 0 else failure_count ?p v + 1 else failure_count ?p v)"
    using r(2) by (auto simp: after_run_def)
  have fields: "pool s' = p'" "queue s' = queue s" "completed s' = completed s \<union> (if ?ok then {?i} else {})"
    by (auto simp: s'_def)
  have log: "log_ok b0 g s'"
  proof -
    from inv'(5) obtain log where l: "bus ?p = b0 @ log" "started_in_order g {} log" "completed s = succeeded log"
      by (auto simp: log_ok_def)
    let ?es = "run_events work ?p w (as_task t)"
    have "started_in_order g {} (log @ ?es)"
      using l inv'(7) by (simp add: ordered_run wt may_run_def)
    moreover have "succeeded (log @ ?es) = completed s'"
      using l by (simp add: succeeded_run wt fields)
    ultimately show ?thesis using l(1) ar(3) fields(1) by (auto simp: log_ok_def)
  qed
  have other: "may_run g s' j" if "may_run g s j" "j \<noteq> ?i" for j
    using that by (auto simp: may_run_def fields)
  have d: "distinct (?i # map as_task_id as @ map node_id (queue s))" using inv by (simp add: batch_inv_def)
  have "batch_inv b0 g s' as"
    unfolding batch_inv_def fields(1,2)
  proof (intro conjI ballI)
    show "clean_pool p'" using inv'(3) ar(1) by (simp add: clean_pool_def)
    show "completed s' \<subseteq> set (ids g)" using inv'(6,7) by (auto simp: fields may_run_def)
    show "set (queue s) \<subseteq> set (nodes g)" using inv by (simp add: batch_inv_def)
    show "distinct (map as_task_id as @ map node_id (queue s))" using d by simp
    show "may_run g s' (node_id u)" if "u \<in> set (queue s)" for u
    proof (rule other)
      show "may_run g s (node_id u)" using that inv by (simp add: batch_inv_def)
      show "node_id u \<noteq> ?i" using d imageI [OF that, of node_id] by auto
    qed
    show "may_run g s' (as_task_id b)" if "b \<in> set as" for b
    proof (rule other)
      show "may_run g s (as_task_id b)" using that inv by (simp add: batch_inv_def)
      show "as_task_id b \<noteq> ?i" using d imageI [OF that, of as_task_id] by auto
    qed
    show "registered p' (as_worker_id b)" if "b \<in> set as" for b
      using that inv ar(1) by (auto simp: batch_inv_def registered_def)
  qed (use inv' r(3) log in auto)
  moreover have "round_bound g s' \<le> round_bound g s \<and>
    (failure_count ?p (as_worker_id a) < unavailable_threshold ?p \<longrightarrow> round_bound g s' < round_bound g s)"
  proof (cases ?ok)
    case True
    have "set (ids g) - completed s' = (set (ids g) - completed s) - {?i}" using True by (auto simp: fields)
    moreover have "?i \<in> set (ids g) - completed s" using inv'(7) by (simp add: may_run_def)
    ultimately have c: "card (set (ids g) - completed s) = Suc (card (set (ids g) - completed s'))"
      by (metis card_Suc_Diff1 finite_Diff finite_set)
    have fc: "full_capacity p' = full_capacity ?p" by (simp add: full_capacity_def ar)
    have "capacity p' \<le> full_capacity p'" using capacity_le r(3) inv'(4) by blast
    then have "round_bound g s' < round_bound g s"
      unfolding round_bound_def fields(1) c fc by simp
    then show ?thesis by simp
  next
    case False
    have f: "\<forall>v. failure_count p' v = (if v = w_id w then failure_count ?p (w_id w) + 1 else failure_count ?p v)"
      using ar(4) False by simp
    have fc: "full_capacity p' = full_capacity ?p" by (simp add: full_capacity_def ar)
    show ?thesis
      using capacity_failure [OF ar(1,2) f rw] False w(2) by (auto simp: round_bound_def fields fc)
  qed
  ultimately show ?thesis using run fields(3) by blast
qed

lemma run_batch_steps:
  "batch_inv b0 g s as \<Longrightarrow>
    \<exists>s'. run_batch work g s as = Inr s' \<and> sched_inv b0 g s' \<and> completed s \<subseteq> completed s' \<and>
      round_bound g s' \<le> round_bound g s \<and>
      (as \<noteq> [] \<longrightarrow> failure_count (pool s) (as_worker_id (hd as)) < unavailable_threshold (pool s) \<longrightarrow>
         round_bound g s' < round_bound g s)"
proof (induction as arbitrary: s)
  case (Cons a as)
  from run_assignment_step [OF Cons.prems] obtain s1 where
    s1: "run_assignment work g s a = Inr s1" "batch_inv b0 g s1 as" "completed s \<subseteq> completed s1"
      "round_bound g s1 \<le> round_bound g s"
      "failure_count (pool s) (as_worker_id a) < unavailable_threshold (pool s) \<longrightarrow> round_bound g s1 < round_bound g s"
    by blast
  from Cons.IH [OF s1(2)] obtain s2 where
    s2: "run_batch work g s1 as = Inr s2" "sched_inv b0 g s2" "completed s1 \<subseteq> completed s2"
      "round_bound g s2 \<le> round_bound g s1" by blast
  with s1 show ?case by (auto intro: order_trans)
qed (simp add: sched_inv_def)

section \<open>A round\<close>

lemma push_ready_ok:
  "\<exists>q'. push_ready q ts = Inr q' \<and> set q' \<subseteq> set q \<union> set ts \<and> node_id ` (set q \<union> set ts) = node_id ` set q' \<and>
     (distinct (map node_id q) \<longrightarrow> distinct (map node_id q'))"
proof (induction ts arbitrary: q)
  case (Cons t ts)
  show ?case
  proof (cases "contains q (node_id t)")
    case True
    then have i: "node_id t \<in> node_id ` set q" by (simp add: contains_iff)
    from Cons.IH [of q] obtain q' where
      q': "push_ready q ts = Inr q'" "set q' \<subseteq> set q \<union> set ts" "node_id ` (set q \<union> set ts) = node_id ` set q'"
        "distinct (map node_id q) \<longrightarrow> distinct (map node_id q')" by blast
    have "node_id ` (set q \<union> set (t # ts)) = node_id ` (set q \<union> set ts)" using i by auto
    with q' True show ?thesis by auto
  next
    case False
    let ?q = "sort_key priority_key (q @ [t])"
    have "mset (map node_id ?q) = mset (map node_id (q @ [t]))" by simp
    then have d: "distinct (map node_id ?q) \<longleftrightarrow> distinct (map node_id (q @ [t]))"
      by (rule mset_eq_imp_distinct_iff)
    from Cons.IH [of ?q] obtain q' where
      "push_ready ?q ts = Inr q'" "set q' \<subseteq> set ?q \<union> set ts" "node_id ` (set ?q \<union> set ts) = node_id ` set q'"
      "distinct (map node_id ?q) \<longrightarrow> distinct (map node_id q')" by blast
    with False d show ?thesis by (auto simp: push_def contains_iff)
  qed
qed simp

text \<open>
  A round on a good state does not raise. If the loop goes on, the bound has dropped; if it ends,
  either nothing is left to do or some waiting task has no worker that could take it.
\<close>

definition blocked :: "scheduler \<Rightarrow> bool" where
  "blocked s \<longleftrightarrow> (\<exists>t \<in> set (queue s). candidates (pool s) (required_capability t) = [])"

lemma capacity_cong:
  "same_base p q \<Longrightarrow> capacity q = capacity p \<and> full_capacity q = full_capacity p"
  by (simp add: capacity_def full_capacity_def same_base_obs)

lemma scheduler_round_step:
  assumes inv: "sched_inv b0 g s" and valid: "valid_graph g"
  shows "\<exists>s' again. scheduler_round work g s = Inr (s', again) \<and> sched_inv b0 g s' \<and> completed s \<subseteq> completed s' \<and>
    (again \<longrightarrow> round_bound g s' < round_bound g s) \<and>
    (\<not> again \<longrightarrow> completed s' = set (ids g) \<or> blocked s')"
proof -
  let ?p = "pool s"
  have l: "linked g" using valid by (simp add: valid_graph_iff)
  have i: "clean_graph g" "clean_pool ?p" "health_inv ?p" "log_ok b0 g s" "completed s \<subseteq> set (ids g)"
    "set (queue s) \<subseteq> set (nodes g)" "distinct (map node_id (queue s))"
    "\<And>t. t \<in> set (queue s) \<Longrightarrow> may_run g s (node_id t)"
    using inv by (auto simp: sched_inv_def batch_inv_def)
  from push_ready_ok [of "queue s" "ready g (completed s)"] obtain q where
    q: "push_ready (queue s) (ready g (completed s)) = Inr q"
      "set q \<subseteq> set (queue s) \<union> set (ready g (completed s))"
      "node_id ` (set (queue s) \<union> set (ready g (completed s))) = node_id ` set q"
      "distinct (map node_id q)" using i(7) by blast
  have rd: "t \<in> set (nodes g) \<and> may_run g s (node_id t)" if "t \<in> set (ready g (completed s))" for t
    using that by (auto simp: ready_def may_run_def)
  have qn: "set q \<subseteq> set (nodes g)" and qm: "\<And>t. t \<in> set q \<Longrightarrow> may_run g s (node_id t)"
    using q(2) i(6,8) rd by blast+
  let ?s1 = "s\<lparr>queue := q\<rparr>"
  have mr1: "may_run g (s\<lparr>pool := p, queue := x\<rparr>) = may_run g s" "may_run g (s\<lparr>queue := x\<rparr>) = may_run g s" for p x
    by (auto simp: may_run_def fun_eq_iff)
  show ?thesis
  proof (cases "q = []")
    case True
    have none: "ready g (completed s) = []" using q(3) True by auto
    have "set (ids g) \<subseteq> completed s"
    proof
      fix j
      assume "j \<in> set (ids g)"
      then obtain n where "n \<in> set (nodes g)" "node_id n = j" by auto
      with some_ready [OF valid, of n "completed s"] none show "j \<in> completed s" by auto
    qed
    with i(5) have "completed s = set (ids g)" by blast
    moreover have "sched_inv b0 g ?s1"
      using i l True by (auto simp: sched_inv_def batch_inv_def log_ok_def)
    ultimately show ?thesis using q(1) True by (auto simp: scheduler_round_def)
  next
    case False
    have cq: "\<forall>t \<in> set q. clean (node_id t)" using qn i(1) by (auto simp: clean_graph_def)
    from form_batch_effect [OF i(2) cq q(4)] obtain p' q' as where
      f: "form_batch ?p q = Inr (p', q', as)" "same_base ?p p'" "shares q q' as"
        "\<And>a. a \<in> set as \<Longrightarrow> registered ?p (as_worker_id a) \<and> usable (get_health ?p (as_worker_id a))"
        "as = [] \<longrightarrow> q \<noteq> [] \<longrightarrow> hd q \<in> set q' \<and> candidates p' (required_capability (hd q)) = []"
      by blast
    let ?s2 = "s\<lparr>pool := p', queue := q'\<rparr>"
    have ids: "as_task_id a \<in> node_id ` set q" if "a \<in> set as" for a using f(3) that by (auto simp: shares_def)
    have binv: "batch_inv b0 g ?s2 as"
      unfolding batch_inv_def
    proof (intro conjI ballI)
      show "clean_pool (pool ?s2)" "health_inv (pool ?s2)" using i(2,3) same_base_obs [OF f(2)] by auto
      show "log_ok b0 g ?s2" using i(4) same_base_obs(5) [OF f(2)] by (auto simp: log_ok_def)
      show "set (queue ?s2) \<subseteq> set (nodes g)" using f(3) qn by (auto simp: shares_def)
      show "distinct (map as_task_id as @ map node_id (queue ?s2))" using f(3) by (simp add: shares_def)
      show "may_run g ?s2 (node_id t)" if "t \<in> set (queue ?s2)" for t
        using that f(3) qm by (auto simp: shares_def mr1)
      show "may_run g ?s2 (as_task_id a)" if "a \<in> set as" for a
        using ids [OF that] qm by (auto simp: mr1)
      show "registered (pool ?s2) (as_worker_id a)" if "a \<in> set as" for a
        using f(4) [OF that] same_base_obs(1) [OF f(2)] by simp
    qed (use i l in auto)
    show ?thesis
    proof (cases "as = []")
      case True
      have "blocked ?s2" using f(5) True False by (auto simp: blocked_def)
      with binv True f(1) q(1) False show ?thesis
        by (auto simp: scheduler_round_def sched_inv_def Let_def)
    next
      case some: False
      from run_batch_steps [OF binv, of work] obtain s3 where
        s3: "run_batch work g ?s2 as = Inr s3" "sched_inv b0 g s3" "completed ?s2 \<subseteq> completed s3"
          "failure_count p' (as_worker_id (hd as)) < unavailable_threshold p' \<longrightarrow> round_bound g s3 < round_bound g ?s2"
        using some by auto
      have "failure_count p' (as_worker_id (hd as)) < unavailable_threshold p'"
        using f(4) [of "hd as"] some usable_iff [OF i(3)] same_base_obs(6,7) [OF f(2)] by simp
      moreover have "round_bound g ?s2 = round_bound g s"
        using capacity_cong [OF f(2)] by (simp add: round_bound_def)
      ultimately have drop: "round_bound g s3 < round_bound g s" using s3(4) by simp
      let ?s4 = "update_metrics s3 (length as)"
      have "sched_inv b0 g ?s4"
        using s3(2) by (simp add: sched_inv_def batch_inv_def log_ok_def may_run_def update_metrics_def Let_def)
      moreover have "round_bound g ?s4 = round_bound g s3"
        by (simp add: round_bound_def update_metrics_def Let_def)
      moreover have "completed ?s4 = completed s3" by (simp add: update_metrics_def Let_def)
      moreover have "scheduler_round work g s = Inr (?s4, True)"
        using q(1) False f(1) some s3(1) by (simp add: scheduler_round_def Let_def)
      ultimately show ?thesis using drop s3(3) by auto
    qed
  qed
qed

text \<open>Enough fuel gives a result, and the result ends one of the two ways.\<close>

lemma execute_graph_ends:
  assumes valid: "valid_graph g"
  shows "sched_inv b0 g s \<Longrightarrow> round_bound g s < n \<Longrightarrow>
    \<exists>s'. execute_graph n work g s = Some (Inr s') \<and> sched_inv b0 g s' \<and> completed s \<subseteq> completed s' \<and>
      (completed s' = set (ids g) \<or> blocked s')"
proof (induction n arbitrary: s)
  case (Suc n)
  from scheduler_round_step [OF Suc.prems(1) valid, of work] obtain s1 again where
    r: "scheduler_round work g s = Inr (s1, again)" "sched_inv b0 g s1" "completed s \<subseteq> completed s1"
      "again \<longrightarrow> round_bound g s1 < round_bound g s"
      "\<not> again \<longrightarrow> completed s1 = set (ids g) \<or> blocked s1" by blast
  show ?case
  proof (cases again)
    case True
    with r(4) Suc.prems(2) have "round_bound g s1 < n" by simp
    from Suc.IH [OF r(2) this] r True show ?thesis by auto
  next
    case False
    with r show ?thesis by simp
  qed
qed simp

end
