(* ===== verification/Graph_Properties.thy ===== *)
theory Graph_Properties
  imports ExecutionRuntime Scheduler
begin

text \<open>
  The properties of the task graph, the worker pool, the scheduler and the execution graph, with
  the concrete graphs and pools of their witnesses.
\<close>

section \<open>Concrete instances\<close>

definition demo_node :: "string \<Rightarrow> task_priority \<Rightarrow> task_node" where
  "demo_node i p = \<lparr>node_id = i, title = i, description = [], required_capability = ''python'', priority = p,
     estimated_duration = 1, dependencies = [], metadata = []\<rparr>"

definition demo_edge :: "nat \<Rightarrow> string \<Rightarrow> string \<Rightarrow> task_edge" where
  "demo_edge k s t = \<lparr>te_object = k, te_source = s, te_target = t, te_type = FINISH_TO_START, te_metadata = []\<rparr>"

definition demo_nodes :: "task_node list" where
  "demo_nodes = [demo_node ''c'' NORMAL, demo_node ''a'' NORMAL, demo_node ''b'' HIGH]"

definition demo_edges :: "task_edge list" where
  "demo_edges = [demo_edge 0 ''a'' ''c'', demo_edge 1 ''b'' ''c'']"

definition demo_graph :: task_graph where
  "demo_graph = (case make_task_graph demo_nodes demo_edges of Inr g \<Rightarrow> g
     | Inl _ \<Rightarrow> \<lparr>nodes = [], edges = [], node_map = Map.empty, children_map = Map.empty, parents_map = Map.empty\<rparr>)"

definition swapped_graph :: task_graph where
  "swapped_graph = (case make_task_graph (rev demo_nodes) (rev demo_edges) of Inr g \<Rightarrow> g
     | Inl _ \<Rightarrow> \<lparr>nodes = [], edges = [], node_map = Map.empty, children_map = Map.empty, parents_map = Map.empty\<rparr>)"

definition demo_worker :: "string \<Rightarrow> string list \<Rightarrow> string list \<Rightarrow> worker_profile" where
  "demo_worker i caps prefs = \<lparr>w_id = i, w_name = i, w_role = GENERAL, w_experience = MID, capabilities = caps,
     preferred_capabilities = prefs, supported_languages = [], frameworks = [], domains = [], preferred_tasks = [],
     max_parallel_tasks = 1, w_health = HEALTHY, w_metadata = []\<rparr>"

definition demo_pool :: worker_pool where
  "demo_pool = new_pool\<lparr>registry := [demo_worker ''w2'' [''python''] [''python''], demo_worker ''w1'' [''python''] []]\<rparr>"

text \<open>A worker that fails the first task it is ever given and succeeds afterwards.\<close>

definition flaky :: behaviour where
  "flaky seen w t =
     (if length seen \<le> 1 then Raises ''boom''
      else Returns \<lparr>wr_worker_id = w_id w, wr_task_id = wt_id t, success = True, summary = [], artifacts = [], warnings = []\<rparr>)"

lemma demo_graph_made: "make_task_graph demo_nodes demo_edges = Inr demo_graph"
proof -
  have "\<exists>g. make_task_graph demo_nodes demo_edges = Inr g"
  proof -
    have "case make_task_graph demo_nodes demo_edges of Inr g \<Rightarrow> True | Inl _ \<Rightarrow> False" by code_simp
    then show ?thesis by (auto split: sum.splits)
  qed
  then show ?thesis by (auto simp: demo_graph_def)
qed

lemma swapped_graph_made: "make_task_graph (rev demo_nodes) (rev demo_edges) = Inr swapped_graph"
proof -
  have "\<exists>g. make_task_graph (rev demo_nodes) (rev demo_edges) = Inr g"
  proof -
    have "case make_task_graph (rev demo_nodes) (rev demo_edges) of Inr g \<Rightarrow> True | Inl _ \<Rightarrow> False" by code_simp
    then show ?thesis by (auto split: sum.splits)
  qed
  then show ?thesis by (auto simp: swapped_graph_def)
qed

section \<open>Task graph\<close>

text \<open>C5. The constructor accepts exactly the inputs with distinct node ids, whose edges join known, different nodes without
  a second edge object between them, and whose edges have no cycle. It raises \<open>CycleError\<close> exactly when everything
  but acyclicity holds, and its depth-first search always ends.\<close>

theorem task_graph_construction:
  "((\<exists>g. make_task_graph ns es = Inr g) \<longleftrightarrow>
      distinct (map node_id ns) \<and> edges_ok ns es \<and> acyclic ((\<lambda>e. (te_source e, te_target e)) ` set es)) \<and>
   (make_task_graph ns es = Inl CycleError \<longleftrightarrow>
      distinct (map node_id ns) \<and> edges_ok ns es \<and> \<not> acyclic ((\<lambda>e. (te_source e, te_target e)) ` set es)) \<and>
   make_task_graph ns es \<noteq> Inl RecursionError"
proof -
  have er: "edge_rel (child_ids g) = (\<lambda>e. (te_source e, te_target e)) ` set es" if "link_graph ns es = Inr g" for g
  proof -
    from link_graph_Inr [OF that] link_then_linked [OF that] have "linked g" "edges g = es" by auto
    then show ?thesis by (auto simp: edge_rel_def child_iff)
  qed
  have check: "cycle_check g = (if acyclic ((\<lambda>e. (te_source e, te_target e)) ` set es) then Inr g else Inl CycleError)"
    if "link_graph ns es = Inr g" for g
    using tasks.check_exact [OF link_then_linked [OF that]] er [OF that] by (simp add: cycle_check_def)
  show ?thesis
  proof (cases "link_graph ns es")
    case (Inr g)
    with link_graph_ok_iff [of ns es] check [OF Inr] show ?thesis by (auto simp: make_task_graph_def)
  next
    case (Inl err)
    with link_graph_ok_iff [of ns es] have "\<not> (distinct (map node_id ns) \<and> edges_ok ns es)" by auto
    with Inl link_graph_error [OF Inl] show ?thesis by (auto simp: make_task_graph_def)
  qed
qed

text \<open>C6. The topological sort of an accepted graph returns; its result has every node exactly once, and no node stands before
  one of its prerequisites: for every edge the source comes first.\<close>

theorem topological_order:
  assumes "make_task_graph ns es = Inr g"
  shows "\<exists>out. topological_sort g = Some out \<and> mset out = mset ns \<and>
    sorted_wrt (\<lambda>a b. \<not> (\<exists>e \<in> set es. te_source e = node_id b \<and> te_target e = node_id a)) out"
proof -
  have g: "valid_graph g" "nodes g = ns" "edges g = es" "linked g"
    using assms link_graph_Inr made_valid [OF assms] by (auto simp: make_task_graph_Inr valid_graph_iff)
  from topological_sort_order [OF g(1)] show ?thesis by (simp add: child_iff [OF g(4)] g(2,3))
qed

theorem topological_order_witness:
  "\<exists>out. topological_sort demo_graph = Some out \<and> mset out = mset demo_nodes \<and> 
    sorted_wrt (\<lambda>a b. \<not> (\<exists>e \<in> set demo_edges. te_source e = node_id b \<and> te_target e = node_id a)) out"
  by (rule topological_order [OF demo_graph_made])

text \<open>C7. Determinism: two graphs built from the same nodes and edges in different orders have the same topological order and
  the same ready list, whatever is completed.\<close>

theorem insertion_order_irrelevant:
  assumes "make_task_graph ns es = Inr g" and "make_task_graph ns' es' = Inr h"
    and "mset ns' = mset ns" and "mset es' = mset es"
  shows "topological_sort h = topological_sort g \<and> ready h don = ready g don"
proof -
  have g: "linked g" "nodes g = ns" "edges g = es"
    using assms(1) link_graph_Inr made_valid [OF assms(1)] by (auto simp: make_task_graph_Inr valid_graph_iff)
  have h: "linked h" "nodes h = ns'" "edges h = es'"
    using assms(2) link_graph_Inr made_valid [OF assms(2)] by (auto simp: make_task_graph_Inr valid_graph_iff)
  have "same_graph h g" using g h assms(3,4) by (simp add: same_graph_def)
  with g(1) h(1) show ?thesis by (simp add: same_topological_sort same_ready)
qed

theorem insertion_order_irrelevant_witness:
  "topological_sort swapped_graph = topological_sort demo_graph \<and> ready swapped_graph {''b''} = ready demo_graph {''b''}"
  by (rule insertion_order_irrelevant [OF demo_graph_made swapped_graph_made]) simp_all

text \<open>C8. The ready list has exactly the nodes that are not completed and whose prerequisites all are, by priority and id; and
  it is empty only when every node is completed, so an accepted graph never deadlocks.\<close>

theorem ready_exact_and_live:
  assumes "make_task_graph ns es = Inr g"
  shows "set (ready g don) = {n \<in> set ns. node_id n \<notin> don \<and> (\<forall>e \<in> set es. te_target e = node_id n \<longrightarrow> te_source e \<in> don)}
    \<and> sorted (map priority_key (ready g don)) \<and> (ready g don = [] \<longleftrightarrow> node_id ` set ns \<subseteq> don)"
proof -
  have g: "valid_graph g" "nodes g = ns" "edges g = es" "linked g"
    using assms link_graph_Inr made_valid [OF assms] by (auto simp: make_task_graph_Inr valid_graph_iff)
  have mem: "n \<in> set (ready g don) \<longleftrightarrow> n \<in> set ns \<and> node_id n \<notin> don \<and>
      (\<forall>e \<in> set es. te_target e = node_id n \<longrightarrow> te_source e \<in> don)" for n
    using ready_iff [OF g(4), of n don] g(2,3) by simp
  have "ready g don = [] \<longleftrightarrow> node_id ` set ns \<subseteq> don"
  proof
    show "ready g don = [] \<Longrightarrow> node_id ` set ns \<subseteq> don"
      using some_ready [OF g(1), of _ don] g(2) by fastforce
    assume "node_id ` set ns \<subseteq> don"
    then have "n \<notin> set (ready g don)" for n unfolding mem by blast
    then show "ready g don = []" by (metis list.set_intros(1) neq_Nil_conv)
  qed
  moreover have "sorted (map priority_key (ready g don))" by (simp add: ready_def)
  ultimately show ?thesis using mem by blast
qed

theorem ready_exact_and_live_witness:
  "set (ready demo_graph {''b''}) = {n \<in> set demo_nodes. node_id n \<notin> {''b''} \<and>
       (\<forall>e \<in> set demo_edges. te_target e = node_id n \<longrightarrow> te_source e \<in> {''b''})}
    \<and> sorted (map priority_key (ready demo_graph {''b''}))
    \<and> (ready demo_graph {''b''} = [] \<longleftrightarrow> node_id ` set demo_nodes \<subseteq> {''b''})"
  by (rule ready_exact_and_live [OF demo_graph_made])

section \<open>Workers\<close>

text \<open>The manager returns a worker that is idle, usable and capable whenever there is one; it is the least such worker in
  the order that puts those who prefer the capability first and then compares ids. Looking does not change the pool,
  but for instances created in their initial state.\<close>

theorem best_worker_choice:
  "\<exists>p' best. find_best_worker p t = Inr (p', best) \<and> alike p p' \<and>
     (case best of
        None \<Rightarrow> {w \<in> set (registry p). idle_usable p w \<and> capable (wt_required_capability t) w} = {}
      | Some w \<Rightarrow> w \<in> set (registry p) \<and> idle_usable p w \<and> capable (wt_required_capability t) w \<and>
          pick_key (wt_required_capability t) w
            = Min (pick_key (wt_required_capability t) `
                {w \<in> set (registry p). idle_usable p w \<and> capable (wt_required_capability t) w}))"
proof -
  let ?cap = "wt_required_capability t"
  let ?C = "{w \<in> set (registry p). idle_usable p w \<and> capable ?cap w}"
  obtain p' where p': "find_best_worker p t = Inr (p', choose_worker ?cap (candidates p ?cap))" "alike p p'"
    using find_best_worker_eq by blast
  show ?thesis
  proof (cases "choose_worker ?cap (candidates p ?cap)")
    case None
    then have "?C = {}" by (metis choose_worker_None set_candidates set_empty)
    with p' None show ?thesis by auto
  next
    case (Some w)
    then have w: "w \<in> ?C" using choose_worker_in set_candidates by blast
    have "pick_key ?cap w = Min (pick_key ?cap ` ?C)"
      using choose_worker_least [OF Some] w by (intro Min_image_eqI) (auto simp: set_candidates)
    with p' Some w show ?thesis by auto
  qed
qed

text \<open>C11. Executing a task on a registered worker returns, whether the worker succeeds, fails or raises: the worker is idle
  again with no task, exactly one of the two counters is up by one, the failures of that worker are reset or up by one,
  the bus has the start, the outcome and the release in this order, nobody else is touched, and the recorded health is
  still the one the recorded failures call for.\<close>

theorem run_releases_and_accounts:
  assumes "registered p (w_id w)" and "health_inv p"
  shows "\<exists>p'. run_task work p w t = Inr (p', run_result work p w t) \<and> after_run work p w t p' \<and> health_inv p'"
  using run_task_effect [OF assms(1)] assms(2) by blast

theorem run_releases_and_accounts_witness:
  "\<exists>p'. run_task flaky demo_pool (demo_worker ''w1'' [''python''] []) (as_task (demo_node ''a'' LOW))
      = Inr (p', run_result flaky demo_pool (demo_worker ''w1'' [''python''] []) (as_task (demo_node ''a'' LOW)))
    \<and> after_run flaky demo_pool (demo_worker ''w1'' [''python''] []) (as_task (demo_node ''a'' LOW)) p' \<and> health_inv p'"
  by (rule run_releases_and_accounts)
    (auto simp: registered_def demo_pool_def demo_worker_def health_inv_def new_pool_def failure_count_def
      get_health_def health_level_def)

text \<open>The delegation engine returns nothing exactly when no idle usable worker has the capability; otherwise it returns a
  worker with the least key among them (highest score, then least id), and a score between 0 and 100.\<close>

theorem delegation_picks_best_score:
  "\<exists>p' r. delegate p t = Inr (p', r) \<and> alike p p' \<and>
     (case r of
        None \<Rightarrow> {w \<in> set (registry p). idle_usable p w \<and> capable (wt_required_capability t) w} = {}
      | Some (w, s) \<Rightarrow> w \<in> set (registry p) \<and> idle_usable p w \<and> w_id w = cs_worker_id s \<and> score s \<in> {0..100} \<and>
          rank_key s = Min ((\<lambda>w. rank_key (score_worker w t)) `
            {w \<in> set (registry p). idle_usable p w \<and> capable (wt_required_capability t) w}))"
proof -
  let ?ws = "filter (idle_usable p) (list_workers p)"
  let ?C = "{w \<in> set (registry p). idle_usable p w \<and> capable (wt_required_capability t) w}"
  obtain p' where p': "delegate p t = Inr (p', best_worker ?ws t)" "alike p p'"
    using scan_candidates_eq [of "list_workers p" p] by (auto simp: delegate_def registered_def)
  have C: "set (rank_workers ?ws t) = (\<lambda>w. score_worker w t) ` ?C" by (auto simp: set_rank)
  show ?thesis
  proof (cases "best_worker ?ws t")
    case None
    then have "?C = {}" by (auto simp: best_worker_None)
    with p' None show ?thesis by auto
  next
    case (Some r)
    then obtain w s where ws: "best_worker ?ws t = Some (w, s)" by (cases r) auto
    note b = best_worker_Some [OF ws]
    then obtain v where v: "v \<in> ?C" "s = score_worker v t" using C by blast
    have "rank_key (score_worker v t) = Min ((\<lambda>w. rank_key (score_worker w t)) ` ?C)"
      using b C v by (intro Min_image_eqI) auto
    with p' ws b v score_range [of v t] show ?thesis by auto
  qed
qed

section \<open>Scheduler\<close>

text \<open>C9. Scheduling an accepted graph ends, though failed tasks are retried: the tasks left and the failures the workers can
  still have bound the rounds. This holds when every node id and every worker id is non-blank and has no surrounding white
  space (\<open>clean_graph\<close>, \<open>clean_pool\<close>), and the health recorded for the workers is the one their recorded failures and
  the thresholds call for (\<open>health_inv\<close>, which every run keeps). Then no exception escapes; a task is started only after
  all its prerequisites reported success; the completed set is the set of tasks that reported success; and either it is
  the whole graph or some waiting task has no idle usable worker with its capability. With a padded id the assignment
  carries another id than the node, and the scheduler raises.\<close>

theorem scheduler_runs_to_the_end:
  assumes "make_task_graph ns es = Inr g" and "clean_graph g" and "clean_pool p" and "health_inv p"
    and "round_bound g (new_scheduler p) < fuel"
  shows "\<exists>s log. execute_graph fuel work g (new_scheduler p) = Some (Inr s) \<and>
    bus (pool s) = bus p @ log \<and> started_in_order g {} log \<and> completed s = succeeded log \<and>
    (completed s = node_id ` set ns \<or> blocked s)"
proof -
  have g: "valid_graph g" "nodes g = ns" "linked g"
    using assms(1) link_graph_Inr made_valid [OF assms(1)] by (auto simp: make_task_graph_Inr valid_graph_iff)
  have "sched_inv (bus p) g (new_scheduler p)"
    using assms(2-4) g(3) by (simp add: sched_inv_def batch_inv_def new_scheduler_def log_ok_def)
  from execute_graph_ends [OF g(1) this assms(5)] obtain s where
    "execute_graph fuel work g (new_scheduler p) = Some (Inr s)" "sched_inv (bus p) g s"
    "completed s = set (ids g) \<or> blocked s" by blast
  then show ?thesis using g(2) by (auto simp: sched_inv_def batch_inv_def log_ok_def)
qed

lemma demo_graph_nodes: "nodes demo_graph = demo_nodes"
  using demo_graph_made link_graph_Inr by (auto simp: make_task_graph_Inr)

lemma demo_graph_clean: "clean_graph demo_graph"
  unfolding clean_graph_def demo_graph_nodes by code_simp

lemma demo_pool_clean: "clean_pool demo_pool"
  by code_simp

lemma demo_pool_health: "health_inv demo_pool"
  by (simp add: demo_pool_def health_inv_def new_pool_def failure_count_def get_health_def health_level_def)

theorem scheduler_runs_to_the_end_witness:
  "\<exists>s log. execute_graph 50 flaky demo_graph (new_scheduler demo_pool) = Some (Inr s) \<and>
    bus (pool s) = bus demo_pool @ log \<and> started_in_order demo_graph {} log \<and> completed s = succeeded log \<and>
    (completed s = node_id ` set demo_nodes \<or> blocked s)"
proof (rule scheduler_runs_to_the_end [OF demo_graph_made demo_graph_clean demo_pool_clean demo_pool_health])
  have "set (ids demo_graph) = {''a'', ''b'', ''c''}" by (auto simp: demo_graph_nodes demo_nodes_def demo_node_def)
  moreover have "w_id ` set (registry demo_pool) = {''w1'', ''w2''}" by (auto simp: demo_pool_def demo_worker_def)
  ultimately show "round_bound demo_graph (new_scheduler demo_pool) < 50"
    by (simp add: round_bound_def new_scheduler_def full_capacity_def capacity_def demo_pool_def new_pool_def failure_count_def)
qed

section \<open>Execution graph\<close>

text \<open>C10. The parallel runtime returns, for nodes whose task id and title are not blank (the default title is, and makes it
  raise) and a pool whose worker ids are not blank. The two sets it returns, completed and failed, are disjoint sets of
  node ids of the graph. Under every policy but \<open>FAIL_FAST\<close> every node is in one of them; under \<open>FAIL_FAST\<close> nodes may
  be in neither, but only when some node failed.\<close>

theorem parallel_run_settles_every_node:
  assumes "make_execution_graph ns es = Inr g" and "good_nodes ns" and "good_ids p" and "length ns < fuel"
  shows "\<exists>p' don bad. execute_parallel fuel policy work g p {} {} = Some (p', Inr (don, bad)) \<and> don \<inter> bad = {} \<and>
    don \<union> bad \<subseteq> xn_id ` set ns \<and> (don \<union> bad = xn_id ` set ns \<or> policy = FAIL_FAST \<and> bad \<noteq> {})"
proof -
  have g: "lg_nodes g = ns" "valid_execution_graph g"
    using assms(1) link_nodes_Inr by (auto simp: make_execution_graph_Inr valid_execution_graph_def)
  have "card (set (x_ids g) - ({} \<union> {})) \<le> length ns" using card_length [of "x_ids g"] g(1) by simp
  then have "card (set (x_ids g) - ({} \<union> {})) < fuel" using assms(4) by simp
  from execute_parallel_ends [OF g(2) _ assms(3) _ _ this, of policy work] assms(2) g(1) show ?thesis by fastforce
qed

definition demo_exec :: "string \<Rightarrow> string \<Rightarrow> execution_node" where
  "demo_exec i ti = \<lparr>xn_id = i, xn_task_id = i, xn_title = ti, xn_state = PENDING, xn_dependencies = [], xn_metadata = []\<rparr>"

definition demo_exec_graph :: execution_graph where
  "demo_exec_graph = (case make_execution_graph [demo_exec ''x'' ''t'', demo_exec ''y'' ''t''] [(''x'', ''y'')] of
     Inr g \<Rightarrow> g | Inl _ \<Rightarrow> \<lparr>lg_nodes = [], lg_edges = [], lg_node_map = Map.empty, lg_children_map = Map.empty, lg_parents_map = Map.empty\<rparr>)"

lemma demo_exec_graph_made:
  "make_execution_graph [demo_exec ''x'' ''t'', demo_exec ''y'' ''t''] [(''x'', ''y'')] = Inr demo_exec_graph"
proof -
  have "case make_execution_graph [demo_exec ''x'' ''t'', demo_exec ''y'' ''t''] [(''x'', ''y'')] of
      Inr g \<Rightarrow> True | Inl _ \<Rightarrow> False" by code_simp
  then show ?thesis by (auto simp: demo_exec_graph_def split: sum.splits)
qed

theorem parallel_run_settles_every_node_witness:
  "\<exists>p' don bad. execute_parallel 3 CONTINUE flaky demo_exec_graph demo_pool {} {} = Some (p', Inr (don, bad)) \<and>
    don \<inter> bad = {} \<and> don \<union> bad \<subseteq> xn_id ` set [demo_exec ''x'' ''t'', demo_exec ''y'' ''t''] \<and>
    (don \<union> bad = xn_id ` set [demo_exec ''x'' ''t'', demo_exec ''y'' ''t''] \<or> CONTINUE = FAIL_FAST \<and> bad \<noteq> {})"
proof (rule parallel_run_settles_every_node [OF demo_exec_graph_made])
  show "good_nodes [demo_exec ''x'' ''t'', demo_exec ''y'' ''t'']" by code_simp
  show "good_ids demo_pool" by code_simp
qed simp

section \<open>Corner cases\<close>

text \<open>The duplicate test compares object identities: one edge object given twice is accepted, and counts twice.\<close>

lemma same_edge_object_twice:
  "case make_task_graph demo_nodes [demo_edge 0 ''a'' ''c'', demo_edge 0 ''a'' ''c''] of
     Inr g \<Rightarrow> child_ids g ''a'' = [''c'', ''c''] | Inl _ \<Rightarrow> False"
  by code_simp

lemma equal_edge_object_refused:
  "case make_task_graph demo_nodes [demo_edge 0 ''a'' ''c'', demo_edge 1 ''a'' ''c''] of
     Inl e \<Rightarrow> e = DuplicateEdgeError ''a'' ''c'' | Inr _ \<Rightarrow> False"
  by code_simp

text \<open>The artifact graph, an \<open>immutable DAG\<close> by its documentation, accepts a cycle.\<close>

lemma artifact_cycle_accepted:
  "case make_artifact_graph
       [\<lparr>an_id = ''p'', an_path = ''f'', creator_worker_id = ''w'', an_version = 1, an_metadata = []\<rparr>,
        \<lparr>an_id = ''q'', an_path = ''g'', creator_worker_id = ''w'', an_version = 1, an_metadata = []\<rparr>]
       [(''p'', ''q''), (''q'', ''p'')] of
     Inr g \<Rightarrow> x_children g ''p'' = [''q''] \<and> x_children g ''q'' = [''p''] | Inl _ \<Rightarrow> False"
  by code_simp

text \<open>
  A node with the default (empty) title makes the executor raise after the assignment, so the worker
  stays assigned.
\<close>

lemma untitled_node_keeps_its_worker:
  "case execute_batch CONTINUE flaky demo_pool empty_batch [demo_exec ''x'' []] of
     (p', Inl (InvalidTask e)) \<Rightarrow> map_option inst_state (instances p' ''w2'') = Some ASSIGNED
   | _ \<Rightarrow> False"
  by code_simp

text \<open>
  A task that fails and succeeds when it is tried again is reported in both sets.
\<close>

lemma retried_task_in_both_sets:
  "case execute_graph 50 flaky demo_graph (new_scheduler demo_pool) of
     Some (Inr s) \<Rightarrow> ''b'' \<in> completed s \<and> ''b'' \<in> failed s | _ \<Rightarrow> False"
  by code_simp

text \<open>
  A waiting task without a worker keeps the loop from trying the tasks behind it, although the
  comment at that point says that no ready task has a worker.
\<close>

definition blocked_nodes :: "task_node list" where
  "blocked_nodes = [(demo_node ''rare'' HIGH)\<lparr>required_capability := ''cobol''\<rparr>, demo_node ''easy'' LOW]"

lemma head_of_line_blocking:
  "case make_task_graph blocked_nodes [] of
     Inr g \<Rightarrow>
       (case execute_graph 50 flaky g (new_scheduler demo_pool) of
          Some (Inr s) \<Rightarrow> completed s = {} \<and> failed s = {} \<and> candidates (pool s) ''python'' \<noteq> [] | _ \<Rightarrow> False)
   | Inl _ \<Rightarrow> False"
  by code_simp

text \<open>
  The assignment strips the task id, so the scheduler looks for a node that is not there when the id of a
  node has surrounding white space.
\<close>

lemma padded_node_id_raises:
  "case make_task_graph [demo_node '' a '' LOW] [] of
     Inr g \<Rightarrow>
       (case execute_graph 50 flaky g (new_scheduler demo_pool) of Some (Inl e) \<Rightarrow> True | _ \<Rightarrow> False)
   | Inl _ \<Rightarrow> False"
  by code_simp

end
