(* ===== verification/Filesystem.thy ===== *)
theory Filesystem
  imports Prelude "HOL-Library.Word"
begin

text \<open>
  What the governed code uses of the operating system and of \<open>pathlib\<close>: relative paths and their
  parts, a tree of directories, regular files and symbolic links, the file tests that follow links,
  byte and text reads, UTF-8.

  Paths are the lists of their components from the root of the file system; a link holds the
  absolute path it denotes. A file that exists but cannot be read has its first field \<open>False\<close>.
\<close>

section \<open>Paths\<close>

fun split_slash :: "string \<Rightarrow> string list" where
  "split_slash [] = [[]]"
| "split_slash (c # cs) =
     (if c = CHR ''/'' then [] # split_slash cs
      else (case split_slash cs of [] \<Rightarrow> [[c]] | w # ws \<Rightarrow> (c # w) # ws))"

text \<open>\<open>Path(s).parts\<close> of a relative path: empty and dot components disappear, dot-dot stays.\<close>

definition path_parts :: "string \<Rightarrow> string list" where
  "path_parts s = filter (\<lambda>w. w \<noteq> [] \<and> w \<noteq> ''.'') (split_slash s)"

definition is_absolute :: "string \<Rightarrow> bool" where
  "is_absolute s = (s \<noteq> [] \<and> hd s = CHR ''/'')"

section \<open>Bytes and text\<close>

type_synonym byte = "8 word"
type_synonym bytes = "byte list"

text \<open>UTF-8 of one code point, and of a text given by its code points.\<close>

definition encode_point :: "nat \<Rightarrow> nat list" where
  "encode_point n =
     (if n < 128 then [n]
      else if n < 2048 then [192 + n div 64, 128 + n mod 64]
      else if n < 65536 then [224 + n div 4096, 128 + n div 64 mod 64, 128 + n mod 64]
      else [240 + n div 262144, 128 + n div 4096 mod 64, 128 + n div 64 mod 64, 128 + n mod 64])"

definition encode_text :: "nat list \<Rightarrow> bytes" where
  "encode_text cs = map of_nat (concat (map encode_point cs))"

definition code_points :: "string \<Rightarrow> nat list" where
  "code_points s = map of_char s"

definition utf8_encode :: "string \<Rightarrow> bytes" where
  "utf8_encode s = encode_text (code_points s)"

definition continuation :: "nat \<Rightarrow> bool" where
  "continuation b \<longleftrightarrow> 128 \<le> b \<and> b < 192"

text \<open>Strict UTF-8 decoding to code points: no overlong forms, no surrogates, nothing above 0x10FFFF.\<close>

function decode_units :: "nat list \<Rightarrow> nat list option" where
  "decode_units [] = Some []"
| "decode_units (b # bs) =
     (if b < 128 then map_option ((#) b) (decode_units bs)
      else if 194 \<le> b \<and> b < 224 then
        (case bs of
           c # rest \<Rightarrow>
             if continuation c
             then map_option ((#) ((b - 192) * 64 + (c - 128))) (decode_units rest) else None
         | _ \<Rightarrow> None)
      else if 224 \<le> b \<and> b < 240 then
        (case bs of
           c # d # rest \<Rightarrow>
             if continuation c \<and> continuation d \<and> (b = 224 \<longrightarrow> 160 \<le> c) \<and> (b = 237 \<longrightarrow> c < 160)
             then map_option ((#) ((b - 224) * 4096 + (c - 128) * 64 + (d - 128))) (decode_units rest) else None
         | _ \<Rightarrow> None)
      else if 240 \<le> b \<and> b < 245 then
        (case bs of
           c # d # e # rest \<Rightarrow>
             if continuation c \<and> continuation d \<and> continuation e \<and> (b = 240 \<longrightarrow> 144 \<le> c) \<and> (b = 244 \<longrightarrow> c < 144)
             then map_option ((#) ((b - 240) * 262144 + (c - 128) * 4096 + (d - 128) * 64 + (e - 128)))
                    (decode_units rest) else None
         | _ \<Rightarrow> None)
      else None)"
  by pat_completeness auto
termination by (relation "measure length") auto

declare decode_units.simps(2) [simp del]

definition utf8_decode :: "bytes \<Rightarrow> nat list option" where
  "utf8_decode bs = decode_units (map unat bs)"

lemma code_points_inj: "code_points s = code_points t \<longleftrightarrow> s = t"
  by (auto simp: code_points_def inj_map_eq_map [OF inj_of_char])

lemma unat_byte: "n < 256 \<Longrightarrow> unat (of_nat n :: byte) = n"
  by (simp add: unat_of_nat take_bit_eq_mod)

lemma map_unat_bytes: "(\<forall>n \<in> set ns. n < 256) \<Longrightarrow> map unat (map of_nat ns :: bytes) = ns"
  by (induction ns) (auto simp: unat_byte)

lemma bytes_of_units: "map of_nat (map unat bs) = (bs :: bytes)"
  by (induction bs) auto

text \<open>Decoding what was encoded gives the text back.\<close>

lemma decode_encode_point:
  assumes "n < 256"
  shows "decode_units (encode_point n @ rest) = map_option ((#) n) (decode_units rest) \<and> (\<forall>b \<in> set (encode_point n). b < 256)"
proof (cases "n < 128")
  case True
  then show ?thesis by (simp add: encode_point_def decode_units.simps(2))
next
  case False
  have q: "n div 64 < 4" "2 \<le> n div 64" using assms False by auto
  then show ?thesis using assms False
    by (simp add: encode_point_def decode_units.simps(2) continuation_def)
qed

lemma decode_encode_points:
  "(\<forall>n \<in> set ns. n < 256) \<Longrightarrow>
    decode_units (concat (map encode_point ns)) = Some ns \<and> (\<forall>b \<in> set (concat (map encode_point ns)). b < 256)"
  using decode_encode_point by (induction ns) auto

lemma utf8_roundtrip: "utf8_decode (utf8_encode s) = Some (code_points s)"
proof -
  have "\<forall>n \<in> set (code_points s). n < 256"
    using nat_of_char_less_256 by (auto simp: code_points_def)
  from decode_encode_points [OF this] show ?thesis
    unfolding utf8_decode_def utf8_encode_def encode_text_def using map_unat_bytes by presburger
qed

text \<open>Encoding what was decoded gives the bytes back.\<close>

lemma split_six: "z < 64 \<Longrightarrow> (k * 64 + z) div 64 = (k :: nat)" "z < 64 \<Longrightarrow> (k * 64 + z) mod 64 = (z :: nat)"
  by simp_all

lemma encode_point_two: "2 \<le> x \<Longrightarrow> x < 32 \<Longrightarrow> y < 64 \<Longrightarrow> encode_point (x * 64 + y) = [192 + x, 128 + y]"
  by (simp add: encode_point_def)

lemma encode_point_three:
  assumes "x < 16" and "y < 64" and "z < 64" and "x = 0 \<longrightarrow> 32 \<le> y"
  shows "encode_point (x * 4096 + y * 64 + z) = [224 + x, 128 + y, 128 + z]"
proof -
  obtain n where n: "n = (x * 64 + y) * 64 + z" by blast
  have "2048 \<le> n" "n < 65536" using assms n by (cases "x = 0"; simp)+
  moreover have d: "n div 64 = x * 64 + y" "n mod 64 = z"
    unfolding n by (rule split_six [OF assms(3)])+
  moreover have "n div 4096 = x"
    using split_six(1) [OF assms(2), of x] d(1) div_mult2_eq [of n 64 64] by simp
  moreover have "(x * 64 + y) mod 64 = y" by (rule split_six [OF assms(2)])
  ultimately have "encode_point n = [224 + x, 128 + y, 128 + z]" by (simp add: encode_point_def)
  moreover have "n = x * 4096 + y * 64 + z" by (simp add: n algebra_simps)
  ultimately show ?thesis by simp
qed

lemma encode_point_four:
  assumes "y < 64" and "z < 64" and "w < 64" and "x = 0 \<longrightarrow> 16 \<le> y"
  shows "encode_point (x * 262144 + y * 4096 + z * 64 + w) = [240 + x, 128 + y, 128 + z, 128 + w]"
proof -
  obtain n where n: "n = ((x * 64 + y) * 64 + z) * 64 + w" by blast
  have "65536 \<le> n" using assms n by (cases "x = 0") simp_all
  moreover have d: "n div 64 = (x * 64 + y) * 64 + z" "n mod 64 = w"
    unfolding n by (rule split_six [OF assms(3)])+
  moreover have e: "n div 4096 = x * 64 + y"
    using split_six(1) [OF assms(2), of "x * 64 + y"] d(1) div_mult2_eq [of n 64 64] by simp
  moreover have "n div 262144 = x"
    using split_six(1) [OF assms(1), of x] e div_mult2_eq [of n 4096 64] by simp
  moreover have "((x * 64 + y) * 64 + z) mod 64 = z" "(x * 64 + y) mod 64 = y"
    by (rule split_six [OF assms(2)], rule split_six [OF assms(1)])
  ultimately have "encode_point n = [240 + x, 128 + y, 128 + z, 128 + w]" by (simp add: encode_point_def)
  then show ?thesis by (simp add: n algebra_simps)
qed

lemma continuation_from: "continuation c \<Longrightarrow> \<exists>y < 64. c = 128 + y"
  unfolding continuation_def by (rule exI [of _ "c - 128"]) auto

lemma encode_decode_units: "decode_units bs = Some cs \<Longrightarrow> concat (map encode_point cs) = bs"
proof (induction bs arbitrary: cs rule: decode_units.induct)
  case (2 b bs)
  consider (one) "b < 128" | (two) "194 \<le> b" "b < 224" | (three) "224 \<le> b" "b < 240" | (four) "240 \<le> b" "b < 245"
    using "2.prems" by (fastforce simp: decode_units.simps(2))
  then show ?case
  proof cases
    case one
    with "2.prems" obtain ds where "decode_units bs = Some ds" "cs = b # ds"
      by (auto simp: decode_units.simps(2))
    with "2.IH"(1) one show ?thesis by (simp add: encode_point_def)
  next
    case two
    with "2.prems" obtain c rest ds where
      s: "bs = c # rest" "continuation c" "decode_units rest = Some ds" "cs = ((b - 192) * 64 + (c - 128)) # ds"
      by (auto simp: decode_units.simps(2) split: list.splits if_splits)
    obtain y where y: "c = 128 + y" "y < 64" using continuation_from [OF s(2)] by blast
    obtain x where x: "b = 194 + x" using two(1) le_Suc_ex by blast
    have "encode_point ((b - 192) * 64 + (c - 128)) = [b, c]"
      using two(2) x y encode_point_two [of "2 + x" y] by simp
    moreover have "concat (map encode_point ds) = rest" using "2.IH"(2) s two by auto
    ultimately show ?thesis using s by simp
  next
    case three
    with "2.prems" obtain c d rest ds where
      s: "bs = c # d # rest" "continuation c" "continuation d" "b = 224 \<longrightarrow> 160 \<le> c"
        "decode_units rest = Some ds" "cs = ((b - 224) * 4096 + (c - 128) * 64 + (d - 128)) # ds"
      by (auto simp: decode_units.simps(2) split: list.splits if_splits)
    obtain y where y: "c = 128 + y" "y < 64" using continuation_from [OF s(2)] by blast
    obtain z where z: "d = 128 + z" "z < 64" using continuation_from [OF s(3)] by blast
    obtain x where x: "b = 224 + x" using three(1) le_Suc_ex by blast
    have "encode_point ((b - 224) * 4096 + (c - 128) * 64 + (d - 128)) = [b, c, d]"
      using three(2) s(4) x y z encode_point_three [of x y z] by simp
    moreover have "concat (map encode_point ds) = rest"
      using "2.IH"(3) three s "2.prems" by (auto simp: decode_units.simps(2) split: if_splits)
    ultimately show ?thesis using s by simp
  next
    case four
    with "2.prems" obtain c d e rest ds where
      s: "bs = c # d # e # rest" "continuation c" "continuation d" "continuation e" "b = 240 \<longrightarrow> 144 \<le> c"
        "decode_units rest = Some ds"
        "cs = ((b - 240) * 262144 + (c - 128) * 4096 + (d - 128) * 64 + (e - 128)) # ds"
      by (auto simp: decode_units.simps(2) split: list.splits if_splits)
    obtain y where y: "c = 128 + y" "y < 64" using continuation_from [OF s(2)] by blast
    obtain z where z: "d = 128 + z" "z < 64" using continuation_from [OF s(3)] by blast
    obtain w where w: "e = 128 + w" "w < 64" using continuation_from [OF s(4)] by blast
    obtain x where x: "b = 240 + x" using four(1) le_Suc_ex by blast
    have "encode_point ((b - 240) * 262144 + (c - 128) * 4096 + (d - 128) * 64 + (e - 128)) = [b, c, d, e]"
      using s(5) x y z w encode_point_four [of y z w x] by simp
    moreover have "concat (map encode_point ds) = rest"
      using "2.IH"(4) four s "2.prems" by (auto simp: decode_units.simps(2) split: if_splits)
    ultimately show ?thesis using s by simp
  qed
qed simp

lemma encode_decode: "utf8_decode bs = Some cs \<Longrightarrow> encode_text cs = bs"
  unfolding utf8_decode_def encode_text_def using encode_decode_units bytes_of_units by metis

lemma utf8_encode_inj: "utf8_encode s = utf8_encode t \<Longrightarrow> s = t"
  by (metis utf8_roundtrip code_points_inj option.inject)

text \<open>The newline translation of text-mode reads.\<close>

fun universal_newlines :: "nat list \<Rightarrow> nat list" where
  "universal_newlines [] = []"
| "universal_newlines [c] = [if c = 13 then 10 else c]"
| "universal_newlines (c # d # cs) =
     (if c = 13 then 10 # universal_newlines (if d = 10 then cs else d # cs)
      else c # universal_newlines (d # cs))"

lemma newlines_id: "13 \<notin> set cs \<Longrightarrow> universal_newlines cs = cs"
  by (induction cs rule: universal_newlines.induct) auto

lemma newlines_no_return: "13 \<notin> set (universal_newlines cs)"
  by (induction cs rule: universal_newlines.induct) auto

section \<open>The tree\<close>

datatype entry = Dir | File bool bytes | Link "string list"

type_synonym path = "string list"
type_synonym fs = "path \<Rightarrow> entry option"

text \<open>
  Following the components of a path; a link restarts at its target, and a path with more links than
  the system allows (a loop) is left as it is.
\<close>

function walk :: "nat \<Rightarrow> fs \<Rightarrow> path \<Rightarrow> path \<Rightarrow> path" where
  "walk n fs base [] = base"
| "walk n fs base (p # ps) =
     (case fs (base @ [p]) of
        Some (Link t) \<Rightarrow> (case n of 0 \<Rightarrow> base @ p # ps | Suc m \<Rightarrow> walk m fs [] (t @ ps))
      | _ \<Rightarrow> walk n fs (base @ [p]) ps)"
  by pat_completeness auto
termination
  by (relation "measures [\<lambda>(n, fs, base, ps). n, \<lambda>(n, fs, base, ps). length ps]") auto

definition resolve :: "fs \<Rightarrow> path \<Rightarrow> path" where
  "resolve fs p = walk 40 fs [] p"

definition target_entry :: "fs \<Rightarrow> path \<Rightarrow> entry option" where
  "target_entry fs p = (case fs (resolve fs p) of Some (Link _) \<Rightarrow> None | e \<Rightarrow> e)"

text \<open>The entry itself, the last component not followed (\<open>lstat\<close>).\<close>

definition own_entry :: "fs \<Rightarrow> path \<Rightarrow> entry option" where
  "own_entry fs p = (if p = [] then fs [] else fs (resolve fs (butlast p) @ [last p]))"

definition path_exists :: "fs \<Rightarrow> path \<Rightarrow> bool" where
  "path_exists fs p \<longleftrightarrow> target_entry fs p \<noteq> None"

definition is_symlink :: "fs \<Rightarrow> path \<Rightarrow> bool" where
  "is_symlink fs p \<longleftrightarrow> (case own_entry fs p of Some (Link _) \<Rightarrow> True | _ \<Rightarrow> False)"

definition is_file :: "fs \<Rightarrow> path \<Rightarrow> bool" where
  "is_file fs p \<longleftrightarrow> (case target_entry fs p of Some (File _ _) \<Rightarrow> True | _ \<Rightarrow> False)"

definition is_dir :: "fs \<Rightarrow> path \<Rightarrow> bool" where
  "is_dir fs p \<longleftrightarrow> target_entry fs p = Some Dir"

definition file_size :: "fs \<Rightarrow> path \<Rightarrow> nat option" where
  "file_size fs p = (case target_entry fs p of Some (File _ b) \<Rightarrow> Some (length b) | _ \<Rightarrow> None)"

text \<open>\<open>None\<close> is the \<open>OSError\<close>.\<close>

definition read_bytes :: "fs \<Rightarrow> path \<Rightarrow> bytes option" where
  "read_bytes fs p = (case target_entry fs p of Some (File True b) \<Rightarrow> Some b | _ \<Rightarrow> None)"

text \<open>\<open>read_text(encoding="utf-8")\<close>; \<open>None\<close> is the \<open>OSError\<close> or the \<open>UnicodeDecodeError\<close>.\<close>

definition read_text :: "fs \<Rightarrow> path \<Rightarrow> nat list option" where
  "read_text fs p = Option.bind (read_bytes fs p) (\<lambda>b. map_option universal_newlines (utf8_decode b))"

definition sane_tree :: "fs \<Rightarrow> bool" where
  "sane_tree fs \<longleftrightarrow> fs [] = Some Dir \<and> (\<forall>p x. fs (p @ [x]) \<noteq> None \<longrightarrow> fs p = Some Dir)"

text \<open>A path none of whose components is a link, from a given base on.\<close>

fun link_free :: "fs \<Rightarrow> path \<Rightarrow> path \<Rightarrow> bool" where
  "link_free fs base [] \<longleftrightarrow> True"
| "link_free fs base (p # ps) \<longleftrightarrow>
     (case fs (base @ [p]) of Some (Link _) \<Rightarrow> False | _ \<Rightarrow> True) \<and> link_free fs (base @ [p]) ps"

lemma walk_link_free: "link_free fs base ps \<Longrightarrow> walk n fs base ps = base @ ps"
  by (induction ps arbitrary: base) (auto split: option.splits entry.splits)

lemma link_free_append: "link_free fs base (ps @ qs) \<longleftrightarrow> link_free fs base ps \<and> link_free fs (base @ ps) qs"
  by (induction ps arbitrary: base) auto

lemma resolve_link_free: "link_free fs [] p \<Longrightarrow> resolve fs p = p"
  by (simp add: resolve_def walk_link_free)

lemma own_entry_snoc: "link_free fs [] p \<Longrightarrow> own_entry fs (p @ [x]) = fs (p @ [x])"
  by (simp add: own_entry_def resolve_link_free)

lemma target_entry_link_free: "link_free fs [] p \<Longrightarrow> target_entry fs p = (case fs p of Some (Link _) \<Rightarrow> None | e \<Rightarrow> e)"
  by (simp add: target_entry_def resolve_link_free)

lemma link_free_last: "link_free fs [] (p @ [x]) \<Longrightarrow> fs (p @ [x]) \<noteq> Some (Link t)"
  by (auto simp: link_free_append)

lemma target_entry_plain: "link_free fs [] p \<Longrightarrow> p \<noteq> [] \<Longrightarrow> target_entry fs p = fs p"
  using link_free_last [of fs "butlast p" "last p"]
  by (auto simp: target_entry_link_free split: option.splits entry.splits)

text \<open>Adding or changing a file does not put a link anywhere.\<close>

lemma link_free_update: "link_free fs base ps \<Longrightarrow> link_free (fs(q \<mapsto> File r b)) base ps"
  by (induction ps arbitrary: base) (auto split: option.splits entry.splits)

lemma link_free_delete: "link_free fs base ps \<Longrightarrow> link_free (fs(q := None)) base ps"
  by (induction ps arbitrary: base) (auto split: option.splits entry.splits)

end
