(* ===== verification/Mutation.thy ===== *)
theory Mutation
  imports Filesystem
begin

text \<open>
  The governed mutation of one workspace file: \<open>mutation/models.py\<close>, \<open>policy.py\<close>,
  \<open>authorization.py\<close>, \<open>errors.py\<close>, \<open>events.py\<close> and \<open>runtime.py\<close>.

  The state is the tree, the events published and the number of identifiers drawn so far. What the
  code takes from outside is one record of parameters: the hash of bytes and of the canonical
  proposal payload, the sensitivity policy's verdicts, the identity of the workspace root, the name
  \<open>mkstemp\<close> picks and the identifiers \<open>uuid4\<close> draws. A second record says which system calls fail.
  Nothing else writes to the tree while a mutation runs.
\<close>

section \<open>Data\<close>

datatype mutation_operation = CREATE_FILE | MODIFY_FILE | OTHER_OPERATION string

datatype mutation_risk = RISK_LOW | RISK_MEDIUM | RISK_HIGH

datatype authorization_state = AUTHORIZED | RESERVED | CONSUMED | AUTH_REJECTED | EXPIRED

datatype mutation_result = MUT_COMPLETED | MUT_REJECTED | MUT_FAILED

record mutation_precondition =
  pre_expect_exists :: bool
  pre_fingerprint :: "string option"

definition make_precondition :: "mutation_precondition \<Rightarrow> py_error + mutation_precondition" where
  "make_precondition c =
     guarded
       [(pre_expect_exists c \<and> (pre_fingerprint c = None \<or> pre_fingerprint c = Some []),
           ValueError ''existing target requires expected_fingerprint''),
        (\<not> pre_expect_exists c \<and> pre_fingerprint c \<noteq> None,
           ValueError ''absent target cannot declare expected_fingerprint'')] c"

record mutation_postcondition =
  post_expect_exists :: bool
  post_fingerprint :: "string option"

record change_proposal =
  proposal_id :: string
  cp_run_id :: string
  decision_id :: string
  target_path :: string
  operation :: mutation_operation
  content :: string
  precondition :: mutation_precondition
  reason :: string
  provenance_ids :: "string list"
  risk :: mutation_risk
  cp_metadata :: "(string \<times> string) list"
  expected_postcondition :: mutation_postcondition
  context_fingerprint :: string
  repository_snapshot_fingerprint :: string
  cp_workspace_fingerprint :: string
  contract_version :: string

definition make_proposal :: "change_proposal \<Rightarrow> py_error + change_proposal" where
  "make_proposal p =
     guarded
       [(blank (proposal_id p) \<or> blank (cp_run_id p) \<or> blank (decision_id p),
           ValueError ''proposal_id, run_id, and decision_id cannot be empty''),
        (blank (target_path p), ValueError ''target_path cannot be empty''),
        (blank (reason p), ValueError ''reason cannot be empty''),
        (list_ex blank (provenance_ids p), ValueError ''provenance_ids cannot contain empty values''),
        (\<not> distinct (provenance_ids p), ValueError ''provenance_ids must be unique''),
        (contract_version p \<noteq> ''1.0'', ValueError ''unsupported mutation contract version'')] p"

text \<open>The payload of \<open>ChangeProposal.digest\<close>: every field, the content by its fingerprint.\<close>

record digest_payload =
  dp_proposal_id :: string
  dp_run_id :: string
  dp_decision_id :: string
  dp_target_path :: string
  dp_operation :: mutation_operation
  dp_content_fingerprint :: string
  dp_precondition :: mutation_precondition
  dp_reason :: string
  dp_provenance_ids :: "string list"
  dp_risk :: mutation_risk
  dp_metadata :: "(string \<times> string) list"
  dp_postcondition :: mutation_postcondition
  dp_context_fingerprint :: string
  dp_repository_fingerprint :: string
  dp_workspace_fingerprint :: string
  dp_contract_version :: string

record mutation_authorization =
  authorization_id :: string
  au_proposal_id :: string
  au_proposal_digest :: string
  au_target_path :: string
  au_operation :: mutation_operation
  au_workspace_fingerprint :: string
  au_repository_fingerprint :: string
  au_policy_version :: string
  au_state :: authorization_state
  au_metadata :: "(string \<times> string) list"

definition make_authorization :: "mutation_authorization \<Rightarrow> py_error + mutation_authorization" where
  "make_authorization a =
     guarded [(blank (au_proposal_id a) \<or> blank (au_proposal_digest a),
       ValueError ''proposal_id and proposal_digest cannot be empty'')] a"

record mutation_receipt =
  mutation_id :: string
  re_proposal_id :: string
  re_run_id :: string
  re_authorization_id :: "string option"
  re_target_path :: string
  re_operation :: mutation_operation
  result :: mutation_result
  re_pre_fingerprint :: "string option"
  re_post_fingerprint :: "string option"
  bytes_before :: nat
  bytes_after :: nat
  bytes_changed :: nat
  authorization_state :: "authorization_state option"
  re_policy_version :: string
  failure_code :: "string option"
  failure_reason :: "string option"
  verification_passed :: bool
  rollback_performed :: bool

definition receipt_errors :: "mutation_receipt \<Rightarrow> (bool \<times> py_error) list" where
  "receipt_errors r =
    [(result r = MUT_COMPLETED \<and> \<not> verification_passed r,
        ValueError ''completed receipt requires successful verification''),
     (case failure_reason r of None \<Rightarrow> False | Some m \<Rightarrow> length m > 512,
        ValueError ''failure_reason must be sanitized and bounded'')]"

record validated_proposal =
  proposal :: change_proposal
  target_fingerprint :: "string option"
  target_size :: nat
  target_exists :: bool
  workspace_fingerprint :: string

datatype violation_code =
    MALFORMED_PROPOSAL | UNSUPPORTED_OPERATION | ABSOLUTE_PATH | PATH_TRAVERSAL | PATH_ESCAPE | SYMLINK_PATH
  | SENSITIVE_PATH | SENSITIVE_CONTENT | PARENT_MISSING | TARGET_NOT_REGULAR_FILE | CONTENT_TOO_LARGE
  | TARGET_TOO_LARGE | CREATE_TARGET_EXISTS | MODIFY_TARGET_MISSING | PRECONDITION_STALE
  | PRECONDITION_MISMATCH | AUTHORIZATION_REJECTED | AUTHORIZATION_MISMATCH | AUTHORIZATION_REUSED | POSTCONDITION_MISMATCH
  | WRITE_FAILED

fun code_value :: "violation_code \<Rightarrow> string" where
  "code_value MALFORMED_PROPOSAL = ''malformed_proposal''"
| "code_value UNSUPPORTED_OPERATION = ''unsupported_operation''"
| "code_value ABSOLUTE_PATH = ''absolute_path''"
| "code_value PATH_TRAVERSAL = ''path_traversal''"
| "code_value PATH_ESCAPE = ''path_escape''"
| "code_value SYMLINK_PATH = ''symlink_path''"
| "code_value SENSITIVE_PATH = ''sensitive_path''"
| "code_value SENSITIVE_CONTENT = ''sensitive_content''"
| "code_value PARENT_MISSING = ''parent_missing''"
| "code_value TARGET_NOT_REGULAR_FILE = ''target_not_regular_file''"
| "code_value CONTENT_TOO_LARGE = ''content_too_large''"
| "code_value TARGET_TOO_LARGE = ''target_too_large''"
| "code_value CREATE_TARGET_EXISTS = ''create_target_exists''"
| "code_value MODIFY_TARGET_MISSING = ''modify_target_missing''"
| "code_value PRECONDITION_STALE = ''precondition_stale''"
| "code_value PRECONDITION_MISMATCH = ''precondition_mismatch''"
| "code_value AUTHORIZATION_REJECTED = ''authorization_rejected''"
| "code_value AUTHORIZATION_MISMATCH = ''authorization_mismatch''"
| "code_value AUTHORIZATION_REUSED = ''authorization_reused''"
| "code_value POSTCONDITION_MISMATCH = ''postcondition_mismatch''"
| "code_value WRITE_FAILED = ''write_failed''"

record violation =
  code :: violation_code
  stage :: string
  message :: string
  vi_target_path :: string
  vi_policy_version :: string

datatype mutation_exn =
    MutationPolicyError violation | MutationAuthorizationError violation | OSError
  | InvalidRecord py_error | UnicodeDecodeError

datatype mutation_event =
    MutationProposed string string string mutation_operation string
  | MutationAuthorized string string string string
  | MutationStarted string string string string mutation_operation
  | MutationRejected string string violation_code string string
  | MutationCompleted string string string string mutation_operation mutation_result
  | MutationFailed string string string violation_code string

section \<open>What comes from outside\<close>

record mutation_env =
  sha256 :: "bytes \<Rightarrow> string"
  hash_payload :: "digest_payload \<Rightarrow> string"
  excluded_path :: "path \<Rightarrow> bool"
  redaction_count :: "string \<Rightarrow> nat"
  root_identity :: "fs \<Rightarrow> path \<Rightarrow> string"
  temp_name :: "fs \<Rightarrow> path \<Rightarrow> string"
  uuid :: "nat \<Rightarrow> string"

text \<open>The system calls of the write and of the restore that fail.\<close>

record io_faults =
  fault_create :: bool
  fault_write :: bool
  fault_replace :: bool

record mutation_faults =
  write_faults :: io_faults
  fault_reread :: bool
  fault_restore_read :: bool
  fault_unlink :: bool
  restore_faults :: io_faults

record policy_settings =
  max_content_bytes :: nat
  max_target_bytes :: nat
  policy_version :: string

definition make_settings :: "policy_settings \<Rightarrow> py_error + policy_settings" where
  "make_settings s =
     guarded
       [(max_content_bytes s = 0 \<or> max_target_bytes s = 0, ValueError ''mutation content limits must be positive''),
        (blank (policy_version s), ValueError ''policy_version cannot be empty'')] s"

record mutation_state =
  tree :: fs
  m_bus :: "mutation_event list"
  next_id :: nat

definition content_fingerprint :: "mutation_env \<Rightarrow> change_proposal \<Rightarrow> string" where
  "content_fingerprint env p = sha256 env (utf8_encode (content p))"

definition content_bytes :: "change_proposal \<Rightarrow> nat" where
  "content_bytes p = length (utf8_encode (content p))"

definition proposal_digest :: "mutation_env \<Rightarrow> change_proposal \<Rightarrow> string" where
  "proposal_digest env p = hash_payload env
     \<lparr>dp_proposal_id = proposal_id p, dp_run_id = cp_run_id p, dp_decision_id = decision_id p,
      dp_target_path = target_path p, dp_operation = operation p,
      dp_content_fingerprint = content_fingerprint env p, dp_precondition = precondition p,
      dp_reason = reason p, dp_provenance_ids = provenance_ids p, dp_risk = risk p,
      dp_metadata = cp_metadata p, dp_postcondition = expected_postcondition p,
      dp_context_fingerprint = context_fingerprint p,
      dp_repository_fingerprint = repository_snapshot_fingerprint p,
      dp_workspace_fingerprint = cp_workspace_fingerprint p, dp_contract_version = contract_version p\<rparr>"

section \<open>Policy\<close>

definition reject :: "policy_settings \<Rightarrow> change_proposal \<Rightarrow> violation_code \<Rightarrow> string \<Rightarrow> mutation_exn" where
  "reject cfg p c msg = MutationPolicyError
     \<lparr>code = c, stage = ''mutation_policy'', message = msg, vi_target_path = target_path p,
      vi_policy_version = policy_version cfg\<rparr>"

text \<open>The loop over the parents of the target.\<close>

fun check_parents :: "fs \<Rightarrow> path \<Rightarrow> path \<Rightarrow> (violation_code \<times> string) option" where
  "check_parents fs current [] = None"
| "check_parents fs current (c # cs) =
     (let next = current @ [c] in
      if \<not> path_exists fs next then Some (PARENT_MISSING, ''target parent directory does not exist'')
      else if is_symlink fs next then Some (SYMLINK_PATH, ''symlink parent is forbidden'')
      else if own_entry fs next \<noteq> Some Dir then Some (PATH_ESCAPE, ''target parent is not a directory'')
      else check_parents fs next cs)"

definition resolve_safe_target :: "fs \<Rightarrow> path \<Rightarrow> path \<Rightarrow> (violation_code \<times> string) option" where
  "resolve_safe_target fs root parts =
     (case check_parents fs root (butlast parts) of
        Some v \<Rightarrow> Some v
      | None \<Rightarrow>
          let target = root @ parts in
          if is_symlink fs target then Some (SYMLINK_PATH, ''symlink target is forbidden'')
          else if take (length root) (resolve fs (butlast target)) \<noteq> root
          then Some (PATH_ESCAPE, ''target escapes workspace root'')
          else None)"

text \<open>The state of an existing target: its size and the fingerprint of its text.\<close>

definition inspect_target :: "mutation_env \<Rightarrow> policy_settings \<Rightarrow> change_proposal \<Rightarrow> fs \<Rightarrow> path
    \<Rightarrow> mutation_exn + nat \<times> string" where
  "inspect_target env cfg p fs target =
     (case own_entry fs target of
        Some (File _ _) \<Rightarrow>
          (case read_bytes fs target of
             None \<Rightarrow> Inl OSError
           | Some data \<Rightarrow>
               if length data > max_target_bytes cfg
               then Inl (reject cfg p TARGET_TOO_LARGE ''target file exceeds mutation size limit'')
               else if 0 \<in> set data
               then Inl (reject cfg p TARGET_NOT_REGULAR_FILE ''binary target files are not supported'')
               else (case utf8_decode data of
                       None \<Rightarrow> Inl (reject cfg p TARGET_NOT_REGULAR_FILE ''non-UTF-8 target files are not supported'')
                     | Some text \<Rightarrow> Inr (length data, sha256 env (encode_text text))))
      | _ \<Rightarrow> Inl (reject cfg p TARGET_NOT_REGULAR_FILE ''target is not a regular file''))"

definition operation_error :: "change_proposal \<Rightarrow> bool \<Rightarrow> string option \<Rightarrow> (bool \<times> violation_code \<times> string) list" where
  "operation_error p exists fp =
     (case operation p of
        CREATE_FILE \<Rightarrow>
          [(exists, CREATE_TARGET_EXISTS, ''create proposal target already exists''),
           (pre_expect_exists (precondition p), PRECONDITION_MISMATCH, ''create proposal requires absent-target precondition'')]
      | MODIFY_FILE \<Rightarrow>
          [(\<not> exists, MODIFY_TARGET_MISSING, ''modify proposal target is missing''),
           (\<not> pre_expect_exists (precondition p), PRECONDITION_MISMATCH, ''modify proposal requires existing-target precondition''),
           (fp \<noteq> pre_fingerprint (precondition p), PRECONDITION_STALE, ''target fingerprint does not match proposal precondition'')]
      | OTHER_OPERATION _ \<Rightarrow> [(True, UNSUPPORTED_OPERATION, ''operation is not supported'')])"

definition root_fingerprint :: "mutation_env \<Rightarrow> fs \<Rightarrow> path \<Rightarrow> string" where
  "root_fingerprint env fs root = sha256 env (utf8_encode (root_identity env fs root))"

text \<open>A NUL anywhere in the raw path, or a backslash (character 92) in a component.\<close>

definition malformed_path :: "string \<Rightarrow> bool" where
  "malformed_path raw \<longleftrightarrow> CHR 0x00 \<in> set raw \<or> list_ex (\<lambda>part. CHR 0x5C \<in> set part) (path_parts raw)"

text \<open>\<open>MutationPolicyValidator.validate\<close>; the root is resolved and must exist.\<close>

definition validate_policy :: "mutation_env \<Rightarrow> policy_settings \<Rightarrow> path \<Rightarrow> fs \<Rightarrow> change_proposal
    \<Rightarrow> mutation_exn + validated_proposal" where
  "validate_policy env cfg workspace fs p =
     (if \<not> path_exists fs workspace then Inl OSError
      else
      let root = resolve fs workspace; parts = path_parts (target_path p); target = root @ parts
      in if is_absolute (target_path p) then Inl (reject cfg p ABSOLUTE_PATH ''absolute target paths are forbidden'')
      else if parts = [] \<or> ''..'' \<in> set parts
      then Inl (reject cfg p PATH_TRAVERSAL ''target path traversal is forbidden'')
      else if malformed_path (target_path p) then Inl (reject cfg p MALFORMED_PROPOSAL ''target path is malformed'')
      else case resolve_safe_target fs root parts of
        Some (c, msg) \<Rightarrow> Inl (reject cfg p c msg)
      | None \<Rightarrow>
          if excluded_path env parts
          then Inl (reject cfg p SENSITIVE_PATH ''target is protected by sensitivity policy'')
          else if content_bytes p > max_content_bytes cfg
          then Inl (reject cfg p CONTENT_TOO_LARGE ''proposed content exceeds mutation size limit'')
          else if redaction_count env (content p) \<noteq> 0
          then Inl (reject cfg p SENSITIVE_CONTENT ''proposed content contains sensitive material'')
          else
            let exists = path_exists fs target
            in bind_res (if exists then map_sum (\<lambda>e. e) Some (inspect_target env cfg p fs target) else Inr None)
                 (\<lambda>info. case first_error (operation_error p exists (map_option snd info)) of
                    Some (c, msg) \<Rightarrow> Inl (reject cfg p c msg)
                  | None \<Rightarrow> Inr \<lparr>proposal = p, target_fingerprint = map_option snd info,
                      target_size = (case info of None \<Rightarrow> 0 | Some (n, _) \<Rightarrow> n), target_exists = exists,
                      workspace_fingerprint = root_fingerprint env fs root\<rparr>))"

section \<open>Authorization\<close>

definition authorize_proposal :: "mutation_env \<Rightarrow> policy_settings \<Rightarrow> string \<Rightarrow> validated_proposal
    \<Rightarrow> py_error + mutation_authorization" where
  "authorize_proposal env cfg new v =
     make_authorization
       \<lparr>authorization_id = new, au_proposal_id = proposal_id (proposal v),
        au_proposal_digest = proposal_digest env (proposal v), au_target_path = target_path (proposal v),
        au_operation = operation (proposal v), au_workspace_fingerprint = workspace_fingerprint v,
        au_repository_fingerprint = repository_snapshot_fingerprint (proposal v),
        au_policy_version = policy_version cfg, au_state = AUTHORIZED,
        au_metadata = [(''contract_version'', contract_version (proposal v))]\<rparr>"

definition auth_violation :: "policy_settings \<Rightarrow> change_proposal \<Rightarrow> violation_code \<Rightarrow> string \<Rightarrow> mutation_exn" where
  "auth_violation cfg p c msg = MutationAuthorizationError
     \<lparr>code = c, stage = ''mutation_authorization'', message = msg, vi_target_path = target_path p,
      vi_policy_version = policy_version cfg\<rparr>"

definition consume_authorization :: "mutation_env \<Rightarrow> policy_settings \<Rightarrow> mutation_authorization \<Rightarrow> validated_proposal
    \<Rightarrow> mutation_exn + mutation_authorization" where
  "consume_authorization env cfg a v =
     (let p = proposal v
      in if au_state a \<noteq> AUTHORIZED
         then Inl (auth_violation cfg p AUTHORIZATION_REUSED ''authorization is not available for one-time consumption'')
         else if au_proposal_id a \<noteq> proposal_id p \<or> au_proposal_digest a \<noteq> proposal_digest env p
           \<or> au_target_path a \<noteq> target_path p \<or> au_operation a \<noteq> operation p
           \<or> au_workspace_fingerprint a \<noteq> workspace_fingerprint v
           \<or> au_repository_fingerprint a \<noteq> repository_snapshot_fingerprint p
           \<or> au_policy_version a \<noteq> policy_version cfg
         then Inl (auth_violation cfg p AUTHORIZATION_MISMATCH ''authorization does not match the validated proposal state'')
         else Inr (a\<lparr>au_state := CONSUMED\<rparr>))"

definition reject_authorization :: "mutation_authorization \<Rightarrow> mutation_authorization" where
  "reject_authorization a = a\<lparr>au_state := AUTH_REJECTED\<rparr>"

section \<open>Runtime\<close>

definition publish_mutation :: "mutation_state \<Rightarrow> mutation_event \<Rightarrow> mutation_state" where
  "publish_mutation s e = s\<lparr>m_bus := m_bus s @ [e]\<rparr>"

definition new_uuid :: "mutation_env \<Rightarrow> mutation_state \<Rightarrow> string \<times> mutation_state" where
  "new_uuid env s = (uuid env (next_id s), s\<lparr>next_id := next_id s + 1\<rparr>)"

definition validate_mutation :: "mutation_env \<Rightarrow> policy_settings \<Rightarrow> path \<Rightarrow> mutation_state \<Rightarrow> change_proposal
    \<Rightarrow> mutation_state \<times> (mutation_exn + validated_proposal)" where
  "validate_mutation env cfg root s p =
     (let s1 = publish_mutation s (MutationProposed (proposal_id p) (cp_run_id p) (target_path p) (operation p) (proposal_digest env p))
      in (s1, validate_policy env cfg root (tree s1) p))"

definition authorize_mutation :: "mutation_env \<Rightarrow> policy_settings \<Rightarrow> mutation_state \<Rightarrow> validated_proposal
    \<Rightarrow> mutation_state \<times> (mutation_exn + mutation_authorization)" where
  "authorize_mutation env cfg s v =
     (let (new, s1) = new_uuid env s
      in case authorize_proposal env cfg new v of
           Inl e \<Rightarrow> (s1, Inl (InvalidRecord e))
         | Inr a \<Rightarrow> (publish_mutation s1 (MutationAuthorized (proposal_id (proposal v)) (cp_run_id (proposal v))
             (authorization_id a) (proposal_digest env (proposal v))), Inr a))"

definition rejected_event :: "change_proposal \<Rightarrow> violation \<Rightarrow> mutation_event" where
  "rejected_event p v = MutationRejected (proposal_id p) (cp_run_id p) (code v) (stage v) (vi_target_path v)"

definition rejected_receipt :: "mutation_env \<Rightarrow> mutation_state \<Rightarrow> change_proposal \<Rightarrow> violation \<Rightarrow> mutation_authorization option
    \<Rightarrow> mutation_state \<times> mutation_receipt" where
  "rejected_receipt env s p v a =
     (let (new, s1) = new_uuid env s
      in (publish_mutation s1 (rejected_event p v),
          \<lparr>mutation_id = new, re_proposal_id = proposal_id p, re_run_id = cp_run_id p,
           re_authorization_id = map_option authorization_id a, re_target_path = target_path p,
           re_operation = operation p, result = MUT_REJECTED, re_pre_fingerprint = None,
           re_post_fingerprint = None, bytes_before = 0, bytes_after = 0, bytes_changed = 0,
           authorization_state = Some (case a of None \<Rightarrow> AUTH_REJECTED | Some x \<Rightarrow> au_state x),
           re_policy_version = vi_policy_version v, failure_code = Some (code_value (code v)),
           failure_reason = Some (message v), verification_passed = False, rollback_performed = False\<rparr>))"

text \<open>
  \<open>_atomic_write\<close>: create the temporary file beside the target, fill it, replace the target; the
  \<open>finally\<close> clause removes the temporary file when it is still there. The flag says that no
  \<open>OSError\<close> was raised.
\<close>

definition atomic_write :: "mutation_env \<Rightarrow> io_faults \<Rightarrow> fs \<Rightarrow> path \<Rightarrow> bytes \<Rightarrow> fs \<times> bool" where
  "atomic_write env fl fs target data =
     (let tmp = butlast target @ [temp_name env fs (butlast target)]
      in if fault_create fl then (fs, False)
         else if fault_write fl then ((fs(tmp \<mapsto> File True []))(tmp := None), False)
         else let fs1 = fs(tmp \<mapsto> File True data)
              in if fault_replace fl then (fs1(tmp := None), False)
                 else ((fs1(target \<mapsto> File True data))(tmp := None), True))"

definition verify_postcondition :: "mutation_env \<Rightarrow> change_proposal \<Rightarrow> string \<Rightarrow> bool" where
  "verify_postcondition env p fp \<longleftrightarrow>
     post_expect_exists (expected_postcondition p)
     \<and> (post_fingerprint (expected_postcondition p) = None \<or> post_fingerprint (expected_postcondition p) = Some fp)
     \<and> fp = content_fingerprint env p"

text \<open>
  \<open>_conditional_restore\<close>: only while the file still reads back, as text, as what was written. The
  left result is a decoding error, which the code does not catch.
\<close>

definition conditional_restore :: "mutation_env \<Rightarrow> mutation_faults \<Rightarrow> fs \<Rightarrow> path \<Rightarrow> change_proposal \<Rightarrow> bytes \<Rightarrow> string
    \<Rightarrow> fs \<times> (mutation_exn + bool)" where
  "conditional_restore env fl fs target p before observed =
     (case if fault_restore_read fl then None else read_bytes fs target of
        None \<Rightarrow> (fs, Inr False)
      | Some data \<Rightarrow>
          (case utf8_decode data of
             None \<Rightarrow> (fs, Inl UnicodeDecodeError)
           | Some text \<Rightarrow>
               if sha256 env (encode_text (universal_newlines text)) \<noteq> observed then (fs, Inr False)
               else if operation p = CREATE_FILE
               then (if fault_unlink fl then (fs, Inr False) else (fs(target := None), Inr True))
               else (case utf8_decode before of
                       None \<Rightarrow> (fs, Inl UnicodeDecodeError)
                     | Some old \<Rightarrow> apsnd Inr (atomic_write env (restore_faults fl) fs target (encode_text old)))))"

definition outcome_receipt :: "string \<Rightarrow> policy_settings \<Rightarrow> change_proposal \<Rightarrow> mutation_authorization \<Rightarrow> string option
    \<Rightarrow> nat \<Rightarrow> mutation_receipt" where
  "outcome_receipt new cfg p a pre before =
     \<lparr>mutation_id = new, re_proposal_id = proposal_id p, re_run_id = cp_run_id p,
      re_authorization_id = Some (authorization_id a), re_target_path = target_path p,
      re_operation = operation p, result = MUT_FAILED, re_pre_fingerprint = pre,
      re_post_fingerprint = None, bytes_before = before, bytes_after = 0, bytes_changed = 0,
      authorization_state = Some (au_state a), re_policy_version = policy_version cfg,
      failure_code = Some (code_value WRITE_FAILED),
      failure_reason = Some ''bounded atomic workspace write failed'', verification_passed = False,
      rollback_performed = False\<rparr>"

definition abs_diff :: "nat \<Rightarrow> nat \<Rightarrow> nat" where
  "abs_diff m n = (if m \<ge> n then m - n else n - m)"

text \<open>The body of \<open>mutate\<close> once the authorization is consumed.\<close>

definition perform :: "mutation_env \<Rightarrow> policy_settings \<Rightarrow> mutation_faults \<Rightarrow> path \<Rightarrow> mutation_state \<Rightarrow> validated_proposal
    \<Rightarrow> mutation_authorization \<Rightarrow> bytes \<Rightarrow> mutation_state \<times> (mutation_exn + mutation_receipt)" where
  "perform env cfg fl target s cur a before =
     (let p = proposal cur;
          (new, s0) = new_uuid env s;
          s1 = publish_mutation s0 (MutationStarted (proposal_id p) (cp_run_id p) (authorization_id a) (target_path p) (operation p));
          base = outcome_receipt new cfg p a (target_fingerprint cur) (length before);
          failed = (\<lambda>st r c. (publish_mutation st (MutationFailed (proposal_id p) (cp_run_id p) (mutation_id r) c ''mutation_execution''), Inr r));
          (fs1, ok) = atomic_write env (write_faults fl) (tree s1) target (utf8_encode (content p))
      in if \<not> ok \<or> fault_reread fl then failed (s1\<lparr>tree := fs1\<rparr>) base WRITE_FAILED
         else case read_bytes fs1 target of
           None \<Rightarrow> failed (s1\<lparr>tree := fs1\<rparr>) base WRITE_FAILED
         | Some after \<Rightarrow>
             (case utf8_decode after of
                None \<Rightarrow> (s1\<lparr>tree := fs1\<rparr>, Inl UnicodeDecodeError)
              | Some text \<Rightarrow>
                  let post = sha256 env (encode_text text);
                      told = base\<lparr>re_post_fingerprint := Some post, bytes_after := length after,
                        bytes_changed := abs_diff (length after) (length before)\<rparr>
                  in if \<not> verify_postcondition env p post
                     then (case conditional_restore env fl fs1 target p before post of
                             (fs2, Inl e) \<Rightarrow> (s1\<lparr>tree := fs2\<rparr>, Inl e)
                           | (fs2, Inr rolled) \<Rightarrow>
                               failed (s1\<lparr>tree := fs2\<rparr>)
                                 (told\<lparr>failure_code := Some (code_value POSTCONDITION_MISMATCH),
                                    failure_reason := Some ''postcondition fingerprint did not match'',
                                    rollback_performed := rolled\<rparr>) POSTCONDITION_MISMATCH)
                     else let r = told\<lparr>result := MUT_COMPLETED, failure_code := None, failure_reason := None,
                                    verification_passed := True\<rparr>
                          in (publish_mutation (s1\<lparr>tree := fs1\<rparr>) (MutationCompleted (proposal_id p) (cp_run_id p)
                                (mutation_id r) (target_path p) (operation p) (result r)), Inr r)))"

text \<open>
  \<open>mutate\<close>: revalidate, consume, perform. A refusal publishes its event and builds a receipt that
  publishes it again.
\<close>

definition mutate :: "mutation_env \<Rightarrow> policy_settings \<Rightarrow> mutation_faults \<Rightarrow> path \<Rightarrow> mutation_state \<Rightarrow> validated_proposal
    \<Rightarrow> mutation_authorization \<Rightarrow> mutation_state \<times> (mutation_exn + mutation_receipt)" where
  "mutate env cfg fl root s v a =
     (let p = proposal v;
          refuse = (\<lambda>vi. apsnd Inr (rejected_receipt env (publish_mutation s (rejected_event p vi)) p vi (Some a)))
      in case bind_res (validate_policy env cfg root (tree s) p)
                (\<lambda>cur. map_sum (\<lambda>e. e) (Pair cur) (consume_authorization env cfg a cur)) of
           Inl (MutationPolicyError vi) \<Rightarrow> refuse vi
         | Inl (MutationAuthorizationError vi) \<Rightarrow> refuse vi
         | Inl e \<Rightarrow> (s, Inl e)
         | Inr (cur, consumed) \<Rightarrow>
             let target = root @ path_parts (target_path p)
             in (case if target_exists cur then read_bytes (tree s) target else Some [] of
                   None \<Rightarrow> (s, Inl OSError)
                 | Some before \<Rightarrow> perform env cfg fl target s cur consumed before))"

text \<open>\<open>execute\<close>: validate, authorize, mutate.\<close>

definition execute_mutation :: "mutation_env \<Rightarrow> policy_settings \<Rightarrow> mutation_faults \<Rightarrow> path \<Rightarrow> mutation_state \<Rightarrow> change_proposal
    \<Rightarrow> mutation_state \<times> (mutation_exn + mutation_receipt)" where
  "execute_mutation env cfg fl root s p =
     (let (s1, v) = validate_mutation env cfg root s p
      in case v of
           Inl (MutationPolicyError vi) \<Rightarrow> apsnd Inr (rejected_receipt env s1 p vi None)
         | Inl e \<Rightarrow> (s1, Inl e)
         | Inr v \<Rightarrow>
             (let (s2, a) = authorize_mutation env cfg s1 v
              in case a of Inl e \<Rightarrow> (s2, Inl e) | Inr a \<Rightarrow> mutate env cfg fl root s2 v a))"

section \<open>What a validated target is\<close>

text \<open>The workspace root the runtime holds: a directory no link leads to.\<close>

definition root_ok :: "fs \<Rightarrow> path \<Rightarrow> bool" where
  "root_ok fs root \<longleftrightarrow> link_free fs [] root \<and> fs root = Some Dir"

lemma root_ok_resolve: "root_ok fs root \<Longrightarrow> resolve fs root = root \<and> path_exists fs root"
  by (auto simp: root_ok_def resolve_link_free path_exists_def target_entry_link_free)

lemma check_parents_None:
  "check_parents fs cur ps = None \<Longrightarrow> link_free fs [] cur \<Longrightarrow> link_free fs cur ps"
proof (induction ps arbitrary: cur)
  case (Cons c cs)
  from Cons.prems have e: "own_entry fs (cur @ [c]) = Some Dir" and r: "check_parents fs (cur @ [c]) cs = None"
    by (auto simp: Let_def split: if_splits)
  from e have d: "fs (cur @ [c]) = Some Dir" using own_entry_snoc [OF Cons.prems(2)] by simp
  then have "link_free fs [] (cur @ [c])" using Cons.prems(2) by (simp add: link_free_append)
  from Cons.IH [OF r this] d show ?case by simp
qed simp

lemma safe_target_link_free:
  assumes "resolve_safe_target fs root parts = None" and "link_free fs [] root" and "parts \<noteq> []"
  shows "link_free fs [] (root @ parts)"
proof -
  from assms(1) have p: "check_parents fs root (butlast parts) = None" and s: "\<not> is_symlink fs (root @ parts)"
    by (auto simp: resolve_safe_target_def Let_def split: option.splits if_splits)
  have lf: "link_free fs [] (root @ butlast parts)"
    using check_parents_None [OF p assms(2)] assms(2) by (simp add: link_free_append)
  have e: "root @ parts = (root @ butlast parts) @ [last parts]" using assms(3) by simp
  have "own_entry fs (root @ parts) = fs (root @ parts)"
    unfolding e by (rule own_entry_snoc [OF lf])
  with s have "\<forall>t. fs (root @ parts) \<noteq> Some (Link t)" by (auto simp: is_symlink_def)
  then have "\<forall>t. fs ((root @ butlast parts) @ [last parts]) \<noteq> Some (Link t)" by (simp only: e [symmetric] simp_thms)
  then have "link_free fs [] ((root @ butlast parts) @ [last parts])"
    using lf unfolding link_free_append [of _ _ _ "[last parts]"] by (auto split: option.splits entry.splits)
  then show ?thesis by (simp only: e [symmetric])
qed

text \<open>A path escape is impossible once the parents are directories and no link was met.\<close>

lemma path_escape_unreachable:
  assumes "check_parents fs root (butlast parts) = None" and "link_free fs [] root"
  shows "take (length root) (resolve fs (butlast (root @ parts))) = root \<or> parts = []"
proof -
  have "link_free fs [] (root @ butlast parts)"
    using check_parents_None [OF assms] assms(2) by (simp add: link_free_append)
  then show ?thesis by (auto simp: butlast_append resolve_link_free)
qed

text \<open>Everything a successful validation establishes about the proposal and its target.\<close>

lemma validate_policy_Inr:
  assumes v: "validate_policy env cfg root fs p = Inr v" and r: "root_ok fs root"
  shows "proposal v = p \<and> link_free fs [] (root @ path_parts (target_path p)) \<and> path_parts (target_path p) \<noteq> [] \<and>
    \<not> is_absolute (target_path p) \<and> ''..'' \<notin> set (path_parts (target_path p)) \<and>
    \<not> malformed_path (target_path p) \<and> \<not> excluded_path env (path_parts (target_path p)) \<and> content_bytes p \<le> max_content_bytes cfg \<and>
    redaction_count env (content p) = 0 \<and> workspace_fingerprint v = root_fingerprint env fs root \<and>
    (case operation p of
       CREATE_FILE \<Rightarrow> \<not> target_exists v \<and> target_fingerprint v = None \<and> fs (root @ path_parts (target_path p)) = None
     | MODIFY_FILE \<Rightarrow> target_exists v \<and> target_fingerprint v = pre_fingerprint (precondition p) \<and>
         (\<exists>data text. fs (root @ path_parts (target_path p)) = Some (File True data) \<and> utf8_decode data = Some text \<and>
            target_fingerprint v = Some (sha256 env data))
     | OTHER_OPERATION _ \<Rightarrow> False)"
proof -
  let ?parts = "path_parts (target_path p)" and ?t = "root @ path_parts (target_path p)"
  note rr = root_ok_resolve [OF r]
  from v rr have a: "\<not> is_absolute (target_path p)" "?parts \<noteq> []" "''..'' \<notin> set ?parts" "\<not> malformed_path (target_path p)"
    "resolve_safe_target fs root ?parts = None" "\<not> excluded_path env ?parts"
    "content_bytes p \<le> max_content_bytes cfg" "redaction_count env (content p) = 0"
    by (auto simp: validate_policy_def Let_def split: if_splits option.splits)
  let ?found = "if path_exists fs ?t then map_sum (\<lambda>e. e) Some (inspect_target env cfg p fs ?t) else Inr None"
  from v rr a obtain info where
    j: "?found = Inr info"
      "(case first_error (operation_error p (path_exists fs ?t) (map_option snd info)) of
         Some (c, msg) \<Rightarrow> Inl (reject cfg p c msg)
       | None \<Rightarrow> Inr \<lparr>proposal = p, target_fingerprint = map_option snd info,
         target_size = (case info of None \<Rightarrow> 0 | Some (n, _) \<Rightarrow> n), target_exists = path_exists fs ?t,
         workspace_fingerprint = root_fingerprint env fs root\<rparr>) = Inr v"
    by (auto simp: validate_policy_def Let_def bind_res_Inr_iff)
  then have
    i: "(if path_exists fs ?t then map_sum (\<lambda>e. e) Some (inspect_target env cfg p fs ?t) else Inr None) = Inr info"
      "first_error (operation_error p (path_exists fs ?t) (map_option snd info)) = None"
      "v = \<lparr>proposal = p, target_fingerprint = map_option snd info,
         target_size = (case info of None \<Rightarrow> 0 | Some (n, _) \<Rightarrow> n), target_exists = path_exists fs ?t,
         workspace_fingerprint = root_fingerprint env fs root\<rparr>"
    by (auto split: option.splits)
  have lf: "link_free fs [] ?t"
    using safe_target_link_free [OF a(5) _ a(2)] r by (simp add: root_ok_def)
  have te: "target_entry fs ?t = fs ?t"
    using target_entry_plain [OF lf] a(2) by simp
  show ?thesis
  proof (cases "path_exists fs ?t")
    case True
    with i(1) obtain n fp where
      ins: "inspect_target env cfg p fs ?t = Inr (n, fp)" "info = Some (n, fp)"
      by (cases "inspect_target env cfg p fs ?t") auto
    then obtain data cs where
      d: "read_bytes fs ?t = Some data" "utf8_decode data = Some cs" "fp = sha256 env (encode_text cs)"
      by (auto simp: inspect_target_def split: option.splits entry.splits if_splits)
    have f: "fs ?t = Some (File True data)"
      using d(1) te by (auto simp: read_bytes_def split: option.splits entry.splits if_splits bool.splits)
    have "fp = sha256 env data" using d(2,3) encode_decode by simp
    with i(2,3) True ins a lf d f show ?thesis
      by (auto simp: operation_error_def first_error_None_iff simp del: first_error.simps split: mutation_operation.splits)
  next
    case False
    with i(1) have "info = None" by simp
    moreover from False te have "fs ?t = None" by (simp add: path_exists_def)
    ultimately show ?thesis using i(2,3) False a lf
      by (auto simp: operation_error_def first_error_None_iff simp del: first_error.simps split: mutation_operation.splits)
  qed
qed

section \<open>What a write does\<close>

text \<open>The name \<open>mkstemp\<close> picks is free, and is not the target's.\<close>

definition temp_free :: "mutation_env \<Rightarrow> fs \<Rightarrow> path \<Rightarrow> bool" where
  "temp_free env fs target \<longleftrightarrow>
     fs (butlast target @ [temp_name env fs (butlast target)]) = None \<and>
     butlast target @ [temp_name env fs (butlast target)] \<noteq> target"

definition no_io_fault :: "io_faults \<Rightarrow> bool" where
  "no_io_fault fl \<longleftrightarrow> \<not> fault_create fl \<and> \<not> fault_write fl \<and> \<not> fault_replace fl"

lemma atomic_write_eq:
  "temp_free env fs target \<Longrightarrow> atomic_write env fl fs target data =
     (if no_io_fault fl then (fs(target \<mapsto> File True data), True) else (fs, False))"
  by (auto simp: atomic_write_def temp_free_def no_io_fault_def Let_def fun_eq_iff)

lemma read_back:
  "link_free fs [] target \<Longrightarrow> target \<noteq> [] \<Longrightarrow> read_bytes (fs(target \<mapsto> File True data)) target = Some data"
  using link_free_update [of fs "[]" target target True data]
  by (simp add: read_bytes_def target_entry_link_free)

section \<open>The effect of a mutation\<close>

definition wrote :: "fs \<Rightarrow> path \<Rightarrow> change_proposal \<Rightarrow> fs" where
  "wrote fs target p = fs(target \<mapsto> File True (utf8_encode (content p)))"

text \<open>The state of the target before the write: absent, or a readable text file.\<close>

definition before_ok :: "fs \<Rightarrow> path \<Rightarrow> change_proposal \<Rightarrow> bytes \<Rightarrow> bool" where
  "before_ok fs target p before \<longleftrightarrow>
     (case operation p of
        CREATE_FILE \<Rightarrow> fs target = None
      | MODIFY_FILE \<Rightarrow> fs target = Some (File True before) \<and> utf8_decode before \<noteq> None
      | OTHER_OPERATION _ \<Rightarrow> False)"

definition temps_free :: "mutation_env \<Rightarrow> fs \<Rightarrow> path \<Rightarrow> change_proposal \<Rightarrow> bool" where
  "temps_free env fs target p \<longleftrightarrow> temp_free env fs target \<and> temp_free env (wrote fs target p) target"

lemma restore_effect:
  assumes lf: "link_free fs [] target" "target \<noteq> []" and b: "before_ok fs target p before"
    and t: "temps_free env fs target p"
  shows "\<exists>fs2 rolled. conditional_restore env fl (wrote fs target p) target p before post = (fs2, Inr rolled) \<and>
    fs2 = (if rolled then fs else wrote fs target p) \<and>
    (rolled \<longrightarrow> sha256 env (encode_text (universal_newlines (code_points (content p)))) = post)"
proof -
  have rd: "read_bytes (wrote fs target p) target = Some (utf8_encode (content p))"
    unfolding wrote_def by (rule read_back [OF lf])
  have tf: "temp_free env (wrote fs target p) target" using t by (simp add: temps_free_def)
  show ?thesis
  proof (cases "operation p")
    case CREATE_FILE
    with b have "(wrote fs target p)(target := None) = fs" by (auto simp: before_ok_def wrote_def)
    with CREATE_FILE rd show ?thesis
      by (auto simp: conditional_restore_def utf8_roundtrip)
  next
    case MODIFY_FILE
    with b obtain cs where cs: "fs target = Some (File True before)" "utf8_decode before = Some cs"
      by (auto simp: before_ok_def)
    have e: "encode_text cs = before" using encode_decode [OF cs(2)] .
    have "(wrote fs target p)(target \<mapsto> File True before) = fs" using cs(1) by (auto simp: wrote_def)
    with MODIFY_FILE rd cs(2) e atomic_write_eq [OF tf] show ?thesis
      by (auto simp: conditional_restore_def utf8_roundtrip)
  next
    case (OTHER_OPERATION x)
    with b show ?thesis by (simp add: before_ok_def)
  qed
qed

text \<open>
  What one run of \<open>perform\<close> leaves: the write happened and is reported as completed, or the run
  failed and either the tree is as before or the write stands without having been rolled back.
\<close>

definition performed :: "mutation_env \<Rightarrow> policy_settings \<Rightarrow> mutation_faults \<Rightarrow> fs \<Rightarrow> path \<Rightarrow> change_proposal \<Rightarrow> fs
    \<Rightarrow> mutation_receipt \<Rightarrow> bool" where
  "performed env cfg fl fs target p fs' r \<longleftrightarrow>
     first_error (receipt_errors r) = None \<and> re_target_path r = target_path p \<and>
     (if no_io_fault (write_faults fl) \<and> \<not> fault_reread fl \<and> verify_postcondition env p (content_fingerprint env p)
      then result r = MUT_COMPLETED \<and> fs' = wrote fs target p \<and> verification_passed r \<and>
        re_post_fingerprint r = Some (content_fingerprint env p)
      else result r = MUT_FAILED \<and> \<not> verification_passed r \<and>
        (fs' = fs \<or> fs' = wrote fs target p \<and> \<not> rollback_performed r) \<and>
        (\<not> no_io_fault (write_faults fl) \<longrightarrow> fs' = fs \<and> \<not> rollback_performed r) \<and>
        (rollback_performed r \<longrightarrow> fs' = fs))"

lemma outcome_receipt_simps [simp]:
  "result (outcome_receipt new cfg p a pre b) = MUT_FAILED"
  "verification_passed (outcome_receipt new cfg p a pre b) = False"
  "rollback_performed (outcome_receipt new cfg p a pre b) = False"
  "re_target_path (outcome_receipt new cfg p a pre b) = target_path p"
  "failure_reason (outcome_receipt new cfg p a pre b) = Some ''bounded atomic workspace write failed''"
  by (simp_all add: outcome_receipt_def)

lemma perform_effect:
  assumes lf: "link_free (tree s) [] target" "target \<noteq> []" and b: "before_ok (tree s) target (proposal cur) before"
    and t: "temps_free env (tree s) target (proposal cur)"
  shows "\<exists>s' r. perform env cfg fl target s cur a before = (s', Inr r) \<and>
    performed env cfg fl (tree s) target (proposal cur) (tree s') r"
proof -
  let ?p = "proposal cur"
  have tf: "temp_free env (tree s) target" using t by (simp add: temps_free_def)
  have tree1: "tree (publish_mutation s0 e) = tree s0" for s0 e by (simp add: publish_mutation_def)
  show ?thesis
  proof (cases "no_io_fault (write_faults fl)")
    case False
    then show ?thesis
      by (simp add: perform_def new_uuid_def tree1 atomic_write_eq [OF tf] Let_def performed_def receipt_errors_def)
  next
    case True
    show ?thesis
    proof (cases "fault_reread fl")
      case rr: True
      with True show ?thesis
        by (simp add: perform_def new_uuid_def tree1 atomic_write_eq [OF tf] Let_def performed_def receipt_errors_def wrote_def)
    next
      case False
      have rd: "read_bytes ((tree s)(target \<mapsto> File True (utf8_encode (content ?p)))) target = Some (utf8_encode (content ?p))"
        by (rule read_back [OF lf])
      have post: "sha256 env (encode_text (code_points (content ?p))) = content_fingerprint env ?p"
        by (simp add: content_fingerprint_def utf8_encode_def)
      show ?thesis
      proof (cases "verify_postcondition env ?p (content_fingerprint env ?p)")
        case ok: True
        with True False show ?thesis
          by (simp add: perform_def new_uuid_def tree1 atomic_write_eq [OF tf] Let_def performed_def receipt_errors_def
              rd utf8_roundtrip post wrote_def)
      next
        case bad: False
        obtain fs2 rolled where rs:
          "conditional_restore env fl (wrote (tree s) target ?p) target ?p before (content_fingerprint env ?p) = (fs2, Inr rolled)"
          "fs2 = (if rolled then tree s else wrote (tree s) target ?p)"
          using restore_effect [OF lf b t] by blast
        from rs(1) have rs': "conditional_restore env fl ((tree s)(target \<mapsto> File True (utf8_encode (content ?p)))) target ?p before
            (content_fingerprint env ?p) = (fs2, Inr rolled)" by (simp add: wrote_def)
        from bad True False rs(2) show ?thesis
          by (simp add: perform_def new_uuid_def tree1 atomic_write_eq [OF tf] Let_def performed_def receipt_errors_def
              rd utf8_roundtrip post rs')
      qed
    qed
  qed
qed

text \<open>What the target was before, from the validation.\<close>

lemma validated_before:
  assumes v: "validate_policy env cfg root fs p = Inr cur" and r: "root_ok fs root"
  shows "\<exists>before. (if target_exists cur then read_bytes fs (root @ path_parts (target_path p)) else Some []) = Some before \<and>
    before_ok fs (root @ path_parts (target_path p)) p before"
proof -
  let ?t = "root @ path_parts (target_path p)"
  note f = validate_policy_Inr [OF v r]
  then have te: "target_entry fs ?t = fs ?t" using target_entry_plain [of fs ?t] by simp
  show ?thesis using f te
    by (auto simp: before_ok_def read_bytes_def split: mutation_operation.splits)
qed

text \<open>
  \<open>mutate\<close> as a whole: an I/O error before anything happened, a refusal that leaves the tree alone,
  or the run above with a consumed authorization that was issued for this very proposal.
\<close>

definition authorized_for :: "mutation_env \<Rightarrow> policy_settings \<Rightarrow> mutation_authorization \<Rightarrow> validated_proposal \<Rightarrow> bool" where
  "authorized_for env cfg a v \<longleftrightarrow> consume_authorization env cfg a v = Inr (a\<lparr>au_state := CONSUMED\<rparr>)"

lemma consume_authorization_Inr:
  "consume_authorization env cfg a v = Inr a' \<longleftrightarrow>
     a' = a\<lparr>au_state := CONSUMED\<rparr> \<and> au_state a = AUTHORIZED \<and> au_proposal_id a = proposal_id (proposal v) \<and>
     au_proposal_digest a = proposal_digest env (proposal v) \<and> au_target_path a = target_path (proposal v) \<and>
     au_operation a = operation (proposal v) \<and> au_workspace_fingerprint a = workspace_fingerprint v \<and>
     au_repository_fingerprint a = repository_snapshot_fingerprint (proposal v) \<and> au_policy_version a = policy_version cfg"
  by (auto simp: consume_authorization_def Let_def)

lemma publish_tree [simp]: "tree (publish_mutation s e) = tree s"
  by (simp add: publish_mutation_def)

lemma rejected_receipt_effect:
  "\<exists>s' r. rejected_receipt env s p vi a = (s', r) \<and> tree s' = tree s \<and> result r = MUT_REJECTED \<and> \<not> rollback_performed r"
  by (auto simp: rejected_receipt_def new_uuid_def Let_def)

lemma validate_policy_exn:
  assumes "validate_policy env cfg root fs p = Inl e"
  shows "(\<exists>vi. e = MutationPolicyError vi) \<or> e = OSError"
  using assms
  by (auto simp: validate_policy_def Let_def reject_def bind_res_Inl_iff inspect_target_def
      split: if_splits option.splits entry.splits sum.splits)

lemma mutate_effect:
  assumes r: "root_ok (tree s) root" and t: "temps_free env (tree s) (root @ path_parts (target_path (proposal v))) (proposal v)"
  shows "mutate env cfg fl root s v a = (s, Inl OSError) \<or>
    (\<exists>s' x. mutate env cfg fl root s v a = (s', Inr x) \<and> result x = MUT_REJECTED \<and> tree s' = tree s) \<or>
    (\<exists>s' x cur. mutate env cfg fl root s v a = (s', Inr x) \<and>
       validate_policy env cfg root (tree s) (proposal v) = Inr cur \<and> authorized_for env cfg a cur \<and>
       performed env cfg fl (tree s) (root @ path_parts (target_path (proposal v))) (proposal v) (tree s') x)"
proof (cases "validate_policy env cfg root (tree s) (proposal v)")
  case (Inl e)
  from validate_policy_exn [OF Inl] show ?thesis
  proof
    assume "\<exists>vi. e = MutationPolicyError vi"
    then obtain vi where e: "e = MutationPolicyError vi" by blast
    from rejected_receipt_effect [of env "publish_mutation s (rejected_event (proposal v) vi)" "proposal v" vi "Some a"]
    show ?thesis using Inl e by (auto simp: mutate_def Let_def)
  qed (simp add: mutate_def Inl Let_def)
next
  case (Inr cur)
  note f = validate_policy_Inr [OF Inr r]
  show ?thesis
  proof (cases "consume_authorization env cfg a cur")
    case (Inl e)
    then obtain vi where e: "e = MutationAuthorizationError vi"
      by (auto simp: consume_authorization_def auth_violation_def Let_def split: if_splits)
    from rejected_receipt_effect [of env "publish_mutation s (rejected_event (proposal v) vi)" "proposal v" vi "Some a"]
    show ?thesis using Inr Inl e by (auto simp: mutate_def Let_def)
  next
    case c: (Inr a')
    then have auth: "authorized_for env cfg a cur" by (simp add: authorized_for_def consume_authorization_Inr)
    let ?t = "root @ path_parts (target_path (proposal v))"
    from validated_before [OF Inr r] obtain before where
      b: "(if target_exists cur then read_bytes (tree s) ?t else Some []) = Some before" "before_ok (tree s) ?t (proposal v) before"
      by blast
    have pc: "proposal cur = proposal v" and lf: "link_free (tree s) [] ?t" and ne: "?t \<noteq> []" using f by auto
    from perform_effect [OF lf ne, of cur before env cfg fl a'] b(2) t pc obtain s' x where
      "perform env cfg fl ?t s cur a' before = (s', Inr x)" "performed env cfg fl (tree s) ?t (proposal v) (tree s') x"
      by auto
    with Inr c b(1) auth show ?thesis by (auto simp: mutate_def Let_def)
  qed
qed

end
