(* ===== verification/Mutation_Properties.thy ===== *)
theory Mutation_Properties
  imports Mutation
begin

text \<open>
  The properties of the governed mutation runtime, and a concrete workspace in which they apply.
\<close>

section \<open>A concrete workspace\<close>

definition demo_fs :: fs where
  "demo_fs p =
     (if p = [] \<or> p = [''ws''] then Some Dir
      else if p = [''ws'', ''a.txt''] then Some (File True (utf8_encode ''old''))
      else if p = [''ws'', ''out''] then Some (Link [''etc''])
      else None)"

definition plain_hash :: "bytes \<Rightarrow> string" where
  "plain_hash b = map (\<lambda>w. char_of (unat w)) b @ ''#''"

definition demo_env :: mutation_env where
  "demo_env = \<lparr>sha256 = plain_hash, hash_payload = (\<lambda>d. dp_content_fingerprint d @ dp_target_path d),
     excluded_path = (\<lambda>p. last p = ''.env''), redaction_count = (\<lambda>s. 0), root_identity = (\<lambda>fs p. ''1:2''),
     temp_name = (\<lambda>fs p. ''.eag-mutation-x''), uuid = (\<lambda>n. ''id'' @ show_nat n)\<rparr>"

definition demo_cfg :: policy_settings where
  "demo_cfg = \<lparr>max_content_bytes = 20, max_target_bytes = 20, policy_version = ''1.0''\<rparr>"

definition no_io :: io_faults where
  "no_io = \<lparr>fault_create = False, fault_write = False, fault_replace = False\<rparr>"

definition no_faults :: mutation_faults where
  "no_faults = \<lparr>write_faults = no_io, fault_reread = False, fault_restore_read = False, fault_unlink = False,
     restore_faults = no_io\<rparr>"

definition demo_proposal :: "string \<Rightarrow> string option \<Rightarrow> change_proposal" where
  "demo_proposal c want = \<lparr>proposal_id = ''p'', cp_run_id = ''r'', decision_id = ''d'', target_path = ''a.txt'',
     operation = MODIFY_FILE, content = c,
     precondition = \<lparr>pre_expect_exists = True, pre_fingerprint = Some (plain_hash (utf8_encode ''old''))\<rparr>,
     reason = ''why'', provenance_ids = [], risk = RISK_LOW, cp_metadata = [],
     expected_postcondition = \<lparr>post_expect_exists = True, post_fingerprint = want\<rparr>,
     context_fingerprint = [], repository_snapshot_fingerprint = [], cp_workspace_fingerprint = [],
     contract_version = ''1.0''\<rparr>"

definition demo_state :: mutation_state where
  "demo_state = \<lparr>tree = demo_fs, m_bus = [], next_id = 0\<rparr>"

definition demo_validated :: "string \<Rightarrow> string option \<Rightarrow> validated_proposal" where
  "demo_validated c want = \<lparr>proposal = demo_proposal c want, target_fingerprint = Some (plain_hash (utf8_encode ''old'')),
     target_size = 3, target_exists = True, workspace_fingerprint = plain_hash (utf8_encode ''1:2'')\<rparr>"

definition demo_authorization :: "string \<Rightarrow> string option \<Rightarrow> mutation_authorization" where
  "demo_authorization c want =
     (case authorize_proposal demo_env demo_cfg ''auth'' (demo_validated c want) of Inr a \<Rightarrow> a
      | Inl _ \<Rightarrow> \<lparr>authorization_id = [], au_proposal_id = [], au_proposal_digest = [], au_target_path = [],
          au_operation = MODIFY_FILE, au_workspace_fingerprint = [], au_repository_fingerprint = [],
          au_policy_version = [], au_state = AUTH_REJECTED, au_metadata = []\<rparr>)"

lemma demo_root_ok: "root_ok demo_fs [''ws'']"
  by (simp add: root_ok_def demo_fs_def)

lemma demo_parts: "path_parts (target_path (demo_proposal c want)) = [''a.txt'']"
  by (simp add: demo_proposal_def path_parts_def)

lemma demo_temps: "temps_free demo_env demo_fs [''ws'', ''a.txt''] (demo_proposal c want)"
  by (simp add: temps_free_def temp_free_def demo_env_def demo_fs_def wrote_def)

section \<open>Mutation\<close>





section \<open>All or nothing\<close>

text \<open>Without faults, and when the text has no carriage return, the restore succeeds.\<close>

lemma restore_succeeds:
  assumes lf: "link_free fs [] target" "target \<noteq> []" and b: "before_ok fs target p before"
    and t: "temps_free env fs target p" and c: "13 \<notin> set (code_points (content p))"
  shows "conditional_restore env no_faults (wrote fs target p) target p before (content_fingerprint env p) = (fs, Inr True)"
proof -
  have rd: "read_bytes (wrote fs target p) target = Some (utf8_encode (content p))"
    unfolding wrote_def by (rule read_back [OF lf])
  from c have n: "universal_newlines (code_points (content p)) = code_points (content p)" by (rule newlines_id)
  have same: "sha256 env (encode_text (code_points (content p))) = content_fingerprint env p"
    by (simp add: content_fingerprint_def utf8_encode_def)
  have tf: "temp_free env (wrote fs target p) target" using t by (simp add: temps_free_def)
  show ?thesis
  proof (cases "operation p")
    case CREATE_FILE
    with b have "(wrote fs target p)(target := None) = fs" by (auto simp: before_ok_def wrote_def)
    with CREATE_FILE rd n same show ?thesis
      by (auto simp: conditional_restore_def utf8_roundtrip no_faults_def)
  next
    case MODIFY_FILE
    with b obtain cs where cs: "fs target = Some (File True before)" "utf8_decode before = Some cs"
      by (auto simp: before_ok_def)
    have e: "encode_text cs = before" using encode_decode [OF cs(2)] .
    have "(wrote fs target p)(target \<mapsto> File True before) = fs" using cs(1) by (auto simp: wrote_def)
    with MODIFY_FILE rd cs(2) e atomic_write_eq [OF tf] n same show ?thesis
      by (auto simp: conditional_restore_def utf8_roundtrip no_faults_def no_io_fault_def no_io_def)
  next
    case (OTHER_OPERATION x)
    with b show ?thesis by (simp add: before_ok_def)
  qed
qed

text \<open>C14. All or nothing: when no system call fails and the proposed text has no carriage return, a run of \<open>mutate\<close> that
  does not complete leaves the tree exactly as it was, the failed postcondition included.\<close>

theorem mutation_all_or_nothing:
  assumes "root_ok (tree s) root"
    and "temps_free env (tree s) (root @ path_parts (target_path (proposal v))) (proposal v)"
    and "13 \<notin> set (code_points (content (proposal v)))"
    and "mutate env cfg no_faults root s v a = (s', Inr r)" and "result r \<noteq> MUT_COMPLETED"
  shows "tree s' = tree s"
proof -
  let ?p = "proposal v" and ?t = "root @ path_parts (target_path (proposal v))"
  from mutate_effect [OF assms(1,2), of cfg no_faults a] assms(4)
  consider "tree s' = tree s" | cur where "validate_policy env cfg root (tree s) ?p = Inr cur" "authorized_for env cfg a cur"
    by auto
  then show ?thesis
  proof cases
    case 2
    note f = validate_policy_Inr [OF 2(1) assms(1)]
    from validated_before [OF 2(1) assms(1)] obtain before where
      b: "(if target_exists cur then read_bytes (tree s) ?t else Some []) = Some before" "before_ok (tree s) ?t ?p before" by blast
    have lf: "link_free (tree s) [] ?t" "?t \<noteq> []" and pc: "proposal cur = ?p" using f by auto
    have con: "consume_authorization env cfg a cur = Inr (a\<lparr>au_state := CONSUMED\<rparr>)" using 2(2) by (simp add: authorized_for_def)
    have m: "mutate env cfg no_faults root s v a = perform env cfg no_faults ?t s cur (a\<lparr>au_state := CONSUMED\<rparr>) before"
      using 2(1) con b(1) by (simp add: mutate_def Let_def)
    have tf: "temp_free env (tree s) ?t" using assms(2) by (simp add: temps_free_def)
    have aw: "atomic_write env (write_faults no_faults) (tree s) ?t (utf8_encode (content ?p)) = (wrote (tree s) ?t ?p, True)"
      by (simp add: atomic_write_eq [OF tf] no_faults_def no_io_fault_def no_io_def wrote_def)
    have rd: "read_bytes (wrote (tree s) ?t ?p) ?t = Some (utf8_encode (content ?p))"
      unfolding wrote_def by (rule read_back [OF lf])
    have post: "sha256 env (encode_text (code_points (content ?p))) = content_fingerprint env ?p"
      by (simp add: content_fingerprint_def utf8_encode_def)
    note rs = restore_succeeds [OF lf b(2) assms(2,3)]
    have nr: "\<not> fault_reread no_faults" by (simp add: no_faults_def)
    note run = perform_def new_uuid_def Let_def pc aw rd utf8_roundtrip post rs nr
    show ?thesis
    proof (cases "verify_postcondition env ?p (content_fingerprint env ?p)")
      case True
      with assms(4,5) show ?thesis by (auto simp: m run)
    next
      case False
      with assms(4) show ?thesis by (auto simp: m run)
    qed
  qed
qed

theorem mutation_all_or_nothing_witness:
  "let out = mutate demo_env demo_cfg no_faults [''ws''] demo_state (demo_validated ''new'' (Some ''other''))
       (demo_authorization ''new'' (Some ''other''))
   in (case snd out of Inl _ \<Rightarrow> False | Inr r \<Rightarrow> result r = MUT_FAILED \<and> rollback_performed r) \<and> tree (fst out) = demo_fs"
proof -
  let ?m = "mutate demo_env demo_cfg no_faults [''ws''] demo_state (demo_validated ''new'' (Some ''other''))
       (demo_authorization ''new'' (Some ''other''))"
  have f: "case snd ?m of Inl _ \<Rightarrow> False | Inr r \<Rightarrow> result r = MUT_FAILED \<and> rollback_performed r" by code_simp
  then obtain s' r where m: "?m = (s', Inr r)" and res: "result r \<noteq> MUT_COMPLETED"
    by (cases ?m) (auto split: sum.splits)
  have t: "temps_free demo_env (tree demo_state) ([''ws''] @ path_parts (target_path (proposal (demo_validated ''new'' (Some ''other'')))))
      (proposal (demo_validated ''new'' (Some ''other'')))"
    by (simp add: demo_state_def demo_validated_def demo_parts demo_temps)
  have ro: "root_ok (tree demo_state) [''ws'']" by (simp add: demo_state_def demo_root_ok)
  have c: "13 \<notin> set (code_points (content (proposal (demo_validated ''new'' (Some ''other'')))))"
    by (simp add: demo_validated_def demo_proposal_def code_points_def)
  from mutation_all_or_nothing [OF ro t c m res] have "tree s' = demo_fs" by (simp add: demo_state_def)
  with f show ?thesis unfolding m Let_def fst_conv snd_conv by blast
qed

section \<open>Corner cases\<close>

text \<open>A target with a backslash is refused as malformed.\<close>

lemma backslash_target_malformed:
  "case mutate demo_env demo_cfg no_faults [''ws''] demo_state
       ((demo_validated ''new'' None)\<lparr>proposal := (demo_proposal ''new'' None)\<lparr>target_path := [CHR ''a'', CHR 0x5C, CHR ''b'']\<rparr>\<rparr>)
       (demo_authorization ''new'' None) of
     (s', Inr r) \<Rightarrow> result r = MUT_REJECTED \<and> failure_code r = Some ''malformed_proposal''
   | _ \<Rightarrow> False"
  by code_simp

text \<open>
  A text with a carriage return reads back, as text, with the return translated, so the restore
  takes the file for somebody else's and the failed write stands.
\<close>

lemma carriage_return_not_rolled_back:
  "case mutate demo_env demo_cfg no_faults [''ws''] demo_state (demo_validated [CHR ''x'', CHR 0x0D] (Some ''other''))
       (demo_authorization [CHR ''x'', CHR 0x0D] (Some ''other'')) of
     (s', Inr r) \<Rightarrow> result r = MUT_FAILED \<and> \<not> rollback_performed r \<and>
        tree s' [''ws'', ''a.txt''] = Some (File True (utf8_encode [CHR ''x'', CHR 0x0D]))
   | _ \<Rightarrow> False"
  by code_simp

text \<open>
  Consuming returns a consumed copy; the authorization the caller holds can be used again when the
  write leaves the precondition true.
\<close>

lemma authorization_used_twice:
  "case mutate demo_env demo_cfg no_faults [''ws''] demo_state (demo_validated ''old'' None) (demo_authorization ''old'' None) of
     (s1, Inr r1) \<Rightarrow>
       (case mutate demo_env demo_cfg no_faults [''ws''] s1 (demo_validated ''old'' None) (demo_authorization ''old'' None) of
          (s2, Inr r2) \<Rightarrow> result r1 = MUT_COMPLETED \<and> result r2 = MUT_COMPLETED \<and>
            re_authorization_id r1 = re_authorization_id r2 \<and> mutation_id r1 \<noteq> mutation_id r2
        | _ \<Rightarrow> False)
   | _ \<Rightarrow> False"
  by code_simp

text \<open>A refusal by \<open>mutate\<close> publishes the same event twice.\<close>

lemma rejection_published_twice:
  "case mutate demo_env demo_cfg no_faults [''ws''] demo_state (demo_validated ''new'' None)
       (reject_authorization (demo_authorization ''new'' None)) of
     (s', Inr r) \<Rightarrow> result r = MUT_REJECTED \<and> m_bus s' =
        [MutationRejected ''p'' ''r'' AUTHORIZATION_REUSED ''mutation_authorization'' ''a.txt'',
         MutationRejected ''p'' ''r'' AUTHORIZATION_REUSED ''mutation_authorization'' ''a.txt'']
   | _ \<Rightarrow> False"
  by code_simp

text \<open>When reading the file back fails, the receipt says that the write failed, but the file has changed.\<close>

lemma failed_reread_leaves_the_write:
  "case mutate demo_env demo_cfg (no_faults\<lparr>fault_reread := True\<rparr>) [''ws''] demo_state (demo_validated ''new'' None)
       (demo_authorization ''new'' None) of
     (s', Inr r) \<Rightarrow> failure_code r = Some ''write_failed'' \<and> bytes_changed r = 0 \<and>
        tree s' [''ws'', ''a.txt''] = Some (File True (utf8_encode ''new''))
   | _ \<Rightarrow> False"
  by code_simp

end
