(* ===== verification/GovernedVerification.thy ===== *)
theory GovernedVerification
  imports Mutation ExecutionLedger
begin

text \<open>
  The trusted verification boundary of \<open>governed_execution/verification.py\<close>: the validated records,
  the deterministic verifier over the tree of theory \<open>Filesystem\<close>, and the completion policy.

  \<open>VerificationRequestError\<close> is a \<open>ValueError\<close> and appears as one. The hash is a parameter; a
  specification, a request or a result is accepted by its constructor exactly when its list of
  guards finds nothing.
\<close>

section \<open>Vocabulary\<close>

datatype verification_check = EXACT_CONTENT | FILE_EXISTS | FILE_ABSENT | EXPECTED_FINGERPRINT

datatype verification_status = PASSED | V_FAILED | NOT_RUN

datatype verification_failure =
    MUTATION_NOT_SUCCESSFUL | TARGET_PATH_MISMATCH | TARGET_OUTSIDE_WORKSPACE | TARGET_SYMLINK
  | VERIFY_TARGET_TOO_LARGE | TARGET_READ_FAILED | ASSERTION_FAILED

datatype objective_status = SATISFIED | NOT_SATISFIED

datatype objective_failure = OBJECTIVE_MUTATION_NOT_SUCCESSFUL | VERIFICATION_NOT_PASSED

fun status_value :: "verification_status \<Rightarrow> string" where
  "status_value PASSED = ''passed''"
| "status_value V_FAILED = ''failed''"
| "status_value NOT_RUN = ''not_run''"

fun failure_value :: "verification_failure \<Rightarrow> string" where
  "failure_value MUTATION_NOT_SUCCESSFUL = ''mutation_not_successful''"
| "failure_value TARGET_PATH_MISMATCH = ''target_path_mismatch''"
| "failure_value TARGET_OUTSIDE_WORKSPACE = ''target_outside_workspace''"
| "failure_value TARGET_SYMLINK = ''target_symlink''"
| "failure_value VERIFY_TARGET_TOO_LARGE = ''target_too_large''"
| "failure_value TARGET_READ_FAILED = ''target_read_failed''"
| "failure_value ASSERTION_FAILED = ''assertion_failed''"

section \<open>Records\<close>

record verification_specification =
  specification_id :: string
  vs_target_path :: string
  check :: verification_check
  expected_content :: "string option"
  expected_fingerprint :: "string option"
  max_bytes :: int
  vs_version :: string

text \<open>\<open>_validate_relative_path\<close>: a component is never empty or a dot in \<open>Path.parts\<close>, so only dot-dot is left to test.\<close>

definition relative_path_errors :: "string \<Rightarrow> (bool \<times> py_error) list" where
  "relative_path_errors s =
    [(blank s, ValueError ''target_path cannot be empty''),
     (is_absolute s \<or> ''..'' \<in> set (path_parts s), ValueError ''target_path must be a confined relative path'')]"

definition specification_errors :: "verification_specification \<Rightarrow> (bool \<times> py_error) list" where
  "specification_errors v =
    (blank (specification_id v), ValueError ''specification_id cannot be empty'')
    # relative_path_errors (vs_target_path v)
    @ [(max_bytes v < 1, ValueError ''max_bytes must be a positive integer''),
       (vs_version v \<noteq> ''1.0'', ValueError ''unsupported verification contract version'')]
    @ (case check v of
         EXACT_CONTENT \<Rightarrow>
           [(expected_content v = None, ValueError ''exact_content requires expected_content''),
            (case expected_content v of None \<Rightarrow> False | Some c \<Rightarrow> int (length (utf8_encode c)) > max_bytes v,
               ValueError ''expected_content exceeds max_bytes''),
            (expected_fingerprint v \<noteq> None, ValueError ''exact_content cannot declare expected_fingerprint'')]
       | EXPECTED_FINGERPRINT \<Rightarrow>
           [(expected_fingerprint v = None \<or> expected_fingerprint v = Some [],
               ValueError ''expected_fingerprint requires expected_fingerprint''),
            (expected_content v \<noteq> None, ValueError ''expected_fingerprint cannot declare expected_content'')]
       | _ \<Rightarrow>
           [(expected_content v \<noteq> None \<or> expected_fingerprint v \<noteq> None,
               ValueError ''existence checks cannot declare expected content or fingerprint'')])"

definition make_specification :: "verification_specification \<Rightarrow> py_error + verification_specification" where
  "make_specification v = guarded (specification_errors v) v"

definition is_receipt_evidence :: "mutation_receipt \<Rightarrow> bool" where
  "is_receipt_evidence r \<longleftrightarrow> \<not> blank (mutation_id r) \<and> \<not> blank (re_run_id r) \<and> \<not> blank (re_target_path r)"

record verification_request =
  request_id :: string
  vr_run_id :: string
  receipt :: mutation_receipt
  vr_specification :: verification_specification
  execution_context :: "exec_context option"

definition make_request :: "verification_request \<Rightarrow> py_error + verification_request" where
  "make_request q = guarded
     [(blank (request_id q) \<or> blank (vr_run_id q), ValueError ''request_id and run_id cannot be empty''),
      (\<not> is_receipt_evidence (receipt q), ValueError ''receipt must provide immutable mutation receipt evidence''),
      (vr_run_id q \<noteq> re_run_id (receipt q), ValueError ''request run_id must match receipt run_id''),
      (vs_target_path (vr_specification q) \<noteq> re_target_path (receipt q),
         ValueError ''specification target_path must match receipt target_path''),
      (case execution_context q of None \<Rightarrow> False | Some c \<Rightarrow> exec_context.run_id c \<noteq> vr_run_id q,
         ValueError ''execution context run_id must match request run_id'')] q"

record verification_evidence =
  ve_target_path :: string
  ve_check :: verification_check
  observed_exists :: bool
  observed_fingerprint :: "string option"
  observed_bytes :: nat

definition make_verification_evidence :: "verification_evidence \<Rightarrow> py_error + verification_evidence" where
  "make_verification_evidence e = guarded
     (relative_path_errors (ve_target_path e)
      @ [(case observed_fingerprint e of None \<Rightarrow> False | Some f \<Rightarrow> length f \<noteq> 64,
            ValueError ''observed_fingerprint must be a SHA-256 digest'')]) e"

record verification_result =
  verification_id :: string
  vx_request_id :: string
  vx_run_id :: string
  receipt_id :: string
  vx_specification_id :: string
  status :: verification_status
  vx_evidence :: "verification_evidence option"
  vx_failure_code :: "verification_failure option"
  vx_version :: string

definition make_verification_result :: "verification_result \<Rightarrow> py_error + verification_result" where
  "make_verification_result r = guarded
     [(blank (verification_id r), ValueError ''verification_id cannot be empty''),
      (blank (vx_request_id r), ValueError ''request_id cannot be empty''),
      (blank (vx_run_id r), ValueError ''run_id cannot be empty''),
      (blank (receipt_id r), ValueError ''receipt_id cannot be empty''),
      (blank (vx_specification_id r), ValueError ''specification_id cannot be empty''),
      (status r = PASSED \<and> vx_failure_code r \<noteq> None, ValueError ''passed verification cannot carry failure_code''),
      (status r = V_FAILED \<and> vx_failure_code r = None, ValueError ''failed verification requires failure_code''),
      (status r = NOT_RUN \<and> vx_failure_code r = None, ValueError ''not_run verification requires failure_code''),
      (vx_version r \<noteq> ''1.0'', ValueError ''unsupported verification contract version'')] r"

definition result_evidence_ref :: "verification_result \<Rightarrow> py_error + evidence_ref" where
  "result_evidence_ref r = make_evidence
     \<lparr>ev_kind = VERIFICATION, reference_id = verification_id r,
      digest = (case vx_evidence r of None \<Rightarrow> [] | Some e \<Rightarrow> (case observed_fingerprint e of None \<Rightarrow> [] | Some f \<Rightarrow> f)),
      ev_metadata = PDict ((PStr ''status'', PStr (status_value (status r)))
        # (case vx_failure_code r of None \<Rightarrow> [] | Some f \<Rightarrow> [(PStr ''failure_code'', PStr (failure_value f))]))\<rparr>"

record objective_assessment =
  objective_status :: objective_status
  oa_verification_id :: string
  oa_receipt_id :: string
  oa_failure_code :: "objective_failure option"

definition make_assessment :: "objective_assessment \<Rightarrow> py_error + objective_assessment" where
  "make_assessment a = guarded
     [(blank (oa_verification_id a) \<or> blank (oa_receipt_id a), ValueError ''verification_id and receipt_id cannot be empty''),
      (objective_status a = SATISFIED \<and> oa_failure_code a \<noteq> None, ValueError ''satisfied objective cannot have failure_code''),
      (objective_status a = NOT_SATISFIED \<and> oa_failure_code a = None, ValueError ''unsatisfied objective requires failure_code'')] a"

section \<open>The verifier\<close>

definition mutation_succeeded :: "mutation_receipt \<Rightarrow> bool" where
  "mutation_succeeded r \<longleftrightarrow> result r = MUT_COMPLETED \<and> verification_passed r"

text \<open>The loop of \<open>_confined_target\<close> over the components.\<close>

fun meets_link :: "fs \<Rightarrow> path \<Rightarrow> path \<Rightarrow> bool" where
  "meets_link fs current [] \<longleftrightarrow> False"
| "meets_link fs current (p # ps) \<longleftrightarrow>
     (path_exists fs (current @ [p]) \<and> is_symlink fs (current @ [p])) \<or> meets_link fs (current @ [p]) ps"

definition confined_target :: "fs \<Rightarrow> path \<Rightarrow> string \<Rightarrow> verification_failure + path" where
  "confined_target fs root s =
     (if first_error (relative_path_errors s) \<noteq> None then Inl TARGET_OUTSIDE_WORKSPACE
      else if meets_link fs root (path_parts s) then Inl TARGET_SYMLINK
      else if take (length root) (resolve fs (root @ path_parts s)) \<noteq> root then Inl TARGET_OUTSIDE_WORKSPACE
      else Inr (root @ path_parts s))"

definition absent_evidence :: "verification_specification \<Rightarrow> bool \<Rightarrow> verification_evidence" where
  "absent_evidence v exists = \<lparr>ve_target_path = vs_target_path v, ve_check = check v, observed_exists = exists,
     observed_fingerprint = None, observed_bytes = 0\<rparr>"

text \<open>\<open>_observe\<close>: the left result is a failure code, inside the result of building the evidence.\<close>

definition observe :: "(bytes \<Rightarrow> string) \<Rightarrow> fs \<Rightarrow> path \<Rightarrow> verification_specification
    \<Rightarrow> py_error + (verification_failure + verification_evidence)" where
  "observe sha fs target v =
     (let exists = path_exists fs target
      in if check v = FILE_ABSENT then map_sum (\<lambda>e. e) Inr (make_verification_evidence (absent_evidence v exists))
         else if \<not> exists then map_sum (\<lambda>e. e) Inr (make_verification_evidence (absent_evidence v False))
         else if \<not> is_file fs target then Inr (Inl TARGET_READ_FAILED)
         else (case file_size fs target of
                 None \<Rightarrow> Inr (Inl TARGET_READ_FAILED)
               | Some n \<Rightarrow>
                   if int n > max_bytes v then Inr (Inl VERIFY_TARGET_TOO_LARGE)
                   else (case read_bytes fs target of
                           None \<Rightarrow> Inr (Inl TARGET_READ_FAILED)
                         | Some data \<Rightarrow>
                             map_sum (\<lambda>e. e) Inr (make_verification_evidence
                               \<lparr>ve_target_path = vs_target_path v, ve_check = check v, observed_exists = True,
                                observed_fingerprint = Some (sha data), observed_bytes = length data\<rparr>))))"

definition evaluate :: "fs \<Rightarrow> path \<Rightarrow> verification_specification \<Rightarrow> verification_evidence \<Rightarrow> bool" where
  "evaluate fs target v e =
     (if check v = FILE_EXISTS then observed_exists e
      else if check v = FILE_ABSENT then \<not> observed_exists e
      else if \<not> observed_exists e then False
      else if check v = EXPECTED_FINGERPRINT then observed_fingerprint e = expected_fingerprint v
      else read_text fs target \<noteq> None \<and> read_text fs target = map_option code_points (expected_content v))"

definition verifier_result :: "string \<Rightarrow> verification_request \<Rightarrow> verification_status \<Rightarrow> verification_failure option
    \<Rightarrow> verification_evidence option \<Rightarrow> py_error + verification_result" where
  "verifier_result new q st c ev = make_verification_result
     \<lparr>verification_id = new, vx_request_id = request_id q, vx_run_id = vr_run_id q,
      receipt_id = mutation_id (receipt q), vx_specification_id = specification_id (vr_specification q),
      status = st, vx_evidence = ev, vx_failure_code = c, vx_version = ''1.0''\<rparr>"

definition verify :: "(bytes \<Rightarrow> string) \<Rightarrow> path \<Rightarrow> fs \<Rightarrow> string \<Rightarrow> verification_request \<Rightarrow> py_error + verification_result" where
  "verify sha root fs new q =
     (if \<not> mutation_succeeded (receipt q) then verifier_result new q NOT_RUN (Some MUTATION_NOT_SUCCESSFUL) None
      else case confined_target fs root (vs_target_path (vr_specification q)) of
        Inl c \<Rightarrow> verifier_result new q V_FAILED (Some c) None
      | Inr target \<Rightarrow>
          bind_res (observe sha fs target (vr_specification q)) (\<lambda>seen.
            case seen of
              Inl c \<Rightarrow> verifier_result new q V_FAILED (Some c) None
            | Inr ev \<Rightarrow>
                if evaluate fs target (vr_specification q) ev then verifier_result new q PASSED None (Some ev)
                else verifier_result new q V_FAILED (Some ASSERTION_FAILED) (Some ev)))"

section \<open>The completion policy\<close>

definition assess :: "mutation_receipt \<Rightarrow> verification_result \<Rightarrow> py_error + objective_assessment" where
  "assess r v =
     (if mutation_id r \<noteq> receipt_id v then Inl (ValueError ''verification receipt_id must match supplied receipt'')
      else let verdict = (\<lambda>st c. make_assessment \<lparr>objective_status = st, oa_verification_id = verification_id v,
             oa_receipt_id = mutation_id r, oa_failure_code = c\<rparr>)
      in if \<not> mutation_succeeded r then verdict NOT_SATISFIED (Some OBJECTIVE_MUTATION_NOT_SUCCESSFUL)
         else if status v \<noteq> PASSED then verdict NOT_SATISFIED (Some VERIFICATION_NOT_PASSED)
         else verdict SATISFIED None)"

section \<open>The abstract meaning of a specification\<close>

text \<open>What a specification says of the tree: of the file the target path denotes, within the size bound.\<close>

definition spec_holds :: "(bytes \<Rightarrow> string) \<Rightarrow> fs \<Rightarrow> path \<Rightarrow> verification_specification \<Rightarrow> bool" where
  "spec_holds sha fs target v \<longleftrightarrow>
     (if check v = FILE_ABSENT then \<not> path_exists fs target
      else case read_bytes fs target of
        None \<Rightarrow> False
      | Some data \<Rightarrow> int (length data) \<le> max_bytes v \<and>
          (case check v of
             EXACT_CONTENT \<Rightarrow> map_option universal_newlines (utf8_decode data) = map_option code_points (expected_content v)
               \<and> expected_content v \<noteq> None
           | EXPECTED_FINGERPRINT \<Rightarrow> expected_fingerprint v = Some (sha data)
           | _ \<Rightarrow> True))"

lemma read_bytes_file:
  "read_bytes fs p = Some data \<Longrightarrow> path_exists fs p \<and> is_file fs p \<and> file_size fs p = Some (length data)"
  by (auto simp: read_bytes_def path_exists_def is_file_def file_size_def split: option.splits entry.splits bool.splits)

lemma make_specification_Inr: "make_specification v = Inr w \<longleftrightarrow> w = v \<and> first_error (specification_errors v) = None"
  by (auto simp: make_specification_def guarded_Inr_iff)

lemma specification_path: "make_specification v = Inr v \<Longrightarrow> first_error (relative_path_errors (vs_target_path v)) = None"
  by (auto simp: make_specification_Inr specification_errors_def first_error_None_iff simp del: first_error.simps)

lemma make_evidence_ok:
  assumes "first_error (relative_path_errors (ve_target_path e)) = None"
    and "\<forall>f. observed_fingerprint e = Some f \<longrightarrow> length f = 64"
  shows "make_verification_evidence e = Inr e"
  using assms
  by (auto simp: make_verification_evidence_def guarded_def first_error_None_iff simp del: first_error.simps
      split: option.splits)

lemma verifier_result_ok:
  assumes "make_request q = Inr q" and "make_specification (vr_specification q) = Inr (vr_specification q)"
    and "\<not> blank new" and "st = PASSED \<longleftrightarrow> c = None"
  shows "\<exists>r. verifier_result new q st c ev = Inr r \<and> status r = st \<and> receipt_id r = mutation_id (receipt q) \<and>
    vx_run_id r = re_run_id (receipt q) \<and> vx_evidence r = ev \<and> verification_id r = new \<and> vx_failure_code r = c"
  using assms
  by (auto simp: verifier_result_def make_verification_result_def make_request_def guarded_Inr_iff make_specification_Inr
      specification_errors_def is_receipt_evidence_def first_error_None_iff simp del: first_error.simps)

text \<open>Observing and evaluating decide the specification, and building the evidence never fails.\<close>

definition observed :: "(bytes \<Rightarrow> string) \<Rightarrow> fs \<Rightarrow> path \<Rightarrow> verification_specification
    \<Rightarrow> verification_failure + verification_evidence \<Rightarrow> bool" where
  "observed sha fs target v out \<longleftrightarrow>
     observe sha fs target v = Inr out \<and>
     (case out of Inl c \<Rightarrow> \<not> spec_holds sha fs target v
      | Inr ev \<Rightarrow> evaluate fs target v ev = spec_holds sha fs target v \<and> ve_target_path ev = vs_target_path v)"

lemma observe_ok:
  assumes m: "make_specification v = Inr v" and h: "\<forall>b. length (sha b) = 64"
  shows "\<exists>out. observed sha fs target v out"
proof -
  note pe = specification_path [OF m]
  have absent: "make_verification_evidence (absent_evidence v b) = Inr (absent_evidence v b)" for b
    by (rule make_evidence_ok) (use pe in \<open>simp_all add: absent_evidence_def\<close>)
  have absent_fields: "observed_exists (absent_evidence v b) = b" "ve_target_path (absent_evidence v b) = vs_target_path v" for b
    by (simp_all add: absent_evidence_def)
  show ?thesis
  proof (cases "check v = FILE_ABSENT \<or> \<not> path_exists fs target")
    case True
    have none: "\<not> path_exists fs target \<Longrightarrow> read_bytes fs target = None"
      using read_bytes_file by (cases "read_bytes fs target") auto
    from True show ?thesis
      by (intro exI [of _ "Inr (absent_evidence v (path_exists fs target))"])
        (auto simp: observed_def observe_def absent Let_def evaluate_def spec_holds_def none absent_fields)
  next
    case False
    then have c: "check v \<noteq> FILE_ABSENT" and ex: "path_exists fs target" by auto
    show ?thesis
    proof (cases "read_bytes fs target")
      case None
      then show ?thesis using c ex
        by (auto simp: observed_def observe_def Let_def spec_holds_def split: option.split)
    next
      case (Some data)
      note f = read_bytes_file [OF Some]
      let ?ev = "\<lparr>ve_target_path = vs_target_path v, ve_check = check v, observed_exists = True,
        observed_fingerprint = Some (sha data), observed_bytes = length data\<rparr>"
      have me: "make_verification_evidence ?ev = Inr ?ev"
        by (rule make_evidence_ok) (use pe h in simp_all)
      have "evaluate fs target v ?ev = spec_holds sha fs target v" if "int (length data) \<le> max_bytes v"
        using c Some that
        by (cases "expected_content v") (auto simp: evaluate_def spec_holds_def read_text_def split: verification_check.splits)
      then show ?thesis using c ex f Some me
        by (cases "int (length data) > max_bytes v")
          (auto simp: observed_def observe_def Let_def spec_holds_def)
    qed
  qed
qed

lemma confined_target_Inr:
  "confined_target fs root s = Inr p \<Longrightarrow> p = root @ path_parts s \<and> take (length root) (resolve fs p) = root \<and> \<not> is_absolute s \<and>
    ''..'' \<notin> set (path_parts s)"
  by (auto simp: confined_target_def relative_path_errors_def first_error_None_iff simp del: first_error.simps split: if_splits)

text \<open>A path without links, once it passes the test of its form, is confined.\<close>

lemma meets_link_free: "link_free fs [] base \<Longrightarrow> link_free fs base ps \<Longrightarrow> \<not> meets_link fs base ps"
proof (induction ps arbitrary: base)
  case (Cons p ps)
  then have "link_free fs [] (base @ [p])" by (simp add: link_free_append)
  moreover have "\<not> is_symlink fs (base @ [p])"
    using Cons.prems own_entry_snoc [of fs base p] by (auto simp: is_symlink_def split: option.splits entry.splits)
  ultimately show ?case using Cons.IH Cons.prems(2) by simp
qed simp

lemma confined_link_free:
  assumes "link_free fs [] (root @ path_parts s)" and "first_error (relative_path_errors s) = None"
  shows "confined_target fs root s = Inr (root @ path_parts s)"
  using assms meets_link_free [of fs root "path_parts s"] resolve_link_free [OF assms(1)]
  by (auto simp: confined_target_def link_free_append)

text \<open>The verdict of \<open>verify\<close> on accepted records: it always returns, and passes exactly when it should.\<close>

definition verdict_ok :: "(bytes \<Rightarrow> string) \<Rightarrow> path \<Rightarrow> fs \<Rightarrow> verification_request \<Rightarrow> bool" where
  "verdict_ok sha root fs q \<longleftrightarrow> mutation_succeeded (receipt q) \<and>
     (\<exists>p. confined_target fs root (vs_target_path (vr_specification q)) = Inr p \<and> spec_holds sha fs p (vr_specification q))"

lemma verify_verdict:
  assumes q: "make_request q = Inr q" and m: "make_specification (vr_specification q) = Inr (vr_specification q)"
    and n: "\<not> blank new" and h: "\<forall>b. length (sha b) = 64"
  shows "\<exists>r. verify sha root fs new q = Inr r \<and> (status r = PASSED \<longleftrightarrow> verdict_ok sha root fs q) \<and>
    (status r = NOT_RUN \<longleftrightarrow> \<not> mutation_succeeded (receipt q)) \<and> receipt_id r = mutation_id (receipt q) \<and>
    vx_run_id r = re_run_id (receipt q) \<and> verification_id r = new"
proof -
  note res = verifier_result_ok [OF q m n]
  let ?s = "vr_specification q"
  show ?thesis
  proof (cases "mutation_succeeded (receipt q)")
    case False
    with res [of NOT_RUN "Some MUTATION_NOT_SUCCESSFUL" None] show ?thesis
      by (auto simp: verify_def verdict_ok_def)
  next
    case ms: True
    show ?thesis
    proof (cases "confined_target fs root (vs_target_path ?s)")
      case (Inl c)
      with ms res [of V_FAILED "Some c" None] show ?thesis by (auto simp: verify_def verdict_ok_def)
    next
      case (Inr p)
      from observe_ok [OF m h] obtain out where o: "observed sha fs p ?s out" by blast
      show ?thesis
      proof (cases out)
        case (Inl c)
        with o ms Inr res [of V_FAILED "Some c" None] show ?thesis
          by (auto simp: verify_def verdict_ok_def observed_def)
      next
        case ev: (Inr ev)
        from o ev have e: "observe sha fs p ?s = Inr (Inr ev)" "evaluate fs p ?s ev = spec_holds sha fs p ?s"
          by (auto simp: observed_def)
        show ?thesis
        proof (cases "spec_holds sha fs p ?s")
          case True
          with e ms Inr res [of PASSED None "Some ev"] show ?thesis by (auto simp: verify_def verdict_ok_def)
        next
          case False
          with e ms Inr res [of V_FAILED "Some ASSERTION_FAILED" "Some ev"] show ?thesis
            by (auto simp: verify_def verdict_ok_def)
        qed
      qed
    qed
  qed
qed

lemma assess_verdict:
  assumes "\<not> blank (verification_id v)" and "\<not> blank (mutation_id r)" and "mutation_id r = receipt_id v"
  shows "\<exists>a. assess r v = Inr a \<and> (objective_status a = SATISFIED \<longleftrightarrow> mutation_succeeded r \<and> status v = PASSED) \<and>
    oa_failure_code a = (if \<not> mutation_succeeded r then Some OBJECTIVE_MUTATION_NOT_SUCCESSFUL
      else if status v \<noteq> PASSED then Some VERIFICATION_NOT_PASSED else None)"
  using assms by (auto simp: assess_def make_assessment_def guarded_def Let_def)

end
