(* ===== verification/Reflection.thy ===== *)
theory Reflection
  imports ExecutionLedger Complex_Main
begin

text \<open>
  The generic reflection service the governed adapter calls: \<open>reflection/models.py\<close>,
  \<open>reflection/runtime.py\<close>, \<open>reflection/default_engine.py\<close>, and the experience built from a report
  (\<open>memory/experience.py\<close>, the models of \<open>memory/models.py\<close> it uses).

  A confidence is a rational number. A value of type \<open>Any\<close> the engine inspects with \<open>hasattr\<close> is a
  record whose optional fields are the attributes it may have. The identifiers \<open>uuid4\<close> draws are a
  parameter, numbered in the order the code draws them.
\<close>

section \<open>Vocabulary\<close>

datatype finding_category =
    FC_PLANNING | FC_EXECUTION | FC_WORKER | FC_SCHEDULER | FC_REVIEW | FC_BENCHMARK | FC_ARCHITECTURE | FC_TESTING

datatype severity = SEV_INFO | SEV_LOW | SEV_MEDIUM | SEV_HIGH | SEV_CRITICAL

datatype recommendation_priority = PR_LOW | PR_NORMAL | PR_HIGH | PR_URGENT

datatype memory_category =
    MC_PLANNING | MC_EXECUTION | MC_TESTING | MC_ARCHITECTURE | MC_REVIEW | MC_BENCHMARK | MC_WORKER | MC_CAPABILITY

datatype knowledge_level = OBSERVATION | LESSON | PATTERN | RULE

text \<open>What the code below raises; \<open>ReflectionFailure\<close> is \<open>ReflectionError\<close>, with the exception it wraps.\<close>

datatype reflect_exn = Invalid py_error | AttributeMissing string | ReflectionFailure reflect_exn | BusRaised

section \<open>Models\<close>

definition nonempty_str :: "string \<Rightarrow> string \<Rightarrow> py_error + string" where
  "nonempty_str field s =
     (if blank s then Inl (ValueError (field @ '' cannot be empty or whitespace'')) else Inr (py_strip s))"

definition valid_confidence :: "rat \<Rightarrow> py_error + rat" where
  "valid_confidence q =
     (if \<not> (0 \<le> q \<and> q \<le> 1) then Inl (ValueError ''confidence must be between 0.0 and 1.0'') else Inr q)"

definition valid_score :: "int \<Rightarrow> py_error + int" where
  "valid_score n = (if \<not> (0 \<le> n \<and> n \<le> 100) then Inl (ValueError ''score must be between 0 and 100'') else Inr n)"

text \<open>\<open>MappingProxyType(dict(value))\<close>.\<close>

fun proxy_mapping :: "string \<Rightarrow> pyval \<Rightarrow> py_error + pyval" where
  "proxy_mapping field (PDict kvs) = Inr (PProxy kvs)"
| "proxy_mapping field (PProxy kvs) = Inr (PProxy kvs)"
| "proxy_mapping field v = Inl (TypeError (field @ '' must be a Mapping''))"

record finding =
  fi_id :: string
  fi_category :: finding_category
  fi_severity :: severity
  fi_title :: string
  fi_description :: string
  fi_evidence :: string
  fi_confidence :: rat
  fi_metadata :: pyval

definition make_finding :: "finding \<Rightarrow> py_error + finding" where
  "make_finding f =
     bind_res (nonempty_str ''title'' (fi_title f)) (\<lambda>t.
     bind_res (valid_confidence (fi_confidence f)) (\<lambda>c.
     bind_res (proxy_mapping ''metadata'' (fi_metadata f)) (\<lambda>m.
       Inr (f\<lparr>fi_title := t, fi_confidence := c, fi_metadata := m\<rparr>))))"

record recommendation =
  rm_id :: string
  rm_priority :: recommendation_priority
  rm_title :: string
  rm_description :: string
  rm_action :: string
  rm_confidence :: rat
  rm_metadata :: pyval

definition make_recommendation :: "recommendation \<Rightarrow> py_error + recommendation" where
  "make_recommendation r =
     bind_res (nonempty_str ''title'' (rm_title r)) (\<lambda>t.
     bind_res (valid_confidence (rm_confidence r)) (\<lambda>c.
     bind_res (proxy_mapping ''metadata'' (rm_metadata r)) (\<lambda>m.
       Inr (r\<lparr>rm_title := t, rm_confidence := c, rm_metadata := m\<rparr>))))"

record reflection_summary =
  strengths :: "string list"
  weaknesses :: "string list"
  risks :: "string list"
  opportunities :: "string list"

record reflection_metrics =
  planning_score :: int
  execution_score :: int
  review_score :: int
  worker_score :: int
  architecture_score :: int
  overall_score :: int

definition make_metrics :: "reflection_metrics \<Rightarrow> py_error + reflection_metrics" where
  "make_metrics m =
     bind_res (valid_score (planning_score m)) (\<lambda>_.
     bind_res (valid_score (execution_score m)) (\<lambda>_.
     bind_res (valid_score (review_score m)) (\<lambda>_.
     bind_res (valid_score (worker_score m)) (\<lambda>_.
     bind_res (valid_score (architecture_score m)) (\<lambda>_.
     bind_res (valid_score (overall_score m)) (\<lambda>_. Inr m))))))"

text \<open>The attributes the engine looks for in the run result, the review and the benchmark.\<close>

record run_view =
  rn_run_id :: string
  rn_outcome :: "string option"
  rn_summary :: "string option"

record review_view =
  rv_decision :: "string option"
  rv_summary :: "string option"
  rv_score :: "int option"

record benchmark_view =
  bm_success :: "bool option"
  bm_score :: "int option option"

record reflection_context =
  rc_run_id :: string
  run_result :: run_view
  review_report :: "review_view option"
  benchmark_result :: "benchmark_view option"
  rc_metadata :: pyval

definition make_reflection_context :: "reflection_context \<Rightarrow> py_error + reflection_context" where
  "make_reflection_context c =
     bind_res (nonempty_str ''run_id'' (rc_run_id c)) (\<lambda>r.
     bind_res (proxy_mapping ''metadata'' (rc_metadata c)) (\<lambda>m.
       Inr (c\<lparr>rc_run_id := r, rc_metadata := m\<rparr>)))"

record reflection_report =
  rp_id :: string
  rp_run_id :: string
  rp_created_at :: int
  rp_summary :: reflection_summary
  findings :: "finding list"
  recommendations :: "recommendation list"
  metrics :: reflection_metrics
  rp_metadata :: pyval

definition make_report :: "reflection_report \<Rightarrow> py_error + reflection_report" where
  "make_report r =
     bind_res (nonempty_str ''run_id'' (rp_run_id r)) (\<lambda>i.
     bind_res (proxy_mapping ''metadata'' (rp_metadata r)) (\<lambda>m.
       Inr (r\<lparr>rp_run_id := i, rp_metadata := m\<rparr>)))"

section \<open>The default engine\<close>

fun severity_order :: "severity \<Rightarrow> int" where
  "severity_order SEV_CRITICAL = 4"
| "severity_order SEV_HIGH = 3"
| "severity_order SEV_MEDIUM = 2"
| "severity_order SEV_LOW = 1"
| "severity_order SEV_INFO = 0"

fun rec_priority_order :: "recommendation_priority \<Rightarrow> int" where
  "rec_priority_order PR_URGENT = 4"
| "rec_priority_order PR_HIGH = 3"
| "rec_priority_order PR_NORMAL = 2"
| "rec_priority_order PR_LOW = 1"

text \<open>The four lists the engine fills.\<close>

record analysis =
  an_findings :: "finding list"
  an_recommendations :: "recommendation list"
  an_strengths :: "string list"
  an_weaknesses :: "string list"

definition drawn :: "analysis \<Rightarrow> nat" where
  "drawn a = length (an_findings a) + length (an_recommendations a)"

text \<open>The fields every call of the engine sets; description, evidence and metadata default as in the class.\<close>

definition add_finding :: "(nat \<Rightarrow> string) \<Rightarrow> analysis \<Rightarrow> finding_category \<Rightarrow> severity \<Rightarrow> string \<Rightarrow> string \<Rightarrow> string \<Rightarrow> rat
    \<Rightarrow> reflect_exn + analysis" where
  "add_finding new a cat sev ttl descr ev conf =
     (case make_finding \<lparr>fi_id = new (drawn a), fi_category = cat, fi_severity = sev, fi_title = ttl,
        fi_description = descr, fi_evidence = ev, fi_confidence = conf, fi_metadata = PDict []\<rparr> of
        Inl e \<Rightarrow> Inl (Invalid e)
      | Inr f \<Rightarrow> Inr (a\<lparr>an_findings := an_findings a @ [f]\<rparr>))"

definition add_recommendation :: "(nat \<Rightarrow> string) \<Rightarrow> analysis \<Rightarrow> recommendation_priority \<Rightarrow> string \<Rightarrow> string \<Rightarrow> string \<Rightarrow> rat
    \<Rightarrow> reflect_exn + analysis" where
  "add_recommendation new a prio ttl descr act conf =
     (case make_recommendation \<lparr>rm_id = new (drawn a), rm_priority = prio, rm_title = ttl, rm_description = descr,
        rm_action = act, rm_confidence = conf, rm_metadata = PDict []\<rparr> of
        Inl e \<Rightarrow> Inl (Invalid e)
      | Inr r \<Rightarrow> Inr (a\<lparr>an_recommendations := an_recommendations a @ [r]\<rparr>))"

definition attribute :: "string \<Rightarrow> 'a option \<Rightarrow> reflect_exn + 'a" where
  "attribute name v = (case v of None \<Rightarrow> Inl (AttributeMissing name) | Some x \<Rightarrow> Inr x)"

definition analyze_execution :: "(nat \<Rightarrow> string) \<Rightarrow> reflection_context \<Rightarrow> analysis \<Rightarrow> reflect_exn + analysis" where
  "analyze_execution new c a =
     (if rn_outcome (run_result c) = Some ''failure''
      then bind_res (attribute ''summary'' (rn_summary (run_result c))) (\<lambda>s.
           bind_res (add_finding new a FC_EXECUTION SEV_CRITICAL ''Execution Failed''
             ''The engineering execution failed to complete successfully.'' s 1) (\<lambda>a.
             Inr (a\<lparr>an_weaknesses := an_weaknesses a @ [''Execution failed'']\<rparr>)))
      else Inr a)"

definition analyze_review :: "(nat \<Rightarrow> string) \<Rightarrow> reflection_context \<Rightarrow> analysis \<Rightarrow> reflect_exn + analysis" where
  "analyze_review new c a =
     (case review_report c of
        None \<Rightarrow> Inr a
      | Some r \<Rightarrow>
          (case rv_decision r of
             Some d \<Rightarrow>
               if d \<noteq> ''approved''
               then bind_res (attribute ''summary'' (rv_summary r)) (\<lambda>s.
                    bind_res (add_finding new a FC_REVIEW SEV_HIGH ''Review Rejected''
                      (''Review decision was '' @ d @ ''.'') s (9 / 10)) (\<lambda>a.
                    bind_res (Inr (a\<lparr>an_weaknesses := an_weaknesses a @ [''Quality review rejected the work'']\<rparr>)) (\<lambda>a.
                      add_recommendation new a PR_HIGH ''Address Review Issues''
                        ''Fix the issues identified in the review report.'' ''Re-execute failed tasks with fixes.'' (9 / 10))))
               else Inr (a\<lparr>an_strengths := an_strengths a @ [''Quality review approved the work'']\<rparr>)
           | None \<Rightarrow> Inr (a\<lparr>an_strengths := an_strengths a @ [''Quality review approved the work'']\<rparr>)))"

definition analyze_benchmark :: "(nat \<Rightarrow> string) \<Rightarrow> reflection_context \<Rightarrow> analysis \<Rightarrow> reflect_exn + analysis" where
  "analyze_benchmark new c a =
     (case benchmark_result c of
        None \<Rightarrow> Inr a
      | Some b \<Rightarrow>
          if bm_success b = Some False
          then bind_res (add_finding new a FC_BENCHMARK SEV_HIGH ''Benchmark Failed''
                 ''The engineering task failed to pass the benchmark.'' [] 1) (\<lambda>a.
                 Inr (a\<lparr>an_weaknesses := an_weaknesses a @ [''Benchmark failed'']\<rparr>))
          else (case bm_score b of
                  None \<Rightarrow> Inr a
                | Some sc \<Rightarrow>
                    let score = (case sc of None \<Rightarrow> 100 | Some n \<Rightarrow> n) in
                    if score < 80
                    then bind_res (add_finding new a FC_TESTING SEV_MEDIUM ''Low Test Coverage''
                           (''Benchmark score was only '' @ show_int score @ ''.'') [] (8 / 10)) (\<lambda>a.
                         bind_res (Inr (a\<lparr>an_weaknesses := an_weaknesses a @ [''Low benchmark score'']\<rparr>)) (\<lambda>a.
                           add_recommendation new a PR_NORMAL ''Increase Test Coverage''
                             ''Add more unit tests to cover edge cases.''
                             ''Schedule Testing Worker for additional tests.'' (8 / 10)))
                    else Inr a))"

definition analyze_clean :: "(nat \<Rightarrow> string) \<Rightarrow> analysis \<Rightarrow> reflect_exn + analysis" where
  "analyze_clean new a =
     (if an_findings a = []
      then add_finding new (a\<lparr>an_strengths := an_strengths a @ [''No issues detected'']\<rparr>) FC_EXECUTION SEV_INFO
             ''Successful Execution'' ''The engineering task completed without detectable issues.'' [] 1
      else Inr a)"

definition engine_metrics :: "reflection_context \<Rightarrow> reflect_exn + reflection_metrics" where
  "engine_metrics c =
     bind_res (attribute ''outcome'' (rn_outcome (run_result c))) (\<lambda>o'.
       let ex = (if o' = ''success'' then 100 else 0);
           rv = (case review_report c of None \<Rightarrow> 100 | Some r \<Rightarrow> (case rv_score r of None \<Rightarrow> 100 | Some n \<Rightarrow> n))
       in case make_metrics \<lparr>planning_score = 100, execution_score = ex, review_score = rv, worker_score = 100,
              architecture_score = 100, overall_score = (ex + rv) div 2\<rparr> of
            Inl e \<Rightarrow> Inl (Invalid e) | Inr m \<Rightarrow> Inr m)"

text \<open>\<open>DefaultReflectionEngine.reflect\<close>; \<open>now\<close> is the time the report is created.\<close>

definition default_engine :: "(nat \<Rightarrow> string) \<Rightarrow> int \<Rightarrow> reflection_context \<Rightarrow> reflect_exn + reflection_report" where
  "default_engine new now c =
     bind_res (analyze_execution new c \<lparr>an_findings = [], an_recommendations = [], an_strengths = [], an_weaknesses = []\<rparr>) (\<lambda>a.
     bind_res (analyze_review new c a) (\<lambda>a.
     bind_res (analyze_benchmark new c a) (\<lambda>a.
     bind_res (analyze_clean new a) (\<lambda>a.
     bind_res (engine_metrics c) (\<lambda>m.
       case make_report
         \<lparr>rp_id = new (drawn a), rp_run_id = rc_run_id c, rp_created_at = now,
          rp_summary = \<lparr>strengths = an_strengths a, weaknesses = an_weaknesses a, risks = [], opportunities = []\<rparr>,
          findings = sort_key (\<lambda>f. (- severity_order (fi_severity f), - fi_confidence f, fi_title f)) (an_findings a),
          recommendations = sort_key (\<lambda>r. (- rec_priority_order (rm_priority r), - rm_confidence r, rm_title r)) (an_recommendations a),
          metrics = m, rp_metadata = PDict []\<rparr> of
         Inl e \<Rightarrow> Inl (Invalid e) | Inr r \<Rightarrow> Inr r)))))"

section \<open>The runtime\<close>

datatype reflection_event = ReflectionStarted string | ReflectionCompleted string string | ReflectionFailed string reflect_exn

text \<open>
  \<open>ReflectionRuntime.reflect\<close>: the events published, and the report or the exception. Publishing
  raises when a handler does (\<open>raises\<close>); inside the \<open>try\<close> that counts as a failure of the engine.
\<close>

definition runtime_reflect :: "(reflection_event \<Rightarrow> bool) \<Rightarrow> (reflection_context \<Rightarrow> reflect_exn + reflection_report)
    \<Rightarrow> reflection_context \<Rightarrow> reflection_event list \<times> (reflect_exn + reflection_report)" where
  "runtime_reflect raises engine c =
     (let started = ReflectionStarted (rc_run_id c);
          fail = (\<lambda>evs e. let failed = ReflectionFailed (rc_run_id c) e
                          in (evs @ [failed], Inl (if raises failed then BusRaised else ReflectionFailure e)))
      in if raises started then ([started], Inl BusRaised)
         else case engine c of
           Inl e \<Rightarrow> fail [started] e
         | Inr r \<Rightarrow>
             let completed = ReflectionCompleted (rc_run_id c) (rp_id r)
             in if raises completed then fail [started, completed] BusRaised else ([started, completed], Inr r))"

section \<open>Experience\<close>

fun memory_category_of :: "finding_category \<Rightarrow> py_error + memory_category" where
  "memory_category_of FC_PLANNING = Inr MC_PLANNING"
| "memory_category_of FC_EXECUTION = Inr MC_EXECUTION"
| "memory_category_of FC_WORKER = Inr MC_WORKER"
| "memory_category_of FC_SCHEDULER = Inl (ValueError ([CHR 0x27] @ ''scheduler'' @ [CHR 0x27] @ '' is not a valid MemoryCategory''))"
| "memory_category_of FC_REVIEW = Inr MC_REVIEW"
| "memory_category_of FC_BENCHMARK = Inr MC_BENCHMARK"
| "memory_category_of FC_ARCHITECTURE = Inr MC_ARCHITECTURE"
| "memory_category_of FC_TESTING = Inr MC_TESTING"

record lesson =
  le_id :: string
  le_category :: memory_category
  le_description :: string
  le_evidence :: string
  le_confidence :: rat
  le_recommendation :: string
  le_level :: knowledge_level

definition make_lesson :: "lesson \<Rightarrow> py_error + lesson" where
  "make_lesson l =
     bind_res (nonempty_str ''description'' (le_description l)) (\<lambda>d.
     bind_res (valid_confidence (le_confidence l)) (\<lambda>c. Inr (l\<lparr>le_description := d, le_confidence := c\<rparr>)))"

record experience =
  ex_id :: string
  project_type :: string
  goal_type :: string
  complexity :: string
  benchmark_score :: rat
  ex_outcome :: string
  ex_confidence :: rat
  lessons :: "lesson list"
  source_entries :: "string list"

definition make_experience :: "experience \<Rightarrow> py_error + experience" where
  "make_experience e =
     bind_res (nonempty_str ''project_type'' (project_type e)) (\<lambda>p.
     bind_res (valid_confidence (ex_confidence e)) (\<lambda>c. Inr (e\<lparr>project_type := p, ex_confidence := c\<rparr>)))"

definition lower_char :: "char \<Rightarrow> char" where
  "lower_char c = (let n = (of_char c :: nat)
     in if (65 \<le> n \<and> n \<le> 90) \<or> (192 \<le> n \<and> n \<le> 222 \<and> n \<noteq> 215) then char_of (n + 32) else c)"

definition project_of :: "string \<Rightarrow> string" where
  "project_of raw =
     (let l = List.map lower_char raw in
      if sublist ''fastapi'' l then ''fastapi'' else if sublist ''flask'' l then ''flask''
      else if sublist ''calculator'' l then ''calculator'' else ''unknown'')"

definition high_action :: "reflection_report \<Rightarrow> string" where
  "high_action r = (case filter (\<lambda>x. rm_priority x = PR_HIGH) (recommendations r) of [] \<Rightarrow> [] | x # _ \<Rightarrow> rm_action x)"

fun build_lessons :: "(nat \<Rightarrow> string) \<Rightarrow> nat \<Rightarrow> string \<Rightarrow> finding list \<Rightarrow> py_error + lesson list" where
  "build_lessons new n act [] = Inr []"
| "build_lessons new n act (f # fs) =
     bind_res (memory_category_of (fi_category f)) (\<lambda>cat.
     bind_res (make_lesson \<lparr>le_id = new n, le_category = cat, le_description = fi_description f, le_evidence = fi_evidence f,
       le_confidence = fi_confidence f, le_recommendation = act, le_level = LESSON\<rparr>) (\<lambda>l.
     bind_res (build_lessons new (n + 1) act fs) (\<lambda>ls. Inr (l # ls))))"

text \<open>\<open>ExperienceBuilder.build_from_reflection\<close>.\<close>

definition build_from_reflection :: "(nat \<Rightarrow> string) \<Rightarrow> reflection_context \<Rightarrow> reflection_report \<Rightarrow> py_error + experience" where
  "build_from_reflection new c r =
     bind_res (build_lessons new 0 (high_action r) (findings r)) (\<lambda>ls.
       make_experience
         \<lparr>ex_id = new (length ls),
          project_type = project_of (case rn_summary (run_result c) of None \<Rightarrow> [] | Some s \<Rightarrow> s),
          goal_type = [], complexity = ''medium'', benchmark_score = of_int (overall_score (metrics r)),
          ex_outcome = (if overall_score (metrics r) > 50 then ''success'' else ''failure''),
          ex_confidence = 9 / 10, lessons = ls, source_entries = [rc_run_id c]\<rparr>)"

end
