(* ===== verification/Recovery.thy ===== *)
theory Recovery
  imports GovernedVerification Reflection StateMachine
begin

text \<open>
  Recovery after a failed verification: \<open>governed_execution/authority.py\<close>, \<open>reflection.py\<close> and
  \<open>replanning.py\<close>. The reflection adapter is given the engine and the bus of theory
  \<open>Reflection\<close>. \<open>GovernedReflectionError\<close>, \<open>ReplanningError\<close> and
  \<open>FreshIterationAuthorityError\<close> are \<open>ValueError\<close>s and appear as such.
\<close>

section \<open>Executable authority\<close>

record fresh_authority =
  fa_execution_id :: string
  fa_iteration :: int
  fa_context_artifact_id :: string
  fa_context_fingerprint :: string
  fa_decision_request_id :: string
  fa_decision_id :: string
  fa_proposal_id :: string
  fa_authorization_id :: string
  fa_version :: string

text \<open>One guard per field of a loop over field names.\<close>

definition empty_fields :: "(string \<times> string) list \<Rightarrow> (bool \<times> py_error) list" where
  "empty_fields fs = List.map (\<lambda>(n, v). (blank v, ValueError (n @ '' cannot be empty''))) fs"

definition make_authority :: "fresh_authority \<Rightarrow> py_error + fresh_authority" where
  "make_authority a = guarded
     (empty_fields
        [(''execution_id'', fa_execution_id a), (''context_artifact_id'', fa_context_artifact_id a),
         (''context_fingerprint'', fa_context_fingerprint a), (''decision_request_id'', fa_decision_request_id a),
         (''decision_id'', fa_decision_id a), (''proposal_id'', fa_proposal_id a),
         (''authorization_id'', fa_authorization_id a)]
      @ [(fa_iteration a < 1, ValueError ''iteration must be a positive integer''),
         (fa_version a \<noteq> ''1.0'', ValueError ''unsupported fresh iteration authority contract version'')]) a"

text \<open>The field names the loop of \<open>validate_fresh_authority\<close> compares, with their values.\<close>

definition authority_fields :: "fresh_authority \<Rightarrow> (string \<times> string) list" where
  "authority_fields a =
     [(''context_artifact_id'', fa_context_artifact_id a), (''context_fingerprint'', fa_context_fingerprint a),
      (''decision_request_id'', fa_decision_request_id a), (''decision_id'', fa_decision_id a),
      (''proposal_id'', fa_proposal_id a), (''authorization_id'', fa_authorization_id a)]"

definition validate_fresh_authority :: "fresh_authority \<Rightarrow> fresh_authority \<Rightarrow> py_error + unit" where
  "validate_fresh_authority prev cand = guarded
     ([(fa_execution_id cand \<noteq> fa_execution_id prev, ValueError ''candidate authority belongs to another execution''),
       (fa_iteration cand \<noteq> fa_iteration prev + 1,
          ValueError ''candidate authority must be for the next serial iteration'')]
      @ map2 (\<lambda>(n, v) (_, w). (v = w, ValueError (''fresh authority reuses stale '' @ n)))
          (authority_fields cand) (authority_fields prev)) ()"

section \<open>Governed reflection\<close>

record provenance =
  pv_execution_id :: string
  pv_run_id :: string
  pv_iteration :: int
  pv_receipt_id :: string
  pv_verification_id :: string
  pv_reflection_id :: string
  pv_context_artifact_id :: string
  pv_context_fingerprint :: string
  pv_policy_version :: string
  pv_version :: string

definition make_provenance :: "provenance \<Rightarrow> py_error + provenance" where
  "make_provenance p = guarded
     (empty_fields
        [(''execution_id'', pv_execution_id p), (''run_id'', pv_run_id p), (''receipt_id'', pv_receipt_id p),
         (''verification_id'', pv_verification_id p), (''reflection_id'', pv_reflection_id p),
         (''context_artifact_id'', pv_context_artifact_id p), (''context_fingerprint'', pv_context_fingerprint p),
         (''policy_version'', pv_policy_version p)]
      @ [(pv_iteration p < 1, ValueError ''iteration must be a positive integer''),
         (pv_version p \<noteq> ''1.0'', ValueError ''unsupported governed reflection contract version'')]) p"

record reflection_input =
  gi_context :: exec_context
  gi_receipt :: mutation_receipt
  gi_verification :: verification_result
  gi_objective :: objective_assessment
  gi_context_artifact_id :: string
  gi_context_fingerprint :: string
  gi_decision_id :: string
  gi_proposal_id :: string
  gi_authorization_id :: string
  gi_policy_version :: string
  gi_metadata :: pyval
  gi_version :: string

text \<open>\<open>_freeze_metadata\<close>: string keys, scalar values. A member of a \<open>StrEnum\<close> is the \<open>PStr\<close> of its value.\<close>

fun scalar :: "pyval \<Rightarrow> bool" where
  "scalar (PStr _) = True"
| "scalar (PInt _) = True"
| "scalar (PBool _) = True"
| "scalar PNone = True"
| "scalar (PAtom t _) = (t = ''float'')"
| "scalar _ = False"

fun freeze_scalars :: "string \<Rightarrow> (pyval \<times> pyval) list \<Rightarrow> py_error option" where
  "freeze_scalars field [] = None"
| "freeze_scalars field ((k, v) # kvs) =
     (if \<not> is_pystr k then Some (TypeError (field @ '' keys must be strings''))
      else if \<not> scalar v then Some (TypeError (field @ '' values must be redacted scalar values''))
      else freeze_scalars field kvs)"

definition freeze_metadata :: "string \<Rightarrow> pyval \<Rightarrow> py_error + pyval" where
  "freeze_metadata field v =
     bind_res (case v of PDict kvs \<Rightarrow> Inr kvs | PProxy kvs \<Rightarrow> Inr kvs | _ \<Rightarrow> Inl (TypeError (field @ '' must be a Mapping'')))
       (\<lambda>kvs. case freeze_scalars field kvs of Some e \<Rightarrow> Inl e | None \<Rightarrow> Inr (PProxy kvs))"

definition is_reflection_receipt :: "mutation_receipt \<Rightarrow> bool" where
  "is_reflection_receipt r \<longleftrightarrow> re_authorization_id r \<noteq> None"

definition receipt_completed :: "mutation_receipt \<Rightarrow> bool" where
  "receipt_completed r \<longleftrightarrow> result r = MUT_COMPLETED \<and> verification_passed r"

definition ledger_has :: "evidence_kind \<Rightarrow> string \<Rightarrow> exec_context \<Rightarrow> bool" where
  "ledger_has k i c \<longleftrightarrow> list_ex (\<lambda>e. ev_kind e = k \<and> reference_id e = i) (evidence c)"

definition reflection_input_errors :: "reflection_input \<Rightarrow> (bool \<times> py_error) list" where
  "reflection_input_errors i =
    (let c = gi_context i; r = gi_receipt i; v = gi_verification i; ob = gi_objective i in
     [(\<not> is_reflection_receipt r, TypeError ''receipt must provide immutable mutation receipt evidence''),
      (state c \<noteq> REFLECTING, ValueError ''governed reflection requires the reflecting state''),
      (iteration c < 1, ValueError ''governed reflection requires an active iteration''),
      (re_run_id r \<noteq> exec_context.run_id c, ValueError ''receipt run_id must match execution context''),
      (vx_run_id v \<noteq> exec_context.run_id c, ValueError ''verification run_id must match execution context''),
      (receipt_id v \<noteq> mutation_id r, ValueError ''verification must bind the same receipt''),
      (oa_receipt_id ob \<noteq> mutation_id r, ValueError ''objective must bind the same receipt''),
      (oa_verification_id ob \<noteq> verification_id v, ValueError ''objective must bind the same verification''),
      (\<not> receipt_completed r, ValueError ''governed reflection requires a completed mutation receipt''),
      (status v \<noteq> V_FAILED, ValueError ''governed reflection requires a failed trusted verification''),
      (objective_status ob \<noteq> NOT_SATISFIED, ValueError ''governed reflection requires an unsatisfied objective''),
      (gi_proposal_id i \<noteq> re_proposal_id r, ValueError ''proposal_id must match the receipt''),
      (re_authorization_id r = None \<or> re_authorization_id r \<noteq> Some (gi_authorization_id i),
         ValueError ''authorization_id must match the receipt'')]
     @ empty_fields
         [(''context_artifact_id'', gi_context_artifact_id i), (''context_fingerprint'', gi_context_fingerprint i),
          (''decision_id'', gi_decision_id i), (''proposal_id'', gi_proposal_id i),
          (''authorization_id'', gi_authorization_id i), (''policy_version'', gi_policy_version i)]
     @ [(gi_version i \<noteq> ''1.0'', ValueError ''unsupported governed reflection contract version''),
        (\<not> ledger_has MUTATION_RECEIPT (mutation_id r) c \<or> \<not> ledger_has VERIFICATION (verification_id v) c,
           ValueError ''execution ledger must contain matching receipt and verification evidence'')])"

definition make_reflection_input :: "reflection_input \<Rightarrow> py_error + reflection_input" where
  "make_reflection_input i =
     (case first_error (reflection_input_errors i) of
        Some e \<Rightarrow> Inl e
      | None \<Rightarrow> bind_res (freeze_metadata ''redacted_metadata'' (gi_metadata i)) (\<lambda>m. Inr (i\<lparr>gi_metadata := m\<rparr>)))"

definition provenance_of :: "reflection_input \<Rightarrow> string \<Rightarrow> py_error + provenance" where
  "provenance_of i reflection_id = make_provenance
     \<lparr>pv_execution_id = execution_id (gi_context i), pv_run_id = exec_context.run_id (gi_context i),
      pv_iteration = iteration (gi_context i), pv_receipt_id = mutation_id (gi_receipt i),
      pv_verification_id = verification_id (gi_verification i), pv_reflection_id = reflection_id,
      pv_context_artifact_id = gi_context_artifact_id i, pv_context_fingerprint = gi_context_fingerprint i,
      pv_policy_version = gi_policy_version i, pv_version = ''1.0''\<rparr>"

text \<open>The property \<open>provenance\<close> of an input.\<close>

definition pending_provenance :: "reflection_input \<Rightarrow> py_error + provenance" where
  "pending_provenance i = provenance_of i ''pending''"

definition bounded_result :: "string \<Rightarrow> run_view" where
  "bounded_result r = \<lparr>rn_run_id = r, rn_outcome = Some ''failure'',
     rn_summary = Some ''Objective verification failed after a completed governed mutation.''\<rparr>"

record reflection_outcome =
  ro_input :: reflection_input
  ro_context :: reflection_context
  ro_report :: reflection_report
  ro_provenance :: provenance

definition make_outcome :: "reflection_outcome \<Rightarrow> py_error + reflection_outcome" where
  "make_outcome r = guarded
     [(rp_run_id (ro_report r) \<noteq> exec_context.run_id (gi_context (ro_input r)),
         ValueError ''reflection report run_id must match governed execution''),
      (pv_execution_id (ro_provenance r) \<noteq> execution_id (gi_context (ro_input r)),
         ValueError ''reflection provenance execution_id mismatch''),
      (pv_iteration (ro_provenance r) \<noteq> iteration (gi_context (ro_input r)),
         ValueError ''reflection provenance iteration mismatch''),
      (pv_receipt_id (ro_provenance r) \<noteq> mutation_id (gi_receipt (ro_input r)),
         ValueError ''reflection provenance receipt mismatch''),
      (pv_verification_id (ro_provenance r) \<noteq> verification_id (gi_verification (ro_input r)),
         ValueError ''reflection provenance verification mismatch''),
      (pv_reflection_id (ro_provenance r) \<noteq> rp_id (ro_report r),
         ValueError ''reflection provenance report mismatch'')] r"

definition outcome_evidence_ref :: "reflection_outcome \<Rightarrow> py_error + evidence_ref" where
  "outcome_evidence_ref r = make_evidence
     \<lparr>ev_kind = REFLECTION, reference_id = rp_id (ro_report r), digest = [],
      ev_metadata = PDict [(PStr ''iteration'', PInt (pv_iteration (ro_provenance r))),
        (PStr ''verification_id'', PStr (pv_verification_id (ro_provenance r)))]\<rparr>"

record memory_evidence =
  me_experience :: experience
  me_provenance :: provenance
  me_reflection_id :: string

definition make_memory_evidence :: "memory_evidence \<Rightarrow> py_error + memory_evidence" where
  "make_memory_evidence m = guarded
     [(blank (me_reflection_id m), ValueError ''reflection_id cannot be empty''),
      (pv_reflection_id (me_provenance m) \<noteq> me_reflection_id m,
         ValueError ''memory evidence reflection_id must match provenance'')] m"

text \<open>A dictionary display followed by \<open>**other\<close>: an existing key keeps its place and gets the new value.\<close>

fun dict_put :: "(pyval \<times> pyval) list \<Rightarrow> pyval \<times> pyval \<Rightarrow> (pyval \<times> pyval) list" where
  "dict_put [] kv = [kv]"
| "dict_put (e # es) kv = (if fst e = fst kv then (fst e, snd kv) # es else e # dict_put es kv)"

fun mapping_items :: "pyval \<Rightarrow> (pyval \<times> pyval) list" where
  "mapping_items (PDict kvs) = kvs"
| "mapping_items (PProxy kvs) = kvs"
| "mapping_items _ = []"

definition bounded_metadata :: "reflection_input \<Rightarrow> (pyval \<times> pyval) list" where
  "bounded_metadata i = foldl dict_put
     [(PStr ''governed_execution_id'', PStr (execution_id (gi_context i))), (PStr ''iteration'', PInt (iteration (gi_context i))),
      (PStr ''receipt_id'', PStr (mutation_id (gi_receipt i))),
      (PStr ''verification_id'', PStr (verification_id (gi_verification i))),
      (PStr ''objective_status'', PStr (case objective_status (gi_objective i) of SATISFIED \<Rightarrow> ''satisfied''
         | NOT_SATISFIED \<Rightarrow> ''not_satisfied'')),
      (PStr ''context_artifact_id'', PStr (gi_context_artifact_id i)),
      (PStr ''context_fingerprint'', PStr (gi_context_fingerprint i)), (PStr ''policy_version'', PStr (gi_policy_version i))]
     (mapping_items (gi_metadata i))"

definition build_context :: "reflection_input \<Rightarrow> py_error + reflection_context" where
  "build_context i = make_reflection_context
     \<lparr>rc_run_id = exec_context.run_id (gi_context i), run_result = bounded_result (exec_context.run_id (gi_context i)),
      review_report = None, benchmark_result = None, rc_metadata = PDict (bounded_metadata i)\<rparr>"

text \<open>\<open>GovernedReflectionAdapter.reflect\<close> with the runtime's bus and engine.\<close>

definition adapter_reflect :: "(reflection_event \<Rightarrow> bool) \<Rightarrow> (reflection_context \<Rightarrow> reflect_exn + reflection_report)
    \<Rightarrow> reflection_input \<Rightarrow> reflection_event list \<times> (reflect_exn + reflection_outcome)" where
  "adapter_reflect raises engine i =
     (case build_context i of
        Inl e \<Rightarrow> ([], Inl (Invalid e))
      | Inr c \<Rightarrow>
          (case runtime_reflect raises engine c of
             (evs, Inl e) \<Rightarrow> (evs, Inl e)
           | (evs, Inr r) \<Rightarrow>
               (evs, case bind_res (provenance_of i (rp_id r)) (\<lambda>p. make_outcome
                       \<lparr>ro_input = i, ro_context = c, ro_report = r, ro_provenance = p\<rparr>) of
                       Inl e \<Rightarrow> Inl (Invalid e) | Inr x \<Rightarrow> Inr x)))"

definition memory_evidence_of :: "(nat \<Rightarrow> string) \<Rightarrow> reflection_outcome \<Rightarrow> py_error + memory_evidence" where
  "memory_evidence_of new x =
     bind_res (build_from_reflection new (ro_context x) (ro_report x)) (\<lambda>e. make_memory_evidence
       \<lparr>me_experience = e, me_provenance = ro_provenance x, me_reflection_id = rp_id (ro_report x)\<rparr>)"

section \<open>Replanning\<close>

datatype replanning_action = CONTINUE_WITH_FRESH_DECISION | FAIL | ABORT

datatype replanning_reason =
    ELIGIBLE_VERIFICATION_FAILURE | SECOND_ITERATION_VERIFICATION_FAILURE | ITERATION_LIMIT | MUTATION_CAPACITY
  | VERIFICATION_CAPACITY | TERMINAL_CONTEXT | INVALID_REFLECTION_PROVENANCE | INVALID_MEMORY_PROVENANCE
  | STALE_ARTIFACT | INELIGIBLE_VERIFICATION

fun action_value :: "replanning_action \<Rightarrow> string" where
  "action_value CONTINUE_WITH_FRESH_DECISION = ''continue_with_fresh_decision''"
| "action_value FAIL = ''fail''"
| "action_value ABORT = ''abort''"

fun reason_value :: "replanning_reason \<Rightarrow> string" where
  "reason_value ELIGIBLE_VERIFICATION_FAILURE = ''eligible_verification_failure''"
| "reason_value SECOND_ITERATION_VERIFICATION_FAILURE = ''second_iteration_verification_failure''"
| "reason_value ITERATION_LIMIT = ''iteration_limit''"
| "reason_value MUTATION_CAPACITY = ''mutation_capacity''"
| "reason_value VERIFICATION_CAPACITY = ''verification_capacity''"
| "reason_value TERMINAL_CONTEXT = ''terminal_context''"
| "reason_value INVALID_REFLECTION_PROVENANCE = ''invalid_reflection_provenance''"
| "reason_value INVALID_MEMORY_PROVENANCE = ''invalid_memory_provenance''"
| "reason_value STALE_ARTIFACT = ''stale_artifact''"
| "reason_value INELIGIBLE_VERIFICATION = ''ineligible_verification''"

record replanning_input =
  ri_context :: exec_context
  ri_reflection :: reflection_outcome
  ri_memory :: memory_evidence
  previous_decision_id :: string
  previous_proposal_id :: string
  previous_authorization_id :: string
  previous_context_artifact_id :: string

definition replanning_input_errors :: "replanning_input \<Rightarrow> (bool \<times> py_error) list" where
  "replanning_input_errors i =
    (let p = ro_provenance (ri_reflection i); gi = ro_input (ri_reflection i) in
     [(state (ri_context i) \<noteq> REPLANNING, ValueError ''replanning input requires the replanning state'')]
     @ empty_fields
         [(''previous_decision_id'', previous_decision_id i), (''previous_proposal_id'', previous_proposal_id i),
          (''previous_authorization_id'', previous_authorization_id i),
          (''previous_context_artifact_id'', previous_context_artifact_id i)]
     @ [(pv_execution_id p \<noteq> execution_id (ri_context i), ValueError ''reflection belongs to another execution''),
        (pv_run_id p \<noteq> exec_context.run_id (ri_context i), ValueError ''reflection belongs to another run''),
        (pv_iteration p \<noteq> iteration (ri_context i), ValueError ''reflection belongs to an incompatible iteration''),
        (me_provenance (ri_memory i) \<noteq> p, ValueError ''memory provenance must exactly match reflection provenance''),
        (me_reflection_id (ri_memory i) \<noteq> rp_id (ro_report (ri_reflection i)),
           ValueError ''memory evidence must bind the reflection report''),
        (previous_decision_id i \<noteq> gi_decision_id gi,
           ValueError ''previous decision identity does not match reflection evidence''),
        (previous_proposal_id i \<noteq> gi_proposal_id gi,
           ValueError ''previous proposal identity does not match reflection evidence''),
        (previous_authorization_id i \<noteq> gi_authorization_id gi,
           ValueError ''previous authorization identity does not match reflection evidence''),
        (previous_context_artifact_id i \<noteq> pv_context_artifact_id p,
           ValueError ''previous context artifact does not match reflection provenance'')])"

definition make_replanning_input :: "replanning_input \<Rightarrow> py_error + replanning_input" where
  "make_replanning_input i = guarded (replanning_input_errors i) i"

record fresh_artifacts =
  fr_context_artifact_id :: string
  fr_decision_request_id :: string
  fr_decision_id :: string
  fr_proposal_id :: string
  fr_authorization_id :: string
  fr_receipt_id :: string
  fr_verification_id :: string
  fr_context_fingerprint :: string

definition make_artifacts :: "fresh_artifacts \<Rightarrow> py_error + fresh_artifacts" where
  "make_artifacts a = guarded
     (empty_fields
        [(''context_artifact_id'', fr_context_artifact_id a), (''decision_request_id'', fr_decision_request_id a),
         (''decision_id'', fr_decision_id a), (''proposal_id'', fr_proposal_id a),
         (''authorization_id'', fr_authorization_id a), (''receipt_id'', fr_receipt_id a),
         (''verification_id'', fr_verification_id a), (''context_fingerprint'', fr_context_fingerprint a)]) a"

record replanning_outcome =
  rx_action :: replanning_action
  rx_reason :: replanning_reason
  rx_execution_id :: string
  rx_iteration :: int
  rx_reflection_id :: string
  rx_planning_decision_id :: string
  rx_version :: string

definition make_replanning_outcome :: "replanning_outcome \<Rightarrow> py_error + replanning_outcome" where
  "make_replanning_outcome x = guarded
     (empty_fields [(''execution_id'', rx_execution_id x), (''reflection_id'', rx_reflection_id x)]
      @ [(rx_iteration x < 1, ValueError ''iteration must be a positive integer''),
         (rx_version x \<noteq> ''1.0'', ValueError ''unsupported replanning contract version'')]) x"

definition replanning_evidence_ref :: "replanning_outcome \<Rightarrow> py_error + evidence_ref" where
  "replanning_evidence_ref x = make_evidence
     \<lparr>ev_kind = REPLANNING_EVIDENCE,
      reference_id = rx_execution_id x @ '':'' @ show_int (rx_iteration x) @ '':'' @ action_value (rx_action x),
      digest = [],
      ev_metadata = PDict
        [(PStr ''action'', PStr (action_value (rx_action x))), (PStr ''reason_code'', PStr (reason_value (rx_reason x))),
         (PStr ''reflection_id'', PStr (rx_reflection_id x)),
         (PStr ''planning_decision_id'', PStr (rx_planning_decision_id x))]\<rparr>"

text \<open>The chain of tests of \<open>decide\<close>.\<close>

definition decide_action :: "replanning_input \<Rightarrow> replanning_action \<times> replanning_reason" where
  "decide_action i =
     (let c = ri_context i; gi = ro_input (ri_reflection i) in
      if is_terminal (state c) then (FAIL, TERMINAL_CONTEXT)
      else if status (gi_verification gi) \<noteq> V_FAILED \<or> objective_status (gi_objective gi) \<noteq> NOT_SATISFIED
      then (FAIL, INELIGIBLE_VERIFICATION)
      else if iteration c \<ge> 2 then (FAIL, SECOND_ITERATION_VERIFICATION_FAILURE)
      else if iterations_remaining (budget c) < 1 then (FAIL, ITERATION_LIMIT)
      else if mutations_remaining (budget c) < 1 then (FAIL, MUTATION_CAPACITY)
      else if verifications_remaining (budget c) < 1 then (FAIL, VERIFICATION_CAPACITY)
      else (CONTINUE_WITH_FRESH_DECISION, ELIGIBLE_VERIFICATION_FAILURE))"

definition decide :: "replanning_input \<Rightarrow> string \<Rightarrow> py_error + replanning_outcome" where
  "decide i planning_decision_id =
     (case decide_action i of (a, why) \<Rightarrow> make_replanning_outcome
        \<lparr>rx_action = a, rx_reason = why, rx_execution_id = execution_id (ri_context i),
         rx_iteration = iteration (ri_context i), rx_reflection_id = rp_id (ro_report (ri_reflection i)),
         rx_planning_decision_id = planning_decision_id, rx_version = ''1.0''\<rparr>)"

definition stale_fields :: "replanning_input \<Rightarrow> fresh_artifacts \<Rightarrow> (string \<times> string \<times> string) list" where
  "stale_fields i a =
     (let p = ro_provenance (ri_reflection i) in
      [(''context_artifact_id'', fr_context_artifact_id a, previous_context_artifact_id i),
       (''decision_id'', fr_decision_id a, previous_decision_id i),
       (''proposal_id'', fr_proposal_id a, previous_proposal_id i),
       (''authorization_id'', fr_authorization_id a, previous_authorization_id i),
       (''receipt_id'', fr_receipt_id a, pv_receipt_id p),
       (''verification_id'', fr_verification_id a, pv_verification_id p),
       (''context_fingerprint'', fr_context_fingerprint a, pv_context_fingerprint p)])"

definition validate_fresh_iteration :: "replanning_input \<Rightarrow> fresh_artifacts \<Rightarrow> py_error + unit" where
  "validate_fresh_iteration i a = guarded
     (List.map (\<lambda>(n, new, old). (new = old, ValueError (''fresh iteration reuses stale '' @ n))) (stale_fields i a)) ()"

end
