(* ===== verification/Verification_Properties.thy ===== *)
theory Verification_Properties
  imports GovernedVerification Mutation_Properties
begin

text \<open>
  The properties of the trusted verifier, alone and after a governed mutation, and concrete requests
  over the workspace of theory \<open>Mutation_Properties\<close>.
\<close>

section \<open>Concrete requests\<close>

definition demo_hash :: "bytes \<Rightarrow> string" where
  "demo_hash b = take 64 (map (\<lambda>w. char_of (unat w)) b @ replicate 64 (CHR ''0''))"

definition demo_receipt :: mutation_receipt where
  "demo_receipt = \<lparr>mutation_id = ''m'', re_proposal_id = ''p'', re_run_id = ''r'', re_authorization_id = Some ''auth'',
     re_target_path = ''a.txt'', re_operation = MODIFY_FILE, result = MUT_COMPLETED, re_pre_fingerprint = None,
     re_post_fingerprint = None, bytes_before = 3, bytes_after = 3, bytes_changed = 0,
     authorization_state = Some CONSUMED, re_policy_version = ''1.0'', failure_code = None, failure_reason = None,
     verification_passed = True, rollback_performed = False\<rparr>"

definition demo_spec :: "string \<Rightarrow> verification_specification" where
  "demo_spec c = \<lparr>specification_id = ''s'', vs_target_path = ''a.txt'', check = EXACT_CONTENT,
     expected_content = Some c, expected_fingerprint = None, max_bytes = 10, vs_version = ''1.0''\<rparr>"

definition demo_request :: "mutation_receipt \<Rightarrow> string \<Rightarrow> verification_request" where
  "demo_request r c = \<lparr>request_id = ''q'', vr_run_id = ''r'', receipt = r, vr_specification = demo_spec c,
     execution_context = None\<rparr>"

lemma demo_hash_length: "length (demo_hash b) = 64"
  by (simp add: demo_hash_def)

section \<open>Verification\<close>

text \<open>C15. For every accepted request \<open>verify\<close> returns a result, bound to the receipt and the run of the request, and
  it passes exactly when the receipt is of a completed mutation, the path stays below the workspace root without
  crossing a link, and the assertion of the specification holds of the file there; it is not run exactly when the
  mutation did not succeed.\<close>

theorem verification_decides:
  assumes "make_request q = Inr q" and "make_specification (vr_specification q) = Inr (vr_specification q)"
    and "\<not> blank new" and "\<forall>b. length (sha b) = 64"
  shows "\<exists>r. verify sha root fs new q = Inr r \<and> receipt_id r = mutation_id (receipt q) \<and> vx_run_id r = re_run_id (receipt q) \<and>
    (status r = NOT_RUN \<longleftrightarrow> \<not> mutation_succeeded (receipt q)) \<and>
    (status r = PASSED \<longleftrightarrow> mutation_succeeded (receipt q) \<and>
       (\<exists>p. confined_target fs root (vs_target_path (vr_specification q)) = Inr p \<and>
         take (length root) (resolve fs p) = root \<and> spec_holds sha fs p (vr_specification q)))"
proof -
  have c: "take (length root) (resolve fs p) = root" if "confined_target fs root s = Inr p" for s p
    using confined_target_Inr [OF that] by blast
  from verify_verdict [OF assms] show ?thesis unfolding verdict_ok_def using c by blast
qed

theorem verification_decides_witness:
  "\<exists>r. verify demo_hash [''ws''] demo_fs ''v'' (demo_request demo_receipt ''old'') = Inr r \<and> status r = PASSED"
proof -
  have "make_request (demo_request demo_receipt ''old'') = Inr (demo_request demo_receipt ''old'')"
    and "make_specification (vr_specification (demo_request demo_receipt ''old''))
      = Inr (vr_specification (demo_request demo_receipt ''old''))" by code_simp+
  note d = verification_decides [OF this, of "''v''" demo_hash "[''ws'']" demo_fs]
  have "\<not> blank ''v''" by code_simp
  moreover have "confined_target demo_fs [''ws''] (vs_target_path (vr_specification (demo_request demo_receipt ''old'')))
      = Inr [''ws'', ''a.txt'']" by code_simp
  moreover have "mutation_succeeded (receipt (demo_request demo_receipt ''old''))" by code_simp
  moreover have "take (length [''ws'']) (resolve demo_fs [''ws'', ''a.txt'']) = [''ws'']" by code_simp
  moreover have "spec_holds demo_hash demo_fs [''ws'', ''a.txt''] (vr_specification (demo_request demo_receipt ''old''))" by code_simp
  ultimately show ?thesis using d demo_hash_length by blast
qed

text \<open>C16. A governed write of a text without a carriage return verifies: when \<open>mutate\<close> reports a completed mutation of such a
  text, an exact-content specification that expects the proposed text passes on the tree the mutation left, and the
  completion policy then finds the objective satisfied. The specification and the request are accepted by their own
  constructors, hold the receipt of this mutation, the verification id is not blank, and digests have 64 characters. (The
  condition on carriage returns is needed: such content is written as it is and read back with its line ends translated,
  so the exact check can never pass.)\<close>

theorem completed_mutation_verifies:
  assumes "root_ok (tree s) root"
    and "temps_free env (tree s) (root @ path_parts (target_path (proposal v))) (proposal v)"
    and "mutate env cfg fl root s v a = (s', Inr x)" and "result x = MUT_COMPLETED"
    and "make_request q = Inr q" and "make_specification (vr_specification q) = Inr (vr_specification q)"
    and "receipt q = x"
    and "check (vr_specification q) = EXACT_CONTENT" and "expected_content (vr_specification q) = Some (content (proposal v))"
    and "13 \<notin> set (code_points (content (proposal v)))"
    and "\<not> blank new" and "\<forall>b. length (sha b) = 64"
  shows "\<exists>r o'. verify sha root (tree s') new q = Inr r \<and> status r = PASSED \<and>
    assess x r = Inr o' \<and> objective_status o' = SATISFIED"
proof -
  let ?p = "proposal v" and ?t = "root @ path_parts (target_path (proposal v))" and ?s = "vr_specification q"
  from mutate_effect [OF assms(1,2), of cfg fl a] assms(3,4) obtain cur where
    val: "validate_policy env cfg root (tree s) ?p = Inr cur" and
    pf: "performed env cfg fl (tree s) ?t ?p (tree s') x" by auto
  note f = validate_policy_Inr [OF val assms(1)]
  from pf assms(4) have w: "tree s' = wrote (tree s) ?t ?p" and vp: "verification_passed x" "re_target_path x = target_path ?p"
    by (auto simp: performed_def split: if_splits)
  have path: "vs_target_path ?s = target_path ?p"
    using assms(5,7) vp(2) by (auto simp: make_request_def guarded_Inr_iff first_error_None_iff simp del: first_error.simps)
  have "link_free (tree s') [] ?t" using f w by (simp add: wrote_def link_free_update)
  from confined_link_free [OF this, of ] specification_path [OF assms(6)] path
  have conf: "confined_target (tree s') root (vs_target_path ?s) = Inr ?t" by simp
  have rd: "read_bytes (tree s') ?t = Some (utf8_encode (content ?p))"
    unfolding w wrote_def using f by (intro read_back) auto
  have size: "int (length (utf8_encode (content ?p))) \<le> max_bytes ?s"
    using assms(6,8,9) by (auto simp: make_specification_Inr specification_errors_def first_error_None_iff simp del: first_error.simps)
  have holds: "spec_holds sha (tree s') ?t ?s"
    using assms(8,9,10) rd size by (simp add: spec_holds_def utf8_roundtrip newlines_id)
  have suc: "mutation_succeeded x" using assms(4) vp by (simp add: mutation_succeeded_def)
  from verify_verdict [OF assms(5,6,11,12), of root "tree s'"] obtain r where
    r: "verify sha root (tree s') new q = Inr r" "status r = PASSED" "receipt_id r = mutation_id x" "verification_id r = new"
    using conf holds suc assms(7) unfolding verdict_ok_def by blast
  have "\<not> blank (mutation_id x)"
    using assms(5,7) by (auto simp: make_request_def is_receipt_evidence_def guarded_Inr_iff first_error_None_iff simp del: first_error.simps)
  with assess_verdict [of r x] r suc assms(11) obtain o' where "assess x r = Inr o'" "objective_status o' = SATISFIED"
    by fastforce
  with r(1,2) show ?thesis by blast
qed

theorem completed_mutation_verifies_witness:
  "let m = mutate demo_env demo_cfg no_faults [''ws''] demo_state (demo_validated ''new'' None) (demo_authorization ''new'' None)
   in case snd m of Inl _ \<Rightarrow> False
      | Inr x \<Rightarrow> result x = MUT_COMPLETED \<and>
          (\<exists>r o'. verify demo_hash [''ws''] (tree (fst m)) ''v'' (demo_request x ''new'') = Inr r \<and> status r = PASSED \<and>
             assess x r = Inr o' \<and> objective_status o' = SATISFIED)"
proof -
  let ?m = "mutate demo_env demo_cfg no_faults [''ws''] demo_state (demo_validated ''new'' None) (demo_authorization ''new'' None)"
  have "case snd ?m of Inl _ \<Rightarrow> False
    | Inr x \<Rightarrow> result x = MUT_COMPLETED \<and> make_request (demo_request x ''new'') = Inr (demo_request x ''new'')" by code_simp
  then obtain s' x where m: "?m = (s', Inr x)" and res: "result x = MUT_COMPLETED"
    and q: "make_request (demo_request x ''new'') = Inr (demo_request x ''new'')"
    by (cases ?m) (auto split: sum.splits)
  have t: "temps_free demo_env (tree demo_state) ([''ws''] @ path_parts (target_path (proposal (demo_validated ''new'' None))))
      (proposal (demo_validated ''new'' None))"
    by (simp add: demo_state_def demo_validated_def demo_parts demo_temps)
  have ro: "root_ok (tree demo_state) [''ws'']" by (simp add: demo_state_def demo_root_ok)
  have "make_specification (demo_spec ''new'') = Inr (demo_spec ''new'')" by code_simp
  then have sp: "make_specification (vr_specification (demo_request x ''new'')) = Inr (vr_specification (demo_request x ''new''))"
    by (simp add: demo_request_def)
  have c: "13 \<notin> set (code_points (content (proposal (demo_validated ''new'' None))))" by code_simp
  have n: "\<not> blank ''v''" by code_simp
  have h: "\<forall>b. length (demo_hash b) = 64" by (simp add: demo_hash_length)
  have e: "receipt (demo_request x ''new'') = x" "check (vr_specification (demo_request x ''new'')) = EXACT_CONTENT"
    "expected_content (vr_specification (demo_request x ''new'')) = Some (content (proposal (demo_validated ''new'' None)))"
    by (simp_all add: demo_request_def demo_spec_def demo_validated_def demo_proposal_def)
  from completed_mutation_verifies [OF ro t m res q sp e c n h] res show ?thesis
    unfolding m Let_def fst_conv snd_conv sum.case by blast
qed

text \<open>C17. The completion policy is conservative: it refuses a verification of another receipt, and it finds the
  objective satisfied exactly when the mutation completed with its postcondition verified and the verification passed;
  otherwise it names the reason, the mutation first.\<close>

theorem objective_satisfied_iff:
  assumes "\<not> blank (verification_id v)" and "\<not> blank (mutation_id r)"
  shows "case assess r v of
     Inl e \<Rightarrow> mutation_id r \<noteq> receipt_id v \<and> e = ValueError ''verification receipt_id must match supplied receipt''
   | Inr a \<Rightarrow> mutation_id r = receipt_id v \<and>
       (objective_status a = SATISFIED \<longleftrightarrow> result r = MUT_COMPLETED \<and> verification_passed r \<and> status v = PASSED) \<and>
       oa_failure_code a =
         (if \<not> (result r = MUT_COMPLETED \<and> verification_passed r) then Some OBJECTIVE_MUTATION_NOT_SUCCESSFUL
          else if status v \<noteq> PASSED then Some VERIFICATION_NOT_PASSED else None)"
proof (cases "mutation_id r = receipt_id v")
  case True
  from assess_verdict [OF assms True] obtain a where
    "assess r v = Inr a" "objective_status a = SATISFIED \<longleftrightarrow> mutation_succeeded r \<and> status v = PASSED"
    "oa_failure_code a = (if \<not> mutation_succeeded r then Some OBJECTIVE_MUTATION_NOT_SUCCESSFUL
      else if status v \<noteq> PASSED then Some VERIFICATION_NOT_PASSED else None)" by blast
  then show ?thesis using True by (auto simp: mutation_succeeded_def)
next
  case False
  then show ?thesis by (simp add: assess_def)
qed

definition demo_result :: "verification_status \<Rightarrow> verification_result" where
  "demo_result st = \<lparr>verification_id = ''v'', vx_request_id = ''q'', vx_run_id = ''r'', receipt_id = ''m'',
     vx_specification_id = ''s'', status = st, vx_evidence = None, vx_failure_code = None, vx_version = ''1.0''\<rparr>"

theorem objective_satisfied_iff_witness:
  "case assess demo_receipt (demo_result PASSED) of Inl _ \<Rightarrow> False | Inr a \<Rightarrow> objective_status a = SATISFIED"
proof -
  have "\<not> blank (verification_id (demo_result PASSED))" "\<not> blank (mutation_id demo_receipt)"
    by code_simp+
  from objective_satisfied_iff [OF this] show ?thesis
    by (auto simp: demo_result_def demo_receipt_def split: sum.splits)
qed

section \<open>Corner cases\<close>

text \<open>
  The exact-content check compares text read with newline translation: a file with carriage returns
  passes a specification without them, and a specification with one never passes.
\<close>

lemma exact_content_ignores_returns:
  "case verify demo_hash [''ws''] (demo_fs([''ws'', ''a.txt''] \<mapsto> File True (utf8_encode [CHR ''x'', CHR 0x0D, CHR 0x0A]))) ''v''
     (demo_request demo_receipt [CHR ''x'', CHR 0x0A]) of
     Inl _ \<Rightarrow> False | Inr r \<Rightarrow> status r = PASSED"
  by code_simp

lemma exact_content_return_never:
  assumes "check v = EXACT_CONTENT" and "expected_content v = Some c" and "13 \<in> set (code_points c)"
  shows "\<not> spec_holds sha fs p v"
proof
  assume "spec_holds sha fs p v"
  then obtain data where "map_option universal_newlines (utf8_decode data) = Some (code_points c)"
    using assms(1,2) by (auto simp: spec_holds_def split: option.splits)
  then obtain cs where "universal_newlines cs = code_points c" by auto
  then show False using assms(3) newlines_no_return [of cs] by simp
qed

end
