(* ===== verification/Recovery_Properties.thy ===== *)
theory Recovery_Properties
  imports Recovery Verification_Properties
begin

text \<open>
  The recovery round after a failed verification: reflection, memory evidence, the replanning decision
  and the transitions it leads to; and the freshness of the next iteration's authority.
\<close>

section \<open>Accepted records\<close>

lemma empty_fields_None: "first_error (empty_fields fs) = None \<longleftrightarrow> (\<forall>(n, v) \<in> set fs. \<not> blank v)"
  by (auto simp: empty_fields_def first_error_None_iff)

lemma empty_fields_fst: "(\<forall>g \<in> set (empty_fields fs). \<not> fst g) \<longleftrightarrow> (\<forall>(n, v) \<in> set fs. \<not> blank v)"
  by (auto simp: empty_fields_def)

lemmas accepted = guarded_Inr_iff first_error_None_iff empty_fields_fst

lemma reflection_input_facts:
  assumes "make_reflection_input i = Inr i"
  shows "state (gi_context i) = REFLECTING" "1 \<le> iteration (gi_context i)"
    "status (gi_verification i) = V_FAILED" "objective_status (gi_objective i) = NOT_SATISFIED"
    "re_run_id (gi_receipt i) = exec_context.run_id (gi_context i)" "receipt_completed (gi_receipt i)"
    "receipt_id (gi_verification i) = mutation_id (gi_receipt i)"
    "\<not> blank (gi_context_artifact_id i)" "\<not> blank (gi_context_fingerprint i)" "\<not> blank (gi_decision_id i)"
    "\<not> blank (gi_proposal_id i)" "\<not> blank (gi_authorization_id i)" "\<not> blank (gi_policy_version i)"
proof -
  have "first_error (reflection_input_errors i) = None"
    using assms by (auto simp: make_reflection_input_def split: option.splits)
  then show "state (gi_context i) = REFLECTING" "1 \<le> iteration (gi_context i)"
    "status (gi_verification i) = V_FAILED" "objective_status (gi_objective i) = NOT_SATISFIED"
    "re_run_id (gi_receipt i) = exec_context.run_id (gi_context i)" "receipt_completed (gi_receipt i)"
    "receipt_id (gi_verification i) = mutation_id (gi_receipt i)"
    "\<not> blank (gi_context_artifact_id i)" "\<not> blank (gi_context_fingerprint i)" "\<not> blank (gi_decision_id i)"
    "\<not> blank (gi_proposal_id i)" "\<not> blank (gi_authorization_id i)" "\<not> blank (gi_policy_version i)"
    by (auto simp: reflection_input_errors_def Let_def accepted simp del: first_error.simps)
qed

section \<open>The default engine on a governed run\<close>

definition failed_finding :: "string \<Rightarrow> finding" where
  "failed_finding new = \<lparr>fi_id = new, fi_category = FC_EXECUTION, fi_severity = SEV_CRITICAL,
     fi_title = ''Execution Failed'', fi_description = ''The engineering execution failed to complete successfully.'',
     fi_evidence = ''Objective verification failed after a completed governed mutation.'', fi_confidence = 1,
     fi_metadata = PProxy []\<rparr>"

lemma title_ok: "nonempty_str ''title'' ''Execution Failed'' = Inr ''Execution Failed''"
  by code_simp

lemma engine_on_failure:
  assumes "nonempty_str ''run_id'' (rc_run_id c) = Inr (rc_run_id c)" and "run_result c = bounded_result x"
    and "review_report c = None" and "benchmark_result c = None"
  shows "\<exists>r. default_engine new now c = Inr r \<and> rp_run_id r = rc_run_id c \<and> rp_id r = new 1 \<and>
    overall_score (metrics r) = 50 \<and> findings r = [failed_finding (new 0)] \<and> recommendations r = []"
  using assms
  by (simp add: default_engine_def analyze_execution_def bounded_result_def attribute_def add_finding_def make_finding_def
      title_ok valid_confidence_def drawn_def analyze_review_def analyze_benchmark_def analyze_clean_def engine_metrics_def
      make_metrics_def valid_score_def make_report_def failed_finding_def)

lemma failed_lesson: "make_lesson \<lparr>le_id = a, le_category = MC_EXECUTION,
    le_description = ''The engineering execution failed to complete successfully.'', le_evidence = ev,
    le_confidence = 1, le_recommendation = act, le_level = LESSON\<rparr> = Inr \<lparr>le_id = a, le_category = MC_EXECUTION,
    le_description = ''The engineering execution failed to complete successfully.'', le_evidence = ev,
    le_confidence = 1, le_recommendation = act, le_level = LESSON\<rparr>"
proof -
  have "nonempty_str ''description'' ''The engineering execution failed to complete successfully.''
      = Inr ''The engineering execution failed to complete successfully.''" by code_simp
  then show ?thesis by (simp add: make_lesson_def valid_confidence_def)
qed

lemma bounded_project: "rn_summary (bounded_result x) = Some s \<Longrightarrow> project_of s = ''unknown'' \<and> nonempty_str ''project_type'' ''unknown'' = Inr ''unknown''"
proof -
  have "project_of ''Objective verification failed after a completed governed mutation.'' = ''unknown''" by code_simp
  moreover have "nonempty_str ''project_type'' ''unknown'' = Inr ''unknown''" by code_simp
  ultimately show "rn_summary (bounded_result x) = Some s \<Longrightarrow> ?thesis" by (auto simp: bounded_result_def)
qed

lemma experience_of_failure:
  assumes "findings r = [failed_finding a]" and "overall_score (metrics r) = 50" and "run_result c = bounded_result x"
  shows "\<exists>e. build_from_reflection new c r = Inr e \<and> ex_outcome e = ''failure'' \<and> project_type e = ''unknown'' \<and>
    length (lessons e) = 1 \<and> source_entries e = [rc_run_id c]"
  using assms bounded_project [of x]
  by (simp add: build_from_reflection_def failed_finding_def failed_lesson make_experience_def valid_confidence_def
      bounded_result_def)

section \<open>Reflection\<close>

lemma strip_run_id:
  "\<not> blank s \<Longrightarrow> py_strip s = s \<Longrightarrow> nonempty_str f s = Inr s"
  by (simp add: nonempty_str_def)

text \<open>What any successful reflection produced, whatever the engine.\<close>

lemma adapter_reflect_Inr:
  assumes "snd (adapter_reflect raises engine i) = Inr x"
  shows "ro_input x = i \<and> build_context i = Inr (ro_context x) \<and> provenance_of i (rp_id (ro_report x)) = Inr (ro_provenance x) \<and>
    make_outcome x = Inr x \<and> engine (ro_context x) = Inr (ro_report x)"
  using assms
  by (auto simp: adapter_reflect_def runtime_reflect_def Let_def bind_res_Inr_iff make_outcome_def guarded_Inr_iff
      split: sum.splits prod.splits if_splits)

lemma provenance_of_Inr:
  "provenance_of i n = Inr p \<Longrightarrow> p = \<lparr>pv_execution_id = execution_id (gi_context i),
     pv_run_id = exec_context.run_id (gi_context i), pv_iteration = iteration (gi_context i),
     pv_receipt_id = mutation_id (gi_receipt i), pv_verification_id = verification_id (gi_verification i),
     pv_reflection_id = n, pv_context_artifact_id = gi_context_artifact_id i,
     pv_context_fingerprint = gi_context_fingerprint i, pv_policy_version = gi_policy_version i, pv_version = ''1.0''\<rparr> \<and> \<not> blank n"
  by (auto simp: provenance_of_def make_provenance_def accepted simp del: first_error.simps)

lemma provenance_total:
  assumes "make_reflection_input i = Inr i" and "valid_context (gi_context i)"
    and "make_verification_result (gi_verification i) = Inr (gi_verification i)" and "\<not> blank n"
  shows "\<exists>p. provenance_of i n = Inr p"
  using reflection_input_facts [OF assms(1)] assms(2-4)
  by (auto simp: provenance_of_def make_provenance_def accepted valid_context_iff header_ok_def make_verification_result_def
      simp del: first_error.simps)

text \<open>C18. Reflection succeeds on accepted evidence under these conditions: the context and the verification are valid
  records, the run identifier has no surrounding white space (with it, reflection always fails), no handler of the bus
  raises, the engine is the default one, and the fresh identifiers are not blank. Then it publishes exactly its two
  events and returns the outcome of exactly this execution, iteration, receipt and verification, with one critical
  finding; the memory evidence built from it carries the same provenance and records a failure.\<close>

theorem reflection_total:
  assumes "make_reflection_input i = Inr i" and "valid_context (gi_context i)"
    and "make_verification_result (gi_verification i) = Inr (gi_verification i)"
    and "py_strip (exec_context.run_id (gi_context i)) = exec_context.run_id (gi_context i)" and "\<forall>n. \<not> blank (new n)"
  shows "\<exists>x m. adapter_reflect (\<lambda>_. False) (default_engine new now) i =
      ([ReflectionStarted (exec_context.run_id (gi_context i)), ReflectionCompleted (exec_context.run_id (gi_context i)) (new 1)], Inr x) \<and>
    ro_input x = i \<and> findings (ro_report x) = [failed_finding (new 0)] \<and>
    pv_execution_id (ro_provenance x) = execution_id (gi_context i) \<and> pv_iteration (ro_provenance x) = iteration (gi_context i) \<and>
    pv_receipt_id (ro_provenance x) = mutation_id (gi_receipt i) \<and>
    pv_verification_id (ro_provenance x) = verification_id (gi_verification i) \<and> pv_reflection_id (ro_provenance x) = new 1 \<and>
    memory_evidence_of new' x = Inr m \<and> me_provenance m = ro_provenance x \<and> ex_outcome (me_experience m) = ''failure''"
proof -
  let ?rid = "exec_context.run_id (gi_context i)"
  have ne: "nonempty_str f ?rid = Inr ?rid" for f
    using assms(2,4) by (intro strip_run_id) (auto simp: valid_context_iff header_ok_def)
  then obtain c where c: "build_context i = Inr c" "rc_run_id c = ?rid" "run_result c = bounded_result ?rid"
    "review_report c = None" "benchmark_result c = None"
    by (simp add: build_context_def make_reflection_context_def)
  from engine_on_failure [OF _ c(3,4,5), of new now] c(2) ne obtain r where
    r: "default_engine new now c = Inr r" "rp_run_id r = ?rid" "rp_id r = new 1" "overall_score (metrics r) = 50"
      "findings r = [failed_finding (new 0)]" by auto
  obtain p where p: "provenance_of i (new 1) = Inr p" using provenance_total [OF assms(1-3)] assms(5) by blast
  note pf = provenance_of_Inr [OF p]
  let ?x = "\<lparr>ro_input = i, ro_context = c, ro_report = r, ro_provenance = p\<rparr>"
  have mo: "make_outcome ?x = Inr ?x" using pf r by (simp add: make_outcome_def guarded_def)
  have run: "adapter_reflect (\<lambda>_. False) (default_engine new now) i
      = ([ReflectionStarted ?rid, ReflectionCompleted ?rid (new 1)], Inr ?x)"
    using c r p mo by (simp add: adapter_reflect_def runtime_reflect_def Let_def)
  from experience_of_failure [OF r(5,4) c(3), of new'] obtain e where
    e: "build_from_reflection new' c r = Inr e" "ex_outcome e = ''failure''" by blast
  let ?m = "\<lparr>me_experience = e, me_provenance = p, me_reflection_id = new 1\<rparr>"
  have me: "memory_evidence_of new' ?x = Inr ?m"
    using e r(3) pf by (simp add: memory_evidence_of_def make_memory_evidence_def guarded_def)
  show ?thesis
    by (intro exI [of _ ?x] exI [of _ ?m]) (use run me e r pf in simp)
qed

section \<open>A concrete failed iteration\<close>

definition step_record :: "int \<Rightarrow> exec_state \<Rightarrow> exec_state \<Rightarrow> evidence_ref list \<Rightarrow> transition_record" where
  "step_record n s t ev = \<lparr>sequence = n, rec_iteration = 1, from_state = s, to_state = t, occurred_at = n,
     rec_reason = None, rec_evidence = ev\<rparr>"

definition demo_ref :: "evidence_kind \<Rightarrow> string \<Rightarrow> evidence_ref" where
  "demo_ref k i = \<lparr>ev_kind = k, reference_id = i, digest = [], ev_metadata = PProxy []\<rparr>"

definition reflecting_context :: exec_context where
  "reflecting_context = \<lparr>execution_id = ''e'', run_id = ''r'', goal = ''g'', state = REFLECTING, iteration = 1,
     budget = \<lparr>max_iterations = 2, max_mutations = 2, max_verifications = 2, iterations_used = 1, mutations_used = 1,
       verifications_used = 1\<rparr>,
     history = [step_record 1 CREATED CONTEXT_ASSEMBLING [], step_record 2 CONTEXT_ASSEMBLING PLANNING [],
       step_record 3 PLANNING DECIDING [], step_record 4 DECIDING PROPOSING [], step_record 5 PROPOSING AUTHORIZING [],
       step_record 6 AUTHORIZING MUTATING [], step_record 7 MUTATING VERIFYING [demo_ref MUTATION_RECEIPT ''m''],
       step_record 8 VERIFYING REFLECTING [demo_ref VERIFICATION ''v'']],
     evidence = [demo_ref MUTATION_RECEIPT ''m'', demo_ref VERIFICATION ''v''], stop_reason = None,
     ctx_metadata = PProxy []\<rparr>"

definition failed_result :: verification_result where
  "failed_result = (demo_result V_FAILED)\<lparr>vx_failure_code := Some ASSERTION_FAILED\<rparr>"

definition demo_input :: reflection_input where
  "demo_input = \<lparr>gi_context = reflecting_context, gi_receipt = demo_receipt, gi_verification = failed_result,
     gi_objective = \<lparr>objective_status = NOT_SATISFIED, oa_verification_id = ''v'', oa_receipt_id = ''m'',
       oa_failure_code = Some VERIFICATION_NOT_PASSED\<rparr>,
     gi_context_artifact_id = ''c'', gi_context_fingerprint = ''f'', gi_decision_id = ''d'', gi_proposal_id = ''p'',
     gi_authorization_id = ''auth'', gi_policy_version = ''1.0'', gi_metadata = PProxy [], gi_version = ''1.0''\<rparr>"

definition demo_ids :: "nat \<Rightarrow> string" where
  "demo_ids n = ''id'' @ show_nat n"

lemma demo_input_ok:
  "make_reflection_input demo_input = Inr demo_input" "valid_context (gi_context demo_input)"
  "make_verification_result (gi_verification demo_input) = Inr (gi_verification demo_input)"
  "py_strip (exec_context.run_id (gi_context demo_input)) = exec_context.run_id (gi_context demo_input)"
  "\<forall>n. \<not> blank (demo_ids n)"
proof -
  show "make_reflection_input demo_input = Inr demo_input" by code_simp
  show "valid_context (gi_context demo_input)" by code_simp
  show "make_verification_result (gi_verification demo_input) = Inr (gi_verification demo_input)" by code_simp
  show "py_strip (exec_context.run_id (gi_context demo_input)) = exec_context.run_id (gi_context demo_input)" by code_simp
  have "\<not> blank ''id''" by code_simp
  then show "\<forall>n. \<not> blank (demo_ids n)" by (simp add: demo_ids_def del: append.simps)
qed

theorem reflection_total_witness:
  "\<exists>x m. snd (adapter_reflect (\<lambda>_. False) (default_engine demo_ids 0) demo_input) = Inr x \<and>
    memory_evidence_of demo_ids x = Inr m \<and> ex_outcome (me_experience m) = ''failure''"
proof -
  from reflection_total [OF demo_input_ok, of 0 demo_ids] show ?thesis by (elim exE conjE) auto
qed

section \<open>Replanning\<close>

text \<open>The replanning input a reflection leads to, in the context that entered \<open>REPLANNING\<close>.\<close>

definition replan_after :: "reflection_input \<Rightarrow> exec_context \<Rightarrow> reflection_outcome \<Rightarrow> memory_evidence \<Rightarrow> replanning_input" where
  "replan_after i c x m = \<lparr>ri_context = c, ri_reflection = x, ri_memory = m, previous_decision_id = gi_decision_id i,
     previous_proposal_id = gi_proposal_id i, previous_authorization_id = gi_authorization_id i,
     previous_context_artifact_id = gi_context_artifact_id i\<rparr>"

definition capacity :: "exec_context \<Rightarrow> bool" where
  "capacity c \<longleftrightarrow> iteration c = 1 \<and> iterations_used (budget c) < max_iterations (budget c) \<and>
     mutations_used (budget c) < max_mutations (budget c) \<and> verifications_used (budget c) < max_verifications (budget c)"

lemma plain_next:
  assumes "t \<notin> {CONTEXT_ASSEMBLING, MUTATING, VERIFYING}"
  shows "next_context c t ev None now = c\<lparr>state := t, history := history c @ [next_record c t ev None now],
    evidence := evidence c @ ev, stop_reason := None\<rparr>"
  using assms by (cases t) (simp_all add: next_context_def spend_def py_or_def)

lemma plain_transition:
  assumes "valid_context c" and "t \<in> legal_transitions (state c)" and "\<not> is_terminal t"
  shows "transition None c t ev None now = Inr (\<lparr>accepted = True, res_context = next_context c t ev None now, error_code = None\<rparr>, [])
    \<and> valid_context (next_context c t ev None now)"
proof -
  have "effective_ok c t None" using assms(3) by (simp add: effective_ok_def reason_ok_def)
  then show ?thesis
    using transition_result_eq [OF assms(1), of None t ev None now] assms(2) effective_ok_iff [OF assms(1,2)]
      next_context_valid [OF assms(1,2)] by auto
qed

lemma replanning_context:
  assumes "valid_context c" and "state c = REFLECTING"
  shows "transition None c REPLANNING ev None now
      = Inr (\<lparr>accepted = True, res_context = next_context c REPLANNING ev None now, error_code = None\<rparr>, [])"
    and "valid_context (next_context c REPLANNING ev None now)" and "state (next_context c REPLANNING ev None now) = REPLANNING"
    and "iteration (next_context c REPLANNING ev None now) = iteration c"
    and "budget (next_context c REPLANNING ev None now) = budget c"
    and "execution_id (next_context c REPLANNING ev None now) = execution_id c"
    and "exec_context.run_id (next_context c REPLANNING ev None now) = exec_context.run_id c"
  using plain_transition [OF assms(1), of REPLANNING ev now] assms(2) plain_next [of REPLANNING c ev now]
  by (simp_all add: is_terminal_def)

lemma decide_action_eq:
  assumes "make_reflection_input (ro_input (ri_reflection j)) = Inr (ro_input (ri_reflection j))"
    and "state (ri_context j) = REPLANNING"
  shows "decide_action j =
    (let c = ri_context j in
     if iteration c \<ge> 2 then (FAIL, SECOND_ITERATION_VERIFICATION_FAILURE)
     else if iterations_used (budget c) \<ge> max_iterations (budget c) then (FAIL, ITERATION_LIMIT)
     else if mutations_used (budget c) \<ge> max_mutations (budget c) then (FAIL, MUTATION_CAPACITY)
     else if verifications_used (budget c) \<ge> max_verifications (budget c) then (FAIL, VERIFICATION_CAPACITY)
     else (CONTINUE_WITH_FRESH_DECISION, ELIGIBLE_VERIFICATION_FAILURE))"
  using reflection_input_facts(3,4) [OF assms(1)] assms(2)
  by (simp add: decide_action_def Let_def is_terminal_def iterations_remaining_def mutations_remaining_def
      verifications_remaining_def)

lemma replanning_ref_ok: "\<not> blank (rx_execution_id x) \<Longrightarrow> \<exists>e. replanning_evidence_ref x = Inr e"
  by (simp add: replanning_evidence_ref_def make_evidence_def freeze_mapping_def)

lemma assembling_context:
  assumes "valid_context c" and "state c = REPLANNING" and "iterations_used (budget c) < max_iterations (budget c)"
  shows "transition None c CONTEXT_ASSEMBLING ev None now
      = Inr (\<lparr>accepted = True, res_context = next_context c CONTEXT_ASSEMBLING ev None now, error_code = None\<rparr>, [])"
    and "state (next_context c CONTEXT_ASSEMBLING ev None now) = CONTEXT_ASSEMBLING"
    and "iteration (next_context c CONTEXT_ASSEMBLING ev None now) = iteration c + 1"
    and "budget (next_context c CONTEXT_ASSEMBLING ev None now) = (budget c)\<lparr>iterations_used := iterations_used (budget c) + 1\<rparr>"
proof -
  have b: "budget_ok (budget c)" and u: "iterations_used (budget c) = iteration c"
    using assms(1) valid_iteration_used by (auto simp: valid_context_iff)
  have s: "spend c CONTEXT_ASSEMBLING = (CONTEXT_ASSEMBLING, iteration c + 1,
      (budget c)\<lparr>iterations_used := iterations_used (budget c) + 1\<rparr>, None)"
    using assms(3) u by (simp add: spend_def consume_iteration_eq [OF b])
  show "transition None c CONTEXT_ASSEMBLING ev None now
      = Inr (\<lparr>accepted = True, res_context = next_context c CONTEXT_ASSEMBLING ev None now, error_code = None\<rparr>, [])"
    using plain_transition [OF assms(1), of CONTEXT_ASSEMBLING ev now] assms(2) by (simp add: is_terminal_def)
  show "state (next_context c CONTEXT_ASSEMBLING ev None now) = CONTEXT_ASSEMBLING"
    and "iteration (next_context c CONTEXT_ASSEMBLING ev None now) = iteration c + 1"
    and "budget (next_context c CONTEXT_ASSEMBLING ev None now) = (budget c)\<lparr>iterations_used := iterations_used (budget c) + 1\<rparr>"
    by (simp_all add: next_context_def s)
qed

text \<open>C19. One recovery round, end to end. Once any engine's reflection on accepted evidence of a valid context succeeded
  and its memory evidence is built, the controller enters the replanning state, the replanning input with the
  identities of the failed iteration is accepted, and the policy returns an outcome. It says to continue exactly in the
  first iteration with an iteration, a mutation and a verification left; and then the controller accepts the return to
  context assembly in iteration two, with a mutation and a verification still to spend.\<close>

theorem recovery_round:
  assumes v: "valid_context (gi_context i)" and i: "make_reflection_input i = Inr i"
    and x: "snd (adapter_reflect raises engine i) = Inr x" and m: "memory_evidence_of new x = Inr m"
    and e: "outcome_evidence_ref x = Inr ev"
  shows "\<exists>c d. transition None (gi_context i) REPLANNING [ev] None now
        = Inr (\<lparr>accepted = True, res_context = c, error_code = None\<rparr>, []) \<and>
      make_replanning_input (replan_after i c x m) = Inr (replan_after i c x m) \<and>
      decide (replan_after i c x m) pd = Inr d \<and> rx_reflection_id d = rp_id (ro_report x) \<and>
      (rx_action d = CONTINUE_WITH_FRESH_DECISION \<longleftrightarrow> capacity (gi_context i)) \<and>
      (rx_action d = CONTINUE_WITH_FRESH_DECISION \<longrightarrow>
        (\<exists>ref c'. replanning_evidence_ref d = Inr ref \<and>
          transition None c CONTEXT_ASSEMBLING [ref] None now'
            = Inr (\<lparr>accepted = True, res_context = c', error_code = None\<rparr>, []) \<and>
          state c' = CONTEXT_ASSEMBLING \<and> iteration c' = 2 \<and> \<not> exhausted c' MUTATING \<and> \<not> exhausted c' VERIFYING))"
proof -
  note gi = reflection_input_facts [OF i] and ad = adapter_reflect_Inr [OF x]
  define c where "c = next_context (gi_context i) REPLANNING [ev] None now"
  note rc = replanning_context [OF v gi(1), of "[ev]" now, folded c_def]
  have p: "provenance_of i (rp_id (ro_report x)) = Inr (ro_provenance x)" and xi: "ro_input x = i" using ad by auto
  note pv = provenance_of_Inr [OF p]
  have me: "me_provenance m = ro_provenance x" "me_reflection_id m = rp_id (ro_report x)"
    using m by (auto simp: memory_evidence_of_def bind_res_Inr_iff make_memory_evidence_def guarded_Inr_iff)
  let ?j = "replan_after i c x m"
  have ok: "make_replanning_input ?j = Inr ?j"
    using gi pv rc me xi
    by (simp add: make_replanning_input_def replanning_input_errors_def replan_after_def Let_def accepted
        del: first_error.simps)
  have act: "decide_action ?j =
    (if iteration c \<ge> 2 then (FAIL, SECOND_ITERATION_VERIFICATION_FAILURE)
     else if iterations_used (budget c) \<ge> max_iterations (budget c) then (FAIL, ITERATION_LIMIT)
     else if mutations_used (budget c) \<ge> max_mutations (budget c) then (FAIL, MUTATION_CAPACITY)
     else if verifications_used (budget c) \<ge> max_verifications (budget c) then (FAIL, VERIFICATION_CAPACITY)
     else (CONTINUE_WITH_FRESH_DECISION, ELIGIBLE_VERIFICATION_FAILURE))"
    using decide_action_eq [of ?j] i xi rc(3) by (simp add: replan_after_def Let_def)
  obtain a why where aw: "decide_action ?j = (a, why)" by force
  have ids: "\<not> blank (execution_id c)" "\<not> blank (rp_id (ro_report x))" "1 \<le> iteration c"
    using rc v gi(2) pv by (auto simp: valid_context_iff header_ok_def)
  obtain d where d: "decide ?j pd = Inr d" "rx_action d = a" "rx_execution_id d = execution_id c"
    "rx_reflection_id d = rp_id (ro_report x)"
    using aw ids by (auto simp: decide_def make_replanning_outcome_def replan_after_def accepted guarded_def
        empty_fields_def)
  have cont: "a = CONTINUE_WITH_FRESH_DECISION \<longleftrightarrow> capacity c"
    using act aw ids(3) by (auto simp: capacity_def split: if_splits)
  have cap: "capacity c = capacity (gi_context i)" using rc by (simp add: capacity_def)
  have go: "\<exists>ref c'. replanning_evidence_ref d = Inr ref \<and>
      transition None c CONTEXT_ASSEMBLING [ref] None now' = Inr (\<lparr>accepted = True, res_context = c', error_code = None\<rparr>, []) \<and>
      state c' = CONTEXT_ASSEMBLING \<and> iteration c' = 2 \<and> \<not> exhausted c' MUTATING \<and> \<not> exhausted c' VERIFYING"
    if "capacity c"
  proof -
    obtain ref where ref: "replanning_evidence_ref d = Inr ref" using replanning_ref_ok [of d] d(3) ids(1) by auto
    have lt: "iterations_used (budget c) < max_iterations (budget c)" using that by (simp add: capacity_def)
    note as = assembling_context [OF rc(2,3) lt, of "[ref]" now']
    show ?thesis
      by (intro exI [of _ ref] exI [of _ "next_context c CONTEXT_ASSEMBLING [ref] None now'"])
        (use ref as that in \<open>simp add: capacity_def exhausted_def\<close>)
  qed
  show ?thesis
    by (intro exI [of _ c] exI [of _ d]) (use rc(1) ok d cont cap go in blast)
qed

theorem recovery_round_witness:
  "\<exists>x m ev c d. snd (adapter_reflect (\<lambda>_. False) (default_engine demo_ids 0) demo_input) = Inr x \<and>
     outcome_evidence_ref x = Inr ev \<and>
     transition None reflecting_context REPLANNING [ev] None 9 = Inr (\<lparr>accepted = True, res_context = c, error_code = None\<rparr>, []) \<and>
     decide (replan_after demo_input c x m) [] = Inr d \<and> rx_action d = CONTINUE_WITH_FRESH_DECISION"
proof -
  from reflection_total [OF demo_input_ok, of 0 demo_ids] obtain x m where
    x: "snd (adapter_reflect (\<lambda>_. False) (default_engine demo_ids 0) demo_input) = Inr x" and
    pv: "pv_reflection_id (ro_provenance x) = demo_ids 1" and m: "memory_evidence_of demo_ids x = Inr m"
    by (elim exE conjE) auto
  have "rp_id (ro_report x) = demo_ids 1" using adapter_reflect_Inr [OF x] provenance_of_Inr pv by fastforce
  then have "\<not> blank (rp_id (ro_report x))" using demo_input_ok(5) by simp
  then obtain ev where ev: "outcome_evidence_ref x = Inr ev"
    by (auto simp: outcome_evidence_ref_def make_evidence_def freeze_mapping_def)
  have c: "gi_context demo_input = reflecting_context" by (simp add: demo_input_def)
  have cap: "capacity (gi_context demo_input)" by code_simp
  from recovery_round [OF demo_input_ok(2,1) x m ev, of 9 "[]" 10] cap show ?thesis
    using x ev m unfolding c by blast
qed

section \<open>Fresh authority\<close>

text \<open>A run of authorities, each accepted by its constructor and validated against the one before.\<close>

fun authority_chain :: "fresh_authority list \<Rightarrow> bool" where
  "authority_chain [] \<longleftrightarrow> True"
| "authority_chain [a] \<longleftrightarrow> make_authority a = Inr a"
| "authority_chain (a # b # as) \<longleftrightarrow>
     make_authority a = Inr a \<and> validate_fresh_authority a b = Inr () \<and> authority_chain (b # as)"

lemma fresh_authority_iff:
  "validate_fresh_authority a b = Inr () \<longleftrightarrow>
     fa_execution_id b = fa_execution_id a \<and> fa_iteration b = fa_iteration a + 1 \<and>
     fa_context_artifact_id b \<noteq> fa_context_artifact_id a \<and> fa_context_fingerprint b \<noteq> fa_context_fingerprint a \<and>
     fa_decision_request_id b \<noteq> fa_decision_request_id a \<and> fa_decision_id b \<noteq> fa_decision_id a \<and>
     fa_proposal_id b \<noteq> fa_proposal_id a \<and> fa_authorization_id b \<noteq> fa_authorization_id a"
  by (auto simp: validate_fresh_authority_def accepted authority_fields_def simp del: first_error.simps)

text \<open>C20. Along a run of authorities each validated against its predecessor, every authority belongs to the same
  execution, its iteration is its position from the first one's iteration on, so no authority occurs twice, and none shares
  a context, a decision, a proposal or an authorization with its predecessor.\<close>

theorem authority_chain_serial:
  assumes "authority_chain as" and "k < length as"
  shows "fa_execution_id (as ! k) = fa_execution_id (hd as) \<and> fa_iteration (as ! k) = fa_iteration (hd as) + int k \<and>
    1 \<le> fa_iteration (as ! k) \<and> distinct as \<and>
    (0 < k \<longrightarrow> fa_context_artifact_id (as ! k) \<noteq> fa_context_artifact_id (as ! (k - 1)) \<and>
      fa_context_fingerprint (as ! k) \<noteq> fa_context_fingerprint (as ! (k - 1)) \<and>
      fa_decision_request_id (as ! k) \<noteq> fa_decision_request_id (as ! (k - 1)) \<and>
      fa_decision_id (as ! k) \<noteq> fa_decision_id (as ! (k - 1)) \<and> fa_proposal_id (as ! k) \<noteq> fa_proposal_id (as ! (k - 1)) \<and>
      fa_authorization_id (as ! k) \<noteq> fa_authorization_id (as ! (k - 1)))"
proof -
  have serial: "fa_execution_id (bs ! n) = fa_execution_id (hd bs) \<and> fa_iteration (bs ! n) = fa_iteration (hd bs) + int n \<and>
      1 \<le> fa_iteration (hd bs)" if "authority_chain bs" "n < length bs" for bs n
    using that
  proof (induction bs arbitrary: n rule: authority_chain.induct)
    case (2 a)
    then show ?case by (auto simp: make_authority_def accepted simp del: first_error.simps)
  next
    case (3 a b as)
    then have f: "make_authority a = Inr a" "fa_execution_id b = fa_execution_id a" "fa_iteration b = fa_iteration a + 1"
      by (auto simp: fresh_authority_iff)
    have "1 \<le> fa_iteration a" using f(1) by (auto simp: make_authority_def accepted simp del: first_error.simps)
    with 3 f show ?case by (cases n) (auto simp: algebra_simps)
  qed simp
  have fresh: "validate_fresh_authority (bs ! n) (bs ! Suc n) = Inr ()" if "authority_chain bs" "Suc n < length bs" for bs n
    using that by (induction bs arbitrary: n rule: authority_chain.induct) (auto simp: nth_Cons split: nat.splits)
  have "distinct as" unfolding distinct_conv_nth
  proof (intro allI impI)
    fix m n assume mn: "m < length as" "n < length as" "m \<noteq> n"
    from serial [OF assms(1) mn(1)] serial [OF assms(1) mn(2)] mn(3) have "fa_iteration (as ! m) \<noteq> fa_iteration (as ! n)" by simp
    then show "as ! m \<noteq> as ! n" by auto
  qed
  moreover have "0 < k \<Longrightarrow> validate_fresh_authority (as ! (k - 1)) (as ! k) = Inr ()"
    using fresh [OF assms(1), of "k - 1"] assms(2) by simp
  ultimately show ?thesis using serial [OF assms] by (simp add: fresh_authority_iff)
qed

definition demo_authority :: "int \<Rightarrow> string \<Rightarrow> fresh_authority" where
  "demo_authority n s = \<lparr>fa_execution_id = ''e'', fa_iteration = n, fa_context_artifact_id = ''c'' @ s,
     fa_context_fingerprint = ''f'' @ s, fa_decision_request_id = ''q'' @ s, fa_decision_id = ''d'' @ s,
     fa_proposal_id = ''p'' @ s, fa_authorization_id = ''a'' @ s, fa_version = ''1.0''\<rparr>"

theorem authority_chain_serial_witness:
  "fa_proposal_id ([demo_authority 1 ''x'', demo_authority 2 ''y''] ! 1) \<noteq> fa_proposal_id ([demo_authority 1 ''x'', demo_authority 2 ''y''] ! 0)"
proof -
  have "authority_chain [demo_authority 1 ''x'', demo_authority 2 ''y'']" by code_simp
  from authority_chain_serial [OF this, of 1] show ?thesis by simp
qed

text \<open>The artifacts of the next iteration: none of seven identities may be the failed iteration's.\<close>

lemma fresh_iteration_iff:
  assumes "make_replanning_input j = Inr j"
  shows "validate_fresh_iteration j a = Inr () \<longleftrightarrow>
    fr_context_artifact_id a \<noteq> pv_context_artifact_id (ro_provenance (ri_reflection j)) \<and>
    fr_context_fingerprint a \<noteq> pv_context_fingerprint (ro_provenance (ri_reflection j)) \<and>
    fr_decision_id a \<noteq> gi_decision_id (ro_input (ri_reflection j)) \<and>
    fr_proposal_id a \<noteq> gi_proposal_id (ro_input (ri_reflection j)) \<and>
    fr_authorization_id a \<noteq> gi_authorization_id (ro_input (ri_reflection j)) \<and>
    fr_receipt_id a \<noteq> pv_receipt_id (ro_provenance (ri_reflection j)) \<and>
    fr_verification_id a \<noteq> pv_verification_id (ro_provenance (ri_reflection j))"
proof -
  have "first_error (replanning_input_errors j) = None" using assms by (simp add: make_replanning_input_def guarded_Inr_iff)
  then show ?thesis
    by (auto simp: validate_fresh_iteration_def stale_fields_def replanning_input_errors_def Let_def accepted simp del: first_error.simps)
qed

section \<open>Corner cases\<close>

lemma default_engine_stripped:
  assumes "default_engine new now c = Inr r"
  shows "py_strip (rp_run_id r) = rp_run_id r"
proof -
  from assms obtain r0 where "make_report r0 = Inr r"
    unfolding default_engine_def bind_res_Inr_iff by (elim exE conjE) (auto split: sum.split_asm)
  then show ?thesis by (auto simp: make_report_def bind_res_Inr_iff nonempty_str_def split: if_splits)
qed

text \<open>
  The context accepts a run identifier with surrounding white space; reflection strips it, and the
  outcome then never matches the execution it belongs to.
\<close>

lemma padded_run_id_never_reflects:
  assumes "py_strip (exec_context.run_id (gi_context i)) \<noteq> exec_context.run_id (gi_context i)"
  shows "snd (adapter_reflect raises (default_engine new now) i) \<noteq> Inr x"
proof
  assume "snd (adapter_reflect raises (default_engine new now) i) = Inr x"
  from adapter_reflect_Inr [OF this] have f: "ro_input x = i" "make_outcome x = Inr x"
    "default_engine new now (ro_context x) = Inr (ro_report x)" by auto
  have "py_strip (rp_run_id (ro_report x)) = rp_run_id (ro_report x)" by (rule default_engine_stripped [OF f(3)])
  moreover have "rp_run_id (ro_report x) = exec_context.run_id (gi_context i)"
    using f(1,2) by (auto simp: make_outcome_def accepted simp del: first_error.simps)
  ultimately show False using assms by simp
qed

text \<open>Metadata of the input with the key of a trusted field replaces it in the reflection context.\<close>

lemma metadata_overrides_evidence:
  "make_reflection_input (demo_input\<lparr>gi_metadata := PProxy [(PStr ''receipt_id'', PStr ''other'')]\<rparr>)
     = Inr (demo_input\<lparr>gi_metadata := PProxy [(PStr ''receipt_id'', PStr ''other'')]\<rparr>) \<and>
   (PStr ''receipt_id'', PStr ''other'') \<in> set (bounded_metadata (demo_input\<lparr>gi_metadata := PProxy [(PStr ''receipt_id'', PStr ''other'')]\<rparr>))
   \<and> (PStr ''receipt_id'', PStr ''m'') \<notin> set (bounded_metadata (demo_input\<lparr>gi_metadata := PProxy [(PStr ''receipt_id'', PStr ''other'')]\<rparr>))"
  by code_simp

text \<open>The identity of the decision request is not among the ones compared.\<close>

lemma decision_request_not_compared:
  "validate_fresh_iteration j (a\<lparr>fr_decision_request_id := q\<rparr>) = validate_fresh_iteration j a"
  by (simp add: validate_fresh_iteration_def stale_fields_def)

text \<open>Two of the reasons the policy can give never occur on an accepted input.\<close>

lemma unreachable_reasons:
  assumes "make_replanning_input j = Inr j"
    and "make_reflection_input (ro_input (ri_reflection j)) = Inr (ro_input (ri_reflection j))"
  shows "snd (decide_action j) \<notin> {TERMINAL_CONTEXT, INELIGIBLE_VERIFICATION}"
proof -
  have "state (ri_context j) = REPLANNING"
    using assms(1) by (auto simp: make_replanning_input_def replanning_input_errors_def Let_def accepted simp del: first_error.simps)
  from decide_action_eq [OF assms(2) this] show ?thesis by (simp add: Let_def)
qed

text \<open>A report with a scheduler finding, or with a finding that keeps the default description, has no experience.\<close>

lemma no_experience:
  assumes "findings r = [f]" and "fi_category f = FC_SCHEDULER \<or> blank (fi_description f)"
  shows "\<exists>msg. build_from_reflection new c r = Inl (ValueError msg)"
  using assms
  by (cases "fi_category f") (auto simp: build_from_reflection_def make_lesson_def nonempty_str_def)

end
