(* ===== verification/Json.thy ===== *)
theory Json
  imports Filesystem
begin

text \<open>
  What the governed stores use of the \<open>json\<close> module: \<open>dumps\<close> with sorted keys, the compact separators
  and ASCII output, and \<open>loads\<close>, as a tokenizer followed by a stack machine. Both are structurally
  recursive, so no fuel is needed. A text is the list of its code points.

  An object is the list of its pairs as they were read; the dictionary Python builds keeps the last
  pair of a key (\<open>obj_get\<close>). A float is kept as the literal it is written with.
\<close>

type_synonym ustring = "nat list"

datatype json = JNull | JBool bool | JInt int | JFloat ustring | JStr ustring | JArr "json list" | JObj "(ustring \<times> json) list"

definition obj_get :: "(ustring \<times> json) list \<Rightarrow> ustring \<Rightarrow> json option" where
  "obj_get kvs k = map_of (rev kvs) k"

definition obj_keys :: "(ustring \<times> json) list \<Rightarrow> ustring set" where
  "obj_keys kvs = fst ` set kvs"

section \<open>Writing\<close>

definition hex_digit :: "nat \<Rightarrow> nat" where
  "hex_digit n = (if n < 10 then 48 + n else 87 + n)"

definition hex4 :: "nat \<Rightarrow> ustring" where
  "hex4 n = [hex_digit (n div 4096 mod 16), hex_digit (n div 256 mod 16), hex_digit (n div 16 mod 16), hex_digit (n mod 16)]"

text \<open>The escapes of a string in ASCII output: 92 is the backslash, 117 the letter u.\<close>

definition escape_point :: "nat \<Rightarrow> ustring" where
  "escape_point c =
     (if c = 34 then [92, 34] else if c = 92 then [92, 92]
      else if c = 10 then [92, 110] else if c = 13 then [92, 114] else if c = 9 then [92, 116]
      else if c = 12 then [92, 102] else if c = 8 then [92, 98]
      else if 32 \<le> c \<and> c \<le> 126 then [c]
      else if c < 65536 then [92, 117] @ hex4 c
      else [92, 117] @ hex4 (55296 + (c - 65536) div 1024) @ [92, 117] @ hex4 (56320 + (c - 65536) mod 1024))"

definition write_string :: "ustring \<Rightarrow> ustring" where
  "write_string s = [34] @ concat (map escape_point s) @ [34]"

datatype token = TOpenObj | TCloseObj | TOpenArr | TCloseArr | TComma | TColon | TString ustring | TNumber ustring | TWord ustring

definition write_token :: "token \<Rightarrow> ustring" where
  "write_token t = (case t of TOpenObj \<Rightarrow> [123] | TCloseObj \<Rightarrow> [125] | TOpenArr \<Rightarrow> [91] | TCloseArr \<Rightarrow> [93]
     | TComma \<Rightarrow> [44] | TColon \<Rightarrow> [58] | TString s \<Rightarrow> write_string s | TNumber n \<Rightarrow> n | TWord w \<Rightarrow> w)"

definition word_true :: ustring where "word_true = [116, 114, 117, 101]"
definition word_false :: ustring where "word_false = [102, 97, 108, 115, 101]"
definition word_null :: ustring where "word_null = [110, 117, 108, 108]"

fun separated :: "token list list \<Rightarrow> token list" where
  "separated [] = []"
| "separated [t] = t"
| "separated (t # ts) = t @ [TComma] @ separated ts"

fun tokens :: "json \<Rightarrow> token list" where
  "tokens JNull = [TWord word_null]"
| "tokens (JBool b) = [TWord (if b then word_true else word_false)]"
| "tokens (JInt i) = [TNumber (code_points (show_int i))]"
| "tokens (JFloat r) = [TNumber r]"
| "tokens (JStr s) = [TString s]"
| "tokens (JArr js) = [TOpenArr] @ separated (map tokens js) @ [TCloseArr]"
| "tokens (JObj kvs) = [TOpenObj] @ separated (map (\<lambda>kv. [TString (fst kv), TColon] @ tokens (snd kv)) kvs) @ [TCloseObj]"

fun sort_keys :: "json \<Rightarrow> json" where
  "sort_keys (JArr js) = JArr (map sort_keys js)"
| "sort_keys (JObj kvs) = JObj (sort_key fst (map (\<lambda>kv. (fst kv, sort_keys (snd kv))) kvs))"
| "sort_keys j = j"

definition write_tokens :: "token list \<Rightarrow> ustring" where
  "write_tokens ts = concat (map write_token ts)"

definition dumps :: "json \<Rightarrow> ustring" where
  "dumps j = write_tokens (tokens (sort_keys j))"

section \<open>Reading: the tokenizer\<close>

definition hex_value :: "nat \<Rightarrow> nat option" where
  "hex_value c = (if 48 \<le> c \<and> c \<le> 57 then Some (c - 48) else if 97 \<le> c \<and> c \<le> 102 then Some (c - 87)
     else if 65 \<le> c \<and> c \<le> 70 then Some (c - 55) else None)"

definition unhex4 :: "nat \<Rightarrow> nat \<Rightarrow> nat \<Rightarrow> nat \<Rightarrow> nat option" where
  "unhex4 a b c d = (case (hex_value a, hex_value b, hex_value c, hex_value d) of
     (Some w, Some x, Some y, Some z) \<Rightarrow> Some (w * 4096 + x * 256 + y * 16 + z) | _ \<Rightarrow> None)"

text \<open>The two-character escapes.\<close>

definition short_escape :: "nat \<Rightarrow> nat option" where
  "short_escape c = map_of [(34, 34), (92, 92), (47, 47), (98, 8), (102, 12), (110, 10), (114, 13), (116, 9)] c"

definition high_surrogate :: "nat \<Rightarrow> bool" where
  "high_surrogate n \<longleftrightarrow> 55296 \<le> n \<and> n \<le> 56319"

definition low_surrogate :: "nat \<Rightarrow> bool" where
  "low_surrogate n \<longleftrightarrow> 56320 \<le> n \<and> n \<le> 57343"

text \<open>
  The code unit of a \<open>\u\<close> escape, and the second unit of a surrogate pair when one follows; the first
  result is the code point, the second what is left.
\<close>

fun unit_escape :: "ustring \<Rightarrow> (nat \<times> ustring) option" where
  "unit_escape (a # b # c # d # rest) =
     (case unhex4 a b c d of
        None \<Rightarrow> None
      | Some n \<Rightarrow>
          (if high_surrogate n then
             (case rest of
                s # u # a' # b' # c' # d' # rest' \<Rightarrow>
                  (if s = 92 \<and> u = 117 then
                     (case unhex4 a' b' c' d' of
                        None \<Rightarrow> None
                      | Some m \<Rightarrow> if low_surrogate m then Some (65536 + (n - 55296) * 1024 + (m - 56320), rest') else Some (n, rest))
                   else Some (n, rest))
              | _ \<Rightarrow> Some (n, rest))
           else Some (n, rest)))"
| "unit_escape _ = None"

lemma unit_escape_length [termination_simp]: "unit_escape cs = Some (n, rest) \<Longrightarrow> length rest < length cs"
  by (cases cs rule: unit_escape.cases) (auto split: option.splits list.splits if_splits)

text \<open>The characters of a string up to its closing quote; control characters are refused.\<close>

function read_string :: "ustring \<Rightarrow> (ustring \<times> ustring) option" where
  "read_string [] = None"
| "read_string (c # cs) =
     (if c = 34 then Some ([], cs)
      else if c = 92 then
        (case cs of
           [] \<Rightarrow> None
         | e # rest \<Rightarrow>
             if e = 117 then
               (case unit_escape rest of
                  None \<Rightarrow> None
                | Some (n, rest') \<Rightarrow> map_option (\<lambda>(s, r). (n # s, r)) (read_string rest'))
             else (case short_escape e of
                     None \<Rightarrow> None
                   | Some x \<Rightarrow> map_option (\<lambda>(s, r). (x # s, r)) (read_string rest)))
      else if c < 32 then None
      else map_option (\<lambda>(s, r). (c # s, r)) (read_string cs))"
  by pat_completeness auto
termination by (relation "measure length") (auto dest: unit_escape_length)

declare read_string.simps(2) [simp del]

lemma read_string_length [termination_simp]: "read_string cs = Some (s, rest) \<Longrightarrow> length rest < length cs"
proof (induction cs arbitrary: s rest rule: read_string.induct)
  case (2 c cs)
  then show ?case
    by (fastforce simp: read_string.simps(2) dest: unit_escape_length split: if_splits list.splits option.splits)
qed simp

definition number_char :: "nat \<Rightarrow> bool" where
  "number_char c \<longleftrightarrow> (48 \<le> c \<and> c \<le> 57) \<or> c = 45 \<or> c = 43 \<or> c = 46 \<or> c = 101 \<or> c = 69"

definition letter :: "nat \<Rightarrow> bool" where
  "letter c \<longleftrightarrow> (97 \<le> c \<and> c \<le> 122) \<or> (65 \<le> c \<and> c \<le> 90)"

definition json_space :: "nat \<Rightarrow> bool" where
  "json_space c \<longleftrightarrow> c \<in> {32, 9, 10, 13}"

definition punctuation :: "nat \<Rightarrow> token option" where
  "punctuation c = map_of [(123, TOpenObj), (125, TCloseObj), (91, TOpenArr), (93, TCloseArr), (44, TComma), (58, TColon)] c"

lemma length_dropWhile_Suc [termination_simp]: "length (dropWhile P xs) < Suc (length xs)"
  by (simp add: le_imp_less_Suc length_dropWhile_le)

function tokenize :: "ustring \<Rightarrow> token list option" where
  "tokenize [] = Some []"
| "tokenize (c # cs) =
     (if json_space c then tokenize cs
      else case punctuation c of
        Some t \<Rightarrow> map_option ((#) t) (tokenize cs)
      | None \<Rightarrow>
          if c = 34 then
            (case read_string cs of
               None \<Rightarrow> None
             | Some (s, rest) \<Rightarrow> map_option ((#) (TString s)) (tokenize rest))
          else if c = 45 \<and> takeWhile letter cs = code_points ''Infinity''
          then map_option ((#) (TWord (c # takeWhile letter cs))) (tokenize (dropWhile letter cs))
          else if c = 45 \<or> (48 \<le> c \<and> c \<le> 57) then
            map_option ((#) (TNumber (c # takeWhile number_char cs))) (tokenize (dropWhile number_char cs))
          else if letter c then
            map_option ((#) (TWord (c # takeWhile letter cs))) (tokenize (dropWhile letter cs))
          else None)"
  by pat_completeness auto
termination
  by (relation "measure length") (auto dest: read_string_length simp: length_dropWhile_Suc)

declare tokenize.simps(2) [simp del]

section \<open>Reading: numbers and the stack machine\<close>

definition digit :: "nat \<Rightarrow> bool" where
  "digit c \<longleftrightarrow> 48 \<le> c \<and> c \<le> 57"

definition digits_value :: "ustring \<Rightarrow> nat" where
  "digits_value ds = foldl (\<lambda>n d. 10 * n + (d - 48)) 0 ds"

definition whole_part :: "ustring \<Rightarrow> bool" where
  "whole_part ds \<longleftrightarrow> ds \<noteq> [] \<and> list_all digit ds \<and> (hd ds = 48 \<longrightarrow> length ds = 1)"

text \<open>What may follow the whole part: a fraction, an exponent, or both.\<close>

definition exponent_part :: "ustring \<Rightarrow> bool" where
  "exponent_part s \<longleftrightarrow>
     (case s of [] \<Rightarrow> True
      | e # ds \<Rightarrow> (e = 101 \<or> e = 69) \<and>
          (let r = (case ds of s # r \<Rightarrow> if s = 43 \<or> s = 45 then r else ds | [] \<Rightarrow> []) in r \<noteq> [] \<and> list_all digit r))"

definition fraction_part :: "ustring \<Rightarrow> bool" where
  "fraction_part s \<longleftrightarrow>
     (case s of c # r \<Rightarrow> (if c = 46 then takeWhile digit r \<noteq> [] \<and> exponent_part (dropWhile digit r) else exponent_part s)
      | [] \<Rightarrow> True)"

definition read_number :: "ustring \<Rightarrow> json option" where
  "read_number s =
     (let (neg, u) = (case s of c # r \<Rightarrow> if c = 45 then (True, r) else (False, s) | [] \<Rightarrow> (False, s));
          whole = takeWhile digit u; tail = dropWhile digit u
      in if \<not> whole_part whole \<or> \<not> fraction_part tail then None
         else if tail = [] then Some (JInt (if neg then - int (digits_value whole) else int (digits_value whole)))
         else Some (JFloat s))"

text \<open>\<open>NaN\<close> and the two infinities are floats.\<close>

definition read_word :: "ustring \<Rightarrow> json option" where
  "read_word w = (if w = word_true then Some (JBool True) else if w = word_false then Some (JBool False)
     else if w = word_null then Some JNull
     else if w \<in> {code_points ''NaN'', code_points ''Infinity'', code_points ''-Infinity''} then Some (JFloat w) else None)"

text \<open>An array with the elements read so far, an object with its pairs and the key whose value comes next.\<close>

datatype frame = FArr "json list" | FObj "(ustring \<times> json) list" ustring

datatype expect = EValue | EFirst | EKey "(ustring \<times> json) list" | EFirstKey | EColon "(ustring \<times> json) list" ustring | EAfter json

definition scalar_of :: "token \<Rightarrow> json option" where
  "scalar_of t = (case t of TString s \<Rightarrow> Some (JStr s) | TNumber n \<Rightarrow> read_number n | TWord w \<Rightarrow> read_word w | _ \<Rightarrow> None)"

fun begin_value :: "frame list \<Rightarrow> token \<Rightarrow> (frame list \<times> expect) option" where
  "begin_value st TOpenArr = Some (FArr [] # st, EFirst)"
| "begin_value st TOpenObj = Some (st, EFirstKey)"
| "begin_value st t = map_option (\<lambda>j. (st, EAfter j)) (scalar_of t)"

fun machine_step :: "frame list \<times> expect \<Rightarrow> token \<Rightarrow> (frame list \<times> expect) option" where
  "machine_step (st, EValue) t = begin_value st t"
| "machine_step (st, EFirst) t =
     (if t = TCloseArr then (case st of FArr js # st' \<Rightarrow> Some (st', EAfter (JArr js)) | _ \<Rightarrow> None) else begin_value st t)"
| "machine_step (st, EFirstKey) t =
     (case t of TCloseObj \<Rightarrow> Some (st, EAfter (JObj [])) | TString k \<Rightarrow> Some (st, EColon [] k) | _ \<Rightarrow> None)"
| "machine_step (st, EKey kvs) t = (case t of TString k \<Rightarrow> Some (st, EColon kvs k) | _ \<Rightarrow> None)"
| "machine_step (st, EColon kvs k) t = (if t = TColon then Some (FObj kvs k # st, EValue) else None)"
| "machine_step (st, EAfter j) t =
     (case st of
        FArr js # st' \<Rightarrow>
          (if t = TComma then Some (FArr (js @ [j]) # st', EValue)
           else if t = TCloseArr then Some (st', EAfter (JArr (js @ [j]))) else None)
      | FObj kvs k # st' \<Rightarrow>
          (if t = TComma then Some (st', EKey (kvs @ [(k, j)]))
           else if t = TCloseObj then Some (st', EAfter (JObj (kvs @ [(k, j)]))) else None)
      | [] \<Rightarrow> None)"

fun run_machine :: "frame list \<times> expect \<Rightarrow> token list \<Rightarrow> json option" where
  "run_machine s [] = (case s of ([], EAfter j) \<Rightarrow> Some j | _ \<Rightarrow> None)"
| "run_machine s (t # ts) = (case machine_step s t of None \<Rightarrow> None | Some s' \<Rightarrow> run_machine s' ts)"

definition loads :: "ustring \<Rightarrow> json option" where
  "loads s = Option.bind (tokenize s) (run_machine ([], EValue))"

section \<open>Reading back what was written\<close>

text \<open>A code point that is not a surrogate.\<close>

definition point_ok :: "nat \<Rightarrow> bool" where
  "point_ok c \<longleftrightarrow> c < 1114112 \<and> \<not> (55296 \<le> c \<and> c \<le> 57343)"

definition ustring_ok :: "ustring \<Rightarrow> bool" where
  "ustring_ok s \<longleftrightarrow> list_all point_ok s"

definition float_ok :: "ustring \<Rightarrow> bool" where
  "float_ok r \<longleftrightarrow> read_number r = Some (JFloat r) \<and> list_all number_char r \<and> (hd r = 45 \<or> digit (hd r))"

fun json_ok :: "json \<Rightarrow> bool" where
  "json_ok (JFloat r) \<longleftrightarrow> float_ok r"
| "json_ok (JStr s) \<longleftrightarrow> ustring_ok s"
| "json_ok (JArr js) \<longleftrightarrow> (\<forall>j \<in> set js. json_ok j)"
| "json_ok (JObj kvs) \<longleftrightarrow> (\<forall>kv \<in> set kvs. ustring_ok (fst kv) \<and> json_ok (snd kv))"
| "json_ok _ \<longleftrightarrow> True"

subsection \<open>Strings\<close>

lemma hex_value_digit: "n < 16 \<Longrightarrow> hex_value (hex_digit n) = Some n"
  by (auto simp: hex_value_def hex_digit_def)

lemma hex_sum: "n < 65536 \<Longrightarrow>
  n div 4096 mod 16 * 4096 + n div 256 mod 16 * 256 + n div 16 mod 16 * 16 + n mod 16 = (n :: nat)"
proof -
  assume n: "n < 65536"
  obtain a d where a: "n = a * 16 + d" "d < 16" by (metis div_mult_mod_eq mod_less_divisor zero_less_numeral)
  obtain b c where b: "a = b * 16 + c" "c < 16" by (metis div_mult_mod_eq mod_less_divisor zero_less_numeral)
  obtain e f where e: "b = e * 16 + f" "f < 16" by (metis div_mult_mod_eq mod_less_divisor zero_less_numeral)
  have d1: "n div 16 = a" "n mod 16 = d" using a by simp_all
  have d2: "n div 256 = b" using b d1 div_mult2_eq [of n 16 16] by simp
  have d3: "n div 4096 = e" using e d2 div_mult2_eq [of n 256 16] by simp
  have "e < 16" using n a b e by simp
  have m: "a mod 16 = c" "b mod 16 = f" "e mod 16 = e" unfolding b(1) e(1) using b(2) e(2) \<open>e < 16\<close> by (metis mod_less mod_mult_self3)+
  have "n = e * 4096 + f * 256 + c * 16 + d" using a(1) b(1) e(1) by simp
  then show ?thesis unfolding d1 d2 d3 m by simp
qed

lemma unhex4_hex4: "n < 65536 \<Longrightarrow> hex4 n = [a, b, c, d] \<Longrightarrow> unhex4 a b c d = Some n"
  using hex_sum [of n] by (auto simp: hex4_def unhex4_def hex_value_digit)

lemma unit_escape_plain: "n < 65536 \<Longrightarrow> \<not> high_surrogate n \<Longrightarrow> unit_escape (hex4 n @ cs) = Some (n, cs)"
  using unhex4_hex4 [of n] by (simp add: hex4_def)

lemma unit_escape_pair:
  assumes "high_surrogate n" and "low_surrogate m"
  shows "unit_escape (hex4 n @ [92, 117] @ hex4 m @ cs) = Some (65536 + (n - 55296) * 1024 + (m - 56320), cs)"
proof -
  have "n < 65536" "m < 65536" using assms by (auto simp: high_surrogate_def low_surrogate_def)
  then show ?thesis using assms unhex4_hex4 [of n] unhex4_hex4 [of m] by (simp add: hex4_def)
qed

lemma read_escape:
  assumes "point_ok c"
  shows "read_string (escape_point c @ cs) = map_option (\<lambda>(s, r). (c # s, r)) (read_string cs)"
proof -
  consider (short) "c \<in> {34, 92, 10, 13, 9, 12, 8}" | (plain) "c \<notin> {34, 92, 10, 13, 9, 12, 8}" "32 \<le> c" "c \<le> 126"
    | (unit) "c \<notin> {34, 92, 10, 13, 9, 12, 8}" "\<not> (32 \<le> c \<and> c \<le> 126)" "c < 65536"
    | (pair) "65536 \<le> c" by fastforce
  then show ?thesis
  proof cases
    case short
    then show ?thesis by (auto simp: escape_point_def read_string.simps(2) short_escape_def)
  next
    case plain
    then show ?thesis by (simp add: escape_point_def read_string.simps(2))
  next
    case unit
    moreover have "\<not> high_surrogate c" using assms by (auto simp: point_ok_def high_surrogate_def)
    ultimately show ?thesis using unit_escape_plain [of c cs] by (simp add: escape_point_def read_string.simps(2))
  next
    case pair
    let ?h = "55296 + (c - 65536) div 1024" and ?l = "56320 + (c - 65536) mod 1024"
    have "(c - 65536) div 1024 < 1024" using assms by (auto simp: point_ok_def)
    then have "high_surrogate ?h" "low_surrogate ?l" by (auto simp: high_surrogate_def low_surrogate_def)
    from unit_escape_pair [OF this, of cs]
    have "unit_escape (hex4 ?h @ 92 # 117 # hex4 ?l @ cs) = Some (65536 + (c - 65536), cs)" by simp
    then show ?thesis using pair by (simp add: escape_point_def read_string.simps(2))
  qed
qed

lemma read_written_string: "ustring_ok s \<Longrightarrow> read_string (concat (map escape_point s) @ 34 # cs) = Some (s, cs)"
  by (induction s) (simp_all add: ustring_ok_def read_escape read_string.simps(2))

subsection \<open>Numbers\<close>

lemma digit_point: "d < 10 \<Longrightarrow> (of_char (char_of (48 + d) :: char) :: nat) = 48 + d"
  by simp

lemma code_points_show_nat: "code_points (show_nat n) = (if n < 10 then [48 + n] else code_points (show_nat (n div 10)) @ [48 + n mod 10])"
  by (subst show_nat.simps) (simp add: code_points_def)

lemma digit_48: "k < 10 \<Longrightarrow> digit (48 + k)"
  by (simp add: digit_def)

lemma digits_value_snoc: "digits_value (ds @ [d]) = 10 * digits_value ds + (d - 48)"
  by (simp add: digits_value_def)

lemma show_nat_digits: "list_all digit (code_points (show_nat n)) \<and> code_points (show_nat n) \<noteq> [] \<and>
    digits_value (code_points (show_nat n)) = n \<and> (hd (code_points (show_nat n)) = 48 \<longrightarrow> n = 0)"
proof (induction n rule: less_induct)
  case (less n)
  show ?case
  proof (cases "n < 10")
    case True
    then show ?thesis unfolding code_points_show_nat [of n] by (simp add: digit_def digits_value_def)
  next
    case False
    then have "n div 10 < n" "n div 10 \<noteq> 0" by auto
    with less.IH [of "n div 10"] False digit_48 [of "n mod 10"] show ?thesis
      unfolding code_points_show_nat [of n] by (simp add: digits_value_snoc)
  qed
qed

lemma show_zero: "code_points (show_nat 0) = [48]"
  by (subst code_points_show_nat) simp

lemma whole_show_nat: "whole_part (code_points (show_nat n))"
  using show_nat_digits [of n] show_zero by (cases "n = 0") (auto simp: whole_part_def)

lemma takeWhile_all: "list_all P xs \<Longrightarrow> takeWhile P xs = xs \<and> dropWhile P xs = []"
  by (induction xs) auto

lemma read_digits:
  assumes "list_all digit ds" and "whole_part ds"
  shows "read_number ds = Some (JInt (int (digits_value ds)))" and "read_number (45 # ds) = Some (JInt (- int (digits_value ds)))"
proof -
  have tw: "takeWhile digit ds = ds" "dropWhile digit ds = []" using takeWhile_all [OF assms(1)] by auto
  obtain d r where d: "ds = d # r" "d \<noteq> 45" using assms by (cases ds) (auto simp: whole_part_def digit_def)
  show "read_number ds = Some (JInt (int (digits_value ds)))"
    using tw assms(2) d(2) by (simp add: read_number_def d(1) fraction_part_def Let_def)
  show "read_number (45 # ds) = Some (JInt (- int (digits_value ds)))"
    using assms(2) by (simp add: read_number_def tw fraction_part_def Let_def)
qed

lemma show_int_points:
  "code_points (show_int i) = (if i < 0 then 45 # code_points (show_nat (nat (- i))) else code_points (show_nat (nat i)))"
  by (simp add: show_int_def code_points_def)

lemma read_show_int: "read_number (code_points (show_int i)) = Some (JInt i)"
  using read_digits [OF _ whole_show_nat, of "nat (- i)"] read_digits [OF _ whole_show_nat, of "nat i"]
    show_nat_digits [of "nat (- i)"] show_nat_digits [of "nat i"]
  by (auto simp: show_int_points)

text \<open>How a number starts and that it has no delimiter in it.\<close>

definition number_like :: "ustring \<Rightarrow> bool" where
  "number_like n \<longleftrightarrow> n \<noteq> [] \<and> list_all number_char n \<and> (hd n = 45 \<or> digit (hd n))"

lemma number_like_int: "number_like (code_points (show_int i))"
proof -
  have c: "digit x \<Longrightarrow> number_char x" for x by (auto simp: digit_def number_char_def)
  then have d: "list_all digit xs \<Longrightarrow> list_all number_char xs" for xs by (auto simp: list_all_iff)
  have h: "list_all digit xs \<Longrightarrow> xs \<noteq> [] \<Longrightarrow> digit (hd xs)" for xs by (cases xs) auto
  show ?thesis
    using d h show_nat_digits [of "nat (- i)"] show_nat_digits [of "nat i"]
    by (auto simp: number_like_def show_int_points number_char_def)
qed

lemma number_like_float: "float_ok r \<Longrightarrow> number_like r"
  by (cases r) (auto simp: float_ok_def number_like_def read_number_def whole_part_def)

subsection \<open>Tokens\<close>

text \<open>What may follow a value: nothing, a comma or a closing bracket.\<close>

definition boundary :: "ustring \<Rightarrow> bool" where
  "boundary cs \<longleftrightarrow> cs = [] \<or> hd cs \<in> {44, 93, 125, 10}"

lemma tokenize_punctuation:
  "punctuation c = Some t \<Longrightarrow> tokenize (c # cs) = map_option ((#) t) (tokenize cs)"
  by (auto simp: tokenize.simps(2) json_space_def punctuation_def)

lemmas tokenize_marks = tokenize_punctuation [of 123 TOpenObj] tokenize_punctuation [of 125 TCloseObj]
  tokenize_punctuation [of 91 TOpenArr] tokenize_punctuation [of 93 TCloseArr] tokenize_punctuation [of 44 TComma]
  tokenize_punctuation [of 58 TColon]

lemma tokenize_mark [simp]:
  "tokenize (123 # cs) = map_option ((#) TOpenObj) (tokenize cs)" "tokenize (125 # cs) = map_option ((#) TCloseObj) (tokenize cs)"
  "tokenize (91 # cs) = map_option ((#) TOpenArr) (tokenize cs)" "tokenize (93 # cs) = map_option ((#) TCloseArr) (tokenize cs)"
  "tokenize (44 # cs) = map_option ((#) TComma) (tokenize cs)" "tokenize (58 # cs) = map_option ((#) TColon) (tokenize cs)"
  by (simp_all add: tokenize_marks punctuation_def)

lemma tokenize_string: "ustring_ok s \<Longrightarrow> tokenize (write_string s @ cs) = map_option ((#) (TString s)) (tokenize cs)"
  using read_written_string [of s cs]
  by (simp add: write_string_def tokenize.simps(2) json_space_def punctuation_def)

lemma span_append: "list_all P xs \<Longrightarrow> cs = [] \<or> \<not> P (hd cs) \<Longrightarrow> takeWhile P (xs @ cs) = xs \<and> dropWhile P (xs @ cs) = cs"
  by (induction xs) (cases cs; auto)+

lemma tokenize_number:
  assumes "number_like n" and "boundary cs"
  shows "tokenize (n @ cs) = map_option ((#) (TNumber n)) (tokenize cs)"
proof -
  obtain c ds where n: "n = c # ds" "list_all number_char ds" "c = 45 \<or> digit c"
    using assms(1) by (cases n) (auto simp: number_like_def)
  have b: "cs = [] \<or> \<not> number_char (hd cs)" "cs = [] \<or> \<not> letter (hd cs)"
    using assms(2) by (auto simp: boundary_def number_char_def letter_def)
  have inf: "takeWhile letter (ds @ cs) \<noteq> code_points ''Infinity''"
  proof
    assume e: "takeWhile letter (ds @ cs) = code_points ''Infinity''"
    then have "hd (ds @ cs) = 73" "ds @ cs \<noteq> []"
      by (cases "ds @ cs"; auto simp: code_points_def split: if_splits)+
    then show False using n(2) assms(2)
      by (cases ds) (auto simp: boundary_def number_char_def)
  qed
  have start: "\<not> json_space c" "punctuation c = None" "c \<noteq> 34" "c = 45 \<or> (48 \<le> c \<and> c \<le> 57)"
    using n(3) by (auto simp: json_space_def punctuation_def digit_def)
  show ?thesis using span_append [OF n(2) b(1)] inf start
    by (simp add: n(1) tokenize.simps(2))
qed

lemma tokenize_word:
  assumes "w \<in> {word_true, word_false, word_null}" and "boundary cs"
  shows "tokenize (w @ cs) = map_option ((#) (TWord w)) (tokenize cs)"
proof -
  obtain c ds where w: "w = c # ds" "list_all letter ds" "letter c"
    using assms(1) by (auto simp: word_true_def word_false_def word_null_def letter_def)
  have b: "cs = [] \<or> \<not> letter (hd cs)" using assms(2) by (auto simp: boundary_def letter_def)
  have "\<not> json_space c" "punctuation c = None" "c \<noteq> 34" "\<not> (c = 45 \<or> (48 \<le> c \<and> c \<le> 57))"
    using w(3) by (auto simp: letter_def json_space_def punctuation_def)
  then show ?thesis using span_append [OF w(2) b] w(3) by (auto simp: w(1) tokenize.simps(2))
qed

lemma write_tokens_append [simp]: "write_tokens (ts @ us) = write_tokens ts @ write_tokens us"
  by (simp add: write_tokens_def)

lemma write_tokens_Cons [simp]: "write_tokens (t # ts) = write_token t @ write_tokens ts" "write_tokens [] = []"
  by (simp_all add: write_tokens_def)

lemma option_Cons_append: "map_option ((#) t) (map_option ((@) ts) x) = map_option ((@) (t # ts)) x"
  "map_option ((@) us) (map_option ((@) ts) x) = map_option ((@) (us @ ts)) x"
  "map_option ((#) t) x = map_option ((@) [t]) x"
  by (cases x; simp)+

lemma partial_append: "(@) (x # xs) = (\<lambda>ys. x # xs @ ys)" "(@) (us @ ts) = (\<lambda>ys. us @ ts @ ys)" "(@) [] = (\<lambda>ys. ys)"
  by (simp_all add: fun_eq_iff)

text \<open>A list of token groups, each read back in front of any boundary, reads back between separators.\<close>

lemma tokenize_separated:
  assumes "\<forall>t \<in> set tss. \<forall>cs. boundary cs \<longrightarrow> tokenize (write_tokens t @ cs) = map_option ((@) t) (tokenize cs)"
    and "boundary cs"
  shows "tokenize (write_tokens (separated tss) @ cs) = map_option ((@) (separated tss)) (tokenize cs)"
  using assms
proof (induction tss rule: separated.induct)
  case 1
  then show ?case by (cases "tokenize cs") auto
next
  case (3 t u ts)
  have h: "tokenize (write_tokens t @ xs) = map_option ((@) t) (tokenize xs)" if "boundary xs" for xs
    using 3(2) that by simp
  have b: "boundary (44 # xs)" for xs by (simp add: boundary_def)
  have "tokenize (write_tokens t @ 44 # write_tokens (separated (u # ts)) @ cs)
      = map_option ((@) t) (map_option ((#) TComma) (map_option ((@) (separated (u # ts))) (tokenize cs)))"
    using 3 h [OF b] by simp
  then show ?case by (simp add: write_token_def option.map_comp o_def partial_append)
qed simp

lemma tokenize_tokens:
  "json_ok j \<Longrightarrow> boundary cs \<Longrightarrow> tokenize (write_tokens (tokens j) @ cs) = map_option ((@) (tokens j)) (tokenize cs)"
proof (induction j arbitrary: cs rule: tokens.induct)
  case (3 i)
  then show ?case using tokenize_number [OF number_like_int] by (simp add: write_token_def option_Cons_append)
next
  case (4 r)
  then show ?case using tokenize_number [OF number_like_float] by (simp add: write_token_def option_Cons_append)
next
  case (5 s)
  then show ?case using tokenize_string by (simp add: write_token_def option_Cons_append)
next
  case (6 js)
  have b: "boundary (93 # cs)" by (simp add: boundary_def)
  have "\<forall>t \<in> set (map tokens js). \<forall>cs. boundary cs \<longrightarrow> tokenize (write_tokens t @ cs) = map_option ((@) t) (tokenize cs)"
    using 6 by auto
  from tokenize_separated [OF this b] show ?case
    by (simp add: write_token_def option.map_comp o_def partial_append)
next
  case (7 kvs)
  have b: "boundary (125 # cs)" by (simp add: boundary_def)
  have "tokenize (write_tokens ([TString (fst kv), TColon] @ tokens (snd kv)) @ cs)
      = map_option ((@) ([TString (fst kv), TColon] @ tokens (snd kv))) (tokenize cs)"
    if "kv \<in> set kvs" "boundary cs" for kv cs
    using that 7 tokenize_string [of "fst kv" "58 # write_tokens (tokens (snd kv)) @ cs"]
    by (simp add: write_token_def option.map_comp o_def partial_append)
  then have "\<forall>t \<in> set (map (\<lambda>kv. [TString (fst kv), TColon] @ tokens (snd kv)) kvs). \<forall>cs. boundary cs \<longrightarrow>
      tokenize (write_tokens t @ cs) = map_option ((@) t) (tokenize cs)" by auto
  from tokenize_separated [OF this b] show ?case
    by (simp add: write_token_def option.map_comp o_def partial_append)
qed (use tokenize_word in \<open>simp_all add: write_token_def option_Cons_append\<close>)

subsection \<open>The machine\<close>

lemma run_elements:
  assumes "\<forall>x \<in> set xs. \<forall>st ts. run_machine (st, EValue) (tokens x @ ts) = run_machine (st, EAfter x) ts" and "xs \<noteq> []"
  shows "run_machine (FArr js # st, EValue) (separated (map tokens xs) @ TCloseArr # ts) = run_machine (st, EAfter (JArr (js @ xs))) ts"
  using assms
proof (induction xs arbitrary: js)
  case (Cons x xs)
  then show ?case by (cases xs) simp_all
qed simp

lemma run_pairs:
  assumes "\<forall>kv \<in> set xs. \<forall>st ts. run_machine (st, EValue) (tokens (snd kv) @ ts) = run_machine (st, EAfter (snd kv)) ts" and "xs \<noteq> []"
  shows "run_machine (st, EKey kvs) (separated (map (\<lambda>kv. [TString (fst kv), TColon] @ tokens (snd kv)) xs) @ TCloseObj # ts)
    = run_machine (st, EAfter (JObj (kvs @ xs))) ts"
  using assms
proof (induction xs arbitrary: kvs)
  case (Cons x xs)
  then show ?case by (cases xs; cases x) simp_all
qed simp

lemma run_first: "t \<noteq> TCloseArr \<Longrightarrow> run_machine (st, EFirst) (t # ts) = run_machine (st, EValue) (t # ts)"
  by simp

lemma tokens_start: "\<exists>t ts. tokens j = t # ts \<and> t \<noteq> TCloseArr"
  by (cases j) simp_all

lemma separated_start:
  assumes "js \<noteq> []"
  shows "\<exists>t ts. separated (map tokens js) = t # ts \<and> t \<noteq> TCloseArr"
proof -
  obtain j rest where js: "js = j # rest" using assms by (cases js) auto
  obtain t ts where "tokens j = t # ts" "t \<noteq> TCloseArr" using tokens_start by blast
  then show ?thesis by (cases rest) (auto simp: js)
qed

lemma run_tokens: "json_ok j \<Longrightarrow> run_machine (st, EValue) (tokens j @ ts) = run_machine (st, EAfter j) ts"
proof (induction j arbitrary: st ts rule: tokens.induct)
  case (2 b)
  then show ?case by (simp add: scalar_of_def read_word_def word_true_def word_false_def)
next
  case (3 i)
  then show ?case by (simp add: scalar_of_def read_show_int)
next
  case (4 r)
  then show ?case by (simp add: scalar_of_def float_ok_def)
next
  case (6 js)
  then have e: "\<forall>x \<in> set js. \<forall>st ts. run_machine (st, EValue) (tokens x @ ts) = run_machine (st, EAfter x) ts" by simp
  show ?case
  proof (cases "js = []")
    case False
    then obtain t us where t: "separated (map tokens js) = t # us" "t \<noteq> TCloseArr" using separated_start by blast
    from run_elements [OF e False, of "[]" st ts] t show ?thesis by (simp del: run_machine.simps(2) add: run_first) simp
  qed simp
next
  case (7 kvs)
  then have e: "\<forall>kv \<in> set kvs. \<forall>st ts. run_machine (st, EValue) (tokens (snd kv) @ ts) = run_machine (st, EAfter (snd kv)) ts" by simp
  show ?case
  proof (cases "kvs = []")
    case False
    have "run_machine (st, EFirstKey) (separated (map (\<lambda>kv. [TString (fst kv), TColon] @ tokens (snd kv)) kvs) @ TCloseObj # ts)
        = run_machine (st, EKey []) (separated (map (\<lambda>kv. [TString (fst kv), TColon] @ tokens (snd kv)) kvs) @ TCloseObj # ts)"
      using False by (cases kvs rule: list.exhaust; cases "tl kvs") simp_all
    with run_pairs [OF e False, of st "[]" ts] show ?thesis by simp
  qed simp
qed (simp_all add: scalar_of_def read_word_def word_true_def word_false_def word_null_def)

lemma sort_keys_ok: "json_ok j \<Longrightarrow> json_ok (sort_keys j)"
  by (induction j rule: sort_keys.induct) auto

lemma loads_dumps: "json_ok j \<Longrightarrow> loads (dumps j) = Some (sort_keys j)"
  using tokenize_tokens [OF sort_keys_ok, of j "[]"] run_tokens [OF sort_keys_ok, of j "[]" "[]"]
  by (simp add: loads_def dumps_def boundary_def)

text \<open>A newline after the value is white space.\<close>

lemma loads_dumps_line: "json_ok j \<Longrightarrow> loads (dumps j @ [10]) = Some (sort_keys j)"
  using tokenize_tokens [OF sort_keys_ok, of j "[10]"] run_tokens [OF sort_keys_ok, of j "[]" "[]"]
  by (simp add: loads_def dumps_def boundary_def tokenize.simps(2) json_space_def)

subsection \<open>The output is printable ASCII\<close>

definition printable :: "nat \<Rightarrow> bool" where
  "printable c \<longleftrightarrow> 32 \<le> c \<and> c < 127"

lemma hex_digit_printable: "n < 16 \<Longrightarrow> printable (hex_digit n)"
  by (auto simp: hex_digit_def printable_def)

lemma hex4_printable: "list_all printable (hex4 n)"
  by (simp add: hex4_def hex_digit_printable)

lemma mark_printable: "printable 91" "printable 93" "printable 123" "printable 125" "printable 44" "printable 58"
  by (simp_all add: printable_def)

lemma escape_printable: "list_all printable (escape_point c)"
  using hex4_printable by (auto simp: escape_point_def printable_def)

lemma string_printable: "list_all printable (write_string s)"
proof -
  have "list_all printable (concat (map escape_point s))"
    by (induction s) (simp_all add: escape_printable)
  then show ?thesis by (simp add: write_string_def printable_def)
qed

lemma number_printable: "number_like n \<Longrightarrow> list_all printable n"
  by (auto simp: number_like_def list_all_iff number_char_def printable_def)

lemma separated_printable:
  "\<forall>t \<in> set tss. list_all printable (write_tokens t) \<Longrightarrow> list_all printable (write_tokens (separated tss))"
  by (induction tss rule: separated.induct) (simp_all add: write_token_def mark_printable)

lemma tokens_printable: "json_ok j \<Longrightarrow> list_all printable (write_tokens (tokens j))"
proof (induction j rule: tokens.induct)
  case (6 js)
  have "list_all printable (write_tokens (separated (map tokens js)))"
    by (rule separated_printable) (use 6 in auto)
  then show ?case by (simp add: write_token_def mark_printable)
next
  case (7 kvs)
  have "list_all printable (write_tokens (separated (map (\<lambda>kv. [TString (fst kv), TColon] @ tokens (snd kv)) kvs)))"
    by (rule separated_printable) (use 7 string_printable in \<open>auto simp: write_token_def mark_printable\<close>)
  then show ?case by (simp add: write_token_def mark_printable)
qed (use number_printable [OF number_like_int] number_printable [OF number_like_float] string_printable in
    \<open>auto simp: write_token_def word_true_def word_false_def word_null_def printable_def\<close>)

lemma dumps_printable: "json_ok j \<Longrightarrow> list_all printable (dumps j)"
  unfolding dumps_def by (rule tokens_printable [OF sort_keys_ok])

end
