(* ===== verification/DurableStore.thy ===== *)
theory DurableStore
  imports Json
begin

text \<open>
  The two durable, file-backed stores of the governed session boundary share their mechanics: a lock
  file in the control root, one file per record named by a hash, exclusive creation, and fail-closed
  reads (\<open>governed_session/ledger.py\<close>, \<open>governed_approval/store.py\<close>). Here are these mechanics, the
  abstract store they implement, and the interface from which single use follows.

  One call runs under the lock, so it is one step. Which system calls fail is a parameter; a failing
  write leaves a prefix of the record in the file. Error messages are abbreviated: callers see the class
  of an error only.
\<close>

section \<open>Mechanics\<close>

datatype store_exn = Corrupt string | Unavailable string | StoreError string | EncodeFailure | StoredTimeOverflow

record store_faults =
  fault_lock :: bool
  fault_open :: bool
  fault_persist :: "nat option"

definition no_store_faults :: store_faults where
  "no_store_faults = \<lparr>fault_lock = False, fault_open = False, fault_persist = None\<rparr>"

text \<open>Where a path leads when its last component is not followed.\<close>

definition place :: "fs \<Rightarrow> path \<Rightarrow> path" where
  "place fs p = resolve fs (butlast p) @ [last p]"

text \<open>The white space of \<open>str.strip\<close> on code points.\<close>

definition unicode_space :: "nat \<Rightarrow> bool" where
  "unicode_space c \<longleftrightarrow> (9 \<le> c \<and> c \<le> 13) \<or> (28 \<le> c \<and> c \<le> 32) \<or> c \<in> {133, 160, 5760, 8232, 8233, 8239, 8287, 12288}
     \<or> (8192 \<le> c \<and> c \<le> 8202)"

definition blank_ustring :: "ustring \<Rightarrow> bool" where
  "blank_ustring s \<longleftrightarrow> list_all unicode_space s"

text \<open>A lowercase SHA-256 digest.\<close>

definition lower_hex :: "nat \<Rightarrow> bool" where
  "lower_hex c \<longleftrightarrow> (48 \<le> c \<and> c \<le> 57) \<or> (97 \<le> c \<and> c \<le> 102)"

definition hex_digest :: "ustring \<Rightarrow> bool" where
  "hex_digest s \<longleftrightarrow> length s = 64 \<and> list_all lower_hex s"

lemma hex_not_blank: "hex_digest s \<Longrightarrow> \<not> blank_ustring s"
proof -
  assume h: "hex_digest s"
  then obtain c cs where s: "s = c # cs" by (cases s) (simp_all add: hex_digest_def)
  then have "lower_hex c" using h by (simp add: hex_digest_def)
  then have "\<not> unicode_space c" by (auto simp: lower_hex_def unicode_space_def)
  then show ?thesis by (simp add: s blank_ustring_def)
qed

definition utf8_strict :: "ustring \<Rightarrow> bytes option" where
  "utf8_strict s = (if ustring_ok s then Some (encode_text s) else None)"

text \<open>Texts that can be written.\<close>

lemma code_points_ok: "list_all (\<lambda>c. c < 55296) (code_points s)"
proof -
  have "of_char c < (55296::nat)" for c :: char
  proof -
    have "of_char c < (256::nat)" by (rule nat_of_char_less_256)
    then show ?thesis by linarith
  qed
  then show ?thesis by (simp add: code_points_def list_all_iff)
qed

lemma ustring_ok_points: "ustring_ok (code_points s)"
  using code_points_ok [of s] by (auto simp: ustring_ok_def list_all_iff point_ok_def)

lemma hex_ok: "list_all lower_hex s \<Longrightarrow> ustring_ok s"
  by (auto simp: ustring_ok_def list_all_iff lower_hex_def point_ok_def)

lemma dumps_plain: "json_ok j \<Longrightarrow> list_all (\<lambda>c. c < 128 \<and> c \<noteq> 13) (dumps j)"
  using dumps_printable [of j] by (auto simp: list_all_iff printable_def)

text \<open>\<open>_locked_root\<close> up to the \<open>yield\<close>: validate the root, open the lock file, creating it when it is not there.\<close>

definition locked_root :: "string \<Rightarrow> fs \<Rightarrow> path \<Rightarrow> bool \<Rightarrow> store_exn + fs" where
  "locked_root lock fs root fault =
     (if \<not> path_exists fs root \<or> \<not> is_dir fs root \<or> is_symlink fs root then Inl (Unavailable ''control root is unavailable'')
      else if is_symlink fs (root @ [lock]) then Inl (Unavailable ''lock is unsafe'')
      else if fault then Inl (Unavailable ''lock is unavailable'')
      else case fs (place fs (root @ [lock])) of
        None \<Rightarrow> Inr (fs(place fs (root @ [lock]) \<mapsto> File True []))
      | Some (File True _) \<Rightarrow> Inr fs
      | _ \<Rightarrow> Inl (Unavailable ''lock is unavailable''))"

text \<open>Reading a record file: absent, a JSON value, or an error.\<close>

definition read_json :: "fs \<Rightarrow> path \<Rightarrow> store_exn + json option" where
  "read_json fs p =
     (if \<not> path_exists fs p then Inr None
      else if is_symlink fs p then Inl (Corrupt ''record must not be a symlink'')
      else case read_bytes fs p of
        None \<Rightarrow> Inl (Unavailable ''record is unavailable'')
      | Some data \<Rightarrow>
          (case utf8_decode data of
             None \<Rightarrow> Inl (Corrupt ''record is not valid JSON'')
           | Some cs \<Rightarrow>
               (case loads (universal_newlines cs) of
                  None \<Rightarrow> Inl (Corrupt ''record is not valid JSON'')
                | Some j \<Rightarrow> Inr (Some j))))"

text \<open>Creating a record file exclusively and filling it.\<close>

definition write_new :: "store_faults \<Rightarrow> fs \<Rightarrow> path \<Rightarrow> bytes \<Rightarrow> fs \<times> store_exn option" where
  "write_new fl fs p data =
     (if fault_open fl then (fs, Some (Unavailable ''record cannot be claimed''))
      else if fs (place fs p) \<noteq> None then (fs, Some (Unavailable ''record appeared during a locked claim''))
      else case fault_persist fl of
        Some n \<Rightarrow> (fs(place fs p \<mapsto> File True (take n data)), Some (Unavailable ''record cannot be persisted''))
      | None \<Rightarrow> (fs(place fs p \<mapsto> File True data), None))"

section \<open>The control root\<close>

text \<open>A real directory, and a usable lock file or none.\<close>

definition control_root_ok :: "string \<Rightarrow> fs \<Rightarrow> path \<Rightarrow> bool" where
  "control_root_ok lock fs root \<longleftrightarrow> link_free fs [] root \<and> fs root = Some Dir \<and>
     (case fs (root @ [lock]) of None \<Rightarrow> True | Some (File True _) \<Rightarrow> True | _ \<Rightarrow> False)"

lemma place_snoc: "link_free fs [] root \<Longrightarrow> place fs (root @ [x]) = root @ [x]"
  by (simp add: place_def resolve_link_free)

text \<open>Where paths lead depends on the links of the tree only, and the store makes none.\<close>

definition same_links :: "fs \<Rightarrow> fs \<Rightarrow> bool" where
  "same_links fs fs' \<longleftrightarrow> (\<forall>p t. fs' p = Some (Link t) \<longleftrightarrow> fs p = Some (Link t))"

lemma walk_same_links: "same_links fs fs' \<Longrightarrow> walk n fs' base ps = walk n fs base ps"
proof (induction n fs base ps rule: walk.induct)
  case (2 n fs base p ps)
  show ?case
  proof (cases "\<exists>t. fs (base @ [p]) = Some (Link t)")
    case True
    then obtain t where t: "fs (base @ [p]) = Some (Link t)" by blast
    then have "fs' (base @ [p]) = Some (Link t)" using "2.prems" by (simp add: same_links_def)
    then show ?thesis using t 2 by (auto split: nat.splits)
  next
    case False
    then have "\<nexists>t. fs' (base @ [p]) = Some (Link t)" using "2.prems" by (simp add: same_links_def)
    then show ?thesis using False 2 by (auto split: option.splits entry.splits)
  qed
qed simp

lemma place_same_links: "same_links fs fs' \<Longrightarrow> place fs' p = place fs p"
  by (simp add: place_def resolve_def walk_same_links)

lemma same_links_refl [intro!, simp]: "same_links fs fs"
  by (simp add: same_links_def)

lemma same_links_trans: "same_links fs fs1 \<Longrightarrow> same_links fs1 fs2 \<Longrightarrow> same_links fs fs2"
  by (simp add: same_links_def)

lemma same_links_new_file: "fs q = None \<Longrightarrow> same_links fs (fs(q \<mapsto> File r b))"
  by (auto simp: same_links_def)

lemma locked_root_links: "locked_root lock fs root fault = Inr fs' \<Longrightarrow> same_links fs fs'"
  by (auto simp: locked_root_def same_links_new_file split: if_splits option.splits entry.splits bool.splits)

lemma write_new_links: "same_links fs (fst (write_new fl fs p data))"
  by (auto simp: write_new_def same_links_new_file split: option.splits)

text \<open>What each step does to the tree, in any root: entries are added, none is removed or changed.\<close>

lemma locked_root_grows: "locked_root lock fs root fault = Inr fs' \<Longrightarrow> fs q \<noteq> None \<Longrightarrow> fs' q = fs q"
  by (auto simp: locked_root_def split: if_splits option.splits entry.splits bool.splits)

lemma write_new_grows: "fs q \<noteq> None \<Longrightarrow> fst (write_new fl fs p data) q = fs q"
  by (auto simp: write_new_def split: option.splits)

lemma write_new_done:
  "snd (write_new fl fs p data) = None \<Longrightarrow> fs (place fs p) = None \<and> fst (write_new fl fs p data) = fs(place fs p \<mapsto> File True data)"
  by (auto simp: write_new_def split: if_splits option.splits)

lemma dir_not_symlink: "link_free fs [] root \<Longrightarrow> fs root = Some Dir \<Longrightarrow> is_symlink fs root = False"
proof (cases root rule: rev_cases)
  case (snoc r x)
  assume "link_free fs [] root" "fs root = Some Dir"
  then show ?thesis using own_entry_snoc [of fs r x] snoc by (simp add: is_symlink_def link_free_append)
qed (simp add: is_symlink_def own_entry_def)

lemma locked_root_ok:
  assumes "control_root_ok lock fs root"
  shows "locked_root lock fs root fault =
    (if fault then Inl (Unavailable ''lock is unavailable'')
     else Inr (if fs (root @ [lock]) = None then fs(root @ [lock] \<mapsto> File True []) else fs))"
proof -
  have lf: "link_free fs [] root" "fs root = Some Dir" using assms by (auto simp: control_root_ok_def)
  have d: "path_exists fs root" "is_dir fs root"
    using lf by (auto simp: path_exists_def is_dir_def target_entry_link_free)
  have "is_symlink fs (root @ [lock]) = False"
    using assms own_entry_snoc [OF lf(1), of lock]
    by (auto simp: is_symlink_def control_root_ok_def split: option.splits entry.splits)
  then show ?thesis using assms d dir_not_symlink [OF lf] place_snoc [OF lf(1)]
    by (auto simp: locked_root_def control_root_ok_def split: option.splits entry.splits bool.splits)
qed

lemma target_entry_snoc:
  assumes "link_free fs [] root"
  shows "fs (root @ [n]) = None \<Longrightarrow> target_entry fs (root @ [n]) = None"
    and "fs (root @ [n]) = Some (File r b) \<Longrightarrow> target_entry fs (root @ [n]) = Some (File r b)"
    and "fs (root @ [n]) = Some Dir \<Longrightarrow> target_entry fs (root @ [n]) = Some Dir"
  using assms target_entry_plain [of fs "root @ [n]"] by (simp_all add: link_free_append)

lemma read_json_absent: "link_free fs [] root \<Longrightarrow> fs (root @ [n]) = None \<Longrightarrow> read_json fs (root @ [n]) = Inr None"
  by (simp add: read_json_def path_exists_def target_entry_snoc)

lemma decode_ascii: "list_all (\<lambda>c. c < 128) cs \<Longrightarrow> utf8_decode (encode_text cs) = Some cs"
proof -
  assume "list_all (\<lambda>c. c < 128) cs"
  then have h: "\<forall>n \<in> set cs. n < 256" by (auto simp: list_all_iff)
  from decode_encode_points [OF this] show ?thesis
    unfolding utf8_decode_def encode_text_def using map_unat_bytes by presburger
qed

lemma read_json_file:
  assumes "link_free fs [] root" and "fs (root @ [n]) = Some (File True (encode_text cs))"
    and "list_all (\<lambda>c. c < 128 \<and> c \<noteq> 13) cs" and "loads cs = Some j"
  shows "read_json fs (root @ [n]) = Inr (Some j)"
proof -
  have a: "list_all (\<lambda>c. c < 128) cs" "13 \<notin> set cs" using assms(3) by (auto simp: list_all_iff)
  have "is_symlink fs (root @ [n]) = False"
    using assms(2) own_entry_snoc [OF assms(1)] by (simp add: is_symlink_def)
  then show ?thesis
    using assms(2,4) target_entry_snoc(2) [OF assms(1,2)] decode_ascii [OF a(1)] newlines_id [OF a(2)]
    by (simp add: read_json_def path_exists_def read_bytes_def)
qed

text \<open>What one file of the root says depends on that entry only, when it is absent or a plain file.\<close>

lemma read_json_cong:
  assumes "link_free fs [] root" and "link_free fs' [] root" and "fs' (root @ [n]) = fs (root @ [n])"
    and "case fs (root @ [n]) of Some (Link _) \<Rightarrow> False | _ \<Rightarrow> True"
  shows "read_json fs' (root @ [n]) = read_json fs (root @ [n])"
proof -
  have l: "link_free fs [] (root @ [n])" "link_free fs' [] (root @ [n])"
    using assms by (auto simp: link_free_append split: option.splits entry.splits)
  have "target_entry fs' (root @ [n]) = target_entry fs (root @ [n])"
    using target_entry_plain [OF l(1)] target_entry_plain [OF l(2)] assms(3) by simp
  moreover have "own_entry fs' (root @ [n]) = own_entry fs (root @ [n])"
    using own_entry_snoc [OF assms(1)] own_entry_snoc [OF assms(2)] assms(3) by simp
  ultimately show ?thesis by (simp add: read_json_def path_exists_def read_bytes_def is_symlink_def)
qed

section \<open>The abstract store\<close>

text \<open>What a slot of the store holds: nothing, a record, or something that is not a record.\<close>

datatype 'r slot = Free | Held 'r | Damaged

datatype 'r claim_result = Claimed | Already 'r | Conflicting 'r | Refused

text \<open>Claiming a record in its slot: the specification of both stores.\<close>

fun spec_claim :: "('r \<Rightarrow> 'r \<Rightarrow> bool) \<Rightarrow> (string \<Rightarrow> 'r slot) \<Rightarrow> string \<Rightarrow> 'r \<Rightarrow> (string \<Rightarrow> 'r slot) \<times> 'r claim_result" where
  "spec_claim same_key st n r =
     (case st n of
        Free \<Rightarrow> (st(n := Held r), Claimed)
      | Held r' \<Rightarrow> (st, if r' = r then Already r' else if same_key r r' then Conflicting r' else Refused)
      | Damaged \<Rightarrow> (st, Refused))"

section \<open>Single use\<close>

text \<open>An attempt to claim, under the faults of this moment, or a change of the state by somebody else.\<close>

datatype ('rec, 'io, 'st) store_event = Attempt 'rec 'io | Elsewhere 'st

text \<open>The state a run leads to, whether what others did frees no slot, and the requests that succeeded.\<close>

fun run_store :: "('st \<Rightarrow> 'rec \<Rightarrow> 'io \<Rightarrow> 'st \<times> bool) \<Rightarrow> 'st \<Rightarrow> ('rec, 'io, 'st) store_event list \<Rightarrow> 'st" where
  "run_store attempt s [] = s"
| "run_store attempt s (Attempt r io # es) = run_store attempt (fst (attempt s r io)) es"
| "run_store attempt s (Elsewhere s' # es) = run_store attempt s' es"

fun fair_run :: "('st \<Rightarrow> 'slot \<Rightarrow> bool) \<Rightarrow> ('st \<Rightarrow> 'rec \<Rightarrow> 'io \<Rightarrow> 'st \<times> bool) \<Rightarrow> 'st \<Rightarrow> ('rec, 'io, 'st) store_event list \<Rightarrow> bool" where
  "fair_run taken attempt s [] \<longleftrightarrow> True"
| "fair_run taken attempt s (Attempt r io # es) \<longleftrightarrow> fair_run taken attempt (fst (attempt s r io)) es"
| "fair_run taken attempt s (Elsewhere s' # es) \<longleftrightarrow> (\<forall>x. taken s x \<longrightarrow> taken s' x) \<and> fair_run taken attempt s' es"

fun successes :: "('st \<Rightarrow> 'rec \<Rightarrow> 'io \<Rightarrow> 'st \<times> bool) \<Rightarrow> 'st \<Rightarrow> ('rec, 'io, 'st) store_event list \<Rightarrow> 'rec list" where
  "successes attempt s [] = []"
| "successes attempt s (Attempt r io # es) = (if snd (attempt s r io) then [r] else []) @ successes attempt (fst (attempt s r io)) es"
| "successes attempt s (Elsewhere s' # es) = successes attempt s' es"

text \<open>
  The interface: attempts that succeed or not, a slot for every request, and the slots that are taken.
  A success finds its slot free and takes it; no attempt frees a slot.
\<close>

locale once_store =
  fixes attempt :: "'st \<Rightarrow> 'rec \<Rightarrow> 'io \<Rightarrow> 'st \<times> bool"
    and slot_of :: "'rec \<Rightarrow> 'slot"
    and taken :: "'st \<Rightarrow> 'slot \<Rightarrow> bool"
  assumes success_free: "snd (attempt s r io) \<Longrightarrow> \<not> taken s (slot_of r)"
    and success_takes: "snd (attempt s r io) \<Longrightarrow> taken (fst (attempt s r io)) (slot_of r)"
    and attempt_keeps: "taken s x \<Longrightarrow> taken (fst (attempt s r io)) x"
begin

lemma run_keeps: "fair_run taken attempt s es \<Longrightarrow> taken s x \<Longrightarrow> taken (run_store attempt s es) x"
proof (induction es arbitrary: s)
  case (Cons e es)
  then show ?case by (cases e) (auto intro: attempt_keeps)
qed simp

lemma taken_no_success: "fair_run taken attempt s es \<Longrightarrow> taken s x \<Longrightarrow> x \<notin> slot_of ` set (successes attempt s es)"
proof (induction es arbitrary: s)
  case (Cons e es)
  show ?case
  proof (cases e)
    case (Attempt r io)
    have "taken (fst (attempt s r io)) x" using Cons.prems(2) by (rule attempt_keeps)
    then have "x \<notin> slot_of ` set (successes attempt (fst (attempt s r io)) es)"
      using Cons.IH Cons.prems(1) Attempt by simp
    moreover have "snd (attempt s r io) \<Longrightarrow> x \<noteq> slot_of r" using success_free Cons.prems(2) by blast
    ultimately show ?thesis using Attempt by auto
  qed (use Cons in auto)
qed simp

lemma success_once: "fair_run taken attempt s es \<Longrightarrow> distinct (map slot_of (successes attempt s es))"
proof (induction es arbitrary: s)
  case (Cons e es)
  show ?case
  proof (cases e)
    case (Attempt r io)
    have f: "fair_run taken attempt (fst (attempt s r io)) es" using Cons.prems Attempt by simp
    have "snd (attempt s r io) \<Longrightarrow> slot_of r \<notin> slot_of ` set (successes attempt (fst (attempt s r io)) es)"
      using taken_no_success [OF f success_takes] .
    then show ?thesis using Attempt Cons.IH [OF f] by auto
  qed (use Cons in auto)
qed simp

lemma success_taken: "fair_run taken attempt s es \<Longrightarrow> r \<in> set (successes attempt s es) \<Longrightarrow> taken (run_store attempt s es) (slot_of r)"
proof (induction es arbitrary: s)
  case (Cons e es)
  show ?case
  proof (cases e)
    case (Attempt r' io)
    have f: "fair_run taken attempt (fst (attempt s r' io)) es" using Cons.prems Attempt by simp
    from Cons.prems(2) Attempt consider "snd (attempt s r' io)" "r = r'"
      | "r \<in> set (successes attempt (fst (attempt s r' io)) es)" by (auto split: if_splits)
    then show ?thesis using Attempt Cons.IH [OF f] run_keeps [OF f success_takes] by cases auto
  qed (use Cons in auto)
qed simp

end

end
