(* ===== verification/ReplayLedger.thy ===== *)
theory ReplayLedger
  imports DurableStore
begin

text \<open>
  The durable replay ledger of \<open>governed_session/ledger.py\<close>: immutable records of the claims the
  session boundary makes, one file per claim, named by the hash of its kind and identity. Identities
  and digests are texts of code points, as they come back from the file. The hash is a parameter.
\<close>

section \<open>Records\<close>

datatype entry_kind = ACTIVATION_CLAIMED | SESSION_ISSUED | SESSION_CONSUMED

fun kind_value :: "entry_kind \<Rightarrow> string" where
  "kind_value ACTIVATION_CLAIMED = ''activation_claimed''"
| "kind_value SESSION_ISSUED = ''session_issued''"
| "kind_value SESSION_CONSUMED = ''session_consumed''"

definition kind_of :: "ustring \<Rightarrow> entry_kind option" where
  "kind_of s = (if s = code_points ''activation_claimed'' then Some ACTIVATION_CLAIMED
     else if s = code_points ''session_issued'' then Some SESSION_ISSUED
     else if s = code_points ''session_consumed'' then Some SESSION_CONSUMED else None)"

record replay_record =
  rec_kind :: entry_kind
  identity_key :: ustring
  rec_binding_digest :: ustring

definition digest_errors :: "ustring \<Rightarrow> string \<Rightarrow> (bool \<times> store_exn) list" where
  "digest_errors s field = [(blank_ustring s, StoreError (field @ '' cannot be empty'')),
     (length s \<noteq> 64 \<or> \<not> list_all lower_hex s, StoreError (field @ '' must be a lowercase SHA-256 digest''))]"

definition make_replay_record :: "replay_record \<Rightarrow> store_exn + replay_record" where
  "make_replay_record r = guarded
     ((blank_ustring (identity_key r), StoreError ''identity_key cannot be empty'')
      # digest_errors (rec_binding_digest r) ''binding_digest'') r"

definition to_payload :: "replay_record \<Rightarrow> json" where
  "to_payload r = JObj
     [(code_points ''binding_digest'', JStr (rec_binding_digest r)),
      (code_points ''entry_kind'', JStr (code_points (kind_value (rec_kind r)))),
      (code_points ''identity_key'', JStr (identity_key r)),
      (code_points ''schema_version'', JStr (code_points ''g2.4.8''))]"

text \<open>\<open>from_payload\<close>: whatever is wrong with the values is one and the same corruption.\<close>

definition json_text :: "json option \<Rightarrow> ustring option" where
  "json_text v = (case v of Some (JStr s) \<Rightarrow> Some s | _ \<Rightarrow> None)"

definition record_of_values :: "(ustring \<times> json) list \<Rightarrow> replay_record option" where
  "record_of_values kvs =
     (case (Option.bind (json_text (obj_get kvs (code_points ''entry_kind''))) kind_of,
            json_text (obj_get kvs (code_points ''identity_key'')),
            json_text (obj_get kvs (code_points ''binding_digest''))) of
        (Some k, Some i, Some d) \<Rightarrow>
          (case make_replay_record \<lparr>rec_kind = k, identity_key = i, rec_binding_digest = d\<rparr> of
             Inl _ \<Rightarrow> None | Inr r \<Rightarrow> Some r)
      | _ \<Rightarrow> None)"

definition from_payload :: "json \<Rightarrow> store_exn + replay_record" where
  "from_payload j =
     (case j of
        JObj kvs \<Rightarrow>
          (if obj_get kvs (code_points ''schema_version'') \<noteq> Some (JStr (code_points ''g2.4.8''))
           then Inl (Corrupt ''unsupported durable replay ledger schema'')
           else if obj_keys kvs \<noteq> set [code_points ''binding_digest'', code_points ''entry_kind'',
                  code_points ''identity_key'', code_points ''schema_version'']
           then Inl (Corrupt ''durable replay record has unexpected fields'')
           else case record_of_values kvs of
                  None \<Rightarrow> Inl (Corrupt ''invalid durable replay record'')
                | Some r \<Rightarrow> Inr r)
      | _ \<Rightarrow> Inl (Corrupt ''durable replay record must be an object''))"

section \<open>The file-backed ledger\<close>

datatype claim_disposition = CLAIMED | ALREADY_CLAIMED | CONFLICT

record ledger_claim =
  disposition :: claim_disposition
  existing_record :: "replay_record option"

definition make_claim :: "ledger_claim \<Rightarrow> store_exn + ledger_claim" where
  "make_claim c = guarded
     [(disposition c = CLAIMED \<and> existing_record c \<noteq> None, StoreError ''new replay claim cannot carry an existing record''),
      (disposition c \<noteq> CLAIMED \<and> existing_record c = None,
         StoreError ''existing replay claim requires its immutable stored record'')] c"

definition ledger_lock :: string where
  "ledger_lock = ''.g2_4_8_replay_ledger.lock''"

text \<open>\<open>_record_path\<close>: the file name, unless the identity cannot be encoded.\<close>

definition record_name :: "(bytes \<Rightarrow> string) \<Rightarrow> entry_kind \<Rightarrow> ustring \<Rightarrow> string option" where
  "record_name sha k i =
     map_option (\<lambda>b. kind_value k @ ''-'' @ sha b @ ''.json'') (utf8_strict (code_points (kind_value k) @ code_points '':'' @ i))"

definition read_unlocked :: "(bytes \<Rightarrow> string) \<Rightarrow> fs \<Rightarrow> path \<Rightarrow> entry_kind \<Rightarrow> ustring \<Rightarrow> store_exn + replay_record option" where
  "read_unlocked sha fs root k i =
     (case record_name sha k i of
        None \<Rightarrow> Inl EncodeFailure
      | Some n \<Rightarrow>
          bind_res (read_json fs (root @ [n])) (\<lambda>v.
            case v of
              None \<Rightarrow> Inr None
            | Some j \<Rightarrow>
                bind_res (from_payload j) (\<lambda>r.
                  if rec_kind r \<noteq> k \<or> identity_key r \<noteq> i
                  then Inl (Corrupt ''durable replay record does not match its deterministic key'')
                  else Inr (Some r))))"

definition write_unlocked :: "(bytes \<Rightarrow> string) \<Rightarrow> store_faults \<Rightarrow> fs \<Rightarrow> path \<Rightarrow> replay_record \<Rightarrow> fs \<times> store_exn option" where
  "write_unlocked sha fl fs root r =
     (case record_name sha (rec_kind r) (identity_key r) of
        None \<Rightarrow> (fs, Some EncodeFailure)
      | Some n \<Rightarrow> write_new fl fs (root @ [n]) (encode_text (dumps (to_payload r))))"

definition claim :: "(bytes \<Rightarrow> string) \<Rightarrow> store_faults \<Rightarrow> path \<Rightarrow> fs \<Rightarrow> replay_record \<Rightarrow> fs \<times> (store_exn + ledger_claim)" where
  "claim sha fl root fs r =
     (case locked_root ledger_lock fs root (fault_lock fl) of
        Inl e \<Rightarrow> (fs, Inl e)
      | Inr fs1 \<Rightarrow>
          (case read_unlocked sha fs1 root (rec_kind r) (identity_key r) of
             Inl e \<Rightarrow> (fs1, Inl e)
           | Inr None \<Rightarrow>
               (case write_unlocked sha fl fs1 root r of
                  (fs2, Some e) \<Rightarrow> (fs2, Inl e)
                | (fs2, None) \<Rightarrow> (fs2, make_claim \<lparr>disposition = CLAIMED, existing_record = None\<rparr>))
           | Inr (Some r') \<Rightarrow>
               (fs1, make_claim \<lparr>disposition = (if r' = r then ALREADY_CLAIMED else CONFLICT), existing_record = Some r'\<rparr>)))"

definition read_record :: "(bytes \<Rightarrow> string) \<Rightarrow> store_faults \<Rightarrow> path \<Rightarrow> fs \<Rightarrow> entry_kind \<Rightarrow> ustring
    \<Rightarrow> fs \<times> (store_exn + replay_record option)" where
  "read_record sha fl root fs k i =
     (if blank_ustring i then (fs, Inl (StoreError ''identity_key cannot be empty''))
      else case locked_root ledger_lock fs root (fault_lock fl) of
        Inl e \<Rightarrow> (fs, Inl e)
      | Inr fs1 \<Rightarrow> (fs1, read_unlocked sha fs1 root k i))"

section \<open>Records survive the file\<close>

lemma make_replay_record_Inr:
  "make_replay_record r = Inr r' \<longleftrightarrow> r' = r \<and> \<not> blank_ustring (identity_key r) \<and> \<not> blank_ustring (rec_binding_digest r) \<and>
     length (rec_binding_digest r) = 64 \<and> list_all lower_hex (rec_binding_digest r)"
  by (auto simp: make_replay_record_def guarded_Inr_iff digest_errors_def)

lemma kind_roundtrip: "kind_of (code_points (kind_value k)) = Some k"
  by (cases k) (simp_all add: kind_of_def code_points_inj)

lemma to_payload_ok:
  "make_replay_record r = Inr r \<Longrightarrow> ustring_ok (identity_key r) \<Longrightarrow> json_ok (to_payload r)"
  using ustring_ok_points hex_ok by (auto simp: make_replay_record_Inr to_payload_def)

lemma payload_sorted: "sort_keys (to_payload r) = to_payload r"
proof -
  have "sorted (map fst [(code_points ''binding_digest'', JStr (rec_binding_digest r)),
      (code_points ''entry_kind'', JStr (code_points (kind_value (rec_kind r)))),
      (code_points ''identity_key'', JStr (identity_key r)),
      (code_points ''schema_version'', JStr (code_points ''g2.4.8''))])"
    by (simp add: code_points_def)
  then show ?thesis by (simp add: to_payload_def sort_key_id_if_sorted)
qed

lemma from_to_payload: "make_replay_record r = Inr r \<Longrightarrow> from_payload (to_payload r) = Inr r"
  by (cases r) (simp add: from_payload_def to_payload_def obj_get_def obj_keys_def record_of_values_def json_text_def
      code_points_inj kind_roundtrip insert_commute)


lemma from_payload_valid: "from_payload j = Inr r \<Longrightarrow> make_replay_record r = Inr r"
  by (auto simp: from_payload_def record_of_values_def make_replay_record_Inr
      split: json.splits if_splits option.splits sum.splits)

text \<open>The bytes of a record are read back as that record.\<close>

lemma read_written:
  assumes "link_free fs [] root" and "fs (root @ [n]) = Some (File True (encode_text (dumps (to_payload r))))"
    and "make_replay_record r = Inr r" and "ustring_ok (identity_key r)"
  shows "read_json fs (root @ [n]) = Inr (Some (to_payload r))"
  using read_json_file [OF assms(1,2) dumps_plain [OF to_payload_ok [OF assms(3,4)]]]
    loads_dumps [OF to_payload_ok [OF assms(3,4)]] by (simp add: payload_sorted)

section \<open>The ledger implements the abstract store\<close>

definition ledger_view :: "path \<Rightarrow> fs \<Rightarrow> string \<Rightarrow> replay_record slot" where
  "ledger_view root fs n =
     (if is_symlink fs (root @ [n]) then Damaged
      else case read_json fs (root @ [n]) of
        Inr None \<Rightarrow> Free
      | Inr (Some j) \<Rightarrow> (case from_payload j of Inr r \<Rightarrow> Held r | Inl _ \<Rightarrow> Damaged)
      | Inl _ \<Rightarrow> Damaged)"

definition same_key :: "replay_record \<Rightarrow> replay_record \<Rightarrow> bool" where
  "same_key r r' \<longleftrightarrow> rec_kind r' = rec_kind r \<and> identity_key r' = identity_key r"

definition claim_view :: "store_exn + ledger_claim \<Rightarrow> replay_record claim_result" where
  "claim_view res =
     (case res of
        Inl _ \<Rightarrow> Refused
      | Inr c \<Rightarrow> (case (disposition c, existing_record c) of
            (ALREADY_CLAIMED, Some r) \<Rightarrow> Already r
          | (CONFLICT, Some r) \<Rightarrow> Conflicting r
          | _ \<Rightarrow> Claimed))"

text \<open>The lock file is no slot.\<close>

definition same_slots :: "(string \<Rightarrow> 'a) \<Rightarrow> (string \<Rightarrow> 'a) \<Rightarrow> bool" where
  "same_slots st st' \<longleftrightarrow> (\<forall>n. n \<noteq> ledger_lock \<longrightarrow> st n = st' n)"

lemma view_cong:
  assumes "link_free fs [] root" and "link_free fs' [] root" and "fs' (root @ [n]) = fs (root @ [n])"
  shows "ledger_view root fs' n = ledger_view root fs n"
proof -
  have o: "is_symlink fs' (root @ [n]) = is_symlink fs (root @ [n])"
    using own_entry_snoc [OF assms(1)] own_entry_snoc [OF assms(2)] assms(3) by (simp add: is_symlink_def)
  show ?thesis
  proof (cases "is_symlink fs (root @ [n])")
    case False
    then have "case fs (root @ [n]) of Some (Link _) \<Rightarrow> False | _ \<Rightarrow> True"
      using own_entry_snoc [OF assms(1)] by (auto simp: is_symlink_def split: option.splits entry.splits)
    from read_json_cong [OF assms this] o show ?thesis by (simp add: ledger_view_def)
  qed (simp add: ledger_view_def o)
qed

lemma view_free_iff:
  assumes "link_free fs [] root"
  shows "ledger_view root fs n = Free \<longleftrightarrow> fs (root @ [n]) = None"
proof -
  have "fs (root @ [n]) = Some e \<Longrightarrow> ledger_view root fs n \<noteq> Free" for e
    using own_entry_snoc [OF assms, of n] target_entry_snoc [OF assms, of n]
    by (cases e) (auto simp: ledger_view_def is_symlink_def read_json_def path_exists_def read_bytes_def
        split: option.splits sum.splits)
  moreover have "fs (root @ [n]) = None \<Longrightarrow> ledger_view root fs n = Free"
    using own_entry_snoc [OF assms, of n] read_json_absent [OF assms] by (simp add: ledger_view_def is_symlink_def)
  ultimately show ?thesis by (cases "fs (root @ [n])") auto
qed

lemma view_written:
  assumes "link_free fs [] root" and "fs (root @ [n]) = Some (File True (encode_text (dumps (to_payload r))))"
    and "make_replay_record r = Inr r" and "ustring_ok (identity_key r)"
  shows "ledger_view root fs n = Held r"
  using read_written [OF assms] own_entry_snoc [OF assms(1), of n] assms(2) from_to_payload [OF assms(3)]
  by (simp add: ledger_view_def is_symlink_def)

text \<open>What \<open>_read_unlocked\<close> answers, by what the slot holds.\<close>

lemma read_unlocked_view:
  assumes "link_free fs [] root" and "record_name sha k i = Some n" and "fs (root @ [n]) = None \<or> \<not> is_symlink fs (root @ [n])"
  shows "case ledger_view root fs n of
      Free \<Rightarrow> read_unlocked sha fs root k i = Inr None
    | Held r \<Rightarrow> if rec_kind r = k \<and> identity_key r = i then read_unlocked sha fs root k i = Inr (Some r)
        else \<exists>e. read_unlocked sha fs root k i = Inl e
    | Damaged \<Rightarrow> \<exists>e. read_unlocked sha fs root k i = Inl e"
  using assms own_entry_snoc [OF assms(1), of n]
  by (auto simp: ledger_view_def read_unlocked_def is_symlink_def split: sum.splits option.splits slot.splits)

lemma record_name_Some_iff:
  "(\<exists>n. record_name sha k i = Some n) \<longleftrightarrow> ustring_ok i"
  using ustring_ok_points by (auto simp: record_name_def utf8_strict_def ustring_ok_def list_all_iff)

lemma record_name_not_lock: "record_name sha k i = Some n \<Longrightarrow> n \<noteq> ledger_lock"
  by (cases k) (auto simp: record_name_def ledger_lock_def)

lemma locked_control_root:
  assumes "control_root_ok ledger_lock fs root" and "locked_root ledger_lock fs root fault = Inr fs1"
  shows "control_root_ok ledger_lock fs1 root" and "n \<noteq> ledger_lock \<Longrightarrow> fs1 (root @ [n]) = fs (root @ [n])"
    and "n \<noteq> ledger_lock \<Longrightarrow> ledger_view root fs1 n = ledger_view root fs n"
proof -
  have "fs1 = (if fs (root @ [ledger_lock]) = None then fs(root @ [ledger_lock] \<mapsto> File True []) else fs)"
    using assms(2) locked_root_ok [OF assms(1), of fault] by (auto split: if_splits)
  then show c: "control_root_ok ledger_lock fs1 root"
    and e: "n \<noteq> ledger_lock \<Longrightarrow> fs1 (root @ [n]) = fs (root @ [n])"
    using assms(1) by (auto simp: control_root_ok_def link_free_update split: if_splits)
  have "link_free fs [] root" "link_free fs1 [] root" using assms(1) c by (simp_all add: control_root_ok_def)
  then show "n \<noteq> ledger_lock \<Longrightarrow> ledger_view root fs1 n = ledger_view root fs n"
    using e by (intro view_cong) simp_all
qed

text \<open>A record written into a free slot is what that slot holds, and no other slot changes.\<close>

lemma written_slots:
  assumes "control_root_ok ledger_lock fs root" and "n \<noteq> ledger_lock" and "fs (root @ [n]) = None"
    and "make_replay_record r = Inr r" and "ustring_ok (identity_key r)"
    and "fs' = fs(root @ [n] \<mapsto> File True (encode_text (dumps (to_payload r))))"
  shows "control_root_ok ledger_lock fs' root" and "ledger_view root fs' = (ledger_view root fs)(n := Held r)"
proof -
  have lf: "link_free fs [] root" "link_free fs' [] root"
    using assms(1,6) by (auto simp: control_root_ok_def link_free_update)
  show "control_root_ok ledger_lock fs' root"
    using assms by (auto simp: control_root_ok_def link_free_update)
  have "ledger_view root fs' m = ((ledger_view root fs)(n := Held r)) m" for m
  proof (cases "m = n")
    case True
    then show ?thesis using view_written [OF lf(2) _ assms(4,5)] assms(6) by simp
  next
    case False
    then show ?thesis using view_cong [OF lf, of m] assms(6) by simp
  qed
  then show "ledger_view root fs' = (ledger_view root fs)(n := Held r)" by (rule ext)
qed

lemma claim_refines_slots:
  assumes c: "control_root_ok ledger_lock fs root" and v: "make_replay_record r = Inr r" "ustring_ok (identity_key r)"
    and n: "record_name sha (rec_kind r) (identity_key r) = Some n"
    and step: "claim sha no_store_faults root fs r = (fs', res)"
  shows "control_root_ok ledger_lock fs' root \<and>
    same_slots (ledger_view root fs') (fst (spec_claim same_key (ledger_view root fs) n r)) \<and>
    claim_view res = snd (spec_claim same_key (ledger_view root fs) n r)"
proof -
  have nf: "fault_lock no_store_faults = False" by (simp add: no_store_faults_def)
  obtain fs1 where l: "locked_root ledger_lock fs root False = Inr fs1"
    using locked_root_ok [OF c, of False] by simp
  note c1 = locked_control_root(1) [OF c l] and e1 = locked_control_root(2) [OF c l] and v1 = locked_control_root(3) [OF c l]
  have nl: "n \<noteq> ledger_lock" using n by (rule record_name_not_lock)
  have lf: "link_free fs1 [] root" using c1 by (simp add: control_root_ok_def)
  have s1: "same_slots (ledger_view root fs1) (ledger_view root fs)" using v1 by (simp add: same_slots_def)
  have step1: "claim sha no_store_faults root fs r =
      (case read_unlocked sha fs1 root (rec_kind r) (identity_key r) of
         Inl e \<Rightarrow> (fs1, Inl e)
       | Inr None \<Rightarrow>
           (case write_unlocked sha no_store_faults fs1 root r of
              (fs2, Some e) \<Rightarrow> (fs2, Inl e)
            | (fs2, None) \<Rightarrow> (fs2, make_claim \<lparr>disposition = CLAIMED, existing_record = None\<rparr>))
       | Inr (Some r') \<Rightarrow>
           (fs1, make_claim \<lparr>disposition = (if r' = r then ALREADY_CLAIMED else CONFLICT), existing_record = Some r'\<rparr>))"
    using l nf by (simp add: claim_def)
  have w: "write_unlocked sha no_store_faults fs1 root r =
      (if fs1 (root @ [n]) \<noteq> None then (fs1, Some (Unavailable ''record appeared during a locked claim''))
       else (fs1(root @ [n] \<mapsto> File True (encode_text (dumps (to_payload r)))), None))"
    using n lf by (simp add: write_unlocked_def write_new_def no_store_faults_def place_snoc)
  show ?thesis
  proof (cases "fs1 (root @ [n]) = None")
    case True
    then have "ledger_view root fs1 n = Free" using view_free_iff [OF lf] by simp
    moreover have "read_unlocked sha fs1 root (rec_kind r) (identity_key r) = Inr None"
      using True read_json_absent [OF lf] n by (simp add: read_unlocked_def)
    ultimately show ?thesis
      using step step1 w True written_slots [OF c1 nl True v refl] v1 [OF nl] s1
      by (auto simp: claim_view_def make_claim_def guarded_def same_slots_def)
  next
    case False
    then have nf: "ledger_view root fs1 n \<noteq> Free" using view_free_iff [OF lf] by simp
    show ?thesis
    proof (cases "is_symlink fs1 (root @ [n])")
      case True
      then have "ledger_view root fs n = Damaged" using v1 [OF nl] by (simp add: ledger_view_def)
      moreover have "\<exists>e. claim sha no_store_faults root fs r = (fs1, Inl e)"
        using step1 w False True n by (auto simp: read_unlocked_def read_json_def)
      ultimately show ?thesis using step c1 s1 by (auto simp: claim_view_def)
    next
      case ns: False
      from read_unlocked_view [OF lf n, unfolded v1 [OF nl]] ns nf v1 [OF nl]
      consider (held) r' where "ledger_view root fs n = Held r'"
          "read_unlocked sha fs1 root (rec_kind r) (identity_key r) = Inr (Some r')" "same_key r r'"
        | (other) r' e where "ledger_view root fs n = Held r'" "\<not> same_key r r'"
          "read_unlocked sha fs1 root (rec_kind r) (identity_key r) = Inl e"
        | (damaged) e where "ledger_view root fs n = Damaged" "read_unlocked sha fs1 root (rec_kind r) (identity_key r) = Inl e"
        by (auto simp: same_key_def split: slot.splits if_splits)
      then show ?thesis
      proof cases
        case held
        then show ?thesis using step step1 c1 s1 by (auto simp: claim_view_def make_claim_def guarded_def split: if_splits)
      next
        case other
        then have "r' \<noteq> r" by (auto simp: same_key_def)
        then show ?thesis using other step step1 c1 s1 by (auto simp: claim_view_def)
      next
        case damaged
        then show ?thesis using step step1 c1 s1 by (auto simp: claim_view_def)
      qed
    qed
  qed
qed

section \<open>Single use\<close>

text \<open>One attempt, under whatever faults, and whether it claimed; the slots that are taken.\<close>

definition ledger_attempt :: "(bytes \<Rightarrow> string) \<Rightarrow> path \<Rightarrow> fs \<Rightarrow> replay_record \<Rightarrow> store_faults \<Rightarrow> fs \<times> bool" where
  "ledger_attempt sha root fs r fl =
     (case claim sha fl root fs r of (fs', res) \<Rightarrow> (fs', res = Inr \<lparr>disposition = CLAIMED, existing_record = None\<rparr>))"

definition record_slot :: "(bytes \<Rightarrow> string) \<Rightarrow> replay_record \<Rightarrow> string option" where
  "record_slot sha r = record_name sha (rec_kind r) (identity_key r)"

definition slot_taken :: "path \<Rightarrow> fs \<Rightarrow> string option \<Rightarrow> bool" where
  "slot_taken root fs x = (case x of None \<Rightarrow> False | Some n \<Rightarrow> fs (place fs (root @ [n])) \<noteq> None)"

text \<open>A claim adds entries and changes none, and it makes no link.\<close>

lemma claim_grows: "same_links fs (fst (claim sha fl root fs r)) \<and> (fs q \<noteq> None \<longrightarrow> fst (claim sha fl root fs r) q = fs q)"
proof (cases "locked_root ledger_lock fs root (fault_lock fl)")
  case (Inr fs1)
  have l: "same_links fs fs1" "fs q \<noteq> None \<Longrightarrow> fs1 q = fs q"
    using locked_root_links [OF Inr] locked_root_grows [OF Inr] by simp_all
  have w: "same_links fs1 (fst (write_unlocked sha fl fs1 root r))"
      "fs1 q \<noteq> None \<Longrightarrow> fst (write_unlocked sha fl fs1 root r) q = fs1 q"
    using write_new_links write_new_grows by (auto simp: write_unlocked_def split: option.splits)
  have "fst (claim sha fl root fs r) \<in> {fs1, fst (write_unlocked sha fl fs1 root r)}"
    by (auto simp: claim_def Inr split: sum.splits option.splits prod.splits)
  then show ?thesis using l w same_links_trans [OF l(1) w(1)] by fastforce
qed (simp add: claim_def)

lemma claimed_writes:
  assumes "claim sha fl root fs r = (fs', Inr c)" and "disposition c = CLAIMED"
  obtains fs1 n where "locked_root ledger_lock fs root (fault_lock fl) = Inr fs1" and "record_slot sha r = Some n"
    and "fs1 (place fs1 (root @ [n])) = None"
    and "fs' = fs1(place fs1 (root @ [n]) \<mapsto> File True (encode_text (dumps (to_payload r))))"
proof -
  obtain fs1 where l: "locked_root ledger_lock fs root (fault_lock fl) = Inr fs1"
    using assms by (auto simp: claim_def split: sum.splits)
  then have w: "write_unlocked sha fl fs1 root r = (fs', None)"
    using assms by (auto simp: claim_def make_claim_def guarded_Inr_iff split: sum.splits option.splits prod.splits if_splits)
  then obtain n where n: "record_slot sha r = Some n"
    by (auto simp: write_unlocked_def record_slot_def split: option.splits)
  have "write_new fl fs1 (root @ [n]) (encode_text (dumps (to_payload r))) = (fs', None)"
    using w n by (simp add: write_unlocked_def record_slot_def)
  then show ?thesis
    using that [OF l n] write_new_done [of fl fs1 "root @ [n]" "encode_text (dumps (to_payload r))"] by simp
qed

lemma attempt_free_and_takes:
  assumes "snd (ledger_attempt sha root fs r fl)"
  shows "\<not> slot_taken root fs (record_slot sha r)" and "slot_taken root (fst (ledger_attempt sha root fs r fl)) (record_slot sha r)"
proof -
  obtain fs' c where c: "claim sha fl root fs r = (fs', Inr c)" "disposition c = CLAIMED"
    and f: "fst (ledger_attempt sha root fs r fl) = fs'"
    using assms by (auto simp: ledger_attempt_def split: prod.splits)
  obtain fs1 n where w: "locked_root ledger_lock fs root (fault_lock fl) = Inr fs1" "record_slot sha r = Some n"
      "fs1 (place fs1 (root @ [n])) = None" "fs' = fs1(place fs1 (root @ [n]) \<mapsto> File True (encode_text (dumps (to_payload r))))"
    using claimed_writes [OF c] by blast
  have p: "place fs1 (root @ [n]) = place fs (root @ [n])"
    using place_same_links [OF locked_root_links [OF w(1)]] .
  have "same_links fs1 fs'" unfolding w(4) using w(3) by (simp add: same_links_new_file)
  then have "place fs' (root @ [n]) = place fs1 (root @ [n])" by (rule place_same_links)
  then show "slot_taken root (fst (ledger_attempt sha root fs r fl)) (record_slot sha r)"
    using f w by (simp add: slot_taken_def)
  show "\<not> slot_taken root fs (record_slot sha r)"
    using w(2,3) p locked_root_grows [OF w(1), of "place fs (root @ [n])"]
    by (cases "fs (place fs (root @ [n]))") (simp_all add: slot_taken_def)
qed

lemma attempt_keeps_taken: "slot_taken root fs x \<Longrightarrow> slot_taken root (fst (ledger_attempt sha root fs r fl)) x"
  using claim_grows [of fs sha fl root r] place_same_links [of fs "fst (claim sha fl root fs r)"]
  by (auto simp: slot_taken_def ledger_attempt_def split: option.splits prod.splits)

interpretation once: once_store "ledger_attempt sha root" "record_slot sha" "slot_taken root"
  by unfold_locales (rule attempt_free_and_takes(1), assumption, rule attempt_free_and_takes(2), assumption,
      rule attempt_keeps_taken)

end
