(* ===== verification/Activation.thy ===== *)
theory Activation
  imports DurableStore
begin

text \<open>
  Admission of a governed activation (\<open>governed_activation/models.py\<close>, \<open>admission.py\<close>): the request is
  checked without effect, and a redacted receipt carries the decision. Texts are lists of code points,
  paths are absolute, and the hash is a parameter. An audit observer is its class, its identity and
  whether it has the two operations.
\<close>

section \<open>Numbers and digests\<close>

text \<open>An \<open>int\<close>, or a \<open>float\<close> by its \<open>repr\<close>.\<close>

datatype number = NInt int | NFloat ustring

fun number_positive :: "number \<Rightarrow> bool" where
  "number_positive (NInt i) \<longleftrightarrow> 0 < i"
| "number_positive (NFloat r) \<longleftrightarrow> r \<noteq> code_points ''nan'' \<and> r \<noteq> code_points ''0.0'' \<and> take 1 r \<noteq> code_points ''-''"

fun number_negative :: "number \<Rightarrow> bool" where
  "number_negative (NInt i) \<longleftrightarrow> i < 0"
| "number_negative (NFloat r) \<longleftrightarrow> r \<noteq> code_points ''-0.0'' \<and> take 1 r = code_points ''-''"

fun number_json :: "number \<Rightarrow> json" where
  "number_json (NInt i) = JInt i"
| "number_json (NFloat r) = JFloat
     (if r = code_points ''nan'' then code_points ''NaN'' else if r = code_points ''inf'' then code_points ''Infinity''
      else if r = code_points ''-inf'' then code_points ''-Infinity'' else r)"

datatype governed_exn = ContractError string | EncodingError | AssertionFailure | LedgerExn store_exn | TimeRangeError

text \<open>\<open>hexdigest\<close> of a text, and of the canonical JSON of a value, whose output is ASCII.\<close>

definition text_digest :: "(bytes \<Rightarrow> string) \<Rightarrow> ustring \<Rightarrow> governed_exn + ustring" where
  "text_digest sha s = (case utf8_strict s of None \<Rightarrow> Inl EncodingError | Some b \<Rightarrow> Inr (code_points (sha b)))"

definition json_digest :: "(bytes \<Rightarrow> string) \<Rightarrow> json \<Rightarrow> ustring" where
  "json_digest sha j = code_points (sha (encode_text (dumps j)))"

text \<open>What \<open>hexdigest\<close> promises.\<close>

definition hex_hash :: "(bytes \<Rightarrow> string) \<Rightarrow> bool" where
  "hex_hash sha \<longleftrightarrow> (\<forall>b. hex_digest (code_points (sha b)))"

section \<open>The request\<close>

record confirmation =
  confirmation_id :: ustring
  confirmed_execution :: ustring
  affirmed :: bool

definition make_confirmation :: "confirmation \<Rightarrow> governed_exn + confirmation" where
  "make_confirmation c = guarded
     [(blank_ustring (confirmation_id c), ContractError ''confirmation_id cannot be empty''),
      (blank_ustring (confirmed_execution c), ContractError ''execution_id cannot be empty'')] c"

record provider_policy =
  max_attempts :: int
  allow_fallback :: bool
  timeout_ms :: int
  max_schema_repair_attempts :: int
  max_total_tokens :: int
  max_estimated_cost :: number

record isolation =
  iso_workspace :: "path option"
  iso_audit :: "path option"
  iso_source :: "path option"
  iso_execution :: ustring

record observer =
  observer_class :: ustring
  observer_id :: nat
  observer_operations :: bool

record activation_request =
  req_confirmation :: "confirmation option"
  req_policy :: "provider_policy option"
  req_isolation :: isolation
  req_observer :: "observer option"

section \<open>The receipt\<close>

datatype activation_disposition = APPROVED_TO_START | ACTIVATION_REJECTED

fun activation_disposition_value :: "activation_disposition \<Rightarrow> string" where
  "activation_disposition_value APPROVED_TO_START = ''approved_to_start''"
| "activation_disposition_value ACTIVATION_REJECTED = ''rejected''"

datatype activation_reason =
    MISSING_CALLER_CONFIRMATION | INVALID_CALLER_CONFIRMATION | MISSING_PROVIDER_POLICY | INVALID_PROVIDER_POLICY
  | MISSING_ISOLATION_ROOT | SOURCE_WORKSPACE_SELECTED | IDENTICAL_WORKSPACE_AND_AUDIT_ROOT
  | AUDIT_ROOT_INSIDE_WORKSPACE | AUDIT_ROOT_INSIDE_SOURCE_REPOSITORY | AUDIT_ROOT_UNAVAILABLE
  | EMPTY_EXECUTION_ID | MISSING_AUDIT_OBSERVER

fun activation_reason_value :: "activation_reason \<Rightarrow> string" where
  "activation_reason_value MISSING_CALLER_CONFIRMATION = ''missing_caller_confirmation''"
| "activation_reason_value INVALID_CALLER_CONFIRMATION = ''invalid_caller_confirmation''"
| "activation_reason_value MISSING_PROVIDER_POLICY = ''missing_provider_policy''"
| "activation_reason_value INVALID_PROVIDER_POLICY = ''invalid_provider_policy''"
| "activation_reason_value MISSING_ISOLATION_ROOT = ''missing_isolation_root''"
| "activation_reason_value SOURCE_WORKSPACE_SELECTED = ''source_workspace_selected''"
| "activation_reason_value IDENTICAL_WORKSPACE_AND_AUDIT_ROOT = ''identical_workspace_and_audit_root''"
| "activation_reason_value AUDIT_ROOT_INSIDE_WORKSPACE = ''audit_root_inside_workspace''"
| "activation_reason_value AUDIT_ROOT_INSIDE_SOURCE_REPOSITORY = ''audit_root_inside_source_repository''"
| "activation_reason_value AUDIT_ROOT_UNAVAILABLE = ''audit_root_unavailable''"
| "activation_reason_value EMPTY_EXECUTION_ID = ''empty_execution_id''"
| "activation_reason_value MISSING_AUDIT_OBSERVER = ''missing_audit_observer''"

record activation_decision =
  act_disposition :: activation_disposition
  act_execution :: ustring
  activation_id :: ustring
  act_reason :: "activation_reason option"

definition make_activation_decision :: "activation_decision \<Rightarrow> governed_exn + activation_decision" where
  "make_activation_decision d = guarded
     [(blank_ustring (act_execution d), ContractError ''execution_id cannot be empty''),
      (blank_ustring (activation_id d), ContractError ''activation_id cannot be empty''),
      (act_disposition d = APPROVED_TO_START \<and> act_reason d \<noteq> None,
         ContractError ''approved decisions cannot carry a rejection reason''),
      (act_disposition d = ACTIVATION_REJECTED \<and> act_reason d = None,
         ContractError ''rejected decisions require a typed reason'')] d"

record activation_receipt =
  act_decision :: activation_decision
  policy_digest :: ustring

definition make_activation_receipt :: "activation_receipt \<Rightarrow> governed_exn + activation_receipt" where
  "make_activation_receipt r = guarded
     [(\<not> hex_digest (policy_digest r), ContractError ''policy_digest must be a lowercase SHA-256 digest'')] r"

definition activation_id_for :: "(bytes \<Rightarrow> string) \<Rightarrow> ustring \<Rightarrow> ustring \<Rightarrow> governed_exn + ustring" where
  "activation_id_for sha c e = text_digest sha (c @ code_points '':'' @ e)"

section \<open>Admission\<close>

definition valid_provider_policy :: "provider_policy \<Rightarrow> bool" where
  "valid_provider_policy p \<longleftrightarrow> max_attempts p = 1 \<and> \<not> allow_fallback p \<and> max_schema_repair_attempts p = 0 \<and>
     0 < timeout_ms p \<and> 0 < max_total_tokens p \<and> number_positive (max_estimated_cost p)"

definition inside :: "path \<Rightarrow> path \<Rightarrow> bool" where
  "inside root p \<longleftrightarrow> take (length root) p = root"

definition available_audit_root :: "fs \<Rightarrow> path \<Rightarrow> bool" where
  "available_audit_root fs p \<longleftrightarrow> \<not> (path_exists fs p \<and> \<not> is_dir fs p) \<and>
     path_exists fs (butlast p) \<and> is_dir fs (butlast p)"

definition root_rejection :: "fs \<Rightarrow> path \<Rightarrow> path \<Rightarrow> path \<Rightarrow> activation_reason option" where
  "root_rejection fs w a s =
     (if w = s then Some SOURCE_WORKSPACE_SELECTED
      else if a = w then Some IDENTICAL_WORKSPACE_AND_AUDIT_ROOT
      else if a = s \<or> inside s a then Some AUDIT_ROOT_INSIDE_SOURCE_REPOSITORY
      else if inside w a then Some AUDIT_ROOT_INSIDE_WORKSPACE
      else if \<not> available_audit_root fs a then Some AUDIT_ROOT_UNAVAILABLE
      else None)"

definition rejection_reason :: "fs \<Rightarrow> activation_request \<Rightarrow> activation_reason option" where
  "rejection_reason fs q =
     (let i = req_isolation q in
      if blank_ustring (iso_execution i) then Some EMPTY_EXECUTION_ID
      else case req_confirmation q of
        None \<Rightarrow> Some MISSING_CALLER_CONFIRMATION
      | Some c \<Rightarrow>
          if \<not> affirmed c \<or> confirmed_execution c \<noteq> iso_execution i then Some INVALID_CALLER_CONFIRMATION
          else case req_policy q of
            None \<Rightarrow> Some MISSING_PROVIDER_POLICY
          | Some p \<Rightarrow>
              if \<not> valid_provider_policy p then Some INVALID_PROVIDER_POLICY
              else if (case req_observer q of None \<Rightarrow> True | Some ob \<Rightarrow> \<not> observer_operations ob) then Some MISSING_AUDIT_OBSERVER
              else case (iso_workspace i, iso_audit i, iso_source i) of
                (Some w, Some a, Some s) \<Rightarrow> root_rejection fs (resolve fs w) (resolve fs a) (resolve fs s)
              | _ \<Rightarrow> Some MISSING_ISOLATION_ROOT)"

definition limits_payload :: "bool \<Rightarrow> int \<Rightarrow> number \<Rightarrow> int \<Rightarrow> int \<Rightarrow> int \<Rightarrow> json" where
  "limits_payload fallback attempts cost repairs most timeout = JObj
     [(code_points ''allow_fallback'', JBool fallback),
      (code_points ''max_attempts'', JInt attempts),
      (code_points ''max_estimated_cost'', number_json cost),
      (code_points ''max_schema_repair_attempts'', JInt repairs),
      (code_points ''max_total_tokens'', JInt most),
      (code_points ''timeout_ms'', JInt timeout)]"

definition policy_payload :: "provider_policy option \<Rightarrow> json" where
  "policy_payload q = (case q of
       None \<Rightarrow> JObj [(code_points ''provider_policy'', JNull)]
     | Some p \<Rightarrow> limits_payload (allow_fallback p) (max_attempts p) (max_estimated_cost p) (max_schema_repair_attempts p)
         (max_total_tokens p) (timeout_ms p))"

definition or_missing :: "ustring \<Rightarrow> ustring" where
  "or_missing e = (if e = [] then code_points ''missing-execution-id'' else e)"

definition admit :: "(bytes \<Rightarrow> string) \<Rightarrow> fs \<Rightarrow> activation_request \<Rightarrow> governed_exn + activation_receipt" where
  "admit sha fs q =
     bind_res (activation_id_for sha
        (case req_confirmation q of Some c \<Rightarrow> confirmation_id c | None \<Rightarrow> code_points ''missing-confirmation'')
        (or_missing (iso_execution (req_isolation q)))) (\<lambda>a.
     bind_res (make_activation_decision
        \<lparr>act_disposition = (if rejection_reason fs q \<noteq> None then ACTIVATION_REJECTED else APPROVED_TO_START),
         act_execution = or_missing (iso_execution (req_isolation q)), activation_id = a,
         act_reason = rejection_reason fs q\<rparr>) (\<lambda>d.
     make_activation_receipt \<lparr>act_decision = d, policy_digest = json_digest sha (policy_payload (req_policy q))\<rparr>))"

section \<open>What is admitted\<close>

lemma hex_hash_text: "hex_hash sha \<Longrightarrow> hex_digest (code_points (sha b))"
  by (simp add: hex_hash_def)

lemma json_digest_hex: "hex_hash sha \<Longrightarrow> hex_digest (json_digest sha j)"
  by (simp add: json_digest_def hex_hash_text)

lemma text_digest_Inr_iff: "text_digest sha s = Inr d \<longleftrightarrow> ustring_ok s \<and> d = code_points (sha (encode_text s))"
  by (auto simp: text_digest_def utf8_strict_def split: option.splits if_splits)

text \<open>A request with an approvable isolation: what \<open>rejection_reason\<close> asks for, in one place.\<close>

definition roots_apart :: "fs \<Rightarrow> path \<Rightarrow> path \<Rightarrow> path \<Rightarrow> bool" where
  "roots_apart fs w a s \<longleftrightarrow> w \<noteq> s \<and> \<not> inside s a \<and> \<not> inside w a \<and> available_audit_root fs a"

lemma inside_refl: "inside p p"
  by (simp add: inside_def)

lemma root_rejection_None: "root_rejection fs w a s = None \<longleftrightarrow> roots_apart fs w a s"
  by (auto simp: root_rejection_def roots_apart_def inside_refl)

definition approvable :: "fs \<Rightarrow> activation_request \<Rightarrow> bool" where
  "approvable fs q \<longleftrightarrow> \<not> blank_ustring (iso_execution (req_isolation q)) \<and>
     (\<exists>c. req_confirmation q = Some c \<and> affirmed c \<and> confirmed_execution c = iso_execution (req_isolation q)) \<and>
     (\<exists>p. req_policy q = Some p \<and> valid_provider_policy p) \<and>
     (\<exists>ob. req_observer q = Some ob \<and> observer_operations ob) \<and>
     (\<exists>w a s. iso_workspace (req_isolation q) = Some w \<and> iso_audit (req_isolation q) = Some a \<and>
        iso_source (req_isolation q) = Some s \<and> roots_apart fs (resolve fs w) (resolve fs a) (resolve fs s))"

lemma rejection_None_iff: "rejection_reason fs q = None \<longleftrightarrow> approvable fs q"
  by (auto simp: rejection_reason_def approvable_def root_rejection_None Let_def split: option.splits)

text \<open>When admission raises, and what it answers otherwise.\<close>

definition admission_text :: "activation_request \<Rightarrow> ustring" where
  "admission_text q = (case req_confirmation q of Some c \<Rightarrow> confirmation_id c | None \<Rightarrow> code_points ''missing-confirmation'')
     @ code_points '':'' @ or_missing (iso_execution (req_isolation q))"

lemma admit_value:
  assumes "hex_hash sha"
  shows "admit sha fs q =
    (if \<not> ustring_ok (admission_text q) then Inl EncodingError
     else if blank_ustring (or_missing (iso_execution (req_isolation q))) then Inl (ContractError ''execution_id cannot be empty'')
     else Inr \<lparr>act_decision = \<lparr>act_disposition = (if rejection_reason fs q \<noteq> None then ACTIVATION_REJECTED else APPROVED_TO_START),
         act_execution = or_missing (iso_execution (req_isolation q)),
         activation_id = code_points (sha (encode_text (admission_text q))),
         act_reason = rejection_reason fs q\<rparr>, policy_digest = json_digest sha (policy_payload (req_policy q))\<rparr>)"
proof (cases "ustring_ok (admission_text q)")
  case True
  have "\<not> blank_ustring (code_points (sha b))" for b using hex_not_blank [OF hex_hash_text [OF assms]] .
  then have d: "make_activation_decision \<lparr>act_disposition = (if x \<noteq> None then ACTIVATION_REJECTED else APPROVED_TO_START),
      act_execution = e, activation_id = code_points (sha b), act_reason = x\<rparr> =
    (if blank_ustring e then Inl (ContractError ''execution_id cannot be empty'')
     else Inr \<lparr>act_disposition = (if x \<noteq> None then ACTIVATION_REJECTED else APPROVED_TO_START),
      act_execution = e, activation_id = code_points (sha b), act_reason = x\<rparr>)" for x e b
    by (cases x) (simp_all add: make_activation_decision_def guarded_def)
  have p: "make_activation_receipt \<lparr>act_decision = a, policy_digest = json_digest sha j\<rparr> =
      Inr \<lparr>act_decision = a, policy_digest = json_digest sha j\<rparr>" for a j
    using json_digest_hex [OF assms] by (simp add: make_activation_receipt_def guarded_def)
  have "activation_id_for sha (case req_confirmation q of Some c \<Rightarrow> confirmation_id c | None \<Rightarrow> code_points ''missing-confirmation'')
      (or_missing (iso_execution (req_isolation q))) = Inr (code_points (sha (encode_text (admission_text q))))"
    using True unfolding activation_id_for_def text_digest_def utf8_strict_def admission_text_def by simp
  then show ?thesis
    using True unfolding admit_def by (simp only: bind_res.simps d p split: if_split) (simp add: p)
next
  case False
  then have "activation_id_for sha (case req_confirmation q of Some c \<Rightarrow> confirmation_id c | None \<Rightarrow> code_points ''missing-confirmation'')
      (or_missing (iso_execution (req_isolation q))) = Inl EncodingError"
    unfolding activation_id_for_def text_digest_def utf8_strict_def admission_text_def by simp
  then show ?thesis using False unfolding admit_def by (simp only: bind_res.simps not_False_eq_True if_True)
qed

lemma admit_valid:
  assumes "admit sha fs q = Inr r"
  shows "make_activation_receipt r = Inr r" and "make_activation_decision (act_decision r) = Inr (act_decision r)"
  using assms by (auto simp: admit_def bind_res_Inr_iff make_activation_receipt_def make_activation_decision_def
      guarded_Inr_iff simp del: first_error.simps)

end
