(* ===== verification/ApprovalStore.thy ===== *)
theory ApprovalStore
  imports Activation
begin

text \<open>
  Human approval evidence and its durable store (\<open>governed_approval/models.py\<close>, \<open>store.py\<close>): a receipt
  carries the digest of all its other fields, and the store keeps one immutable file per approval
  identity. A time-zone-aware \<open>datetime\<close> is its UTC instant; a naive one is \<open>None\<close>. Parsing a stored
  time is a parameter.
\<close>

section \<open>Instants\<close>

record utc_time =
  t_year :: nat
  t_month :: nat
  t_day :: nat
  t_hour :: nat
  t_minute :: nat
  t_second :: nat
  t_micro :: nat

definition padded :: "nat \<Rightarrow> nat \<Rightarrow> string" where
  "padded w n = replicate (w - length (show_nat n)) CHR ''0'' @ show_nat n"

text \<open>\<open>isoformat()\<close> of an instant in UTC: microseconds are written only when there are any.\<close>

definition isoformat :: "utc_time \<Rightarrow> ustring" where
  "isoformat t = code_points (padded 4 (t_year t) @ ''-'' @ padded 2 (t_month t) @ ''-'' @ padded 2 (t_day t) @ ''T'' @
     padded 2 (t_hour t) @ '':'' @ padded 2 (t_minute t) @ '':'' @ padded 2 (t_second t) @
     (if t_micro t = 0 then '''' else ''.'' @ padded 6 (t_micro t)) @ ''+00:00'')"

definition canonical_occurrence :: "utc_time option \<Rightarrow> governed_exn + utc_time" where
  "canonical_occurrence v = (case v of None \<Rightarrow> Inl (ContractError ''occurred_at must be timezone-aware'') | Some t \<Rightarrow> Inr t)"

section \<open>Receipts\<close>

datatype approval_disposition = APPROVED | DENIED

fun approval_disposition_value :: "approval_disposition \<Rightarrow> string" where
  "approval_disposition_value APPROVED = ''approved''"
| "approval_disposition_value DENIED = ''denied''"

definition approval_disposition_of :: "ustring \<Rightarrow> approval_disposition option" where
  "approval_disposition_of s = (if s = code_points ''approved'' then Some APPROVED
     else if s = code_points ''denied'' then Some DENIED else None)"

record approval_receipt =
  approval_id :: ustring
  approver_identity :: ustring
  ap_occurred_at :: utc_time
  ap_disposition :: approval_disposition
  ap_activation_id :: ustring
  ap_receipt_digest :: ustring
  ap_execution_id :: ustring
  ap_run_id :: ustring
  ap_request_digest :: ustring
  ap_policy_digest :: ustring
  ap_isolation_digest :: ustring
  ap_observer_identity :: ustring
  ap_runtime_id :: ustring
  ap_binding_digest :: ustring

text \<open>The payload of the digest, and the stored payload, which adds the digest itself.\<close>

definition binding_fields :: "approval_receipt \<Rightarrow> (ustring \<times> json) list" where
  "binding_fields r =
     [(code_points ''activation_id'', JStr (ap_activation_id r)),
      (code_points ''activation_receipt_digest'', JStr (ap_receipt_digest r)),
      (code_points ''approval_id'', JStr (approval_id r)),
      (code_points ''approver_identity'', JStr (approver_identity r)),
      (code_points ''audit_observer_identity'', JStr (ap_observer_identity r)),
      (code_points ''disposition'', JStr (code_points (approval_disposition_value (ap_disposition r)))),
      (code_points ''execution_id'', JStr (ap_execution_id r)),
      (code_points ''isolation_binding_digest'', JStr (ap_isolation_digest r)),
      (code_points ''occurred_at'', JStr (isoformat (ap_occurred_at r))),
      (code_points ''provider_policy_digest'', JStr (ap_policy_digest r)),
      (code_points ''run_id'', JStr (ap_run_id r)),
      (code_points ''runtime_id'', JStr (ap_runtime_id r)),
      (code_points ''runtime_request_digest'', JStr (ap_request_digest r))]"

definition calculate_binding_digest :: "(bytes \<Rightarrow> string) \<Rightarrow> approval_receipt \<Rightarrow> ustring" where
  "calculate_binding_digest sha r = json_digest sha (JObj (binding_fields r))"

definition approval_payload :: "approval_receipt \<Rightarrow> json" where
  "approval_payload r = JObj
     [(code_points ''activation_id'', JStr (ap_activation_id r)),
      (code_points ''activation_receipt_digest'', JStr (ap_receipt_digest r)),
      (code_points ''approval_id'', JStr (approval_id r)),
      (code_points ''approver_identity'', JStr (approver_identity r)),
      (code_points ''audit_observer_identity'', JStr (ap_observer_identity r)),
      (code_points ''binding_digest'', JStr (ap_binding_digest r)),
      (code_points ''disposition'', JStr (code_points (approval_disposition_value (ap_disposition r)))),
      (code_points ''execution_id'', JStr (ap_execution_id r)),
      (code_points ''isolation_binding_digest'', JStr (ap_isolation_digest r)),
      (code_points ''occurred_at'', JStr (isoformat (ap_occurred_at r))),
      (code_points ''provider_policy_digest'', JStr (ap_policy_digest r)),
      (code_points ''run_id'', JStr (ap_run_id r)),
      (code_points ''runtime_id'', JStr (ap_runtime_id r)),
      (code_points ''runtime_request_digest'', JStr (ap_request_digest r))]"

definition empty_field :: "ustring \<Rightarrow> string \<Rightarrow> bool \<times> governed_exn" where
  "empty_field s field = (blank_ustring s, ContractError (field @ '' cannot be empty''))"

definition digest_field :: "ustring \<Rightarrow> string \<Rightarrow> (bool \<times> governed_exn) list" where
  "digest_field s field = [empty_field s field, (\<not> hex_digest s, ContractError (field @ '' must be a lowercase SHA-256 digest''))]"

definition approval_errors :: "(bytes \<Rightarrow> string) \<Rightarrow> approval_receipt \<Rightarrow> (bool \<times> governed_exn) list" where
  "approval_errors sha r =
     [empty_field (approval_id r) ''approval_id'', empty_field (approver_identity r) ''approver_identity'',
      empty_field (ap_activation_id r) ''activation_id'', empty_field (ap_execution_id r) ''execution_id'',
      empty_field (ap_run_id r) ''run_id'', empty_field (ap_observer_identity r) ''audit_observer_identity'',
      empty_field (ap_runtime_id r) ''runtime_id''] @
     digest_field (ap_receipt_digest r) ''activation_receipt_digest'' @
     digest_field (ap_request_digest r) ''runtime_request_digest'' @
     digest_field (ap_policy_digest r) ''provider_policy_digest'' @
     digest_field (ap_isolation_digest r) ''isolation_binding_digest'' @
     digest_field (ap_binding_digest r) ''binding_digest'' @
     [(ap_binding_digest r \<noteq> calculate_binding_digest sha r,
         ContractError ''binding_digest does not match canonical approval evidence'')]"

definition make_approval :: "(bytes \<Rightarrow> string) \<Rightarrow> approval_receipt \<Rightarrow> governed_exn + approval_receipt" where
  "make_approval sha r = guarded (approval_errors sha r) r"

text \<open>\<open>issue\<close>: the fields of the argument, with the digest they determine.\<close>

definition issue :: "(bytes \<Rightarrow> string) \<Rightarrow> utc_time option \<Rightarrow> approval_receipt \<Rightarrow> governed_exn + approval_receipt" where
  "issue sha occurred r = bind_res (canonical_occurrence occurred) (\<lambda>t.
     make_approval sha (r\<lparr>ap_occurred_at := t, ap_binding_digest := calculate_binding_digest sha (r\<lparr>ap_occurred_at := t\<rparr>)\<rparr>))"

text \<open>\<open>from_payload\<close>: any deviation is one error.\<close>

definition text_field :: "(ustring \<times> json) list \<Rightarrow> string \<Rightarrow> ustring option" where
  "text_field kvs k = (case obj_get kvs (code_points k) of Some (JStr s) \<Rightarrow> Some s | _ \<Rightarrow> None)"

definition approval_fields :: "ustring set" where
  "approval_fields = code_points ` set [''activation_id'', ''activation_receipt_digest'', ''approval_id'', ''approver_identity'',
     ''audit_observer_identity'', ''binding_digest'', ''disposition'', ''execution_id'', ''isolation_binding_digest'',
     ''occurred_at'', ''provider_policy_digest'', ''run_id'', ''runtime_id'', ''runtime_request_digest'']"

definition approval_of_fields :: "(ustring \<Rightarrow> utc_time option) \<Rightarrow> (ustring \<times> json) list \<Rightarrow> approval_receipt option" where
  "approval_of_fields parse kvs =
     Option.bind (text_field kvs ''occurred_at'') (\<lambda>o'. Option.bind (parse o') (\<lambda>t.
     Option.bind (text_field kvs ''disposition'') (\<lambda>d'. Option.bind (approval_disposition_of d') (\<lambda>d.
     Option.bind (text_field kvs ''approval_id'') (\<lambda>ai. Option.bind (text_field kvs ''approver_identity'') (\<lambda>who.
     Option.bind (text_field kvs ''activation_id'') (\<lambda>act. Option.bind (text_field kvs ''activation_receipt_digest'') (\<lambda>rd.
     Option.bind (text_field kvs ''execution_id'') (\<lambda>ex. Option.bind (text_field kvs ''run_id'') (\<lambda>run.
     Option.bind (text_field kvs ''runtime_request_digest'') (\<lambda>qd. Option.bind (text_field kvs ''provider_policy_digest'') (\<lambda>pd.
     Option.bind (text_field kvs ''isolation_binding_digest'') (\<lambda>iso. Option.bind (text_field kvs ''audit_observer_identity'') (\<lambda>ob.
     Option.bind (text_field kvs ''runtime_id'') (\<lambda>rt. Option.bind (text_field kvs ''binding_digest'') (\<lambda>bd.
       Some \<lparr>approval_id = ai, approver_identity = who, ap_occurred_at = t, ap_disposition = d, ap_activation_id = act,
         ap_receipt_digest = rd, ap_execution_id = ex, ap_run_id = run, ap_request_digest = qd, ap_policy_digest = pd,
         ap_isolation_digest = iso, ap_observer_identity = ob, ap_runtime_id = rt, ap_binding_digest = bd\<rparr>))))))))))))))))"

definition approval_from_payload :: "(bytes \<Rightarrow> string) \<Rightarrow> (ustring \<Rightarrow> utc_time option) \<Rightarrow> json \<Rightarrow> governed_exn + approval_receipt" where
  "approval_from_payload sha parse j =
     (case j of
        JObj kvs \<Rightarrow>
          (if obj_keys kvs \<noteq> approval_fields then Inl (ContractError ''governed approval payload has unexpected fields'')
           else case approval_of_fields parse kvs of
               None \<Rightarrow> Inl (ContractError ''invalid governed approval payload'')
             | Some r \<Rightarrow> (case make_approval sha r of
                   Inl _ \<Rightarrow> Inl (ContractError ''invalid governed approval payload'')
                 | Inr r' \<Rightarrow> Inr r'))
      | _ \<Rightarrow> Inl (ContractError ''governed approval payload must be an object''))"

section \<open>The store\<close>

datatype approval_claim_disposition = APPROVAL_CLAIMED | APPROVAL_DUPLICATE | APPROVAL_CONFLICT

record approval_claim =
  ac_disposition :: approval_claim_disposition
  existing_receipt :: "approval_receipt option"

definition make_approval_claim :: "approval_claim \<Rightarrow> store_exn + approval_claim" where
  "make_approval_claim c = guarded
     [(ac_disposition c = APPROVAL_CLAIMED \<and> existing_receipt c \<noteq> None,
         StoreError ''new approval claim cannot carry an existing receipt''),
      (ac_disposition c \<noteq> APPROVAL_CLAIMED \<and> existing_receipt c = None,
         StoreError ''duplicate/conflicting claim requires an existing receipt'')] c"

definition approval_lock :: string where
  "approval_lock = ''.g2_4_9_governed_approval.lock''"

definition approval_name :: "(bytes \<Rightarrow> string) \<Rightarrow> ustring \<Rightarrow> string option" where
  "approval_name sha i = map_option (\<lambda>b. ''approval-'' @ sha b @ ''.json'') (utf8_strict i)"

definition stored_approval :: "(bytes \<Rightarrow> string) \<Rightarrow> (ustring \<Rightarrow> utc_time option) \<Rightarrow> json \<Rightarrow> store_exn + approval_receipt" where
  "stored_approval sha parse j =
     (case j of
        JObj kvs \<Rightarrow>
          (if obj_get kvs (code_points ''schema_version'') \<noteq> Some (JStr (code_points ''g2.4.9''))
           then Inl (Corrupt ''unsupported governed approval record schema'')
           else if obj_keys kvs \<noteq> set [code_points ''receipt'', code_points ''schema_version'']
           then Inl (Corrupt ''governed approval record has unexpected fields'')
           else case map_option (approval_from_payload sha parse) (obj_get kvs (code_points ''receipt'')) of
               Some (Inr r) \<Rightarrow> Inr r
             | _ \<Rightarrow> Inl (Corrupt ''invalid governed approval record''))
      | _ \<Rightarrow> Inl (Corrupt ''unsupported governed approval record schema''))"

definition approval_read_unlocked :: "(bytes \<Rightarrow> string) \<Rightarrow> (ustring \<Rightarrow> utc_time option) \<Rightarrow> fs \<Rightarrow> path \<Rightarrow> ustring
    \<Rightarrow> store_exn + approval_receipt option" where
  "approval_read_unlocked sha parse fs root i =
     (case approval_name sha i of
        None \<Rightarrow> Inl EncodeFailure
      | Some n \<Rightarrow>
          bind_res (read_json fs (root @ [n])) (\<lambda>v.
            case v of
              None \<Rightarrow> Inr None
            | Some j \<Rightarrow>
                bind_res (stored_approval sha parse j) (\<lambda>r.
                  if approval_id r \<noteq> i then Inl (Corrupt ''governed approval record does not match its deterministic key'')
                  else Inr (Some r))))"

definition approval_file :: "approval_receipt \<Rightarrow> json" where
  "approval_file r = JObj [(code_points ''receipt'', approval_payload r), (code_points ''schema_version'', JStr (code_points ''g2.4.9''))]"

definition approval_write_unlocked :: "(bytes \<Rightarrow> string) \<Rightarrow> store_faults \<Rightarrow> fs \<Rightarrow> path \<Rightarrow> approval_receipt \<Rightarrow> fs \<times> store_exn option" where
  "approval_write_unlocked sha fl fs root r =
     (case approval_name sha (approval_id r) of
        None \<Rightarrow> (fs, Some EncodeFailure)
      | Some n \<Rightarrow> write_new fl fs (root @ [n]) (encode_text (dumps (approval_file r))))"

definition claim_approval :: "(bytes \<Rightarrow> string) \<Rightarrow> (ustring \<Rightarrow> utc_time option) \<Rightarrow> store_faults \<Rightarrow> path \<Rightarrow> fs \<Rightarrow> approval_receipt
    \<Rightarrow> fs \<times> (store_exn + approval_claim)" where
  "claim_approval sha parse fl root fs r =
     (case locked_root approval_lock fs root (fault_lock fl) of
        Inl e \<Rightarrow> (fs, Inl e)
      | Inr fs1 \<Rightarrow>
          (case approval_read_unlocked sha parse fs1 root (approval_id r) of
             Inl e \<Rightarrow> (fs1, Inl e)
           | Inr None \<Rightarrow>
               (case approval_write_unlocked sha fl fs1 root r of
                  (fs2, Some e) \<Rightarrow> (fs2, Inl e)
                | (fs2, None) \<Rightarrow> (fs2, make_approval_claim \<lparr>ac_disposition = APPROVAL_CLAIMED, existing_receipt = None\<rparr>))
           | Inr (Some r') \<Rightarrow>
               (fs1, make_approval_claim \<lparr>ac_disposition = (if r' = r then APPROVAL_DUPLICATE else APPROVAL_CONFLICT),
                  existing_receipt = Some r'\<rparr>)))"

definition read_approval :: "(bytes \<Rightarrow> string) \<Rightarrow> (ustring \<Rightarrow> utc_time option) \<Rightarrow> store_faults \<Rightarrow> path \<Rightarrow> fs \<Rightarrow> ustring
    \<Rightarrow> fs \<times> (store_exn + approval_receipt option)" where
  "read_approval sha parse fl root fs i =
     (if blank_ustring i then (fs, Inl (StoreError ''approval_id cannot be empty''))
      else case locked_root approval_lock fs root (fault_lock fl) of
        Inl e \<Rightarrow> (fs, Inl e)
      | Inr fs1 \<Rightarrow> (fs1, approval_read_unlocked sha parse fs1 root i))"

section \<open>Receipts survive the file\<close>

lemma approval_disposition_roundtrip: "approval_disposition_of (code_points (approval_disposition_value d)) = Some d"
  by (cases d) (simp_all add: approval_disposition_of_def code_points_inj)

lemma make_approval_Inr_iff: "make_approval sha r = Inr r' \<longleftrightarrow> r' = r \<and> (\<forall>g \<in> set (approval_errors sha r). \<not> fst g)"
  by (auto simp: make_approval_def guarded_Inr_iff first_error_None_iff simp del: first_error.simps)

lemma approval_text_fields:
  assumes "kvs = (case approval_payload r of JObj f \<Rightarrow> f | _ \<Rightarrow> [])"
  shows "text_field kvs ''activation_id'' = Some (ap_activation_id r)"
    and "text_field kvs ''activation_receipt_digest'' = Some (ap_receipt_digest r)"
    and "text_field kvs ''approval_id'' = Some (approval_id r)"
    and "text_field kvs ''approver_identity'' = Some (approver_identity r)"
    and "text_field kvs ''audit_observer_identity'' = Some (ap_observer_identity r)"
    and "text_field kvs ''binding_digest'' = Some (ap_binding_digest r)"
    and "text_field kvs ''disposition'' = Some (code_points (approval_disposition_value (ap_disposition r)))"
    and "text_field kvs ''execution_id'' = Some (ap_execution_id r)"
    and "text_field kvs ''isolation_binding_digest'' = Some (ap_isolation_digest r)"
    and "text_field kvs ''occurred_at'' = Some (isoformat (ap_occurred_at r))"
    and "text_field kvs ''provider_policy_digest'' = Some (ap_policy_digest r)"
    and "text_field kvs ''run_id'' = Some (ap_run_id r)"
    and "text_field kvs ''runtime_id'' = Some (ap_runtime_id r)"
    and "text_field kvs ''runtime_request_digest'' = Some (ap_request_digest r)"
    and "obj_keys kvs = approval_fields"
  unfolding assms by (simp_all add: approval_payload_def text_field_def obj_get_def obj_keys_def approval_fields_def code_points_inj)

lemma approval_from_to_payload:
  assumes "make_approval sha r = Inr r" and "parse (isoformat (ap_occurred_at r)) = Some (ap_occurred_at r)"
  shows "approval_from_payload sha parse (approval_payload r) = Inr r"
proof -
  obtain kvs where k: "approval_payload r = JObj kvs" "kvs = (case approval_payload r of JObj f \<Rightarrow> f | _ \<Rightarrow> [])"
    by (simp add: approval_payload_def)
  have "approval_of_fields parse kvs = Some r"
    by (simp add: approval_of_fields_def approval_text_fields [OF k(2)] assms(2) approval_disposition_roundtrip)
  then show ?thesis using assms(1) approval_text_fields(15) [OF k(2)] by (simp add: approval_from_payload_def k(1))
qed

lemma stored_approval_file:
  assumes "make_approval sha r = Inr r" and "parse (isoformat (ap_occurred_at r)) = Some (ap_occurred_at r)"
  shows "stored_approval sha parse (approval_file r) = Inr r"
  using approval_from_to_payload [where parse = parse, OF assms]
  by (simp add: stored_approval_def approval_file_def obj_get_def obj_keys_def code_points_inj)

text \<open>The texts of a receipt can be written in UTF-8, as can anything the hash or \<open>isoformat\<close> makes.\<close>

definition approval_texts_ok :: "approval_receipt \<Rightarrow> bool" where
  "approval_texts_ok r \<longleftrightarrow> list_all ustring_ok
     [approval_id r, approver_identity r, ap_activation_id r, ap_execution_id r, ap_run_id r, ap_observer_identity r, ap_runtime_id r]"

lemma hex_digest_ok: "hex_digest s \<Longrightarrow> ustring_ok s"
  by (auto simp: hex_digest_def ustring_ok_def list_all_iff lower_hex_def point_ok_def)

lemma approval_digests_ok:
  assumes "make_approval sha r = Inr r"
  shows "hex_digest (ap_receipt_digest r)" and "hex_digest (ap_request_digest r)" and "hex_digest (ap_policy_digest r)"
    and "hex_digest (ap_isolation_digest r)" and "hex_digest (ap_binding_digest r)"
    and "\<not> blank_ustring (approval_id r)" and "ap_binding_digest r = calculate_binding_digest sha r"
  using assms by (auto simp: make_approval_Inr_iff approval_errors_def digest_field_def empty_field_def)

lemma approval_file_ok:
  assumes "make_approval sha r = Inr r" and "approval_texts_ok r"
  shows "json_ok (approval_file r)"
  using assms(2) ustring_ok_points approval_digests_ok [OF assms(1)] hex_digest_ok
  by (simp add: approval_file_def approval_payload_def approval_texts_ok_def isoformat_def)

lemma approval_file_sorted: "sort_keys (approval_file r) = approval_file r"
proof -
  have "sorted (map fst (case approval_payload r of JObj f \<Rightarrow> f | _ \<Rightarrow> []))"
    by (simp add: approval_payload_def code_points_def)
  then have "sort_keys (approval_payload r) = approval_payload r"
    by (simp add: approval_payload_def sort_key_id_if_sorted)
  moreover have "code_points ''receipt'' \<le> code_points ''schema_version''" by (simp add: code_points_def)
  ultimately show ?thesis by (simp add: approval_file_def)
qed

lemma approval_read_written:
  assumes lf: "link_free fs [] root" and n: "approval_name sha (approval_id r) = Some n"
    and f: "fs (root @ [n]) = Some (File True (encode_text (dumps (approval_file r))))"
    and v: "make_approval sha r = Inr r" "approval_texts_ok r" and p: "parse (isoformat (ap_occurred_at r)) = Some (ap_occurred_at r)"
  shows "approval_read_unlocked sha parse fs root (approval_id r) = Inr (Some r)"
proof -
  note ok = approval_file_ok [OF v]
  have "read_json fs (root @ [n]) = Inr (Some (approval_file r))"
    using read_json_file [OF lf f dumps_plain [OF ok]] loads_dumps [OF ok] by (simp add: approval_file_sorted)
  then show ?thesis using n stored_approval_file [where parse = parse, OF v(1) p] by (simp add: approval_read_unlocked_def)
qed

end
