(* ===== verification/EvidenceForm.thy ===== *)
theory EvidenceForm
  imports ApprovalStore
begin

text \<open>
  What the payloads of evidence have in common: an object with exactly the fields of its class, whose
  values are read one after the other, and an error that stands for whatever is wrong with them.

  Parsing the text of a time is a parameter, a function to \<open>instant_text\<close>. An instant before the first or
  after the last that a \<open>datetime\<close> holds in UTC makes \<open>astimezone\<close> raise \<open>OverflowError\<close>, which is no
  \<open>ValueError\<close> and passes the handlers of the stores.
\<close>

section \<open>Reading fields\<close>

definition has_fields :: "(ustring \<times> json) list \<Rightarrow> string list \<Rightarrow> bool" where
  "has_fields kvs ks \<longleftrightarrow> obj_keys kvs = code_points ` set ks"

definition payload_text :: "(ustring \<times> json) list \<Rightarrow> string \<Rightarrow> governed_exn + ustring" where
  "payload_text kvs k = (case text_field kvs k of None \<Rightarrow> Inl (ContractError k) | Some s \<Rightarrow> Inr s)"

definition payload_value :: "(ustring \<times> json) list \<Rightarrow> string \<Rightarrow> governed_exn + json" where
  "payload_value kvs k = (case obj_get kvs (code_points k) of None \<Rightarrow> Inl (ContractError k) | Some j \<Rightarrow> Inr j)"

definition payload_constant :: "(ustring \<times> json) list \<Rightarrow> string \<Rightarrow> string \<Rightarrow> governed_exn + unit" where
  "payload_constant kvs k s = guarded [(obj_get kvs (code_points k) \<noteq> Some (JStr (code_points s)), ContractError k)] ()"

datatype instant_text = AwareInstant utc_time | NoInstantText | BeyondUtc

text \<open>\<open>fromisoformat\<close>, which accepts any instant, and the conversion to UTC in the constructor.\<close>

definition payload_instant :: "(ustring \<Rightarrow> instant_text) \<Rightarrow> (ustring \<times> json) list \<Rightarrow> string \<Rightarrow> governed_exn + utc_time option" where
  "payload_instant parse kvs k = bind_res (payload_text kvs k) (\<lambda>s.
     case parse s of AwareInstant t \<Rightarrow> Inr (Some t) | BeyondUtc \<Rightarrow> Inr None | NoInstantText \<Rightarrow> Inl (ContractError k))"

definition in_utc :: "utc_time option \<Rightarrow> governed_exn + utc_time" where
  "in_utc v = (case v of None \<Rightarrow> Inl TimeRangeError | Some t \<Rightarrow> Inr t)"

definition invalid_as :: "string \<Rightarrow> governed_exn + 'a \<Rightarrow> governed_exn + 'a" where
  "invalid_as msg m = (case m of Inl TimeRangeError \<Rightarrow> Inl TimeRangeError | Inl _ \<Rightarrow> Inl (ContractError msg) | Inr x \<Rightarrow> Inr x)"

lemma invalid_as_Inr [simp]: "invalid_as msg m = Inr x \<longleftrightarrow> m = Inr x"
  by (auto simp: invalid_as_def split: sum.splits governed_exn.splits)

lemma payload_text_Inr [simp]: "payload_text kvs k = Inr s \<longleftrightarrow> obj_get kvs (code_points k) = Some (JStr s)"
  by (auto simp: payload_text_def text_field_def split: option.splits json.splits)

lemma payload_value_Inr [simp]: "payload_value kvs k = Inr j \<longleftrightarrow> obj_get kvs (code_points k) = Some j"
  by (auto simp: payload_value_def split: option.splits)

lemma payload_constant_Inr [simp]: "payload_constant kvs k s = Inr u \<longleftrightarrow> obj_get kvs (code_points k) = Some (JStr (code_points s))"
  by (simp add: payload_constant_def guarded_Inr_iff)

lemma in_utc_Inr [simp]: "in_utc v = Inr t \<longleftrightarrow> v = Some t"
  by (cases v) (auto simp: in_utc_def)

lemma payload_instant_Inr:
  "payload_instant parse kvs k = Inr (Some t) \<longleftrightarrow> (\<exists>s. obj_get kvs (code_points k) = Some (JStr s) \<and> parse s = AwareInstant t)"
  by (auto simp: payload_instant_def bind_res_Inr_iff split: instant_text.split_asm)

section \<open>Objects with known fields\<close>

text \<open>
  An object written with the fields of its class, named by literals: it has these fields with these values,
  and when they are written in order, sorting the keys changes nothing.
\<close>

definition named :: "(string \<times> json) list \<Rightarrow> (ustring \<times> json) list" where
  "named kvs = map (map_prod code_points id) kvs"

definition object_of :: "(string \<times> json) list \<Rightarrow> json" where
  "object_of kvs = JObj (named kvs)"

named_theorems form_simps \<open>reading an object that was written with known fields\<close>

lemma obj_get_named [form_simps]: "obj_get (named kvs) (code_points k) = map_of (rev kvs) k"
proof -
  have "map_of (map (map_prod code_points id) xs) (code_points k) = map_of xs k" for xs :: "(string \<times> json) list"
    by (induction xs) (auto simp: code_points_inj)
  from this [of "rev kvs"] show ?thesis by (simp add: obj_get_def named_def rev_map)
qed

lemma obj_keys_named: "obj_keys (named kvs) = code_points ` set (map fst kvs)"
  by (force simp: obj_keys_def named_def)

lemma has_fields_named [form_simps]: "has_fields (named kvs) ks \<longleftrightarrow> set (map fst kvs) = set ks"
proof -
  have "inj code_points" by (simp add: inj_def code_points_inj)
  then show ?thesis by (simp only: has_fields_def obj_keys_named inj_image_eq_iff)
qed

lemma text_field_named [form_simps]:
  "text_field (named kvs) k = (case map_of (rev kvs) k of Some (JStr s) \<Rightarrow> Some s | _ \<Rightarrow> None)"
  by (simp add: text_field_def obj_get_named)

lemma payload_named [form_simps]:
  "payload_text (named kvs) k = (case map_of (rev kvs) k of Some (JStr s) \<Rightarrow> Inr s | _ \<Rightarrow> Inl (ContractError k))"
  "payload_value (named kvs) k = (case map_of (rev kvs) k of None \<Rightarrow> Inl (ContractError k) | Some j \<Rightarrow> Inr j)"
  "payload_constant (named kvs) k c = guarded [(map_of (rev kvs) k \<noteq> Some (JStr (code_points c)), ContractError k)] ()"
  by (auto simp: payload_text_def payload_value_def payload_constant_def text_field_named obj_get_named
      split: option.splits json.splits)

lemma object_ok: "json_ok (object_of kvs) \<longleftrightarrow> list_all (json_ok \<circ> snd) kvs"
  using ustring_ok_points by (induction kvs) (auto simp: object_of_def named_def)

lemma object_sorted:
  assumes "sorted (map (code_points \<circ> fst) kvs)" and "list_all (\<lambda>v. sort_keys v = v) (map snd kvs)"
  shows "sort_keys (object_of kvs) = object_of kvs"
proof -
  have "map (\<lambda>kv. (fst kv, sort_keys (snd kv))) (named kvs) = named kvs"
    using assms(2) by (auto simp: named_def list_all_iff intro!: map_cong)
  moreover have "sorted (map fst (named kvs))" using assms(1) by (simp add: named_def comp_def)
  ultimately show ?thesis by (simp add: object_of_def sort_key_id_if_sorted)
qed

end
