(* ===== verification/EvidenceStore.thy ===== *)
theory EvidenceStore
  imports ReplayLedger EvidenceForm
begin

text \<open>
  The stores of immutable evidence that custody, composition and transition authorization share line by
  line (\<open>governed_workspace/store.py\<close>, \<open>governed_composition/store.py\<close>,
  \<open>governed_transition_authorization/store.py\<close>): claim a record once under the lock, and read it back. What differs
  is a record \<open>evidence_files\<close>: the lock, the prefix of the file names, the identity and the form of a
  record, and whether a link is refused before or after looking whether the file is there.

  The locale \<open>evidence_store\<close> has the laws of a store: a valid record is read back from what is written
  for it. From them follow that the store implements \<open>spec_claim\<close>, and that of all claims of one
  identity at most one succeeds.
\<close>

section \<open>The operations\<close>

record 'r evidence_files =
  ef_lock :: string
  ef_prefix :: string
  ef_identity :: "'r \<Rightarrow> ustring"
  ef_stored :: "json \<Rightarrow> store_exn + 'r"
  ef_file :: "'r \<Rightarrow> json"
  ef_links_first :: bool

datatype evidence_disposition = EVIDENCE_CLAIMED | EVIDENCE_DUPLICATE | EVIDENCE_CONFLICT

record 'r evidence_outcome =
  ec_disposition :: evidence_disposition
  ec_existing :: "'r option"

definition make_evidence_claim :: "'r evidence_outcome \<Rightarrow> store_exn + 'r evidence_outcome" where
  "make_evidence_claim c = guarded
     [(ec_disposition c = EVIDENCE_CLAIMED \<and> ec_existing c \<noteq> None, StoreError ''new claim cannot carry existing evidence''),
      (ec_disposition c \<noteq> EVIDENCE_CLAIMED \<and> ec_existing c = None,
         StoreError ''duplicate/conflicting claim requires existing evidence'')] c"

definition evidence_name :: "'r evidence_files \<Rightarrow> (bytes \<Rightarrow> string) \<Rightarrow> ustring \<Rightarrow> string option" where
  "evidence_name S sha i = map_option (\<lambda>b. ef_prefix S @ sha b @ ''.json'') (utf8_strict i)"

definition evidence_read_unlocked :: "'r evidence_files \<Rightarrow> (bytes \<Rightarrow> string) \<Rightarrow> fs \<Rightarrow> path \<Rightarrow> ustring \<Rightarrow> store_exn + 'r option" where
  "evidence_read_unlocked S sha fs root i =
     (case evidence_name S sha i of
        None \<Rightarrow> Inl EncodeFailure
      | Some n \<Rightarrow>
          if ef_links_first S \<and> is_symlink fs (root @ [n]) then Inl (Corrupt ''record must not be a symlink'')
          else bind_res (read_json fs (root @ [n])) (\<lambda>v.
            case v of
              None \<Rightarrow> Inr None
            | Some j \<Rightarrow>
                bind_res (ef_stored S j) (\<lambda>r.
                  if ef_identity S r \<noteq> i then Inl (Corrupt ''record does not match its deterministic key'')
                  else Inr (Some r))))"

definition evidence_write_unlocked :: "'r evidence_files \<Rightarrow> (bytes \<Rightarrow> string) \<Rightarrow> store_faults \<Rightarrow> fs \<Rightarrow> path \<Rightarrow> 'r
    \<Rightarrow> fs \<times> store_exn option" where
  "evidence_write_unlocked S sha fl fs root r =
     (case evidence_name S sha (ef_identity S r) of
        None \<Rightarrow> (fs, Some EncodeFailure)
      | Some n \<Rightarrow> write_new fl fs (root @ [n]) (encode_text (dumps (ef_file S r))))"

definition evidence_claim :: "'r evidence_files \<Rightarrow> (bytes \<Rightarrow> string) \<Rightarrow> store_faults \<Rightarrow> path \<Rightarrow> fs \<Rightarrow> 'r
    \<Rightarrow> fs \<times> (store_exn + 'r evidence_outcome)" where
  "evidence_claim S sha fl root fs r =
     (case locked_root (ef_lock S) fs root (fault_lock fl) of
        Inl e \<Rightarrow> (fs, Inl e)
      | Inr fs1 \<Rightarrow>
          (case evidence_read_unlocked S sha fs1 root (ef_identity S r) of
             Inl e \<Rightarrow> (fs1, Inl e)
           | Inr None \<Rightarrow>
               (case evidence_write_unlocked S sha fl fs1 root r of
                  (fs2, Some e) \<Rightarrow> (fs2, Inl e)
                | (fs2, None) \<Rightarrow> (fs2, make_evidence_claim \<lparr>ec_disposition = EVIDENCE_CLAIMED, ec_existing = None\<rparr>))
           | Inr (Some r') \<Rightarrow>
               (fs1, make_evidence_claim \<lparr>ec_disposition = (if r' = r then EVIDENCE_DUPLICATE else EVIDENCE_CONFLICT),
                  ec_existing = Some r'\<rparr>)))"

definition evidence_read :: "'r evidence_files \<Rightarrow> (bytes \<Rightarrow> string) \<Rightarrow> store_faults \<Rightarrow> path \<Rightarrow> fs \<Rightarrow> ustring
    \<Rightarrow> fs \<times> (store_exn + 'r option)" where
  "evidence_read S sha fl root fs i =
     (if blank_ustring i then (fs, Inl (StoreError ''identity cannot be empty''))
      else case locked_root (ef_lock S) fs root (fault_lock fl) of
        Inl e \<Rightarrow> (fs, Inl e)
      | Inr fs1 \<Rightarrow> (fs1, evidence_read_unlocked S sha fs1 root i))"

text \<open>The record of a store is wrapped under a name, beside the schema of the store.\<close>

definition wrapped :: "string \<Rightarrow> string \<Rightarrow> json \<Rightarrow> json" where
  "wrapped name schema j = JObj [(code_points name, j), (code_points ''schema_version'', JStr (code_points schema))]"

definition unwrapped :: "string \<Rightarrow> string \<Rightarrow> (json \<Rightarrow> governed_exn + 'r) \<Rightarrow> json \<Rightarrow> store_exn + 'r" where
  "unwrapped name schema decode j =
     (case j of
        JObj kvs \<Rightarrow>
          (if obj_get kvs (code_points ''schema_version'') \<noteq> Some (JStr (code_points schema))
           then Inl (Corrupt ''unsupported record schema'')
           else if obj_keys kvs \<noteq> {code_points name, code_points ''schema_version''}
           then Inl (Corrupt ''record has unexpected fields'')
           else case map_option decode (obj_get kvs (code_points name)) of
               Some (Inr r) \<Rightarrow> Inr r
             | Some (Inl TimeRangeError) \<Rightarrow> Inl StoredTimeOverflow
             | _ \<Rightarrow> Inl (Corrupt ''invalid record''))
      | _ \<Rightarrow> Inl (Corrupt ''unsupported record schema''))"

lemma unwrapped_wrapped:
  "name \<noteq> ''schema_version'' \<Longrightarrow> decode j = Inr r \<Longrightarrow> unwrapped name schema decode (wrapped name schema j) = Inr r"
  by (simp add: unwrapped_def wrapped_def obj_get_def obj_keys_def code_points_inj insert_commute)

lemma unwrapped_decodes: "unwrapped name schema decode j = Inr r \<Longrightarrow> \<exists>j'. decode j' = Inr r"
  by (auto simp: unwrapped_def split: json.splits if_splits option.splits sum.splits governed_exn.splits)

lemma wrapped_ok: "json_ok j \<Longrightarrow> json_ok (wrapped name schema j)"
  using ustring_ok_points by (simp add: wrapped_def)

lemma wrapped_sorted:
  "code_points name \<le> code_points ''schema_version'' \<Longrightarrow> sort_keys j = j \<Longrightarrow> sort_keys (wrapped name schema j) = wrapped name schema j"
  by (simp add: wrapped_def)

section \<open>The interface\<close>

text \<open>A claim that succeeded, as one attempt; the slot of a record; what a slot holds.\<close>

definition evidence_attempt :: "'r evidence_files \<Rightarrow> (bytes \<Rightarrow> string) \<Rightarrow> path \<Rightarrow> fs \<Rightarrow> 'r \<Rightarrow> store_faults \<Rightarrow> fs \<times> bool" where
  "evidence_attempt S sha root fs r fl =
     (case evidence_claim S sha fl root fs r of (fs', res) \<Rightarrow> (fs', res = Inr \<lparr>ec_disposition = EVIDENCE_CLAIMED, ec_existing = None\<rparr>))"

definition evidence_slot :: "'r evidence_files \<Rightarrow> (bytes \<Rightarrow> string) \<Rightarrow> 'r \<Rightarrow> string option" where
  "evidence_slot S sha r = evidence_name S sha (ef_identity S r)"

definition evidence_view :: "'r evidence_files \<Rightarrow> path \<Rightarrow> fs \<Rightarrow> string \<Rightarrow> 'r slot" where
  "evidence_view S root fs n =
     (if is_symlink fs (root @ [n]) then Damaged
      else case read_json fs (root @ [n]) of
        Inr None \<Rightarrow> Free
      | Inr (Some j) \<Rightarrow> (case ef_stored S j of Inr r \<Rightarrow> Held r | Inl _ \<Rightarrow> Damaged)
      | Inl _ \<Rightarrow> Damaged)"

definition same_identity :: "'r evidence_files \<Rightarrow> 'r \<Rightarrow> 'r \<Rightarrow> bool" where
  "same_identity S r r' \<longleftrightarrow> ef_identity S r' = ef_identity S r"

definition evidence_result :: "store_exn + 'r evidence_outcome \<Rightarrow> 'r claim_result" where
  "evidence_result res =
     (case res of
        Inl _ \<Rightarrow> Refused
      | Inr c \<Rightarrow> (case (ec_disposition c, ec_existing c) of
            (EVIDENCE_DUPLICATE, Some r) \<Rightarrow> Already r
          | (EVIDENCE_CONFLICT, Some r) \<Rightarrow> Conflicting r
          | _ \<Rightarrow> Claimed))"

text \<open>The lock file is no slot.\<close>

definition slots_agree :: "'r evidence_files \<Rightarrow> (string \<Rightarrow> 'a) \<Rightarrow> (string \<Rightarrow> 'a) \<Rightarrow> bool" where
  "slots_agree S st st' \<longleftrightarrow> (\<forall>n. n \<noteq> ef_lock S \<longrightarrow> st n = st' n)"

lemma evidence_view_cong:
  assumes "link_free fs [] root" and "link_free fs' [] root" and "fs' (root @ [n]) = fs (root @ [n])"
  shows "evidence_view S root fs' n = evidence_view S root fs n"
proof -
  have o: "is_symlink fs' (root @ [n]) = is_symlink fs (root @ [n])"
    using own_entry_snoc [OF assms(1)] own_entry_snoc [OF assms(2)] assms(3) by (simp add: is_symlink_def)
  show ?thesis
  proof (cases "is_symlink fs (root @ [n])")
    case False
    then have "case fs (root @ [n]) of Some (Link _) \<Rightarrow> False | _ \<Rightarrow> True"
      using own_entry_snoc [OF assms(1)] by (auto simp: is_symlink_def split: option.splits entry.splits)
    from read_json_cong [OF assms this] o show ?thesis by (simp add: evidence_view_def)
  qed (simp add: evidence_view_def o)
qed

lemma evidence_view_free_iff:
  assumes "link_free fs [] root"
  shows "evidence_view S root fs n = Free \<longleftrightarrow> fs (root @ [n]) = None"
proof -
  have "fs (root @ [n]) = Some e \<Longrightarrow> evidence_view S root fs n \<noteq> Free" for e
    using own_entry_snoc [OF assms, of n] target_entry_snoc [OF assms, of n]
    by (cases e) (auto simp: evidence_view_def is_symlink_def read_json_def path_exists_def read_bytes_def
        split: option.splits sum.splits)
  moreover have "fs (root @ [n]) = None \<Longrightarrow> evidence_view S root fs n = Free"
    using own_entry_snoc [OF assms, of n] read_json_absent [OF assms] by (simp add: evidence_view_def is_symlink_def)
  ultimately show ?thesis by (cases "fs (root @ [n])") auto
qed

text \<open>What \<open>_read_unlocked\<close> answers, by what the slot holds.\<close>

lemma evidence_read_free:
  assumes "link_free fs [] root" and "evidence_name S sha i = Some n" and "fs (root @ [n]) = None"
  shows "evidence_read_unlocked S sha fs root i = Inr None"
  using assms(2) read_json_absent [OF assms(1,3)] own_entry_snoc [OF assms(1), of n] assms(3)
  by (simp add: evidence_read_unlocked_def is_symlink_def)

lemma evidence_read_view:
  assumes "link_free fs [] root" and "evidence_name S sha i = Some n" and "fs (root @ [n]) \<noteq> None"
    and "\<not> is_symlink fs (root @ [n])"
  obtains (held) r where "evidence_view S root fs n = Held r" and "ef_identity S r = i"
      and "evidence_read_unlocked S sha fs root i = Inr (Some r)"
    | (other) r e where "evidence_view S root fs n = Held r" and "ef_identity S r \<noteq> i"
      and "evidence_read_unlocked S sha fs root i = Inl e"
    | (damaged) e where "evidence_view S root fs n = Damaged" and "evidence_read_unlocked S sha fs root i = Inl e"
proof (cases "read_json fs (root @ [n])")
  case (Inl e)
  then show ?thesis using damaged assms(2,4) by (simp add: evidence_view_def evidence_read_unlocked_def)
next
  case (Inr v)
  have "evidence_view S root fs n \<noteq> Free" by (simp add: evidence_view_free_iff [OF assms(1)] assms(3))
  then obtain j where v: "v = Some j" using Inr assms(4) by (cases v) (simp_all add: evidence_view_def)
  show ?thesis
  proof (cases "ef_stored S j")
    case (Inl e)
    then show ?thesis using damaged assms(2,4) Inr v by (simp add: evidence_view_def evidence_read_unlocked_def)
  next
    case r: (Inr r)
    then show ?thesis using held [of r] other [of r] assms(2,4) Inr v
      by (cases "ef_identity S r = i") (simp_all add: evidence_view_def evidence_read_unlocked_def)
  qed
qed

text \<open>A link in the place of a record is refused, by the read or by the exclusive creation.\<close>

lemma evidence_link_refused:
  assumes "link_free fs [] root" and "evidence_name S sha i = Some n" and "is_symlink fs (root @ [n])"
  shows "(\<exists>e. evidence_read_unlocked S sha fs root i = Inl e) \<or> evidence_read_unlocked S sha fs root i = Inr None"
    and "fs (root @ [n]) \<noteq> None" and "evidence_view S root fs n = Damaged"
  using assms own_entry_snoc [OF assms(1), of n]
  by (auto simp: evidence_read_unlocked_def read_json_def is_symlink_def evidence_view_def split: option.splits entry.splits)

lemma evidence_locked_root:
  assumes "control_root_ok lock fs root" and "locked_root lock fs root fault = Inr fs1"
  shows "control_root_ok lock fs1 root" and "n \<noteq> lock \<Longrightarrow> fs1 (root @ [n]) = fs (root @ [n])"
    and "n \<noteq> lock \<Longrightarrow> evidence_view S root fs1 n = evidence_view S root fs n"
proof -
  have "fs1 = (if fs (root @ [lock]) = None then fs(root @ [lock] \<mapsto> File True []) else fs)"
    using assms(2) locked_root_ok [OF assms(1), of fault] by (auto split: if_splits)
  then show c: "control_root_ok lock fs1 root"
    and e: "n \<noteq> lock \<Longrightarrow> fs1 (root @ [n]) = fs (root @ [n])"
    using assms(1) by (auto simp: control_root_ok_def link_free_update split: if_splits)
  have "link_free fs [] root" "link_free fs1 [] root" using assms(1) c by (simp_all add: control_root_ok_def)
  then show "n \<noteq> lock \<Longrightarrow> evidence_view S root fs1 n = evidence_view S root fs n"
    using e by (intro evidence_view_cong) simp_all
qed

lemma claim_to_result:
  "evidence_result (make_evidence_claim \<lparr>ec_disposition = EVIDENCE_CLAIMED, ec_existing = None\<rparr>) = Claimed"
  "evidence_result (make_evidence_claim \<lparr>ec_disposition = EVIDENCE_DUPLICATE, ec_existing = Some r\<rparr>) = Already r"
  "evidence_result (make_evidence_claim \<lparr>ec_disposition = EVIDENCE_CONFLICT, ec_existing = Some r\<rparr>) = Conflicting r"
  "evidence_result (Inl e) = Refused"
  by (simp_all add: make_evidence_claim_def guarded_def evidence_result_def)

text \<open>
  The laws of a store. The hash is any function whose results make names; records are the valid ones.
\<close>

locale evidence_store =
  fixes S :: "'r evidence_files" and valid :: "'r \<Rightarrow> bool"
  assumes stored_file: "valid r \<Longrightarrow> ef_stored S (sort_keys (ef_file S r)) = Inr r"
    and file_ok: "valid r \<Longrightarrow> json_ok (ef_file S r)"
    and name_not_lock: "evidence_name S sha i = Some n \<Longrightarrow> n \<noteq> ef_lock S"
begin

lemma record_view:
  assumes "link_free fs [] root" and "fs (root @ [n]) = Some (File True (encode_text (dumps (ef_file S r))))" and "valid r"
  shows "evidence_view S root fs n = Held r"
  using read_json_file [OF assms(1,2) dumps_plain [OF file_ok] loads_dumps [OF file_ok]] own_entry_snoc [OF assms(1), of n]
    assms(2,3) stored_file by (simp add: evidence_view_def is_symlink_def)

text \<open>A record written into a free slot is what that slot holds, and no other slot changes.\<close>

lemma record_slots:
  assumes "control_root_ok (ef_lock S) fs root" and "n \<noteq> ef_lock S" and "fs (root @ [n]) = None" and "valid r"
    and "fs' = fs(root @ [n] \<mapsto> File True (encode_text (dumps (ef_file S r))))"
  shows "control_root_ok (ef_lock S) fs' root" and "evidence_view S root fs' = (evidence_view S root fs)(n := Held r)"
proof -
  have lf: "link_free fs [] root" "link_free fs' [] root"
    using assms(1,5) by (auto simp: control_root_ok_def link_free_update)
  show "control_root_ok (ef_lock S) fs' root"
    using assms by (auto simp: control_root_ok_def link_free_update)
  have "evidence_view S root fs' m = ((evidence_view S root fs)(n := Held r)) m" for m
    using record_view [OF lf(2) _ assms(4), of m] evidence_view_cong [OF lf, of m S] assms(5) by (cases "m = n") simp_all
  then show "evidence_view S root fs' = (evidence_view S root fs)(n := Held r)" by (rule ext)
qed

lemma claim_refines:
  assumes c: "control_root_ok (ef_lock S) fs root" and v: "valid r" and n: "evidence_slot S sha r = Some n"
    and step: "evidence_claim S sha no_store_faults root fs r = (fs', res)"
  shows "control_root_ok (ef_lock S) fs' root \<and>
    slots_agree S (evidence_view S root fs') (fst (spec_claim (same_identity S) (evidence_view S root fs) n r)) \<and>
    evidence_result res = snd (spec_claim (same_identity S) (evidence_view S root fs) n r)"
proof -
  obtain fs1 where l: "locked_root (ef_lock S) fs root False = Inr fs1"
    using locked_root_ok [OF c, of False] by simp
  note c1 = evidence_locked_root(1) [OF c l] and v1 = evidence_locked_root(3) [OF c l, where S = S]
  have n': "evidence_name S sha (ef_identity S r) = Some n" using n by (simp add: evidence_slot_def)
  then have nl: "n \<noteq> ef_lock S" by (rule name_not_lock)
  have lf: "link_free fs1 [] root" using c1 by (simp add: control_root_ok_def)
  have s1: "slots_agree S (evidence_view S root fs1) (evidence_view S root fs)" using v1 by (simp add: slots_agree_def)
  have w: "evidence_write_unlocked S sha no_store_faults fs1 root r =
      (if fs1 (root @ [n]) \<noteq> None then (fs1, Some (Unavailable ''record appeared during a locked claim''))
       else (fs1(root @ [n] \<mapsto> File True (encode_text (dumps (ef_file S r)))), None))"
    using n' lf by (simp add: evidence_write_unlocked_def write_new_def no_store_faults_def place_snoc)
  note step1 = step [unfolded evidence_claim_def no_store_faults_def store_faults.simps l, folded no_store_faults_def, simplified]
  show ?thesis
  proof (cases "fs1 (root @ [n]) = None")
    case True
    then have "evidence_view S root fs1 n = Free" by (simp add: evidence_view_free_iff [OF lf])
    then show ?thesis
      using step1 w True record_slots [OF c1 nl True v refl] v1 [OF nl] s1 evidence_read_free [OF lf n' True]
      by (auto simp: slots_agree_def claim_to_result)
  next
    case taken: False
    show ?thesis
    proof (cases "is_symlink fs1 (root @ [n])")
      case True
      then have "\<exists>e. (fs', res) = (fs1, Inl e)"
        using evidence_link_refused(1) [OF lf n' True] step1 w taken by auto
      then show ?thesis using evidence_link_refused(3) [OF lf n' True] v1 [OF nl] c1 s1 by (auto simp: claim_to_result)
    next
      case False
      from lf n' taken False show ?thesis
      proof (cases rule: evidence_read_view)
        case (held r')
        then show ?thesis using step1 v1 [OF nl] c1 s1
          by (auto simp: claim_to_result same_identity_def split: if_splits)
      next
        case (other r' e)
        then show ?thesis using step1 v1 [OF nl] c1 s1 by (auto simp: claim_to_result same_identity_def)
      next
        case (damaged e)
        then show ?thesis using step1 v1 [OF nl] c1 s1 by (auto simp: claim_to_result)
      qed
    qed
  qed
qed

lemma record_read_back:
  assumes "control_root_ok (ef_lock S) fs root" and "evidence_slot S sha r = Some n"
    and "evidence_view S root fs n = Held r" and "\<not> blank_ustring (ef_identity S r)"
  shows "snd (evidence_read S sha no_store_faults root fs (ef_identity S r)) = Inr (Some r)"
proof -
  obtain fs1 where l: "locked_root (ef_lock S) fs root False = Inr fs1"
    using locked_root_ok [OF assms(1), of False] by simp
  note c1 = evidence_locked_root(1) [OF assms(1) l]
  have n': "evidence_name S sha (ef_identity S r) = Some n" using assms(2) by (simp add: evidence_slot_def)
  have h: "evidence_view S root fs1 n = Held r"
    using evidence_locked_root(3) [OF assms(1) l name_not_lock [OF n'], where S = S] assms(3) by simp
  have lf: "link_free fs1 [] root" using c1 by (simp add: control_root_ok_def)
  have "fs1 (root @ [n]) \<noteq> None" using h evidence_view_free_iff [OF lf, of S n] by auto
  moreover have "\<not> is_symlink fs1 (root @ [n])" using h by (auto simp: evidence_view_def split: if_splits)
  ultimately have "evidence_read_unlocked S sha fs1 root (ef_identity S r) = Inr (Some r)"
    by (rule evidence_read_view [OF lf n']) (use h in auto)
  then show ?thesis using l assms(4) by (simp add: evidence_read_def no_store_faults_def)
qed

end

section \<open>Single use\<close>

text \<open>A claim adds entries and changes none, and it makes no link.\<close>

lemma evidence_claim_grows:
  "same_links fs (fst (evidence_claim S sha fl root fs r)) \<and>
    (fs q \<noteq> None \<longrightarrow> fst (evidence_claim S sha fl root fs r) q = fs q)"
proof (cases "locked_root (ef_lock S) fs root (fault_lock fl)")
  case (Inr fs1)
  have l: "same_links fs fs1" "fs q \<noteq> None \<Longrightarrow> fs1 q = fs q"
    using locked_root_links [OF Inr] locked_root_grows [OF Inr] by simp_all
  have w: "same_links fs1 (fst (evidence_write_unlocked S sha fl fs1 root r))"
      "fs1 q \<noteq> None \<Longrightarrow> fst (evidence_write_unlocked S sha fl fs1 root r) q = fs1 q"
    using write_new_links write_new_grows by (auto simp: evidence_write_unlocked_def split: option.splits)
  have "fst (evidence_claim S sha fl root fs r) \<in> {fs1, fst (evidence_write_unlocked S sha fl fs1 root r)}"
    by (auto simp: evidence_claim_def Inr split: sum.splits option.splits prod.splits)
  then show ?thesis using l w same_links_trans [OF l(1) w(1)] by fastforce
qed (simp add: evidence_claim_def)

lemma evidence_claimed_writes:
  assumes "evidence_claim S sha fl root fs r = (fs', Inr c)" and "ec_disposition c = EVIDENCE_CLAIMED"
  obtains fs1 n where "locked_root (ef_lock S) fs root (fault_lock fl) = Inr fs1" and "evidence_slot S sha r = Some n"
    and "fs1 (place fs1 (root @ [n])) = None"
    and "fs' = fs1(place fs1 (root @ [n]) \<mapsto> File True (encode_text (dumps (ef_file S r))))"
proof -
  obtain fs1 where l: "locked_root (ef_lock S) fs root (fault_lock fl) = Inr fs1"
    using assms by (auto simp: evidence_claim_def split: sum.splits)
  then have w: "evidence_write_unlocked S sha fl fs1 root r = (fs', None)"
    using assms by (auto simp: evidence_claim_def make_evidence_claim_def guarded_Inr_iff
        split: sum.splits option.splits prod.splits if_splits)
  then obtain n where n: "evidence_slot S sha r = Some n"
    by (auto simp: evidence_write_unlocked_def evidence_slot_def split: option.splits)
  have "write_new fl fs1 (root @ [n]) (encode_text (dumps (ef_file S r))) = (fs', None)"
    using w n by (simp add: evidence_write_unlocked_def evidence_slot_def)
  then show ?thesis
    using that [OF l n] write_new_done [of fl fs1 "root @ [n]" "encode_text (dumps (ef_file S r))"] by simp
qed

lemma evidence_attempt_takes:
  assumes "snd (evidence_attempt S sha root fs r fl)"
  shows "\<not> slot_taken root fs (evidence_slot S sha r)"
    and "slot_taken root (fst (evidence_attempt S sha root fs r fl)) (evidence_slot S sha r)"
proof -
  obtain fs' c where c: "evidence_claim S sha fl root fs r = (fs', Inr c)" "ec_disposition c = EVIDENCE_CLAIMED"
    and f: "fst (evidence_attempt S sha root fs r fl) = fs'"
    using assms by (auto simp: evidence_attempt_def split: prod.splits)
  obtain fs1 n where w: "locked_root (ef_lock S) fs root (fault_lock fl) = Inr fs1" "evidence_slot S sha r = Some n"
      "fs1 (place fs1 (root @ [n])) = None" "fs' = fs1(place fs1 (root @ [n]) \<mapsto> File True (encode_text (dumps (ef_file S r))))"
    using evidence_claimed_writes [OF c] by blast
  have p: "place fs1 (root @ [n]) = place fs (root @ [n])"
    using place_same_links [OF locked_root_links [OF w(1)]] .
  have "same_links fs1 fs'" unfolding w(4) using w(3) by (simp add: same_links_new_file)
  then have "place fs' (root @ [n]) = place fs1 (root @ [n])" by (rule place_same_links)
  then show "slot_taken root (fst (evidence_attempt S sha root fs r fl)) (evidence_slot S sha r)"
    using f w by (simp add: slot_taken_def)
  show "\<not> slot_taken root fs (evidence_slot S sha r)"
    using w(2,3) p locked_root_grows [OF w(1), of "place fs (root @ [n])"]
    by (cases "fs (place fs (root @ [n]))") (simp_all add: slot_taken_def)
qed

lemma evidence_attempt_keeps: "slot_taken root fs x \<Longrightarrow> slot_taken root (fst (evidence_attempt S sha root fs r fl)) x"
  using evidence_claim_grows [of fs S sha fl root r] place_same_links [of fs "fst (evidence_claim S sha fl root fs r)"]
  by (auto simp: slot_taken_def evidence_attempt_def split: option.splits prod.splits)

interpretation evidence_once: once_store "evidence_attempt S sha root" "evidence_slot S sha" "slot_taken root"
  by unfold_locales (rule evidence_attempt_takes(1), assumption, rule evidence_attempt_takes(2), assumption,
      rule evidence_attempt_keeps)

text \<open>Reading changes the tree like a claim: at most the lock file is added.\<close>

lemma evidence_read_tree:
  "fst (evidence_read S sha fl root fs i) = fs \<or>
    locked_root (ef_lock S) fs root (fault_lock fl) = Inr (fst (evidence_read S sha fl root fs i))"
  by (auto simp: evidence_read_def split: sum.splits)

end
