(* ===== verification/CompositionEvidence.thy ===== *)
theory CompositionEvidence
  imports EvidenceStore
begin

text \<open>
  Runtime composition evidence (\<open>governed_composition/models.py\<close>, \<open>store.py\<close>): the manifest of the components a
  runtime declares, whose roles are unique and in order and whose dependencies refer to declared roles;
  the attestation of a manifest at an instant, with its digest; and the store of attestations, an
  instance of the evidence store.

  An attestation has one disposition only, \<open>attested\<close>, which its payload states.
\<close>

section \<open>Components and dependencies\<close>

record component_identity =
  ci_role :: ustring
  ci_component :: ustring
  ci_version :: ustring
  ci_digest :: ustring

definition make_component :: "component_identity \<Rightarrow> governed_exn + component_identity" where
  "make_component c = guarded
     ([empty_field (ci_role c) ''role'', empty_field (ci_component c) ''component_id'', empty_field (ci_version c) ''version''] @
      digest_field (ci_digest c) ''digest'') c"

definition component_payload :: "component_identity \<Rightarrow> json" where
  "component_payload c = object_of
     [(''component_id'', JStr (ci_component c)), (''digest'', JStr (ci_digest c)), (''role'', JStr (ci_role c)),
      (''version'', JStr (ci_version c))]"

definition component_from_payload :: "json \<Rightarrow> governed_exn + component_identity" where
  "component_from_payload j =
     (case j of
        JObj kvs \<Rightarrow>
          (if \<not> has_fields kvs [''component_id'', ''digest'', ''role'', ''version'']
           then Inl (ContractError ''invalid component identity payload'')
           else invalid_as ''invalid component identity payload''
             (bind_res (payload_text kvs ''role'') (\<lambda>r. bind_res (payload_text kvs ''component_id'') (\<lambda>i.
              bind_res (payload_text kvs ''version'') (\<lambda>v. bind_res (payload_text kvs ''digest'') (\<lambda>d.
                make_component \<lparr>ci_role = r, ci_component = i, ci_version = v, ci_digest = d\<rparr>))))))
      | _ \<Rightarrow> Inl (ContractError ''invalid component identity payload''))"

record dependency_binding =
  db_component :: ustring
  db_dependency :: ustring
  db_digest :: ustring

definition make_dependency :: "dependency_binding \<Rightarrow> governed_exn + dependency_binding" where
  "make_dependency b = guarded
     ([empty_field (db_component b) ''component_role'', empty_field (db_dependency b) ''dependency_role''] @
      digest_field (db_digest b) ''binding_digest'' @
      [(db_component b = db_dependency b, ContractError ''dependency binding cannot self-reference'')]) b"

definition dependency_payload :: "dependency_binding \<Rightarrow> json" where
  "dependency_payload b = object_of
     [(''binding_digest'', JStr (db_digest b)), (''component_role'', JStr (db_component b)),
      (''dependency_role'', JStr (db_dependency b))]"

definition dependency_from_payload :: "json \<Rightarrow> governed_exn + dependency_binding" where
  "dependency_from_payload j =
     (case j of
        JObj kvs \<Rightarrow>
          (if \<not> has_fields kvs [''binding_digest'', ''component_role'', ''dependency_role'']
           then Inl (ContractError ''invalid dependency binding payload'')
           else invalid_as ''invalid dependency binding payload''
             (bind_res (payload_text kvs ''component_role'') (\<lambda>c. bind_res (payload_text kvs ''dependency_role'') (\<lambda>d.
              bind_res (payload_text kvs ''binding_digest'') (\<lambda>b.
                make_dependency \<lparr>db_component = c, db_dependency = d, db_digest = b\<rparr>)))))
      | _ \<Rightarrow> Inl (ContractError ''invalid dependency binding payload''))"

section \<open>Manifests\<close>

record composition_manifest =
  cm_composition :: ustring
  cm_execution :: ustring
  cm_run :: ustring
  cm_runtime :: ustring
  cm_executor :: ustring
  cm_components :: "component_identity list"
  cm_dependencies :: "dependency_binding list"
  cm_policy_digest :: ustring
  cm_invocation_digest :: ustring
  cm_contract :: ustring

definition dependency_key :: "dependency_binding \<Rightarrow> ustring \<times> ustring" where
  "dependency_key b = (db_component b, db_dependency b)"

definition manifest_errors :: "composition_manifest \<Rightarrow> (bool \<times> governed_exn) list" where
  "manifest_errors m =
     [empty_field (cm_composition m) ''composition_id'', empty_field (cm_execution m) ''execution_id'',
      empty_field (cm_run m) ''run_id'', empty_field (cm_runtime m) ''runtime_id'',
      empty_field (cm_executor m) ''executor_identity'', empty_field (cm_contract m) ''contract_version''] @
     digest_field (cm_policy_digest m) ''composition_policy_digest'' @
     digest_field (cm_invocation_digest m) ''invocation_binding_digest'' @
     [(cm_components m = [], ContractError ''component_identities must contain at least one RuntimeComponentIdentity''),
      (\<not> sorted (map ci_role (cm_components m)) \<or> \<not> distinct (map ci_role (cm_components m)),
         ContractError ''component identities must be strictly ordered and role-unique''),
      (\<not> sorted (map dependency_key (cm_dependencies m)) \<or> \<not> distinct (map dependency_key (cm_dependencies m)),
         ContractError ''dependency bindings must be strictly ordered and unique''),
      (list_ex (\<lambda>b. db_component b \<notin> ci_role ` set (cm_components m) \<or> db_dependency b \<notin> ci_role ` set (cm_components m))
         (cm_dependencies m), ContractError ''dependency bindings must reference declared component roles'')]"

definition make_manifest :: "composition_manifest \<Rightarrow> governed_exn + composition_manifest" where
  "make_manifest m = guarded (manifest_errors m) m"

definition manifest_payload :: "composition_manifest \<Rightarrow> json" where
  "manifest_payload m = object_of
     [(''component_identities'', JArr (map component_payload (cm_components m))),
      (''composition_id'', JStr (cm_composition m)),
      (''composition_policy_digest'', JStr (cm_policy_digest m)),
      (''contract_version'', JStr (cm_contract m)),
      (''dependency_bindings'', JArr (map dependency_payload (cm_dependencies m))),
      (''execution_id'', JStr (cm_execution m)),
      (''executor_identity'', JStr (cm_executor m)),
      (''invocation_binding_digest'', JStr (cm_invocation_digest m)),
      (''run_id'', JStr (cm_run m)),
      (''runtime_id'', JStr (cm_runtime m))]"

definition manifest_digest :: "(bytes \<Rightarrow> string) \<Rightarrow> composition_manifest \<Rightarrow> ustring" where
  "manifest_digest sha m = json_digest sha (manifest_payload m)"

definition payload_list :: "(ustring \<times> json) list \<Rightarrow> string \<Rightarrow> governed_exn + json list" where
  "payload_list kvs k = (case obj_get kvs (code_points k) of
      Some (JArr js) \<Rightarrow> Inr js | _ \<Rightarrow> Inl (ContractError ''manifest components and dependencies must be lists''))"

definition manifest_fields :: "string list" where
  "manifest_fields = [''component_identities'', ''composition_id'', ''composition_policy_digest'', ''contract_version'',
     ''dependency_bindings'', ''execution_id'', ''executor_identity'', ''invocation_binding_digest'', ''run_id'', ''runtime_id'']"

definition manifest_from_payload :: "json \<Rightarrow> governed_exn + composition_manifest" where
  "manifest_from_payload j =
     (case j of
        JObj kvs \<Rightarrow>
          (if \<not> has_fields kvs manifest_fields then Inl (ContractError ''runtime composition manifest has unexpected fields'')
           else invalid_as ''invalid runtime composition manifest''
             (bind_res (payload_list kvs ''component_identities'') (\<lambda>cj. bind_res (payload_list kvs ''dependency_bindings'') (\<lambda>dj.
              bind_res (payload_text kvs ''composition_id'') (\<lambda>i. bind_res (payload_text kvs ''execution_id'') (\<lambda>e.
              bind_res (payload_text kvs ''run_id'') (\<lambda>r. bind_res (payload_text kvs ''runtime_id'') (\<lambda>rt.
              bind_res (payload_text kvs ''executor_identity'') (\<lambda>x.
              bind_res (sequence_res component_from_payload cj) (\<lambda>cs.
              bind_res (sequence_res dependency_from_payload dj) (\<lambda>ds.
              bind_res (payload_text kvs ''composition_policy_digest'') (\<lambda>p.
              bind_res (payload_text kvs ''invocation_binding_digest'') (\<lambda>v.
              bind_res (payload_text kvs ''contract_version'') (\<lambda>c.
                make_manifest \<lparr>cm_composition = i, cm_execution = e, cm_run = r, cm_runtime = rt, cm_executor = x,
                  cm_components = cs, cm_dependencies = ds, cm_policy_digest = p, cm_invocation_digest = v,
                  cm_contract = c\<rparr>))))))))))))))
      | _ \<Rightarrow> Inl (ContractError ''runtime composition manifest has unexpected fields''))"

section \<open>Attestations\<close>

record composition_attestation =
  ca_attestation :: ustring
  ca_manifest :: composition_manifest
  ca_occurred :: utc_time
  ca_binding :: ustring

definition composition_binding :: "(bytes \<Rightarrow> string) \<Rightarrow> composition_attestation \<Rightarrow> ustring" where
  "composition_binding sha a = json_digest sha (object_of
     [(''attestation_id'', JStr (ca_attestation a)),
      (''manifest_digest'', JStr (manifest_digest sha (ca_manifest a))),
      (''occurred_at'', JStr (isoformat (ca_occurred a)))])"

definition composition_errors :: "(bytes \<Rightarrow> string) \<Rightarrow> composition_attestation \<Rightarrow> (bool \<times> governed_exn) list" where
  "composition_errors sha a =
     empty_field (ca_attestation a) ''attestation_id'' # digest_field (ca_binding a) ''binding_digest'' @
     [(ca_binding a \<noteq> composition_binding sha a,
         ContractError ''binding_digest does not match canonical composition evidence'')]"

definition make_composition :: "(bytes \<Rightarrow> string) \<Rightarrow> composition_attestation \<Rightarrow> governed_exn + composition_attestation" where
  "make_composition sha a = guarded (composition_errors sha a) a"

definition issue_composition :: "(bytes \<Rightarrow> string) \<Rightarrow> ustring \<Rightarrow> composition_manifest \<Rightarrow> utc_time option
    \<Rightarrow> governed_exn + composition_attestation" where
  "issue_composition sha i m occurred = bind_res (canonical_occurrence occurred) (\<lambda>t.
     make_composition sha \<lparr>ca_attestation = i, ca_manifest = m, ca_occurred = t,
       ca_binding = composition_binding sha \<lparr>ca_attestation = i, ca_manifest = m, ca_occurred = t, ca_binding = []\<rparr>\<rparr>)"

definition composition_payload :: "composition_attestation \<Rightarrow> json" where
  "composition_payload a = object_of
     [(''attestation_id'', JStr (ca_attestation a)),
      (''binding_digest'', JStr (ca_binding a)),
      (''disposition'', JStr (code_points ''attested'')),
      (''manifest'', manifest_payload (ca_manifest a)),
      (''occurred_at'', JStr (isoformat (ca_occurred a)))]"

definition composition_from_payload :: "(bytes \<Rightarrow> string) \<Rightarrow> (ustring \<Rightarrow> instant_text) \<Rightarrow> json
    \<Rightarrow> governed_exn + composition_attestation" where
  "composition_from_payload sha parse j =
     (case j of
        JObj kvs \<Rightarrow>
          (if \<not> has_fields kvs [''attestation_id'', ''binding_digest'', ''disposition'', ''manifest'', ''occurred_at'']
           then Inl (ContractError ''runtime composition attestation has unexpected fields'')
           else invalid_as ''invalid runtime composition attestation''
             (bind_res (bind_res (payload_value kvs ''manifest'') manifest_from_payload) (\<lambda>m.
              bind_res (payload_instant parse kvs ''occurred_at'') (\<lambda>o'.
              bind_res (payload_constant kvs ''disposition'' ''attested'') (\<lambda>_.
              bind_res (bind_res (payload_text kvs ''attestation_id'') (\<lambda>i. guarded [empty_field i ''attestation_id''] i)) (\<lambda>i.
              bind_res (in_utc o') (\<lambda>t.
              bind_res (payload_text kvs ''binding_digest'') (\<lambda>b.
                make_composition sha \<lparr>ca_attestation = i, ca_manifest = m, ca_occurred = t, ca_binding = b\<rparr>))))))))
      | _ \<Rightarrow> Inl (ContractError ''runtime composition attestation has unexpected fields''))"

section \<open>The store\<close>

text \<open>The files of the store: the attestation under its name beside the schema of the store.\<close>

definition composition_files :: "(bytes \<Rightarrow> string) \<Rightarrow> (ustring \<Rightarrow> instant_text) \<Rightarrow> composition_attestation evidence_files" where
  "composition_files sha parse =
     \<lparr>ef_lock = ''.g2_4_11_runtime_composition.lock'', ef_prefix = ''attestation-'', ef_identity = ca_attestation,
      ef_stored = unwrapped ''attestation'' ''g2.4.11'' (composition_from_payload sha parse),
      ef_file = (\<lambda>a. wrapped ''attestation'' ''g2.4.11'' (composition_payload a)), ef_links_first = False\<rparr>"

definition composition_claim :: "(bytes \<Rightarrow> string) \<Rightarrow> (ustring \<Rightarrow> instant_text) \<Rightarrow> store_faults \<Rightarrow> path \<Rightarrow> fs \<Rightarrow> composition_attestation
    \<Rightarrow> fs \<times> (store_exn + composition_attestation evidence_outcome)" where
  "composition_claim sha parse = evidence_claim (composition_files sha parse) sha"

definition composition_read :: "(bytes \<Rightarrow> string) \<Rightarrow> (ustring \<Rightarrow> instant_text) \<Rightarrow> store_faults \<Rightarrow> path \<Rightarrow> fs \<Rightarrow> ustring
    \<Rightarrow> fs \<times> (store_exn + composition_attestation option)" where
  "composition_read sha parse = evidence_read (composition_files sha parse) sha"

section \<open>Valid evidence\<close>

lemma make_component_Inr: "make_component c = Inr c' \<longleftrightarrow> c' = c \<and> \<not> blank_ustring (ci_role c) \<and> \<not> blank_ustring (ci_component c) \<and>
    \<not> blank_ustring (ci_version c) \<and> hex_digest (ci_digest c)"
  using hex_not_blank by (auto simp: make_component_def guarded_Inr_iff empty_field_def digest_field_def)

lemma make_dependency_Inr: "make_dependency b = Inr b' \<longleftrightarrow> b' = b \<and> \<not> blank_ustring (db_component b) \<and>
    \<not> blank_ustring (db_dependency b) \<and> hex_digest (db_digest b) \<and> db_component b \<noteq> db_dependency b"
  using hex_not_blank by (auto simp: make_dependency_def guarded_Inr_iff empty_field_def digest_field_def)

lemma component_from_to: "make_component c = Inr c \<Longrightarrow> component_from_payload (component_payload c) = Inr c"
  by (cases c) (simp add: component_from_payload_def component_payload_def object_of_def form_simps insert_commute)

lemma dependency_from_to: "make_dependency b = Inr b \<Longrightarrow> dependency_from_payload (dependency_payload b) = Inr b"
  by (cases b) (simp add: dependency_from_payload_def dependency_payload_def object_of_def form_simps insert_commute)

text \<open>A manifest of the program has components and dependencies that passed their own constructors.\<close>

definition manifest_valid :: "composition_manifest \<Rightarrow> bool" where
  "manifest_valid m \<longleftrightarrow> make_manifest m = Inr m \<and> (\<forall>c \<in> set (cm_components m). make_component c = Inr c) \<and>
     (\<forall>b \<in> set (cm_dependencies m). make_dependency b = Inr b)"

lemma manifest_eta: "\<lparr>cm_composition = cm_composition m, cm_execution = cm_execution m, cm_run = cm_run m, cm_runtime = cm_runtime m,
    cm_executor = cm_executor m, cm_components = cm_components m, cm_dependencies = cm_dependencies m,
    cm_policy_digest = cm_policy_digest m, cm_invocation_digest = cm_invocation_digest m, cm_contract = cm_contract m\<rparr> = m"
  by (cases m) simp

lemma composition_eta: "\<lparr>ca_attestation = ca_attestation a, ca_manifest = ca_manifest a, ca_occurred = ca_occurred a,
    ca_binding = ca_binding a\<rparr> = a"
  by (cases a) simp

lemma manifest_from_to:
  assumes "manifest_valid m"
  shows "manifest_from_payload (manifest_payload m) = Inr m"
proof -
  have c: "sequence_res component_from_payload (map component_payload (cm_components m)) = Inr (cm_components m)"
    using assms by (intro sequence_res_map) (simp add: manifest_valid_def component_from_to)
  have d: "sequence_res dependency_from_payload (map dependency_payload (cm_dependencies m)) = Inr (cm_dependencies m)"
    using assms by (intro sequence_res_map) (simp add: manifest_valid_def dependency_from_to)
  show ?thesis using assms
    by (simp add: manifest_from_payload_def manifest_payload_def manifest_fields_def object_of_def form_simps insert_commute
        payload_list_def c d manifest_valid_def manifest_eta)
qed

text \<open>The texts of evidence can be written in UTF-8; what the hash and \<open>isoformat\<close> make always can.\<close>

definition manifest_texts_ok :: "composition_manifest \<Rightarrow> bool" where
  "manifest_texts_ok m \<longleftrightarrow>
     list_all ustring_ok [cm_composition m, cm_execution m, cm_run m, cm_runtime m, cm_executor m, cm_contract m] \<and>
     list_all (\<lambda>c. list_all ustring_ok [ci_role c, ci_component c, ci_version c]) (cm_components m) \<and>
     list_all (\<lambda>b. list_all ustring_ok [db_component b, db_dependency b]) (cm_dependencies m)"

definition composition_storable :: "(bytes \<Rightarrow> string) \<Rightarrow> (ustring \<Rightarrow> instant_text) \<Rightarrow> composition_attestation \<Rightarrow> bool" where
  "composition_storable sha parse a \<longleftrightarrow> make_composition sha a = Inr a \<and> manifest_valid (ca_manifest a) \<and>
     ustring_ok (ca_attestation a) \<and> manifest_texts_ok (ca_manifest a) \<and>
     parse (isoformat (ca_occurred a)) = AwareInstant (ca_occurred a)"

lemma make_composition_Inr: "make_composition sha a = Inr a' \<longleftrightarrow> a' = a \<and> \<not> blank_ustring (ca_attestation a) \<and>
    hex_digest (ca_binding a) \<and> ca_binding a = composition_binding sha a"
  using hex_not_blank by (auto simp: make_composition_def composition_errors_def guarded_Inr_iff empty_field_def digest_field_def)

lemma make_manifest_digests:
  "make_manifest m = Inr m' \<Longrightarrow> m' = m \<and> hex_digest (cm_policy_digest m) \<and> hex_digest (cm_invocation_digest m)"
  by (auto simp: make_manifest_def manifest_errors_def guarded_Inr_iff empty_field_def digest_field_def split: if_splits)

lemma composition_from_to:
  assumes "composition_storable sha parse a"
  shows "composition_from_payload sha parse (composition_payload a) = Inr a"
proof -
  have m: "manifest_from_payload (manifest_payload (ca_manifest a)) = Inr (ca_manifest a)"
    and p: "parse (isoformat (ca_occurred a)) = AwareInstant (ca_occurred a)" and v: "make_composition sha a = Inr a"
    using assms manifest_from_to by (auto simp: composition_storable_def)
  then have "\<not> blank_ustring (ca_attestation a)" by (simp add: make_composition_Inr)
  then show ?thesis using v
    by (simp add: composition_from_payload_def composition_payload_def object_of_def form_simps insert_commute m p
        payload_instant_def in_utc_def guarded_def empty_field_def composition_eta)
qed

lemma component_object: "sort_keys (component_payload c) = component_payload c"
  "make_component c = Inr c \<Longrightarrow> list_all ustring_ok [ci_role c, ci_component c, ci_version c] \<Longrightarrow> json_ok (component_payload c)"
  using hex_digest_ok unfolding component_payload_def
  by (intro object_sorted, simp add: code_points_def, simp, auto simp: object_ok make_component_Inr)

lemma dependency_object: "sort_keys (dependency_payload b) = dependency_payload b"
  "make_dependency b = Inr b \<Longrightarrow> list_all ustring_ok [db_component b, db_dependency b] \<Longrightarrow> json_ok (dependency_payload b)"
  using hex_digest_ok unfolding dependency_payload_def
  by (intro object_sorted, simp add: code_points_def, simp, auto simp: object_ok make_dependency_Inr)

lemma manifest_sorted: "sort_keys (manifest_payload m) = manifest_payload m"
  unfolding manifest_payload_def
  by (rule object_sorted) (simp_all add: code_points_def component_object(1) dependency_object(1) comp_def)

lemma manifest_ok: "manifest_valid m \<Longrightarrow> manifest_texts_ok m \<Longrightarrow> json_ok (manifest_payload m)"
  using make_manifest_digests [of m m] hex_digest_ok component_object(2) dependency_object(2)
  by (auto simp: manifest_payload_def object_ok manifest_valid_def manifest_texts_ok_def list_all_iff)

lemma composition_sorted: "sort_keys (composition_payload a) = composition_payload a"
  unfolding composition_payload_def by (rule object_sorted) (simp_all add: code_points_def manifest_sorted)

lemma composition_ok: "composition_storable sha parse a \<Longrightarrow> json_ok (composition_payload a)"
  using manifest_ok hex_digest_ok ustring_ok_points
  by (auto simp: composition_payload_def object_ok composition_storable_def make_composition_Inr isoformat_def)

interpretation composition_store: evidence_store "composition_files sha parse" "composition_storable sha parse"
proof
  fix a assume v: "composition_storable sha parse a"
  have "sort_keys (wrapped ''attestation'' ''g2.4.11'' (composition_payload a)) = wrapped ''attestation'' ''g2.4.11'' (composition_payload a)"
    by (rule wrapped_sorted) (simp_all add: code_points_def composition_sorted)
  then show "ef_stored (composition_files sha parse) (sort_keys (ef_file (composition_files sha parse) a)) = Inr a"
    using composition_from_to [OF v] by (simp add: composition_files_def unwrapped_wrapped)
  show "json_ok (ef_file (composition_files sha parse) a)"
    using composition_ok [OF v] by (simp add: composition_files_def wrapped_ok)
qed (auto simp: composition_files_def evidence_name_def)

end
