(* ===== verification/CompositionGate.thy ===== *)
theory CompositionGate
  imports CompositionEvidence
begin

text \<open>
  The gate of runtime composition evidence (\<open>governed_composition/gate.py\<close>): it records the attestation of a
  manifest once, and checks a presented attestation against the stored one and the manifest at hand.
\<close>

section \<open>The operations\<close>

datatype composition_reason =
    COMPOSITION_MISSING_ATTESTATION | COMPOSITION_ATTESTATION_UNKNOWN | COMPOSITION_ATTESTATION_BINDING_MISMATCH
  | COMPOSITION_STORE_UNAVAILABLE | COMPOSITION_STORE_CORRUPT | COMPOSITION_ID_DUPLICATE | COMPOSITION_ID_CONFLICT

record composition_admission =
  cad_attestation :: "composition_attestation option"
  cad_reason :: "composition_reason option"

definition make_composition_admission :: "composition_admission \<Rightarrow> governed_exn + composition_admission" where
  "make_composition_admission a = guarded
     [(cad_attestation a \<noteq> None \<and> cad_reason a \<noteq> None, ContractError ''attested composition cannot carry a rejection reason''),
      (cad_attestation a = None \<and> cad_reason a = None,
         ContractError ''rejected composition admission requires a typed reason'')] a"

definition composition_rejected :: "composition_reason \<Rightarrow> governed_exn + composition_admission" where
  "composition_rejected w = make_composition_admission \<lparr>cad_attestation = None, cad_reason = Some w\<rparr>"

definition composition_attest :: "(bytes \<Rightarrow> string) \<Rightarrow> (ustring \<Rightarrow> instant_text) \<Rightarrow> store_faults \<Rightarrow> path \<Rightarrow> fs \<Rightarrow> ustring \<Rightarrow>
    composition_manifest \<Rightarrow> utc_time option \<Rightarrow> fs \<times> (governed_exn + composition_admission)" where
  "composition_attest sha parse fl root fs i m occurred =
     (case issue_composition sha i m occurred of
        Inl e \<Rightarrow> (fs, Inl e)
      | Inr a \<Rightarrow>
          (case composition_claim sha parse fl root fs a of
             (fs', Inl (Corrupt _)) \<Rightarrow> (fs', composition_rejected COMPOSITION_STORE_CORRUPT)
           | (fs', Inl (Unavailable _)) \<Rightarrow> (fs', composition_rejected COMPOSITION_STORE_UNAVAILABLE)
           | (fs', Inl e) \<Rightarrow> (fs', Inl (LedgerExn e))
           | (fs', Inr c) \<Rightarrow>
               (fs', (case ec_disposition c of
                   EVIDENCE_CLAIMED \<Rightarrow> make_composition_admission \<lparr>cad_attestation = Some a, cad_reason = None\<rparr>
                 | EVIDENCE_DUPLICATE \<Rightarrow> composition_rejected COMPOSITION_ID_DUPLICATE
                 | EVIDENCE_CONFLICT \<Rightarrow> composition_rejected COMPOSITION_ID_CONFLICT))))"

text \<open>\<open>validate\<close>.\<close>

definition composition_check :: "(bytes \<Rightarrow> string) \<Rightarrow> (ustring \<Rightarrow> instant_text) \<Rightarrow> store_faults \<Rightarrow> path \<Rightarrow> fs \<Rightarrow>
    composition_attestation option \<Rightarrow> composition_manifest \<Rightarrow> fs \<times> (governed_exn + composition_reason option)" where
  "composition_check sha parse fl root fs presented m =
     (case presented of
        None \<Rightarrow> (fs, Inr (Some COMPOSITION_MISSING_ATTESTATION))
      | Some a \<Rightarrow>
          (case composition_read sha parse fl root fs (ca_attestation a) of
             (fs', Inl (Corrupt _)) \<Rightarrow> (fs', Inr (Some COMPOSITION_STORE_CORRUPT))
           | (fs', Inl (Unavailable _)) \<Rightarrow> (fs', Inr (Some COMPOSITION_STORE_UNAVAILABLE))
           | (fs', Inl e) \<Rightarrow> (fs', Inl (LedgerExn e))
           | (fs', Inr None) \<Rightarrow> (fs', Inr (Some COMPOSITION_ATTESTATION_UNKNOWN))
           | (fs', Inr (Some stored)) \<Rightarrow>
               if stored \<noteq> a then (fs', Inr (Some COMPOSITION_ID_CONFLICT))
               else (fs', bind_res (issue_composition sha (ca_attestation a) m (Some (ca_occurred a))) (\<lambda>expected.
                 Inr (if expected \<noteq> a then Some COMPOSITION_ATTESTATION_BINDING_MISMATCH else None)))))"

section \<open>What a check accepts\<close>

lemma issue_composition_Inr:
  "issue_composition sha i m occurred = Inr a \<longleftrightarrow>
     (\<exists>t. occurred = Some t \<and> a = \<lparr>ca_attestation = i, ca_manifest = m, ca_occurred = t, ca_binding = ca_binding a\<rparr> \<and>
        make_composition sha a = Inr a)"
  by (cases a) (auto simp: issue_composition_def canonical_occurrence_def make_composition_Inr composition_binding_def split: option.splits)

lemma issue_again:
  assumes "make_composition sha a = Inr a"
  shows "issue_composition sha (ca_attestation a) m (Some (ca_occurred a)) = Inr a \<longleftrightarrow> m = ca_manifest a"
  using assms by (cases a) (auto simp: issue_composition_Inr)

text \<open>The check accepts an attestation of exactly the manifest at hand, and only the stored one.\<close>

lemma composition_check_accepts:
  assumes "make_composition sha a = Inr a"
  shows "snd (composition_check sha parse fl root fs (Some a) m) = Inr None \<longleftrightarrow>
    snd (composition_read sha parse fl root fs (ca_attestation a)) = Inr (Some a) \<and> m = ca_manifest a"
  using issue_again [OF assms, of m]
  by (cases "composition_read sha parse fl root fs (ca_attestation a)")
    (auto simp: composition_check_def bind_res_Inr_iff split: sum.splits store_exn.splits option.splits)

end
