(* ===== verification/GateBindings.thy ===== *)
theory GateBindings
  imports ApprovalStore ExecutionLedger
begin

text \<open>
  The runtime request and the digests that bind a session to it, and the gate for human approvals
  (\<open>governed_runtime/models.py\<close>, \<open>governed_session/gate.py\<close>, \<open>governed_approval/gate.py\<close>). The approval gate
  and the session gate digest requests in the same way, so each digest is defined once. The state is
  the tree of files.
\<close>

section \<open>State and exceptions\<close>

fun and_then :: "fs \<times> (governed_exn + 'a) \<Rightarrow> (fs \<Rightarrow> 'a \<Rightarrow> fs \<times> (governed_exn + 'b)) \<Rightarrow> fs \<times> (governed_exn + 'b)" where
  "and_then (fs, Inl e) f = (fs, Inl e)"
| "and_then (fs, Inr x) f = f fs x"

section \<open>The runtime request\<close>

record gateway_policy =
  gw_max_attempts :: int
  gw_timeout_ms :: int
  gw_max_total_tokens :: int
  gw_max_estimated_cost :: number
  gw_max_schema_repair_attempts :: int
  gw_allow_fallback :: bool
  gw_redact :: bool

definition make_gateway_policy :: "gateway_policy \<Rightarrow> governed_exn + gateway_policy" where
  "make_gateway_policy p = guarded
     [(gw_max_attempts p < 1, ContractError ''max_attempts must be at least 1''),
      (gw_timeout_ms p < 1, ContractError ''timeout_ms must be positive''),
      (gw_max_total_tokens p < 1, ContractError ''max_total_tokens must be positive''),
      (number_negative (gw_max_estimated_cost p), ContractError ''max_estimated_cost cannot be negative''),
      (gw_max_schema_repair_attempts p < 0, ContractError ''max_schema_repair_attempts cannot be negative'')] p"

text \<open>
  Python compares the policies of two requests field by field, and a cost by its value: \<open>1\<close> and \<open>1.0\<close>
  are equal. A float is known by its \<open>repr\<close>; \<open>float_integer\<close> reads the whole number it stands for, if it
  does: the decimal value of the \<open>repr\<close> (character 46 is the point, 101 the letter e, 45 the minus),
  rounded to the 53 bits of a double. A NaN counts as equal to itself, as when both policies hold the same object.
\<close>

definition digits_value :: "ustring \<Rightarrow> nat" where
  "digits_value = foldl (\<lambda>n c. 10 * n + (c - 48)) 0"

fun bit_count :: "nat \<Rightarrow> nat" where
  "bit_count n = (if n = 0 then 0 else Suc (bit_count (n div 2)))"

lemmas [simp del] = bit_count.simps

lemma bit_count_numeral [simp]:
  "bit_count 0 = 0" "bit_count (Suc 0) = 1" "bit_count (numeral k) = Suc (bit_count (numeral k div 2))"
  by (simp_all add: bit_count.simps)

definition nearest_double :: "nat \<Rightarrow> nat" where
  "nearest_double n =
     (let u = 2 ^ (bit_count n - 53); q = n div u; r = n mod u
      in if u < 2 * r \<or> (2 * r = u \<and> odd q) then (q + 1) * u else q * u)"

definition float_integer :: "ustring \<Rightarrow> int option" where
  "float_integer text =
     (let negative = take 1 text = [45]; body = (if negative then tl text else text);
          mantissa = takeWhile (\<lambda>c. c \<noteq> 101) body; exponent = drop (Suc (length mantissa)) body;
          whole = takeWhile (\<lambda>c. c \<noteq> 46) mantissa; frac = drop (Suc (length whole)) mantissa;
          m = digits_value (whole @ frac); e = digits_value (drop 1 exponent);
          up = (if take 1 exponent = [45] then 0 else e);
          down = length frac + (if take 1 exponent = [45] then e else 0); n = m * 10 ^ up
      in if body = code_points ''inf'' \<or> body = code_points ''nan'' \<or> n mod 10 ^ down \<noteq> 0 then None
         else let v = int (nearest_double (n div 10 ^ down)) in Some (if negative then - v else v))"

fun number_eq :: "number \<Rightarrow> number \<Rightarrow> bool" where
  "number_eq (NInt i) (NInt j) \<longleftrightarrow> i = j"
| "number_eq (NInt i) (NFloat s) \<longleftrightarrow> float_integer s = Some i"
| "number_eq (NFloat r) (NInt j) \<longleftrightarrow> float_integer r = Some j"
| "number_eq (NFloat r) (NFloat s) \<longleftrightarrow> r = s \<or> float_integer r = Some 0 \<and> float_integer s = Some 0"

definition gateway_policy_eq :: "gateway_policy \<Rightarrow> gateway_policy \<Rightarrow> bool" where
  "gateway_policy_eq p q \<longleftrightarrow> gw_max_attempts p = gw_max_attempts q \<and> gw_timeout_ms p = gw_timeout_ms q \<and>
     gw_max_total_tokens p = gw_max_total_tokens q \<and> number_eq (gw_max_estimated_cost p) (gw_max_estimated_cost q) \<and>
     gw_max_schema_repair_attempts p = gw_max_schema_repair_attempts q \<and> gw_allow_fallback p = gw_allow_fallback q \<and>
     gw_redact p = gw_redact q"

lemma number_eq_sym: "number_eq a b \<longleftrightarrow> number_eq b a"
  by (cases a; cases b) auto

lemma gateway_policy_eq_refl: "gateway_policy_eq p p"
  by (cases "gw_max_estimated_cost p") (simp_all add: gateway_policy_eq_def)

lemmas cost_simps = float_integer_def digits_value_def nearest_double_def code_points_def Let_def

lemma cost_of_one_float: "number_eq (NInt 1) (NFloat (code_points ''1.0''))"
  by (simp add: cost_simps)

lemma cost_of_half: "\<not> number_eq (NInt 1) (NFloat (code_points ''1.5''))"
  by (simp add: cost_simps)

lemma zero_costs: "number_eq (NFloat (code_points ''-0.0'')) (NFloat (code_points ''0.0''))"
  by (simp add: cost_simps)

lemma cost_exponents: "number_eq (NInt 150000000000000000) (NFloat (code_points ''1.5e+17''))"
  "\<not> number_eq (NInt (10 ^ 23)) (NFloat (code_points ''1e+23''))"
  by (simp_all add: cost_simps)

record preservation =
  requirement_id :: ustring
  required_prefix :: ustring

definition make_preservation :: "preservation \<Rightarrow> governed_exn + preservation" where
  "make_preservation p = guarded
     [(blank_ustring (requirement_id p), ContractError ''preservation requirement_id cannot be empty''),
      (required_prefix p = [], ContractError ''preservation required_prefix cannot be empty'')] p"

record intent_policy =
  ip_capability :: ustring
  ip_operations :: "ustring list"
  ip_max_content_bytes :: int
  ip_preservation :: "preservation list"
  ip_schema :: ustring

definition make_intent_policy :: "intent_policy \<Rightarrow> governed_exn + intent_policy" where
  "make_intent_policy p = guarded
     [(blank_ustring (ip_capability p), ContractError ''mutation capability_id cannot be empty''),
      (ip_operations p = [] \<or> list_ex blank_ustring (ip_operations p), ContractError ''allowed_operations cannot be empty''),
      (\<not> distinct (ip_operations p), ContractError ''allowed_operations must be unique''),
      (ip_max_content_bytes p \<le> 0, ContractError ''max_content_bytes must be positive''),
      (\<not> distinct (map requirement_id (ip_preservation p)), ContractError ''preservation requirement IDs must be unique''),
      (ip_schema p \<noteq> code_points ''1.0'', ContractError ''unsupported mutation-intent schema version'')] p"

text \<open>A recovery rule is its \<open>repr\<close>.\<close>

record runtime_request =
  rr_goal :: ustring
  rr_workspace :: path
  rr_repository :: path
  rr_capabilities :: "ustring list"
  rr_intent :: intent_policy
  rr_constraints :: "ustring list"
  rr_recovery_rules :: "ustring list"
  rr_execution :: ustring
  rr_run :: ustring
  rr_budget :: execution_budget
  rr_gateway :: gateway_policy
  rr_contract :: ustring

definition make_runtime_request :: "fs \<Rightarrow> runtime_request \<Rightarrow> governed_exn + runtime_request" where
  "make_runtime_request fs r = guarded
     [(blank_ustring (rr_goal r), ContractError ''goal cannot be empty''),
      (blank_ustring (rr_execution r), ContractError ''execution_id cannot be empty''),
      (blank_ustring (rr_run r), ContractError ''run_id cannot be empty''),
      (resolve fs (rr_workspace r) \<noteq> resolve fs (rr_repository r),
         ContractError ''workspace_root and repository_path must resolve to the same root''),
      (rr_capabilities r = [] \<or> list_ex blank_ustring (rr_capabilities r), ContractError ''available_capability_ids cannot be empty''),
      (\<not> distinct (rr_capabilities r), ContractError ''available_capability_ids must be unique''),
      (ip_capability (rr_intent r) \<notin> set (rr_capabilities r), ContractError ''mutation capability must be allowlisted''),
      (max_iterations (rr_budget r) \<noteq> 2 \<or> max_mutations (rr_budget r) \<noteq> 2 \<or> max_verifications (rr_budget r) \<noteq> 2,
         ContractError ''G2.4.4 requires two iteration, mutation, and verification capacities''),
      (gw_max_attempts (rr_gateway r) \<noteq> 1 \<or> gw_allow_fallback (rr_gateway r) \<or> gw_max_schema_repair_attempts (rr_gateway r) \<noteq> 0,
         ContractError ''G2.4.4 requires one attempt, no fallback, and no schema repair''),
      (rr_contract r \<noteq> code_points ''1.0'', ContractError ''unsupported governed runtime contract version'')] r"

section \<open>Bindings\<close>

text \<open>\<open>str\<close> of an absolute path.\<close>

definition path_text :: "path \<Rightarrow> ustring" where
  "path_text p = (if p = [] then code_points ''/'' else code_points (concat (map (\<lambda>c. ''/'' @ c) p)))"

definition observer_identity :: "observer \<Rightarrow> ustring" where
  "observer_identity ob = observer_class ob @ code_points '':'' @ code_points (show_nat (observer_id ob))"

definition runtime_policy_payload :: "gateway_policy \<Rightarrow> json" where
  "runtime_policy_payload p = limits_payload (gw_allow_fallback p) (gw_max_attempts p) (gw_max_estimated_cost p)
     (gw_max_schema_repair_attempts p) (gw_max_total_tokens p) (gw_timeout_ms p)"

definition runtime_policy_digest :: "(bytes \<Rightarrow> string) \<Rightarrow> gateway_policy \<Rightarrow> ustring" where
  "runtime_policy_digest sha p = json_digest sha (runtime_policy_payload p)"

definition receipt_payload :: "activation_receipt \<Rightarrow> json" where
  "receipt_payload r = JObj
     [(code_points ''activation_id'', JStr (activation_id (act_decision r))),
      (code_points ''disposition'', JStr (code_points (activation_disposition_value (act_disposition (act_decision r))))),
      (code_points ''execution_id'', JStr (act_execution (act_decision r))),
      (code_points ''policy_digest'', JStr (policy_digest r)),
      (code_points ''reason'', (case act_reason (act_decision r) of None \<Rightarrow> JNull
         | Some w \<Rightarrow> JStr (code_points (activation_reason_value w))))]"

definition receipt_digest :: "(bytes \<Rightarrow> string) \<Rightarrow> activation_receipt \<Rightarrow> ustring" where
  "receipt_digest sha r = json_digest sha (receipt_payload r)"

definition isolation_digest :: "(bytes \<Rightarrow> string) \<Rightarrow> fs \<Rightarrow> activation_request \<Rightarrow> governed_exn + ustring" where
  "isolation_digest sha fs q =
     (let i = req_isolation q in
      case (iso_workspace i, iso_audit i, iso_source i) of
        (Some w, Some a, Some s) \<Rightarrow> Inr (json_digest sha (JObj
           [(code_points ''audit_root'', JStr (path_text (resolve fs a))),
            (code_points ''execution_id'', JStr (iso_execution i)),
            (code_points ''source_repository_root'', JStr (path_text (resolve fs s))),
            (code_points ''workspace_root'', JStr (path_text (resolve fs w)))]))
      | _ \<Rightarrow> Inl AssertionFailure)"

fun fingerprints :: "(bytes \<Rightarrow> string) \<Rightarrow> preservation list \<Rightarrow> governed_exn + json list" where
  "fingerprints sha [] = Inr []"
| "fingerprints sha (p # ps) =
     bind_res (text_digest sha (required_prefix p)) (\<lambda>d. bind_res (fingerprints sha ps) (\<lambda>js.
       Inr (JArr [JStr (requirement_id p), JStr d] # js)))"

fun joined_lines :: "ustring list \<Rightarrow> ustring" where
  "joined_lines [] = []"
| "joined_lines [s] = s"
| "joined_lines (s # ss) = s @ [10] @ joined_lines ss"

definition request_payload :: "(bytes \<Rightarrow> string) \<Rightarrow> fs \<Rightarrow> runtime_request \<Rightarrow> ustring \<Rightarrow> ustring \<Rightarrow> json list \<Rightarrow> json" where
  "request_payload sha fs r gd cd prints = JObj
     [(code_points ''available_capability_ids'', JArr (map JStr (rr_capabilities r))),
      (code_points ''budget'', JObj
         [(code_points ''max_iterations'', JInt (max_iterations (rr_budget r))),
          (code_points ''max_mutations'', JInt (max_mutations (rr_budget r))),
          (code_points ''max_verifications'', JInt (max_verifications (rr_budget r)))]),
      (code_points ''contract_version'', JStr (rr_contract r)),
      (code_points ''execution_id'', JStr (rr_execution r)),
      (code_points ''goal_digest'', JStr gd),
      (code_points ''known_constraints_digest'', JStr cd),
      (code_points ''mutation_intent_policy'', JObj
         [(code_points ''allowed_operations'', JArr (map JStr (ip_operations (rr_intent r)))),
          (code_points ''capability_id'', JStr (ip_capability (rr_intent r))),
          (code_points ''max_content_bytes'', JInt (ip_max_content_bytes (rr_intent r))),
          (code_points ''preservation_requirements'', JArr prints),
          (code_points ''schema_version'', JStr (ip_schema (rr_intent r)))]),
      (code_points ''provider_policy_digest'', JStr (runtime_policy_digest sha (rr_gateway r))),
      (code_points ''recovery_rule_representations'', JArr (map JStr (rr_recovery_rules r))),
      (code_points ''repository_path'', JStr (path_text (resolve fs (rr_repository r)))),
      (code_points ''run_id'', JStr (rr_run r)),
      (code_points ''workspace_root'', JStr (path_text (resolve fs (rr_workspace r))))]"

definition runtime_request_digest :: "(bytes \<Rightarrow> string) \<Rightarrow> fs \<Rightarrow> runtime_request \<Rightarrow> governed_exn + ustring" where
  "runtime_request_digest sha fs r =
     bind_res (text_digest sha (rr_goal r)) (\<lambda>gd.
     bind_res (text_digest sha (joined_lines (rr_constraints r))) (\<lambda>cd.
     bind_res (fingerprints sha (ip_preservation (rr_intent r))) (\<lambda>prints.
       Inr (json_digest sha (request_payload sha fs r gd cd prints)))))"

section \<open>The approval gate\<close>

datatype approval_reason =
    MISSING_APPROVAL | APPROVAL_DENIED | APPROVAL_UNKNOWN | APPROVAL_BINDING_MISMATCH
  | APPROVAL_STORE_UNAVAILABLE | APPROVAL_STORE_CORRUPT | APPROVAL_ID_DUPLICATE | APPROVAL_ID_CONFLICT

record approval_admission =
  admitted_receipt :: "approval_receipt option"
  admission_reason :: "approval_reason option"

definition make_approval_admission :: "approval_admission \<Rightarrow> governed_exn + approval_admission" where
  "make_approval_admission a = guarded
     [(admitted_receipt a \<noteq> None \<and> admission_reason a \<noteq> None,
         ContractError ''recorded approval cannot carry a rejection reason''),
      (admitted_receipt a = None \<and> admission_reason a = None,
         ContractError ''rejected approval admission requires a typed reason'')] a"

definition approval_rejected :: "approval_reason \<Rightarrow> governed_exn + approval_admission" where
  "approval_rejected w = make_approval_admission \<lparr>admitted_receipt = None, admission_reason = Some w\<rparr>"

text \<open>A control root in one of the roots of the execution.\<close>

definition in_execution_roots :: "fs \<Rightarrow> path \<Rightarrow> path \<Rightarrow> path \<Rightarrow> path \<Rightarrow> bool" where
  "in_execution_roots fs root w s a \<longleftrightarrow> list_ex (\<lambda>r. inside (resolve fs r) (resolve fs root)) [w, s, a]"

definition store_isolation_rejection :: "fs \<Rightarrow> path \<Rightarrow> activation_request \<Rightarrow> approval_reason option" where
  "store_isolation_rejection fs root q =
     (case (iso_workspace (req_isolation q), iso_source (req_isolation q), iso_audit (req_isolation q)) of
        (Some w, Some s, Some a) \<Rightarrow> if in_execution_roots fs root w s a then Some APPROVAL_BINDING_MISMATCH else None
      | _ \<Rightarrow> Some APPROVAL_BINDING_MISMATCH)"

text \<open>What an approval, or a session, is bound to.\<close>

record runtime_availability =
  runtime_id :: ustring
  available :: bool

definition make_availability :: "runtime_availability \<Rightarrow> governed_exn + runtime_availability" where
  "make_availability a = guarded [(blank_ustring (runtime_id a), ContractError ''runtime_id cannot be empty'')] a"

definition receipt_for :: "(bytes \<Rightarrow> string) \<Rightarrow> fs \<Rightarrow> ustring \<Rightarrow> ustring \<Rightarrow> utc_time option \<Rightarrow> approval_disposition \<Rightarrow>
    activation_receipt \<Rightarrow> activation_request \<Rightarrow> runtime_request \<Rightarrow> observer \<Rightarrow> runtime_availability \<Rightarrow> governed_exn + approval_receipt" where
  "receipt_for sha fs i who occurred d rcpt q r ob av =
     bind_res (runtime_request_digest sha fs r) (\<lambda>rd. bind_res (isolation_digest sha fs q) (\<lambda>iso.
       issue sha occurred
         \<lparr>approval_id = i, approver_identity = who, ap_occurred_at = the occurred, ap_disposition = d,
          ap_activation_id = activation_id (act_decision rcpt), ap_receipt_digest = receipt_digest sha rcpt,
          ap_execution_id = rr_execution r, ap_run_id = rr_run r, ap_request_digest = rd,
          ap_policy_digest = policy_digest rcpt, ap_isolation_digest = iso, ap_observer_identity = observer_identity ob,
          ap_runtime_id = runtime_id av, ap_binding_digest = []\<rparr>))"

record gate_env =
  ge_sha :: "bytes \<Rightarrow> string"
  ge_parse :: "ustring \<Rightarrow> utc_time option"
  ge_approvals :: path
  ge_ledger :: path

definition record_approval :: "gate_env \<Rightarrow> store_faults \<Rightarrow> fs \<Rightarrow> ustring \<Rightarrow> ustring \<Rightarrow> utc_time option \<Rightarrow> approval_disposition \<Rightarrow>
    activation_receipt \<Rightarrow> activation_request \<Rightarrow> runtime_request \<Rightarrow> observer \<Rightarrow> runtime_availability \<Rightarrow>
    fs \<times> (governed_exn + approval_admission)" where
  "record_approval E fl fs i who occurred d rcpt q r ob av =
     (case store_isolation_rejection fs (ge_approvals E) q of
        Some w \<Rightarrow> (fs, approval_rejected w)
      | None \<Rightarrow>
          and_then (fs, receipt_for (ge_sha E) fs i who occurred d rcpt q r ob av) (\<lambda>fs a.
            case claim_approval (ge_sha E) (ge_parse E) fl (ge_approvals E) fs a of
              (fs', Inl (Corrupt _)) \<Rightarrow> (fs', approval_rejected APPROVAL_STORE_CORRUPT)
            | (fs', Inl (Unavailable _)) \<Rightarrow> (fs', approval_rejected APPROVAL_STORE_UNAVAILABLE)
            | (fs', Inl e) \<Rightarrow> (fs', Inl (LedgerExn e))
            | (fs', Inr c) \<Rightarrow>
                (fs', (case ac_disposition c of
                    APPROVAL_CLAIMED \<Rightarrow> make_approval_admission \<lparr>admitted_receipt = Some a, admission_reason = None\<rparr>
                  | APPROVAL_DUPLICATE \<Rightarrow> approval_rejected APPROVAL_ID_DUPLICATE
                  | APPROVAL_CONFLICT \<Rightarrow> approval_rejected APPROVAL_ID_CONFLICT))))"

text \<open>\<open>validate_for_session\<close>.\<close>

definition validate_approval :: "gate_env \<Rightarrow> store_faults \<Rightarrow> fs \<Rightarrow> approval_receipt option \<Rightarrow> activation_receipt \<Rightarrow>
    activation_request \<Rightarrow> runtime_request \<Rightarrow> observer \<Rightarrow> runtime_availability \<Rightarrow> fs \<times> (governed_exn + approval_reason option)" where
  "validate_approval E fl fs presented rcpt q r ob av =
     (case presented of
        None \<Rightarrow> (fs, Inr (Some MISSING_APPROVAL))
      | Some a \<Rightarrow>
          (case store_isolation_rejection fs (ge_approvals E) q of
             Some w \<Rightarrow> (fs, Inr (Some w))
           | None \<Rightarrow>
               (case read_approval (ge_sha E) (ge_parse E) fl (ge_approvals E) fs (approval_id a) of
                  (fs', Inl (Corrupt _)) \<Rightarrow> (fs', Inr (Some APPROVAL_STORE_CORRUPT))
                | (fs', Inl (Unavailable _)) \<Rightarrow> (fs', Inr (Some APPROVAL_STORE_UNAVAILABLE))
                | (fs', Inl e) \<Rightarrow> (fs', Inl (LedgerExn e))
                | (fs', Inr None) \<Rightarrow> (fs', Inr (Some APPROVAL_UNKNOWN))
                | (fs', Inr (Some stored)) \<Rightarrow>
                    if stored \<noteq> a then (fs', Inr (Some APPROVAL_ID_CONFLICT))
                    else and_then (fs', receipt_for (ge_sha E) fs' (approval_id a) (approver_identity a) (Some (ap_occurred_at a))
                        (ap_disposition a) rcpt q r ob av) (\<lambda>fs' expected.
                      (fs', Inr (if expected \<noteq> a then Some APPROVAL_BINDING_MISMATCH
                         else if ap_disposition a = DENIED then Some APPROVAL_DENIED else None))))))"

end
