(* ===== verification/CustodyEvidence.thy ===== *)
theory CustodyEvidence
  imports EvidenceStore GateBindings
begin

text \<open>
  Workspace custody evidence (\<open>governed_workspace/models.py\<close>, \<open>store.py\<close>): a request declares four roots; an
  attestation states the identities, as directories and as paths, that were observed for them, bound to
  the request by digests; a root binding ties one open descriptor to an attestation. The store of
  attestations is an instance of the evidence store.

  Roots are absolute paths. The schema versions and the one disposition are constants of the payloads.
\<close>

text \<open>Some instant, where one is needed before the time is known.\<close>

definition epoch :: utc_time where
  "epoch = \<lparr>t_year = 1970, t_month = 1, t_day = 1, t_hour = 0, t_minute = 0, t_second = 0, t_micro = 0\<rparr>"

section \<open>Requests\<close>

record custody_policy =
  cp_existing_roots :: bool
  cp_empty_workspace :: bool
  cp_no_links :: bool

definition default_custody_policy :: custody_policy where
  "default_custody_policy = \<lparr>cp_existing_roots = True, cp_empty_workspace = True, cp_no_links = True\<rparr>"

definition policy_object :: "custody_policy \<Rightarrow> json" where
  "policy_object p = object_of
     [(''forbid_root_symlinks'', JBool (cp_no_links p)), (''require_empty_workspace'', JBool (cp_empty_workspace p)),
      (''require_existing_roots'', JBool (cp_existing_roots p))]"

record custody_request =
  cu_attestation :: ustring
  cu_execution :: ustring
  cu_run :: ustring
  cu_workspace_id :: ustring
  cu_workspace :: path
  cu_source :: path
  cu_audit :: path
  cu_control :: path
  cu_policy :: custody_policy
  cu_request_id :: ustring

text \<open>The constructor; the identity of the request is optional, and an empty one is none.\<close>

definition custody_request_id_for :: "ustring option \<Rightarrow> ustring \<Rightarrow> ustring" where
  "custody_request_id_for given i = (case given of Some s \<Rightarrow> if s = [] then i @ code_points '':request'' else s
     | None \<Rightarrow> i @ code_points '':request'')"

definition make_custody_request :: "ustring option \<Rightarrow> custody_request \<Rightarrow> governed_exn + custody_request" where
  "make_custody_request given q =
     (let i = custody_request_id_for given (cu_attestation q)
      in guarded
        [empty_field (cu_attestation q) ''attestation_id'', empty_field (cu_execution q) ''execution_id'',
         empty_field (cu_run q) ''run_id'', empty_field (cu_workspace_id q) ''workspace_id'',
         empty_field i ''custody_request_id''] (q\<lparr>cu_request_id := i\<rparr>))"

definition custody_request_payload :: "custody_request \<Rightarrow> json" where
  "custody_request_payload q = object_of
     [(''attestation_id'', JStr (cu_attestation q)), (''audit_root'', JStr (path_text (cu_audit q))),
      (''control_root'', JStr (path_text (cu_control q))), (''custody_request_id'', JStr (cu_request_id q)),
      (''execution_id'', JStr (cu_execution q)), (''policy'', policy_object (cu_policy q)), (''run_id'', JStr (cu_run q)),
      (''schema_version'', JStr (code_points ''g2.4.10-custody-request.v2'')),
      (''source_repository_root'', JStr (path_text (cu_source q))), (''workspace_id'', JStr (cu_workspace_id q)),
      (''workspace_root'', JStr (path_text (cu_workspace q)))]"

definition custody_request_digest :: "(bytes \<Rightarrow> string) \<Rightarrow> custody_request \<Rightarrow> ustring" where
  "custody_request_digest sha q = json_digest sha (custody_request_payload q)"

text \<open>\<open>root_identity\<close>: the hash of the declared path.\<close>

definition declared_identity :: "(bytes \<Rightarrow> string) \<Rightarrow> path \<Rightarrow> ustring" where
  "declared_identity sha p = code_points (sha (encode_text (path_text p)))"

section \<open>Identities of directories\<close>

text \<open>The zeros of the scripts that have decimal digits, each followed by the other nine (\<open>str.isdecimal\<close>).\<close>

definition decimal_zeros :: "nat list" where
  "decimal_zeros = [48, 1632, 1776, 1984, 2406, 2534, 2662, 2790, 2918, 3046, 3174, 3302, 3430, 3558, 3664, 3792, 3872, 4160,
     4240, 6112, 6160, 6470, 6608, 6784, 6800, 6992, 7088, 7232, 7248, 42528, 43216, 43264, 43472, 43504, 43600, 44016, 65296,
     66720, 68912, 69734, 69872, 69942, 70096, 70384, 70736, 70864, 71248, 71360, 71472, 71904, 72016, 72784, 73040, 73120,
     73552, 92768, 92864, 93008, 120782, 120792, 120802, 120812, 120822, 123200, 123632, 124144, 125264, 130032]"

definition decimal_point :: "nat \<Rightarrow> bool" where
  "decimal_point c \<longleftrightarrow> list_ex (\<lambda>z. z \<le> c \<and> c \<le> z + 9) decimal_zeros"

text \<open>A decimal text that \<open>int\<close> converts: the interpreter refuses more than 4300 digits.\<close>

definition decimal_text :: "ustring \<Rightarrow> bool" where
  "decimal_text s \<longleftrightarrow> s \<noteq> [] \<and> list_all decimal_point s \<and> length s \<le> 4300"

record object_identity =
  oi_device :: ustring
  oi_inode :: ustring

definition make_object_identity :: "object_identity \<Rightarrow> governed_exn + object_identity" where
  "make_object_identity o' = guarded
     [(\<not> decimal_text (oi_device o'), ContractError ''device_id must be a non-negative decimal string''),
      (\<not> decimal_text (oi_inode o'), ContractError ''inode must be a non-negative decimal string'')] o'"

definition object_identity_payload :: "object_identity \<Rightarrow> json" where
  "object_identity_payload o' = object_of
     [(''device_id'', JStr (oi_device o')), (''inode'', JStr (oi_inode o')),
      (''schema_version'', JStr (code_points ''g2.4.10-filesystem-object-identity.v1''))]"

definition object_digest :: "(bytes \<Rightarrow> string) \<Rightarrow> object_identity \<Rightarrow> ustring" where
  "object_digest sha o' = json_digest sha (object_identity_payload o')"

definition object_identity_from_payload :: "json \<Rightarrow> governed_exn + object_identity" where
  "object_identity_from_payload j =
     (case j of
        JObj kvs \<Rightarrow>
          (if \<not> has_fields kvs [''device_id'', ''inode'', ''schema_version'']
           then Inl (ContractError ''invalid filesystem object identity payload'')
           else bind_res (payload_text kvs ''device_id'') (\<lambda>d. bind_res (payload_text kvs ''inode'') (\<lambda>i.
             bind_res (payload_constant kvs ''schema_version'' ''g2.4.10-filesystem-object-identity.v1'') (\<lambda>_.
               make_object_identity \<lparr>oi_device = d, oi_inode = i\<rparr>))))
      | _ \<Rightarrow> Inl (ContractError ''invalid filesystem object identity payload''))"

text \<open>\<open>from_descriptor\<close>: the numbers \<open>fstat\<close> reports.\<close>

definition observed_identity :: "64 word \<times> 64 word \<Rightarrow> governed_exn + object_identity" where
  "observed_identity dn = make_object_identity
     \<lparr>oi_device = code_points (show_nat (unat (fst dn))), oi_inode = code_points (show_nat (unat (snd dn)))\<rparr>"

section \<open>Attestations\<close>

definition isolation_binding :: "(bytes \<Rightarrow> string) \<Rightarrow> ustring \<Rightarrow> ustring \<Rightarrow> ustring \<Rightarrow> ustring \<Rightarrow> ustring \<Rightarrow> ustring \<Rightarrow> ustring
    \<Rightarrow> governed_exn + ustring" where
  "isolation_binding sha execution run workspace_id workspace source audit control = guarded
     (digest_field audit ''audit_root_identity'' @ digest_field control ''control_root_identity'' @
      [empty_field execution ''execution_id'', empty_field run ''run_id''] @
      digest_field source ''source_repository_identity'' @ [empty_field workspace_id ''workspace_id''] @
      digest_field workspace ''workspace_root_identity'')
     (json_digest sha (object_of
       [(''audit_root_identity'', JStr audit), (''control_root_identity'', JStr control), (''execution_id'', JStr execution),
        (''run_id'', JStr run), (''source_repository_identity'', JStr source), (''workspace_id'', JStr workspace_id),
        (''workspace_root_identity'', JStr workspace)]))"

record custody_attestation =
  wa_attestation :: ustring
  wa_request_id :: ustring
  wa_request_digest :: ustring
  wa_execution :: ustring
  wa_run :: ustring
  wa_workspace_id :: ustring
  wa_workspace_path :: ustring
  wa_source_path :: ustring
  wa_audit_path :: ustring
  wa_control_path :: ustring
  wa_workspace :: object_identity
  wa_source :: object_identity
  wa_audit :: object_identity
  wa_control :: object_identity
  wa_policy_digest :: ustring
  wa_isolation_digest :: ustring
  wa_occurred :: utc_time
  wa_binding :: ustring

definition custody_fields :: "custody_attestation \<Rightarrow> (string \<times> json) list" where
  "custody_fields a =
     [(''attestation_id'', JStr (wa_attestation a)), (''audit_root_identity'', JStr (wa_audit_path a)),
      (''audit_root_object_identity'', object_identity_payload (wa_audit a)),
      (''control_root_identity'', JStr (wa_control_path a)),
      (''control_root_object_identity'', object_identity_payload (wa_control a)),
      (''custody_policy_digest'', JStr (wa_policy_digest a)), (''custody_request_digest'', JStr (wa_request_digest a)),
      (''custody_request_id'', JStr (wa_request_id a)), (''execution_id'', JStr (wa_execution a)),
      (''isolation_binding_digest'', JStr (wa_isolation_digest a)), (''occurred_at'', JStr (isoformat (wa_occurred a))),
      (''run_id'', JStr (wa_run a)), (''schema_version'', JStr (code_points ''g2.4.10-custody-attestation.v2'')),
      (''source_repository_identity'', JStr (wa_source_path a)),
      (''source_repository_object_identity'', object_identity_payload (wa_source a)),
      (''workspace_id'', JStr (wa_workspace_id a)),
      (''workspace_object_identity'', object_identity_payload (wa_workspace a)),
      (''workspace_root_identity'', JStr (wa_workspace_path a))]"

definition custody_binding :: "(bytes \<Rightarrow> string) \<Rightarrow> custody_attestation \<Rightarrow> ustring" where
  "custody_binding sha a = json_digest sha (object_of (custody_fields a))"

text \<open>The constructor: the texts and digests, and then the binding.\<close>

definition custody_field_errors :: "custody_attestation \<Rightarrow> (bool \<times> governed_exn) list" where
  "custody_field_errors a =
     [empty_field (wa_attestation a) ''attestation_id'', empty_field (wa_request_id a) ''custody_request_id'',
      empty_field (wa_execution a) ''execution_id'', empty_field (wa_run a) ''run_id'',
      empty_field (wa_workspace_id a) ''workspace_id''] @
     digest_field (wa_request_digest a) ''custody_request_digest'' @
     digest_field (wa_workspace_path a) ''workspace_root_identity'' @
     digest_field (wa_source_path a) ''source_repository_identity'' @
     digest_field (wa_audit_path a) ''audit_root_identity'' @
     digest_field (wa_control_path a) ''control_root_identity'' @
     digest_field (wa_policy_digest a) ''custody_policy_digest'' @
     digest_field (wa_isolation_digest a) ''isolation_binding_digest'' @
     digest_field (wa_binding a) ''binding_digest''"

definition make_custody :: "(bytes \<Rightarrow> string) \<Rightarrow> custody_attestation \<Rightarrow> governed_exn + custody_attestation" where
  "make_custody sha a = guarded
     (custody_field_errors a @
      [(wa_binding a \<noteq> custody_binding sha a, ContractError ''binding_digest does not match canonical custody evidence'')]) a"

text \<open>\<open>issue_from_observations\<close>.\<close>

definition observed_custody :: "(bytes \<Rightarrow> string) \<Rightarrow> custody_request \<Rightarrow> object_identity \<Rightarrow> object_identity \<Rightarrow> object_identity \<Rightarrow>
    object_identity \<Rightarrow> ustring \<Rightarrow> utc_time \<Rightarrow> custody_attestation" where
  "observed_custody sha q workspace source audit control isolation t =
     (let a = \<lparr>wa_attestation = cu_attestation q, wa_request_id = cu_request_id q,
         wa_request_digest = custody_request_digest sha q, wa_execution = cu_execution q, wa_run = cu_run q,
         wa_workspace_id = cu_workspace_id q, wa_workspace_path = declared_identity sha (cu_workspace q),
         wa_source_path = declared_identity sha (cu_source q), wa_audit_path = declared_identity sha (cu_audit q),
         wa_control_path = declared_identity sha (cu_control q), wa_workspace = workspace, wa_source = source,
         wa_audit = audit, wa_control = control, wa_policy_digest = json_digest sha (policy_object (cu_policy q)),
         wa_isolation_digest = isolation, wa_occurred = t, wa_binding = []\<rparr>
      in a\<lparr>wa_binding := custody_binding sha a\<rparr>)"

definition request_isolation :: "(bytes \<Rightarrow> string) \<Rightarrow> custody_request \<Rightarrow> governed_exn + ustring" where
  "request_isolation sha q = isolation_binding sha (cu_execution q) (cu_run q) (cu_workspace_id q)
     (declared_identity sha (cu_workspace q)) (declared_identity sha (cu_source q)) (declared_identity sha (cu_audit q))
     (declared_identity sha (cu_control q))"

definition issue_custody :: "(bytes \<Rightarrow> string) \<Rightarrow> custody_request \<Rightarrow> object_identity \<Rightarrow> object_identity \<Rightarrow> object_identity \<Rightarrow>
    object_identity \<Rightarrow> utc_time option \<Rightarrow> governed_exn + custody_attestation" where
  "issue_custody sha q workspace source audit control occurred =
     bind_res (canonical_occurrence occurred) (\<lambda>t. bind_res (request_isolation sha q) (\<lambda>isolation.
       make_custody sha (observed_custody sha q workspace source audit control isolation t)))"

text \<open>The stored payload adds the digest and the disposition; its keys are sorted when it is written.\<close>

definition custody_payload :: "custody_attestation \<Rightarrow> json" where
  "custody_payload a = object_of
     (take 3 (custody_fields a) @ [(''binding_digest'', JStr (wa_binding a))] @ take 5 (drop 3 (custody_fields a)) @
      [(''disposition'', JStr (code_points ''attested''))] @ drop 8 (custody_fields a))"

definition custody_required_fields :: "string list" where
  "custody_required_fields = [''attestation_id'', ''audit_root_identity'', ''audit_root_object_identity'', ''binding_digest'',
     ''control_root_identity'', ''control_root_object_identity'', ''custody_policy_digest'', ''custody_request_digest'',
     ''custody_request_id'', ''disposition'', ''execution_id'', ''isolation_binding_digest'', ''occurred_at'', ''run_id'',
     ''schema_version'', ''source_repository_identity'', ''source_repository_object_identity'', ''workspace_id'',
     ''workspace_root_identity'', ''workspace_object_identity'']"

definition payload_object :: "(ustring \<times> json) list \<Rightarrow> string \<Rightarrow> governed_exn + object_identity" where
  "payload_object kvs k = bind_res (payload_value kvs k) object_identity_from_payload"

text \<open>
  \<open>from_payload\<close>: the objects, the time and the constants are read before the constructor looks at the
  texts; it converts the time after them and compares the binding last.
\<close>

definition custody_of_fields :: "(bytes \<Rightarrow> string) \<Rightarrow> (ustring \<Rightarrow> instant_text) \<Rightarrow> (ustring \<times> json) list
    \<Rightarrow> governed_exn + custody_attestation" where
  "custody_of_fields sha parse kvs =
     bind_res (payload_object kvs ''workspace_object_identity'') (\<lambda>ow.
     bind_res (payload_object kvs ''source_repository_object_identity'') (\<lambda>os.
     bind_res (payload_object kvs ''audit_root_object_identity'') (\<lambda>oa.
     bind_res (payload_object kvs ''control_root_object_identity'') (\<lambda>oc.
     bind_res (payload_instant parse kvs ''occurred_at'') (\<lambda>o'.
     bind_res (payload_constant kvs ''disposition'' ''attested'') (\<lambda>_.
     bind_res (payload_text kvs ''attestation_id'') (\<lambda>ai. bind_res (payload_text kvs ''custody_request_id'') (\<lambda>qi.
     bind_res (payload_text kvs ''execution_id'') (\<lambda>ex. bind_res (payload_text kvs ''run_id'') (\<lambda>run.
     bind_res (payload_text kvs ''workspace_id'') (\<lambda>wi. bind_res (payload_text kvs ''custody_request_digest'') (\<lambda>qd.
     bind_res (payload_text kvs ''workspace_root_identity'') (\<lambda>pw. bind_res (payload_text kvs ''source_repository_identity'') (\<lambda>ps.
     bind_res (payload_text kvs ''audit_root_identity'') (\<lambda>pa. bind_res (payload_text kvs ''control_root_identity'') (\<lambda>pc.
     bind_res (payload_text kvs ''custody_policy_digest'') (\<lambda>pd. bind_res (payload_text kvs ''isolation_binding_digest'') (\<lambda>iso.
     bind_res (payload_text kvs ''binding_digest'') (\<lambda>bd.
       let a = (\<lambda>t. \<lparr>wa_attestation = ai, wa_request_id = qi, wa_request_digest = qd, wa_execution = ex, wa_run = run,
           wa_workspace_id = wi, wa_workspace_path = pw, wa_source_path = ps, wa_audit_path = pa, wa_control_path = pc,
           wa_workspace = ow, wa_source = os, wa_audit = oa, wa_control = oc, wa_policy_digest = pd,
           wa_isolation_digest = iso, wa_occurred = t, wa_binding = bd\<rparr>)
       in bind_res (guarded (custody_field_errors (a epoch)) ()) (\<lambda>_.
          bind_res (in_utc o') (\<lambda>t.
          bind_res (payload_constant kvs ''schema_version'' ''g2.4.10-custody-attestation.v2'') (\<lambda>_.
            make_custody sha (a t)))))))))))))))))))))))"

definition custody_from_payload :: "(bytes \<Rightarrow> string) \<Rightarrow> (ustring \<Rightarrow> instant_text) \<Rightarrow> json \<Rightarrow> governed_exn + custody_attestation" where
  "custody_from_payload sha parse j =
     (case j of
        JObj kvs \<Rightarrow>
          (if \<not> has_fields kvs custody_required_fields
           then Inl (ContractError ''workspace custody payload has unexpected fields'')
           else invalid_as ''invalid workspace custody payload'' (custody_of_fields sha parse kvs))
      | _ \<Rightarrow> Inl (ContractError ''workspace custody payload must be an object''))"

section \<open>The store\<close>

definition custody_files :: "(bytes \<Rightarrow> string) \<Rightarrow> (ustring \<Rightarrow> instant_text) \<Rightarrow> custody_attestation evidence_files" where
  "custody_files sha parse =
     \<lparr>ef_lock = ''.g2_4_10_workspace_custody.lock'', ef_prefix = ''attestation-'', ef_identity = wa_attestation,
      ef_stored = unwrapped ''attestation'' ''g2.4.10'' (custody_from_payload sha parse),
      ef_file = (\<lambda>a. wrapped ''attestation'' ''g2.4.10'' (custody_payload a)), ef_links_first = False\<rparr>"

definition custody_claim :: "(bytes \<Rightarrow> string) \<Rightarrow> (ustring \<Rightarrow> instant_text) \<Rightarrow> store_faults \<Rightarrow> path \<Rightarrow> fs \<Rightarrow> custody_attestation
    \<Rightarrow> fs \<times> (store_exn + custody_attestation evidence_outcome)" where
  "custody_claim sha parse = evidence_claim (custody_files sha parse) sha"

definition custody_read :: "(bytes \<Rightarrow> string) \<Rightarrow> (ustring \<Rightarrow> instant_text) \<Rightarrow> store_faults \<Rightarrow> path \<Rightarrow> fs \<Rightarrow> ustring
    \<Rightarrow> fs \<times> (store_exn + custody_attestation option)" where
  "custody_read sha parse = evidence_read (custody_files sha parse) sha"

section \<open>Root bindings\<close>

record root_binding =
  rb_id :: ustring
  rb_request_id :: ustring
  rb_request_digest :: ustring
  rb_attestation :: ustring
  rb_attestation_digest :: ustring
  rb_object :: object_identity
  rb_profile :: ustring
  rb_capability_digest :: ustring
  rb_acquired :: utc_time
  rb_binding :: ustring

definition handoff_profile :: ustring where
  "handoff_profile = code_points ''g2.4.10-descriptor-handoff-posix.v1''"

definition root_binding_digest :: "(bytes \<Rightarrow> string) \<Rightarrow> root_binding \<Rightarrow> ustring" where
  "root_binding_digest sha b = json_digest sha (object_of
     [(''acquired_at'', JStr (isoformat (rb_acquired b))), (''binding_id'', JStr (rb_id b)),
      (''containment_capability_digest'', JStr (rb_capability_digest b)),
      (''containment_capability_profile'', JStr (rb_profile b)),
      (''custody_attestation_binding_digest'', JStr (rb_attestation_digest b)),
      (''custody_attestation_id'', JStr (rb_attestation b)), (''custody_request_digest'', JStr (rb_request_digest b)),
      (''custody_request_id'', JStr (rb_request_id b)),
      (''schema_version'', JStr (code_points ''g2.4.10-custody-root-binding.v1'')),
      (''workspace_object_identity'', object_identity_payload (rb_object b))])"

definition make_root_binding :: "(bytes \<Rightarrow> string) \<Rightarrow> root_binding \<Rightarrow> governed_exn + root_binding" where
  "make_root_binding sha b = guarded
     ([empty_field (rb_id b) ''binding_id'', empty_field (rb_request_id b) ''custody_request_id'',
       empty_field (rb_attestation b) ''custody_attestation_id'', empty_field (rb_profile b) ''containment_capability_profile''] @
      digest_field (rb_request_digest b) ''custody_request_digest'' @
      digest_field (rb_attestation_digest b) ''custody_attestation_binding_digest'' @
      digest_field (rb_capability_digest b) ''containment_capability_digest'' @
      digest_field (rb_binding b) ''binding_digest'' @
      [(rb_binding b \<noteq> root_binding_digest sha b,
          ContractError ''binding_digest does not match canonical custody root binding'')]) b"

definition issue_root_binding :: "(bytes \<Rightarrow> string) \<Rightarrow> custody_request \<Rightarrow> custody_attestation \<Rightarrow> object_identity \<Rightarrow> ustring \<Rightarrow>
    utc_time option \<Rightarrow> governed_exn + root_binding" where
  "issue_root_binding sha q a o' capability acquired =
     bind_res (canonical_occurrence acquired) (\<lambda>t. bind_res (guarded (digest_field capability ''capability_digest'') ()) (\<lambda>_.
       let b = \<lparr>rb_id = wa_attestation a @ code_points '':root-binding'', rb_request_id = cu_request_id q,
           rb_request_digest = custody_request_digest sha q, rb_attestation = wa_attestation a,
           rb_attestation_digest = wa_binding a, rb_object = o', rb_profile = handoff_profile,
           rb_capability_digest = capability, rb_acquired = t, rb_binding = []\<rparr>
       in make_root_binding sha (b\<lparr>rb_binding := root_binding_digest sha b\<rparr>)))"

section \<open>Evidence survives the file\<close>

lemma make_object_identity_Inr:
  "make_object_identity o' = Inr x \<longleftrightarrow> x = o' \<and> decimal_text (oi_device o') \<and> decimal_text (oi_inode o')"
  by (auto simp: make_object_identity_def guarded_Inr_iff)

lemma decimal_text_ok: "decimal_text s \<Longrightarrow> ustring_ok s"
proof -
  assume h: "decimal_text s"
  have "decimal_point c \<Longrightarrow> point_ok c" for c
    by (auto simp: decimal_point_def decimal_zeros_def point_ok_def)
  then show ?thesis using h by (auto simp: decimal_text_def ustring_ok_def list_all_iff)
qed

lemma object_identity_eta: "\<lparr>oi_device = oi_device o', oi_inode = oi_inode o'\<rparr> = o'"
  by (cases o') simp

lemma object_identity_from_to:
  "make_object_identity o' = Inr o' \<Longrightarrow> object_identity_from_payload (object_identity_payload o') = Inr o'"
  by (simp add: object_identity_from_payload_def object_identity_payload_def object_of_def form_simps insert_commute
      guarded_def object_identity_eta)

lemma object_identity_object: "sort_keys (object_identity_payload o') = object_identity_payload o'"
  "make_object_identity o' = Inr o' \<Longrightarrow> json_ok (object_identity_payload o')"
  using decimal_text_ok ustring_ok_points unfolding object_identity_payload_def
  by (intro object_sorted, simp add: code_points_def, simp, auto simp: object_ok make_object_identity_Inr)

lemma custody_field_errors_None: "first_error (custody_field_errors a) = None \<longleftrightarrow>
    \<not> blank_ustring (wa_attestation a) \<and> \<not> blank_ustring (wa_request_id a) \<and> \<not> blank_ustring (wa_execution a) \<and>
    \<not> blank_ustring (wa_run a) \<and> \<not> blank_ustring (wa_workspace_id a) \<and> hex_digest (wa_request_digest a) \<and>
    hex_digest (wa_workspace_path a) \<and> hex_digest (wa_source_path a) \<and> hex_digest (wa_audit_path a) \<and>
    hex_digest (wa_control_path a) \<and> hex_digest (wa_policy_digest a) \<and> hex_digest (wa_isolation_digest a) \<and>
    hex_digest (wa_binding a)"
  using hex_not_blank by (auto simp: custody_field_errors_def empty_field_def digest_field_def)

lemma make_custody_Inr: "make_custody sha a = Inr a' \<longleftrightarrow> a' = a \<and> first_error (custody_field_errors a) = None \<and>
    wa_binding a = custody_binding sha a"
  by (auto simp: make_custody_def guarded_Inr_iff first_error_append split: option.splits)

definition custody_objects_ok :: "custody_attestation \<Rightarrow> bool" where
  "custody_objects_ok a \<longleftrightarrow> (\<forall>o' \<in> {wa_workspace a, wa_source a, wa_audit a, wa_control a}. make_object_identity o' = Inr o')"

definition custody_storable :: "(bytes \<Rightarrow> string) \<Rightarrow> (ustring \<Rightarrow> instant_text) \<Rightarrow> custody_attestation \<Rightarrow> bool" where
  "custody_storable sha parse a \<longleftrightarrow> make_custody sha a = Inr a \<and> custody_objects_ok a \<and>
     list_all ustring_ok [wa_attestation a, wa_request_id a, wa_execution a, wa_run a, wa_workspace_id a] \<and>
     parse (isoformat (wa_occurred a)) = AwareInstant (wa_occurred a)"

lemma custody_eta: "\<lparr>wa_attestation = wa_attestation a, wa_request_id = wa_request_id a, wa_request_digest = wa_request_digest a,
    wa_execution = wa_execution a, wa_run = wa_run a, wa_workspace_id = wa_workspace_id a, wa_workspace_path = wa_workspace_path a,
    wa_source_path = wa_source_path a, wa_audit_path = wa_audit_path a, wa_control_path = wa_control_path a,
    wa_workspace = wa_workspace a, wa_source = wa_source a, wa_audit = wa_audit a, wa_control = wa_control a,
    wa_policy_digest = wa_policy_digest a, wa_isolation_digest = wa_isolation_digest a, wa_occurred = t,
    wa_binding = wa_binding a\<rparr> = a\<lparr>wa_occurred := t\<rparr>"
  by (cases a) simp

lemma custody_from_to:
  assumes "custody_storable sha parse a"
  shows "custody_from_payload sha parse (custody_payload a) = Inr a"
proof -
  have v: "make_custody sha a = Inr a" and p: "parse (isoformat (wa_occurred a)) = AwareInstant (wa_occurred a)"
    and o': "\<And>o'. o' \<in> {wa_workspace a, wa_source a, wa_audit a, wa_control a} \<Longrightarrow> object_identity_from_payload (object_identity_payload o') = Inr o'"
    using assms object_identity_from_to by (auto simp: custody_storable_def custody_objects_ok_def)
  have "first_error (custody_field_errors (a\<lparr>wa_occurred := epoch\<rparr>)) = None"
    using v [unfolded make_custody_Inr, THEN conjunct2, THEN conjunct1] by (simp add: custody_field_errors_None)
  then show ?thesis using v
    by (simp add: custody_from_payload_def custody_of_fields_def custody_payload_def custody_fields_def custody_required_fields_def
        object_of_def form_simps payload_object_def payload_instant_def in_utc_def o' p Let_def guarded_def custody_eta insert_commute)
qed

lemma custody_fields_ok:
  assumes "custody_storable sha parse a"
  shows "list_all (json_ok \<circ> snd) (custody_fields a)" and "ustring_ok (wa_binding a)"
proof -
  have h: "ustring_ok s" if "s \<in> {wa_request_digest a, wa_workspace_path a, wa_source_path a, wa_audit_path a, wa_control_path a,
      wa_policy_digest a, wa_isolation_digest a, wa_binding a}" for s
    using assms that hex_digest_ok unfolding custody_storable_def make_custody_Inr custody_field_errors_None by blast
  then show "ustring_ok (wa_binding a)" by simp
  have o': "json_ok (object_identity_payload o')" if "o' \<in> {wa_workspace a, wa_source a, wa_audit a, wa_control a}" for o'
    using assms that object_identity_object(2) by (auto simp: custody_storable_def custody_objects_ok_def)
  show "list_all (json_ok \<circ> snd) (custody_fields a)"
    using assms h o' ustring_ok_points by (simp add: custody_fields_def custody_storable_def isoformat_def)
qed

lemma custody_sorted: "sort_keys (custody_payload a) = custody_payload a"
  unfolding custody_payload_def custody_fields_def
  by (rule object_sorted) (simp_all add: code_points_def object_identity_object(1))

lemma custody_ok: "custody_storable sha parse a \<Longrightarrow> json_ok (custody_payload a)"
  using custody_fields_ok [of sha parse a] ustring_ok_points
  by (auto simp: custody_payload_def object_ok list_all_iff dest: in_set_takeD in_set_dropD)

interpretation custody_store: evidence_store "custody_files sha parse" "custody_storable sha parse"
proof
  fix a assume v: "custody_storable sha parse a"
  have "sort_keys (wrapped ''attestation'' ''g2.4.10'' (custody_payload a)) = wrapped ''attestation'' ''g2.4.10'' (custody_payload a)"
    by (rule wrapped_sorted) (simp_all add: code_points_def custody_sorted)
  then show "ef_stored (custody_files sha parse) (sort_keys (ef_file (custody_files sha parse) a)) = Inr a"
    using custody_from_to [OF v] by (simp add: custody_files_def unwrapped_wrapped)
  show "json_ok (ef_file (custody_files sha parse) a)"
    using custody_ok [OF v] by (simp add: custody_files_def wrapped_ok)
qed (auto simp: custody_files_def evidence_name_def)

section \<open>What is issued\<close>

lemma show_nat_length: "0 < k \<Longrightarrow> n < 10 ^ k \<Longrightarrow> length (show_nat n) \<le> k"
proof (induction k arbitrary: n)
  case (Suc k)
  show ?case
  proof (cases "n < 10")
    case False
    then have "0 < k" "n div 10 < 10 ^ k" using Suc.prems by (cases k; auto)+
    then show ?thesis using Suc.IH [of "n div 10"] False by (subst show_nat.simps) simp
  qed (subst show_nat.simps, simp)
qed simp

lemma observed_identity_ok: "\<exists>o'. observed_identity dn = Inr o' \<and> make_object_identity o' = Inr o'"
proof -
  have "decimal_text (code_points (show_nat (unat w)))" for w :: "64 word"
  proof -
    have "list_all digit (code_points (show_nat (unat w))) \<and> code_points (show_nat (unat w)) \<noteq> []"
      using show_nat_digits [of "unat w"] by blast
    moreover have "digit c \<Longrightarrow> decimal_point c" for c by (auto simp: digit_def decimal_point_def decimal_zeros_def)
    moreover have "length (show_nat (unat w)) \<le> 20"
      using unsigned_less [where 'a = nat, of w] by (intro show_nat_length) simp_all
    ultimately show ?thesis by (auto simp: decimal_text_def list_all_iff code_points_def)
  qed
  then show ?thesis by (simp add: observed_identity_def make_object_identity_Inr)
qed

text \<open>With a hash that makes digests and a request that was validated, issuing succeeds.\<close>

definition request_valid :: "custody_request \<Rightarrow> bool" where
  "request_valid q \<longleftrightarrow> \<not> blank_ustring (cu_attestation q) \<and> \<not> blank_ustring (cu_execution q) \<and> \<not> blank_ustring (cu_run q) \<and>
     \<not> blank_ustring (cu_workspace_id q) \<and> \<not> blank_ustring (cu_request_id q)"

lemma make_custody_request_valid: "make_custody_request given q0 = Inr q \<Longrightarrow> request_valid q"
  by (auto simp: make_custody_request_def Let_def guarded_Inr_iff empty_field_def request_valid_def split: if_splits)

lemma issue_custody_value:
  assumes "hex_hash sha" and "request_valid q"
  obtains iso where "request_isolation sha q = Inr iso"
    and "issue_custody sha q w s a c (Some t) = Inr (observed_custody sha q w s a c iso t)"
proof -
  have d: "hex_digest (declared_identity sha p)" "hex_digest (json_digest sha j)" for p j
    using hex_hash_text [OF assms(1)] json_digest_hex [OF assms(1)] by (simp_all add: declared_identity_def)
  note hd = d hex_not_blank [OF d(1)] hex_not_blank [OF d(2)]
  have "\<exists>iso. request_isolation sha q = Inr iso \<and> hex_digest iso"
    using assms(2) hd by (simp add: request_isolation_def isolation_binding_def guarded_def digest_field_def empty_field_def
        request_valid_def)
  then obtain iso where iso: "request_isolation sha q = Inr iso" "hex_digest iso" by blast
  have "make_custody sha (observed_custody sha q w s a c iso t) = Inr (observed_custody sha q w s a c iso t)"
    using assms(2) hd iso(2) by (simp add: make_custody_Inr custody_field_errors_None observed_custody_def Let_def request_valid_def
        custody_request_digest_def custody_binding_def custody_fields_def)
  then show thesis using that [OF iso(1)] iso(1) by (simp add: issue_custody_def canonical_occurrence_def)
qed

end
