(* ===== verification/CustodyHandle.thy ===== *)
theory CustodyHandle
  imports CustodyEvidence
begin

text \<open>
  The live handle of a custody handoff (\<open>WorkspaceCustodyRootHandle\<close> in \<open>governed_workspace/models.py\<close>): it holds one
  open descriptor, belongs to the process and thread that made it, and gives the descriptor once, to a
  consumer that shows the same root binding, unless it was closed. Only handles in the registry of issued
  handles can be used.

  Every operation runs under the lock of the handle, so it is one step. A handle is known by its place in
  the list of all handles of the process.
\<close>

section \<open>The handle\<close>

datatype custody_reason =
    INVALID_ISOLATION | UNSAFE_ROOT | NONEMPTY_WORKSPACE | CUSTODY_MISSING_ATTESTATION | CUSTODY_ATTESTATION_UNKNOWN
  | CUSTODY_ATTESTATION_BINDING_MISMATCH | CUSTODY_STORE_UNAVAILABLE | CUSTODY_STORE_CORRUPT | CUSTODY_ID_DUPLICATE
  | CUSTODY_ID_CONFLICT | HANDOFF_CAPABILITY_UNSUPPORTED | HANDLE_ALREADY_CONSUMED | HANDLE_CLOSED
  | HANDLE_BINDING_MISMATCH | HANDLE_CONTEXT_MISMATCH | CUSTODY_CONTINUITY_BROKEN

type_synonym thread_context = "nat \<times> nat"

record 'd root_handle =
  rh_descriptor :: 'd
  rh_binding :: ustring
  rh_context :: thread_context
  rh_transitioning :: bool
  rh_consumed :: bool
  rh_closed :: bool

text \<open>The constructor refuses whoever does not have the private token of the module.\<close>

definition make_handle :: "bool \<Rightarrow> thread_context \<Rightarrow> 'd \<Rightarrow> ustring \<Rightarrow> custody_reason + 'd root_handle" where
  "make_handle token c d b = guarded [(\<not> token, CUSTODY_CONTINUITY_BROKEN)]
     \<lparr>rh_descriptor = d, rh_binding = b, rh_context = c, rh_transitioning = False, rh_consumed = False, rh_closed = False\<rparr>"

definition consume_handle :: "bool \<Rightarrow> thread_context \<Rightarrow> ustring \<Rightarrow> 'd root_handle \<Rightarrow> 'd root_handle \<times> (custody_reason + 'd)" where
  "consume_handle issued c b h =
     (if rh_closed h then (h, Inl HANDLE_CLOSED)
      else if \<not> issued then (h, Inl CUSTODY_CONTINUITY_BROKEN)
      else if rh_consumed h \<or> rh_transitioning h then (h, Inl HANDLE_ALREADY_CONSUMED)
      else if c \<noteq> rh_context h then (h, Inl HANDLE_CONTEXT_MISMATCH)
      else if b \<noteq> rh_binding h then (h\<lparr>rh_transitioning := False\<rparr>, Inl HANDLE_BINDING_MISMATCH)
      else (h\<lparr>rh_consumed := True, rh_transitioning := False\<rparr>, Inr (rh_descriptor h)))"

text \<open>Closing, and whether the descriptor was closed and the handle left the registry by it.\<close>

definition close_handle :: "'d root_handle \<Rightarrow> 'd root_handle \<times> (custody_reason + bool)" where
  "close_handle h =
     (if rh_closed h then (h, Inr False)
      else if rh_transitioning h then (h, Inl HANDLE_ALREADY_CONSUMED)
      else (h\<lparr>rh_closed := True\<rparr>, Inr True))"

definition enter_handle :: "'d root_handle \<Rightarrow> custody_reason + 'd root_handle" where
  "enter_handle h = guarded [(rh_closed h, HANDLE_CLOSED)] h"

section \<open>The handles of a process\<close>

record 'd handle_world =
  hw_handles :: "'d root_handle list"
  hw_issued :: "nat set"

definition no_handles :: "'d handle_world" where
  "no_handles = \<lparr>hw_handles = [], hw_issued = {}\<rparr>"

text \<open>\<open>_issue_workspace_custody_root_handle\<close>: the new handle is the next one.\<close>

definition issue_handle :: "thread_context \<Rightarrow> 'd \<Rightarrow> ustring \<Rightarrow> 'd handle_world \<Rightarrow> 'd handle_world \<times> nat" where
  "issue_handle c d b w =
     (case make_handle True c d b of
        Inl _ \<Rightarrow> (w, length (hw_handles w))
      | Inr h \<Rightarrow> (w\<lparr>hw_handles := hw_handles w @ [h], hw_issued := insert (length (hw_handles w)) (hw_issued w)\<rparr>,
          length (hw_handles w)))"

definition consume_for_construction :: "thread_context \<Rightarrow> nat \<Rightarrow> ustring \<Rightarrow> 'd handle_world \<Rightarrow> 'd handle_world \<times> (custody_reason + 'd)" where
  "consume_for_construction c i b w =
     (case consume_handle (i \<in> hw_issued w) c b (hw_handles w ! i) of
        (h, res) \<Rightarrow> (w\<lparr>hw_handles := (hw_handles w)[i := h]\<rparr>, res))"

definition close_root :: "nat \<Rightarrow> 'd handle_world \<Rightarrow> 'd handle_world \<times> (custody_reason + bool)" where
  "close_root i w =
     (case close_handle (hw_handles w ! i) of
        (h, res) \<Rightarrow> (w\<lparr>hw_handles := (hw_handles w)[i := h],
          hw_issued := (if res = Inr True then hw_issued w - {i} else hw_issued w)\<rparr>, res))"

text \<open>What happens to handles; an event about a handle that is not there cannot happen.\<close>

datatype 'd handle_event = Issued thread_context 'd ustring | Consumed thread_context nat ustring | Closed nat

fun handle_step :: "'d handle_world \<Rightarrow> 'd handle_event \<Rightarrow> 'd handle_world \<times> (nat \<times> 'd) list" where
  "handle_step w (Issued c d b) = (fst (issue_handle c d b w), [])"
| "handle_step w (Consumed c i b) =
     (if i < length (hw_handles w)
      then (case consume_for_construction c i b w of (w', Inr d) \<Rightarrow> (w', [(i, d)]) | (w', Inl _) \<Rightarrow> (w', [])) else (w, []))"
| "handle_step w (Closed i) = (if i < length (hw_handles w) then (fst (close_root i w), []) else (w, []))"

fun handle_run :: "'d handle_world \<Rightarrow> 'd handle_event list \<Rightarrow> 'd handle_world \<times> (nat \<times> 'd) list" where
  "handle_run w [] = (w, [])"
| "handle_run w (e # es) =
     (case handle_step w e of (w', out) \<Rightarrow> case handle_run w' es of (w'', out') \<Rightarrow> (w'', out @ out'))"

text \<open>A handle that gave its descriptor, or was closed, is spent, and stays so.\<close>

definition handle_spent :: "'d handle_world \<Rightarrow> nat \<Rightarrow> bool" where
  "handle_spent w i \<longleftrightarrow> i < length (hw_handles w) \<and> (rh_consumed (hw_handles w ! i) \<or> rh_closed (hw_handles w ! i))"

section \<open>Facts\<close>

lemma issue_handle_world:
  "fst (issue_handle c d b w) = w\<lparr>hw_handles := hw_handles w @ [\<lparr>rh_descriptor = d, rh_binding = b, rh_context = c,
     rh_transitioning = False, rh_consumed = False, rh_closed = False\<rparr>], hw_issued := insert (length (hw_handles w)) (hw_issued w)\<rparr>"
  "snd (issue_handle c d b w) = length (hw_handles w)"
  by (simp_all add: issue_handle_def make_handle_def guarded_def)

text \<open>A consumption that gives the descriptor; every other one changes nothing that matters.\<close>

lemma consume_given:
  assumes "consume_for_construction c i b w = (w', Inr d)" and "i < length (hw_handles w)"
  shows "\<not> handle_spent w i" and "i \<in> hw_issued w" and "c = rh_context (hw_handles w ! i)" and "b = rh_binding (hw_handles w ! i)"
    and "d = rh_descriptor (hw_handles w ! i)" and "handle_spent w' i"
  using assms by (auto simp: consume_for_construction_def consume_handle_def handle_spent_def split: if_splits)

lemma step_gives:
  assumes "x \<in> set (snd (handle_step w e))"
  obtains c b where "e = Consumed c (fst x) b" and "fst x < length (hw_handles w)"
    and "consume_for_construction c (fst x) b w = (fst (handle_step w e), Inr (snd x))" and "snd (handle_step w e) = [x]"
  using assms by (cases e) (auto split: if_splits prod.splits sum.splits)

text \<open>A step that gives a descriptor gives that of a handle that was not spent, and spends it.\<close>

lemma step_gives_fresh:
  assumes "x \<in> set (snd (handle_step w e))"
  shows "\<not> handle_spent w (fst x)" and "handle_spent (fst (handle_step w e)) (fst x)" and "snd (handle_step w e) = [x]"
proof -
  obtain c b where g: "fst x < length (hw_handles w)" "snd (handle_step w e) = [x]"
      "consume_for_construction c (fst x) b w = (fst (handle_step w e), Inr (snd x))"
    using assms by (rule step_gives)
  show "\<not> handle_spent w (fst x)" "handle_spent (fst (handle_step w e)) (fst x)"
    using consume_given(1) [OF g(3,1)] consume_given(6) [OF g(3,1)] by simp_all
  show "snd (handle_step w e) = [x]" by (rule g(2))
qed

lemma step_spent: "handle_spent w i \<Longrightarrow> handle_spent (fst (handle_step w e)) i"
  by (cases e) (auto simp: issue_handle_world consume_for_construction_def consume_handle_def close_root_def close_handle_def
      handle_spent_def nth_append nth_list_update)

lemma run_append:
  "handle_run w (es @ fs) = (case handle_run w es of (w', out) \<Rightarrow> case handle_run w' fs of (w'', out') \<Rightarrow> (w'', out @ out'))"
  by (induction es arbitrary: w) (auto split: prod.splits)

lemma run_Cons:
  "handle_run w (e # es) =
     (fst (handle_run (fst (handle_step w e)) es), snd (handle_step w e) @ snd (handle_run (fst (handle_step w e)) es))"
  by (simp add: split_beta)

lemma run_spent: "handle_spent w i \<Longrightarrow> handle_spent (fst (handle_run w es)) i \<and> i \<notin> fst ` set (snd (handle_run w es))"
proof (induction es arbitrary: w)
  case (Cons e es)
  have "i \<notin> fst ` set (snd (handle_step w e))"
    using Cons.prems step_gives_fresh(1) [of _ w e] by auto
  then show ?case using Cons.IH [OF step_spent [OF Cons.prems, of e]] by (simp only: run_Cons fst_conv snd_conv set_append image_Un Un_iff simp_thms)
qed simp

lemma run_distinct: "distinct (map fst (snd (handle_run w es)))"
proof (induction es arbitrary: w)
  case (Cons e es)
  show ?case
  proof (cases "snd (handle_step w e)")
    case Nil
    then show ?thesis using Cons.IH [of "fst (handle_step w e)"] by (auto split: prod.splits)
  next
    case c: (Cons x xs)
    then have "x \<in> set (snd (handle_step w e))" by simp
    note f = step_gives_fresh [OF this]
    show ?thesis using Cons.IH [of "fst (handle_step w e)"] run_spent [OF f(2), of es] f(3)
      by (simp only: run_Cons snd_conv map_append distinct_append list.map distinct.simps list.set) auto
  qed
qed simp

end
