(* ===== verification/CustodyGate.thy ===== *)
theory CustodyGate
  imports CustodyHandle
begin

text \<open>
  The gate of workspace custody (\<open>governed_workspace/gate.py\<close>): it opens the four declared roots without following
  a link in their last component, checks through the open descriptors that they are four directories none
  of which lies in another and that the workspace is empty, and issues evidence of what it observed; or it
  keeps the descriptor of the workspace for one handoff.

  A descriptor of a directory is the place of that directory in the tree, which does not move during a
  call. What \<open>fstat\<close> reports of a directory and the names \<open>scandir\<close> lists are parameters; opening, listing
  and going to the parent can fail. Every call also says which of the descriptors it opened are still
  open when it ends, apart from those it returns.
\<close>

section \<open>Descriptors\<close>

record custody_env =
  ce_sha :: "bytes \<Rightarrow> string"
  ce_parse :: "ustring \<Rightarrow> instant_text"
  ce_store :: path
  ce_capable :: bool
  ce_probe :: bool
  ce_object :: "fs \<Rightarrow> path \<Rightarrow> 64 word \<times> 64 word"
  ce_listing :: "fs \<Rightarrow> path \<Rightarrow> string list"

record custody_faults =
  cf_open :: "path \<Rightarrow> bool"
  cf_scan :: bool
  cf_parent :: "path \<Rightarrow> bool"
  cf_store :: store_faults

datatype root_name = WORKSPACE | SOURCE | AUDIT | CONTROL

type_synonym descriptors = "(root_name \<times> path) list"

definition declared_roots :: "custody_request \<Rightarrow> (root_name \<times> path) list" where
  "declared_roots q = [(WORKSPACE, cu_workspace q), (SOURCE, cu_source q), (AUDIT, cu_audit q), (CONTROL, cu_control q)]"

text \<open>\<open>os.open\<close> of a directory, without following the last component.\<close>

definition open_root :: "custody_faults \<Rightarrow> fs \<Rightarrow> path \<Rightarrow> path option" where
  "open_root fl fs p =
     (let d = (if p = [] then [] else place fs p) in if cf_open fl p \<or> fs d \<noteq> Some Dir then None else Some d)"

fun open_declared_roots :: "custody_faults \<Rightarrow> fs \<Rightarrow> (root_name \<times> path) list \<Rightarrow> descriptors option" where
  "open_declared_roots fl fs [] = Some []"
| "open_declared_roots fl fs ((n, p) # rs) =
     (case open_root fl fs p of
        None \<Rightarrow> None
      | Some d \<Rightarrow> map_option ((#) (n, d)) (open_declared_roots fl fs rs))"

definition descriptor_empty :: "custody_env \<Rightarrow> custody_faults \<Rightarrow> fs \<Rightarrow> path \<Rightarrow> bool" where
  "descriptor_empty E fl fs d \<longleftrightarrow> \<not> cf_scan fl \<and> ce_listing E fs d = []"

text \<open>
  Going up from a directory until the target is met, or the top, which is its own parent. The measure is
  the depth.
\<close>

function climbs_to :: "(path \<Rightarrow> 'i) \<Rightarrow> (path \<Rightarrow> bool) \<Rightarrow> 'i \<Rightarrow> path \<Rightarrow> bool" where
  "climbs_to ident fault target p =
     (if ident p = target then True
      else if fault p then True
      else if ident (butlast p) = ident p then False
      else climbs_to ident fault target (butlast p))"
  by pat_completeness auto
termination
proof (relation "measure (\<lambda>(ident, fault, target, p). length p)")
  fix ident :: "path \<Rightarrow> 'i" and fault :: "path \<Rightarrow> bool" and target p
  assume "ident (butlast p) \<noteq> ident p"
  then have "p \<noteq> []" by auto
  then show "((ident, fault, target, butlast p), (ident, fault, target, p)) \<in> measure (\<lambda>(ident, fault, target, p). length p)"
    by simp
qed simp

declare climbs_to.simps [simp del]

definition is_ancestor :: "custody_env \<Rightarrow> custody_faults \<Rightarrow> fs \<Rightarrow> path \<Rightarrow> path \<Rightarrow> bool" where
  "is_ancestor E fl fs ancestor descendant = climbs_to (ce_object E fs) (cf_parent fl) (ce_object E fs ancestor) descendant"

definition any_nested :: "custody_env \<Rightarrow> custody_faults \<Rightarrow> fs \<Rightarrow> descriptors \<Rightarrow> bool" where
  "any_nested E fl fs ds \<longleftrightarrow> list_ex (\<lambda>(n, d). list_ex (\<lambda>(m, e). n \<noteq> m \<and> is_ancestor E fl fs d e) ds) ds"

definition observe_roots :: "custody_env \<Rightarrow> fs \<Rightarrow> descriptors \<Rightarrow> governed_exn + object_identity list" where
  "observe_roots E fs ds = sequence_res (\<lambda>(n, d). observed_identity (ce_object E fs d)) ds"

text \<open>\<open>_descriptor_rejection\<close>; the workspace is the first of the descriptors.\<close>

definition descriptor_rejection :: "custody_env \<Rightarrow> custody_faults \<Rightarrow> fs \<Rightarrow> custody_request \<Rightarrow> descriptors
    \<Rightarrow> governed_exn + custody_reason option" where
  "descriptor_rejection E fl fs q ds = bind_res (observe_roots E fs ds) (\<lambda>ids. Inr
     (if \<not> distinct (map (object_digest (ce_sha E)) ids) then Some INVALID_ISOLATION
      else if cp_empty_workspace (cu_policy q) \<and> \<not> descriptor_empty E fl fs (snd (hd ds)) then Some NONEMPTY_WORKSPACE
      else if any_nested E fl fs ds then Some INVALID_ISOLATION
      else None))"

section \<open>Admission\<close>

record custody_admission =
  wad_attestation :: "custody_attestation option"
  wad_reason :: "custody_reason option"

definition make_custody_admission :: "custody_admission \<Rightarrow> governed_exn + custody_admission" where
  "make_custody_admission a = guarded
     [(wad_attestation a \<noteq> None \<and> wad_reason a \<noteq> None, ContractError ''attested custody cannot carry a rejection reason''),
      (wad_attestation a = None \<and> wad_reason a = None, ContractError ''rejected custody admission requires a typed reason'')] a"

definition custody_rejected :: "custody_reason \<Rightarrow> governed_exn + custody_admission" where
  "custody_rejected w = make_custody_admission \<lparr>wad_attestation = None, wad_reason = Some w\<rparr>"

text \<open>
  \<open>_admit_descriptors\<close>: the descriptors that are lost, which nobody closes, and the admission with the
  descriptors the caller closes. When issuing raises, all four are lost.
\<close>

definition admit_descriptors :: "custody_env \<Rightarrow> custody_faults \<Rightarrow> fs \<Rightarrow> custody_request \<Rightarrow> utc_time option
    \<Rightarrow> descriptors \<times> (governed_exn + custody_admission \<times> descriptors)" where
  "admit_descriptors E fl fs q occurred =
     (if \<not> ce_capable E \<or> \<not> ce_probe E then ([], bind_res (custody_rejected HANDOFF_CAPABILITY_UNSUPPORTED) (\<lambda>a. Inr (a, [])))
      else if resolve fs (cu_control q) \<noteq> resolve fs (ce_store E)
      then ([], bind_res (custody_rejected INVALID_ISOLATION) (\<lambda>a. Inr (a, [])))
      else case open_declared_roots fl fs (declared_roots q) of
        None \<Rightarrow> ([], bind_res (custody_rejected UNSAFE_ROOT) (\<lambda>a. Inr (a, [])))
      | Some ds \<Rightarrow>
          (case descriptor_rejection E fl fs q ds of
             Inl e \<Rightarrow> (ds, Inl e)
           | Inr (Some w) \<Rightarrow> ([], bind_res (custody_rejected w) (\<lambda>a. Inr (a, [])))
           | Inr None \<Rightarrow>
               (case bind_res (observe_roots E fs ds) (\<lambda>ids.
                   bind_res (issue_custody (ce_sha E) q (ids ! 0) (ids ! 1) (ids ! 2) (ids ! 3) occurred) (\<lambda>a.
                   make_custody_admission \<lparr>wad_attestation = Some a, wad_reason = None\<rparr>)) of
                  Inl e \<Rightarrow> (ds, Inl e)
                | Inr adm \<Rightarrow> ([], Inr (adm, ds)))))"

text \<open>\<open>_claim\<close>.\<close>

definition custody_claim_reason :: "custody_env \<Rightarrow> custody_faults \<Rightarrow> fs \<Rightarrow> custody_attestation \<Rightarrow> fs \<times> (governed_exn + custody_reason option)" where
  "custody_claim_reason E fl fs a =
     (case custody_claim (ce_sha E) (ce_parse E) (cf_store fl) (ce_store E) fs a of
        (fs', Inl (Corrupt _)) \<Rightarrow> (fs', Inr (Some CUSTODY_STORE_CORRUPT))
      | (fs', Inl (Unavailable _)) \<Rightarrow> (fs', Inr (Some CUSTODY_STORE_UNAVAILABLE))
      | (fs', Inl e) \<Rightarrow> (fs', Inl (LedgerExn e))
      | (fs', Inr c) \<Rightarrow> (fs', Inr (case ec_disposition c of
            EVIDENCE_CLAIMED \<Rightarrow> None | EVIDENCE_DUPLICATE \<Rightarrow> Some CUSTODY_ID_DUPLICATE | EVIDENCE_CONFLICT \<Rightarrow> Some CUSTODY_ID_CONFLICT)))"

definition custody_attest :: "custody_env \<Rightarrow> custody_faults \<Rightarrow> fs \<Rightarrow> custody_request \<Rightarrow> utc_time option
    \<Rightarrow> fs \<times> descriptors \<times> (governed_exn + custody_admission)" where
  "custody_attest E fl fs q occurred =
     (case admit_descriptors E fl fs q occurred of
        (lost, Inl e) \<Rightarrow> (fs, lost, Inl e)
      | (lost, Inr (adm, ds)) \<Rightarrow>
          (case wad_attestation adm of
             None \<Rightarrow> (fs, lost, make_custody_admission \<lparr>wad_attestation = None, wad_reason = wad_reason adm\<rparr>)
           | Some a \<Rightarrow>
               (case custody_claim_reason E fl fs a of
                  (fs', Inl e) \<Rightarrow> (fs', lost, Inl e)
                | (fs', Inr (Some w)) \<Rightarrow> (fs', lost, custody_rejected w)
                | (fs', Inr None) \<Rightarrow> (fs', lost, make_custody_admission \<lparr>wad_attestation = Some a, wad_reason = None\<rparr>))))"

text \<open>\<open>validate\<close>.\<close>

definition custody_check :: "custody_env \<Rightarrow> custody_faults \<Rightarrow> fs \<Rightarrow> custody_attestation option \<Rightarrow> custody_request
    \<Rightarrow> fs \<times> descriptors \<times> (governed_exn + custody_reason option)" where
  "custody_check E fl fs presented q =
     (case presented of
        None \<Rightarrow> (fs, [], Inr (Some CUSTODY_MISSING_ATTESTATION))
      | Some a \<Rightarrow>
          (case custody_read (ce_sha E) (ce_parse E) (cf_store fl) (ce_store E) fs (wa_attestation a) of
             (fs', Inl (Corrupt _)) \<Rightarrow> (fs', [], Inr (Some CUSTODY_STORE_CORRUPT))
           | (fs', Inl (Unavailable _)) \<Rightarrow> (fs', [], Inr (Some CUSTODY_STORE_UNAVAILABLE))
           | (fs', Inl e) \<Rightarrow> (fs', [], Inl (LedgerExn e))
           | (fs', Inr None) \<Rightarrow> (fs', [], Inr (Some CUSTODY_ATTESTATION_UNKNOWN))
           | (fs', Inr (Some stored)) \<Rightarrow>
               if stored \<noteq> a then (fs', [], Inr (Some CUSTODY_ID_CONFLICT))
               else (case admit_descriptors E fl fs' q (Some (wa_occurred a)) of
                   (lost, Inl e) \<Rightarrow> (fs', lost, Inl e)
                 | (lost, Inr (adm, ds)) \<Rightarrow>
                     (fs', lost, Inr (if wad_reason adm \<noteq> None then wad_reason adm
                        else if wad_attestation adm \<noteq> Some a then Some CUSTODY_ATTESTATION_BINDING_MISMATCH
                        else None)))))"

section \<open>Handoff\<close>

definition capability_digest :: "(bytes \<Rightarrow> string) \<Rightarrow> ustring" where
  "capability_digest sha = json_digest sha (object_of
     [(''profile'', JStr handoff_profile), (''root_directory_open'', JBool True), (''root_no_follow'', JBool True),
      (''descriptor_fstat'', JBool True), (''descriptor_scandir'', JBool True), (''descriptor_relative_open'', JBool True)])"

record root_handoff =
  ho_attestation :: "custody_attestation option"
  ho_binding :: "root_binding option"
  ho_handle :: "nat option"
  ho_reason :: "custody_reason option"

definition make_handoff :: "root_handoff \<Rightarrow> governed_exn + root_handoff" where
  "make_handoff h = guarded
     [(ho_reason h = None \<and> (ho_attestation h = None \<or> ho_binding h = None \<or> ho_handle h = None),
         ContractError ''successful root handoff requires attestation, binding, and handle''),
      (ho_reason h \<noteq> None \<and> (ho_attestation h \<noteq> None \<or> ho_binding h \<noteq> None \<or> ho_handle h \<noteq> None),
         ContractError ''rejected root handoff cannot expose live or immutable handoff outputs'')] h"

definition rejected_handoff :: "custody_reason \<Rightarrow> governed_exn + root_handoff" where
  "rejected_handoff w = make_handoff \<lparr>ho_attestation = None, ho_binding = None, ho_handle = None, ho_reason = Some w\<rparr>"

text \<open>
  \<open>attest_and_acquire_root_handoff\<close> at the instant of the clock: in the tree, and among the handles of the
  process. The descriptor of the workspace stays open in the new handle.
\<close>

definition acquire_root_handoff :: "custody_env \<Rightarrow> custody_faults \<Rightarrow> thread_context \<Rightarrow> fs \<Rightarrow> path handle_world \<Rightarrow> custody_request \<Rightarrow>
    utc_time \<Rightarrow> (fs \<times> path handle_world) \<times> descriptors \<times> (governed_exn + root_handoff)" where
  "acquire_root_handoff E fl c fs w q now =
     (if \<not> ce_capable E \<or> \<not> ce_probe E then ((fs, w), [], rejected_handoff HANDOFF_CAPABILITY_UNSUPPORTED)
      else case admit_descriptors E fl fs q (Some now) of
        (lost, Inl e) \<Rightarrow> ((fs, w), lost, Inl e)
      | (lost, Inr (adm, ds)) \<Rightarrow>
          (case (wad_reason adm, wad_attestation adm, map_of ds WORKSPACE) of
             (None, Some a, Some d) \<Rightarrow>
               (case custody_claim_reason E fl fs a of
                  (fs', Inl e) \<Rightarrow> ((fs', w), lost, Inl e)
                | (fs', Inr (Some r)) \<Rightarrow> ((fs', w), lost, rejected_handoff r)
                | (fs', Inr None) \<Rightarrow>
                    (case bind_res (observed_identity (ce_object E fs' d)) (\<lambda>o'.
                        issue_root_binding (ce_sha E) q a o' (capability_digest (ce_sha E)) (Some now)) of
                       Inl e \<Rightarrow> ((fs', w), lost, Inl e)
                     | Inr b \<Rightarrow>
                         (case issue_handle c d (rb_binding b) w of
                            (w', i) \<Rightarrow> ((fs', w'), lost, make_handoff
                              \<lparr>ho_attestation = Some a, ho_binding = Some b, ho_handle = Some i, ho_reason = None\<rparr>))))
           | (r, _, _) \<Rightarrow> ((fs, w), lost, rejected_handoff (case r of Some v \<Rightarrow> v | None \<Rightarrow> UNSAFE_ROOT))))"

end
