(* ===== verification/SessionGate.thy ===== *)
theory SessionGate
  imports CompositionGate CustodyGate
begin

text \<open>
  The controlled session gate (\<open>governed_session/models.py\<close>, \<open>readiness_models.py\<close>, \<open>readiness.py\<close>,
  \<open>gate.py\<close>): a session is created from an approved activation after the readiness and approval checks,
  and started once. The readiness gate consults a custody gate and a composition gate that are given to it;
  those of the program are put in their place in Readiness.
\<close>

section \<open>Readiness\<close>

datatype readiness_reason =
    NO_CUSTODY_EVIDENCE | CUSTODY_MISMATCH | CUSTODY_UNAVAILABLE | CUSTODY_CORRUPT
  | NO_COMPOSITION_EVIDENCE | COMPOSITION_MISMATCH | COMPOSITION_UNAVAILABLE | COMPOSITION_CORRUPT

fun custody_rejection :: "custody_reason \<Rightarrow> readiness_reason" where
  "custody_rejection CUSTODY_MISSING_ATTESTATION = NO_CUSTODY_EVIDENCE"
| "custody_rejection CUSTODY_STORE_UNAVAILABLE = CUSTODY_UNAVAILABLE"
| "custody_rejection CUSTODY_STORE_CORRUPT = CUSTODY_CORRUPT"
| "custody_rejection _ = CUSTODY_MISMATCH"

fun composition_rejection :: "composition_reason \<Rightarrow> readiness_reason" where
  "composition_rejection COMPOSITION_MISSING_ATTESTATION = NO_COMPOSITION_EVIDENCE"
| "composition_rejection COMPOSITION_STORE_UNAVAILABLE = COMPOSITION_UNAVAILABLE"
| "composition_rejection COMPOSITION_STORE_CORRUPT = COMPOSITION_CORRUPT"
| "composition_rejection _ = COMPOSITION_MISMATCH"

record ('ca, 'ma) readiness_evidence =
  ev_custody_request :: "custody_request option"
  ev_custody_attestation :: "'ca option"
  ev_manifest :: "composition_manifest option"
  ev_composition_attestation :: "'ma option"

record ('ca, 'ma) readiness_gates =
  custody_validate :: "fs \<Rightarrow> 'ca \<Rightarrow> custody_request \<Rightarrow> fs \<times> (governed_exn + custody_reason option)"
  composition_validate :: "fs \<Rightarrow> 'ma \<Rightarrow> composition_manifest \<Rightarrow> fs \<times> (governed_exn + composition_reason option)"

datatype readiness_disposition = READY | READINESS_REJECTED

record readiness_decision =
  rd_disposition :: readiness_disposition
  rd_reason :: "readiness_reason option"

definition make_readiness_decision :: "readiness_decision \<Rightarrow> governed_exn + readiness_decision" where
  "make_readiness_decision d = guarded
     [(rd_disposition d = READY \<and> rd_reason d \<noteq> None, ContractError ''ready decision cannot carry a rejection reason''),
      (rd_disposition d \<noteq> READY \<and> rd_reason d = None,
         ContractError ''rejected readiness decision requires a typed reason'')] d"

record ('ca, 'ma) readiness_admission =
  ra_evidence :: "('ca, 'ma) readiness_evidence option"
  ra_decision :: readiness_decision

definition make_readiness_admission :: "('ca, 'ma) readiness_admission \<Rightarrow> governed_exn + ('ca, 'ma) readiness_admission" where
  "make_readiness_admission a = guarded
     [(rd_disposition (ra_decision a) = READY \<and> ra_evidence a = None, ContractError ''ready admission requires readiness evidence''),
      (rd_disposition (ra_decision a) \<noteq> READY \<and> ra_evidence a \<noteq> None,
         ContractError ''rejected readiness admission cannot expose evidence'')] a"

definition readiness_rejected :: "readiness_reason \<Rightarrow> governed_exn + ('ca, 'ma) readiness_admission" where
  "readiness_rejected w = bind_res (make_readiness_decision \<lparr>rd_disposition = READINESS_REJECTED, rd_reason = Some w\<rparr>) (\<lambda>d.
     make_readiness_admission \<lparr>ra_evidence = None, ra_decision = d\<rparr>)"

definition custody_binds :: "fs \<Rightarrow> custody_request \<Rightarrow> activation_request \<Rightarrow> runtime_request \<Rightarrow> bool" where
  "custody_binds fs c q r \<longleftrightarrow>
     list_all (\<lambda>(supplied, expected). expected \<noteq> None \<and> resolve fs supplied = resolve fs (the expected))
       [(cu_workspace c, iso_workspace (req_isolation q)), (cu_source c, iso_source (req_isolation q)),
        (cu_audit c, iso_audit (req_isolation q))] \<and>
     cu_execution c = iso_execution (req_isolation q) \<and> cu_execution c = rr_execution r \<and> cu_run c = rr_run r"

definition composition_binds :: "composition_manifest \<Rightarrow> activation_request \<Rightarrow> runtime_request \<Rightarrow> runtime_availability option \<Rightarrow> bool" where
  "composition_binds m q r av \<longleftrightarrow>
     (case av of None \<Rightarrow> False
      | Some v \<Rightarrow> cm_execution m = iso_execution (req_isolation q) \<and> cm_execution m = rr_execution r \<and> cm_run m = rr_run r \<and>
          cm_runtime m = runtime_id v)"

definition validate_readiness :: "('ca, 'ma) readiness_gates \<Rightarrow> fs \<Rightarrow> ('ca, 'ma) readiness_evidence option \<Rightarrow> activation_request \<Rightarrow>
    runtime_request \<Rightarrow> runtime_availability option \<Rightarrow> fs \<times> (governed_exn + ('ca, 'ma) readiness_admission)" where
  "validate_readiness G fs ev q r av =
     (case Option.bind ev (\<lambda>e. Option.bind (ev_custody_request e) (\<lambda>c. map_option (\<lambda>a. (e, c, a)) (ev_custody_attestation e))) of
        None \<Rightarrow> (fs, readiness_rejected NO_CUSTODY_EVIDENCE)
      | Some (e, c, a) \<Rightarrow>
          (case custody_validate G fs a c of
             (fs', Inl x) \<Rightarrow> (fs', Inl x)
           | (fs', Inr (Some w)) \<Rightarrow> (fs', readiness_rejected (custody_rejection w))
           | (fs', Inr None) \<Rightarrow>
               if \<not> custody_binds fs' c q r then (fs', readiness_rejected CUSTODY_MISMATCH)
               else case Option.bind (ev_manifest e) (\<lambda>m. map_option (\<lambda>t. (m, t)) (ev_composition_attestation e)) of
                 None \<Rightarrow> (fs', readiness_rejected NO_COMPOSITION_EVIDENCE)
               | Some (m, t) \<Rightarrow>
                   (case composition_validate G fs' t m of
                      (fs'', Inl x) \<Rightarrow> (fs'', Inl x)
                    | (fs'', Inr (Some w)) \<Rightarrow> (fs'', readiness_rejected (composition_rejection w))
                    | (fs'', Inr None) \<Rightarrow>
                        if \<not> composition_binds m q r av then (fs'', readiness_rejected COMPOSITION_MISMATCH)
                        else (fs'', bind_res (make_readiness_decision \<lparr>rd_disposition = READY, rd_reason = None\<rparr>) (\<lambda>d.
                          make_readiness_admission \<lparr>ra_evidence = ev, ra_decision = d\<rparr>)))))"

section \<open>Sessions\<close>

datatype session_reason =
    MISSING_ACTIVATION_RECEIPT | ACTIVATION_NOT_APPROVED | ACTIVATION_RECEIPT_MISMATCH | ACTIVATION_RECEIPT_REPLAYED
  | EXECUTION_ID_MISMATCH | RUN_ID_MISMATCH | REQUEST_IDENTITY_MISMATCH | PROVIDER_POLICY_MISMATCH
  | ISOLATION_BINDING_MISMATCH | AUDIT_BINDING_MISMATCH | RUNTIME_UNAVAILABLE | SESSION_ALREADY_CONSUMED | SESSION_UNKNOWN
  | REPLAY_LEDGER_UNAVAILABLE | REPLAY_LEDGER_CORRUPT | REPLAY_LEDGER_CONFLICT | REPLAY_LEDGER_ISOLATION_MISMATCH
  | MISSING_HUMAN_APPROVAL | HUMAN_APPROVAL_DENIED | HUMAN_APPROVAL_UNKNOWN | HUMAN_APPROVAL_BINDING_MISMATCH
  | HUMAN_APPROVAL_STORE_UNAVAILABLE | HUMAN_APPROVAL_STORE_CORRUPT | HUMAN_APPROVAL_CONFLICT
  | MISSING_WORKSPACE_CUSTODY_EVIDENCE | WORKSPACE_CUSTODY_BINDING_MISMATCH | WORKSPACE_CUSTODY_STORE_UNAVAILABLE
  | WORKSPACE_CUSTODY_STORE_CORRUPT | MISSING_RUNTIME_COMPOSITION_EVIDENCE | RUNTIME_COMPOSITION_BINDING_MISMATCH
  | RUNTIME_COMPOSITION_STORE_UNAVAILABLE | RUNTIME_COMPOSITION_STORE_CORRUPT

datatype session_disposition = SESSION_CREATED | RUNTIME_START_ALLOWED | SESSION_REJECTED

record controlled_session =
  session_id :: ustring
  cs_activation_id :: ustring
  cs_receipt_digest :: ustring
  cs_execution_id :: ustring
  cs_run_id :: ustring
  cs_request_digest :: ustring
  cs_policy_digest :: ustring
  cs_isolation_digest :: ustring
  cs_observer_identity :: ustring
  cs_runtime_id :: ustring

definition make_session :: "controlled_session \<Rightarrow> governed_exn + controlled_session" where
  "make_session s = guarded
     [empty_field (session_id s) ''session_id'', empty_field (cs_activation_id s) ''activation_id'',
      empty_field (cs_receipt_digest s) ''activation_receipt_digest'', empty_field (cs_execution_id s) ''execution_id'',
      empty_field (cs_run_id s) ''run_id'', empty_field (cs_request_digest s) ''request_digest'',
      empty_field (cs_policy_digest s) ''provider_policy_digest'', empty_field (cs_isolation_digest s) ''isolation_binding_digest'',
      empty_field (cs_observer_identity s) ''audit_observer_identity'', empty_field (cs_runtime_id s) ''runtime_id''] s"

record session_decision =
  sd_disposition :: session_disposition
  sd_session_id :: "ustring option"
  sd_execution_id :: "ustring option"
  sd_run_id :: "ustring option"
  sd_reason :: "session_reason option"

definition missing_field :: "ustring option \<Rightarrow> string \<Rightarrow> (bool \<times> governed_exn) list" where
  "missing_field v field = [(v = None, ContractError (field @ '' is required for an approved decision'')),
     (blank_ustring (the v), ContractError (field @ '' cannot be empty''))]"

definition make_session_decision :: "session_decision \<Rightarrow> governed_exn + session_decision" where
  "make_session_decision d =
     (if sd_disposition d = SESSION_REJECTED
      then guarded [(sd_reason d = None, ContractError ''rejected decisions require a reason'')] d
      else guarded ((sd_reason d \<noteq> None, ContractError ''non-rejected decisions cannot carry a refusal reason'')
        # missing_field (sd_session_id d) ''session_id'' @ missing_field (sd_execution_id d) ''execution_id''
        @ missing_field (sd_run_id d) ''run_id'') d)"

record session_admission =
  sa_session :: "controlled_session option"
  sa_decision :: session_decision

definition make_session_admission :: "session_admission \<Rightarrow> governed_exn + session_admission" where
  "make_session_admission a = guarded
     (if sd_disposition (sa_decision a) = SESSION_CREATED
      then [(sa_session a = None, ContractError ''approved session admission requires a session''),
            (map_option session_id (sa_session a) \<noteq> sd_session_id (sa_decision a),
               ContractError ''session and decision identities must match'')]
      else [(sa_session a \<noteq> None, ContractError ''rejected session admission cannot expose a session'')]) a"

section \<open>The gate\<close>

definition session_rejected :: "session_reason \<Rightarrow> governed_exn + session_admission" where
  "session_rejected w =
     bind_res (make_session_decision \<lparr>sd_disposition = SESSION_REJECTED, sd_session_id = None, sd_execution_id = None,
       sd_run_id = None, sd_reason = Some w\<rparr>) (\<lambda>d. make_session_admission \<lparr>sa_session = None, sa_decision = d\<rparr>)"

fun readiness_session_rejection :: "readiness_reason \<Rightarrow> session_reason" where
  "readiness_session_rejection NO_CUSTODY_EVIDENCE = MISSING_WORKSPACE_CUSTODY_EVIDENCE"
| "readiness_session_rejection CUSTODY_MISMATCH = WORKSPACE_CUSTODY_BINDING_MISMATCH"
| "readiness_session_rejection CUSTODY_UNAVAILABLE = WORKSPACE_CUSTODY_STORE_UNAVAILABLE"
| "readiness_session_rejection CUSTODY_CORRUPT = WORKSPACE_CUSTODY_STORE_CORRUPT"
| "readiness_session_rejection NO_COMPOSITION_EVIDENCE = MISSING_RUNTIME_COMPOSITION_EVIDENCE"
| "readiness_session_rejection COMPOSITION_MISMATCH = RUNTIME_COMPOSITION_BINDING_MISMATCH"
| "readiness_session_rejection COMPOSITION_UNAVAILABLE = RUNTIME_COMPOSITION_STORE_UNAVAILABLE"
| "readiness_session_rejection COMPOSITION_CORRUPT = RUNTIME_COMPOSITION_STORE_CORRUPT"

fun approval_session_rejection :: "approval_reason \<Rightarrow> session_reason" where
  "approval_session_rejection MISSING_APPROVAL = MISSING_HUMAN_APPROVAL"
| "approval_session_rejection APPROVAL_DENIED = HUMAN_APPROVAL_DENIED"
| "approval_session_rejection APPROVAL_UNKNOWN = HUMAN_APPROVAL_UNKNOWN"
| "approval_session_rejection APPROVAL_BINDING_MISMATCH = HUMAN_APPROVAL_BINDING_MISMATCH"
| "approval_session_rejection APPROVAL_STORE_UNAVAILABLE = HUMAN_APPROVAL_STORE_UNAVAILABLE"
| "approval_session_rejection APPROVAL_STORE_CORRUPT = HUMAN_APPROVAL_STORE_CORRUPT"
| "approval_session_rejection APPROVAL_ID_DUPLICATE = HUMAN_APPROVAL_CONFLICT"
| "approval_session_rejection APPROVAL_ID_CONFLICT = HUMAN_APPROVAL_CONFLICT"

definition binding_rejection :: "(bytes \<Rightarrow> string) \<Rightarrow> fs \<Rightarrow> activation_receipt option \<Rightarrow> activation_request \<Rightarrow> runtime_request \<Rightarrow>
    observer option \<Rightarrow> runtime_availability option \<Rightarrow> session_reason option" where
  "binding_rejection sha fs rcpt q r ob av =
     (let i = req_isolation q in
      case rcpt of
        None \<Rightarrow> Some MISSING_ACTIVATION_RECEIPT
      | Some a \<Rightarrow>
          first_error
           [(act_disposition (act_decision a) \<noteq> APPROVED_TO_START, ACTIVATION_NOT_APPROVED),
            (av = None \<or> \<not> available (the av), RUNTIME_UNAVAILABLE),
            (req_confirmation q = None \<or> req_policy q = None, ACTIVATION_RECEIPT_MISMATCH),
            (req_observer q = None \<or> ob = None, AUDIT_BINDING_MISMATCH),
            (observer_id (the (req_observer q)) \<noteq> observer_id (the ob), AUDIT_BINDING_MISMATCH),
            (iso_execution i \<noteq> rr_execution r, EXECUTION_ID_MISMATCH),
            (act_execution (act_decision a) \<noteq> rr_execution r, EXECUTION_ID_MISMATCH),
            (confirmed_execution (the (req_confirmation q)) \<noteq> rr_execution r, EXECUTION_ID_MISMATCH),
            (policy_digest a \<noteq> json_digest sha (policy_payload (req_policy q)), ACTIVATION_RECEIPT_MISMATCH),
            (policy_digest a \<noteq> runtime_policy_digest sha (rr_gateway r), PROVIDER_POLICY_MISMATCH),
            (iso_workspace i = None \<or> iso_audit i = None \<or> iso_source i = None, ISOLATION_BINDING_MISMATCH),
            (resolve fs (rr_workspace r) \<noteq> resolve fs (the (iso_workspace i)) \<or>
               resolve fs (rr_repository r) \<noteq> resolve fs (the (iso_workspace i)), ISOLATION_BINDING_MISMATCH)])"

definition ledger_isolation_rejection :: "fs \<Rightarrow> path \<Rightarrow> activation_request \<Rightarrow> session_reason option" where
  "ledger_isolation_rejection fs root q =
     (case (iso_workspace (req_isolation q), iso_source (req_isolation q), iso_audit (req_isolation q)) of
        (Some w, Some s, Some a) \<Rightarrow> if in_execution_roots fs root w s a then Some REPLAY_LEDGER_ISOLATION_MISMATCH else None
      | _ \<Rightarrow> Some ISOLATION_BINDING_MISMATCH)"

definition session_binding_digest :: "(bytes \<Rightarrow> string) \<Rightarrow> controlled_session \<Rightarrow> ustring" where
  "session_binding_digest sha s = json_digest sha (JObj
     [(code_points ''activation_id'', JStr (cs_activation_id s)),
      (code_points ''activation_receipt_digest'', JStr (cs_receipt_digest s)),
      (code_points ''audit_observer_identity'', JStr (cs_observer_identity s)),
      (code_points ''execution_id'', JStr (cs_execution_id s)),
      (code_points ''isolation_binding_digest'', JStr (cs_isolation_digest s)),
      (code_points ''provider_policy_digest'', JStr (cs_policy_digest s)),
      (code_points ''request_digest'', JStr (cs_request_digest s)),
      (code_points ''run_id'', JStr (cs_run_id s)),
      (code_points ''runtime_id'', JStr (cs_runtime_id s)),
      (code_points ''session_id'', JStr (session_id s))])"

definition ledger_record :: "replay_record \<Rightarrow> governed_exn + replay_record" where
  "ledger_record r = map_sum LedgerExn id (make_replay_record r)"

definition activation_record_for :: "(bytes \<Rightarrow> string) \<Rightarrow> activation_receipt \<Rightarrow> replay_record" where
  "activation_record_for sha a = \<lparr>rec_kind = ACTIVATION_CLAIMED, identity_key = activation_id (act_decision a),
     rec_binding_digest = receipt_digest sha a\<rparr>"

definition issued_record_for :: "(bytes \<Rightarrow> string) \<Rightarrow> controlled_session \<Rightarrow> replay_record" where
  "issued_record_for sha s = \<lparr>rec_kind = SESSION_ISSUED, identity_key = session_id s, rec_binding_digest = session_binding_digest sha s\<rparr>"

definition consumed_record_for :: "(bytes \<Rightarrow> string) \<Rightarrow> controlled_session \<Rightarrow> replay_record" where
  "consumed_record_for sha s = \<lparr>rec_kind = SESSION_CONSUMED, identity_key = session_id s, rec_binding_digest = session_binding_digest sha s\<rparr>"

definition session_for :: "(bytes \<Rightarrow> string) \<Rightarrow> fs \<Rightarrow> activation_receipt \<Rightarrow> activation_request \<Rightarrow> runtime_request \<Rightarrow> observer \<Rightarrow>
    runtime_availability \<Rightarrow> governed_exn + controlled_session" where
  "session_for sha fs a q r ob av =
     bind_res (runtime_request_digest sha fs r) (\<lambda>rd. bind_res (isolation_digest sha fs q) (\<lambda>iso.
       make_session
         \<lparr>session_id = json_digest sha (JObj
             [(code_points ''activation_receipt_digest'', JStr (receipt_digest sha a)),
              (code_points ''audit_observer_identity'', JStr (observer_identity ob)),
              (code_points ''isolation_binding_digest'', JStr iso),
              (code_points ''request_digest'', JStr rd),
              (code_points ''runtime_id'', JStr (runtime_id av))]),
          cs_activation_id = activation_id (act_decision a), cs_receipt_digest = receipt_digest sha a,
          cs_execution_id = rr_execution r, cs_run_id = rr_run r, cs_request_digest = rd,
          cs_policy_digest = policy_digest a, cs_isolation_digest = iso, cs_observer_identity = observer_identity ob,
          cs_runtime_id = runtime_id av\<rparr>))"

definition session_mismatch_reason :: "controlled_session \<Rightarrow> controlled_session \<Rightarrow> session_reason" where
  "session_mismatch_reason s e =
     (if cs_receipt_digest s \<noteq> cs_receipt_digest e then ACTIVATION_RECEIPT_MISMATCH
      else if cs_execution_id s \<noteq> cs_execution_id e then EXECUTION_ID_MISMATCH
      else if cs_run_id s \<noteq> cs_run_id e then RUN_ID_MISMATCH
      else if cs_policy_digest s \<noteq> cs_policy_digest e then PROVIDER_POLICY_MISMATCH
      else if cs_isolation_digest s \<noteq> cs_isolation_digest e then ISOLATION_BINDING_MISMATCH
      else if cs_observer_identity s \<noteq> cs_observer_identity e then AUDIT_BINDING_MISMATCH
      else REQUEST_IDENTITY_MISMATCH)"

text \<open>\<open>_claim\<close> and \<open>_read\<close>: corruption and unavailability are reasons, other errors are raised.\<close>

definition reason_or_raise :: "store_exn \<Rightarrow> governed_exn + session_reason" where
  "reason_or_raise e = (case e of Corrupt _ \<Rightarrow> Inr REPLAY_LEDGER_CORRUPT | Unavailable _ \<Rightarrow> Inr REPLAY_LEDGER_UNAVAILABLE
     | _ \<Rightarrow> Inl (LedgerExn e))"

definition gate_claim :: "gate_env \<Rightarrow> store_faults \<Rightarrow> fs \<Rightarrow> replay_record \<Rightarrow> fs \<times> (governed_exn + (session_reason + ledger_claim))" where
  "gate_claim E fl fs r =
     (case claim (ge_sha E) fl (ge_ledger E) fs r of
        (fs', Inl e) \<Rightarrow> (fs', map_sum id Inl (reason_or_raise e))
      | (fs', Inr c) \<Rightarrow> (fs', Inr (Inr c)))"

definition gate_read :: "gate_env \<Rightarrow> store_faults \<Rightarrow> fs \<Rightarrow> replay_record \<Rightarrow> fs \<times> (governed_exn + (session_reason + replay_record option))" where
  "gate_read E fl fs r =
     (case read_record (ge_sha E) fl (ge_ledger E) fs (rec_kind r) (identity_key r) of
        (fs', Inl e) \<Rightarrow> (fs', map_sum id Inl (reason_or_raise e))
      | (fs', Inr v) \<Rightarrow> (fs', Inr (Inr v)))"

text \<open>The arguments of the two operations; the evidence and the approval are only for the first.\<close>

record ('ca, 'ma) session_call =
  sc_receipt :: "activation_receipt option"
  sc_approval :: "approval_receipt option"
  sc_request :: activation_request
  sc_runtime :: runtime_request
  sc_observer :: "observer option"
  sc_availability :: "runtime_availability option"
  sc_evidence :: "('ca, 'ma) readiness_evidence option"

text \<open>What fails in the approval store and in the first and second access to the ledger.\<close>

record gate_faults =
  gf_approval :: store_faults
  gf_first :: store_faults
  gf_second :: store_faults

definition call_rejection :: "gate_env \<Rightarrow> fs \<Rightarrow> ('ca, 'ma) session_call \<Rightarrow> session_reason option" where
  "call_rejection E fs c =
     (case binding_rejection (ge_sha E) fs (sc_receipt c) (sc_request c) (sc_runtime c) (sc_observer c) (sc_availability c) of
        Some w \<Rightarrow> Some w
      | None \<Rightarrow> ledger_isolation_rejection fs (ge_ledger E) (sc_request c))"

text \<open>The checks of \<open>create_session\<close> before the ledger is claimed: a reason, or all is well.\<close>

definition evidence_rejection :: "gate_env \<Rightarrow> ('ca, 'ma) readiness_gates \<Rightarrow> store_faults \<Rightarrow> fs \<Rightarrow> ('ca, 'ma) session_call \<Rightarrow>
    activation_receipt \<Rightarrow> observer \<Rightarrow> runtime_availability \<Rightarrow> fs \<times> (governed_exn + session_reason option)" where
  "evidence_rejection E G fl fs c a ob av =
     and_then (validate_readiness G fs (sc_evidence c) (sc_request c) (sc_runtime c) (sc_availability c)) (\<lambda>fs ready.
       case rd_reason (ra_decision ready) of
         Some w \<Rightarrow> (fs, Inr (Some (readiness_session_rejection w)))
       | None \<Rightarrow>
           and_then (validate_approval E fl fs (sc_approval c) a (sc_request c) (sc_runtime c) ob av) (\<lambda>fs w.
             (fs, Inr (map_option approval_session_rejection w))))"

definition created :: "controlled_session \<Rightarrow> governed_exn + session_admission" where
  "created s = bind_res (make_session_decision \<lparr>sd_disposition = SESSION_CREATED, sd_session_id = Some (session_id s),
       sd_execution_id = Some (cs_execution_id s), sd_run_id = Some (cs_run_id s), sd_reason = None\<rparr>) (\<lambda>d.
     make_session_admission \<lparr>sa_session = Some s, sa_decision = d\<rparr>)"

text \<open>Claiming the activation, then issuing the session.\<close>

definition issue_session :: "gate_env \<Rightarrow> store_faults \<Rightarrow> fs \<Rightarrow> ('ca, 'ma) session_call \<Rightarrow> activation_receipt \<Rightarrow> observer \<Rightarrow>
    runtime_availability \<Rightarrow> fs \<times> (governed_exn + session_admission)" where
  "issue_session E fl fs c a ob av =
     and_then (fs, session_for (ge_sha E) fs a (sc_request c) (sc_runtime c) ob av) (\<lambda>fs s.
     and_then (fs, ledger_record (issued_record_for (ge_sha E) s)) (\<lambda>fs r.
     and_then (gate_claim E fl fs r) (\<lambda>fs second.
       case second of
         Inl w \<Rightarrow> (fs, session_rejected w)
       | Inr k \<Rightarrow> if disposition k \<noteq> CLAIMED then (fs, session_rejected REPLAY_LEDGER_CONFLICT) else (fs, created s))))"

definition claim_and_issue :: "gate_env \<Rightarrow> gate_faults \<Rightarrow> fs \<Rightarrow> ('ca, 'ma) session_call \<Rightarrow> activation_receipt \<Rightarrow> observer \<Rightarrow>
    runtime_availability \<Rightarrow> fs \<times> (governed_exn + session_admission)" where
  "claim_and_issue E fl fs c a ob av =
     and_then (fs, ledger_record (activation_record_for (ge_sha E) a)) (\<lambda>fs r.
     and_then (gate_claim E (gf_first fl) fs r) (\<lambda>fs first.
       case first of
         Inl w \<Rightarrow> (fs, session_rejected w)
       | Inr k \<Rightarrow>
           if disposition k = ALREADY_CLAIMED then (fs, session_rejected ACTIVATION_RECEIPT_REPLAYED)
           else if disposition k = CONFLICT then (fs, session_rejected REPLAY_LEDGER_CONFLICT)
           else issue_session E (gf_second fl) fs c a ob av))"

definition create_session :: "gate_env \<Rightarrow> ('ca, 'ma) readiness_gates \<Rightarrow> gate_faults \<Rightarrow> fs \<Rightarrow> ('ca, 'ma) session_call \<Rightarrow>
    fs \<times> (governed_exn + session_admission)" where
  "create_session E G fl fs c =
     (case call_rejection E fs c of
        Some w \<Rightarrow> (fs, session_rejected w)
      | None \<Rightarrow>
          (case (sc_receipt c, sc_observer c, sc_availability c) of
             (Some a, Some ob, Some av) \<Rightarrow>
               and_then (evidence_rejection E G (gf_approval fl) fs c a ob av) (\<lambda>fs w.
                 case w of
                   Some w \<Rightarrow> (fs, session_rejected w)
                 | None \<Rightarrow> claim_and_issue E fl fs c a ob av)
           | _ \<Rightarrow> (fs, Inl AssertionFailure)))"

text \<open>Reading the issue and claiming the start.\<close>

definition refused :: "session_reason \<Rightarrow> governed_exn + session_decision" where
  "refused w = map_sum id sa_decision (session_rejected w)"

definition claim_start :: "gate_env \<Rightarrow> store_faults \<Rightarrow> fs \<Rightarrow> controlled_session \<Rightarrow> fs \<times> (governed_exn + session_decision)" where
  "claim_start E fl fs s =
     and_then (fs, ledger_record (consumed_record_for (ge_sha E) s)) (\<lambda>fs r.
     and_then (gate_claim E fl fs r) (\<lambda>fs k.
       case k of
         Inl w \<Rightarrow> (fs, refused w)
       | Inr k \<Rightarrow>
           if disposition k = ALREADY_CLAIMED then (fs, refused SESSION_ALREADY_CONSUMED)
           else if disposition k = CONFLICT then (fs, refused REPLAY_LEDGER_CONFLICT)
           else (fs, make_session_decision \<lparr>sd_disposition = RUNTIME_START_ALLOWED, sd_session_id = Some (session_id s),
             sd_execution_id = Some (cs_execution_id s), sd_run_id = Some (cs_run_id s), sd_reason = None\<rparr>)))"

definition start_once :: "gate_env \<Rightarrow> gate_faults \<Rightarrow> fs \<Rightarrow> controlled_session \<Rightarrow> fs \<times> (governed_exn + session_decision)" where
  "start_once E fl fs s =
     and_then (fs, ledger_record (issued_record_for (ge_sha E) s)) (\<lambda>fs issued.
     and_then (gate_read E (gf_first fl) fs issued) (\<lambda>fs stored.
       case stored of
         Inl w \<Rightarrow> (fs, refused w)
       | Inr None \<Rightarrow> (fs, refused SESSION_UNKNOWN)
       | Inr (Some r') \<Rightarrow> if r' \<noteq> issued then (fs, refused REPLAY_LEDGER_CONFLICT) else claim_start E (gf_second fl) fs s))"

definition consume_for_runtime_start :: "gate_env \<Rightarrow> gate_faults \<Rightarrow> fs \<Rightarrow> controlled_session \<Rightarrow> ('ca, 'ma) session_call \<Rightarrow>
    fs \<times> (governed_exn + session_decision)" where
  "consume_for_runtime_start E fl fs s c =
     (case call_rejection E fs c of
        Some w \<Rightarrow> (fs, refused w)
      | None \<Rightarrow>
          (case (sc_receipt c, sc_observer c, sc_availability c) of
             (Some a, Some ob, Some av) \<Rightarrow>
               and_then (fs, session_for (ge_sha E) fs a (sc_request c) (sc_runtime c) ob av) (\<lambda>fs expected.
                 if expected \<noteq> s then (fs, refused (session_mismatch_reason s expected))
                 else start_once E fl fs s)
           | _ \<Rightarrow> (fs, Inl AssertionFailure)))"

section \<open>Single use\<close>

text \<open>A call of the gate, whether it admits, and the record that makes it the only one.\<close>

datatype ('ca, 'ma) gate_call = Create "('ca, 'ma) session_call" | Consume controlled_session "('ca, 'ma) session_call"

fun gate_attempt :: "gate_env \<Rightarrow> ('ca, 'ma) readiness_gates \<Rightarrow> fs \<Rightarrow> ('ca, 'ma) gate_call \<Rightarrow> gate_faults \<Rightarrow> fs \<times> bool" where
  "gate_attempt E G fs (Create c) fl =
     (case create_session E G fl fs c of
        (fs', Inr m) \<Rightarrow> (fs', sd_disposition (sa_decision m) = SESSION_CREATED)
      | (fs', Inl _) \<Rightarrow> (fs', False))"
| "gate_attempt E G fs (Consume s c) fl =
     (case consume_for_runtime_start E fl fs s c of
        (fs', Inr m) \<Rightarrow> (fs', sd_disposition m = RUNTIME_START_ALLOWED)
      | (fs', Inl _) \<Rightarrow> (fs', False))"

fun gate_slot :: "gate_env \<Rightarrow> ('ca, 'ma) gate_call \<Rightarrow> string option" where
  "gate_slot E (Create c) = Option.bind (sc_receipt c) (\<lambda>a. record_slot (ge_sha E) (activation_record_for (ge_sha E) a))"
| "gate_slot E (Consume s c) = record_slot (ge_sha E) (consumed_record_for (ge_sha E) s)"

end
