(* ===== verification/Session.thy ===== *)
theory Session
  imports SessionGate
begin

text \<open>
  The lemmas on the session gate: every call only adds entries to the tree and makes no link; what a
  call that admits did in the two stores; each identity is consumed once; the checks depend on the tree
  through resolved paths only; recorded approvals last.
\<close>

section \<open>What the gates leave in place\<close>

definition keeps_tree :: "fs \<Rightarrow> fs \<Rightarrow> bool" where
  "keeps_tree fs fs' \<longleftrightarrow> same_links fs fs' \<and> (\<forall>q. fs q \<noteq> None \<longrightarrow> fs' q = fs q)"

lemma keeps_refl [simp]: "keeps_tree fs fs"
  by (simp add: keeps_tree_def)

lemma keeps_trans: "keeps_tree fs fs1 \<Longrightarrow> keeps_tree fs1 fs2 \<Longrightarrow> keeps_tree fs fs2"
  unfolding keeps_tree_def using same_links_trans by metis

lemma keeps_resolve: "keeps_tree fs fs' \<Longrightarrow> resolve fs' p = resolve fs p"
  by (simp add: keeps_tree_def resolve_def walk_same_links)

lemma keeps_taken: "keeps_tree fs fs' \<Longrightarrow> slot_taken root fs x \<Longrightarrow> slot_taken root fs' x"
  by (auto simp: slot_taken_def keeps_tree_def place_same_links split: option.splits)

lemma and_then_Inr_iff:
  "and_then m f = (fs', Inr y) \<longleftrightarrow> (\<exists>fs1 x. m = (fs1, Inr x) \<and> f fs1 x = (fs', Inr y))"
  by (cases "(m, f)" rule: and_then.cases) auto

lemma keeps_and_then:
  assumes "keeps_tree fs (fst m)" and "\<And>fs1 x. m = (fs1, Inr x) \<Longrightarrow> keeps_tree fs1 (fst (f fs1 x))"
  shows "keeps_tree fs (fst (and_then m f))"
  using assms by (cases "(m, f)" rule: and_then.cases) (auto intro: keeps_trans)

lemma and_then_pure [simp]: "fst (and_then (fs, x) (\<lambda>fs y. (fs, g y))) = fs"
  by (cases x) auto

lemma claim_keeps: "keeps_tree fs (fst (claim sha fl root fs r))"
  using claim_grows by (auto simp: keeps_tree_def)

lemma locked_keeps: "locked_root lock fs root fault = Inr fs' \<Longrightarrow> keeps_tree fs fs'"
  using locked_root_links locked_root_grows by (auto simp: keeps_tree_def)

lemma read_record_keeps: "keeps_tree fs (fst (read_record sha fl root fs k i))"
  using locked_keeps by (auto simp: read_record_def split: sum.splits)

lemma read_approval_keeps: "keeps_tree fs (fst (read_approval sha parse fl root fs i))"
  using locked_keeps by (auto simp: read_approval_def split: sum.splits)

lemma gate_claim_keeps: "keeps_tree fs (fst (gate_claim E fl fs r))"
  using claim_keeps [of fs "ge_sha E" fl "ge_ledger E" r] by (auto simp: gate_claim_def split: prod.splits sum.splits)

lemma gate_read_keeps: "keeps_tree fs (fst (gate_read E fl fs r))"
  using read_record_keeps [of fs "ge_sha E" fl "ge_ledger E" "rec_kind r" "identity_key r"]
  by (auto simp: gate_read_def split: prod.splits sum.splits)

lemma validate_approval_keeps: "keeps_tree fs (fst (validate_approval E fl fs p rcpt q r ob av))"
proof (cases p)
  case (Some a)
  obtain fs1 res where ra: "read_approval (ge_sha E) (ge_parse E) fl (ge_approvals E) fs (approval_id a) = (fs1, res)"
    by fastforce
  have k: "keeps_tree fs fs1" using read_approval_keeps [of fs "ge_sha E" "ge_parse E" fl "ge_approvals E" "approval_id a"] ra by simp
  have "fst (validate_approval E fl fs p rcpt q r ob av) \<in> {fs, fs1}"
    by (auto simp: validate_approval_def Some ra split: option.splits sum.splits store_exn.splits)
  then show ?thesis using k by auto
qed (simp add: validate_approval_def)

text \<open>The gates behind the readiness gate only read.\<close>

definition gates_keep :: "('ca, 'ma) readiness_gates \<Rightarrow> bool" where
  "gates_keep G \<longleftrightarrow> (\<forall>fs a c. keeps_tree fs (fst (custody_validate G fs a c))) \<and>
     (\<forall>fs a m. keeps_tree fs (fst (composition_validate G fs a m)))"

lemma validate_readiness_keeps:
  assumes "gates_keep G"
  shows "keeps_tree fs (fst (validate_readiness G fs ev q r av))"
proof -
  have c: "keeps_tree fs (fst (custody_validate G fs a c))" for fs a c using assms by (simp add: gates_keep_def)
  have m: "keeps_tree fs (fst (composition_validate G fs a c))" for fs a c using assms by (simp add: gates_keep_def)
  have "keeps_tree fs fs1" if "custody_validate G fs a c = (fs1, w)" for fs fs1 a c w using c [of fs a c] that by simp
  moreover have "keeps_tree fs fs1" if "composition_validate G fs a c = (fs1, w)" for fs fs1 a c w using m [of fs a c] that by simp
  ultimately show ?thesis
    by (auto simp: validate_readiness_def split: option.splits prod.splits sum.splits) (meson keeps_trans)+
qed


section \<open>Admissions\<close>

lemma session_rejected_value:
  "session_rejected w = Inr \<lparr>sa_session = None, sa_decision = \<lparr>sd_disposition = SESSION_REJECTED, sd_session_id = None,
     sd_execution_id = None, sd_run_id = None, sd_reason = Some w\<rparr>\<rparr>"
  by (simp add: session_rejected_def make_session_decision_def make_session_admission_def guarded_def)

lemma created_Inr: "created s = Inr m \<Longrightarrow> sa_session m = Some s \<and> sd_disposition (sa_decision m) = SESSION_CREATED"
  by (auto simp: created_def bind_res_Inr_iff make_session_decision_def make_session_admission_def guarded_Inr_iff
      simp del: first_error.simps)

lemma ledger_record_Inr: "ledger_record r = Inr r' \<longleftrightarrow> make_replay_record r = Inr r' \<and> r' = r"
proof -
  have "make_replay_record r = Inr x \<Longrightarrow> x = r" for x by (simp add: make_replay_record_Inr)
  then show ?thesis by (cases "make_replay_record r") (auto simp: ledger_record_def)
qed

lemma make_claim_Inr: "make_claim c = Inr c' \<Longrightarrow> c' = c"
  by (auto simp: make_claim_def guarded_Inr_iff simp del: first_error.simps)

lemma claimed_record:
  assumes "claim sha fl root fs r = (fs', Inr k)" and "disposition k = CLAIMED"
  shows "existing_record k = None"
proof -
  have "k = \<lparr>disposition = CLAIMED, existing_record = None\<rparr> \<or> disposition k \<noteq> CLAIMED"
    using assms(1) by (auto simp: claim_def split: sum.splits option.splits prod.splits if_splits dest!: make_claim_Inr)
  then show ?thesis using assms(2) by auto
qed

lemma gate_claimed:
  assumes "gate_claim E fl fs r = (fs', Inr (Inr k))" and "disposition k = CLAIMED"
  shows "ledger_attempt (ge_sha E) (ge_ledger E) fs r fl = (fs', True)"
proof -
  have c: "claim (ge_sha E) fl (ge_ledger E) fs r = (fs', Inr k)"
    using assms(1) by (auto simp: gate_claim_def reason_or_raise_def split: prod.splits sum.splits store_exn.splits)
  have "k = \<lparr>disposition = CLAIMED, existing_record = None\<rparr>"
    using assms(2) claimed_record [OF c] by (cases k) simp
  then show ?thesis using c by (simp add: ledger_attempt_def)
qed

text \<open>A session that was created claimed its activation, then was issued.\<close>

lemma issued_session:
  assumes "issue_session E fl fs c a ob av = (fs', Inr m)" and "sd_disposition (sa_decision m) = SESSION_CREATED"
  obtains s where "session_for (ge_sha E) fs a (sc_request c) (sc_runtime c) ob av = Inr s"
    and "ledger_attempt (ge_sha E) (ge_ledger E) fs (issued_record_for (ge_sha E) s) fl = (fs', True)"
    and "created s = Inr m"
proof -
  obtain s fs2 k where s: "session_for (ge_sha E) fs a (sc_request c) (sc_runtime c) ob av = Inr s"
    and g: "gate_claim E fl fs (issued_record_for (ge_sha E) s) = (fs2, Inr k)"
    and e: "(case k of Inl w \<Rightarrow> (fs2, session_rejected w)
        | Inr k \<Rightarrow> if disposition k \<noteq> CLAIMED then (fs2, session_rejected REPLAY_LEDGER_CONFLICT) else (fs2, created s)) = (fs', Inr m)"
    using assms(1) unfolding issue_session_def and_then_Inr_iff by (auto simp: ledger_record_Inr)
  from e assms(2) obtain k' where "k = Inr k'" "disposition k' = CLAIMED" "fs2 = fs'" "created s = Inr m"
    by (auto simp: session_rejected_value split: sum.splits if_splits)
  then show ?thesis using that gate_claimed s g by metis
qed

lemma claimed_and_issued:
  assumes "claim_and_issue E fl fs c a ob av = (fs', Inr m)" and "sd_disposition (sa_decision m) = SESSION_CREATED"
  obtains fs1 where
    "ledger_attempt (ge_sha E) (ge_ledger E) fs (activation_record_for (ge_sha E) a) (gf_first fl) = (fs1, True)"
    and "issue_session E (gf_second fl) fs1 c a ob av = (fs', Inr m)"
proof -
  obtain fs1 k where f: "gate_claim E (gf_first fl) fs (activation_record_for (ge_sha E) a) = (fs1, Inr k)"
    and r: "(case k of Inl w \<Rightarrow> (fs1, session_rejected w)
       | Inr k \<Rightarrow>
           if disposition k = ALREADY_CLAIMED then (fs1, session_rejected ACTIVATION_RECEIPT_REPLAYED)
           else if disposition k = CONFLICT then (fs1, session_rejected REPLAY_LEDGER_CONFLICT)
           else issue_session E (gf_second fl) fs1 c a ob av) = (fs', Inr m)"
    using assms(1) unfolding claim_and_issue_def and_then_Inr_iff by (auto simp: ledger_record_Inr)
  from r assms(2) obtain k' where "k = Inr k'" "disposition k' = CLAIMED" "issue_session E (gf_second fl) fs1 c a ob av = (fs', Inr m)"
    by (cases k) (auto simp: session_rejected_value split: if_splits, metis claim_disposition.exhaust)
  then show ?thesis using that gate_claimed f by metis
qed

text \<open>The calls, when they admit.\<close>

lemma created_session:
  assumes "create_session E G fl fs c = (fs', Inr m)" and "sd_disposition (sa_decision m) = SESSION_CREATED"
  obtains a ob av fs1 where "call_rejection E fs c = None" and "sc_receipt c = Some a" and "sc_observer c = Some ob"
    and "sc_availability c = Some av" and "evidence_rejection E G (gf_approval fl) fs c a ob av = (fs1, Inr None)"
    and "claim_and_issue E fl fs1 c a ob av = (fs', Inr m)"
proof -
  have n: "call_rejection E fs c = None" using assms by (auto simp: create_session_def session_rejected_value split: option.splits)
  then obtain a ob av where s: "sc_receipt c = Some a" "sc_observer c = Some ob" "sc_availability c = Some av"
    using assms(1) by (auto simp: create_session_def split: option.splits)
  have "and_then (evidence_rejection E G (gf_approval fl) fs c a ob av) (\<lambda>fs w.
      case w of Some w \<Rightarrow> (fs, session_rejected w) | None \<Rightarrow> claim_and_issue E fl fs c a ob av) = (fs', Inr m)"
    using assms(1) n s by (simp add: create_session_def)
  then obtain fs1 w where e: "evidence_rejection E G (gf_approval fl) fs c a ob av = (fs1, Inr w)"
    and r: "(case w of Some w \<Rightarrow> (fs1, session_rejected w) | None \<Rightarrow> claim_and_issue E fl fs1 c a ob av) = (fs', Inr m)"
    unfolding and_then_Inr_iff by blast
  have "w = None" using r assms(2) by (auto simp: session_rejected_value split: option.splits)
  with e r n s that show ?thesis by simp
qed

lemma started_session:
  assumes "consume_for_runtime_start E fl fs s c = (fs', Inr d)" and "sd_disposition d = RUNTIME_START_ALLOWED"
  obtains a ob av fs1 where "call_rejection E fs c = None" and "sc_receipt c = Some a" and "sc_observer c = Some ob"
    and "sc_availability c = Some av" and "session_for (ge_sha E) fs a (sc_request c) (sc_runtime c) ob av = Inr s"
    and "gate_read E (gf_first fl) fs (issued_record_for (ge_sha E) s) = (fs1, Inr (Inr (Some (issued_record_for (ge_sha E) s))))"
    and "ledger_attempt (ge_sha E) (ge_ledger E) fs1 (consumed_record_for (ge_sha E) s) (gf_second fl) = (fs', True)"
proof -
  have rf: "\<exists>x. refused w = Inr x \<and> sd_disposition x = SESSION_REJECTED" for w by (simp add: refused_def session_rejected_value)
  have no: "(f, refused w) \<noteq> (fs', Inr d)" for f w using rf [of w] assms(2) by auto
  have n: "call_rejection E fs c = None" using assms(1) no by (auto simp: consume_for_runtime_start_def split: option.splits)
  then obtain a ob av where s: "sc_receipt c = Some a" "sc_observer c = Some ob" "sc_availability c = Some av"
    using assms(1) by (auto simp: consume_for_runtime_start_def split: option.splits)
  have "and_then (fs, session_for (ge_sha E) fs a (sc_request c) (sc_runtime c) ob av) (\<lambda>fs expected.
      if expected \<noteq> s then (fs, refused (session_mismatch_reason s expected)) else start_once E fl fs s) = (fs', Inr d)"
    using assms(1) n s by (simp add: consume_for_runtime_start_def)
  then have x: "session_for (ge_sha E) fs a (sc_request c) (sc_runtime c) ob av = Inr s" and y: "start_once E fl fs s = (fs', Inr d)"
    unfolding and_then_Inr_iff using no by (auto split: if_splits)
  from y obtain fs1 v where g: "gate_read E (gf_first fl) fs (issued_record_for (ge_sha E) s) = (fs1, Inr v)"
    and v: "(case v of Inl w \<Rightarrow> (fs1, refused w) | Inr None \<Rightarrow> (fs1, refused SESSION_UNKNOWN)
       | Inr (Some r') \<Rightarrow> if r' \<noteq> issued_record_for (ge_sha E) s then (fs1, refused REPLAY_LEDGER_CONFLICT)
           else claim_start E (gf_second fl) fs1 s) = (fs', Inr d)"
    unfolding start_once_def and_then_Inr_iff by (auto simp: ledger_record_Inr)
  from v no have v': "v = Inr (Some (issued_record_for (ge_sha E) s))" "claim_start E (gf_second fl) fs1 s = (fs', Inr d)"
    by (auto split: sum.splits option.splits if_splits)
  from v'(2) obtain fs2 k where h: "gate_claim E (gf_second fl) fs1 (consumed_record_for (ge_sha E) s) = (fs2, Inr k)"
    and k: "(case k of Inl w \<Rightarrow> (fs2, refused w)
       | Inr k \<Rightarrow> if disposition k = ALREADY_CLAIMED then (fs2, refused SESSION_ALREADY_CONSUMED)
           else if disposition k = CONFLICT then (fs2, refused REPLAY_LEDGER_CONFLICT)
           else (fs2, make_session_decision \<lparr>sd_disposition = RUNTIME_START_ALLOWED, sd_session_id = Some (session_id s),
             sd_execution_id = Some (cs_execution_id s), sd_run_id = Some (cs_run_id s), sd_reason = None\<rparr>)) = (fs', Inr d)"
    unfolding claim_start_def and_then_Inr_iff by (auto simp: ledger_record_Inr)
  from k no obtain k' where "k = Inr k'" "disposition k' = CLAIMED" "fs2 = fs'"
    by (cases k) (auto split: if_splits, metis claim_disposition.exhaust)
  then show ?thesis using that n s x g v' h gate_claimed by metis
qed


section \<open>Single use of the gate\<close>

lemma evidence_keeps:
  assumes "gates_keep G"
  shows "keeps_tree fs (fst (evidence_rejection E G fl fs c a ob av))"
  unfolding evidence_rejection_def
  by (rule keeps_and_then [OF validate_readiness_keeps [OF assms]])
    (auto split: option.splits intro!: keeps_and_then validate_approval_keeps)

lemma issue_keeps: "keeps_tree fs (fst (issue_session E fl fs c a ob av))"
  unfolding issue_session_def
  by (intro keeps_and_then gate_claim_keeps) (auto split: sum.splits)

lemma claim_and_issue_keeps: "keeps_tree fs (fst (claim_and_issue E fl fs c a ob av))"
  unfolding claim_and_issue_def
  by (intro keeps_and_then gate_claim_keeps) (auto split: sum.splits intro: issue_keeps)

lemma create_keeps: "gates_keep G \<Longrightarrow> keeps_tree fs (fst (create_session E G fl fs c))"
  unfolding create_session_def
  by (auto split: option.splits intro!: keeps_and_then evidence_keeps claim_and_issue_keeps)

lemma claim_start_keeps: "keeps_tree fs (fst (claim_start E fl fs s))"
  unfolding claim_start_def
  by (intro keeps_and_then gate_claim_keeps) (auto split: sum.splits)

lemma start_keeps: "keeps_tree fs (fst (start_once E fl fs s))"
  unfolding start_once_def
  by (intro keeps_and_then gate_read_keeps) (auto split: sum.splits option.splits intro: claim_start_keeps)

lemma consume_keeps: "keeps_tree fs (fst (consume_for_runtime_start E fl fs s c))"
  unfolding consume_for_runtime_start_def
  by (auto split: option.splits intro!: keeps_and_then start_keeps)

lemma gate_attempt_keeps: "gates_keep G \<Longrightarrow> keeps_tree fs (fst (gate_attempt E G fs k fl))"
proof (cases k)
  case (Create c)
  assume "gates_keep G"
  from create_keeps [OF this, of fs E fl c] show ?thesis by (auto simp: Create split: prod.splits sum.splits)
next
  case (Consume s c)
  then show ?thesis using consume_keeps [of fs E fl s c] by (auto split: prod.splits sum.splits)
qed

lemma gate_success:
  assumes "gates_keep G" and "snd (gate_attempt E G fs k fl)"
  shows "\<exists>fs1 fs2 r io. keeps_tree fs fs1 \<and> gate_slot E k = record_slot (ge_sha E) r \<and>
    ledger_attempt (ge_sha E) (ge_ledger E) fs1 r io = (fs2, True) \<and> keeps_tree fs2 (fst (gate_attempt E G fs k fl))"
proof (cases k)
  case (Create c)
  then obtain fs' m where m: "create_session E G fl fs c = (fs', Inr m)" "sd_disposition (sa_decision m) = SESSION_CREATED"
    using assms(2) by (auto split: prod.splits sum.splits)
  obtain a ob av fs1 where a: "sc_receipt c = Some a" "evidence_rejection E G (gf_approval fl) fs c a ob av = (fs1, Inr None)"
      "claim_and_issue E fl fs1 c a ob av = (fs', Inr m)"
    using created_session [OF m] by metis
  obtain fs2 where b: "ledger_attempt (ge_sha E) (ge_ledger E) fs1 (activation_record_for (ge_sha E) a) (gf_first fl) = (fs2, True)"
      "issue_session E (gf_second fl) fs2 c a ob av = (fs', Inr m)"
    using claimed_and_issued [OF a(3) m(2)] by metis
  have "keeps_tree fs fs1" using evidence_keeps [OF assms(1), of fs E "gf_approval fl" c a ob av] a(2) by simp
  moreover have "keeps_tree fs2 fs'" using issue_keeps [of fs2 E "gf_second fl" c a ob av] b(2) by simp
  ultimately show ?thesis
    using Create m a(1) b(1) by (intro exI [of _ fs1] exI [of _ fs2] exI [of _ "activation_record_for (ge_sha E) a"] exI [of _ "gf_first fl"]) simp
next
  case (Consume s c)
  then obtain fs' d where m: "consume_for_runtime_start E fl fs s c = (fs', Inr d)" "sd_disposition d = RUNTIME_START_ALLOWED"
    using assms(2) by (auto split: prod.splits sum.splits)
  obtain fs1 where a: "gate_read E (gf_first fl) fs (issued_record_for (ge_sha E) s) = (fs1, Inr (Inr (Some (issued_record_for (ge_sha E) s))))"
      "ledger_attempt (ge_sha E) (ge_ledger E) fs1 (consumed_record_for (ge_sha E) s) (gf_second fl) = (fs', True)"
    using started_session [OF m] by metis
  have "keeps_tree fs fs1" using gate_read_keeps [of fs E "gf_first fl" "issued_record_for (ge_sha E) s"] a(1) by simp
  then show ?thesis
    using Consume m a(2) by (intro exI [of _ fs1] exI [of _ fs'] exI [of _ "consumed_record_for (ge_sha E) s"] exI [of _ "gf_second fl"]) simp
qed

lemma gate_once:
  assumes "gates_keep G"
  shows "once_store (gate_attempt E G) (gate_slot E) (slot_taken (ge_ledger E))"
proof
  fix s k fl
  assume "snd (gate_attempt E G s k fl)"
  then obtain fs1 fs2 r io where g: "keeps_tree s fs1" "gate_slot E k = record_slot (ge_sha E) r"
      "ledger_attempt (ge_sha E) (ge_ledger E) fs1 r io = (fs2, True)" "keeps_tree fs2 (fst (gate_attempt E G s k fl))"
    using gate_success [OF assms] by metis
  then have "\<not> slot_taken (ge_ledger E) fs1 (gate_slot E k)" "slot_taken (ge_ledger E) fs2 (gate_slot E k)"
    using once.success_free [of "ge_sha E" "ge_ledger E" fs1 r io] once.success_takes [of "ge_sha E" "ge_ledger E" fs1 r io] by simp_all
  then show "\<not> slot_taken (ge_ledger E) s (gate_slot E k)" "slot_taken (ge_ledger E) (fst (gate_attempt E G s k fl)) (gate_slot E k)"
    using keeps_taken g by metis+
next
  fix s k fl and x :: "string option"
  assume "slot_taken (ge_ledger E) s x"
  then show "slot_taken (ge_ledger E) (fst (gate_attempt E G s k fl)) x"
    using keeps_taken [OF gate_attempt_keeps [OF assms]] by metis
qed

text \<open>What a call consumes: an activation, or a session.\<close>

fun consumed_identity :: "('ca, 'ma) gate_call \<Rightarrow> ustring option + ustring" where
  "consumed_identity (Create c) = Inl (map_option (\<lambda>a. activation_id (act_decision a)) (sc_receipt c))"
| "consumed_identity (Consume s c) = Inr (session_id s)"

lemma slot_of_identity: "consumed_identity k = consumed_identity k' \<Longrightarrow> gate_slot E k = gate_slot E k'"
  by (cases k; cases k') (auto simp: record_slot_def activation_record_for_def consumed_record_for_def split: Option.bind_splits)

lemma distinct_map_factor: "distinct (map g xs) \<Longrightarrow> (\<And>x y. f x = f y \<Longrightarrow> g x = g y) \<Longrightarrow> distinct (map f xs)"
  unfolding distinct_map inj_on_def by blast

lemma gate_single_use:
  assumes "gates_keep G" and "fair_run (slot_taken (ge_ledger E)) (gate_attempt E G) fs es"
  shows "distinct (map consumed_identity (successes (gate_attempt E G) fs es))"
  by (rule distinct_map_factor [OF once_store.success_once [OF gate_once [OF assms(1)] assms(2)] slot_of_identity])


section \<open>What a created session rests on\<close>

text \<open>The checks and digests see the tree only through the places its paths lead to.\<close>

lemma keeps_resolves: "keeps_tree fs fs' \<Longrightarrow> resolve fs' = resolve fs"
  by (rule ext) (rule keeps_resolve)

lemmas path_checks = runtime_request_digest_def request_payload_def isolation_digest_def receipt_for_def session_for_def
  store_isolation_rejection_def ledger_isolation_rejection_def binding_rejection_def in_execution_roots_def
  call_rejection_def custody_binds_def

lemma receipt_for_keeps:
  assumes "keeps_tree fs fs'"
  shows "receipt_for sha fs' i who t d a q r ob av = receipt_for sha fs i who t d a q r ob av"
  unfolding path_checks keeps_resolves [OF assms] ..

lemma session_for_keeps:
  assumes "keeps_tree fs fs'"
  shows "session_for sha fs' a q r ob av = session_for sha fs a q r ob av"
  unfolding path_checks keeps_resolves [OF assms] ..

lemma store_isolation_keeps:
  assumes "keeps_tree fs fs'"
  shows "store_isolation_rejection fs' root q = store_isolation_rejection fs root q"
  unfolding path_checks keeps_resolves [OF assms] ..

lemma call_keeps:
  assumes "keeps_tree fs fs'"
  shows "call_rejection E fs' c = call_rejection E fs c"
  unfolding path_checks keeps_resolves [OF assms] ..

lemma custody_binds_keeps:
  assumes "keeps_tree fs fs'"
  shows "custody_binds fs' c q r = custody_binds fs c q r"
  unfolding path_checks keeps_resolves [OF assms] ..

lemma approval_validated:
  assumes "validate_approval E fl fs presented a q r ob av = (fs', Inr None)"
  obtains p where "presented = Some p" and "store_isolation_rejection fs (ge_approvals E) q = None"
    and "read_approval (ge_sha E) (ge_parse E) fl (ge_approvals E) fs (approval_id p) = (fs', Inr (Some p))"
    and "receipt_for (ge_sha E) fs' (approval_id p) (approver_identity p) (Some (ap_occurred_at p)) (ap_disposition p) a q r ob av = Inr p"
    and "ap_disposition p = APPROVED"
proof -
  obtain p where p: "presented = Some p" "store_isolation_rejection fs (ge_approvals E) q = None"
    using assms by (auto simp: validate_approval_def split: option.splits)
  obtain fs1 res where ra: "read_approval (ge_sha E) (ge_parse E) fl (ge_approvals E) fs (approval_id p) = (fs1, res)" by fastforce
  have x: "res = Inr (Some p) \<and> and_then (fs1, receipt_for (ge_sha E) fs1 (approval_id p) (approver_identity p) (Some (ap_occurred_at p))
      (ap_disposition p) a q r ob av) (\<lambda>fs' expected. (fs', Inr (if expected \<noteq> p then Some APPROVAL_BINDING_MISMATCH
         else if ap_disposition p = DENIED then Some APPROVAL_DENIED else None))) = (fs', Inr None)"
    using assms by (auto simp: validate_approval_def p ra split: sum.splits store_exn.splits option.splits if_split_asm)
  then obtain e where "receipt_for (ge_sha E) fs1 (approval_id p) (approver_identity p) (Some (ap_occurred_at p))
      (ap_disposition p) a q r ob av = Inr e" "fs1 = fs'" "e = p" "ap_disposition p \<noteq> DENIED"
    unfolding and_then_Inr_iff by (auto split: if_splits)
  moreover from this have "ap_disposition p = APPROVED" by (cases "ap_disposition p") simp_all
  ultimately show ?thesis using that p ra x by metis
qed

lemma readiness_reason_of_rejected: "readiness_rejected w = Inr x \<Longrightarrow> rd_reason (ra_decision x) = Some w"
  by (auto simp: readiness_rejected_def bind_res_Inr_iff make_readiness_decision_def make_readiness_admission_def guarded_Inr_iff
      simp del: first_error.simps)

lemma ready_evidence:
  assumes "validate_readiness G fs ev q r av = (fs', Inr x)" and "rd_reason (ra_decision x) = None"
  obtains e c ca m ma fs1 where "ev = Some e" and "ev_custody_request e = Some c" and "ev_custody_attestation e = Some ca"
    and "ev_manifest e = Some m" and "ev_composition_attestation e = Some ma" and "custody_validate G fs ca c = (fs1, Inr None)"
    and "custody_binds fs1 c q r" and "composition_validate G fs1 ma m = (fs', Inr None)" and "composition_binds m q r av"
  using assms
  by (auto simp: validate_readiness_def dest!: readiness_reason_of_rejected
      split: option.splits prod.splits if_splits sum.splits Option.bind_splits)

lemma created_session_approved:
  assumes "create_session E G fl fs c = (fs', Inr m)" and "sd_disposition (sa_decision m) = SESSION_CREATED" and "gates_keep G"
  shows "\<exists>a ob av p s fs1 e cu ca cm ma.
    sc_receipt c = Some a \<and> act_disposition (act_decision a) = APPROVED_TO_START \<and> sc_observer c = Some ob \<and> sc_availability c = Some av \<and>
    sc_approval c = Some p \<and> ap_disposition p = APPROVED \<and> keeps_tree fs fs1 \<and>
    snd (read_approval (ge_sha E) (ge_parse E) (gf_approval fl) (ge_approvals E) fs1 (approval_id p)) = Inr (Some p) \<and>
    receipt_for (ge_sha E) fs (approval_id p) (approver_identity p) (Some (ap_occurred_at p)) APPROVED a (sc_request c) (sc_runtime c) ob av = Inr p \<and>
    sc_evidence c = Some e \<and> ev_custody_request e = Some cu \<and> ev_custody_attestation e = Some ca \<and> ev_manifest e = Some cm \<and>
    ev_composition_attestation e = Some ma \<and> snd (custody_validate G fs ca cu) = Inr None \<and> custody_binds fs cu (sc_request c) (sc_runtime c) \<and>
    composition_binds cm (sc_request c) (sc_runtime c) (Some av) \<and>
    sa_session m = Some s \<and> session_for (ge_sha E) fs a (sc_request c) (sc_runtime c) ob av = Inr s"
proof -
  obtain a ob av fs1 where c: "call_rejection E fs c = None" "sc_receipt c = Some a" "sc_observer c = Some ob"
      "sc_availability c = Some av" "evidence_rejection E G (gf_approval fl) fs c a ob av = (fs1, Inr None)"
      "claim_and_issue E fl fs1 c a ob av = (fs', Inr m)"
    using created_session [OF assms(1,2)] by metis
  have ap: "act_disposition (act_decision a) = APPROVED_TO_START"
    using c(1,2) by (auto simp: call_rejection_def binding_rejection_def Let_def split: option.splits if_splits)
  obtain fs0 x where r: "validate_readiness G fs (sc_evidence c) (sc_request c) (sc_runtime c) (sc_availability c) = (fs0, Inr x)"
      "rd_reason (ra_decision x) = None"
    and v: "validate_approval E (gf_approval fl) fs0 (sc_approval c) a (sc_request c) (sc_runtime c) ob av = (fs1, Inr None)"
    using c(5) unfolding evidence_rejection_def and_then_Inr_iff by (auto simp: and_then_Inr_iff split: option.splits)
  have k0: "keeps_tree fs fs0" using validate_readiness_keeps [OF assms(3), of fs "sc_evidence c"] r(1) by (metis fst_conv)
  obtain e cu ca cm ma fsc where e: "sc_evidence c = Some e" "ev_custody_request e = Some cu" "ev_custody_attestation e = Some ca"
      "ev_manifest e = Some cm" "ev_composition_attestation e = Some ma" "custody_validate G fs ca cu = (fsc, Inr None)"
      "custody_binds fsc cu (sc_request c) (sc_runtime c)" "composition_binds cm (sc_request c) (sc_runtime c) (sc_availability c)"
    using ready_evidence [OF r] by metis
  have kc: "keeps_tree fs fsc" using assms(3) e(6) unfolding gates_keep_def by (metis fst_conv)
  obtain p where p: "sc_approval c = Some p" "ap_disposition p = APPROVED"
      "read_approval (ge_sha E) (ge_parse E) (gf_approval fl) (ge_approvals E) fs0 (approval_id p) = (fs1, Inr (Some p))"
      "receipt_for (ge_sha E) fs1 (approval_id p) (approver_identity p) (Some (ap_occurred_at p)) (ap_disposition p) a (sc_request c) (sc_runtime c) ob av = Inr p"
    using approval_validated [OF v] by metis
  have k1: "keeps_tree fs fs1" using evidence_keeps [OF assms(3), of fs E "gf_approval fl" c a ob av] c(5) by simp
  obtain fs2 where i: "ledger_attempt (ge_sha E) (ge_ledger E) fs1 (activation_record_for (ge_sha E) a) (gf_first fl) = (fs2, True)"
      "issue_session E (gf_second fl) fs2 c a ob av = (fs', Inr m)"
    using claimed_and_issued [OF c(6) assms(2)] by metis
  have "keeps_tree fs1 fs2" using i(1) claim_keeps [of fs1 "ge_sha E" "gf_first fl" "ge_ledger E"]
    by (metis (no_types, lifting) ledger_attempt_def fst_conv prod.case_eq_if)
  then have k2: "keeps_tree fs fs2" using k1 keeps_trans by blast
  obtain s where s: "session_for (ge_sha E) fs2 a (sc_request c) (sc_runtime c) ob av = Inr s" "created s = Inr m"
    using issued_session [OF i(2) assms(2)] by metis
  show ?thesis
    using c(2,3,4) ap p e receipt_for_keeps [OF k1] session_for_keeps [OF k2] s created_Inr [OF s(2)] k0 custody_binds_keeps [OF kc]
    by (metis snd_conv)
qed

section \<open>Recorded approvals last\<close>

lemma same_links_link_free: "same_links fs fs' \<Longrightarrow> link_free fs base p \<Longrightarrow> link_free fs' base p"
  by (induction p arbitrary: base) (auto simp: same_links_def split: option.splits entry.splits)

text \<open>A control root whose lock file is there stays as it is.\<close>

definition root_in_use :: "string \<Rightarrow> fs \<Rightarrow> path \<Rightarrow> bool" where
  "root_in_use lock fs root \<longleftrightarrow> control_root_ok lock fs root \<and> fs (root @ [lock]) \<noteq> None"

lemma root_in_use_keeps: "root_in_use lock fs root \<Longrightarrow> keeps_tree fs fs' \<Longrightarrow> root_in_use lock fs' root"
  unfolding root_in_use_def control_root_ok_def keeps_tree_def
  using same_links_link_free [of fs fs' "[]" root] by auto

lemma root_in_use_locked: "root_in_use lock fs root \<Longrightarrow> locked_root lock fs root False = Inr fs"
  using locked_root_ok [of lock fs root False] by (auto simp: root_in_use_def)

lemma locked_in_use:
  assumes "control_root_ok lock fs root" and "locked_root lock fs root fault = Inr fs'"
  shows "root_in_use lock fs' root"
proof -
  have "fs' = (if fs (root @ [lock]) = None then fs(root @ [lock] \<mapsto> File True []) else fs)"
    using assms(2) locked_root_ok [OF assms(1), of fault] by (auto split: if_splits)
  then show ?thesis using assms(1) by (auto simp: root_in_use_def control_root_ok_def link_free_update)
qed

lemma make_approval_claim_Inr: "make_approval_claim c = Inr c' \<Longrightarrow> c' = c"
  by (auto simp: make_approval_claim_def guarded_Inr_iff simp del: first_error.simps)

lemma approval_claimed_writes:
  assumes "claim_approval sha parse fl root fs r = (fs', Inr k)" and "ac_disposition k = APPROVAL_CLAIMED"
  obtains fs1 n where "locked_root approval_lock fs root (fault_lock fl) = Inr fs1" and "approval_name sha (approval_id r) = Some n"
    and "fs1 (place fs1 (root @ [n])) = None"
    and "fs' = fs1(place fs1 (root @ [n]) \<mapsto> File True (encode_text (dumps (approval_file r))))"
proof -
  obtain fs1 where l: "locked_root approval_lock fs root (fault_lock fl) = Inr fs1"
    using assms by (auto simp: claim_approval_def split: sum.splits)
  then have w: "approval_write_unlocked sha fl fs1 root r = (fs', None)"
    using assms by (auto simp: claim_approval_def split: sum.splits option.splits prod.splits if_splits dest!: make_approval_claim_Inr)
  then obtain n where n: "approval_name sha (approval_id r) = Some n"
    by (auto simp: approval_write_unlocked_def split: option.splits)
  have "write_new fl fs1 (root @ [n]) (encode_text (dumps (approval_file r))) = (fs', None)"
    using w n by (simp add: approval_write_unlocked_def)
  then show ?thesis
    using that [OF l n] write_new_done [of fl fs1 "root @ [n]" "encode_text (dumps (approval_file r))"] by simp
qed

lemma approval_name_not_lock: "approval_name sha i = Some n \<Longrightarrow> n \<noteq> approval_lock"
  by (auto simp: approval_name_def approval_lock_def)

lemma approval_lasts:
  assumes c: "control_root_ok approval_lock fs root"
    and k: "claim_approval sha parse fl root fs r = (fs', Inr k)" "ac_disposition k = APPROVAL_CLAIMED"
    and v: "make_approval sha r = Inr r" "approval_texts_ok r" and p: "parse (isoformat (ap_occurred_at r)) = Some (ap_occurred_at r)"
    and later: "keeps_tree fs' fs''"
  shows "read_approval sha parse no_store_faults root fs'' (approval_id r) = (fs'', Inr (Some r))"
    and "keeps_tree fs fs'"
proof -
  obtain fs1 n where w: "locked_root approval_lock fs root (fault_lock fl) = Inr fs1" "approval_name sha (approval_id r) = Some n"
      "fs1 (place fs1 (root @ [n])) = None" "fs' = fs1(place fs1 (root @ [n]) \<mapsto> File True (encode_text (dumps (approval_file r))))"
    using approval_claimed_writes [OF k] by metis
  have u: "root_in_use approval_lock fs1 root" using locked_in_use [OF c w(1)] .
  have k1: "keeps_tree fs1 fs'"
    unfolding w(4) using w(3) same_links_new_file [of fs1 "place fs1 (root @ [n])"] by (auto simp: keeps_tree_def)
  then show "keeps_tree fs fs'" using keeps_trans [OF locked_keeps [OF w(1)]] by blast
  have u': "root_in_use approval_lock fs'' root"
    using root_in_use_keeps [OF root_in_use_keeps [OF u k1] later] .
  have "link_free fs1 [] root" using u by (simp add: root_in_use_def control_root_ok_def)
  then have "fs' (root @ [n]) = Some (File True (encode_text (dumps (approval_file r))))"
    using w(4) by (simp add: place_snoc)
  then have f: "fs'' (root @ [n]) = Some (File True (encode_text (dumps (approval_file r))))"
    using later by (auto simp: keeps_tree_def)
  have lf: "link_free fs'' [] root" using u' by (simp add: root_in_use_def control_root_ok_def)
  have "approval_read_unlocked sha parse fs'' root (approval_id r) = Inr (Some r)"
    by (rule approval_read_written [where parse = parse, OF lf w(2) f v p])
  then show "read_approval sha parse no_store_faults root fs'' (approval_id r) = (fs'', Inr (Some r))"
    using root_in_use_locked [OF u'] approval_digests_ok(6) [OF v(1)] by (simp add: read_approval_def no_store_faults_def)
qed

lemma recorded_approval:
  assumes "record_approval E fl fs i who occurred d a q r ob av = (fs', Inr adm)" and "admitted_receipt adm = Some p"
  obtains k where "store_isolation_rejection fs (ge_approvals E) q = None"
    and "receipt_for (ge_sha E) fs i who occurred d a q r ob av = Inr p"
    and "claim_approval (ge_sha E) (ge_parse E) fl (ge_approvals E) fs p = (fs', Inr k)" and "ac_disposition k = APPROVAL_CLAIMED"
proof -
  have rej: "approval_rejected w = Inr adm \<Longrightarrow> False" for w
    using assms(2) by (auto simp: approval_rejected_def make_approval_admission_def guarded_Inr_iff simp del: first_error.simps)
  have i: "store_isolation_rejection fs (ge_approvals E) q = None"
    using assms(1) rej by (auto simp: record_approval_def split: option.splits)
  obtain p' where p: "receipt_for (ge_sha E) fs i who occurred d a q r ob av = Inr p'"
    using assms(1) i by (auto simp: record_approval_def and_then_Inr_iff)
  obtain fs1 res where cl: "claim_approval (ge_sha E) (ge_parse E) fl (ge_approvals E) fs p' = (fs1, res)" by fastforce
  have x: "(case (fs1, res) of
              (fs', Inl (Corrupt _)) \<Rightarrow> (fs', approval_rejected APPROVAL_STORE_CORRUPT)
            | (fs', Inl (Unavailable _)) \<Rightarrow> (fs', approval_rejected APPROVAL_STORE_UNAVAILABLE)
            | (fs', Inl e) \<Rightarrow> (fs', Inl (LedgerExn e))
            | (fs', Inr c) \<Rightarrow>
                (fs', (case ac_disposition c of
                    APPROVAL_CLAIMED \<Rightarrow> make_approval_admission \<lparr>admitted_receipt = Some p', admission_reason = None\<rparr>
                  | APPROVAL_DUPLICATE \<Rightarrow> approval_rejected APPROVAL_ID_DUPLICATE
                  | APPROVAL_CONFLICT \<Rightarrow> approval_rejected APPROVAL_ID_CONFLICT))) = (fs', Inr adm)"
    using assms(1) by (simp add: record_approval_def i p cl)
  then obtain k where k: "res = Inr k" "fs1 = fs'" "ac_disposition k = APPROVAL_CLAIMED"
      "make_approval_admission \<lparr>admitted_receipt = Some p', admission_reason = None\<rparr> = Inr adm"
    using rej by (cases res) (auto split: store_exn.splits approval_claim_disposition.splits)
  then have "p' = p" using assms(2) by (auto simp: make_approval_admission_def guarded_Inr_iff simp del: first_error.simps)
  then show ?thesis using that i p cl k by simp
qed

lemma receipt_for_fixed:
  assumes "receipt_for sha fs i who (Some t) d a q r ob av = Inr p"
  shows "receipt_for sha fs (approval_id p) (approver_identity p) (Some (ap_occurred_at p)) (ap_disposition p) a q r ob av = Inr p"
    and "make_approval sha p = Inr p" and "ap_occurred_at p = t" and "ap_disposition p = d"
proof -
  have "approval_id p = i" "approver_identity p = who" and t: "ap_occurred_at p = t" and d: "ap_disposition p = d" and "make_approval sha p = Inr p"
    using assms by (auto simp: receipt_for_def issue_def canonical_occurrence_def bind_res_Inr_iff make_approval_Inr_iff)
  then show "receipt_for sha fs (approval_id p) (approver_identity p) (Some (ap_occurred_at p)) (ap_disposition p) a q r ob av = Inr p"
    "make_approval sha p = Inr p" using assms by simp_all
  show "ap_occurred_at p = t" "ap_disposition p = d" using t d .
qed

lemma recorded_approval_lasts:
  assumes "control_root_ok approval_lock fs (ge_approvals E)"
    and "record_approval E fl fs i who (Some t) d a q r ob av = (fs', Inr adm)" and "admitted_receipt adm = Some p"
    and "approval_texts_ok p" and "ge_parse E (isoformat t) = Some t" and "keeps_tree fs' fs''"
  shows "validate_approval E no_store_faults fs'' (Some p) a q r ob av = (fs'', Inr (if d = DENIED then Some APPROVAL_DENIED else None))"
proof -
  obtain k where k: "store_isolation_rejection fs (ge_approvals E) q = None"
      "receipt_for (ge_sha E) fs i who (Some t) d a q r ob av = Inr p"
      "claim_approval (ge_sha E) (ge_parse E) fl (ge_approvals E) fs p = (fs', Inr k)" "ac_disposition k = APPROVAL_CLAIMED"
    using recorded_approval [OF assms(2,3)] by metis
  note fixed = receipt_for_fixed [OF k(2)]
  have l: "read_approval (ge_sha E) (ge_parse E) no_store_faults (ge_approvals E) fs'' (approval_id p) = (fs'', Inr (Some p))"
    and k1: "keeps_tree fs fs'"
    using approval_lasts [OF assms(1) k(3,4) fixed(2) assms(4) _ assms(6)] assms(5) fixed(3) by auto
  have k2: "keeps_tree fs fs''" using keeps_trans [OF k1 assms(6)] .
  show ?thesis
    using k(1) store_isolation_keeps [OF k2] l fixed receipt_for_keeps [OF k2] by (simp add: validate_approval_def)
qed

end
