(* ===== verification/SessionLife.thy ===== *)
theory SessionLife
  imports Session
begin

text \<open>
  The life of a session: records of the ledger last, what a claim, a creation and a consumption answer
  by what the slots of the ledger hold, and runs of claims.
\<close>

section \<open>The ledger over the life of a session\<close>

lemma in_use_ok: "root_in_use lock fs root \<Longrightarrow> control_root_ok lock fs root"
  by (simp add: root_in_use_def)

lemma ok_link_free: "control_root_ok lock fs root \<Longrightarrow> link_free fs [] root"
  by (simp add: control_root_ok_def)

lemma taken_iff_view: "link_free fs [] root \<Longrightarrow> slot_taken root fs (Some n) \<longleftrightarrow> ledger_view root fs n \<noteq> Free"
  by (simp add: slot_taken_def place_snoc view_free_iff)

text \<open>A record that is held stays held, whatever is added.\<close>

lemma held_lasts:
  assumes "link_free fs [] root" and "ledger_view root fs n = Held r" and "keeps_tree fs fs'"
  shows "ledger_view root fs' n = Held r"
proof -
  have "fs (root @ [n]) \<noteq> None" using view_free_iff [OF assms(1), of n] assms(2) by auto
  then have "fs' (root @ [n]) = fs (root @ [n])" using assms(3) by (simp add: keeps_tree_def)
  moreover have "link_free fs' [] root" using assms(1,3) same_links_link_free by (auto simp: keeps_tree_def)
  ultimately show ?thesis using view_cong [OF assms(1)] assms(2) by simp
qed

definition valid_record :: "replay_record \<Rightarrow> bool" where
  "valid_record r \<longleftrightarrow> make_replay_record r = Inr r \<and> ustring_ok (identity_key r)"

lemma attempt_holds:
  assumes c: "control_root_ok ledger_lock fs root" and v: "valid_record r" and n: "record_slot sha r = Some n"
    and a: "ledger_attempt sha root fs r fl = (fs', True)"
  shows "root_in_use ledger_lock fs' root" and "ledger_view root fs' n = Held r" and "keeps_tree fs fs'"
proof -
  obtain k where k: "claim sha fl root fs r = (fs', Inr k)" "disposition k = CLAIMED"
    using a by (auto simp: ledger_attempt_def split: prod.splits)
  show "keeps_tree fs fs'" using claim_keeps [of fs sha fl root r] k by simp
  obtain fs1 where w: "locked_root ledger_lock fs root (fault_lock fl) = Inr fs1" "fs1 (place fs1 (root @ [n])) = None"
      "fs' = fs1(place fs1 (root @ [n]) \<mapsto> File True (encode_text (dumps (to_payload r))))"
    using claimed_writes [OF k] n by (metis option.inject)
  have u: "root_in_use ledger_lock fs1 root" using locked_in_use [OF c w(1)] .
  then have lf: "link_free fs1 [] root" by (rule ok_link_free [OF in_use_ok])
  have fs': "fs1 (root @ [n]) = None" "fs' = fs1(root @ [n] \<mapsto> File True (encode_text (dumps (to_payload r))))"
    using w(2,3) place_snoc [OF lf] by simp_all
  have "keeps_tree fs1 fs'"
    unfolding fs'(2) using fs'(1) same_links_new_file [of fs1 "root @ [n]"] by (auto simp: keeps_tree_def)
  then show "root_in_use ledger_lock fs' root" using root_in_use_keeps [OF u] by blast
  have "n \<noteq> ledger_lock" using n record_name_not_lock by (auto simp: record_slot_def)
  then have "ledger_view root fs' = (ledger_view root fs1)(n := Held r)"
    using written_slots(2) [OF in_use_ok [OF u] _ fs'(1) _ _ fs'(2)] v by (simp add: valid_record_def)
  then show "ledger_view root fs' n = Held r" by simp
qed

text \<open>A claim without failures, on a free slot and on one that holds the record.\<close>

lemma claim_answers:
  assumes "claim sha fl root fs r = (fs', res)"
  shows "claim_view res = Claimed \<Longrightarrow> res = Inr \<lparr>disposition = CLAIMED, existing_record = None\<rparr>"
    and "claim_view res = Already r' \<Longrightarrow> res = Inr \<lparr>disposition = ALREADY_CLAIMED, existing_record = Some r'\<rparr>"
proof -
  have "res = Inl e \<Longrightarrow> claim_view res = Refused" for e by (simp add: claim_view_def)
  moreover have "res = Inr k \<Longrightarrow> k = \<lparr>disposition = CLAIMED, existing_record = None\<rparr> \<or>
      (\<exists>x. k = \<lparr>disposition = ALREADY_CLAIMED, existing_record = Some x\<rparr> \<or> k = \<lparr>disposition = CONFLICT, existing_record = Some x\<rparr>)" for k
    using assms by (auto simp: claim_def split: sum.splits option.splits prod.splits if_splits dest!: make_claim_Inr)
  ultimately show "claim_view res = Claimed \<Longrightarrow> res = Inr \<lparr>disposition = CLAIMED, existing_record = None\<rparr>"
    and "claim_view res = Already r' \<Longrightarrow> res = Inr \<lparr>disposition = ALREADY_CLAIMED, existing_record = Some r'\<rparr>"
    by (cases res; fastforce simp: claim_view_def)+
qed

lemma claim_fresh:
  assumes "control_root_ok ledger_lock fs root" and "valid_record r" and "record_slot sha r = Some n" and "ledger_view root fs n = Free"
  shows "\<exists>fs'. claim sha no_store_faults root fs r = (fs', Inr \<lparr>disposition = CLAIMED, existing_record = None\<rparr>)"
proof -
  obtain fs' res where c: "claim sha no_store_faults root fs r = (fs', res)" by fastforce
  have "claim_view res = Claimed"
    using claim_refines_slots [OF assms(1) _ _ _ c, of n] assms(2-4) by (simp add: valid_record_def record_slot_def)
  then show ?thesis using claim_answers(1) [OF c] c by simp
qed

lemma claim_replayed:
  assumes "control_root_ok ledger_lock fs root" and "valid_record r" and "record_slot sha r = Some n" and "ledger_view root fs n = Held r"
  shows "\<exists>fs'. claim sha no_store_faults root fs r = (fs', Inr \<lparr>disposition = ALREADY_CLAIMED, existing_record = Some r\<rparr>)"
proof -
  obtain fs' res where c: "claim sha no_store_faults root fs r = (fs', res)" by fastforce
  have "claim_view res = Already r"
    using claim_refines_slots [OF assms(1) _ _ _ c, of n] assms(2-4) by (simp add: valid_record_def record_slot_def)
  then show ?thesis using claim_answers(2) [OF c] c by simp
qed

lemma read_held:
  assumes "root_in_use ledger_lock fs root" and "valid_record r" and "record_slot sha r = Some n" and "ledger_view root fs n = Held r"
  shows "read_record sha no_store_faults root fs (rec_kind r) (identity_key r) = (fs, Inr (Some r))"
proof -
  have lf: "link_free fs [] root" using ok_link_free [OF in_use_ok [OF assms(1)]] .
  have "\<not> is_symlink fs (root @ [n])" using assms(4) by (auto simp: ledger_view_def split: if_splits)
  then have "read_unlocked sha fs root (rec_kind r) (identity_key r) = Inr (Some r)"
    using read_unlocked_view [OF lf, of sha "rec_kind r" "identity_key r" n] assms(3,4) by (simp add: record_slot_def)
  then show ?thesis
    using root_in_use_locked [OF assms(1)] assms(2)
    by (simp add: read_record_def no_store_faults_def valid_record_def make_replay_record_Inr)
qed

section \<open>The records of a session\<close>

lemma digest_record_valid:
  assumes "hex_hash sha" and "hex_digest i"
  shows "valid_record \<lparr>rec_kind = k, identity_key = i, rec_binding_digest = json_digest sha j\<rparr>"
  using json_digest_hex [OF assms(1), of j] assms(2) hex_not_blank
  by (auto simp: valid_record_def make_replay_record_Inr hex_digest_def hex_ok)

lemma session_id_hex: "hex_hash sha \<Longrightarrow> session_for sha fs a q r ob av = Inr s \<Longrightarrow> hex_digest (session_id s)"
  by (auto simp: session_for_def bind_res_Inr_iff make_session_def guarded_Inr_iff json_digest_hex simp del: first_error.simps)

lemma session_records_valid:
  assumes "hex_hash sha" and "session_for sha fs a q r ob av = Inr s"
  shows "valid_record (issued_record_for sha s)" and "valid_record (consumed_record_for sha s)"
  using digest_record_valid [OF assms(1) session_id_hex [OF assms]]
  by (simp_all add: issued_record_for_def consumed_record_for_def session_binding_digest_def)

lemma record_slot_valid: "valid_record r \<Longrightarrow> \<exists>n. record_slot sha r = Some n"
  using record_name_Some_iff [of sha "rec_kind r" "identity_key r"] by (simp add: valid_record_def record_slot_def)

lemma session_texts:
  assumes "session_for sha fs a q r ob av = Inr s"
  shows "\<not> blank_ustring (session_id s)" and "\<not> blank_ustring (cs_execution_id s)" and "\<not> blank_ustring (cs_run_id s)"
proof -
  have "make_session s = Inr s"
    using assms by (auto simp: session_for_def bind_res_Inr_iff make_session_def guarded_Inr_iff)
  then show "\<not> blank_ustring (session_id s)" "\<not> blank_ustring (cs_execution_id s)" "\<not> blank_ustring (cs_run_id s)"
    by (auto simp: make_session_def guarded_Inr_iff first_error_None_iff empty_field_def simp del: first_error.simps)
qed

lemma start_decision:
  assumes "session_for sha fs a q r ob av = Inr s" and "hex_hash sha"
  shows "make_session_decision \<lparr>sd_disposition = RUNTIME_START_ALLOWED, sd_session_id = Some (session_id s),
             sd_execution_id = Some (cs_execution_id s), sd_run_id = Some (cs_run_id s), sd_reason = None\<rparr> =
         Inr \<lparr>sd_disposition = RUNTIME_START_ALLOWED, sd_session_id = Some (session_id s),
             sd_execution_id = Some (cs_execution_id s), sd_run_id = Some (cs_run_id s), sd_reason = None\<rparr>"
  using session_texts [OF assms(1)] by (simp add: make_session_decision_def missing_field_def guarded_def)

definition no_gate_faults :: gate_faults where
  "no_gate_faults = \<lparr>gf_approval = no_store_faults, gf_first = no_store_faults, gf_second = no_store_faults\<rparr>"

lemma ledger_record_valid: "valid_record r \<Longrightarrow> ledger_record r = Inr r"
  by (simp add: valid_record_def ledger_record_def)

text \<open>Consuming an issued session: by what the slot of its start holds.\<close>

lemma consume_issued:
  assumes c: "call_rejection E fs c = None" "sc_receipt c = Some a" "sc_observer c = Some ob" "sc_availability c = Some av"
    and s: "session_for (ge_sha E) fs a (sc_request c) (sc_runtime c) ob av = Inr s" and h: "hex_hash (ge_sha E)"
    and u: "root_in_use ledger_lock fs (ge_ledger E)"
    and i: "record_slot (ge_sha E) (issued_record_for (ge_sha E) s) = Some n" "ledger_view (ge_ledger E) fs n = Held (issued_record_for (ge_sha E) s)"
  shows "consume_for_runtime_start E no_gate_faults fs s c = claim_start E no_store_faults fs s"
proof -
  have "gate_read E no_store_faults fs (issued_record_for (ge_sha E) s) = (fs, Inr (Inr (Some (issued_record_for (ge_sha E) s))))"
    using read_held [OF u session_records_valid(1) [OF h s] i] by (simp add: gate_read_def)
  then show ?thesis
    using c s ledger_record_valid [OF session_records_valid(1) [OF h s]]
    by (simp add: consume_for_runtime_start_def start_once_def no_gate_faults_def)
qed

lemma claim_start_fresh:
  assumes s: "session_for (ge_sha E) fs0 a q r ob av = Inr s" and h: "hex_hash (ge_sha E)"
    and u: "root_in_use ledger_lock fs (ge_ledger E)"
    and i: "record_slot (ge_sha E) (consumed_record_for (ge_sha E) s) = Some n" "ledger_view (ge_ledger E) fs n = Free"
  shows "\<exists>fs'. claim_start E no_store_faults fs s = (fs', Inr \<lparr>sd_disposition = RUNTIME_START_ALLOWED, sd_session_id = Some (session_id s),
             sd_execution_id = Some (cs_execution_id s), sd_run_id = Some (cs_run_id s), sd_reason = None\<rparr>) \<and>
           ledger_attempt (ge_sha E) (ge_ledger E) fs (consumed_record_for (ge_sha E) s) no_store_faults = (fs', True)"
  using claim_fresh [OF in_use_ok [OF u] session_records_valid(2) [OF h s] i] ledger_record_valid [OF session_records_valid(2) [OF h s]]
    start_decision [OF s h] by (auto simp: claim_start_def gate_claim_def ledger_attempt_def)

lemma claim_start_replayed:
  assumes s: "session_for (ge_sha E) fs0 a q r ob av = Inr s" and h: "hex_hash (ge_sha E)"
    and u: "root_in_use ledger_lock fs (ge_ledger E)"
    and i: "record_slot (ge_sha E) (consumed_record_for (ge_sha E) s) = Some n" "ledger_view (ge_ledger E) fs n = Held (consumed_record_for (ge_sha E) s)"
  shows "\<exists>fs'. claim_start E no_store_faults fs s = (fs', refused SESSION_ALREADY_CONSUMED)"
  using claim_replayed [OF in_use_ok [OF u] session_records_valid(2) [OF h s] i] ledger_record_valid [OF session_records_valid(2) [OF h s]]
  by (auto simp: claim_start_def gate_claim_def)


text \<open>A directory no part of whose path is a link; a claim that gets its lock there has a usable control root.\<close>

definition real_dir :: "fs \<Rightarrow> path \<Rightarrow> bool" where
  "real_dir fs root \<longleftrightarrow> link_free fs [] root \<and> fs root = Some Dir"

lemma real_dir_keeps: "real_dir fs root \<Longrightarrow> keeps_tree fs fs' \<Longrightarrow> real_dir fs' root"
  using same_links_link_free by (auto simp: real_dir_def keeps_tree_def)

lemma attempt_root_ok:
  assumes "real_dir fs root" and "ledger_attempt sha root fs r fl = (fs', True)"
  shows "control_root_ok ledger_lock fs root"
proof -
  obtain fs1 where "locked_root ledger_lock fs root (fault_lock fl) = Inr fs1"
    using assms(2) by (auto simp: ledger_attempt_def claim_def split: prod.splits sum.splits)
  then show ?thesis
    using assms(1) place_snoc [of fs root ledger_lock]
    by (auto simp: real_dir_def control_root_ok_def locked_root_def split: if_splits option.splits entry.splits bool.splits)
qed

lemma attempt_keeps_tree: "ledger_attempt sha root fs r fl = (fs', x) \<Longrightarrow> keeps_tree fs fs'"
  using claim_keeps [of fs sha fl root r] by (auto simp: ledger_attempt_def split: prod.splits)

text \<open>After its creation a session is issued, and the ledger is in use.\<close>

lemma created_issued:
  assumes h: "hex_hash (ge_sha E)" and k: "gates_keep G" and ok: "real_dir fs (ge_ledger E)"
    and cr: "create_session E G fl fs c = (fs1, Inr m)" "sd_disposition (sa_decision m) = SESSION_CREATED" "sa_session m = Some s"
  obtains a ob av n where "call_rejection E fs c = None" and "sc_receipt c = Some a" and "sc_observer c = Some ob"
    and "sc_availability c = Some av" and "session_for (ge_sha E) fs a (sc_request c) (sc_runtime c) ob av = Inr s"
    and "root_in_use ledger_lock fs1 (ge_ledger E)" and "record_slot (ge_sha E) (issued_record_for (ge_sha E) s) = Some n"
    and "ledger_view (ge_ledger E) fs1 n = Held (issued_record_for (ge_sha E) s)" and "keeps_tree fs fs1"
proof -
  obtain a ob av fsa where c: "call_rejection E fs c = None" "sc_receipt c = Some a" "sc_observer c = Some ob" "sc_availability c = Some av"
      "evidence_rejection E G (gf_approval fl) fs c a ob av = (fsa, Inr None)" "claim_and_issue E fl fsa c a ob av = (fs1, Inr m)"
    using created_session [OF cr(1,2)] by metis
  obtain fsb where b: "ledger_attempt (ge_sha E) (ge_ledger E) fsa (activation_record_for (ge_sha E) a) (gf_first fl) = (fsb, True)"
      "issue_session E (gf_second fl) fsb c a ob av = (fs1, Inr m)"
    using claimed_and_issued [OF c(6) cr(2)] by metis
  have "keeps_tree fs fsa" using evidence_keeps [OF k, of fs E "gf_approval fl" c a ob av] c(5) by simp
  then have kb: "keeps_tree fs fsb" using attempt_keeps_tree [OF b(1)] keeps_trans by blast
  obtain s' where i: "session_for (ge_sha E) fsb a (sc_request c) (sc_runtime c) ob av = Inr s'"
      "ledger_attempt (ge_sha E) (ge_ledger E) fsb (issued_record_for (ge_sha E) s') (gf_second fl) = (fs1, True)" "created s' = Inr m"
    using issued_session [OF b(2) cr(2)] by metis
  have s: "s' = s" using created_Inr [OF i(3)] cr(3) by simp
  note v = session_records_valid(1) [OF h i(1), unfolded s]
  obtain n where n: "record_slot (ge_sha E) (issued_record_for (ge_sha E) s) = Some n" using record_slot_valid [OF v] by blast
  note held = attempt_holds [OF attempt_root_ok [OF real_dir_keeps [OF ok kb] i(2) [unfolded s]] v n i(2) [unfolded s]]
  show ?thesis
    using that c(1-4) i(1) session_for_keeps [OF kb] held(1,2) n s keeps_trans [OF kb held(3)] by metis
qed

lemma created_session_starts_once:
  assumes h: "hex_hash (ge_sha E)" and k: "gates_keep G" and ok: "real_dir fs (ge_ledger E)"
    and cr: "create_session E G fl fs c = (fs1, Inr m)" "sd_disposition (sa_decision m) = SESSION_CREATED" "sa_session m = Some s"
    and later: "keeps_tree fs1 fs2" and unused: "\<not> slot_taken (ge_ledger E) fs2 (record_slot (ge_sha E) (consumed_record_for (ge_sha E) s))"
  shows "\<exists>fs3. consume_for_runtime_start E no_gate_faults fs2 s c = (fs3, Inr \<lparr>sd_disposition = RUNTIME_START_ALLOWED,
      sd_session_id = Some (session_id s), sd_execution_id = Some (cs_execution_id s), sd_run_id = Some (cs_run_id s),
      sd_reason = None\<rparr>) \<and>
    (\<forall>fs4. keeps_tree fs3 fs4 \<longrightarrow> snd (consume_for_runtime_start E no_gate_faults fs4 s c) = refused SESSION_ALREADY_CONSUMED)"
proof -
  obtain a ob av n where c: "call_rejection E fs c = None" "sc_receipt c = Some a" "sc_observer c = Some ob" "sc_availability c = Some av"
      "session_for (ge_sha E) fs a (sc_request c) (sc_runtime c) ob av = Inr s" "root_in_use ledger_lock fs1 (ge_ledger E)"
      "record_slot (ge_sha E) (issued_record_for (ge_sha E) s) = Some n"
      "ledger_view (ge_ledger E) fs1 n = Held (issued_record_for (ge_sha E) s)" "keeps_tree fs fs1"
    using created_issued [OF h k ok cr] by metis
  let ?con = "consumed_record_for (ge_sha E) s"
  have con: "consume_for_runtime_start E no_gate_faults f s c = claim_start E no_store_faults f s \<and> root_in_use ledger_lock f (ge_ledger E)"
    if "keeps_tree fs1 f" for f
  proof -
    have kf: "keeps_tree fs f" using keeps_trans [OF c(9) that] .
    have u: "root_in_use ledger_lock f (ge_ledger E)" using root_in_use_keeps [OF c(6) that] .
    have "ledger_view (ge_ledger E) f n = Held (issued_record_for (ge_sha E) s)"
      using held_lasts [OF ok_link_free [OF in_use_ok [OF c(6)]] c(8) that] .
    then show ?thesis
      using consume_issued [OF _ c(2-4) _ h u c(7)] call_keeps [OF kf] session_for_keeps [OF kf] c(1,5) u by metis
  qed
  note v = session_records_valid(2) [OF h c(5)]
  obtain n' where n': "record_slot (ge_sha E) ?con = Some n'" using record_slot_valid [OF v] by blast
  have u2: "root_in_use ledger_lock fs2 (ge_ledger E)" using con [OF later] by blast
  have "ledger_view (ge_ledger E) fs2 n' = Free"
    using unused n' taken_iff_view [OF ok_link_free [OF in_use_ok [OF u2]]] by simp
  from claim_start_fresh [OF c(5) h u2 n' this] obtain fs3 where f: "claim_start E no_store_faults fs2 s = (fs3, Inr
        \<lparr>sd_disposition = RUNTIME_START_ALLOWED, sd_session_id = Some (session_id s),
         sd_execution_id = Some (cs_execution_id s), sd_run_id = Some (cs_run_id s), sd_reason = None\<rparr>)"
      "ledger_attempt (ge_sha E) (ge_ledger E) fs2 ?con no_store_faults = (fs3, True)" by blast
  note held = attempt_holds [OF in_use_ok [OF u2] v n' f(2)]
  have "snd (consume_for_runtime_start E no_gate_faults f4 s c) = refused SESSION_ALREADY_CONSUMED" if k4: "keeps_tree fs3 f4" for f4
  proof -
    have "keeps_tree fs1 f4" using keeps_trans [OF keeps_trans [OF later held(3)] k4] .
    note c4 = con [OF this]
    have "ledger_view (ge_ledger E) f4 n' = Held ?con"
      using held_lasts [OF ok_link_free [OF in_use_ok [OF held(1)]] held(2) k4] .
    from claim_start_replayed [OF c(5) h _ n' this] c4 show ?thesis by (metis snd_conv)
  qed
  then show ?thesis using con [OF later] f(1) by auto
qed

section \<open>What creation answers\<close>

lemma names_differ: "record_slot sha r = Some n \<Longrightarrow> record_slot sha r' = Some n \<Longrightarrow> rec_kind r = rec_kind r'"
  by (cases "rec_kind r"; cases "rec_kind r'") (auto simp: record_slot_def record_name_def)

lemma read_errors: "read_json fs p = Inl e \<Longrightarrow> (\<exists>m. e = Corrupt m) \<or> (\<exists>m. e = Unavailable m)"
  by (auto simp: read_json_def split: if_splits option.splits)

lemma payload_errors: "from_payload j = Inl e \<Longrightarrow> \<exists>m. e = Corrupt m"
  by (auto simp: from_payload_def split: json.splits if_splits option.splits)

lemma claim_errors:
  assumes c: "claim sha no_store_faults root fs r = (fs', Inl e)" and ok: "control_root_ok ledger_lock fs root" and n: "record_slot sha r = Some n"
  shows "(\<exists>m. e = Corrupt m) \<or> (\<exists>m. e = Unavailable m)"
proof -
  obtain fs1 where l: "locked_root ledger_lock fs root False = Inr fs1"
    using locked_root_ok [OF ok, of False] by simp
  have r: "read_unlocked sha fs1 root (rec_kind r) (identity_key r) = Inl x \<Longrightarrow> (\<exists>m. x = Corrupt m) \<or> (\<exists>m. x = Unavailable m)" for x
    using n read_errors payload_errors
    by (auto simp: read_unlocked_def record_slot_def bind_res_Inl_iff split: option.splits if_splits)
  have w: "write_unlocked sha no_store_faults fs1 root r = (f, Some x) \<Longrightarrow> \<exists>m. x = Unavailable m" for f x
    using n by (auto simp: write_unlocked_def record_slot_def write_new_def no_store_faults_def split: if_splits)
  have m: "make_claim \<lparr>disposition = CLAIMED, existing_record = None\<rparr> \<noteq> Inl x"
      "make_claim \<lparr>disposition = (if y = r then ALREADY_CLAIMED else CONFLICT), existing_record = Some y\<rparr> \<noteq> Inl x" for x y
    by (auto simp: make_claim_def guarded_def)
  show ?thesis
    using c l r w m by (auto simp: claim_def no_store_faults_def split: sum.splits option.splits prod.splits)
qed

lemma created_value:
  assumes "session_for sha fs a q r ob av = Inr s"
  shows "created s = Inr \<lparr>sa_session = Some s, sa_decision = \<lparr>sd_disposition = SESSION_CREATED, sd_session_id = Some (session_id s),
         sd_execution_id = Some (cs_execution_id s), sd_run_id = Some (cs_run_id s), sd_reason = None\<rparr>\<rparr>"
  using session_texts [OF assms]
  by (simp add: created_def make_session_decision_def make_session_admission_def missing_field_def guarded_def)

text \<open>The answers to a claim, by what its slot holds.\<close>

fun claim_reply :: "replay_record \<Rightarrow> replay_record slot \<Rightarrow> session_reason + ledger_claim \<Rightarrow> bool" where
  "claim_reply r Free x \<longleftrightarrow> x = Inr \<lparr>disposition = CLAIMED, existing_record = None\<rparr>"
| "claim_reply r (Held r') x \<longleftrightarrow>
     (if r' = r then x = Inr \<lparr>disposition = ALREADY_CLAIMED, existing_record = Some r'\<rparr>
      else if same_key r r' then x = Inr \<lparr>disposition = CONFLICT, existing_record = Some r'\<rparr>
      else x \<in> {Inl REPLAY_LEDGER_CORRUPT, Inl REPLAY_LEDGER_UNAVAILABLE})"
| "claim_reply r Damaged x \<longleftrightarrow> x \<in> {Inl REPLAY_LEDGER_CORRUPT, Inl REPLAY_LEDGER_UNAVAILABLE}"

lemma gate_claim_slots:
  assumes ok: "control_root_ok ledger_lock fs (ge_ledger E)" and v: "valid_record r" and n: "record_slot (ge_sha E) r = Some n"
  obtains fs' x where "gate_claim E no_store_faults fs r = (fs', Inr x)" and "control_root_ok ledger_lock fs' (ge_ledger E)"
    and "claim_reply r (ledger_view (ge_ledger E) fs n) x"
    and "\<forall>k. k \<noteq> n \<and> k \<noteq> ledger_lock \<longrightarrow> ledger_view (ge_ledger E) fs' k = ledger_view (ge_ledger E) fs k"
proof -
  obtain fs' res where c: "claim (ge_sha E) no_store_faults (ge_ledger E) fs r = (fs', res)" by fastforce
  have R: "control_root_ok ledger_lock fs' (ge_ledger E)"
      "same_slots (ledger_view (ge_ledger E) fs') (fst (spec_claim same_key (ledger_view (ge_ledger E) fs) n r))"
      "claim_view res = snd (spec_claim same_key (ledger_view (ge_ledger E) fs) n r)"
    using claim_refines_slots [OF ok _ _ _ c, of n] v n by (simp_all add: valid_record_def record_slot_def)
  have others: "\<forall>k. k \<noteq> n \<and> k \<noteq> ledger_lock \<longrightarrow> ledger_view (ge_ledger E) fs' k = ledger_view (ge_ledger E) fs k"
    using R(2) by (auto simp: same_slots_def split: slot.splits)
  have conf: "claim_view res = Conflicting r' \<Longrightarrow> res = Inr \<lparr>disposition = CONFLICT, existing_record = Some r'\<rparr>" for r'
    by (cases res) (auto simp: claim_view_def split: claim_disposition.splits option.splits intro!: ledger_claim.equality)
  have ref: "claim_view res = Refused \<Longrightarrow> \<exists>e. res = Inl e"
    by (cases res) (auto simp: claim_view_def split: claim_disposition.splits option.splits)
  obtain x where x: "gate_claim E no_store_faults fs r = (fs', Inr x)" "(\<exists>k. res = Inr k \<and> x = Inr k) \<or>
      (\<exists>e. res = Inl e \<and> x \<in> {Inl REPLAY_LEDGER_CORRUPT, Inl REPLAY_LEDGER_UNAVAILABLE})"
  proof (cases res)
    case (Inl e)
    then show ?thesis using that claim_errors [OF c [unfolded Inl] ok n] c by (auto simp: gate_claim_def reason_or_raise_def)
  next
    case (Inr k)
    then show ?thesis using that c by (auto simp: gate_claim_def)
  qed
  have "claim_reply r (ledger_view (ge_ledger E) fs n) x"
    using R(3) x(2) claim_answers [OF c] conf ref
    by (cases "ledger_view (ge_ledger E) fs n") (fastforce split: if_splits)+
  then show ?thesis using that x(1) R(1) others by blast
qed

lemma no_gate_faults_fields:
  "gf_approval no_gate_faults = no_store_faults" "gf_first no_gate_faults = no_store_faults" "gf_second no_gate_faults = no_store_faults"
  by (simp_all add: no_gate_faults_def)

lemma creation_outcome:
  assumes h: "hex_hash (ge_sha E)"
    and c: "call_rejection E fs c = None" "sc_receipt c = Some a" "sc_observer c = Some ob" "sc_availability c = Some av"
    and ev: "evidence_rejection E G no_store_faults fs c a ob av = (fs1, Inr None)"
    and ok: "control_root_ok ledger_lock fs1 (ge_ledger E)" and act: "valid_record (activation_record_for (ge_sha E) a)"
    and s: "\<And>f. keeps_tree fs1 f \<Longrightarrow> session_for (ge_sha E) f a (sc_request c) (sc_runtime c) ob av = Inr s"
    and n: "record_slot (ge_sha E) (activation_record_for (ge_sha E) a) = Some n"
    and i: "record_slot (ge_sha E) (issued_record_for (ge_sha E) s) = Some n'" "ledger_view (ge_ledger E) fs1 n' = Free"
  shows "\<exists>w \<in> {REPLAY_LEDGER_CORRUPT, REPLAY_LEDGER_UNAVAILABLE}. snd (create_session E G no_gate_faults fs c) =
    (case ledger_view (ge_ledger E) fs1 n of
       Free \<Rightarrow> Inr \<lparr>sa_session = Some s, sa_decision = \<lparr>sd_disposition = SESSION_CREATED, sd_session_id = Some (session_id s),
         sd_execution_id = Some (cs_execution_id s), sd_run_id = Some (cs_run_id s), sd_reason = None\<rparr>\<rparr>
     | Held r \<Rightarrow> if r = activation_record_for (ge_sha E) a then session_rejected ACTIVATION_RECEIPT_REPLAYED
         else if same_key (activation_record_for (ge_sha E) a) r then session_rejected REPLAY_LEDGER_CONFLICT
         else session_rejected w
     | Damaged \<Rightarrow> session_rejected w)"
proof -
  let ?act = "activation_record_for (ge_sha E) a" and ?iss = "issued_record_for (ge_sha E) s"
  have "create_session E G no_gate_faults fs c = claim_and_issue E no_gate_faults fs1 c a ob av"
    using c ev by (simp add: create_session_def no_gate_faults_fields)
  moreover obtain fs2 x where x: "gate_claim E no_store_faults fs1 ?act = (fs2, Inr x)" "control_root_ok ledger_lock fs2 (ge_ledger E)"
    "claim_reply ?act (ledger_view (ge_ledger E) fs1 n) x"
    and o': "\<forall>k. k \<noteq> n \<and> k \<noteq> ledger_lock \<longrightarrow> ledger_view (ge_ledger E) fs2 k = ledger_view (ge_ledger E) fs1 k"
    by (rule gate_claim_slots [OF ok act n])
  ultimately have cr: "create_session E G no_gate_faults fs c = (case x of Inl w \<Rightarrow> (fs2, session_rejected w)
       | Inr k \<Rightarrow>
           if disposition k = ALREADY_CLAIMED then (fs2, session_rejected ACTIVATION_RECEIPT_REPLAYED)
           else if disposition k = CONFLICT then (fs2, session_rejected REPLAY_LEDGER_CONFLICT)
           else issue_session E no_store_faults fs2 c a ob av)"
    using ledger_record_valid [OF act] unfolding claim_and_issue_def no_gate_faults_fields by simp
  have k2: "keeps_tree fs1 fs2" using gate_claim_keeps [of fs1 E no_store_faults ?act] x(1) by simp
  have vi: "valid_record ?iss" using session_records_valid(1) [OF h s [OF k2]] .
  have "n' \<noteq> n" using names_differ [OF n, of ?iss] i(1) by (auto simp: activation_record_for_def issued_record_for_def)
  moreover have "n' \<noteq> ledger_lock" using i(1) record_name_not_lock by (auto simp: record_slot_def)
  ultimately have "ledger_view (ge_ledger E) fs2 n' = Free" using o' i(2) by simp
  note free = this
  obtain fs3 where "gate_claim E no_store_faults fs2 ?iss = (fs3, Inr (Inr \<lparr>disposition = CLAIMED, existing_record = None\<rparr>))"
    by (rule gate_claim_slots [OF x(2) vi i(1)]) (simp add: free)
  then have "issue_session E no_store_faults fs2 c a ob av = (fs3, created s)"
    using s [OF k2] ledger_record_valid [OF vi] by (simp add: issue_session_def)
  note issue = this
  show ?thesis
  proof (cases "ledger_view (ge_ledger E) fs1 n")
    case Free
    then show ?thesis using cr x(3) issue created_value [OF s [OF k2]] by auto
  next
    case (Held r)
    then consider "r = ?act" "x = Inr \<lparr>disposition = ALREADY_CLAIMED, existing_record = Some r\<rparr>"
      | "r \<noteq> ?act" "same_key ?act r" "x = Inr \<lparr>disposition = CONFLICT, existing_record = Some r\<rparr>"
      | w where "r \<noteq> ?act" "\<not> same_key ?act r" "w \<in> {REPLAY_LEDGER_CORRUPT, REPLAY_LEDGER_UNAVAILABLE}" "x = Inl w"
      using x(3) by (auto split: if_splits)
    then show ?thesis by cases (use cr Held in auto)
  next
    case Damaged
    then show ?thesis using cr x(3) by auto
  qed
qed

text \<open>With both slots free a session is created, and no other slot changes.\<close>

lemma creation_free:
  assumes h: "hex_hash (ge_sha E)"
    and c: "call_rejection E fs c = None" "sc_receipt c = Some a" "sc_observer c = Some ob" "sc_availability c = Some av"
    and ev: "evidence_rejection E G no_store_faults fs c a ob av = (fs1, Inr None)"
    and ok: "control_root_ok ledger_lock fs1 (ge_ledger E)" and act: "valid_record (activation_record_for (ge_sha E) a)"
    and s: "\<And>f. keeps_tree fs1 f \<Longrightarrow> session_for (ge_sha E) f a (sc_request c) (sc_runtime c) ob av = Inr s"
    and n: "record_slot (ge_sha E) (activation_record_for (ge_sha E) a) = Some n" "ledger_view (ge_ledger E) fs1 n = Free"
    and i: "record_slot (ge_sha E) (issued_record_for (ge_sha E) s) = Some n'" "ledger_view (ge_ledger E) fs1 n' = Free"
  shows "\<exists>fs'. create_session E G no_gate_faults fs c = (fs', Inr \<lparr>sa_session = Some s, sa_decision = \<lparr>sd_disposition = SESSION_CREATED,
       sd_session_id = Some (session_id s), sd_execution_id = Some (cs_execution_id s), sd_run_id = Some (cs_run_id s), sd_reason = None\<rparr>\<rparr>) \<and>
     control_root_ok ledger_lock fs' (ge_ledger E) \<and>
     (\<forall>k. k \<notin> {n, n', ledger_lock} \<longrightarrow> ledger_view (ge_ledger E) fs' k = ledger_view (ge_ledger E) fs1 k)"
proof -
  let ?act = "activation_record_for (ge_sha E) a" and ?iss = "issued_record_for (ge_sha E) s"
  obtain fs2 where g: "gate_claim E no_store_faults fs1 ?act = (fs2, Inr (Inr \<lparr>disposition = CLAIMED, existing_record = None\<rparr>))"
      "control_root_ok ledger_lock fs2 (ge_ledger E)"
      "\<forall>k. k \<noteq> n \<and> k \<noteq> ledger_lock \<longrightarrow> ledger_view (ge_ledger E) fs2 k = ledger_view (ge_ledger E) fs1 k"
    by (rule gate_claim_slots [OF ok act n(1)]) (simp add: n(2))
  have k2: "keeps_tree fs1 fs2" using gate_claim_keeps [of fs1 E no_store_faults ?act] g(1) by simp
  have vi: "valid_record ?iss" using session_records_valid(1) [OF h s [OF k2]] .
  have "n' \<noteq> n" using names_differ [OF n(1), of ?iss] i(1) by (auto simp: activation_record_for_def issued_record_for_def)
  moreover have "n' \<noteq> ledger_lock" using i(1) record_name_not_lock by (auto simp: record_slot_def)
  ultimately have free: "ledger_view (ge_ledger E) fs2 n' = Free" using g(3) i(2) by simp
  obtain fs3 where j: "gate_claim E no_store_faults fs2 ?iss = (fs3, Inr (Inr \<lparr>disposition = CLAIMED, existing_record = None\<rparr>))"
      "control_root_ok ledger_lock fs3 (ge_ledger E)"
      "\<forall>k. k \<noteq> n' \<and> k \<noteq> ledger_lock \<longrightarrow> ledger_view (ge_ledger E) fs3 k = ledger_view (ge_ledger E) fs2 k"
    by (rule gate_claim_slots [OF g(2) vi i(1)]) (simp add: free)
  have "create_session E G no_gate_faults fs c = (fs3, created s)"
    using c ev g(1) j(1) s [OF k2] ledger_record_valid [OF act] ledger_record_valid [OF vi]
    by (simp add: create_session_def no_gate_faults_fields claim_and_issue_def issue_session_def)
  then show ?thesis using created_value [OF s [OF k2]] g(3) j(2,3) by simp
qed

section \<open>Runs of claims\<close>

fun claim_run :: "(bytes \<Rightarrow> string) \<Rightarrow> path \<Rightarrow> fs \<Rightarrow> replay_record list \<Rightarrow> fs \<times> replay_record claim_result list" where
  "claim_run sha root fs [] = (fs, [])"
| "claim_run sha root fs (r # rs) =
     (case claim sha no_store_faults root fs r of (fs1, res) \<Rightarrow>
       (case claim_run sha root fs1 rs of (fs2, ress) \<Rightarrow> (fs2, claim_view res # ress)))"

fun spec_run :: "(bytes \<Rightarrow> string) \<Rightarrow> (string \<Rightarrow> replay_record slot) \<Rightarrow> replay_record list \<Rightarrow>
    (string \<Rightarrow> replay_record slot) \<times> replay_record claim_result list" where
  "spec_run sha st [] = (st, [])"
| "spec_run sha st (r # rs) =
     (case spec_claim same_key st (the (record_slot sha r)) r of (st1, res) \<Rightarrow>
       (case spec_run sha st1 rs of (st2, ress) \<Rightarrow> (st2, res # ress)))"

lemma spec_claim_same_slots:
  assumes "same_slots st st'" and "n \<noteq> ledger_lock"
  shows "snd (spec_claim same_key st n r) = snd (spec_claim same_key st' n r)"
    and "same_slots (fst (spec_claim same_key st n r)) (fst (spec_claim same_key st' n r))"
proof -
  have "st n = st' n" using assms by (simp add: same_slots_def)
  then show "snd (spec_claim same_key st n r) = snd (spec_claim same_key st' n r)"
    "same_slots (fst (spec_claim same_key st n r)) (fst (spec_claim same_key st' n r))"
    using assms(1) by (cases "st' n"; simp add: same_slots_def)+
qed

lemma claim_run_refines:
  assumes "control_root_ok ledger_lock fs root" and "\<forall>r \<in> set rs. valid_record r" and "same_slots (ledger_view root fs) st"
  shows "snd (claim_run sha root fs rs) = snd (spec_run sha st rs) \<and>
    same_slots (ledger_view root (fst (claim_run sha root fs rs))) (fst (spec_run sha st rs))"
  using assms
proof (induction rs arbitrary: fs st)
  case (Cons r rs)
  obtain n where n: "record_slot sha r = Some n" using Cons.prems(2) record_slot_valid by fastforce
  obtain fs1 res where c: "claim sha no_store_faults root fs r = (fs1, res)" by fastforce
  have v: "make_replay_record r = Inr r" "ustring_ok (identity_key r)" using Cons.prems(2) by (simp_all add: valid_record_def)
  note R = claim_refines_slots [OF Cons.prems(1) v n [unfolded record_slot_def] c]
  have nl: "n \<noteq> ledger_lock" using n record_name_not_lock by (auto simp: record_slot_def)
  note S = spec_claim_same_slots [OF Cons.prems(3) nl, of r]
  have "same_slots (ledger_view root fs1) (fst (spec_claim same_key st n r))"
    using R S(2) by (simp add: same_slots_def)
  then have "snd (claim_run sha root fs1 rs) = snd (spec_run sha (fst (spec_claim same_key st n r)) rs) \<and>
    same_slots (ledger_view root (fst (claim_run sha root fs1 rs))) (fst (spec_run sha (fst (spec_claim same_key st n r)) rs))"
    using Cons.IH [of fs1] R Cons.prems(2) by simp
  then show ?case using R S(1) c n by (simp split: prod.splits) (metis fst_conv snd_conv)
qed simp

end
