(* ===== verification/Session_Properties.thy ===== *)
theory Session_Properties
  imports SessionLife
begin

text \<open>
  The properties of the governed session boundary: admission of activations, approvals that last, the
  ledger as an abstract store of claims, and sessions that are created and started once. The witnesses
  share one small tree of files.
\<close>

section \<open>A tree, a request and its evidence\<close>

definition demo_hash :: "bytes \<Rightarrow> string" where
  "demo_hash b = replicate 64 (CHR ''0'')"

definition demo_time :: utc_time where
  "demo_time = \<lparr>t_year = 2025, t_month = 1, t_day = 2, t_hour = 3, t_minute = 4, t_second = 5, t_micro = 0\<rparr>"

definition demo_env :: gate_env where
  "demo_env = \<lparr>ge_sha = demo_hash, ge_parse = (\<lambda>s. Some demo_time), ge_approvals = [''p''], ge_ledger = [''k'']\<rparr>"

definition demo_policy :: provider_policy where
  "demo_policy = \<lparr>max_attempts = 1, allow_fallback = False, timeout_ms = 1000, max_schema_repair_attempts = 0,
     max_total_tokens = 100, max_estimated_cost = NInt 1\<rparr>"

definition demo_observer :: observer where
  "demo_observer = \<lparr>observer_class = code_points ''m.Observer'', observer_id = 7, observer_operations = True\<rparr>"

definition demo_activation :: activation_request where
  "demo_activation = \<lparr>req_confirmation = Some \<lparr>confirmation_id = code_points ''c'', confirmed_execution = code_points ''e'', affirmed = True\<rparr>,
     req_policy = Some demo_policy,
     req_isolation = \<lparr>iso_workspace = Some [''w''], iso_audit = Some [''a''], iso_source = Some [''s''], iso_execution = code_points ''e''\<rparr>,
     req_observer = Some demo_observer\<rparr>"

definition demo_receipt :: activation_receipt where
  "demo_receipt = \<lparr>act_decision = \<lparr>act_disposition = APPROVED_TO_START, act_execution = code_points ''e'',
       activation_id = code_points (demo_hash []), act_reason = None\<rparr>, policy_digest = code_points (demo_hash [])\<rparr>"

definition demo_runtime :: runtime_request where
  "demo_runtime = \<lparr>rr_goal = code_points ''g'', rr_workspace = [''w''], rr_repository = [''w''], rr_capabilities = [code_points ''m''],
     rr_intent = \<lparr>ip_capability = code_points ''m'', ip_operations = [code_points ''create_file''], ip_max_content_bytes = 10,
       ip_preservation = [], ip_schema = code_points ''1.0''\<rparr>, rr_constraints = [], rr_recovery_rules = [],
     rr_execution = code_points ''e'', rr_run = code_points ''r'',
     rr_budget = \<lparr>max_iterations = 2, max_mutations = 2, max_verifications = 2, iterations_used = 0, mutations_used = 0,
       verifications_used = 0\<rparr>,
     rr_gateway = \<lparr>gw_max_attempts = 1, gw_timeout_ms = 1000, gw_max_total_tokens = 100, gw_max_estimated_cost = NInt 1,
       gw_max_schema_repair_attempts = 0, gw_allow_fallback = False, gw_redact = True\<rparr>, rr_contract = code_points ''1.0''\<rparr>"

definition demo_available :: runtime_availability where
  "demo_available = \<lparr>runtime_id = code_points ''rt'', available = True\<rparr>"

definition demo_dirs :: fs where
  "demo_dirs = [[] \<mapsto> Dir, [''w''] \<mapsto> Dir, [''s''] \<mapsto> Dir, [''a''] \<mapsto> Dir, [''k''] \<mapsto> Dir, [''p''] \<mapsto> Dir]"

definition demo_approval :: approval_receipt where
  "demo_approval = \<lparr>approval_id = code_points ''i'', approver_identity = code_points ''who'', ap_occurred_at = demo_time,
     ap_disposition = APPROVED, ap_activation_id = code_points (demo_hash []), ap_receipt_digest = code_points (demo_hash []),
     ap_execution_id = code_points ''e'', ap_run_id = code_points ''r'', ap_request_digest = code_points (demo_hash []),
     ap_policy_digest = code_points (demo_hash []), ap_isolation_digest = code_points (demo_hash []),
     ap_observer_identity = observer_identity demo_observer, ap_runtime_id = code_points ''rt'',
     ap_binding_digest = code_points (demo_hash [])\<rparr>"

definition demo_gates :: "(unit, unit) readiness_gates" where
  "demo_gates = \<lparr>custody_validate = (\<lambda>fs a c. (fs, Inr None)), composition_validate = (\<lambda>fs a m. (fs, Inr None))\<rparr>"

definition demo_custody :: custody_request where
  "demo_custody = \<lparr>cu_attestation = code_points ''wa'', cu_execution = code_points ''e'', cu_run = code_points ''r'',
     cu_workspace_id = code_points ''w'', cu_workspace = [''w''], cu_source = [''s''], cu_audit = [''a''], cu_control = [''p''],
     cu_policy = default_custody_policy, cu_request_id = code_points ''wa:request''\<rparr>"

definition demo_manifest :: composition_manifest where
  "demo_manifest = \<lparr>cm_composition = code_points ''m'', cm_execution = code_points ''e'', cm_run = code_points ''r'',
     cm_runtime = code_points ''rt'', cm_executor = code_points ''x'',
     cm_components = [\<lparr>ci_role = code_points ''x'', ci_component = code_points ''i'', ci_version = code_points ''r'',
       ci_digest = code_points (demo_hash [])\<rparr>], cm_dependencies = [],
     cm_policy_digest = code_points (demo_hash []), cm_invocation_digest = code_points (demo_hash []), cm_contract = code_points ''r''\<rparr>"

definition demo_call :: "(unit, unit) session_call" where
  "demo_call = \<lparr>sc_receipt = Some demo_receipt, sc_approval = Some demo_approval, sc_request = demo_activation, sc_runtime = demo_runtime,
     sc_observer = Some demo_observer, sc_availability = Some demo_available,
     sc_evidence = Some \<lparr>ev_custody_request = Some demo_custody, ev_custody_attestation = Some (),
       ev_manifest = Some demo_manifest, ev_composition_attestation = Some ()\<rparr>\<rparr>"

lemmas demo_defs = demo_env_def demo_policy_def demo_observer_def demo_activation_def demo_receipt_def demo_runtime_def
  demo_available_def demo_approval_def demo_gates_def demo_call_def

lemma demo_hash_constant: "demo_hash b = demo_hash []"
  by (simp add: demo_hash_def)

lemma demo_digest: "json_digest demo_hash j = code_points (demo_hash [])"
  by (simp add: json_digest_def demo_hash_def)

lemma demo_hex: "hex_digest (code_points (demo_hash []))"
  by (simp add: demo_hash_def hex_digest_def code_points_def lower_hex_def list_all_iff)

lemma demo_hex_hash: "hex_hash demo_hash"
  unfolding hex_hash_def using demo_hex demo_hash_constant by metis

lemma demo_gates_keep: "gates_keep demo_gates"
  by (simp add: gates_keep_def demo_gates_def)

lemma demo_nonblank: "\<not> blank_ustring (code_points ''e'')" "\<not> blank_ustring (code_points ''r'')" "\<not> blank_ustring (code_points ''rt'')"
    "\<not> blank_ustring (code_points ''i'')" "\<not> blank_ustring (code_points ''who'')" "\<not> blank_ustring (code_points ''c'')"
    "\<not> blank_ustring (observer_identity demo_observer)" "\<not> blank_ustring (code_points (demo_hash []))"
  using hex_not_blank [OF demo_hex]
  by (simp_all add: blank_ustring_def code_points_def unicode_space_def observer_identity_def demo_observer_def)

lemma demo_resolve: "resolve demo_dirs [''w''] = [''w'']" "resolve demo_dirs [''s''] = [''s'']" "resolve demo_dirs [''a''] = [''a'']"
    "resolve demo_dirs [''k''] = [''k'']" "resolve demo_dirs [''p''] = [''p'']"
  by (simp_all add: resolve_def demo_dirs_def)

lemma demo_request_digest: "runtime_request_digest demo_hash demo_dirs demo_runtime = Inr (code_points (demo_hash []))"
proof -
  have "text_digest demo_hash (code_points ''g'') = Inr (code_points (demo_hash []))" "text_digest demo_hash [] = Inr (code_points (demo_hash []))"
    using ustring_ok_points [of "''g''"] by (simp_all add: text_digest_def utf8_strict_def demo_hash_def ustring_ok_def)
  then show ?thesis by (simp add: runtime_request_digest_def demo_runtime_def demo_digest)
qed

lemma demo_isolation_digest: "isolation_digest demo_hash demo_dirs demo_activation = Inr (code_points (demo_hash []))"
  by (simp add: isolation_digest_def demo_activation_def demo_digest)

lemma demo_approval_valid: "make_approval demo_hash demo_approval = Inr demo_approval"
  using demo_nonblank demo_hex
  by (simp add: make_approval_Inr_iff approval_errors_def empty_field_def digest_field_def demo_approval_def
      calculate_binding_digest_def demo_digest)

lemma demo_receipt_for:
  "receipt_for demo_hash demo_dirs (code_points ''i'') (code_points ''who'') (Some demo_time) APPROVED demo_receipt demo_activation demo_runtime
     demo_observer demo_available = Inr demo_approval"
proof -
  have "rr_execution demo_runtime = code_points ''e''" "rr_run demo_runtime = code_points ''r''" by (simp_all add: demo_runtime_def)
  then show ?thesis
    using demo_approval_valid
    by (simp add: receipt_for_def demo_request_digest demo_isolation_digest issue_def canonical_occurrence_def receipt_digest_def
        calculate_binding_digest_def demo_digest demo_approval_def demo_receipt_def demo_available_def)
qed

lemma demo_call_ok: "call_rejection demo_env demo_dirs demo_call = None"
  by (simp add: call_rejection_def binding_rejection_def ledger_isolation_rejection_def in_execution_roots_def inside_def
      demo_env_def demo_call_def demo_receipt_def demo_activation_def demo_runtime_def demo_available_def demo_policy_def
      runtime_policy_digest_def demo_digest demo_resolve)

text \<open>The tree once the approval was recorded.\<close>

definition demo_tree :: fs where
  "demo_tree = demo_dirs([''p'', ''approval-'' @ demo_hash [] @ ''.json''] \<mapsto> File True (encode_text (dumps (approval_file demo_approval))),
     [''p'', approval_lock] \<mapsto> File True [])"

lemma demo_tree_keeps: "keeps_tree demo_dirs demo_tree"
  by (auto simp: keeps_tree_def same_links_def demo_tree_def demo_dirs_def)

lemma ustring_ok_append [simp]: "ustring_ok (s @ t) \<longleftrightarrow> ustring_ok s \<and> ustring_ok t"
  by (simp add: ustring_ok_def)

lemma demo_texts_ok: "approval_texts_ok demo_approval"
  by (simp add: approval_texts_ok_def demo_approval_def observer_identity_def demo_observer_def ustring_ok_points)

lemma demo_approval_stored:
  "read_approval demo_hash (ge_parse demo_env) no_store_faults [''p''] demo_tree (code_points ''i'') = (demo_tree, Inr (Some demo_approval))"
proof -
  have root: "root_in_use approval_lock demo_tree [''p'']"
    by (simp add: root_in_use_def control_root_ok_def demo_tree_def demo_dirs_def)
  have name: "approval_name demo_hash (approval_id demo_approval) = Some (''approval-'' @ demo_hash [] @ ''.json'')"
    using ustring_ok_points [of "''i''"] by (simp add: approval_name_def utf8_strict_def demo_approval_def demo_hash_def)
  have "approval_read_unlocked demo_hash (ge_parse demo_env) demo_tree [''p''] (approval_id demo_approval) = Inr (Some demo_approval)"
    by (rule approval_read_written [OF ok_link_free [OF in_use_ok [OF root]] name _ demo_approval_valid demo_texts_ok])
      (simp_all add: demo_tree_def demo_env_def demo_approval_def approval_lock_def)
  then show ?thesis
    using root_in_use_locked [OF root] demo_nonblank by (simp add: read_approval_def no_store_faults_def demo_approval_def)
qed


lemma demo_evidence:
  "evidence_rejection demo_env demo_gates no_store_faults demo_tree demo_call demo_receipt demo_observer demo_available = (demo_tree, Inr None)"
proof -
  have "custody_binds demo_tree demo_custody demo_activation demo_runtime"
    by (simp add: custody_binds_keeps [OF demo_tree_keeps] custody_binds_def demo_custody_def demo_activation_def demo_runtime_def)
  moreover have "composition_binds demo_manifest demo_activation demo_runtime (Some demo_available)"
    by (simp add: composition_binds_def demo_manifest_def demo_activation_def demo_runtime_def demo_available_def)
  ultimately have "\<exists>x. validate_readiness demo_gates demo_tree (sc_evidence demo_call) demo_activation demo_runtime (Some demo_available)
      = (demo_tree, Inr x) \<and> rd_reason (ra_decision x) = None"
    by (simp add: validate_readiness_def demo_gates_def demo_call_def make_readiness_decision_def make_readiness_admission_def guarded_def)
  moreover have "store_isolation_rejection demo_tree [''p''] demo_activation = None"
    unfolding store_isolation_keeps [OF demo_tree_keeps]
    by (simp add: store_isolation_rejection_def demo_activation_def in_execution_roots_def inside_def demo_resolve)
  then have "validate_approval demo_env no_store_faults demo_tree (Some demo_approval) demo_receipt demo_activation demo_runtime
      demo_observer demo_available = (demo_tree, Inr None)"
    using demo_approval_stored receipt_for_keeps [OF demo_tree_keeps] demo_receipt_for
    by (simp add: validate_approval_def demo_env_def demo_approval_def)
  ultimately show ?thesis by (auto simp: evidence_rejection_def demo_call_def)
qed


definition demo_session :: controlled_session where
  "demo_session = \<lparr>session_id = code_points (demo_hash []), cs_activation_id = code_points (demo_hash []),
     cs_receipt_digest = code_points (demo_hash []), cs_execution_id = code_points ''e'', cs_run_id = code_points ''r'',
     cs_request_digest = code_points (demo_hash []), cs_policy_digest = code_points (demo_hash []),
     cs_isolation_digest = code_points (demo_hash []), cs_observer_identity = observer_identity demo_observer,
     cs_runtime_id = code_points ''rt''\<rparr>"

lemma demo_session_for:
  assumes "keeps_tree demo_dirs f"
  shows "session_for demo_hash f demo_receipt demo_activation demo_runtime demo_observer demo_available = Inr demo_session"
proof -
  have "rr_execution demo_runtime = code_points ''e''" "rr_run demo_runtime = code_points ''r''" by (simp_all add: demo_runtime_def)
  then show ?thesis
    using demo_nonblank unfolding session_for_keeps [OF assms]
    by (simp add: session_for_def demo_request_digest demo_isolation_digest make_session_def guarded_def empty_field_def
        receipt_digest_def demo_digest demo_session_def demo_receipt_def demo_available_def)
qed

lemma demo_ledger_root: "control_root_ok ledger_lock demo_tree [''k'']"
  by (simp add: control_root_ok_def demo_tree_def demo_dirs_def)

lemma demo_record_valid: "valid_record \<lparr>rec_kind = k, identity_key = code_points (demo_hash []), rec_binding_digest = json_digest demo_hash j\<rparr>"
  by (rule digest_record_valid [OF demo_hex_hash demo_hex])

lemma demo_slot: "record_slot demo_hash \<lparr>rec_kind = k, identity_key = code_points (demo_hash []), rec_binding_digest = d\<rparr> =
    Some (kind_value k @ ''-'' @ demo_hash [] @ ''.json'')"
proof -
  have "utf8_strict (code_points (kind_value k) @ code_points '':'' @ code_points (demo_hash [])) \<noteq> None"
    using ustring_ok_points by (simp add: utf8_strict_def)
  then show ?thesis by (auto simp: record_slot_def record_name_def demo_hash_def)
qed

lemma demo_free: "ledger_view [''k''] demo_tree n = Free"
  using view_free_iff [OF ok_link_free [OF demo_ledger_root], of n] by (simp add: demo_tree_def demo_dirs_def)


lemma demo_created:
  "\<exists>fs'. create_session demo_env demo_gates no_gate_faults demo_tree demo_call = (fs', Inr \<lparr>sa_session = Some demo_session,
     sa_decision = \<lparr>sd_disposition = SESSION_CREATED, sd_session_id = Some (session_id demo_session),
     sd_execution_id = Some (cs_execution_id demo_session), sd_run_id = Some (cs_run_id demo_session), sd_reason = None\<rparr>\<rparr>) \<and>
   control_root_ok ledger_lock fs' [''k''] \<and>
   ledger_view [''k''] fs' (''session_consumed-'' @ demo_hash [] @ ''.json'') = Free"
proof -
  have c: "call_rejection demo_env demo_tree demo_call = None" using call_keeps [OF demo_tree_keeps, of demo_env demo_call] demo_call_ok by simp
  have r: "activation_record_for demo_hash demo_receipt = \<lparr>rec_kind = ACTIVATION_CLAIMED, identity_key = code_points (demo_hash []),
      rec_binding_digest = json_digest demo_hash (receipt_payload demo_receipt)\<rparr>"
    by (simp add: activation_record_for_def receipt_digest_def demo_receipt_def)
  have i: "issued_record_for demo_hash demo_session = \<lparr>rec_kind = SESSION_ISSUED, identity_key = code_points (demo_hash []),
      rec_binding_digest = session_binding_digest demo_hash demo_session\<rparr>"
    by (simp add: issued_record_for_def demo_session_def)
  have s: "keeps_tree demo_tree f \<Longrightarrow> session_for demo_hash f demo_receipt demo_activation demo_runtime demo_observer demo_available
      = Inr demo_session" for f
    using demo_session_for [OF keeps_trans [OF demo_tree_keeps]] .
  note f = creation_free [of demo_env demo_tree demo_call demo_receipt demo_observer demo_available demo_gates demo_tree demo_session
      "kind_value ACTIVATION_CLAIMED @ ''-'' @ demo_hash [] @ ''.json''" "kind_value SESSION_ISSUED @ ''-'' @ demo_hash [] @ ''.json''"]
  have "\<exists>fs'. create_session demo_env demo_gates no_gate_faults demo_tree demo_call = (fs', Inr \<lparr>sa_session = Some demo_session,
      sa_decision = \<lparr>sd_disposition = SESSION_CREATED, sd_session_id = Some (session_id demo_session),
      sd_execution_id = Some (cs_execution_id demo_session), sd_run_id = Some (cs_run_id demo_session), sd_reason = None\<rparr>\<rparr>) \<and>
    control_root_ok ledger_lock fs' (ge_ledger demo_env) \<and>
    (\<forall>k. k \<notin> {kind_value ACTIVATION_CLAIMED @ ''-'' @ demo_hash [] @ ''.json'', kind_value SESSION_ISSUED @ ''-'' @ demo_hash [] @ ''.json'',
      ledger_lock} \<longrightarrow> ledger_view (ge_ledger demo_env) fs' k = ledger_view (ge_ledger demo_env) demo_tree k)"
    by (rule f) (use c s demo_hex_hash demo_evidence demo_ledger_root demo_record_valid demo_slot demo_free in
        \<open>simp_all add: demo_env_def demo_call_def r i del: kind_value.simps\<close>)
  then show ?thesis using demo_free by (auto simp: demo_env_def ledger_lock_def)
qed

section \<open>The properties\<close>

text \<open>C27. Admission approves a request exactly when it is approvable (an affirmed confirmation for the same
  execution, a single-attempt policy, an observer, and an audit root apart from the workspace and the source), it
  always answers for an execution identity that is not blank, and a runtime request binds to an approved receipt
  exactly when it has the same execution, policy digest, workspace and observer and the runtime is available.\<close>

theorem admission_decides_and_binds:
  assumes "hex_hash sha" and "ustring_ok (admission_text q)" and "\<not> blank_ustring (iso_execution (req_isolation q))"
  shows "\<exists>a. admit sha fs q = Inr a \<and> (act_disposition (act_decision a) = APPROVED_TO_START \<longleftrightarrow> approvable fs q) \<and>
    act_reason (act_decision a) = rejection_reason fs q \<and>
    (binding_rejection sha fs (Some a) q r ob av = None \<longleftrightarrow>
       approvable fs q \<and> (\<exists>v. av = Some v \<and> available v) \<and> (\<exists>x. ob = Some x \<and> observer_id x = observer_id (the (req_observer q))) \<and>
       rr_execution r = iso_execution (req_isolation q) \<and>
       json_digest sha (policy_payload (req_policy q)) = runtime_policy_digest sha (rr_gateway r) \<and>
       resolve fs (rr_workspace r) = resolve fs (the (iso_workspace (req_isolation q))) \<and>
       resolve fs (rr_repository r) = resolve fs (the (iso_workspace (req_isolation q))))"
proof -
  have o: "or_missing (iso_execution (req_isolation q)) = iso_execution (req_isolation q)"
    using assms(3) by (auto simp: or_missing_def blank_ustring_def)
  define a where "a = \<lparr>act_decision = \<lparr>act_disposition = (if rejection_reason fs q \<noteq> None then ACTIVATION_REJECTED else APPROVED_TO_START),
      act_execution = iso_execution (req_isolation q), activation_id = code_points (sha (encode_text (admission_text q))),
      act_reason = rejection_reason fs q\<rparr>, policy_digest = json_digest sha (policy_payload (req_policy q))\<rparr>"
  have a: "admit sha fs q = Inr a" using admit_value [OF assms(1), of fs q] assms(2,3) o by (simp add: a_def)
  have d: "act_decision a = \<lparr>act_disposition = (if rejection_reason fs q \<noteq> None then ACTIVATION_REJECTED else APPROVED_TO_START),
      act_execution = iso_execution (req_isolation q), activation_id = code_points (sha (encode_text (admission_text q))),
      act_reason = rejection_reason fs q\<rparr>"
    and p: "policy_digest a = json_digest sha (policy_payload (req_policy q))" by (simp_all add: a_def)
  have "binding_rejection sha fs (Some a) q r ob av = None \<longleftrightarrow>
       approvable fs q \<and> (\<exists>v. av = Some v \<and> available v) \<and> (\<exists>x. ob = Some x \<and> observer_id x = observer_id (the (req_observer q))) \<and>
       rr_execution r = iso_execution (req_isolation q) \<and>
       json_digest sha (policy_payload (req_policy q)) = runtime_policy_digest sha (rr_gateway r) \<and>
       resolve fs (rr_workspace r) = resolve fs (the (iso_workspace (req_isolation q))) \<and>
       resolve fs (rr_repository r) = resolve fs (the (iso_workspace (req_isolation q)))"
  proof (cases "approvable fs q")
    case True
    then have "rejection_reason fs q = None" by (simp add: rejection_None_iff)
    then show ?thesis
      using True d p by (auto simp: binding_rejection_def Let_def first_error_None_iff approvable_def simp del: first_error.simps)
  next
    case False
    then have "rejection_reason fs q \<noteq> None" by (simp add: rejection_None_iff)
    then show ?thesis using False d by (simp add: binding_rejection_def)
  qed
  then show ?thesis using a d rejection_None_iff [of fs q] by auto
qed


theorem admission_decides_and_binds_witness:
  "\<exists>a. admit demo_hash demo_dirs demo_activation = Inr a \<and> act_disposition (act_decision a) = APPROVED_TO_START \<and>
    binding_rejection demo_hash demo_dirs (Some a) demo_activation demo_runtime (Some demo_observer) (Some demo_available) = None"
proof -
  have t: "ustring_ok (admission_text demo_activation)"
    by (simp add: admission_text_def demo_activation_def or_missing_def ustring_ok_points)
  have e: "\<not> blank_ustring (iso_execution (req_isolation demo_activation))" using demo_nonblank by (simp add: demo_activation_def)
  have "path_exists demo_dirs [] \<and> is_dir demo_dirs [] \<and> is_dir demo_dirs [''a'']"
    by (simp add: path_exists_def is_dir_def target_entry_def resolve_def demo_dirs_def)
  then have "approvable demo_dirs demo_activation"
    using demo_nonblank by (simp add: approvable_def demo_activation_def demo_policy_def demo_observer_def valid_provider_policy_def
        roots_apart_def inside_def demo_resolve available_audit_root_def)
  then show ?thesis
    using admission_decides_and_binds [OF demo_hex_hash t e, where fs = demo_dirs and ob = "Some demo_observer" and
        av = "Some demo_available" and r = demo_runtime]
    by (auto simp: demo_available_def demo_activation_def demo_observer_def demo_runtime_def demo_policy_def
        runtime_policy_digest_def demo_digest)
qed

text \<open>An execution identity of white space only raises, although admission has a reason for it.\<close>

lemma blank_execution_raises:
  assumes "hex_hash sha" and "ustring_ok (admission_text q)" and "iso_execution (req_isolation q) = [32]"
  shows "rejection_reason fs q = Some EMPTY_EXECUTION_ID \<and> admit sha fs q = Inl (ContractError ''execution_id cannot be empty'')"
  using admit_value [OF assms(1), of fs q] assms(2,3)
  by (simp add: rejection_reason_def or_missing_def blank_ustring_def unicode_space_def)

text \<open>Equal costs of different types are written differently, so their policies have different digests.\<close>

lemma equal_costs_differ: "dumps (number_json (NInt 1)) \<noteq> dumps (number_json (NFloat (code_points ''1.0'')))"
  by code_simp

text \<open>A workspace inside the source repository is approvable.\<close>

lemma nested_workspace_apart: "available_audit_root fs [''a''] \<Longrightarrow> roots_apart fs [''s'', ''w''] [''a''] [''s'']"
  by (simp add: roots_apart_def inside_def)

text \<open>A replay record written to its file is read back as that record, and no two records have the same file contents.\<close>

theorem replay_record_roundtrip:
  assumes "link_free fs [] root" and "valid_record r" and "record_slot sha r = Some n"
    and "fs (root @ [n]) = Some (File True (encode_text (dumps (to_payload r))))"
  shows "read_unlocked sha fs root (rec_kind r) (identity_key r) = Inr (Some r) \<and>
    (\<forall>r'. valid_record r' \<and> encode_text (dumps (to_payload r')) = encode_text (dumps (to_payload r)) \<longrightarrow> r' = r)"
proof -
  have v: "make_replay_record x = Inr x" "json_ok (to_payload x)" if "valid_record x" for x
    using that to_payload_ok by (simp_all add: valid_record_def)
  have reads: "loads (dumps (to_payload x)) = Some (to_payload x)" "utf8_decode (encode_text (dumps (to_payload x))) = Some (dumps (to_payload x))"
    if "valid_record x" for x
  proof -
    show "loads (dumps (to_payload x)) = Some (to_payload x)" using loads_dumps [OF v(2) [OF that]] by (simp add: payload_sorted)
    have "list_all (\<lambda>c. c < 128) (dumps (to_payload x))"
      by (rule list.pred_mono_strong [OF dumps_plain [OF v(2) [OF that]]]) simp
    then show "utf8_decode (encode_text (dumps (to_payload x))) = Some (dumps (to_payload x))" by (rule decode_ascii)
  qed
  have "r' = r" if r': "valid_record r'" "encode_text (dumps (to_payload r')) = encode_text (dumps (to_payload r))" for r'
  proof -
    have "Some (dumps (to_payload r')) = Some (dumps (to_payload r))"
      using reads(2) [OF r'(1)] reads(2) [OF assms(2)] unfolding r'(2) by (rule trans [OF sym])
    then have "Some (to_payload r') = Some (to_payload r)"
      using reads(1) [OF r'(1)] reads(1) [OF assms(2)] by (metis option.inject)
    then show ?thesis
      using from_to_payload [OF v(1) [OF r'(1)]] from_to_payload [OF v(1) [OF assms(2)]] by (metis option.inject sum.inject(2))
  qed
  moreover have "read_unlocked sha fs root (rec_kind r) (identity_key r) = Inr (Some r)"
    using read_written [OF assms(1,4)] assms(2,3) from_to_payload [OF v(1) [OF assms(2)]]
    by (simp add: valid_record_def record_slot_def read_unlocked_def)
  ultimately show ?thesis by blast
qed

definition demo_record :: replay_record where
  "demo_record = \<lparr>rec_kind = SESSION_ISSUED, identity_key = code_points (demo_hash []), rec_binding_digest = json_digest demo_hash JNull\<rparr>"

theorem replay_record_roundtrip_witness:
  "read_unlocked demo_hash [[] \<mapsto> Dir, [''session_issued-'' @ demo_hash [] @ ''.json''] \<mapsto> File True (encode_text (dumps (to_payload demo_record)))]
     [] SESSION_ISSUED (code_points (demo_hash [])) = Inr (Some demo_record)"
  using replay_record_roundtrip [of "[[] \<mapsto> Dir, [''session_issued-'' @ demo_hash [] @ ''.json''] \<mapsto> File True (encode_text (dumps (to_payload demo_record)))]"
      "[]" demo_record demo_hash "''session_issued-'' @ demo_hash [] @ ''.json''"] demo_record_valid [of SESSION_ISSUED JNull] demo_slot [of SESSION_ISSUED]
  by (simp add: demo_record_def)

text \<open>C24. The file-backed ledger implements the abstract store of immutable claims: over any sequence of claims of valid
  records without failures, it gives the same answers and ends with the same slots.\<close>

theorem ledger_implements_store:
  assumes "control_root_ok ledger_lock fs root" and "\<forall>r \<in> set rs. valid_record r"
  shows "snd (claim_run sha root fs rs) = snd (spec_run sha (ledger_view root fs) rs) \<and>
    same_slots (ledger_view root (fst (claim_run sha root fs rs))) (fst (spec_run sha (ledger_view root fs) rs))"
  by (rule claim_run_refines [OF assms]) (simp add: same_slots_def)

theorem ledger_implements_store_witness: "snd (claim_run demo_hash [''k''] demo_tree [demo_record, demo_record]) = [Claimed, Already demo_record]"
  using ledger_implements_store [OF demo_ledger_root, of "[demo_record, demo_record]" demo_hash]
    demo_record_valid [of SESSION_ISSUED JNull] demo_free by (simp add: demo_record_def)

text \<open>C22. Whatever fails and whatever others add in between, no record key is claimed twice by single claims, and no
  activation is exchanged for two sessions and no session started twice by calls of the gate.\<close>

theorem consumed_once:
  assumes "gates_keep G" and "fair_run (slot_taken (ge_ledger E)) (gate_attempt E G) fs es"
    and "fair_run (slot_taken (ge_ledger E)) (ledger_attempt (ge_sha E) (ge_ledger E)) fs claims"
  shows "distinct (map consumed_identity (successes (gate_attempt E G) fs es)) \<and>
    distinct (map (\<lambda>r. (rec_kind r, identity_key r)) (successes (ledger_attempt (ge_sha E) (ge_ledger E)) fs claims))"
proof -
  have "distinct (map (record_slot (ge_sha E)) (successes (ledger_attempt (ge_sha E) (ge_ledger E)) fs claims))"
    by (rule once.success_once [OF assms(3)])
  then have "distinct (map (\<lambda>r. (rec_kind r, identity_key r)) (successes (ledger_attempt (ge_sha E) (ge_ledger E)) fs claims))"
    by (rule distinct_map_factor) (simp add: record_slot_def)
  with gate_single_use [OF assms(1,2)] show ?thesis by blast
qed

theorem consumed_once_witness:
  "successes (gate_attempt demo_env demo_gates) demo_tree [Attempt (Create demo_call) no_gate_faults, Attempt (Create demo_call) no_gate_faults]
     = [Create demo_call]"
proof -
  let ?es = "[Attempt (Create demo_call) no_gate_faults, Attempt (Create demo_call) no_gate_faults]
    :: ((unit, unit) gate_call, gate_faults, fs) store_event list"
  have "snd (gate_attempt demo_env demo_gates demo_tree (Create demo_call) no_gate_faults)" using demo_created by auto
  moreover have "distinct (map consumed_identity (successes (gate_attempt demo_env demo_gates) demo_tree ?es))"
    using consumed_once [OF demo_gates_keep, of demo_env demo_tree ?es "[]"] by simp
  ultimately show ?thesis by (simp split: if_splits)
qed

text \<open>C23. A created session rests on an approved activation, on readiness evidence that binds to the request, and on a
  stored human approval of exactly this activation, request, isolation, observer and runtime; the session is the one
  these determine.\<close>

theorem session_needs_approval:
  assumes "create_session E G fl fs c = (fs', Inr m)" and "sd_disposition (sa_decision m) = SESSION_CREATED" and "gates_keep G"
  shows "\<exists>a ob av p s fs1 e cu ca cm ma.
    sc_receipt c = Some a \<and> act_disposition (act_decision a) = APPROVED_TO_START \<and> sc_observer c = Some ob \<and> sc_availability c = Some av \<and>
    sc_approval c = Some p \<and> ap_disposition p = APPROVED \<and> keeps_tree fs fs1 \<and>
    snd (read_approval (ge_sha E) (ge_parse E) (gf_approval fl) (ge_approvals E) fs1 (approval_id p)) = Inr (Some p) \<and>
    receipt_for (ge_sha E) fs (approval_id p) (approver_identity p) (Some (ap_occurred_at p)) APPROVED a (sc_request c) (sc_runtime c) ob av = Inr p \<and>
    sc_evidence c = Some e \<and> ev_custody_request e = Some cu \<and> ev_custody_attestation e = Some ca \<and> ev_manifest e = Some cm \<and>
    ev_composition_attestation e = Some ma \<and> snd (custody_validate G fs ca cu) = Inr None \<and> custody_binds fs cu (sc_request c) (sc_runtime c) \<and>
    composition_binds cm (sc_request c) (sc_runtime c) (Some av) \<and>
    sa_session m = Some s \<and> session_for (ge_sha E) fs a (sc_request c) (sc_runtime c) ob av = Inr s"
  by (rule created_session_approved [OF assms])

theorem session_needs_approval_witness:
  "\<exists>fs' m. create_session demo_env demo_gates no_gate_faults demo_tree demo_call = (fs', Inr m) \<and>
    (\<exists>p. sc_approval demo_call = Some p \<and> ap_disposition p = APPROVED)"
proof -
  obtain fs' m where "create_session demo_env demo_gates no_gate_faults demo_tree demo_call = (fs', Inr m)"
      "sd_disposition (sa_decision m) = SESSION_CREATED"
    using demo_created by auto
  from this session_needs_approval [OF this demo_gates_keep] show ?thesis by blast
qed

text \<open>C26. Once recorded, an approval is validated at any later time for the same activation, request, isolation, observer and
  runtime, and a denial is refused as a denial.\<close>

theorem approval_lasts_for_binding:
  assumes "control_root_ok approval_lock fs (ge_approvals E)"
    and "record_approval E fl fs i who (Some t) d a q r ob av = (fs', Inr adm)" and "admitted_receipt adm = Some p"
    and "approval_texts_ok p" and "ge_parse E (isoformat t) = Some t" and "keeps_tree fs' fs''"
  shows "validate_approval E no_store_faults fs'' (Some p) a q r ob av = (fs'', Inr (if d = DENIED then Some APPROVAL_DENIED else None))"
  by (rule recorded_approval_lasts [OF assms])

lemma demo_recorded:
  "\<exists>fs' adm. record_approval demo_env no_store_faults demo_dirs (code_points ''i'') (code_points ''who'') (Some demo_time) APPROVED
     demo_receipt demo_activation demo_runtime demo_observer demo_available = (fs', Inr adm) \<and> admitted_receipt adm = Some demo_approval"
proof -
  have iso: "store_isolation_rejection demo_dirs [''p''] demo_activation = None"
    by (simp add: store_isolation_rejection_def demo_activation_def in_execution_roots_def inside_def demo_resolve)
  have root: "control_root_ok approval_lock demo_dirs [''p'']" by (simp add: control_root_ok_def demo_dirs_def)
  have name: "approval_name demo_hash (code_points ''i'') = Some (''approval-'' @ demo_hash [] @ ''.json'')"
    using ustring_ok_points [of "''i''"] by (simp add: approval_name_def utf8_strict_def demo_hash_def)
  define fs1 where "fs1 = demo_dirs([''p'', approval_lock] \<mapsto> File True [])"
  have lock: "locked_root approval_lock demo_dirs [''p''] False = Inr fs1"
    using locked_root_ok [OF root] by (simp add: fs1_def demo_dirs_def)
  have lf: "link_free fs1 [] [''p'']" by (simp add: fs1_def demo_dirs_def)
  have absent: "fs1 [''p'', ''approval-'' @ demo_hash [] @ ''.json''] = None" by (simp add: fs1_def demo_dirs_def approval_lock_def)
  have "approval_read_unlocked demo_hash (ge_parse demo_env) fs1 [''p''] (code_points ''i'') = Inr None"
    using read_json_absent [OF lf, of "''approval-'' @ demo_hash [] @ ''.json''"] absent name by (simp add: approval_read_unlocked_def)
  moreover have "\<exists>fs2. approval_write_unlocked demo_hash no_store_faults fs1 [''p''] demo_approval = (fs2, None)"
    using place_snoc [OF lf, of "''approval-'' @ demo_hash [] @ ''.json''"] absent name
    by (simp add: approval_write_unlocked_def demo_approval_def write_new_def no_store_faults_def)
  ultimately have "\<exists>fs2. claim_approval demo_hash (ge_parse demo_env) no_store_faults [''p''] demo_dirs demo_approval =
      (fs2, Inr \<lparr>ac_disposition = APPROVAL_CLAIMED, existing_receipt = None\<rparr>)"
    using lock by (auto simp: claim_approval_def no_store_faults_def demo_approval_def make_approval_claim_def guarded_def)
  then show ?thesis
    using iso demo_receipt_for by (auto simp: record_approval_def demo_env_def make_approval_admission_def guarded_def)
qed

theorem approval_lasts_for_binding_witness:
  "\<exists>fs'. validate_approval demo_env no_store_faults fs' (Some demo_approval) demo_receipt demo_activation demo_runtime demo_observer
     demo_available = (fs', Inr None)"
proof -
  have root: "control_root_ok approval_lock demo_dirs (ge_approvals demo_env)" by (simp add: control_root_ok_def demo_dirs_def demo_env_def)
  obtain fs' adm where r: "record_approval demo_env no_store_faults demo_dirs (code_points ''i'') (code_points ''who'') (Some demo_time) APPROVED
     demo_receipt demo_activation demo_runtime demo_observer demo_available = (fs', Inr adm)" "admitted_receipt adm = Some demo_approval"
    using demo_recorded by blast
  have parse: "ge_parse demo_env (isoformat demo_time) = Some demo_time" by (simp add: demo_env_def)
  show ?thesis using approval_lasts_for_binding [OF root r demo_texts_ok parse keeps_refl] by auto
qed

text \<open>C21. A session that was created can be started, once: at any later time at which its start is unclaimed the gate allows it,
  and from then on it refuses, whatever else is added to the ledger.\<close>

theorem session_starts_once:
  assumes "hex_hash (ge_sha E)" and "gates_keep G" and "real_dir fs (ge_ledger E)"
    and "create_session E G fl fs c = (fs1, Inr m)" and "sd_disposition (sa_decision m) = SESSION_CREATED" and "sa_session m = Some s"
    and "keeps_tree fs1 fs2" and "\<not> slot_taken (ge_ledger E) fs2 (record_slot (ge_sha E) (consumed_record_for (ge_sha E) s))"
  shows "\<exists>fs3. consume_for_runtime_start E no_gate_faults fs2 s c = (fs3, Inr \<lparr>sd_disposition = RUNTIME_START_ALLOWED,
      sd_session_id = Some (session_id s), sd_execution_id = Some (cs_execution_id s), sd_run_id = Some (cs_run_id s),
      sd_reason = None\<rparr>) \<and>
    (\<forall>fs4. keeps_tree fs3 fs4 \<longrightarrow> snd (consume_for_runtime_start E no_gate_faults fs4 s c) = refused SESSION_ALREADY_CONSUMED)"
  by (rule created_session_starts_once [OF assms])

theorem session_starts_once_witness:
  "\<exists>fs1 fs3 d. consume_for_runtime_start demo_env no_gate_faults fs1 demo_session demo_call = (fs3, Inr d) \<and>
    sd_disposition d = RUNTIME_START_ALLOWED \<and>
    snd (consume_for_runtime_start demo_env no_gate_faults fs3 demo_session demo_call) = refused SESSION_ALREADY_CONSUMED"
proof -
  obtain fs1 m where c: "create_session demo_env demo_gates no_gate_faults demo_tree demo_call = (fs1, Inr m)"
      "sd_disposition (sa_decision m) = SESSION_CREATED" "sa_session m = Some demo_session" and ok: "control_root_ok ledger_lock fs1 [''k'']"
    and free: "ledger_view [''k''] fs1 (''session_consumed-'' @ demo_hash [] @ ''.json'') = Free"
    using demo_created by auto
  have h: "hex_hash (ge_sha demo_env)" using demo_hex_hash by (simp add: demo_env_def)
  have d: "real_dir demo_tree (ge_ledger demo_env)" by (simp add: real_dir_def demo_tree_def demo_dirs_def demo_env_def)
  have u: "\<not> slot_taken (ge_ledger demo_env) fs1 (record_slot (ge_sha demo_env) (consumed_record_for (ge_sha demo_env) demo_session))"
    using free taken_iff_view [OF ok_link_free [OF ok]] demo_slot [of SESSION_CONSUMED]
    by (simp add: demo_env_def consumed_record_for_def demo_session_def)
  show ?thesis using session_starts_once [OF h demo_gates_keep d c keeps_refl u] keeps_refl by fastforce
qed

text \<open>C25. Without failures, and with evidence that passes, what creation answers is determined by the slot of the activation: free, the
  session; the same record, a replay; another record for the same activation, a conflict; anything else, a corrupt or
  unavailable ledger.\<close>

theorem creation_answers:
  assumes h: "hex_hash (ge_sha E)"
    and c: "call_rejection E fs c = None" "sc_receipt c = Some a" "sc_observer c = Some ob" "sc_availability c = Some av"
    and ev: "evidence_rejection E G no_store_faults fs c a ob av = (fs1, Inr None)"
    and ok: "control_root_ok ledger_lock fs1 (ge_ledger E)" and act: "valid_record (activation_record_for (ge_sha E) a)"
    and s: "session_for (ge_sha E) fs1 a (sc_request c) (sc_runtime c) ob av = Inr s"
    and n: "record_slot (ge_sha E) (activation_record_for (ge_sha E) a) = Some n"
    and i: "record_slot (ge_sha E) (issued_record_for (ge_sha E) s) = Some n'" "ledger_view (ge_ledger E) fs1 n' = Free"
  shows "\<exists>w \<in> {REPLAY_LEDGER_CORRUPT, REPLAY_LEDGER_UNAVAILABLE}. snd (create_session E G no_gate_faults fs c) =
    (case ledger_view (ge_ledger E) fs1 n of
       Free \<Rightarrow> Inr \<lparr>sa_session = Some s, sa_decision = \<lparr>sd_disposition = SESSION_CREATED, sd_session_id = Some (session_id s),
         sd_execution_id = Some (cs_execution_id s), sd_run_id = Some (cs_run_id s), sd_reason = None\<rparr>\<rparr>
     | Held r \<Rightarrow> if r = activation_record_for (ge_sha E) a then session_rejected ACTIVATION_RECEIPT_REPLAYED
         else if same_key (activation_record_for (ge_sha E) a) r then session_rejected REPLAY_LEDGER_CONFLICT
         else session_rejected w
     | Damaged \<Rightarrow> session_rejected w)"
  by (rule creation_outcome [OF h c ev ok act _ n i]) (simp add: session_for_keeps s)

theorem creation_answers_witness:
  "\<exists>x. snd (create_session demo_env demo_gates no_gate_faults demo_tree demo_call) = Inr x \<and> sd_disposition (sa_decision x) = SESSION_CREATED"
proof -
  have c: "call_rejection demo_env demo_tree demo_call = None" "sc_receipt demo_call = Some demo_receipt"
      "sc_observer demo_call = Some demo_observer" "sc_availability demo_call = Some demo_available"
    using call_keeps [OF demo_tree_keeps, of demo_env demo_call] demo_call_ok by (simp_all add: demo_call_def)
  have e: "ge_sha demo_env = demo_hash" "ge_ledger demo_env = [''k'']" "sc_request demo_call = demo_activation" "sc_runtime demo_call = demo_runtime"
    by (simp_all add: demo_env_def demo_call_def)
  have r: "activation_record_for demo_hash demo_receipt = \<lparr>rec_kind = ACTIVATION_CLAIMED, identity_key = code_points (demo_hash []),
      rec_binding_digest = json_digest demo_hash (receipt_payload demo_receipt)\<rparr>"
    by (simp add: activation_record_for_def receipt_digest_def demo_receipt_def)
  have i: "issued_record_for demo_hash demo_session = \<lparr>rec_kind = SESSION_ISSUED, identity_key = code_points (demo_hash []),
      rec_binding_digest = session_binding_digest demo_hash demo_session\<rparr>"
    by (simp add: issued_record_for_def demo_session_def)
  show ?thesis
    using creation_answers [of demo_env demo_tree demo_call demo_receipt demo_observer demo_available demo_gates demo_tree demo_session
      "kind_value ACTIVATION_CLAIMED @ ''-'' @ demo_hash [] @ ''.json''" "kind_value SESSION_ISSUED @ ''-'' @ demo_hash [] @ ''.json''",
      unfolded e r i, OF demo_hex_hash c demo_evidence demo_ledger_root demo_record_valid demo_session_for [OF demo_tree_keeps]
        demo_slot demo_slot demo_free] demo_free by auto
qed

end
