(* ===== verification/Decision.thy ===== *)
theory Decision
  imports GateBindings Reflection
begin

text \<open>
  The governed decision of a provider and the policy that admits it: \<open>gateway/models.py\<close>,
  \<open>gateway/errors.py\<close> and the policy half of \<open>gateway/validator.py\<close> under \<open>chief/intelligence\<close>.

  The policy bounds of a request (\<open>GatewayPolicy\<close>, \<open>MutationIntentPolicy\<close>, \<open>PreservationRequirement\<close>)
  are the records of theory \<open>GateBindings\<close>, whose texts are lists of code points; a string of the
  decision is compared with them by its code points. A confidence is a rational number, a parameter
  value is a \<open>pyval\<close>. The digest of a decision is the hash of a payload with all of its fields; that
  hash is a parameter of the definitions that use it.
\<close>

section \<open>Decisions\<close>

datatype risk_severity = LOW_SEVERITY | MEDIUM_SEVERITY | HIGH_SEVERITY | CRITICAL_SEVERITY

record plan_step =
  st_id :: string
  st_title :: string
  st_capability :: string
  st_dependencies :: "string list"
  st_parameters :: pyval
  st_evidence :: "string list"

definition make_step :: "plan_step \<Rightarrow> py_error + plan_step" where
  "make_step s =
     bind_res (guarded
       [(blank (st_id s), ValueError ''step_id cannot be empty''),
        (blank (st_title s), ValueError ''title cannot be empty''),
        (blank (st_capability s), ValueError ''capability_id cannot be empty'')] s) (\<lambda>s.
     bind_res (proxy_mapping ''parameters'' (st_parameters s)) (\<lambda>m. Inr (s\<lparr>st_parameters := m\<rparr>)))"

record mutation_intent =
  mi_id :: string
  mi_step :: string
  mi_target :: string
  mi_operation :: string
  mi_content :: string
  mi_rationale :: string
  mi_grounding :: "string list"
  mi_dependencies :: "string list"
  mi_preservation :: "string list"
  mi_schema :: string

definition make_intent :: "mutation_intent \<Rightarrow> py_error + mutation_intent" where
  "make_intent i = guarded
     [(blank (mi_id i) \<or> blank (mi_step i), ValueError ''intent_id and step_id cannot be empty''),
      (blank (mi_target i) \<or> blank (mi_operation i), ValueError ''target_path and operation cannot be empty''),
      (blank (mi_rationale i), ValueError ''rationale cannot be empty''),
      (mi_grounding i = [] \<or> list_ex blank (mi_grounding i), ValueError ''grounding_references cannot be empty''),
      (\<not> distinct (mi_grounding i), ValueError ''grounding_references must be unique''),
      (list_ex blank (mi_dependencies i), ValueError ''dependencies cannot contain empty values''),
      (list_ex blank (mi_preservation i), ValueError ''preservation_requirement_ids cannot contain empty values''),
      (\<not> distinct (mi_preservation i), ValueError ''preservation_requirement_ids must be unique''),
      (mi_schema i \<noteq> ''1.0'', ValueError ''unsupported mutation-intent schema version'')] i"

definition intent_bytes :: "mutation_intent \<Rightarrow> nat" where
  "intent_bytes i = length (utf8_encode (mi_content i))"

record engineering_risk =
  rk_description :: string
  rk_severity :: risk_severity
  rk_mitigation :: string

definition make_risk :: "engineering_risk \<Rightarrow> py_error + engineering_risk" where
  "make_risk r = guarded
     [(blank (rk_description r), ValueError ''risk description cannot be empty''),
      (blank (rk_mitigation r), ValueError ''risk mitigation cannot be empty'')] r"

record engineering_decision =
  ed_goal :: string
  ed_assumptions :: "string list"
  ed_approach :: string
  ed_plan :: "plan_step list"
  ed_capabilities :: "string list"
  ed_risks :: "engineering_risk list"
  ed_confidence :: rat
  ed_grounding :: "string list"
  ed_intents :: "mutation_intent list"
  ed_schema :: string

definition make_decision :: "engineering_decision \<Rightarrow> py_error + engineering_decision" where
  "make_decision d = guarded
     [(blank (ed_goal d), ValueError ''interpreted_goal cannot be empty''),
      (blank (ed_approach d), ValueError ''proposed_approach cannot be empty''),
      (ed_plan d = [], ValueError ''ordered_plan cannot be empty''),
      (ed_capabilities d = [], ValueError ''required_capabilities cannot be empty''),
      (ed_risks d = [], ValueError ''risks cannot be empty''),
      (\<not> (0 \<le> ed_confidence d \<and> ed_confidence d \<le> 1), ValueError ''confidence must be between 0.0 and 1.0''),
      (list_ex blank (ed_grounding d), ValueError ''grounding_references cannot contain empty values''),
      (\<not> distinct (ed_grounding d), ValueError ''grounding_references must be unique''),
      (\<not> distinct (map mi_id (ed_intents d)), ValueError ''mutation intent IDs must be unique''),
      (ed_schema d \<noteq> ''1.0'', ValueError ''unsupported engineering-decision schema version'')] d"

section \<open>Requests\<close>

text \<open>The truncation metadata is the dictionary of its items.\<close>

record engineering_context =
  ec_repository :: string
  ec_summary :: string
  ec_findings :: "string list"
  ec_symbols :: "string list"
  ec_constraints :: "string list"
  ec_capabilities :: "string list"
  ec_evidence :: "string list"
  ec_provenance :: "(string \<times> string) list"
  ec_truncation :: "(string \<times> pyval) list"

record decision_request =
  dr_goal :: string
  dr_context :: engineering_context
  dr_capabilities :: "string list"
  dr_structured :: bool
  dr_policy :: gateway_policy
  dr_intents :: "intent_policy option"
  dr_schema :: string
  dr_request_id :: string

definition make_decision_request :: "decision_request \<Rightarrow> py_error + decision_request" where
  "make_decision_request q = guarded
     [(blank (dr_goal q), ValueError ''goal cannot be empty''),
      (dr_capabilities q = [], ValueError ''allowed_capability_ids cannot be empty''),
      (list_ex blank (dr_capabilities q), ValueError ''allowed_capability_ids cannot contain empty values''),
      (\<not> distinct (dr_capabilities q), ValueError ''allowed_capability_ids must be unique''),
      (\<not> dr_structured q, ValueError ''governed requests must require structured output''),
      (case dr_intents q of None \<Rightarrow> False | Some p \<Rightarrow> ip_capability p \<notin> code_points ` set (dr_capabilities q),
         ValueError ''mutation capability must be allowlisted by the request''),
      (dr_schema q \<noteq> ''1.0'', ValueError ''unsupported engineering-decision schema version'')] q"

section \<open>Violations\<close>

datatype decision_code =
    DECISION_SCHEMA_VERSION_UNACCEPTED | REQUIRED_CAPABILITY_OUTSIDE_ALLOWLIST | DUPLICATE_STEP_ID
  | STEP_CAPABILITY_OUTSIDE_ALLOWLIST | DEPENDENCY_NOT_EARLIER_STEP | EXECUTABLE_PARAMETER_FORBIDDEN
  | REQUIRED_CAPABILITIES_MISMATCH | GROUNDING_REFERENCES_REQUIRED | GROUNDING_REFERENCE_UNKNOWN
  | MUTATION_INTENT_CAPABILITY_MISMATCH | MUTATION_INTENT_COUNT_INVALID | MUTATION_INTENT_STEP_UNKNOWN
  | MUTATION_INTENT_STEP_DEPENDENCIES_FORBIDDEN | MUTATION_INTENT_OPERATION_UNSUPPORTED
  | MUTATION_INTENT_TARGET_INVALID | MUTATION_INTENT_CONTENT_INVALID | MUTATION_INTENT_CONTENT_TOO_LARGE
  | MUTATION_INTENT_GROUNDING_UNKNOWN | MUTATION_INTENT_PRESERVATION_BINDING_INVALID
  | MUTATION_INTENT_PRESERVATION_BINDING_MISSING

record decision_violation =
  dv_code :: decision_code
  dv_stage :: string
  dv_message :: string
  dv_step :: "string option"
  dv_dependency :: "string option"
  dv_step_index :: "nat option"
  dv_dependency_index :: "nat option"
  dv_contract :: string
  dv_schema :: "string option"

text \<open>
  What the policy raises: its own exception, or an \<open>AttributeError\<close> on a parameter key without a
  \<open>lower\<close> method.
\<close>

datatype policy_exn = PolicyViolated decision_violation | KeyWithoutLower

definition policy_error :: "engineering_decision \<Rightarrow> decision_code \<Rightarrow> string \<Rightarrow> string option \<Rightarrow> string option \<Rightarrow> nat option
    \<Rightarrow> nat option \<Rightarrow> policy_exn" where
  "policy_error d c msg step dep i j = PolicyViolated
     \<lparr>dv_code = c, dv_stage = ''policy_validation'', dv_message = msg, dv_step = step, dv_dependency = dep,
      dv_step_index = i, dv_dependency_index = j, dv_contract = ''1.0'', dv_schema = Some (ed_schema d)\<rparr>"

section \<open>Parameters\<close>

text \<open>\<open>str.lower\<close> on the code points below 256.\<close>

definition py_lower :: "string \<Rightarrow> string" where
  "py_lower s = map lower_char s"

definition forbidden_keys :: "string list" where
  "forbidden_keys = [''command'', ''shell'', ''code'', ''script'', ''tool_call'', ''tool_calls'']"

datatype parameter_fault = FORBIDDEN_KEY | KEY_TYPE

fun key_fault :: "pyval \<Rightarrow> parameter_fault option" where
  "key_fault (PStr s) = (if py_lower s \<in> set forbidden_keys then Some FORBIDDEN_KEY else None)"
| "key_fault (PBytes b) = None"
| "key_fault _ = Some KEY_TYPE"

text \<open>\<open>_validate_parameters\<close>: mappings, lists of mappings, and nothing inside a list of lists.\<close>

fun value_fault :: "pyval \<Rightarrow> parameter_fault option"
  and pairs_fault :: "(pyval \<times> pyval) list \<Rightarrow> parameter_fault option"
  and items_fault :: "pyval list \<Rightarrow> parameter_fault option" where
  "value_fault (PDict kvs) = pairs_fault kvs"
| "value_fault (PProxy kvs) = pairs_fault kvs"
| "value_fault (PList xs) = items_fault xs"
| "value_fault _ = None"
| "pairs_fault [] = None"
| "pairs_fault (kv # kvs) =
     (case key_fault (fst kv) of
        Some e \<Rightarrow> Some e
      | None \<Rightarrow> (case value_fault (snd kv) of Some e \<Rightarrow> Some e | None \<Rightarrow> pairs_fault kvs))"
| "items_fault [] = None"
| "items_fault (x # xs) =
     (case (if is_mapping x then value_fault x else None) of Some e \<Rightarrow> Some e | None \<Rightarrow> items_fault xs)"

end
