(* ===== verification/DecisionPolicy.thy ===== *)
theory DecisionPolicy
  imports Decision
begin

text \<open>
  \<open>validate_decision_policy\<close> of \<open>gateway/validator.py\<close>: the checks in the order of the code, and the
  declarative condition they decide. An admitted plan is written in an order that respects its
  dependencies, uses exactly the capabilities the decision requires, all of them allowed, cites only
  known provenance, and carries exactly the one mutation intent the request asks for, or none.
\<close>

section \<open>Plan steps\<close>

text \<open>\<open>step_positions.get\<close>: the index of the first step with this identifier.\<close>

fun first_position :: "plan_step list \<Rightarrow> string \<Rightarrow> nat option" where
  "first_position [] i = None"
| "first_position (s # ss) i = (if st_id s = i then Some 0 else map_option Suc (first_position ss i))"

text \<open>
  The loop over the plan at position \<open>n\<close>. The two sets \<open>step_ids\<close> and \<open>seen_before\<close> of the code hold the
  same identifiers, those of the steps before.
\<close>

fun check_steps :: "engineering_decision \<Rightarrow> string list \<Rightarrow> nat \<Rightarrow> string list \<Rightarrow> plan_step list \<Rightarrow> policy_exn option" where
  "check_steps d allowed n seen [] = None"
| "check_steps d allowed n seen (s # ss) =
     (if st_id s \<in> set seen
      then Some (policy_error d DUPLICATE_STEP_ID ''decision contains duplicate plan step IDs'' (Some (st_id s)) None (Some n) None)
      else if st_capability s \<notin> set allowed
      then Some (policy_error d STEP_CAPABILITY_OUTSIDE_ALLOWLIST ''decision proposes a capability outside the allowlist''
             (Some (st_id s)) None (Some n) None)
      else case find (\<lambda>x. x \<notin> set seen) (st_dependencies s) of
        Some x \<Rightarrow> Some (policy_error d DEPENDENCY_NOT_EARLIER_STEP ''plan dependency must reference an earlier proposed step''
             (Some (st_id s)) (Some x) (Some n) (first_position (ed_plan d) x))
      | None \<Rightarrow>
          (case value_fault (st_parameters s) of
             Some FORBIDDEN_KEY \<Rightarrow> Some (policy_error d EXECUTABLE_PARAMETER_FORBIDDEN
               ''proposed step contains executable parameter semantics'' (Some (st_id s)) None (Some n) None)
           | Some KEY_TYPE \<Rightarrow> Some KeyWithoutLower
           | None \<Rightarrow> check_steps d allowed (Suc n) (st_id s # seen) ss))"

section \<open>Mutation intents\<close>

text \<open>The path test the policy and the translation share.\<close>

definition unsafe_target :: "string \<Rightarrow> bool" where
  "unsafe_target s \<longleftrightarrow> is_absolute s \<or> path_parts s = [] \<or> list_ex (\<lambda>p. p \<in> {[], ''.'', ''..''}) (path_parts s)
     \<or> CHR 0x00 \<in> set s \<or> list_ex (\<lambda>p. CHR 0x5C \<in> set p) (path_parts s)"

definition declared_requirements :: "mutation_intent \<Rightarrow> ustring set" where
  "declared_requirements i = code_points ` set (mi_preservation i)"

definition check_intent :: "engineering_decision \<Rightarrow> intent_policy \<Rightarrow> string set \<Rightarrow> mutation_intent \<Rightarrow> policy_exn option" where
  "check_intent d p known i =
     (let refuse = (\<lambda>c msg. policy_error d c msg (Some (mi_step i)) None None None);
          required = requirement_id ` set (ip_preservation p)
      in case dict_by st_id (ed_plan d) (mi_step i) of
        None \<Rightarrow> Some (refuse MUTATION_INTENT_STEP_UNKNOWN ''mutation intent must reference an existing proposed step'')
      | Some s \<Rightarrow> first_error
          [(code_points (st_capability s) \<noteq> ip_capability p,
              refuse MUTATION_INTENT_CAPABILITY_MISMATCH ''mutation intent step must use the configured mutation capability''),
           (st_dependencies s \<noteq> [] \<or> mi_dependencies i \<noteq> [],
              refuse MUTATION_INTENT_STEP_DEPENDENCIES_FORBIDDEN ''mutation intent dependencies are not supported in the first slice''),
           (code_points (mi_operation i) \<notin> set (ip_operations p),
              refuse MUTATION_INTENT_OPERATION_UNSUPPORTED ''mutation intent operation is not allowed''),
           (unsafe_target (mi_target i), refuse MUTATION_INTENT_TARGET_INVALID ''mutation intent target path is invalid''),
           (\<not> declared_requirements i \<subseteq> required,
              refuse MUTATION_INTENT_PRESERVATION_BINDING_INVALID ''mutation intent declares an unknown preservation requirement''),
           (declared_requirements i \<noteq> required,
              refuse MUTATION_INTENT_PRESERVATION_BINDING_MISSING ''mutation intent must declare every configured preservation requirement''),
           (int (intent_bytes i) > ip_max_content_bytes p,
              refuse MUTATION_INTENT_CONTENT_TOO_LARGE ''mutation intent proposed content exceeds the configured limit''),
           (\<not> set (mi_grounding i) \<subseteq> known,
              refuse MUTATION_INTENT_GROUNDING_UNKNOWN
                ''mutation intent grounding reference is absent from supplied context provenance'')])"

definition check_intents :: "engineering_decision \<Rightarrow> intent_policy option \<Rightarrow> string set \<Rightarrow> policy_exn option" where
  "check_intents d p known =
     (case p of
        None \<Rightarrow>
          if ed_intents d \<noteq> [] then Some (policy_error d MUTATION_INTENT_CAPABILITY_MISMATCH
            ''mutation intent mode is not enabled for this request'' None None None None) else None
      | Some p \<Rightarrow>
          (case ed_intents d of
             [i] \<Rightarrow> check_intent d p known i
           | _ \<Rightarrow> Some (policy_error d MUTATION_INTENT_COUNT_INVALID
               ''mutation intent mode requires exactly one mutation intent'' None None None None)))"

section \<open>The policy\<close>

definition known_provenance :: "decision_request \<Rightarrow> string set" where
  "known_provenance q = fst ` set (ec_provenance (dr_context q))"

definition requires_grounding :: "decision_request \<Rightarrow> bool" where
  "requires_grounding q \<longleftrightarrow> ''snapshot_fingerprint'' \<in> fst ` set (ec_truncation (dr_context q))"

definition decision_policy_error :: "engineering_decision \<Rightarrow> decision_request \<Rightarrow> policy_exn option" where
  "decision_policy_error d q =
     (let plain = (\<lambda>c msg. policy_error d c msg None None None None) in
      if ed_schema d \<noteq> ''1.0''
      then Some (plain DECISION_SCHEMA_VERSION_UNACCEPTED ''decision schema version is not accepted'')
      else if \<not> set (ed_capabilities d) \<subseteq> set (dr_capabilities q)
      then Some (plain REQUIRED_CAPABILITY_OUTSIDE_ALLOWLIST ''decision requires a capability outside the allowlist'')
      else case check_steps d (dr_capabilities q) 0 [] (ed_plan d) of
        Some e \<Rightarrow> Some e
      | None \<Rightarrow>
          if st_capability ` set (ed_plan d) \<noteq> set (ed_capabilities d)
          then Some (plain REQUIRED_CAPABILITIES_MISMATCH ''required capabilities must exactly match proposed step capabilities'')
          else if requires_grounding q \<and> ed_grounding d = []
          then Some (plain GROUNDING_REFERENCES_REQUIRED ''repository-aware decision requires grounding references'')
          else if \<not> set (ed_grounding d) \<subseteq> known_provenance q
          then Some (plain GROUNDING_REFERENCE_UNKNOWN ''decision grounding reference is absent from supplied context provenance'')
          else check_intents d (dr_intents q) (known_provenance q))"

definition validate_decision_policy :: "engineering_decision \<Rightarrow> decision_request \<Rightarrow> policy_exn + unit" where
  "validate_decision_policy d q = (case decision_policy_error d q of Some e \<Rightarrow> Inl e | None \<Rightarrow> Inr ())"

section \<open>What the policy admits\<close>

text \<open>Every dependency of a step is the identifier of a step before it.\<close>

definition plan_ordered :: "plan_step list \<Rightarrow> bool" where
  "plan_ordered p \<longleftrightarrow> (\<forall>i < length p. set (st_dependencies (p ! i)) \<subseteq> st_id ` set (take i p))"

definition intent_admitted :: "plan_step list \<Rightarrow> intent_policy \<Rightarrow> string set \<Rightarrow> mutation_intent \<Rightarrow> bool" where
  "intent_admitted plan p known i \<longleftrightarrow>
     (\<exists>s \<in> set plan. st_id s = mi_step i \<and> code_points (st_capability s) = ip_capability p \<and> st_dependencies s = []) \<and>
     mi_dependencies i = [] \<and> code_points (mi_operation i) \<in> set (ip_operations p) \<and> \<not> unsafe_target (mi_target i) \<and>
     declared_requirements i = requirement_id ` set (ip_preservation p) \<and>
     int (length (utf8_encode (mi_content i))) \<le> ip_max_content_bytes p \<and> set (mi_grounding i) \<subseteq> known"

definition admissible :: "engineering_decision \<Rightarrow> decision_request \<Rightarrow> bool" where
  "admissible d q \<longleftrightarrow>
     ed_schema d = ''1.0'' \<and> set (ed_capabilities d) \<subseteq> set (dr_capabilities q) \<and>
     distinct (map st_id (ed_plan d)) \<and> plan_ordered (ed_plan d) \<and> st_capability ` set (ed_plan d) = set (ed_capabilities d) \<and>
     (\<forall>s \<in> set (ed_plan d). value_fault (st_parameters s) = None) \<and>
     (requires_grounding q \<longrightarrow> ed_grounding d \<noteq> []) \<and> set (ed_grounding d) \<subseteq> known_provenance q \<and>
     (case dr_intents q of None \<Rightarrow> ed_intents d = []
      | Some p \<Rightarrow> \<exists>i. ed_intents d = [i] \<and> intent_admitted (ed_plan d) p (known_provenance q) i)"

lemma plan_ordered_snoc:
  "plan_ordered (p @ [s]) \<longleftrightarrow> plan_ordered p \<and> set (st_dependencies s) \<subseteq> st_id ` set p"
  by (auto simp: plan_ordered_def nth_append less_Suc_eq)

lemma plan_ordered_prefix: "plan_ordered (p @ ss) \<Longrightarrow> plan_ordered p"
proof (induction ss rule: rev_induct)
  case (snoc s ss)
  then show ?case using plan_ordered_snoc [of "p @ ss" s] by simp
qed simp

lemma find_None_subset: "find (\<lambda>x. x \<notin> A) xs = None \<longleftrightarrow> set xs \<subseteq> A"
  by (auto simp: find_None_iff)

text \<open>The loop, started after the steps \<open>p\<close>.\<close>

lemma check_steps_None:
  assumes "set seen = st_id ` set p" and "distinct (map st_id p)" and "plan_ordered p"
  shows "check_steps d allowed n seen ss = None \<longleftrightarrow>
    distinct (map st_id (p @ ss)) \<and> st_capability ` set ss \<subseteq> set allowed \<and> plan_ordered (p @ ss) \<and>
    (\<forall>s \<in> set ss. value_fault (st_parameters s) = None)"
  using assms
proof (induction ss arbitrary: n seen p)
  case (Cons s ss)
  consider (dup) "st_id s \<in> set seen" | (cap) "st_id s \<notin> set seen" "st_capability s \<notin> set allowed"
    | (dep) "st_id s \<notin> set seen" "st_capability s \<in> set allowed" "\<not> set (st_dependencies s) \<subseteq> set seen"
    | (ok) "st_id s \<notin> set seen" "st_capability s \<in> set allowed" "set (st_dependencies s) \<subseteq> set seen" by blast
  then show ?case
  proof cases
    case dup
    then show ?thesis using Cons.prems(1) by auto
  next
    case cap
    then show ?thesis by auto
  next
    case dep
    then have "find (\<lambda>x. x \<notin> set seen) (st_dependencies s) \<noteq> None" by (simp add: find_None_subset)
    then obtain x where "find (\<lambda>x. x \<notin> set seen) (st_dependencies s) = Some x" by blast
    moreover have "\<not> plan_ordered (p @ s # ss)"
      using dep(3) Cons.prems(1) plan_ordered_prefix [of "p @ [s]" ss] plan_ordered_snoc [of p s] by auto
    ultimately show ?thesis using dep(1,2) by simp
  next
    case ok
    have f: "find (\<lambda>x. x \<notin> set seen) (st_dependencies s) = None" using ok(3) by (simp add: find_None_subset)
    have p: "distinct (map st_id (p @ [s]))" "plan_ordered (p @ [s])"
      using ok Cons.prems by (auto simp: plan_ordered_snoc)
    have "set (st_id s # seen) = st_id ` set (p @ [s])" using Cons.prems(1) by auto
    note ih = Cons.IH [OF this p, of "Suc n"]
    show ?thesis
    proof (cases "value_fault (st_parameters s)")
      case None
      then have "check_steps d allowed n seen (s # ss) = check_steps d allowed (Suc n) (st_id s # seen) ss"
        using ok f by simp
      then show ?thesis using ih None ok by simp
    next
      case (Some e)
      then have "check_steps d allowed n seen (s # ss) \<noteq> None" using ok f by (cases e) simp_all
      then show ?thesis using Some by auto
    qed
  qed
qed simp

lemma plan_checked:
  "check_steps d allowed 0 [] (ed_plan d) = None \<longleftrightarrow>
    distinct (map st_id (ed_plan d)) \<and> st_capability ` set (ed_plan d) \<subseteq> set allowed \<and> plan_ordered (ed_plan d) \<and>
    (\<forall>s \<in> set (ed_plan d). value_fault (st_parameters s) = None)"
  using check_steps_None [of "[]" "[]"] by (simp add: plan_ordered_def)

lemma dict_by_iff: "distinct (map k xs) \<Longrightarrow> dict_by k xs i = Some x \<longleftrightarrow> x \<in> set xs \<and> k x = i"
  using dict_by_SomeD dict_by_distinct by metis

lemma intent_checked:
  assumes "distinct (map st_id (ed_plan d))"
  shows "check_intent d p known i = None \<longleftrightarrow> intent_admitted (ed_plan d) p known i"
proof (cases "dict_by st_id (ed_plan d) (mi_step i)")
  case None
  then have "check_intent d p known i \<noteq> None" by (simp only: check_intent_def Let_def option.case) simp
  moreover have "\<not> intent_admitted (ed_plan d) p known i" proof
    assume "intent_admitted (ed_plan d) p known i"
    then obtain s where "s \<in> set (ed_plan d)" "st_id s = mi_step i" unfolding intent_admitted_def by blast
    then have "mi_step i \<in> st_id ` set (ed_plan d)" by (metis image_eqI)
    with None show False by simp
  qed
  ultimately show ?thesis by blast
next
  case (Some s)
  then have s: "s \<in> set (ed_plan d) \<and> st_id s = mi_step i" using dict_by_iff [OF assms] by blast
  have u: "\<forall>s' \<in> set (ed_plan d). st_id s' = mi_step i \<longrightarrow> s' = s"
    using dict_by_iff [OF assms, of "mi_step i"] Some by (metis option.inject)
  have e: "(\<exists>s' \<in> set (ed_plan d). st_id s' = mi_step i \<and> P s') \<longleftrightarrow> P s" for P using s u by metis
  have a: "intent_admitted (ed_plan d) p known i \<longleftrightarrow>
      code_points (st_capability s) = ip_capability p \<and> st_dependencies s = [] \<and>
     mi_dependencies i = [] \<and> code_points (mi_operation i) \<in> set (ip_operations p) \<and> \<not> unsafe_target (mi_target i) \<and>
     declared_requirements i = requirement_id ` set (ip_preservation p) \<and>
     int (length (utf8_encode (mi_content i))) \<le> ip_max_content_bytes p \<and> set (mi_grounding i) \<subseteq> known"
    unfolding intent_admitted_def e by simp
  show ?thesis
    unfolding a check_intent_def Let_def Some option.case first_error_None_iff by (auto simp: intent_bytes_def)
qed

lemma intents_checked:
  assumes "distinct (map st_id (ed_plan d))"
  shows "check_intents d p known = None \<longleftrightarrow>
    (case p of None \<Rightarrow> ed_intents d = [] | Some p \<Rightarrow> \<exists>i. ed_intents d = [i] \<and> intent_admitted (ed_plan d) p known i)"
  using intent_checked [OF assms] by (auto simp: check_intents_def split: option.splits list.splits)

lemma policy_decides: "validate_decision_policy d q = Inr () \<longleftrightarrow> admissible d q"
proof (cases "distinct (map st_id (ed_plan d))")
  case True
  show ?thesis
    using plan_checked [of d "dr_capabilities q"] intents_checked [OF True, of "dr_intents q" "known_provenance q"] True
    by (auto simp: validate_decision_policy_def decision_policy_error_def admissible_def Let_def split: option.splits)
next
  case False
  then have "check_steps d (dr_capabilities q) 0 [] (ed_plan d) \<noteq> None" using plan_checked by blast
  then show ?thesis using False
    by (auto simp: validate_decision_policy_def decision_policy_error_def admissible_def Let_def)
qed

section \<open>The dependency relation of an admitted plan\<close>

definition depends :: "plan_step list \<Rightarrow> (string \<times> string) set" where
  "depends p = {(x, st_id s) | x s. s \<in> set p \<and> x \<in> set (st_dependencies s)}"

definition step_position :: "plan_step list \<Rightarrow> string \<Rightarrow> nat" where
  "step_position p i = (LEAST n. n < length p \<and> st_id (p ! n) = i)"

lemma step_position_nth:
  assumes "distinct (map st_id p)" and "n < length p"
  shows "step_position p (st_id (p ! n)) = n"
  unfolding step_position_def
proof (rule Least_equality)
  show "n < length p \<and> st_id (p ! n) = st_id (p ! n)" using assms(2) by simp
  fix m assume "m < length p \<and> st_id (p ! m) = st_id (p ! n)"
  then show "n \<le> m" using assms nth_eq_iff_index_eq [OF assms(1), of m n] by simp
qed

lemma depends_earlier:
  assumes "distinct (map st_id p)" and "plan_ordered p" and "(x, y) \<in> depends p"
  shows "step_position p x < step_position p y"
proof -
  from assms(3) obtain n where n: "n < length p" "y = st_id (p ! n)" "x \<in> set (st_dependencies (p ! n))"
    by (auto simp: depends_def in_set_conv_nth)
  then have "x \<in> st_id ` set (take n p)" using assms(2) by (auto simp: plan_ordered_def)
  then obtain m where "m < n" "x = st_id (p ! m)" by (auto simp: in_set_conv_nth n(1) less_imp_le)
  then show ?thesis using n step_position_nth [OF assms(1)] by simp
qed

lemma admitted_acyclic:
  assumes "distinct (map st_id p)" and "plan_ordered p"
  shows "acyclic (depends p)"
  by (rule acyclicI_order [where f = "\<lambda>x. - int (step_position p x)"])
    (use depends_earlier [OF assms] in fastforce)

section \<open>What the parameter check misses\<close>

text \<open>A forbidden key in a list of lists is not found.\<close>

lemma nested_list_escapes:
  "value_fault (PDict [(PStr ''steps'', PList [PDict [(PStr ''Command'', PStr ''rm'')]])]) = Some FORBIDDEN_KEY"
  "value_fault (PDict [(PStr ''steps'', PList [PList [PDict [(PStr ''command'', PStr ''rm'')]]])]) = None"
  by code_simp+

end
