(* ===== verification/Translation.thy ===== *)
theory Translation
  imports DecisionPolicy Mutation
begin

text \<open>
  From an admitted decision to one change proposal: \<open>gateway/mutation_translation.py\<close>. The translator
  reads the target through the trusted workspace state and writes nothing.

  The hashes and the identity of the workspace root are those of the mutation environment; the hash
  of a decision and the sensitivity policy of the trusted state are parameters. An \<open>OSError\<close> of a
  read and the \<open>ValueError\<close> of a constructor are not \<open>MutationTranslationError\<close>s.
\<close>

section \<open>Results of the gateway\<close>

datatype gateway_error_kind =
    REQUEST_INVALID | ROUTING_UNAVAILABLE | PROVIDER_TIMEOUT | PROVIDER_TRANSIENT_FAILURE | PROVIDER_PERMANENT_FAILURE
  | RESPONSE_EMPTY_OR_MALFORMED | SCHEMA_INVALID | GATEWAY_POLICY_REJECTED | BUDGET_EXCEEDED | ALL_ATTEMPTS_FAILED

record gateway_error =
  ge_kind :: gateway_error_kind
  ge_message :: string
  ge_retryable :: bool
  ge_provider :: "string option"
  ge_model :: "string option"
  ge_attempts :: nat
  ge_trace :: string

text \<open>The usage, selection and trace of a result are reported and not read.\<close>

record decision_result =
  gr_success :: bool
  gr_decision :: "engineering_decision option"
  gr_error :: "gateway_error option"
  gr_violation :: "decision_violation option"

definition make_decision_result :: "decision_result \<Rightarrow> py_error + decision_result" where
  "make_decision_result r = guarded
     [(gr_success r \<and> gr_decision r = None, ValueError ''successful result requires a decision''),
      (gr_success r \<and> gr_error r \<noteq> None, ValueError ''successful result cannot contain an error''),
      (\<not> gr_success r \<and> gr_error r = None, ValueError ''failed result requires a GatewayError''),
      (gr_success r \<and> gr_violation r \<noteq> None, ValueError ''successful result cannot contain a policy violation'')] r"

section \<open>Rejections\<close>

datatype translation_code =
    GATEWAY_RESULT_INVALID | MUTATION_MODE_DISABLED | TR_INTENT_COUNT_INVALID | TR_INTENT_STEP_INVALID
  | TR_INTENT_DEPENDENCIES_FORBIDDEN | TR_OPERATION_UNSUPPORTED | TARGET_PATH_INVALID | TARGET_PARENT_INVALID
  | TR_TARGET_NOT_REGULAR_FILE | TARGET_NOT_UTF8 | SENSITIVE_TARGET | TRUSTED_BINDING_INVALID
  | PRESERVATION_REQUIREMENT_INVALID

record translation_violation =
  tv_code :: translation_code
  tv_message :: string
  tv_target :: "string option"

datatype translation_exn = TranslationRejected translation_violation | ReadFailed | InvalidProposal py_error

definition turn_down :: "translation_code \<Rightarrow> string \<Rightarrow> string option \<Rightarrow> translation_exn" where
  "turn_down c msg t = TranslationRejected \<lparr>tv_code = c, tv_message = msg, tv_target = t\<rparr>"

section \<open>The trusted state\<close>

record trusted_state =
  ts_root :: path
  ts_snapshot :: string
  ts_context :: string
  ts_policy :: string
  ts_excluded :: "path \<Rightarrow> bool"

text \<open>The root is resolved, and must exist; \<open>None\<close> is the \<open>FileNotFoundError\<close>.\<close>

definition make_trusted_state :: "fs \<Rightarrow> trusted_state \<Rightarrow> (py_error + trusted_state) option" where
  "make_trusted_state fs t =
     (if \<not> path_exists fs (ts_root t) then None
      else Some (guarded
        [(blank (ts_snapshot t), ValueError ''repository_snapshot_fingerprint cannot be empty''),
         (blank (ts_context t), ValueError ''context_fingerprint cannot be empty''),
         (blank (ts_policy t), ValueError ''policy_version cannot be empty'')] (t\<lparr>ts_root := resolve fs (ts_root t)\<rparr>)))"

fun parent_fault :: "fs \<Rightarrow> path \<Rightarrow> path \<Rightarrow> string option" where
  "parent_fault fs current [] = None"
| "parent_fault fs current (c # cs) =
     (if \<not> path_exists fs (current @ [c]) then Some ''target parent directory does not exist''
      else if own_entry fs (current @ [c]) \<noteq> Some Dir then Some ''target parent is not a safe directory''
      else parent_fault fs (current @ [c]) cs)"

text \<open>\<open>read_target_state\<close>: no target, or its fingerprint and its text.\<close>

definition read_target :: "mutation_env \<Rightarrow> fs \<Rightarrow> trusted_state \<Rightarrow> string \<Rightarrow> translation_exn + (string \<times> nat list) option" where
  "read_target env fs t s =
     (let root = ts_root t; parts = path_parts s; target = root @ parts; no = (\<lambda>c msg. Inl (turn_down c msg (Some s))) in
      if unsafe_target s then no TARGET_PATH_INVALID ''target path is invalid''
      else case parent_fault fs root (butlast parts) of
        Some msg \<Rightarrow> no TARGET_PARENT_INVALID msg
      | None \<Rightarrow>
          if take (length root) (resolve fs (butlast target)) \<noteq> root
          then no TARGET_PATH_INVALID ''target path escapes the trusted workspace root''
          else if ts_excluded t parts then no SENSITIVE_TARGET ''target is protected by sensitivity policy''
          else if \<not> path_exists fs target then Inr None
          else case own_entry fs target of
            Some (File _ _) \<Rightarrow>
              (case read_bytes fs target of
                 None \<Rightarrow> Inl ReadFailed
               | Some data \<Rightarrow>
                   if 0 \<in> set data then no TARGET_NOT_UTF8 ''target is not a supported UTF-8 text file''
                   else (case utf8_decode data of
                           None \<Rightarrow> no TARGET_NOT_UTF8 ''target is not a supported UTF-8 text file''
                         | Some text \<Rightarrow> Inr (Some (sha256 env (encode_text text), text))))
          | _ \<Rightarrow> no TR_TARGET_NOT_REGULAR_FILE ''target is not a safe regular file'')"

section \<open>The translator\<close>

definition binding_fault :: "decision_request \<Rightarrow> trusted_state \<Rightarrow> string option" where
  "binding_fault q t =
     (let m = map_of (ec_truncation (dr_context q)) in
      if m ''snapshot_fingerprint'' \<noteq> Some (PStr (ts_snapshot t))
      then Some ''trusted repository snapshot binding does not match the governed request''
      else if m ''context_fingerprint'' \<noteq> Some (PStr (ts_context t))
      then Some ''trusted context binding does not match the governed request'' else None)"

definition intent_shape_fault :: "mutation_intent \<Rightarrow> engineering_decision \<Rightarrow> intent_policy \<Rightarrow> translation_exn option" where
  "intent_shape_fault i d p =
     (let no = (\<lambda>c msg. Some (turn_down c msg (Some (mi_target i)))) in
      case dict_by st_id (ed_plan d) (mi_step i) of
        None \<Rightarrow> no TR_INTENT_STEP_INVALID ''mutation intent does not match the configured mutation step''
      | Some s \<Rightarrow>
          if code_points (st_capability s) \<noteq> ip_capability p
          then no TR_INTENT_STEP_INVALID ''mutation intent does not match the configured mutation step''
          else if st_dependencies s \<noteq> [] \<or> mi_dependencies i \<noteq> []
          then no TR_INTENT_DEPENDENCIES_FORBIDDEN ''mutation intent dependencies are not supported''
          else if code_points (mi_operation i) \<notin> set (ip_operations p)
          then no TR_OPERATION_UNSUPPORTED ''mutation intent operation is not supported''
          else if unsafe_target (mi_target i) then no TARGET_PATH_INVALID ''target path is invalid''
          else None)"

definition operation_of :: "mutation_intent \<Rightarrow> translation_exn + mutation_operation" where
  "operation_of i =
     (if mi_operation i = ''create_file'' then Inr CREATE_FILE
      else if mi_operation i = ''modify_file'' then Inr MODIFY_FILE
      else Inl (turn_down TR_OPERATION_UNSUPPORTED ''mutation intent operation is not supported by the mutation boundary''
             (Some (mi_target i))))"

definition starts_with :: "'a list \<Rightarrow> 'a list \<Rightarrow> bool" where
  "starts_with s p \<longleftrightarrow> take (length p) s = p"

text \<open>The loop over the requirements.\<close>

fun requirement_fault :: "nat list \<Rightarrow> nat list \<Rightarrow> preservation list \<Rightarrow> string option" where
  "requirement_fault current proposed [] = None"
| "requirement_fault current proposed (r # rs) =
     (if \<not> starts_with current (required_prefix r)
      then Some ''trusted preservation requirement does not match the current target''
      else if \<not> starts_with proposed (required_prefix r)
      then Some ''proposed replacement omits required preserved leading content''
      else requirement_fault current proposed rs)"

definition preservation_fault :: "mutation_intent \<Rightarrow> preservation list \<Rightarrow> nat list option \<Rightarrow> string option" where
  "preservation_fault i rs current =
     (if declared_requirements i \<noteq> requirement_id ` set rs
      then Some ''mutation intent preservation bindings do not match trusted requirements''
      else if rs = [] then None
      else case current of
        None \<Rightarrow> Some ''trusted preservation requirements need an existing text target''
      | Some text \<Rightarrow> requirement_fault text (code_points (mi_content i)) rs)"

definition risk_of :: "engineering_decision \<Rightarrow> mutation_risk" where
  "risk_of d =
     (let severities = rk_severity ` set (ed_risks d)
      in if severities \<inter> {CRITICAL_SEVERITY, HIGH_SEVERITY} \<noteq> {} then RISK_HIGH
         else if severities = {LOW_SEVERITY} then RISK_LOW else RISK_MEDIUM)"

definition sha_text :: "mutation_env \<Rightarrow> string \<Rightarrow> string" where
  "sha_text env s = sha256 env (utf8_encode s)"

fun joined :: "string \<Rightarrow> string list \<Rightarrow> string" where
  "joined sep [] = []"
| "joined sep [s] = s"
| "joined sep (s # ss) = s @ sep @ joined sep ss"

definition proposal_identity :: "mutation_env \<Rightarrow> fs \<Rightarrow> string \<Rightarrow> string \<Rightarrow> mutation_intent \<Rightarrow> trusted_state \<Rightarrow> string" where
  "proposal_identity env fs run decision i t =
     ''proposal-'' @ sha_text env (joined [CHR 0x1F]
       [run, decision, mi_id i, mi_target i, mi_operation i, sha_text env (mi_content i), ts_context t, ts_snapshot t,
        root_fingerprint env fs (ts_root t), ts_policy t])"

text \<open>The record \<open>translate\<close> builds.\<close>

definition translated :: "mutation_env \<Rightarrow> (engineering_decision \<Rightarrow> string) \<Rightarrow> fs \<Rightarrow> string \<Rightarrow> decision_request \<Rightarrow> trusted_state
    \<Rightarrow> engineering_decision \<Rightarrow> mutation_intent \<Rightarrow> mutation_operation \<Rightarrow> mutation_precondition \<Rightarrow> change_proposal" where
  "translated env digest_of fs run q t d i change pre =
     \<lparr>proposal_id = proposal_identity env fs run (digest_of d) i t, cp_run_id = run, decision_id = digest_of d,
      target_path = mi_target i, operation = change, content = mi_content i, precondition = pre,
      reason = mi_rationale i, provenance_ids = mi_grounding i, risk = risk_of d,
      cp_metadata = [(''mutation_intent_id'', mi_id i), (''mutation_intent_schema_version'', mi_schema i),
        (''gateway_request_id'', dr_request_id q), (''policy_version'', ts_policy t)],
      expected_postcondition = \<lparr>post_expect_exists = True, post_fingerprint = Some (sha_text env (mi_content i))\<rparr>,
      context_fingerprint = ts_context t, repository_snapshot_fingerprint = ts_snapshot t,
      cp_workspace_fingerprint = root_fingerprint env fs (ts_root t), contract_version = ''1.0''\<rparr>"

definition build_proposal :: "mutation_env \<Rightarrow> (engineering_decision \<Rightarrow> string) \<Rightarrow> fs \<Rightarrow> string \<Rightarrow> decision_request \<Rightarrow> trusted_state
    \<Rightarrow> engineering_decision \<Rightarrow> mutation_intent \<Rightarrow> intent_policy \<Rightarrow> translation_exn + change_proposal" where
  "build_proposal env digest_of fs run q t d i p =
     bind_res (read_target env fs t (mi_target i)) (\<lambda>seen.
     bind_res (operation_of i) (\<lambda>change.
       case preservation_fault i (ip_preservation p) (map_option snd seen) of
         Some msg \<Rightarrow> Inl (turn_down PRESERVATION_REQUIREMENT_INVALID msg (Some (mi_target i)))
       | None \<Rightarrow>
           (case bind_res (make_precondition \<lparr>pre_expect_exists = seen \<noteq> None, pre_fingerprint = map_option fst seen\<rparr>)
               (\<lambda>pre. make_proposal (translated env digest_of fs run q t d i change pre)) of
              Inl e \<Rightarrow> Inl (InvalidProposal e)
            | Inr x \<Rightarrow> Inr x)))"

definition translate :: "mutation_env \<Rightarrow> (engineering_decision \<Rightarrow> string) \<Rightarrow> fs \<Rightarrow> decision_result \<Rightarrow> decision_request \<Rightarrow> string
    \<Rightarrow> trusted_state \<Rightarrow> translation_exn + change_proposal" where
  "translate env digest_of fs r q run t =
     (let no = (\<lambda>c msg. Inl (turn_down c msg None)) in
      case (gr_success r, gr_decision r, gr_error r) of
        (True, Some d, None) \<Rightarrow>
          if blank run then no TRUSTED_BINDING_INVALID ''trusted run identity is required''
          else (case binding_fault q t of
            Some msg \<Rightarrow> no TRUSTED_BINDING_INVALID msg
          | None \<Rightarrow>
              (case dr_intents q of
                 None \<Rightarrow> no MUTATION_MODE_DISABLED ''mutation intent mode is not enabled for this request''
               | Some p \<Rightarrow>
                   (case ed_intents d of
                      [i] \<Rightarrow>
                        (case intent_shape_fault i d p of
                           Some e \<Rightarrow> Inl e
                         | None \<Rightarrow> build_proposal env digest_of fs run q t d i p)
                    | _ \<Rightarrow> no TR_INTENT_COUNT_INVALID ''exactly one mutation intent is required'')))
      | _ \<Rightarrow> no GATEWAY_RESULT_INVALID ''translation requires a successful governed decision result'')"

section \<open>What a translation establishes\<close>

lemma translate_Inr:
  assumes "translate env digest_of fs r q run t = Inr p"
  obtains d i pol seen pre where "gr_decision r = Some d" and "dr_intents q = Some pol" and "ed_intents d = [i]"
    and "intent_shape_fault i d pol = None" and "read_target env fs t (mi_target i) = Inr seen" and "operation_of i = Inr (operation p)"
    and "preservation_fault i (ip_preservation pol) (map_option snd seen) = None"
    and "pre = \<lparr>pre_expect_exists = seen \<noteq> None, pre_fingerprint = map_option fst seen\<rparr>"
    and "p = translated env digest_of fs run q t d i (operation p) pre" and "make_proposal p = Inr p"
  using assms
  by (auto simp: translate_def build_proposal_def Let_def bind_res_Inr_iff make_precondition_def make_proposal_def guarded_Inr_iff
      translated_def split: prod.splits option.splits bool.splits list.splits if_splits sum.splits)

lemma requirements_kept:
  "requirement_fault current proposed rs = None \<Longrightarrow> r \<in> set rs \<Longrightarrow>
    starts_with current (required_prefix r) \<and> starts_with proposed (required_prefix r)"
  by (induction rs) (auto split: if_splits)

lemma preservation_kept:
  assumes "preservation_fault i rs current = None" and "r \<in> set rs"
  shows "starts_with (code_points (mi_content i)) (required_prefix r) \<and>
    (\<exists>text. current = Some text \<and> starts_with text (required_prefix r))"
  using assms requirements_kept by (fastforce simp: preservation_fault_def split: if_splits option.splits)

lemma operation_of_Inr: "operation_of i = Inr x \<Longrightarrow> x = CREATE_FILE \<or> x = MODIFY_FILE"
  by (auto simp: operation_of_def split: if_splits)

end
