(* ===== verification/Workflow.thy ===== *)
theory Workflow
  imports Translation
begin

text \<open>
  One governed decision-to-mutation attempt: \<open>gateway/mutation_workflow.py\<close>, on the mutation runtime of
  theory \<open>Mutation\<close>. The gateway and the lifecycle observer are supplied objects: the gateway answers a
  request, or raises; each call of the observer takes the observer's state to its next one and
  may raise.
\<close>

section \<open>Results\<close>

datatype failure_stage =
    STAGE_PROVIDER_TIMEOUT | STAGE_PROVIDER_FAILURE | STAGE_SCHEMA_FAILURE | STAGE_DECISION_REJECTED
  | STAGE_TRANSLATION_FAILURE | STAGE_POLICY_REJECTED | STAGE_AUTHORIZATION_REJECTED | STAGE_MUTATION_FAILED
  | STAGE_VERIFICATION_FAILED

record workflow_result =
  wr_gateway :: decision_result
  wr_proposal :: "change_proposal option"
  wr_receipt :: "mutation_receipt option"
  wr_stage :: "failure_stage option"
  wr_violation :: "translation_violation option"

definition wr_success :: "workflow_result \<Rightarrow> bool" where
  "wr_success w \<longleftrightarrow> (case wr_receipt w of None \<Rightarrow> False | Some r \<Rightarrow> result r = MUT_COMPLETED)"

text \<open>A gateway may raise, and may raise the very exception by which an observer refuses.\<close>

datatype gateway_exn = GatewayFailure | LifecycleRefusal

datatype 'e workflow_exn =
    ObserverRaised 'e | GatewayRaised gateway_exn | TranslatorRaised translation_exn | MutationRaised mutation_exn

definition gateway_failure_stage :: "decision_result \<Rightarrow> failure_stage" where
  "gateway_failure_stage r =
     (case gr_error r of
        None \<Rightarrow> STAGE_PROVIDER_FAILURE
      | Some e \<Rightarrow>
          if ge_kind e = PROVIDER_TIMEOUT then STAGE_PROVIDER_TIMEOUT
          else if ge_kind e \<in> {SCHEMA_INVALID, RESPONSE_EMPTY_OR_MALFORMED} then STAGE_SCHEMA_FAILURE
          else if ge_kind e = GATEWAY_POLICY_REJECTED then STAGE_DECISION_REJECTED else STAGE_PROVIDER_FAILURE)"

definition receipt_failure_stage :: "mutation_receipt \<Rightarrow> failure_stage option" where
  "receipt_failure_stage r =
     (if result r = MUT_COMPLETED then None
      else if failure_code r \<in> Some ` {''authorization_rejected'', ''authorization_mismatch'', ''authorization_reused''}
      then Some STAGE_AUTHORIZATION_REJECTED
      else if failure_code r = Some ''postcondition_mismatch'' then Some STAGE_VERIFICATION_FAILED
      else if result r = MUT_REJECTED then Some STAGE_POLICY_REJECTED else Some STAGE_MUTATION_FAILED)"

definition gateway_refused :: "decision_result \<Rightarrow> workflow_result" where
  "gateway_refused r = \<lparr>wr_gateway = r, wr_proposal = None, wr_receipt = None, wr_stage = Some (gateway_failure_stage r),
     wr_violation = None\<rparr>"

definition not_translated :: "decision_result \<Rightarrow> translation_violation \<Rightarrow> workflow_result" where
  "not_translated r v = \<lparr>wr_gateway = r, wr_proposal = None, wr_receipt = None, wr_stage = Some STAGE_TRANSLATION_FAILURE,
     wr_violation = Some v\<rparr>"

definition attempted :: "decision_result \<Rightarrow> change_proposal \<Rightarrow> mutation_receipt \<Rightarrow> workflow_result" where
  "attempted r p x = \<lparr>wr_gateway = r, wr_proposal = Some p, wr_receipt = Some x, wr_stage = receipt_failure_stage x,
     wr_violation = None\<rparr>"

section \<open>The workflow\<close>

text \<open>The objects the workflow is built from.\<close>

record workflow_env =
  wf_env :: mutation_env
  wf_policy :: policy_settings
  wf_root :: path
  wf_digest :: "engineering_decision \<Rightarrow> string"

record ('o, 'e) lifecycle_observer =
  before_deciding :: "decision_request \<Rightarrow> 'o \<Rightarrow> 'o \<times> 'e option"
  before_proposing :: "decision_request \<Rightarrow> decision_result \<Rightarrow> 'o \<Rightarrow> 'o \<times> 'e option"
  before_authorizing :: "change_proposal \<Rightarrow> 'o \<Rightarrow> 'o \<times> 'e option"
  before_mutating :: "change_proposal \<Rightarrow> mutation_authorization \<Rightarrow> 'o \<Rightarrow> 'o \<times> 'e option"

type_synonym ('o, 'e) workflow_run = "'o \<times> mutation_state \<times> ('e workflow_exn + workflow_result)"

text \<open>The observer's turn: when it raises, the stage after it does not run.\<close>

fun observed_stage :: "'o \<times> 'e option \<Rightarrow> mutation_state \<Rightarrow> ('o \<Rightarrow> ('o, 'e) workflow_run) \<Rightarrow> ('o, 'e) workflow_run" where
  "observed_stage (ob, Some e) s f = (ob, s, Inl (ObserverRaised e))"
| "observed_stage (ob, None) s f = f ob"

definition receipt_run :: "'o \<Rightarrow> decision_result \<Rightarrow> change_proposal \<Rightarrow> mutation_state \<times> (mutation_exn + mutation_receipt)
    \<Rightarrow> ('o, 'e) workflow_run" where
  "receipt_run ob r p m =
     (case m of (s, Inl e) \<Rightarrow> (ob, s, Inl (MutationRaised e)) | (s, Inr x) \<Rightarrow> (ob, s, Inr (attempted r p x)))"

text \<open>Validation, authorization and mutation of the proposal, under the observer.\<close>

definition governed_attempt :: "workflow_env \<Rightarrow> mutation_faults \<Rightarrow> ('o, 'e) lifecycle_observer \<Rightarrow> mutation_state \<Rightarrow> decision_result
    \<Rightarrow> change_proposal \<Rightarrow> 'o \<Rightarrow> ('o, 'e) workflow_run" where
  "governed_attempt W fl L s r p ob =
     (case validate_mutation (wf_env W) (wf_policy W) (wf_root W) s p of
        (s1, Inl (MutationPolicyError vi)) \<Rightarrow>
          receipt_run ob r p (execute_mutation (wf_env W) (wf_policy W) fl (wf_root W) s1 p)
      | (s1, Inl e) \<Rightarrow> (ob, s1, Inl (MutationRaised e))
      | (s1, Inr v) \<Rightarrow>
          (case authorize_mutation (wf_env W) (wf_policy W) s1 v of
             (s2, Inl e) \<Rightarrow> (ob, s2, Inl (MutationRaised e))
           | (s2, Inr a) \<Rightarrow>
               observed_stage (before_mutating L p a ob) s2 (\<lambda>ob.
                 receipt_run ob r p (mutate (wf_env W) (wf_policy W) fl (wf_root W) s2 v a))))"

definition execute_workflow :: "workflow_env \<Rightarrow> mutation_faults \<Rightarrow> (decision_request \<Rightarrow> gateway_exn + decision_result)
    \<Rightarrow> ('o, 'e) lifecycle_observer \<Rightarrow> decision_request \<Rightarrow> string \<Rightarrow> trusted_state \<Rightarrow> mutation_state \<Rightarrow> 'o \<Rightarrow> ('o, 'e) workflow_run" where
  "execute_workflow W fl gateway L q run t s ob =
     observed_stage (before_deciding L q ob) s (\<lambda>ob.
       case gateway q of
         Inl e \<Rightarrow> (ob, s, Inl (GatewayRaised e))
       | Inr r \<Rightarrow>
           if \<not> gr_success r then (ob, s, Inr (gateway_refused r))
           else observed_stage (before_proposing L q r ob) s (\<lambda>ob.
             case translate (wf_env W) (wf_digest W) (tree s) r q run t of
               Inl (TranslationRejected v) \<Rightarrow> (ob, s, Inr (not_translated r v))
             | Inl e \<Rightarrow> (ob, s, Inl (TranslatorRaised e))
             | Inr p \<Rightarrow> observed_stage (before_authorizing L p ob) s (governed_attempt W fl L s r p)))"

text \<open>\<open>_execute_default\<close>: without an observer.\<close>

definition execute_default :: "workflow_env \<Rightarrow> mutation_faults \<Rightarrow> (decision_request \<Rightarrow> gateway_exn + decision_result) \<Rightarrow> decision_request
    \<Rightarrow> string \<Rightarrow> trusted_state \<Rightarrow> mutation_state \<Rightarrow> mutation_state \<times> (unit workflow_exn + workflow_result)" where
  "execute_default W fl gateway q run t s =
     (case gateway q of
        Inl e \<Rightarrow> (s, Inl (GatewayRaised e))
      | Inr r \<Rightarrow>
          if \<not> gr_success r then (s, Inr (gateway_refused r))
          else (case translate (wf_env W) (wf_digest W) (tree s) r q run t of
              Inl (TranslationRejected v) \<Rightarrow> (s, Inr (not_translated r v))
            | Inl e \<Rightarrow> (s, Inl (TranslatorRaised e))
            | Inr p \<Rightarrow> snd (receipt_run () r p (execute_mutation (wf_env W) (wf_policy W) fl (wf_root W) s p))))"

section \<open>An observer that does nothing\<close>

definition silent :: "(unit, unit) lifecycle_observer" where
  "silent = \<lparr>before_deciding = \<lambda>q ob. (ob, None), before_proposing = \<lambda>q r ob. (ob, None),
     before_authorizing = \<lambda>p ob. (ob, None), before_mutating = \<lambda>p a ob. (ob, None)\<rparr>"

text \<open>
  With it, the observed path is the default path, except that a proposal the policy refuses is announced
  twice.
\<close>

definition announced :: "workflow_env \<Rightarrow> mutation_state \<Rightarrow> change_proposal \<Rightarrow> mutation_state" where
  "announced W s p = fst (validate_mutation (wf_env W) (wf_policy W) (wf_root W) s p)"

definition refused_by_policy :: "workflow_env \<Rightarrow> mutation_state \<Rightarrow> change_proposal \<Rightarrow> bool" where
  "refused_by_policy W s p \<longleftrightarrow> (case validate_policy (wf_env W) (wf_policy W) (wf_root W) (tree s) p of
     Inl (MutationPolicyError vi) \<Rightarrow> True | _ \<Rightarrow> False)"

lemma silent_attempt:
  "snd (governed_attempt W fl silent s r p ()) =
    (if refused_by_policy W s p then snd (receipt_run () r p (execute_mutation (wf_env W) (wf_policy W) fl (wf_root W) (announced W s p) p))
     else snd (receipt_run () r p (execute_mutation (wf_env W) (wf_policy W) fl (wf_root W) s p)))"
proof (cases "validate_policy (wf_env W) (wf_policy W) (wf_root W) (tree s) p")
  case (Inl e)
  then show ?thesis
    by (cases e) (simp_all add: governed_attempt_def validate_mutation_def execute_mutation_def refused_by_policy_def
        announced_def receipt_run_def)
next
  case (Inr v)
  then show ?thesis
    by (auto simp: governed_attempt_def validate_mutation_def execute_mutation_def refused_by_policy_def
        receipt_run_def silent_def split: prod.splits sum.splits)
qed

section \<open>What an attempt does to the tree\<close>

text \<open>The temporary names are free in every tree that differs only at the targets \<open>T\<close>.\<close>

definition temps_outside :: "mutation_env \<Rightarrow> fs \<Rightarrow> path set \<Rightarrow> bool" where
  "temps_outside env fs0 T \<longleftrightarrow> (\<forall>fs t. (\<forall>q. q \<notin> T \<longrightarrow> fs q = fs0 q) \<longrightarrow> t \<in> T \<longrightarrow> temp_free env fs t)"

definition same_outside :: "path set \<Rightarrow> fs \<Rightarrow> fs \<Rightarrow> bool" where
  "same_outside T fs0 fs \<longleftrightarrow> (\<forall>q. q \<notin> T \<longrightarrow> fs q = fs0 q)"

definition target_of :: "workflow_env \<Rightarrow> change_proposal \<Rightarrow> path" where
  "target_of W p = wf_root W @ path_parts (target_path p)"

lemma outside_temps:
  assumes "temps_outside env fs0 T" and "same_outside T fs0 fs" and "t \<in> T"
  shows "temps_free env fs t p"
  using assms by (auto simp: temps_free_def temps_outside_def same_outside_def wrote_def)

lemma map_sum_Inr_iff: "map_sum f g m = Inr y \<longleftrightarrow> (\<exists>x. m = Inr x \<and> y = g x)"
  by (cases m) auto

lemma validated_proposal: "validate_policy env cfg ws fs p = Inr v \<Longrightarrow> proposal v = p"
  by (auto simp: validate_policy_def Let_def bind_res_Inr_iff split: if_splits option.splits)

text \<open>The receipt of a mutation names the proposal, the run and the authorization.\<close>

definition receipt_for_proposal :: "change_proposal \<Rightarrow> mutation_authorization option \<Rightarrow> mutation_receipt \<Rightarrow> bool" where
  "receipt_for_proposal p a x \<longleftrightarrow> re_proposal_id x = proposal_id p \<and> re_run_id x = cp_run_id p \<and> re_target_path x = target_path p \<and>
     re_authorization_id x = map_option authorization_id a"

lemma rejected_names: "rejected_receipt env s p vi a = (s', x) \<Longrightarrow> receipt_for_proposal p a x"
  by (auto simp: rejected_receipt_def new_uuid_def receipt_for_proposal_def Let_def)

lemma outcome_names:
  "receipt_for_proposal p (Some a) (outcome_receipt new cfg p a pre n)"
  by (simp add: outcome_receipt_def receipt_for_proposal_def)

lemma perform_names:
  assumes "perform env cfg fl target s cur a before = (s', Inr x)"
  shows "receipt_for_proposal (proposal cur) (Some a) x"
  using assms
  by (auto simp: perform_def new_uuid_def Let_def receipt_for_proposal_def outcome_receipt_def
      split: prod.splits if_splits option.splits sum.splits)

lemma mutate_names:
  assumes "mutate env cfg fl ws s v a = (s', Inr x)"
  shows "receipt_for_proposal (proposal v) (Some a) x"
proof (cases "bind_res (validate_policy env cfg ws (tree s) (proposal v))
    (\<lambda>cur. map_sum (\<lambda>e. e) (Pair cur) (consume_authorization env cfg a cur))")
  case (Inl e)
  then show ?thesis using assms rejected_names
    by (cases e) (auto simp: mutate_def Let_def apsnd_def map_prod_def split: prod.splits)
next
  case (Inr cc)
  then obtain cur b where c: "validate_policy env cfg ws (tree s) (proposal v) = Inr cur"
    "consume_authorization env cfg a cur = Inr b" "cc = (cur, b)"
    by (auto simp: bind_res_Inr_iff map_sum_Inr_iff)
  have b: "authorization_id b = authorization_id a" using c(2) by (simp add: consume_authorization_Inr)
  from assms Inr c(3) obtain before where
    "perform env cfg fl (ws @ path_parts (target_path (proposal v))) s cur b before = (s', Inr x)"
    by (auto simp: mutate_def Let_def split: option.splits)
  from perform_names [OF this] b validated_proposal [OF c(1)] show ?thesis by (simp add: receipt_for_proposal_def)
qed

text \<open>
  What one attempt with proposal \<open>p\<close> does: nothing to the tree and no success, or the observer let the
  mutation under an authorization pass, and the receipt says what the tree shows.
\<close>

definition attempt_done :: "workflow_env \<Rightarrow> ('o, 'e) lifecycle_observer \<Rightarrow> mutation_state \<Rightarrow> mutation_state \<Rightarrow> decision_result
    \<Rightarrow> change_proposal \<Rightarrow> 'o \<Rightarrow> 'o \<Rightarrow> 'e workflow_exn + workflow_result \<Rightarrow> bool" where
  "attempt_done W L s s' r p ob ob' out \<longleftrightarrow>
     (\<exists>a x. before_mutating L p a ob = (ob', None) \<and> out = Inr (attempted r p x) \<and> receipt_for_proposal p (Some a) x \<and>
        (result x = MUT_COMPLETED \<or> tree s' \<noteq> tree s \<longrightarrow>
          (\<exists>cur. validate_policy (wf_env W) (wf_policy W) (wf_root W) (tree s) p = Inr cur)) \<and>
        (if result x = MUT_COMPLETED
         then verification_passed x \<and> au_proposal_digest a = proposal_digest (wf_env W) p \<and> tree s' = wrote (tree s) (target_of W p) p
         else tree s' = tree s \<or> tree s' = wrote (tree s) (target_of W p) p))"

definition nothing_done :: "mutation_state \<Rightarrow> mutation_state \<Rightarrow> 'e workflow_exn + workflow_result \<Rightarrow> bool" where
  "nothing_done s s' out \<longleftrightarrow> tree s' = tree s \<and> (\<forall>w. out = Inr w \<longrightarrow> \<not> wr_success w)"

lemma governed_attempt_effect:
  assumes r: "root_ok (tree s) (wf_root W)" and t: "temps_free (wf_env W) (tree s) (target_of W p) p"
    and run: "governed_attempt W fl L s r p ob = (ob', s', out)"
  shows "nothing_done s s' out \<and> (ob' = ob \<or> (\<exists>a e. before_mutating L p a ob = (ob', e))) \<or> attempt_done W L s s' r p ob ob' out"
proof (cases "validate_policy (wf_env W) (wf_policy W) (wf_root W) (tree s) p")
  case (Inl e)
  from validate_policy_exn [OF Inl] consider vi where "e = MutationPolicyError vi" | "e = OSError" by blast
  then show ?thesis
  proof cases
    case 1
    let ?s1 = "announced W s p"
    have v: "validate_mutation (wf_env W) (wf_policy W) (wf_root W) s p = (?s1, Inl (MutationPolicyError vi))"
      and t1: "tree ?s1 = tree s"
      using Inl 1 by (simp_all add: validate_mutation_def announced_def)
    let ?s2 = "announced W ?s1 p"
    have "validate_mutation (wf_env W) (wf_policy W) (wf_root W) ?s1 p = (?s2, Inl (MutationPolicyError vi))" and t2: "tree ?s2 = tree s"
      using Inl 1 t1 by (simp_all add: validate_mutation_def announced_def)
    moreover obtain s3 x where x: "rejected_receipt (wf_env W) ?s2 p vi None = (s3, x)" "tree s3 = tree ?s2" "result x = MUT_REJECTED"
      using rejected_receipt_effect [of "wf_env W" ?s2 p vi None] by blast
    ultimately have "execute_mutation (wf_env W) (wf_policy W) fl (wf_root W) ?s1 p = (s3, Inr x)"
      by (simp add: execute_mutation_def)
    then have "(ob', s', out) = (ob, s3, Inr (attempted r p x))"
      using run v by (simp add: governed_attempt_def receipt_run_def)
    then show ?thesis using x t2 by (simp add: nothing_done_def wr_success_def attempted_def)
  next
    case 2
    then show ?thesis using run Inl by (auto simp: governed_attempt_def validate_mutation_def nothing_done_def)
  qed
next
  case (Inr v)
  note pv = validated_proposal [OF Inr]
  have v: "validate_mutation (wf_env W) (wf_policy W) (wf_root W) s p = (announced W s p, Inr v)"
    and t1: "tree (announced W s p) = tree s"
    using Inr by (simp_all add: validate_mutation_def announced_def)
  obtain s2 au where a: "authorize_mutation (wf_env W) (wf_policy W) (announced W s p) v = (s2, au)" by force
  then have t2: "tree s2 = tree s" using t1 by (auto simp: authorize_mutation_def new_uuid_def Let_def split: sum.splits)
  show ?thesis
  proof (cases au)
    case (Inl e)
    then show ?thesis using run v a t2 by (auto simp: governed_attempt_def nothing_done_def)
  next
    case au: (Inr au')
    obtain ob1 e where o: "before_mutating L p au' ob = (ob1, e)" by force
    show ?thesis
    proof (cases e)
      case (Some x)
      then show ?thesis using run v a au o t2 by (auto simp: governed_attempt_def nothing_done_def)
    next
      case None
      have run': "receipt_run ob1 r p (mutate (wf_env W) (wf_policy W) fl (wf_root W) s2 v au') = (ob', s', out)"
        using run v a au o None by (simp add: governed_attempt_def)
      have r2: "root_ok (tree s2) (wf_root W)"
        and t2': "temps_free (wf_env W) (tree s2) (wf_root W @ path_parts (target_path (proposal v))) (proposal v)"
        using r t t2 pv by (simp_all add: target_of_def)
      note names = mutate_names [of "wf_env W" "wf_policy W" fl "wf_root W" s2 v au']
      from mutate_effect [OF r2 t2', of "wf_policy W" fl au'] show ?thesis
      proof (elim disjE exE conjE)
        assume "mutate (wf_env W) (wf_policy W) fl (wf_root W) s2 v au' = (s2, Inl OSError)"
        then show ?thesis using run' t2 o None by (auto simp: receipt_run_def nothing_done_def)
      next
        fix s3 x assume m: "mutate (wf_env W) (wf_policy W) fl (wf_root W) s2 v au' = (s3, Inr x)"
          and x: "result x = MUT_REJECTED" "tree s3 = tree s2"
        then have "attempt_done W L s s' r p ob ob' out" unfolding attempt_done_def
          using run' names [OF m] o None t2 pv by (intro exI [of _ au'] exI [of _ x]) (auto simp: receipt_run_def)
        then show ?thesis by blast
      next
        fix s3 x cur assume m: "mutate (wf_env W) (wf_policy W) fl (wf_root W) s2 v au' = (s3, Inr x)"
          and val: "validate_policy (wf_env W) (wf_policy W) (wf_root W) (tree s2) (proposal v) = Inr cur"
          and az: "authorized_for (wf_env W) (wf_policy W) au' cur"
          and pf: "performed (wf_env W) (wf_policy W) fl (tree s2) (wf_root W @ path_parts (target_path (proposal v)))
            (proposal v) (tree s3) x"
        have d: "au_proposal_digest au' = proposal_digest (wf_env W) p"
          using az pv validated_proposal [OF val] by (auto simp: authorized_for_def consume_authorization_Inr)
        have val': "validate_policy (wf_env W) (wf_policy W) (wf_root W) (tree s) p = Inr cur" using val t2 pv by simp
        have "attempt_done W L s s' r p ob ob' out" unfolding attempt_done_def
          using run' names [OF m] m o None t2 pv pf d val'
          by (intro exI [of _ au'] exI [of _ x]) (auto simp: receipt_run_def target_of_def performed_def split: if_splits)
        then show ?thesis by blast
      qed
    qed
  qed
qed

end
