(* ===== verification/GovernedRuntime.thy ===== *)
theory GovernedRuntime
  imports Workflow Recovery
begin

text \<open>
  The serial governed execution: \<open>governed_runtime/models.py\<close> and \<open>governed_runtime/runtime.py\<close>, on the
  state machine, the workflow, the verifier, the reflection adapter and the replanning policy of the
  theories they are modelled in. The request is the record of theory \<open>GateBindings\<close>.

  What a caller supplies to the runtime is one record: the context and request factories, the gateway,
  the factory of verification specifications, the reflection engine, the planner and the audit
  observer, each answering or raising, with the number of the iteration they are called in; the clock,
  numbered by the length of the ledger; the identifiers drawn; the failing system calls of each
  iteration. The lock per workspace is not modelled: one execution runs at a time.
\<close>

section \<open>Records\<close>

text \<open>A text of code points below 256 is the string of its characters.\<close>

definition latin_text :: "ustring \<Rightarrow> string" where
  "latin_text s = map char_of s"

record iteration_artifact =
  ia_id :: string
  ia_snapshot :: string
  ia_context :: string
  ia_policy :: string

definition make_artifact :: "iteration_artifact \<Rightarrow> py_error + iteration_artifact" where
  "make_artifact a = guarded
     (empty_fields
        [(''artifact_id'', ia_id a), (''repository_snapshot_fingerprint'', ia_snapshot a),
         (''context_fingerprint'', ia_context a), (''policy_version'', ia_policy a)]) a"

record context_bundle =
  cb_context :: engineering_context
  cb_artifact :: iteration_artifact
  cb_trusted :: trusted_state

record assembly_request =
  as_goal :: ustring
  as_repository :: path
  as_capabilities :: "ustring list"
  as_constraints :: "ustring list"

record exec_result =
  xr_context :: exec_context
  xr_artifacts :: "iteration_artifact list"

definition make_exec_result :: "exec_result \<Rightarrow> py_error + exec_result" where
  "make_exec_result r = guarded
     [(\<not> is_terminal (state (xr_context r)), ValueError ''result requires a terminal context''),
      (int (length (xr_artifacts r)) \<noteq> iteration (xr_context r), ValueError ''iteration artifacts must match context iteration'')] r"

definition exec_succeeded :: "exec_result \<Rightarrow> bool" where
  "exec_succeeded r \<longleftrightarrow> state (xr_context r) = COMPLETED"

text \<open>\<open>ProposalPostconditionVerificationFactory\<close>.\<close>

definition postcondition_specification :: "int \<Rightarrow> change_proposal \<Rightarrow> py_error + verification_specification" where
  "postcondition_specification limit p =
     (case post_fingerprint (expected_postcondition p) of
        None \<Rightarrow> Inl (ValueError ''proposal requires a trusted expected postcondition fingerprint'')
      | Some f \<Rightarrow> make_specification
          \<lparr>specification_id = ''verification-specification:'' @ proposal_id p, vs_target_path = target_path p,
           check = EXPECTED_FINGERPRINT, expected_content = None, expected_fingerprint = Some f, max_bytes = limit,
           vs_version = ''1.0''\<rparr>)"

record iteration_state =
  is_ledger :: exec_context
  is_bundle :: context_bundle
  is_request :: decision_request
  is_decision :: string
  is_workflow :: "workflow_result option"
  is_authority :: "fresh_authority option"
  is_verification :: "verification_result option"

section \<open>What the caller supplies\<close>

datatype runtime_exn =
    LedgerRaised transition_exn | RuntimeInvalid py_error | CompositionBreach string | GatewayBroke
  | TranslatorBroke translation_exn | MutationBroke mutation_exn | FactoryBroke | AuditRequired string

text \<open>\<open>None\<close>, or \<open>False\<close>, is a call that raises; the observer may leave something in the tree even then.\<close>

record audit_observer =
  ao_preflight :: "fs \<Rightarrow> path \<Rightarrow> bool"
  ao_record :: "fs \<Rightarrow> exec_result \<Rightarrow> fs \<times> bool"

record runtime_env =
  rt_clock :: "nat \<Rightarrow> int"
  rt_assemble :: "nat \<Rightarrow> fs \<Rightarrow> assembly_request \<Rightarrow> context_bundle option"
  rt_build :: "nat \<Rightarrow> runtime_request \<Rightarrow> engineering_context \<Rightarrow> decision_request option"
  rt_gateway :: "nat \<Rightarrow> decision_request \<Rightarrow> gateway_exn + decision_result"
  rt_workflow :: workflow_env
  rt_faults :: "nat \<Rightarrow> mutation_faults"
  rt_specify :: "nat \<Rightarrow> change_proposal \<Rightarrow> verification_specification option"
  rt_sha :: "bytes \<Rightarrow> string"
  rt_root :: path
  rt_request_id :: "nat \<Rightarrow> string"
  rt_verification_id :: "nat \<Rightarrow> string"
  rt_bus_raises :: "reflection_event \<Rightarrow> bool"
  rt_engine :: "reflection_context \<Rightarrow> reflect_exn + reflection_report"
  rt_memory_ids :: "nat \<Rightarrow> string"
  rt_plan :: "runtime_request \<Rightarrow> memory_evidence \<Rightarrow> string option"
  rt_audit :: "audit_observer option"

section \<open>The ledger and its evidence\<close>

definition lift_invalid :: "py_error + 'a \<Rightarrow> runtime_exn + 'a" where
  "lift_invalid m = (case m of Inl e \<Rightarrow> Inl (RuntimeInvalid e) | Inr x \<Rightarrow> Inr x)"

text \<open>\<open>_transition\<close>.\<close>

definition advance_to :: "runtime_env \<Rightarrow> exec_context \<Rightarrow> exec_state \<Rightarrow> evidence_ref list \<Rightarrow> exec_stop_reason option
    \<Rightarrow> runtime_exn + exec_context" where
  "advance_to R c target ev why =
     (case transition_or_raise None c target ev why (rt_clock R (length (history c))) of
        Inl e \<Rightarrow> Inl (LedgerRaised e) | Inr c \<Rightarrow> Inr c)"

definition evidence_item :: "evidence_kind \<Rightarrow> string \<Rightarrow> (pyval \<times> pyval) list \<Rightarrow> runtime_exn + evidence_ref" where
  "evidence_item k i meta = lift_invalid (make_evidence \<lparr>ev_kind = k, reference_id = i, digest = [], ev_metadata = PDict meta\<rparr>)"

definition step_with :: "runtime_env \<Rightarrow> exec_context \<Rightarrow> exec_state \<Rightarrow> runtime_exn + evidence_ref \<Rightarrow> runtime_exn + exec_context" where
  "step_with R c target ev = bind_res ev (\<lambda>e. advance_to R c target [e] None)"

definition failed :: "runtime_env \<Rightarrow> exec_context \<Rightarrow> exec_stop_reason \<Rightarrow> runtime_exn + exec_context" where
  "failed R c why = advance_to R c FAILED [] (Some why)"

section \<open>The lifecycle observer\<close>

definition observer_result :: "iteration_state \<Rightarrow> runtime_exn + iteration_state \<Rightarrow> iteration_state \<times> runtime_exn option" where
  "observer_result st m = (case m of Inl e \<Rightarrow> (st, Some e) | Inr st' \<Rightarrow> (st', None))"

definition move_ledger :: "iteration_state \<Rightarrow> runtime_exn + exec_context \<Rightarrow> iteration_state \<times> runtime_exn option" where
  "move_ledger st m = observer_result st (bind_res m (\<lambda>c. Inr (st\<lparr>is_ledger := c\<rparr>)))"

text \<open>\<open>_decision_id_from_result\<close>.\<close>

definition decision_identity :: "runtime_env \<Rightarrow> decision_result \<Rightarrow> runtime_exn + string" where
  "decision_identity R r =
     (let v = (case gr_decision r of None \<Rightarrow> [] | Some d \<Rightarrow> wf_digest (rt_workflow R) d)
      in if v = [] then Inl (CompositionBreach ''successful workflow result requires a decision identity'') else Inr v)"

definition on_deciding :: "runtime_env \<Rightarrow> decision_request \<Rightarrow> iteration_state \<Rightarrow> iteration_state \<times> runtime_exn option" where
  "on_deciding R q st = move_ledger st (advance_to R (is_ledger st) DECIDING [] None)"

definition on_proposing :: "runtime_env \<Rightarrow> decision_request \<Rightarrow> decision_result \<Rightarrow> iteration_state \<Rightarrow> iteration_state \<times> runtime_exn option" where
  "on_proposing R q r st =
     (case decision_identity R r of
        Inl e \<Rightarrow> (st, Some e)
      | Inr i \<Rightarrow> let st = st\<lparr>is_decision := i\<rparr> in move_ledger st (step_with R (is_ledger st) PROPOSING (evidence_item DECISION i [])))"

definition on_authorizing :: "runtime_env \<Rightarrow> change_proposal \<Rightarrow> iteration_state \<Rightarrow> iteration_state \<times> runtime_exn option" where
  "on_authorizing R p st =
     move_ledger st (step_with R (is_ledger st) AUTHORIZING (evidence_item PROPOSAL (proposal_id p) []))"

definition candidate_authority :: "iteration_state \<Rightarrow> change_proposal \<Rightarrow> mutation_authorization \<Rightarrow> fresh_authority" where
  "candidate_authority st p a =
     \<lparr>fa_execution_id = execution_id (is_ledger st), fa_iteration = iteration (is_ledger st),
      fa_context_artifact_id = ia_id (cb_artifact (is_bundle st)), fa_context_fingerprint = ia_context (cb_artifact (is_bundle st)),
      fa_decision_request_id = dr_request_id (is_request st), fa_decision_id = is_decision st,
      fa_proposal_id = proposal_id p, fa_authorization_id = authorization_id a, fa_version = ''1.0''\<rparr>"

definition checked_authority :: "fresh_authority option \<Rightarrow> iteration_state \<Rightarrow> change_proposal \<Rightarrow> mutation_authorization
    \<Rightarrow> py_error + fresh_authority" where
  "checked_authority previous st p a =
     bind_res (make_authority (candidate_authority st p a)) (\<lambda>fresh.
       case previous of
         None \<Rightarrow> Inr fresh
       | Some old \<Rightarrow> bind_res (validate_fresh_authority old fresh) (\<lambda>_. Inr fresh))"

definition on_mutating :: "runtime_env \<Rightarrow> fresh_authority option \<Rightarrow> change_proposal \<Rightarrow> mutation_authorization \<Rightarrow> iteration_state
    \<Rightarrow> iteration_state \<times> runtime_exn option" where
  "on_mutating R previous p a st =
     (case lift_invalid (checked_authority previous st p a) of
        Inl e \<Rightarrow> (st, Some e)
      | Inr fresh \<Rightarrow>
          let st = st\<lparr>is_authority := Some fresh\<rparr>
          in move_ledger st (step_with R (is_ledger st) MUTATING (evidence_item AUTHORIZATION (fa_authorization_id fresh) [])))"

definition runtime_observer :: "runtime_env \<Rightarrow> fresh_authority option \<Rightarrow> (iteration_state, runtime_exn) lifecycle_observer" where
  "runtime_observer R previous =
     \<lparr>before_deciding = on_deciding R, before_proposing = on_proposing R, before_authorizing = on_authorizing R,
      before_mutating = on_mutating R previous\<rparr>"

section \<open>One iteration\<close>

text \<open>\<open>_validate_iteration_bindings\<close>; the iteration is one or two.\<close>

definition binding_breach :: "runtime_request \<Rightarrow> context_bundle \<Rightarrow> decision_request \<Rightarrow> string option" where
  "binding_breach rq b q =
     (let m = map_of (ec_truncation (dr_context q)) in
      first_error
        [(\<not> gateway_policy_eq (dr_policy q) (rr_gateway rq), ''decision request must retain the approved one-attempt gateway policy''),
         (m ''snapshot_fingerprint'' \<noteq> Some (PStr (ia_snapshot (cb_artifact b))),
            ''decision request snapshot binding does not match fresh context artifact''),
         (m ''context_fingerprint'' \<noteq> Some (PStr (ia_context (cb_artifact b))),
            ''decision request context binding does not match fresh context artifact''),
         (dr_request_id q = [], ''decision request identity cannot be empty'')])"

fun stop_reason_for :: "failure_stage option \<Rightarrow> exec_stop_reason" where
  "stop_reason_for (Some STAGE_DECISION_REJECTED) = POLICY_REJECTED"
| "stop_reason_for (Some STAGE_POLICY_REJECTED) = POLICY_REJECTED"
| "stop_reason_for (Some STAGE_AUTHORIZATION_REJECTED) = AUTHORIZATION_FAILED"
| "stop_reason_for (Some STAGE_PROVIDER_TIMEOUT) = PROVIDER_FAILED"
| "stop_reason_for (Some STAGE_PROVIDER_FAILURE) = PROVIDER_FAILED"
| "stop_reason_for (Some STAGE_SCHEMA_FAILURE) = PROVIDER_FAILED"
| "stop_reason_for _ = UNRECOVERABLE"

type_synonym iteration_outcome = "runtime_exn + exec_context \<times> iteration_state option"

definition keep_state :: "iteration_state option \<Rightarrow> runtime_exn + exec_context \<Rightarrow> iteration_outcome" where
  "keep_state st m = bind_res m (\<lambda>c. Inr (c, st))"

text \<open>From the receipt of a completed mutation to its verification.\<close>

definition verified :: "runtime_env \<Rightarrow> runtime_request \<Rightarrow> nat \<Rightarrow> fs \<Rightarrow> iteration_state \<Rightarrow> change_proposal \<Rightarrow> mutation_receipt
    \<Rightarrow> iteration_outcome" where
  "verified R rq n fs st p x =
     bind_res (step_with R (is_ledger st) VERIFYING (evidence_item MUTATION_RECEIPT (mutation_id x) [])) (\<lambda>c.
       case rt_specify R n p of
         None \<Rightarrow> Inl FactoryBroke
       | Some v \<Rightarrow>
           bind_res (lift_invalid (make_request \<lparr>request_id = rt_request_id R n, vr_run_id = latin_text (rr_run rq), receipt = x,
               vr_specification = v, execution_context = Some c\<rparr>)) (\<lambda>vq.
           bind_res (lift_invalid (verify (rt_sha R) (rt_root R) fs (rt_verification_id R n) vq)) (\<lambda>vr.
             Inr (c, Some (st\<lparr>is_verification := Some vr\<rparr>)))))"

definition after_workflow :: "runtime_env \<Rightarrow> runtime_request \<Rightarrow> nat \<Rightarrow> fs \<Rightarrow> iteration_state \<Rightarrow> workflow_result \<Rightarrow> iteration_outcome" where
  "after_workflow R rq n fs st w =
     (case (wr_success w, wr_proposal w, wr_receipt w) of
        (True, Some p, Some x) \<Rightarrow> verified R rq n fs st p x
      | _ \<Rightarrow> keep_state (Some st) (failed R (is_ledger st) (stop_reason_for (wr_stage w))))"

definition run_iteration :: "runtime_env \<Rightarrow> runtime_request \<Rightarrow> nat \<Rightarrow> fresh_authority option \<Rightarrow> context_bundle \<Rightarrow> decision_request
    \<Rightarrow> mutation_state \<Rightarrow> exec_context \<Rightarrow> mutation_state \<times> iteration_outcome" where
  "run_iteration R rq n previous b q s c =
     (case execute_workflow (rt_workflow R) (rt_faults R n) (rt_gateway R n) (runtime_observer R previous) q (latin_text (rr_run rq))
         (cb_trusted b) s
         \<lparr>is_ledger = c, is_bundle = b, is_request = q, is_decision = [], is_workflow = None, is_authority = None,
          is_verification = None\<rparr> of
        (st, s, Inl (ObserverRaised e)) \<Rightarrow> (s, Inl e)
      | (st, s, Inl (GatewayRaised LifecycleRefusal)) \<Rightarrow> (s, keep_state (Some st) (failed R (is_ledger st) UNRECOVERABLE))
      | (st, s, Inl (GatewayRaised GatewayFailure)) \<Rightarrow> (s, Inl GatewayBroke)
      | (st, s, Inl (TranslatorRaised e)) \<Rightarrow> (s, Inl (TranslatorBroke e))
      | (st, s, Inl (MutationRaised e)) \<Rightarrow> (s, Inl (MutationBroke e))
      | (st, s, Inr w) \<Rightarrow> (s, after_workflow R rq n (tree s) (st\<lparr>is_workflow := Some w\<rparr>) w))"

definition assembled :: "runtime_env \<Rightarrow> runtime_request \<Rightarrow> nat \<Rightarrow> fs \<Rightarrow> (context_bundle \<times> decision_request) option" where
  "assembled R rq n fs =
     Option.bind (rt_assemble R n fs \<lparr>as_goal = rr_goal rq, as_repository = rr_repository rq,
         as_capabilities = rr_capabilities rq, as_constraints = rr_constraints rq\<rparr>) (\<lambda>b.
     Option.bind (rt_build R n rq (cb_context b)) (\<lambda>q. Some (b, q)))"

definition plan_evidence :: "context_bundle \<Rightarrow> runtime_exn + evidence_ref" where
  "plan_evidence b = evidence_item PLAN (ia_id (cb_artifact b))
     [(PStr ''context_fingerprint'', PStr (ia_context (cb_artifact b)))]"

definition execute_iteration :: "runtime_env \<Rightarrow> runtime_request \<Rightarrow> nat \<Rightarrow> fresh_authority option \<Rightarrow> mutation_state \<Rightarrow> exec_context
    \<Rightarrow> mutation_state \<times> iteration_outcome" where
  "execute_iteration R rq n previous s c =
     (case advance_to R c CONTEXT_ASSEMBLING [] None of
        Inl e \<Rightarrow> (s, Inl e)
      | Inr c \<Rightarrow>
          if is_terminal (state c) then (s, Inl (CompositionBreach ''iteration budget exhausted before context assembly''))
          else case assembled R rq n (tree s) of
            None \<Rightarrow> (s, keep_state None (failed R c UNRECOVERABLE))
          | Some (b, q) \<Rightarrow>
              (case binding_breach rq b q of
                 Some msg \<Rightarrow> (s, Inl (CompositionBreach msg))
               | None \<Rightarrow>
                   (case step_with R c PLANNING (plan_evidence b) of
                      Inl e \<Rightarrow> (s, Inl e)
                    | Inr c \<Rightarrow> run_iteration R rq n previous b q s c)))"

section \<open>Recovery\<close>

definition or_empty :: "string option \<Rightarrow> string" where
  "or_empty x = (case x of None \<Rightarrow> [] | Some s \<Rightarrow> s)"

text \<open>An iteration that reached its verification.\<close>

record settled_iteration =
  se_state :: iteration_state
  se_workflow :: workflow_result
  se_proposal :: change_proposal
  se_receipt :: mutation_receipt
  se_verification :: verification_result

definition settled :: "iteration_state option \<Rightarrow> settled_iteration option" where
  "settled st =
     Option.bind st (\<lambda>st. Option.bind (is_workflow st) (\<lambda>w. Option.bind (wr_proposal w) (\<lambda>p. Option.bind (wr_receipt w) (\<lambda>x.
     Option.bind (is_verification st) (\<lambda>v.
       Some \<lparr>se_state = st, se_workflow = w, se_proposal = p, se_receipt = x, se_verification = v\<rparr>)))))"

definition governed_input :: "exec_context \<Rightarrow> settled_iteration \<Rightarrow> objective_assessment \<Rightarrow> string \<Rightarrow> reflection_input" where
  "governed_input c z ob i =
     \<lparr>gi_context = c, gi_receipt = se_receipt z, gi_verification = se_verification z, gi_objective = ob,
      gi_context_artifact_id = ia_id (cb_artifact (is_bundle (se_state z))),
      gi_context_fingerprint = ia_context (cb_artifact (is_bundle (se_state z))), gi_decision_id = i,
      gi_proposal_id = proposal_id (se_proposal z), gi_authorization_id = or_empty (re_authorization_id (se_receipt z)),
      gi_policy_version = ia_policy (cb_artifact (is_bundle (se_state z))), gi_metadata = PDict [], gi_version = ''1.0''\<rparr>"

text \<open>The first \<open>try\<close> block: whatever it raises, the recovery fails.\<close>

definition reflected :: "runtime_env \<Rightarrow> exec_context \<Rightarrow> settled_iteration \<Rightarrow> objective_assessment \<Rightarrow> (reflection_outcome \<times> memory_evidence) option" where
  "reflected R c z ob =
     (case bind_res (decision_identity R (wr_gateway (se_workflow z))) (\<lambda>i. lift_invalid (make_reflection_input (governed_input c z ob i))) of
        Inl _ \<Rightarrow> None
      | Inr gi \<Rightarrow>
          (case snd (adapter_reflect (rt_bus_raises R) (rt_engine R) gi) of
             Inl _ \<Rightarrow> None
           | Inr x \<Rightarrow> (case memory_evidence_of (rt_memory_ids R) x of Inl _ \<Rightarrow> None | Inr m \<Rightarrow> Some (x, m))))"

definition next_input :: "runtime_env \<Rightarrow> exec_context \<Rightarrow> settled_iteration \<Rightarrow> reflection_outcome \<Rightarrow> memory_evidence
    \<Rightarrow> runtime_exn + replanning_input" where
  "next_input R c z x m =
     bind_res (decision_identity R (wr_gateway (se_workflow z))) (\<lambda>i. lift_invalid (make_replanning_input
       \<lparr>ri_context = c, ri_reflection = x, ri_memory = m, previous_decision_id = i,
        previous_proposal_id = proposal_id (se_proposal z),
        previous_authorization_id = or_empty (re_authorization_id (se_receipt z)),
        previous_context_artifact_id = ia_id (cb_artifact (is_bundle (se_state z)))\<rparr>))"

text \<open>The second one.\<close>

definition replanned :: "runtime_env \<Rightarrow> runtime_request \<Rightarrow> replanning_input \<Rightarrow> replanning_outcome option" where
  "replanned R rq ri =
     (case rt_plan R rq (ri_memory ri) of
        None \<Rightarrow> None
      | Some i \<Rightarrow> (case decide ri i of Inl _ \<Rightarrow> None | Inr d \<Rightarrow> Some d))"

type_synonym recovery_outcome = "runtime_exn + exec_context \<times> replanning_input option"

definition replanning_step :: "runtime_env \<Rightarrow> runtime_request \<Rightarrow> exec_context \<Rightarrow> replanning_input \<Rightarrow> recovery_outcome" where
  "replanning_step R rq c ri =
     (case replanned R rq ri of
        None \<Rightarrow> bind_res (failed R c UNRECOVERABLE) (\<lambda>c. Inr (c, None))
      | Some d \<Rightarrow>
          if rx_action d \<noteq> CONTINUE_WITH_FRESH_DECISION
          then bind_res (lift_invalid (replanning_evidence_ref d)) (\<lambda>e.
               bind_res (advance_to R c FAILED [e] (Some VERIFICATION_FAILED)) (\<lambda>c. Inr (c, Some ri)))
          else Inr (c, Some ri))"

definition recovery_of :: "runtime_env \<Rightarrow> runtime_request \<Rightarrow> exec_context \<Rightarrow> settled_iteration \<Rightarrow> objective_assessment \<Rightarrow> recovery_outcome" where
  "recovery_of R rq c z ob =
     bind_res (step_with R c REFLECTING (lift_invalid (result_evidence_ref (se_verification z)))) (\<lambda>c.
       case reflected R c z ob of
         None \<Rightarrow> bind_res (failed R c UNRECOVERABLE) (\<lambda>c. Inr (c, None))
       | Some (x, m) \<Rightarrow>
           bind_res (lift_invalid (outcome_evidence_ref x)) (\<lambda>e1.
           bind_res (evidence_item MEMORY (me_reflection_id m) []) (\<lambda>e2.
           bind_res (advance_to R c REPLANNING [e1, e2] None) (\<lambda>c.
           bind_res (next_input R c z x m) (\<lambda>ri. replanning_step R rq c ri)))))"

section \<open>The execution\<close>

text \<open>\<open>_validate_complete_iteration\<close>.\<close>

definition complete_artifacts :: "fresh_authority \<Rightarrow> settled_iteration \<Rightarrow> fresh_artifacts" where
  "complete_artifacts a z =
     \<lparr>fr_context_artifact_id = fa_context_artifact_id a, fr_decision_request_id = fa_decision_request_id a,
      fr_decision_id = fa_decision_id a, fr_proposal_id = fa_proposal_id a, fr_authorization_id = fa_authorization_id a,
      fr_receipt_id = mutation_id (se_receipt z), fr_verification_id = verification_id (se_verification z),
      fr_context_fingerprint = fa_context_fingerprint a\<rparr>"

definition complete_iteration :: "replanning_input option \<Rightarrow> settled_iteration \<Rightarrow> runtime_exn + unit" where
  "complete_iteration ri z =
     (case ri of
        None \<Rightarrow> Inl (CompositionBreach ''second iteration lacks recovery evidence'')
      | Some ri \<Rightarrow>
          (case is_authority (se_state z) of
             None \<Rightarrow> Inl (CompositionBreach ''second iteration lacks complete freshness artifacts'')
           | Some a \<Rightarrow> lift_invalid (bind_res (make_artifacts (complete_artifacts a z)) (validate_fresh_iteration ri))))"

text \<open>\<open>_terminal_result\<close>.\<close>

definition terminal_result :: "runtime_env \<Rightarrow> mutation_state \<Rightarrow> exec_context \<Rightarrow> iteration_artifact list
    \<Rightarrow> mutation_state \<times> (runtime_exn + exec_result)" where
  "terminal_result R s c arts =
     (case make_exec_result \<lparr>xr_context = c, xr_artifacts = arts\<rparr> of
        Inl e \<Rightarrow> (s, Inl (RuntimeInvalid e))
      | Inr x \<Rightarrow>
          (case rt_audit R of
             None \<Rightarrow> (s, Inr x)
           | Some A \<Rightarrow>
               (case ao_record A (tree s) x of
                  (fs, ok) \<Rightarrow> (s\<lparr>tree := fs\<rparr>, if ok then Inr x
                     else Inl (AuditRequired ''terminal execution result could not be persisted to the required audit store'')))))"

definition conclude :: "runtime_env \<Rightarrow> mutation_state \<Rightarrow> runtime_exn + exec_context \<Rightarrow> iteration_artifact list
    \<Rightarrow> mutation_state \<times> (runtime_exn + exec_result)" where
  "conclude R s m arts = (case m of Inl e \<Rightarrow> (s, Inl e) | Inr c \<Rightarrow> terminal_result R s c arts)"

definition closing_step :: "runtime_env \<Rightarrow> exec_context \<Rightarrow> verification_result \<Rightarrow> exec_state \<Rightarrow> exec_stop_reason \<Rightarrow> runtime_exn + exec_context" where
  "closing_step R c v target why =
     bind_res (lift_invalid (result_evidence_ref v)) (\<lambda>e. advance_to R c target [e] (Some why))"

text \<open>The end of an iteration whose objective is satisfied, or of the second one.\<close>

definition closing :: "runtime_env \<Rightarrow> nat \<Rightarrow> replanning_input option \<Rightarrow> exec_context \<Rightarrow> settled_iteration \<Rightarrow> objective_status
    \<Rightarrow> runtime_exn + exec_context" where
  "closing R n ri c z verdict =
     bind_res (if n = 2 then complete_iteration ri z else Inr ()) (\<lambda>_.
       if verdict = SATISFIED then closing_step R c (se_verification z) COMPLETED SUCCESS
       else closing_step R c (se_verification z) FAILED VERIFICATION_FAILED)"

text \<open>
  The loop over the iterations, with the artifacts, the authority of the iteration before and the
  replanning input so far. An \<open>assert\<close> that does not hold is the third case of the settled iteration.
\<close>

fun serial_loop :: "runtime_env \<Rightarrow> runtime_request \<Rightarrow> nat list \<Rightarrow> mutation_state \<Rightarrow> exec_context \<Rightarrow> iteration_artifact list
    \<Rightarrow> fresh_authority option \<Rightarrow> replanning_input option \<Rightarrow> mutation_state \<times> (runtime_exn + exec_result)" where
  "serial_loop R rq [] s c arts previous ri =
     (s, Inl (CompositionBreach ''serial runtime exceeded the fixed two-iteration bound''))"
| "serial_loop R rq (n # ns) s c arts previous ri =
     (case execute_iteration R rq n previous s c of
        (s, Inl e) \<Rightarrow> (s, Inl e)
      | (s, Inr (c, st)) \<Rightarrow>
          let arts = arts @ (case st of None \<Rightarrow> [] | Some st \<Rightarrow> [cb_artifact (is_bundle st)]) in
          if is_terminal (state c) then terminal_result R s c arts
          else case settled st of
            None \<Rightarrow> (s, Inl (CompositionBreach ''assertion''))
          | Some z \<Rightarrow>
              (case lift_invalid (assess (se_receipt z) (se_verification z)) of
                 Inl e \<Rightarrow> (s, Inl e)
               | Inr ob \<Rightarrow>
                   if objective_status ob = SATISFIED \<or> n = 2
                   then conclude R s (closing R n ri c z (objective_status ob)) arts
                   else (case recovery_of R rq c z ob of
                       Inl e \<Rightarrow> (s, Inl e)
                     | Inr (c, ri) \<Rightarrow>
                         if is_terminal (state c) then terminal_result R s c arts
                         else (case is_authority (se_state z) of
                             None \<Rightarrow> conclude R s (failed R c UNRECOVERABLE) arts
                           | Some a \<Rightarrow> serial_loop R rq ns s c arts (Some a) ri))))"

definition initial_context :: "runtime_request \<Rightarrow> py_error + exec_context" where
  "initial_context rq = make_context
     \<lparr>execution_id = latin_text (rr_execution rq), run_id = latin_text (rr_run rq), goal = latin_text (rr_goal rq),
      state = CREATED, iteration = 0, budget = rr_budget rq, history = [], evidence = [], stop_reason = None,
      ctx_metadata = PDict []\<rparr>"

definition execute_run :: "runtime_env \<Rightarrow> runtime_request \<Rightarrow> mutation_state \<Rightarrow> mutation_state \<times> (runtime_exn + exec_result)" where
  "execute_run R rq s =
     (if (case rt_audit R of None \<Rightarrow> False | Some A \<Rightarrow> \<not> ao_preflight A (tree s) (rr_workspace rq))
      then (s, Inl (AuditRequired ''required audit observation could not be prepared before execution''))
      else case initial_context rq of
        Inl e \<Rightarrow> (s, Inl (RuntimeInvalid e))
      | Inr c \<Rightarrow> serial_loop R rq [1, 2] s c [] None None)"

end
