(* ===== verification/RuntimeLedger.thy ===== *)
theory RuntimeLedger
  imports GovernedRuntime
begin

text \<open>
  What a governed execution does to its ledger: every context it holds is valid, the stages of an
  iteration follow each other, and the authorizations in the evidence are those of the mutations.
\<close>

section \<open>One step of the ledger\<close>

lemma advance_to_eq:
  assumes "valid_context c"
  shows "advance_to R c t ev why =
    (if t \<notin> legal_transitions (state c) then Inl (LedgerRaised (IllegalTransition (state c) t))
     else if \<not> effective_ok c t why then Inl (LedgerRaised (Rejected (Some ''invalid_stop_reason'')))
     else Inr (next_context c t ev why (rt_clock R (length (history c)))))"
  using transition_result_eq [OF assms, of None t ev why]
  by (simp add: advance_to_def transition_or_raise_def)

lemma advance_to_Inr:
  assumes "valid_context c" and "advance_to R c t ev why = Inr c'"
  shows "t \<in> legal_transitions (state c) \<and> effective_ok c t why \<and>
    c' = next_context c t ev why (rt_clock R (length (history c))) \<and> valid_context c'"
proof -
  have f: "t \<in> legal_transitions (state c)" "effective_ok c t why"
    "c' = next_context c t ev why (rt_clock R (length (history c)))"
    using assms(2) unfolding advance_to_eq [OF assms(1)] by (auto split: if_splits)
  then show ?thesis using next_context_valid [OF assms(1) f(1)] effective_ok_iff [OF assms(1) f(1)] by blast
qed

lemma next_fields:
  "execution_id (next_context c t ev why now) = execution_id c"
  "exec_context.run_id (next_context c t ev why now) = exec_context.run_id c"
  "evidence (next_context c t ev why now) = evidence c @ ev"
  by (auto simp: next_context_def split: prod.splits)

text \<open>The step as the runtime sees it: the state, the iteration and what is spent.\<close>

definition stepped :: "exec_context \<Rightarrow> exec_state \<Rightarrow> evidence_ref list \<Rightarrow> exec_context \<Rightarrow> bool" where
  "stepped c t ev c' \<longleftrightarrow> valid_context c' \<and> t \<in> legal_transitions (state c) \<and>
     state c' = (if exhausted c t then FAILED else t) \<and>
     iteration c' = (if t = CONTEXT_ASSEMBLING \<and> \<not> exhausted c t then iteration c + 1 else iteration c) \<and>
     mutations_used (budget c') = (if t = MUTATING \<and> \<not> exhausted c t then mutations_used (budget c) + 1 else mutations_used (budget c)) \<and>
     verifications_used (budget c') =
       (if t = VERIFYING \<and> \<not> exhausted c t then verifications_used (budget c) + 1 else verifications_used (budget c)) \<and>
     max_iterations (budget c') = max_iterations (budget c) \<and> max_mutations (budget c') = max_mutations (budget c) \<and>
     max_verifications (budget c') = max_verifications (budget c) \<and>
     execution_id c' = execution_id c \<and> exec_context.run_id c' = exec_context.run_id c \<and> evidence c' = evidence c @ ev"

lemma next_stepped:
  assumes v: "valid_context c" and l: "t \<in> legal_transitions (state c)" and e: "effective_ok c t why"
  shows "stepped c t ev (next_context c t ev why now)"
proof -
  have b: "budget_ok (budget c)" and u: "iterations_used (budget c) = iteration c"
    using v valid_iteration_used by (auto simp: valid_context_iff)
  note consumed = consume_iteration_eq [OF b] consume_mutation_eq [OF b] consume_verification_eq [OF b]
  have "valid_context (next_context c t ev why now)"
    using next_context_valid [OF v l] effective_ok_iff [OF v l] e by blast
  then show ?thesis using l u b
    by (cases t) (auto simp: stepped_def next_context_def spend_def exhausted_def consumed budget_ok_def)
qed

lemma advance_to_stepped:
  assumes "valid_context c" and "advance_to R c t ev why = Inr c'"
  shows "stepped c t ev c'"
  using advance_to_Inr [OF assms] next_stepped [OF assms(1)] by blast

lemma evidence_item_Inr: "evidence_item k i m = Inr e \<Longrightarrow> ev_kind e = k \<and> reference_id e = i \<and> \<not> blank i"
  by (auto simp: evidence_item_def lift_invalid_def make_evidence_def bind_res_Inr_iff split: sum.splits if_splits)

lemma step_with_stepped:
  assumes "valid_context c" and "step_with R c t ev = Inr c'"
  obtains e where "ev = Inr e" and "stepped c t [e] c'"
  using assms advance_to_stepped by (auto simp: step_with_def bind_res_Inr_iff)

section \<open>The stages of an attempt under any observer\<close>

definition passed_to :: "('o, 'e) lifecycle_observer \<Rightarrow> decision_request \<Rightarrow> decision_result \<Rightarrow> change_proposal \<Rightarrow> 'o \<Rightarrow> 'o \<Rightarrow> bool" where
  "passed_to L q r p ob ob3 \<longleftrightarrow> (\<exists>ob1 ob2. before_deciding L q ob = (ob1, None) \<and> before_proposing L q r ob1 = (ob2, None) \<and>
     before_authorizing L p ob2 = (ob3, None))"

text \<open>Where the observer stands when it did not raise.\<close>

definition stands_at :: "('o, 'e) lifecycle_observer \<Rightarrow> decision_request \<Rightarrow> 'o \<Rightarrow> 'o \<Rightarrow> bool" where
  "stands_at L q ob ob' \<longleftrightarrow>
     before_deciding L q ob = (ob', None) \<or>
     (\<exists>r ob1. before_deciding L q ob = (ob1, None) \<and> before_proposing L q r ob1 = (ob', None)) \<or>
     (\<exists>r p. passed_to L q r p ob ob') \<or>
     (\<exists>r p a ob3. passed_to L q r p ob ob3 \<and> before_mutating L p a ob3 = (ob', None))"

lemma observed_stage_cases:
  assumes "observed_stage m s f = (ob', s', out)"
  obtains (raised) e where "m = (ob', Some e)" and "s' = s" and "out = Inl (ObserverRaised e)"
  | (passed) ob1 where "m = (ob1, None)" and "f ob1 = (ob', s', out)"
  using assms by (cases m; cases "snd m") auto

lemma receipt_run_cases: "receipt_run ob r p m = (ob', s', out) \<Longrightarrow> ob' = ob \<and> (\<forall>e. out \<noteq> Inl (ObserverRaised e))"
  by (auto simp: receipt_run_def split: prod.splits sum.splits)

lemma attempt_observer:
  assumes "governed_attempt W fl L s r p ob = (ob', s', out)" and "\<forall>e. out \<noteq> Inl (ObserverRaised e)"
  shows "ob' = ob \<or> (\<exists>a. before_mutating L p a ob = (ob', None))"
proof -
  obtain s1 v where v: "validate_mutation (wf_env W) (wf_policy W) (wf_root W) s p = (s1, v)" by force
  show ?thesis
  proof (cases v)
    case (Inl e)
    then show ?thesis using assms(1) v
      by (cases e) (auto simp: governed_attempt_def dest: receipt_run_cases)
  next
    case (Inr vp)
    obtain s2 au where a: "authorize_mutation (wf_env W) (wf_policy W) s1 vp = (s2, au)" by force
    show ?thesis
    proof (cases au)
      case (Inl e)
      then show ?thesis using assms(1) v Inr a by (auto simp: governed_attempt_def)
    next
      case au: (Inr x)
      have "observed_stage (before_mutating L p x ob) s2 (\<lambda>ob.
          receipt_run ob r p (mutate (wf_env W) (wf_policy W) fl (wf_root W) s2 vp x)) = (ob', s', out)"
        using assms(1) v Inr a au by (simp add: governed_attempt_def)
      then show ?thesis
      proof (cases rule: observed_stage_cases)
        case (passed ob1)
        from receipt_run_cases [OF passed(2)] passed(1) show ?thesis by blast
      qed (use assms(2) in blast)
    qed
  qed
qed

lemma workflow_stands:
  assumes run: "execute_workflow W fl gw L q run t s ob = (ob', s', out)" and n: "\<forall>e. out \<noteq> Inl (ObserverRaised e)"
  shows "stands_at L q ob ob'"
proof -
  from run obtain ob1 where d: "before_deciding L q ob = (ob1, None)" and
    f1: "(case gw q of Inl e \<Rightarrow> (ob1, s, Inl (GatewayRaised e))
       | Inr r \<Rightarrow>
           if \<not> gr_success r then (ob1, s, Inr (gateway_refused r))
           else observed_stage (before_proposing L q r ob1) s (\<lambda>ob.
             case translate (wf_env W) (wf_digest W) (tree s) r q run t of
               Inl (TranslationRejected v) \<Rightarrow> (ob, s, Inr (not_translated r v))
             | Inl e \<Rightarrow> (ob, s, Inl (TranslatorRaised e))
             | Inr p \<Rightarrow> observed_stage (before_authorizing L p ob) s (governed_attempt W fl L s r p))) = (ob', s', out)"
    unfolding execute_workflow_def using n by (elim observed_stage_cases) blast+
  show ?thesis
  proof (cases "ob' = ob1")
    case False
    then obtain r where r: "observed_stage (before_proposing L q r ob1) s (\<lambda>ob.
             case translate (wf_env W) (wf_digest W) (tree s) r q run t of
               Inl (TranslationRejected v) \<Rightarrow> (ob, s, Inr (not_translated r v))
             | Inl e \<Rightarrow> (ob, s, Inl (TranslatorRaised e))
             | Inr p \<Rightarrow> observed_stage (before_authorizing L p ob) s (governed_attempt W fl L s r p)) = (ob', s', out)"
      using f1 by (auto split: sum.splits if_splits)
    then obtain ob2 where p: "before_proposing L q r ob1 = (ob2, None)" and
      f2: "(case translate (wf_env W) (wf_digest W) (tree s) r q run t of
               Inl (TranslationRejected v) \<Rightarrow> (ob2, s, Inr (not_translated r v))
             | Inl e \<Rightarrow> (ob2, s, Inl (TranslatorRaised e))
             | Inr p \<Rightarrow> observed_stage (before_authorizing L p ob2) s (governed_attempt W fl L s r p)) = (ob', s', out)"
      using n by (elim observed_stage_cases) blast+
    show ?thesis
    proof (cases "ob' = ob2")
      case True
      then show ?thesis using d p unfolding stands_at_def by blast
    next
      case False
      then obtain x where "observed_stage (before_authorizing L x ob2) s (governed_attempt W fl L s r x) = (ob', s', out)"
        using f2 by (auto split: sum.splits translation_exn.splits)
      then obtain ob3 where a: "before_authorizing L x ob2 = (ob3, None)" "governed_attempt W fl L s r x ob3 = (ob', s', out)"
        using n by (elim observed_stage_cases) blast+
      have "passed_to L q r x ob ob3" unfolding passed_to_def using d p a(1) by blast
      with attempt_observer [OF a(2) n] show ?thesis unfolding stands_at_def by blast
    qed
  qed (use d in \<open>auto simp: stands_at_def\<close>)
qed

text \<open>What the attempt did, for a root no link leads to and free temporary names.\<close>

lemma workflow_effect:
  assumes r: "root_ok (tree s) (wf_root W)"
    and t: "\<And>r p. gw q = Inr r \<Longrightarrow> translate (wf_env W) (wf_digest W) (tree s) r q run ts = Inr p \<Longrightarrow>
      temps_free (wf_env W) (tree s) (target_of W p) p"
    and run: "execute_workflow W fl gw L q run ts s ob = (ob', s', out)"
  shows "nothing_done s s' out \<or>
    (\<exists>r p ob3. gw q = Inr r \<and> translate (wf_env W) (wf_digest W) (tree s) r q run ts = Inr p \<and> passed_to L q r p ob ob3 \<and>
       attempt_done W L s s' r p ob3 ob' out)"
  using run unfolding execute_workflow_def
proof (cases rule: observed_stage_cases)
  case raised
  then show ?thesis by (simp add: nothing_done_def)
next
  case (passed ob1)
  show ?thesis
  proof (cases "gw q")
    case (Inl e)
    then show ?thesis using passed(2) by (auto simp: nothing_done_def)
  next
    case g: (Inr r)
    show ?thesis
    proof (cases "gr_success r")
      case False
      then show ?thesis using passed(2) g by (auto simp: nothing_done_def gateway_refused_def wr_success_def)
    next
      case True
      with passed(2) g have "observed_stage (before_proposing L q r ob1) s (\<lambda>ob.
             case translate (wf_env W) (wf_digest W) (tree s) r q run ts of
               Inl (TranslationRejected v) \<Rightarrow> (ob, s, Inr (not_translated r v))
             | Inl e \<Rightarrow> (ob, s, Inl (TranslatorRaised e))
             | Inr p \<Rightarrow> observed_stage (before_authorizing L p ob) s (governed_attempt W fl L s r p)) = (ob', s', out)" by simp
      then show ?thesis
      proof (cases rule: observed_stage_cases)
        case raised
        then show ?thesis by (simp add: nothing_done_def)
      next
        case p2: (passed ob2)
        show ?thesis
        proof (cases "translate (wf_env W) (wf_digest W) (tree s) r q run ts")
          case (Inl e)
          then show ?thesis using p2(2)
            by (cases e) (auto simp: nothing_done_def not_translated_def wr_success_def)
        next
          case tr: (Inr p)
          with p2(2) have "observed_stage (before_authorizing L p ob2) s (governed_attempt W fl L s r p) = (ob', s', out)" by simp
          then show ?thesis
          proof (cases rule: observed_stage_cases)
            case raised
            then show ?thesis by (simp add: nothing_done_def)
          next
            case p3: (passed ob3)
            have "passed_to L q r p ob ob3" unfolding passed_to_def using passed(1) p2(1) p3(1) by blast
            moreover from governed_attempt_effect [OF r t [OF g tr] p3(2)]
            have "nothing_done s s' out \<or> attempt_done W L s s' r p ob3 ob' out" by blast
            ultimately show ?thesis using g tr by blast
          qed
        qed
      qed
    qed
  qed
qed

section \<open>The stages under the runtime's observer\<close>

definition auth_refs :: "exec_context \<Rightarrow> string list" where
  "auth_refs c = map reference_id (filter (\<lambda>e. ev_kind e = AUTHORIZATION) (evidence c))"

definition same_run :: "exec_context \<Rightarrow> exec_context \<Rightarrow> bool" where
  "same_run c c' \<longleftrightarrow> iteration c' = iteration c \<and> verifications_used (budget c') = verifications_used (budget c) \<and>
     max_iterations (budget c') = max_iterations (budget c) \<and> max_mutations (budget c') = max_mutations (budget c) \<and>
     max_verifications (budget c') = max_verifications (budget c) \<and>
     execution_id c' = execution_id c \<and> exec_context.run_id c' = exec_context.run_id c"

definition underway :: "exec_context \<Rightarrow> iteration_state \<Rightarrow> bool" where
  "underway c st \<longleftrightarrow> valid_context (is_ledger st) \<and> same_run c (is_ledger st)"

text \<open>Before the mutation, in the state \<open>x\<close>; and after the observer let it pass.\<close>

definition open_stage :: "exec_context \<Rightarrow> exec_state \<Rightarrow> iteration_state \<Rightarrow> bool" where
  "open_stage c x st \<longleftrightarrow> underway c st \<and> state (is_ledger st) = x \<and> is_authority st = None \<and>
     mutations_used (budget (is_ledger st)) = mutations_used (budget c) \<and> auth_refs (is_ledger st) = auth_refs c"

definition fresh_after :: "fresh_authority option \<Rightarrow> fresh_authority \<Rightarrow> bool" where
  "fresh_after previous a \<longleftrightarrow> make_authority a = Inr a \<and>
     (case previous of None \<Rightarrow> True | Some old \<Rightarrow> validate_fresh_authority old a = Inr ())"

definition mutating_stage :: "exec_context \<Rightarrow> fresh_authority option \<Rightarrow> fresh_authority \<Rightarrow> iteration_state \<Rightarrow> bool" where
  "mutating_stage c previous a st \<longleftrightarrow> underway c st \<and> state (is_ledger st) = MUTATING \<and> is_authority st = Some a \<and>
     fresh_after previous a \<and> fa_iteration a = iteration c \<and> fa_execution_id a = execution_id c \<and>
     mutations_used (budget (is_ledger st)) = mutations_used (budget c) + 1 \<and> auth_refs (is_ledger st) = auth_refs c @ [fa_authorization_id a]"

text \<open>What the observer never touches.\<close>

definition same_frame :: "iteration_state \<Rightarrow> iteration_state \<Rightarrow> bool" where
  "same_frame st st' \<longleftrightarrow> is_bundle st' = is_bundle st \<and> is_request st' = is_request st \<and> is_workflow st' = is_workflow st \<and>
     is_verification st' = is_verification st"

lemma move_ledger_ok:
  "move_ledger st m = (st', None) \<longleftrightarrow> (\<exists>c. m = Inr c \<and> st' = st\<lparr>is_ledger := c\<rparr>)"
  by (cases m) (auto simp: move_ledger_def observer_result_def)

lemma stepped_open:
  assumes "open_stage c x st" and "stepped (is_ledger st) t ev c'" and "t \<notin> {CONTEXT_ASSEMBLING, MUTATING, VERIFYING}"
    and "\<forall>e \<in> set ev. ev_kind e \<noteq> AUTHORIZATION" and "is_authority st' = None" and "is_ledger st' = c'"
  shows "open_stage c t st'"
proof -
  have "\<not> exhausted (is_ledger st) t" using assms(3) by (simp add: exhausted_def)
  then show ?thesis using assms
    by (auto simp: open_stage_def underway_def same_run_def stepped_def auth_refs_def filter_empty_conv)
qed

lemma on_deciding_ok:
  assumes "open_stage c x st" and "on_deciding R q st = (st', None)"
  shows "open_stage c DECIDING st' \<and> same_frame st st'"
proof -
  from assms(2) obtain c' where c': "advance_to R (is_ledger st) DECIDING [] None = Inr c'" "st' = st\<lparr>is_ledger := c'\<rparr>"
    by (auto simp: on_deciding_def move_ledger_ok)
  have v: "valid_context (is_ledger st)" using assms(1) by (simp add: open_stage_def underway_def)
  have "open_stage c DECIDING st'"
    by (rule stepped_open [OF assms(1) advance_to_stepped [OF v c'(1)]]) (use c'(2) assms(1) in \<open>simp_all add: open_stage_def\<close>)
  then show ?thesis using c'(2) by (simp add: same_frame_def)
qed

lemma evidence_step_ok:
  assumes "open_stage c x st" and "move_ledger st (step_with R (is_ledger st) t (evidence_item k i m)) = (st', None)"
    and "t \<notin> {CONTEXT_ASSEMBLING, MUTATING, VERIFYING}" and "k \<noteq> AUTHORIZATION"
  shows "open_stage c t st' \<and> same_frame st st'"
proof -
  have v: "valid_context (is_ledger st)" using assms(1) by (simp add: open_stage_def underway_def)
  from assms(2) obtain c' where c': "step_with R (is_ledger st) t (evidence_item k i m) = Inr c'" "st' = st\<lparr>is_ledger := c'\<rparr>"
    by (auto simp: move_ledger_ok)
  from step_with_stepped [OF v c'(1)] obtain e where e: "evidence_item k i m = Inr e" "stepped (is_ledger st) t [e] c'" by blast
  have "open_stage c t st'"
    by (rule stepped_open [OF assms(1) e(2) assms(3)])
      (use evidence_item_Inr [OF e(1)] c'(2) assms(1,4) in \<open>simp_all add: open_stage_def\<close>)
  then show ?thesis using c'(2) by (simp add: same_frame_def)
qed

lemma on_proposing_ok:
  assumes "open_stage c x st" and "on_proposing R q r st = (st', None)"
  shows "open_stage c PROPOSING st' \<and> same_frame st st'"
proof -
  from assms(2) obtain i where i: "move_ledger (st\<lparr>is_decision := i\<rparr>)
      (step_with R (is_ledger (st\<lparr>is_decision := i\<rparr>)) PROPOSING (evidence_item DECISION i [])) = (st', None)"
    by (auto simp: on_proposing_def Let_def split: sum.splits)
  have "open_stage c x (st\<lparr>is_decision := i\<rparr>)" using assms(1) by (simp add: open_stage_def underway_def)
  from evidence_step_ok [OF this i] show ?thesis by (simp add: same_frame_def)
qed

lemma on_authorizing_ok:
  assumes "open_stage c x st" and "on_authorizing R p st = (st', None)"
  shows "open_stage c AUTHORIZING st' \<and> same_frame st st'"
  using evidence_step_ok [OF assms(1)] assms(2) by (simp add: on_authorizing_def)

lemma checked_authority_Inr:
  "checked_authority previous st p a = Inr x \<longleftrightarrow> x = candidate_authority st p a \<and> fresh_after previous x"
  by (auto simp: checked_authority_def fresh_after_def bind_res_Inr_iff make_authority_def guarded_Inr_iff split: option.splits)

lemma on_mutating_ok:
  assumes o: "open_stage c x st" and m: "on_mutating R previous p a st = (st', None)"
    and cap: "mutations_used (budget c) < max_mutations (budget c)"
  shows "mutating_stage c previous (candidate_authority st p a) st' \<and> same_frame st st'"
proof -
  let ?a = "candidate_authority st p a"
  from m obtain c' where a: "fresh_after previous ?a" and
    c': "step_with R (is_ledger st) MUTATING (evidence_item AUTHORIZATION (fa_authorization_id ?a) []) = Inr c'"
      "st' = st\<lparr>is_ledger := c', is_authority := Some ?a\<rparr>"
    by (auto simp: on_mutating_def Let_def lift_invalid_def move_ledger_ok checked_authority_Inr split: sum.splits)
  have v: "valid_context (is_ledger st)" using o by (simp add: open_stage_def underway_def)
  from step_with_stepped [OF v c'(1)] obtain e where
    e: "evidence_item AUTHORIZATION (fa_authorization_id ?a) [] = Inr e" "stepped (is_ledger st) MUTATING [e] c'" by blast
  have x: "\<not> exhausted (is_ledger st) MUTATING"
    using o cap by (simp add: exhausted_def open_stage_def underway_def same_run_def)
  show ?thesis using e(2) x o a c'(2) evidence_item_Inr [OF e(1)]
    by (auto simp: mutating_stage_def underway_def same_run_def stepped_def auth_refs_def open_stage_def same_frame_def
        candidate_authority_def)
qed

lemma same_frame_trans: "same_frame a b \<Longrightarrow> same_frame b d \<Longrightarrow> same_frame a d"
  by (simp add: same_frame_def)

lemma passed_open:
  assumes "open_stage c x st" and "passed_to (runtime_observer R previous) q r p st st'"
  shows "open_stage c AUTHORIZING st' \<and> same_frame st st'"
proof -
  from assms(2) obtain st1 st2 where s: "on_deciding R q st = (st1, None)" "on_proposing R q r st1 = (st2, None)"
    "on_authorizing R p st2 = (st', None)" by (auto simp: passed_to_def runtime_observer_def)
  note d = on_deciding_ok [OF assms(1) s(1)]
  note pr = on_proposing_ok [OF conjunct1 [OF d] s(2)]
  note au = on_authorizing_ok [OF conjunct1 [OF pr] s(3)]
  show ?thesis using d pr au same_frame_trans by blast
qed

lemma stands_staged:
  assumes o: "open_stage c x st" and s: "stands_at (runtime_observer R previous) q st st'"
    and cap: "mutations_used (budget c) < max_mutations (budget c)"
  shows "same_frame st st' \<and> ((\<exists>y \<in> {DECIDING, PROPOSING, AUTHORIZING}. open_stage c y st') \<or> (\<exists>a. mutating_stage c previous a st'))"
proof -
  from s consider (d) "on_deciding R q st = (st', None)"
    | (p) r st1 where "on_deciding R q st = (st1, None)" "on_proposing R q r st1 = (st', None)"
    | (a) r p where "passed_to (runtime_observer R previous) q r p st st'"
    | (m) r p a st3 where "passed_to (runtime_observer R previous) q r p st st3" "on_mutating R previous p a st3 = (st', None)"
    unfolding stands_at_def by (auto simp: runtime_observer_def)
  then show ?thesis
  proof cases
    case d
    then show ?thesis using on_deciding_ok [OF o] by blast
  next
    case p
    from on_deciding_ok [OF o p(1)] on_proposing_ok [OF _ p(2)] show ?thesis using same_frame_trans by blast
  next
    case a
    then show ?thesis using passed_open [OF o] by blast
  next
    case m
    from passed_open [OF o m(1)] on_mutating_ok [OF _ m(2) cap] show ?thesis using same_frame_trans by blast
  qed
qed

section \<open>One iteration\<close>

definition same_limits :: "exec_context \<Rightarrow> exec_context \<Rightarrow> bool" where
  "same_limits c c' \<longleftrightarrow> max_iterations (budget c') = max_iterations (budget c) \<and> max_mutations (budget c') = max_mutations (budget c) \<and>
     max_verifications (budget c') = max_verifications (budget c) \<and>
     execution_id c' = execution_id c \<and> exec_context.run_id c' = exec_context.run_id c"

text \<open>At most one authority per iteration, fresh with respect to the one before, and spent on one mutation.\<close>

definition authority_spent :: "fresh_authority option \<Rightarrow> exec_context \<Rightarrow> exec_context \<Rightarrow> fresh_authority option \<Rightarrow> bool" where
  "authority_spent previous c c' a \<longleftrightarrow>
     (case a of
        None \<Rightarrow> auth_refs c' = auth_refs c \<and> mutations_used (budget c') = mutations_used (budget c)
      | Some a \<Rightarrow> fresh_after previous a \<and> fa_iteration a = iteration c' \<and> fa_execution_id a = execution_id c' \<and>
          auth_refs c' = auth_refs c @ [fa_authorization_id a] \<and> mutations_used (budget c') = mutations_used (budget c) + 1)"

definition iteration_done :: "fresh_authority option \<Rightarrow> exec_context \<Rightarrow> exec_context \<Rightarrow> iteration_state option \<Rightarrow> bool" where
  "iteration_done previous c c' st \<longleftrightarrow>
     valid_context c' \<and> iteration c' = iteration c + 1 \<and> same_limits c c' \<and>
     verifications_used (budget c') \<le> verifications_used (budget c) + 1 \<and>
     (\<exists>a. authority_spent previous c c' a \<and>
        (is_terminal (state c') \<or> state c' = VERIFYING \<and> a \<noteq> None \<and> (\<exists>z. settled st = Some z \<and> is_authority (se_state z) = a)))"

text \<open>A later step that spends nothing keeps the account.\<close>

lemma stepped_account:
  assumes "stepped c' t ev c''" and "t \<notin> {CONTEXT_ASSEMBLING, MUTATING, VERIFYING}" and "\<forall>e \<in> set ev. ev_kind e \<noteq> AUTHORIZATION"
  shows "valid_context c'' \<and> state c'' = t \<and> iteration c'' = iteration c' \<and> same_limits c' c'' \<and> auth_refs c'' = auth_refs c' \<and>
    mutations_used (budget c'') = mutations_used (budget c') \<and> verifications_used (budget c'') = verifications_used (budget c')"
  using assms by (auto simp: stepped_def exhausted_def same_limits_def auth_refs_def filter_empty_conv)

lemma failed_account:
  assumes "valid_context c" and "failed R c why = Inr c'"
  shows "valid_context c' \<and> state c' = FAILED \<and> iteration c' = iteration c \<and> same_limits c c' \<and> auth_refs c' = auth_refs c \<and>
    mutations_used (budget c') = mutations_used (budget c) \<and> verifications_used (budget c') = verifications_used (budget c)"
proof -
  from assms(2) have "advance_to R c FAILED [] (Some why) = Inr c'" by (simp add: failed_def)
  from stepped_account [OF advance_to_stepped [OF assms(1) this]] show ?thesis by simp
qed

definition staged :: "exec_context \<Rightarrow> fresh_authority option \<Rightarrow> iteration_state \<Rightarrow> bool" where
  "staged c previous st \<longleftrightarrow> (\<exists>y \<in> {DECIDING, PROPOSING, AUTHORIZING}. open_stage c y st) \<or> (\<exists>a. mutating_stage c previous a st)"

lemma staged_facts:
  assumes "staged c previous st"
  shows "valid_context (is_ledger st) \<and> iteration (is_ledger st) = iteration c \<and> same_limits c (is_ledger st) \<and>
    verifications_used (budget (is_ledger st)) = verifications_used (budget c) \<and>
    authority_spent previous c (is_ledger st) (is_authority st) \<and>
    (state (is_ledger st) \<noteq> MUTATING \<longrightarrow> state (is_ledger st) \<in> {DECIDING, PROPOSING, AUTHORIZING})"
  using assms
  by (auto simp: staged_def open_stage_def mutating_stage_def underway_def same_run_def same_limits_def authority_spent_def)

lemma account_kept:
  assumes "authority_spent previous c c' a" and "iteration c'' = iteration c'" and "same_limits c' c''" and "auth_refs c'' = auth_refs c'"
    and "mutations_used (budget c'') = mutations_used (budget c')"
  shows "authority_spent previous c c'' a"
  using assms by (auto simp: authority_spent_def same_limits_def split: option.splits)

lemma same_limits_trans: "same_limits a b \<Longrightarrow> same_limits b d \<Longrightarrow> same_limits a d"
  by (simp add: same_limits_def)

lemma failed_staged:
  assumes "staged c previous st" and "keep_state st' (failed R (is_ledger st) why) = Inr (c', st'')"
  shows "valid_context c' \<and> state c' = FAILED \<and> iteration c' = iteration c \<and> same_limits c c' \<and> st'' = st' \<and>
    verifications_used (budget c') = verifications_used (budget c) \<and> authority_spent previous c c' (is_authority st)"
proof -
  note sf = staged_facts [OF assms(1)]
  from assms(2) have f: "failed R (is_ledger st) why = Inr c'" and "st'' = st'" by (auto simp: keep_state_def bind_res_Inr_iff)
  from failed_account [OF conjunct1 [OF sf] f] sf \<open>st'' = st'\<close> show ?thesis
    using account_kept same_limits_trans by (metis (no_types, lifting))
qed

text \<open>From the workflow to the end of the iteration; \<open>c\<close> is the context that entered \<open>PLANNING\<close>.\<close>

definition ended :: "fresh_authority option \<Rightarrow> exec_context \<Rightarrow> exec_context \<Rightarrow> iteration_state option \<Rightarrow> bool" where
  "ended previous c c' st \<longleftrightarrow>
     valid_context c' \<and> iteration c' = iteration c \<and> same_limits c c' \<and>
     verifications_used (budget c') \<le> verifications_used (budget c) + 1 \<and>
     (\<exists>a. authority_spent previous c c' a \<and>
        (is_terminal (state c') \<or> state c' = VERIFYING \<and> a \<noteq> None \<and> (\<exists>z. settled st = Some z \<and> is_authority (se_state z) = a)))"

lemma verified_ended:
  assumes s: "staged c previous st" and w: "is_workflow st = Some w" "wr_proposal w = Some p" "wr_receipt w = Some x"
    and r: "verified R rq n fs st p x = Inr (c', st')"
    and cap: "verifications_used (budget c) < max_verifications (budget c)"
  shows "ended previous c c' st'"
proof -
  note sf = staged_facts [OF s]
  from r obtain v where c': "step_with R (is_ledger st) VERIFYING (evidence_item MUTATION_RECEIPT (mutation_id x) []) = Inr c'"
    and st': "st' = Some (st\<lparr>is_verification := Some v\<rparr>)"
    by (auto simp: verified_def bind_res_Inr_iff split: option.splits)
  from step_with_stepped [OF conjunct1 [OF sf] c'] obtain e where
    e: "evidence_item MUTATION_RECEIPT (mutation_id x) [] = Inr e" "stepped (is_ledger st) VERIFYING [e] c'" by blast
  from e(2) have leg: "VERIFYING \<in> legal_transitions (state (is_ledger st))" by (simp add: stepped_def)
  have m: "state (is_ledger st) = MUTATING" using leg sf by auto
  then obtain a where a: "mutating_stage c previous a st" using s by (auto simp: staged_def open_stage_def)
  have x: "\<not> exhausted (is_ledger st) VERIFYING" using sf cap by (simp add: exhausted_def same_limits_def)
  have "authority_spent previous c c' (Some a)"
    using a e x evidence_item_Inr [OF e(1)]
    by (auto simp: mutating_stage_def underway_def same_run_def stepped_def authority_spent_def auth_refs_def)
  moreover have "settled st' = Some \<lparr>se_state = st\<lparr>is_verification := Some v\<rparr>, se_workflow = w, se_proposal = p, se_receipt = x, se_verification = v\<rparr>"
    using w st' by (simp add: settled_def)
  moreover have "is_authority st = Some a" using a by (simp add: mutating_stage_def)
  ultimately show ?thesis unfolding ended_def using e(2) x sf
    by (auto simp: stepped_def same_limits_def intro!: exI [of _ "Some a"])
qed

lemma staged_with: "staged c previous st \<Longrightarrow> staged c previous (st\<lparr>is_workflow := w\<rparr>)"
  by (simp add: staged_def open_stage_def mutating_stage_def underway_def)

lemma failed_ended:
  assumes "staged c previous st" and "keep_state st' (failed R (is_ledger st) why) = Inr (c', st'')"
  shows "ended previous c c' st''"
  using failed_staged [OF assms] by (auto simp: ended_def is_terminal_def)

lemma run_iteration_ended:
  assumes v: "valid_context c" and p: "state c = PLANNING" and run: "run_iteration R rq n previous b q s c = (s', Inr (c', st'))"
    and cap: "mutations_used (budget c) < max_mutations (budget c)" "verifications_used (budget c) < max_verifications (budget c)"
  shows "ended previous c c' st'"
proof -
  let ?st = "\<lparr>is_ledger = c, is_bundle = b, is_request = q, is_decision = [], is_workflow = None, is_authority = None,
    is_verification = None\<rparr>"
  obtain st s1 out where w: "execute_workflow (rt_workflow R) (rt_faults R n) (rt_gateway R n) (runtime_observer R previous) q
      (latin_text (rr_run rq)) (cb_trusted b) s ?st = (st, s1, out)" by (metis prod_cases3)
  have n: "\<forall>e. out \<noteq> Inl (ObserverRaised e)" using run w by (auto simp: run_iteration_def)
  have o: "open_stage c PLANNING ?st" using v p by (simp add: open_stage_def underway_def same_run_def)
  from stands_staged [OF o workflow_stands [OF w n] cap(1)] have s: "staged c previous st" by (auto simp: staged_def)
  show ?thesis
  proof (cases out)
    case (Inl e)
    then show ?thesis using run w n s failed_ended
      by (cases e) (auto simp: run_iteration_def split: gateway_exn.splits)
  next
    case (Inr wr)
    let ?s = "st\<lparr>is_workflow := Some wr\<rparr>"
    note s2 = staged_with [OF s, of "Some wr"]
    have a: "after_workflow R rq n (tree s1) ?s wr = Inr (c', st')" using run w Inr by (auto simp: run_iteration_def)
    show ?thesis
    proof (cases "wr_success wr \<and> wr_proposal wr \<noteq> None \<and> wr_receipt wr \<noteq> None")
      case True
      then obtain p x where px: "wr_proposal wr = Some p" "wr_receipt wr = Some x" by blast
      with True a have "verified R rq n (tree s1) ?s p x = Inr (c', st')" by (simp add: after_workflow_def)
      from verified_ended [OF s2 _ px this cap(2)] show ?thesis by simp
    next
      case False
      then have "keep_state (Some ?s) (failed R (is_ledger ?s) (stop_reason_for (wr_stage wr))) = Inr (c', st')"
        using a by (auto simp: after_workflow_def split: option.splits bool.splits)
      from failed_ended [OF s2 this] show ?thesis .
    qed
  qed
qed

lemma ended_done:
  assumes "ended previous c1 c' st" and "valid_context c'" and "iteration c1 = iteration c + 1" and "same_limits c c1"
    and "auth_refs c1 = auth_refs c" and "mutations_used (budget c1) = mutations_used (budget c)"
    and "verifications_used (budget c1) = verifications_used (budget c)"
  shows "iteration_done previous c c' st"
proof -
  from assms(1) obtain a where a: "authority_spent previous c1 c' a"
    "is_terminal (state c') \<or> state c' = VERIFYING \<and> a \<noteq> None \<and> (\<exists>z. settled st = Some z \<and> is_authority (se_state z) = a)"
    by (auto simp: ended_def)
  have "authority_spent previous c c' a" using a(1) assms(5,6) by (simp add: authority_spent_def split: option.splits)
  then show ?thesis using assms a(2) same_limits_trans unfolding iteration_done_def ended_def by auto
qed

lemma execute_iteration_done:
  assumes v: "valid_context c" and run: "execute_iteration R rq n previous s c = (s', Inr (c', st'))"
    and cap: "mutations_used (budget c) < max_mutations (budget c)" "verifications_used (budget c) < max_verifications (budget c)"
  shows "iteration_done previous c c' st'"
proof -
  from run obtain c1 where c1: "advance_to R c CONTEXT_ASSEMBLING [] None = Inr c1" and nt: "\<not> is_terminal (state c1)"
    by (auto simp: execute_iteration_def split: sum.splits if_splits)
  note st1 = advance_to_stepped [OF v c1]
  have x: "\<not> exhausted c CONTEXT_ASSEMBLING" using st1 nt by (auto simp: stepped_def is_terminal_def)
  have v1: "valid_context c1" and i1: "iteration c1 = iteration c + 1" and l1: "same_limits c c1" and au1: "auth_refs c1 = auth_refs c"
    and b1: "mutations_used (budget c1) = mutations_used (budget c)" "verifications_used (budget c1) = verifications_used (budget c)"
    using st1 x by (auto simp: stepped_def same_limits_def auth_refs_def)
  show ?thesis
  proof (cases "assembled R rq n (tree s)")
    case None
    with run c1 nt have f: "keep_state None (failed R c1 UNRECOVERABLE) = Inr (c', st')" by (simp add: execute_iteration_def)
    then have "failed R c1 UNRECOVERABLE = Inr c'" by (auto simp: keep_state_def bind_res_Inr_iff)
    from failed_account [OF v1 this] i1 l1 au1 b1 show ?thesis
      unfolding iteration_done_def authority_spent_def
      by (intro conjI exI [of _ None]) (auto simp: same_limits_def is_terminal_def)
  next
    case (Some bq)
    obtain b q where bq: "bq = (b, q)" by (cases bq)
    from run c1 nt Some bq obtain c2 where c2: "step_with R c1 PLANNING (plan_evidence b) = Inr c2"
      and r: "run_iteration R rq n previous b q s c2 = (s', Inr (c', st'))"
      by (auto simp: execute_iteration_def split: option.splits sum.splits)
    from step_with_stepped [OF v1 c2] obtain e where e: "plan_evidence b = Inr e" "stepped c1 PLANNING [e] c2" by blast
    have ek: "\<forall>x \<in> set [e]. ev_kind x \<noteq> AUTHORIZATION" using evidence_item_Inr e(1) by (simp add: plan_evidence_def)
    from stepped_account [OF e(2) _ ek] have a2: "valid_context c2" "state c2 = PLANNING" "iteration c2 = iteration c1"
      "same_limits c1 c2" "auth_refs c2 = auth_refs c1" "mutations_used (budget c2) = mutations_used (budget c1)"
      "verifications_used (budget c2) = verifications_used (budget c1)" by auto
    have "ended previous c2 c' st'"
      by (rule run_iteration_ended [OF a2(1,2) r]) (use a2 l1 b1 cap in \<open>simp_all add: same_limits_def\<close>)
    moreover from this have "valid_context c'" by (simp add: ended_def)
    ultimately show ?thesis
      by (rule ended_done) (use a2 l1 i1 au1 b1 in \<open>auto simp: same_limits_def\<close>)
  qed
qed

section \<open>Recovery and closing\<close>

text \<open>A step of the ledger that spends nothing.\<close>

definition quiet :: "exec_context \<Rightarrow> exec_context \<Rightarrow> bool" where
  "quiet c c' \<longleftrightarrow> valid_context c' \<and> iteration c' = iteration c \<and> same_limits c c' \<and> auth_refs c' = auth_refs c \<and>
     mutations_used (budget c') = mutations_used (budget c) \<and> verifications_used (budget c') = verifications_used (budget c)"

lemma quiet_trans: "quiet a b \<Longrightarrow> quiet b d \<Longrightarrow> quiet a d"
  by (auto simp: quiet_def same_limits_def)

lemma quiet_step:
  assumes "valid_context c" and "advance_to R c t ev why = Inr c'" and "t \<notin> {CONTEXT_ASSEMBLING, MUTATING, VERIFYING}"
    and "\<forall>e \<in> set ev. ev_kind e \<noteq> AUTHORIZATION"
  shows "quiet c c' \<and> state c' = t"
  using stepped_account [OF advance_to_stepped [OF assms(1,2)] assms(3,4)] by (simp add: quiet_def)

lemma evidence_kinds:
  "lift_invalid (result_evidence_ref v) = Inr e \<Longrightarrow> ev_kind e = VERIFICATION"
  "lift_invalid (outcome_evidence_ref x) = Inr e \<Longrightarrow> ev_kind e = REFLECTION"
  "lift_invalid (replanning_evidence_ref d) = Inr e \<Longrightarrow> ev_kind e = REPLANNING_EVIDENCE"
  by (auto simp: lift_invalid_def result_evidence_ref_def outcome_evidence_ref_def replanning_evidence_ref_def make_evidence_def
      bind_res_Inr_iff split: sum.splits if_splits)

lemma failed_quiet: "valid_context c \<Longrightarrow> failed R c why = Inr c' \<Longrightarrow> quiet c c' \<and> state c' = FAILED"
  using failed_account [of c R why c'] by (simp add: quiet_def)

lemma replanning_step_quiet:
  assumes v: "valid_context c" and r: "replanning_step R rq c ri = Inr (c', x)" and s: "state c = REPLANNING"
  shows "quiet c c' \<and> (is_terminal (state c') \<or> state c' = REPLANNING)"
proof (cases "replanned R rq ri")
  case None
  then show ?thesis using r failed_quiet [OF v] by (auto simp: replanning_step_def bind_res_Inr_iff is_terminal_def)
next
  case (Some d)
  show ?thesis
  proof (cases "rx_action d = CONTINUE_WITH_FRESH_DECISION")
    case True
    then show ?thesis using r Some v s by (auto simp: replanning_step_def quiet_def same_limits_def)
  next
    case False
    with r Some obtain e where e: "lift_invalid (replanning_evidence_ref d) = Inr e"
      "advance_to R c FAILED [e] (Some VERIFICATION_FAILED) = Inr c'"
      by (auto simp: replanning_step_def bind_res_Inr_iff)
    from quiet_step [OF v e(2)] evidence_kinds(3) [OF e(1)] show ?thesis by (auto simp: is_terminal_def)
  qed
qed

lemma recover_quiet:
  assumes v: "valid_context c" and r: "recovery_of R rq c z ob = Inr (c', x)"
  shows "quiet c c' \<and> (is_terminal (state c') \<or> state c' = REPLANNING)"
proof -
  from r obtain c1 where c1: "step_with R c REFLECTING (lift_invalid (result_evidence_ref (se_verification z))) = Inr c1"
    and r1: "(case reflected R c1 z ob of
         None \<Rightarrow> bind_res (failed R c1 UNRECOVERABLE) (\<lambda>c. Inr (c, None))
       | Some (x, m) \<Rightarrow>
           bind_res (lift_invalid (outcome_evidence_ref x)) (\<lambda>e1.
           bind_res (evidence_item MEMORY (me_reflection_id m) []) (\<lambda>e2.
           bind_res (advance_to R c1 REPLANNING [e1, e2] None) (\<lambda>c.
           bind_res (next_input R c z x m) (\<lambda>ri. replanning_step R rq c ri))))) = Inr (c', x)"
    by (auto simp: recovery_of_def bind_res_Inr_iff)
  from c1 obtain e where e: "lift_invalid (result_evidence_ref (se_verification z)) = Inr e" "advance_to R c REFLECTING [e] None = Inr c1"
    by (auto simp: step_with_def bind_res_Inr_iff)
  from quiet_step [OF v e(2)] evidence_kinds(1) [OF e(1)] have q1: "quiet c c1" by simp
  then have v1: "valid_context c1" by (simp add: quiet_def)
  show ?thesis
  proof (cases "reflected R c1 z ob")
    case None
    then have "failed R c1 UNRECOVERABLE = Inr c'" using r1 by (auto simp: bind_res_Inr_iff)
    with failed_quiet [OF v1] q1 quiet_trans show ?thesis by (auto simp: is_terminal_def)
  next
    case (Some xm)
    obtain y m where xm: "xm = (y, m)" by (cases xm)
    from r1 Some xm obtain e1 e2 c2 ri where s: "lift_invalid (outcome_evidence_ref y) = Inr e1"
      "evidence_item MEMORY (me_reflection_id m) [] = Inr e2" "advance_to R c1 REPLANNING [e1, e2] None = Inr c2"
      "replanning_step R rq c2 ri = Inr (c', x)"
      by (auto simp: bind_res_Inr_iff)
    have "\<forall>e \<in> set [e1, e2]. ev_kind e \<noteq> AUTHORIZATION" using evidence_kinds(2) [OF s(1)] evidence_item_Inr [OF s(2)] by simp
    from quiet_step [OF v1 s(3) _ this] have q2: "quiet c1 c2" "state c2 = REPLANNING" by auto
    then have "valid_context c2" by (simp add: quiet_def)
    from replanning_step_quiet [OF this s(4) q2(2)] q1 q2 quiet_trans show ?thesis by blast
  qed
qed

lemma closing_quiet:
  assumes v: "valid_context c" and r: "closing R n ri c z verdict = Inr c'"
  shows "quiet c c' \<and> state c' = (if verdict = SATISFIED then COMPLETED else FAILED)"
proof -
  define t where "t = (if verdict = SATISFIED then COMPLETED else FAILED)"
  define why where "why = (if verdict = SATISFIED then SUCCESS else VERIFICATION_FAILED)"
  from r obtain e where e: "lift_invalid (result_evidence_ref (se_verification z)) = Inr e" "advance_to R c t [e] (Some why) = Inr c'"
    by (auto simp: closing_def closing_step_def bind_res_Inr_iff t_def why_def split: if_splits)
  from quiet_step [OF v e(2)] evidence_kinds(1) [OF e(1)] show ?thesis by (simp add: t_def)
qed

section \<open>The loop\<close>

lemma terminal_result_Inr:
  "terminal_result R s c arts = (s', Inr x) \<Longrightarrow> x = \<lparr>xr_context = c, xr_artifacts = arts\<rparr> \<and> is_terminal (state c) \<and>
    int (length arts) = iteration c"
  by (auto simp: terminal_result_def make_exec_result_def guarded_Inr_iff split: sum.splits option.splits if_splits prod.splits)

lemma conclude_Inr:
  assumes "conclude R s m arts = (s', Inr x)"
  obtains c where "m = Inr c" and "terminal_result R s c arts = (s', Inr x)"
  using assms by (auto simp: conclude_def split: sum.splits)

definition finished :: "fresh_authority option \<Rightarrow> exec_context \<Rightarrow> exec_result \<Rightarrow> bool" where
  "finished previous c x \<longleftrightarrow> (\<exists>c1 st. iteration_done previous c c1 st \<and> quiet c1 (xr_context x)) \<and> is_terminal (state (xr_context x)) \<and>
     int (length (xr_artifacts x)) = iteration (xr_context x)"

definition goes_on :: "fresh_authority option \<Rightarrow> exec_context \<Rightarrow> exec_context \<Rightarrow> fresh_authority \<Rightarrow> bool" where
  "goes_on previous c c2 a \<longleftrightarrow> (\<exists>c1. authority_spent previous c c1 (Some a) \<and> quiet c1 c2 \<and> iteration c1 = iteration c + 1 \<and>
     same_limits c c1 \<and> verifications_used (budget c1) \<le> verifications_used (budget c) + 1) \<and> state c2 = REPLANNING"

lemma quiet_refl: "valid_context c \<Longrightarrow> quiet c c"
  by (simp add: quiet_def same_limits_def)

lemma loop_step:
  assumes v: "valid_context c" and run: "serial_loop R rq (n # ns) s c arts previous ri = (s', Inr x)"
    and cap: "mutations_used (budget c) < max_mutations (budget c)" "verifications_used (budget c) < max_verifications (budget c)"
  shows "finished previous c x \<or>
    (n \<noteq> 2 \<and> (\<exists>s2 c2 arts2 a ri2. goes_on previous c c2 a \<and> serial_loop R rq ns s2 c2 arts2 (Some a) ri2 = (s', Inr x)))"
proof -
  from run obtain s1 c1 st where e: "execute_iteration R rq n previous s c = (s1, Inr (c1, st))"
    by (auto split: prod.splits sum.splits)
  note d = execute_iteration_done [OF v e cap]
  then have v1: "valid_context c1" by (simp add: iteration_done_def)
  define arts1 where "arts1 = arts @ (case st of None \<Rightarrow> [] | Some st \<Rightarrow> [cb_artifact (is_bundle st)])"
  have stop: ?thesis if "quiet c1 c2" "terminal_result R s1 c2 arts1 = (s', Inr x)" for c2
  proof -
    from terminal_result_Inr [OF that(2)] have "finished previous c x" unfolding finished_def using d that(1) by auto
    then show ?thesis ..
  qed
  have body: "(if is_terminal (state c1) then terminal_result R s1 c1 arts1
          else case settled st of
            None \<Rightarrow> (s1, Inl (CompositionBreach ''assertion''))
          | Some z \<Rightarrow>
              (case lift_invalid (assess (se_receipt z) (se_verification z)) of
                 Inl e \<Rightarrow> (s1, Inl e)
               | Inr ob \<Rightarrow>
                   if objective_status ob = SATISFIED \<or> n = 2
                   then conclude R s1 (closing R n ri c1 z (objective_status ob)) arts1
                   else (case recovery_of R rq c1 z ob of
                       Inl e \<Rightarrow> (s1, Inl e)
                     | Inr (c2, ri2) \<Rightarrow>
                         if is_terminal (state c2) then terminal_result R s1 c2 arts1
                         else (case is_authority (se_state z) of
                             None \<Rightarrow> conclude R s1 (failed R c2 UNRECOVERABLE) arts1
                           | Some a \<Rightarrow> serial_loop R rq ns s1 c2 arts1 (Some a) ri2)))) = (s', Inr x)"
    using run unfolding serial_loop.simps(2) e prod.case sum.case Let_def arts1_def by assumption
  show ?thesis
  proof (cases "is_terminal (state c1)")
    case True
    then show ?thesis using body stop [OF quiet_refl [OF v1]] by simp
  next
    case False
    with d obtain a z where a: "authority_spent previous c c1 a" "a \<noteq> None" "settled st = Some z" "is_authority (se_state z) = a"
      by (auto simp: iteration_done_def)
    then obtain a' where a': "a = Some a'" by blast
    from body False a(3) obtain ob where
      ob: "(if objective_status ob = SATISFIED \<or> n = 2
                   then conclude R s1 (closing R n ri c1 z (objective_status ob)) arts1
                   else (case recovery_of R rq c1 z ob of
                       Inl e \<Rightarrow> (s1, Inl e)
                     | Inr (c2, ri2) \<Rightarrow>
                         if is_terminal (state c2) then terminal_result R s1 c2 arts1
                         else (case is_authority (se_state z) of
                             None \<Rightarrow> conclude R s1 (failed R c2 UNRECOVERABLE) arts1
                           | Some a \<Rightarrow> serial_loop R rq ns s1 c2 arts1 (Some a) ri2))) = (s', Inr x)"
      by (auto split: sum.splits)
    show ?thesis
    proof (cases "objective_status ob = SATISFIED \<or> n = 2")
      case True
      with ob have "conclude R s1 (closing R n ri c1 z (objective_status ob)) arts1 = (s', Inr x)" by simp
      then obtain c2 where "closing R n ri c1 z (objective_status ob) = Inr c2" "terminal_result R s1 c2 arts1 = (s', Inr x)"
        by (rule conclude_Inr)
      then show ?thesis using stop closing_quiet [OF v1] by blast
    next
      case go: False
      with ob obtain c2 ri2 where r: "recovery_of R rq c1 z ob = Inr (c2, ri2)"
        and b2: "(if is_terminal (state c2) then terminal_result R s1 c2 arts1
                         else (case is_authority (se_state z) of
                             None \<Rightarrow> conclude R s1 (failed R c2 UNRECOVERABLE) arts1
                           | Some a \<Rightarrow> serial_loop R rq ns s1 c2 arts1 (Some a) ri2)) = (s', Inr x)"
        by (auto split: sum.splits)
      note q = recover_quiet [OF v1 r]
      show ?thesis
      proof (cases "is_terminal (state c2)")
        case True
        then show ?thesis using b2 stop q by simp
      next
        case False
        with b2 a(4) a' have l: "serial_loop R rq ns s1 c2 arts1 (Some a') ri2 = (s', Inr x)" by simp
        have "goes_on previous c c2 a'" unfolding goes_on_def using d a(1) a' q False by (auto simp: iteration_done_def)
        then show ?thesis using l go by blast
      qed
    qed
  qed
qed

lemma fresh_ids:
  assumes "validate_fresh_authority old new = Inr ()"
  shows "fa_authorization_id new \<noteq> fa_authorization_id old" "fa_proposal_id new \<noteq> fa_proposal_id old"
    "fa_decision_id new \<noteq> fa_decision_id old" "fa_decision_request_id new \<noteq> fa_decision_request_id old"
    "fa_context_artifact_id new \<noteq> fa_context_artifact_id old" "fa_context_fingerprint new \<noteq> fa_context_fingerprint old"
    "fa_iteration new = fa_iteration old + 1" "fa_execution_id new = fa_execution_id old"
  using assms
  by (auto simp: validate_fresh_authority_def authority_fields_def guarded_Inr_iff first_error_None_iff simp del: first_error.simps)

text \<open>The account of a finished execution.\<close>

definition accounted :: "exec_context \<Rightarrow> exec_result \<Rightarrow> bool" where
  "accounted c0 x \<longleftrightarrow> (let c = xr_context x in
     valid_context c \<and> is_terminal (state c) \<and> 1 \<le> iteration c \<and> iteration c \<le> 2 \<and> int (length (xr_artifacts x)) = iteration c \<and>
     execution_id c = execution_id c0 \<and> exec_context.run_id c = exec_context.run_id c0 \<and>
     distinct (auth_refs c) \<and> int (length (auth_refs c)) = mutations_used (budget c) \<and> mutations_used (budget c) \<le> iteration c)"

lemma finished_account:
  assumes f: "finished previous c x" and i: "0 \<le> iteration c" "iteration c \<le> 1"
    and l: "auth_refs c = (case previous of None \<Rightarrow> [] | Some a \<Rightarrow> [fa_authorization_id a])"
    and m: "int (length (auth_refs c)) = mutations_used (budget c)" "mutations_used (budget c) \<le> iteration c"
    and ids: "same_limits c0 c"
  shows "accounted c0 x"
proof -
  from f obtain c1 st where d: "iteration_done previous c c1 st" and q: "quiet c1 (xr_context x)"
    unfolding finished_def by blast
  from d obtain a where a: "authority_spent previous c c1 a" unfolding iteration_done_def by blast
  have k: "auth_refs (xr_context x) = auth_refs c1" "mutations_used (budget (xr_context x)) = mutations_used (budget c1)"
    "iteration (xr_context x) = iteration c + 1" "same_limits c0 (xr_context x)" "valid_context (xr_context x)"
    using q d ids same_limits_trans [OF same_limits_trans [OF ids, of c1]] unfolding quiet_def iteration_done_def by simp_all
  have "distinct (auth_refs c1) \<and> int (length (auth_refs c1)) = mutations_used (budget c1) \<and> mutations_used (budget c1) \<le> iteration c + 1"
  proof (cases a)
    case None
    then show ?thesis using a l m by (auto simp: authority_spent_def split: option.splits)
  next
    case (Some b)
    have "fa_authorization_id b \<notin> set (auth_refs c)"
      using a Some l fresh_ids(1) by (auto simp: authority_spent_def fresh_after_def split: option.splits)
    then show ?thesis using a Some l m by (auto simp: authority_spent_def split: option.splits)
  qed
  then show ?thesis using k f i unfolding accounted_def finished_def same_limits_def Let_def by auto
qed

lemma initial_context_ok:
  assumes "initial_context rq = Inr c" and "budget_ok (rr_budget rq)"
  shows "valid_context c \<and> state c = CREATED \<and> iteration c = 0 \<and> auth_refs c = [] \<and> budget c = rr_budget rq \<and>
    mutations_used (budget c) = 0 \<and> verifications_used (budget c) = 0 \<and> execution_id c = latin_text (rr_execution rq) \<and>
    exec_context.run_id c = latin_text (rr_run rq)"
proof -
  let ?raw = "\<lparr>execution_id = latin_text (rr_execution rq), run_id = latin_text (rr_run rq), goal = latin_text (rr_goal rq),
      state = CREATED, iteration = 0, budget = rr_budget rq, history = [], evidence = [], stop_reason = None,
      ctx_metadata = PDict []\<rparr>"
  from assms(1) have c: "c = ?raw\<lparr>ctx_metadata := PProxy []\<rparr>" and h: "validate_history ?raw = None"
    and g: "\<not> blank (latin_text (rr_execution rq))" "\<not> blank (latin_text (rr_run rq))" "\<not> blank (latin_text (rr_goal rq))"
    by (auto simp: initial_context_def make_context_def freeze_mapping_def split: option.splits if_splits)
  have e: "mutations_used (rr_budget rq) = 0" "verifications_used (rr_budget rq) = 0"
    using h by (auto simp: validate_history_def initial_context_errors_def split: if_splits)
  have "validate_history c = None" using h by (simp add: c validate_history_def initial_context_errors_def)
  then have "make_context c = Inr c" using g by (simp add: make_context_def c freeze_mapping_def)
  moreover have "make_budget (budget c) = Inr (budget c)" using assms(2) by (simp add: c make_budget_Inr_iff)
  ultimately show ?thesis using e by (simp add: valid_context_def c auth_refs_def)
qed

lemma run_accounted:
  assumes run: "execute_run R rq s = (s', Inr x)" and b: "budget_ok (rr_budget rq)"
    and l: "max_mutations (rr_budget rq) = 2" "max_verifications (rr_budget rq) = 2"
  shows "\<exists>c0. initial_context rq = Inr c0 \<and> accounted c0 x"
proof -
  from run obtain c0 where c0: "initial_context rq = Inr c0" and loop: "serial_loop R rq [1, 2] s c0 [] None None = (s', Inr x)"
    by (auto simp: execute_run_def split: if_splits sum.splits)
  note i = initial_context_ok [OF c0 b]
  then have v: "valid_context c0" by blast
  have cap: "mutations_used (budget c0) < max_mutations (budget c0)" "verifications_used (budget c0) < max_verifications (budget c0)"
    using i l by auto
  have "accounted c0 x"
    using loop_step [OF v loop cap]
  proof (elim disjE conjE exE)
    assume "finished None c0 x"
    then show ?thesis by (rule finished_account) (use i in \<open>auto simp: same_limits_def\<close>)
  next
    fix s2 c2 arts2 a ri2 assume g: "goes_on None c0 c2 a" and loop2: "serial_loop R rq [2] s2 c2 arts2 (Some a) ri2 = (s', Inr x)"
    from g obtain c1 where c1: "authority_spent None c0 c1 (Some a)" "quiet c1 c2" "iteration c1 = iteration c0 + 1" "same_limits c0 c1"
      "verifications_used (budget c1) \<le> verifications_used (budget c0) + 1" by (auto simp: goes_on_def)
    have f2: "valid_context c2" "iteration c2 = 1" "auth_refs c2 = [fa_authorization_id a]" "mutations_used (budget c2) = 1"
      "verifications_used (budget c2) \<le> 1" "same_limits c0 c2"
      using c1 i same_limits_trans unfolding quiet_def authority_spent_def by auto
    have cap2: "mutations_used (budget c2) < max_mutations (budget c2)" "verifications_used (budget c2) < max_verifications (budget c2)"
      using f2 i l by (auto simp: same_limits_def)
    from loop_step [OF f2(1) loop2 cap2] have "finished (Some a) c2 x" by simp
    then show ?thesis by (rule finished_account) (use f2 in simp_all)
  qed
  then show ?thesis using c0 by blast
qed

end
