(* ===== verification/RuntimeEffects.thy ===== *)
theory RuntimeEffects
  imports RuntimeLedger
begin

text \<open>
  What a governed execution does to the tree: every write is the content of the one intent of a decision
  the gateway made for a request of this execution, and a completed execution stands on a verification
  that holds of the tree.
\<close>

section \<open>Decisions and writes\<close>

text \<open>The intent of a decision made in one of the two iterations, on a request bound to this execution.\<close>

definition decided :: "runtime_env \<Rightarrow> runtime_request \<Rightarrow> decision_request \<Rightarrow> mutation_intent \<Rightarrow> bool" where
  "decided R rq q i \<longleftrightarrow> (\<exists>n fs b r d. n \<in> {1, 2} \<and> assembled R rq n fs = Some (b, q) \<and> binding_breach rq b q = None \<and>
     rt_gateway R n q = Inr r \<and> gr_success r \<and> gr_decision r = Some d \<and> ed_intents d = [i])"

definition intent_target :: "runtime_env \<Rightarrow> mutation_intent \<Rightarrow> path" where
  "intent_target R i = wf_root (rt_workflow R) @ path_parts (mi_target i)"

definition decision_targets :: "runtime_env \<Rightarrow> runtime_request \<Rightarrow> path set" where
  "decision_targets R rq = {intent_target R i | q i. decided R rq q i}"

text \<open>What holds of a write: the path is below the root and not protected, the content within the
  bounds of the policy, and it keeps every prefix the request asked to preserve.\<close>

definition write_admitted :: "runtime_env \<Rightarrow> decision_request \<Rightarrow> mutation_intent \<Rightarrow> bool" where
  "write_admitted R q i \<longleftrightarrow>
     path_parts (mi_target i) \<noteq> [] \<and> ''..'' \<notin> set (path_parts (mi_target i)) \<and>
     \<not> excluded_path (wf_env (rt_workflow R)) (path_parts (mi_target i)) \<and>
     redaction_count (wf_env (rt_workflow R)) (mi_content i) = 0 \<and>
     intent_bytes i \<le> max_content_bytes (wf_policy (rt_workflow R)) \<and>
     (\<exists>pol. dr_intents q = Some pol \<and> (\<forall>r \<in> set (ip_preservation pol). starts_with (code_points (mi_content i)) (required_prefix r)))"

definition governed_write :: "runtime_env \<Rightarrow> runtime_request \<Rightarrow> path \<Rightarrow> bytes \<Rightarrow> bool" where
  "governed_write R rq t data \<longleftrightarrow>
     (\<exists>q i. decided R rq q i \<and> write_admitted R q i \<and> t = intent_target R i \<and> data = utf8_encode (mi_content i))"

definition governed_tree :: "runtime_env \<Rightarrow> runtime_request \<Rightarrow> fs \<Rightarrow> fs \<Rightarrow> bool" where
  "governed_tree R rq fs0 fs \<longleftrightarrow> (\<forall>t. fs t \<noteq> fs0 t \<longrightarrow> (\<exists>data. fs t = Some (File True data) \<and> governed_write R rq t data))"

section \<open>One iteration\<close>

definition governed_step :: "runtime_env \<Rightarrow> runtime_request \<Rightarrow> fs \<Rightarrow> fs \<Rightarrow> bool" where
  "governed_step R rq fs fs' \<longleftrightarrow> fs' = fs \<or> (\<exists>t data. governed_write R rq t data \<and> fs' = fs(t \<mapsto> File True data))"

text \<open>An iteration that reached its verification did what its receipt says.\<close>

definition truly_settled :: "runtime_env \<Rightarrow> runtime_request \<Rightarrow> nat \<Rightarrow> fs \<Rightarrow> settled_iteration \<Rightarrow> bool" where
  "truly_settled R rq n fs z \<longleftrightarrow>
     (\<exists>q i v. decided R rq q i \<and> target_path (se_proposal z) = mi_target i \<and> content (se_proposal z) = mi_content i \<and>
        fs (intent_target R i) = Some (File True (utf8_encode (mi_content i))) \<and>
        rt_specify R n (se_proposal z) = Some v \<and> vs_target_path v = mi_target i \<and>
        (status (se_verification z) = PASSED \<longrightarrow> spec_holds (rt_sha R) fs (rt_root R @ path_parts (mi_target i)) v))"

lemma observed_holds:
  assumes "observe sha fs t v = Inr (Inr ev)" and "evaluate fs t v ev"
  shows "spec_holds sha fs t v"
proof -
  have "read_bytes fs t = None" if "\<not> path_exists fs t" using that read_bytes_file by (cases "read_bytes fs t") auto
  then show ?thesis using assms
    by (cases "expected_content v")
      (auto simp: observe_def Let_def make_verification_evidence_def guarded_Inr_iff absent_evidence_def evaluate_def spec_holds_def
        read_text_def map_sum_Inr_iff file_size_def split: if_splits option.splits verification_check.splits
        dest!: read_bytes_file)
qed

lemma verify_passed:
  assumes "verify sha ws fs new q = Inr r" and "status r = PASSED"
  shows "spec_holds sha fs (ws @ path_parts (vs_target_path (vr_specification q))) (vr_specification q)"
proof -
  have st: "x = PASSED" if "verifier_result new q x c ev = Inr r" for x c ev
    using assms(2) that by (auto simp: verifier_result_def make_verification_result_def guarded_Inr_iff)
  obtain t where t: "confined_target fs ws (vs_target_path (vr_specification q)) = Inr t"
    using assms(1) st by (cases "confined_target fs ws (vs_target_path (vr_specification q))") (fastforce simp: verify_def split: if_splits)+
  then obtain seen where o: "observe sha fs t (vr_specification q) = Inr seen"
    and r: "(case seen of
              Inl c \<Rightarrow> verifier_result new q V_FAILED (Some c) None
            | Inr ev \<Rightarrow>
                if evaluate fs t (vr_specification q) ev then verifier_result new q PASSED None (Some ev)
                else verifier_result new q V_FAILED (Some ASSERTION_FAILED) (Some ev)) = Inr r"
    using assms(1) st by (fastforce simp: verify_def bind_res_Inr_iff split: if_splits)
  from r obtain ev where "seen = Inr ev" and "evaluate fs t (vr_specification q) ev"
    by (auto dest: st split: sum.splits if_splits)
  moreover have "t = ws @ path_parts (vs_target_path (vr_specification q))" using confined_target_Inr [OF t] by blast
  ultimately show ?thesis using observed_holds o by blast
qed

lemma translate_success: "translate env dg fs r q run t = Inr p \<Longrightarrow> gr_success r"
  by (auto simp: translate_def Let_def split: prod.splits bool.splits option.splits)

text \<open>A proposal is the intent of the decision it was translated from.\<close>

lemma proposal_decided:
  assumes n: "n \<in> {1, 2}" "assembled R rq n fs0 = Some (b, q)" "binding_breach rq b q = None"
    and g: "rt_gateway R n q = Inr r" and t: "translate (wf_env (rt_workflow R)) (wf_digest (rt_workflow R)) fs r q run ts = Inr p"
  obtains i pol where "decided R rq q i" and "target_path p = mi_target i" and "content p = mi_content i"
    and "target_of (rt_workflow R) p = intent_target R i" and "dr_intents q = Some pol"
    and "\<forall>r \<in> set (ip_preservation pol). starts_with (code_points (mi_content i)) (required_prefix r)"
proof -
  from t obtain d i pol seen pre where f: "gr_decision r = Some d" "dr_intents q = Some pol" "ed_intents d = [i]"
    "intent_shape_fault i d pol = None" "read_target (wf_env (rt_workflow R)) fs ts (mi_target i) = Inr seen"
    "operation_of i = Inr (operation p)" "preservation_fault i (ip_preservation pol) (map_option snd seen) = None"
    "pre = \<lparr>pre_expect_exists = seen \<noteq> None, pre_fingerprint = map_option fst seen\<rparr>"
    "p = translated (wf_env (rt_workflow R)) (wf_digest (rt_workflow R)) fs run q ts d i (operation p) pre" "make_proposal p = Inr p"
    by (rule translate_Inr)
  have "decided R rq q i" unfolding decided_def using n g f(1,3) translate_success [OF t] by blast
  moreover have "target_path p = mi_target i" "content p = mi_content i"
    by (subst f(9), simp add: translated_def)+
  ultimately show ?thesis
    using that preservation_kept [OF f(7)] f(2) by (simp add: target_of_def intent_target_def)
qed

lemma validated_admitted:
  assumes "validate_policy (wf_env (rt_workflow R)) (wf_policy (rt_workflow R)) (wf_root (rt_workflow R)) fs p = Inr cur"
    and "root_ok fs (wf_root (rt_workflow R))" and "target_path p = mi_target i" and "content p = mi_content i" and "dr_intents q = Some pol"
    and "\<forall>r \<in> set (ip_preservation pol). starts_with (code_points (mi_content i)) (required_prefix r)"
  shows "write_admitted R q i"
  using validate_policy_Inr [OF assms(1,2)] assms(3-6) by (auto simp: write_admitted_def content_bytes_def intent_bytes_def)

definition temps_ok :: "runtime_env \<Rightarrow> runtime_request \<Rightarrow> fs \<Rightarrow> bool" where
  "temps_ok R rq fs \<longleftrightarrow> (\<forall>t p. t \<in> decision_targets R rq \<longrightarrow> temps_free (wf_env (rt_workflow R)) fs t p)"

abbreviation run_root :: "runtime_env \<Rightarrow> path" where
  "run_root R \<equiv> wf_root (rt_workflow R)"

text \<open>The workflow of one iteration.\<close>

lemma workflow_governed:
  assumes n: "n \<in> {1, 2}" "assembled R rq n fs0 = Some (b, q)" "binding_breach rq b q = None"
    and ok: "root_ok (tree s) (run_root R)" "temps_ok R rq (tree s)"
    and run: "execute_workflow (rt_workflow R) fl (rt_gateway R n) L q run ts s ob = (ob', s', out)"
  shows "governed_step R rq (tree s) (tree s') \<and>
    (\<forall>w. out = Inr w \<and> wr_success w \<longrightarrow> (\<exists>i p x. decided R rq q i \<and> wr_proposal w = Some p \<and> wr_receipt w = Some x \<and> target_path p = mi_target i \<and>
       content p = mi_content i \<and> re_target_path x = mi_target i \<and>
       tree s' (intent_target R i) = Some (File True (utf8_encode (mi_content i)))))"
proof -
  have tf: "temps_free (wf_env (rt_workflow R)) (tree s) (target_of (rt_workflow R) p) p"
    if "rt_gateway R n q = Inr r" and "translate (wf_env (rt_workflow R)) (wf_digest (rt_workflow R)) (tree s) r q run ts = Inr p" for r p
  proof -
    from proposal_decided [OF n that] obtain i where "decided R rq q i" "target_of (rt_workflow R) p = intent_target R i" by metis
    then show ?thesis using ok(2) by (auto simp: temps_ok_def decision_targets_def)
  qed
  have "nothing_done s s' out \<or>
    (\<exists>r p ob3. rt_gateway R n q = Inr r \<and>
       translate (wf_env (rt_workflow R)) (wf_digest (rt_workflow R)) (tree s) r q run ts = Inr p \<and> passed_to L q r p ob ob3 \<and>
       attempt_done (rt_workflow R) L s s' r p ob3 ob' out)"
    by (rule workflow_effect [OF ok(1) _ run]) (rule tf)
  then show ?thesis
  proof (elim disjE exE conjE)
    assume "nothing_done s s' out"
    then show ?thesis by (auto simp: nothing_done_def governed_step_def)
  next
    fix r p ob3 assume g: "rt_gateway R n q = Inr r"
      and t: "translate (wf_env (rt_workflow R)) (wf_digest (rt_workflow R)) (tree s) r q run ts = Inr p"
      and d: "attempt_done (rt_workflow R) L s s' r p ob3 ob' out"
    from proposal_decided [OF n g t] obtain i pol where i: "decided R rq q i" "target_path p = mi_target i" "content p = mi_content i"
      "target_of (rt_workflow R) p = intent_target R i" "dr_intents q = Some pol"
      "\<forall>r \<in> set (ip_preservation pol). starts_with (code_points (mi_content i)) (required_prefix r)" by metis
    have wr: "wrote (tree s) (target_of (rt_workflow R) p) p = (tree s)(intent_target R i \<mapsto> File True (utf8_encode (mi_content i)))"
      using i by (simp add: wrote_def)
    from d obtain a x where x: "out = Inr (attempted r p x)" "receipt_for_proposal p (Some a) x"
      and v: "result x = MUT_COMPLETED \<or> tree s' \<noteq> tree s \<longrightarrow>
        (\<exists>cur. validate_policy (wf_env (rt_workflow R)) (wf_policy (rt_workflow R)) (run_root R) (tree s) p = Inr cur)"
      and e: "if result x = MUT_COMPLETED
         then verification_passed x \<and> au_proposal_digest a = proposal_digest (wf_env (rt_workflow R)) p \<and>
           tree s' = wrote (tree s) (target_of (rt_workflow R) p) p
         else tree s' = tree s \<or> tree s' = wrote (tree s) (target_of (rt_workflow R) p) p"
      unfolding attempt_done_def by blast
    have "governed_write R rq (intent_target R i) (utf8_encode (mi_content i))" if "tree s' \<noteq> tree s"
      using v that validated_admitted [OF _ ok(1) i(2,3,5,6)] i(1) unfolding governed_write_def by blast
    moreover have "tree s' = tree s \<or> tree s' = (tree s)(intent_target R i \<mapsto> File True (utf8_encode (mi_content i)))"
      using e wr by (auto split: if_splits)
    ultimately have "governed_step R rq (tree s) (tree s')" unfolding governed_step_def by blast
    moreover have "wr_success (attempted r p x) \<Longrightarrow> tree s' (intent_target R i) = Some (File True (utf8_encode (mi_content i)))"
      using e wr by (simp add: wr_success_def attempted_def)
    ultimately show ?thesis using x i by (auto simp: attempted_def receipt_for_proposal_def)
  qed
qed

text \<open>The observer keeps the frame of the state, whatever it does.\<close>

lemma observer_frame:
  "on_deciding R q st = (st', e) \<Longrightarrow> same_frame st st'"
  "on_proposing R q r st = (st', e) \<Longrightarrow> same_frame st st'"
  "on_authorizing R p st = (st', e) \<Longrightarrow> same_frame st st'"
  "on_mutating R previous p a st = (st', e) \<Longrightarrow> same_frame st st'"
  by (auto simp: on_deciding_def on_proposing_def on_authorizing_def on_mutating_def move_ledger_def observer_result_def
      same_frame_def Let_def bind_res_Inr_iff split: sum.splits)

lemma stands_frame: "stands_at (runtime_observer R previous) q st st' \<Longrightarrow> same_frame st st'"
  unfolding stands_at_def passed_to_def
  by (auto simp: runtime_observer_def dest!: observer_frame intro: same_frame_trans)

lemma lift_invalid_Inr: "lift_invalid m = Inr x \<longleftrightarrow> m = Inr x"
  by (cases m) (simp_all add: lift_invalid_def)

lemma make_request_Inr: "make_request q = Inr r \<Longrightarrow> r = q \<and> vs_target_path (vr_specification q) = re_target_path (receipt q)"
  by (auto simp: make_request_def guarded_Inr_iff first_error_None_iff simp del: first_error.simps)

lemma verified_settled:
  assumes r: "verified R rq n fs st p x = Inr (c', st')" and z: "settled st' = Some z"
    and w: "is_workflow st = Some w" "wr_proposal w = Some p" "wr_receipt w = Some x"
    and i: "decided R rq q i" "target_path p = mi_target i" "content p = mi_content i" "re_target_path x = mi_target i"
      "fs (intent_target R i) = Some (File True (utf8_encode (mi_content i)))"
  shows "truly_settled R rq n fs z"
proof -
  from r obtain c v vq vr where v: "rt_specify R n p = Some v" and
    q: "make_request \<lparr>request_id = rt_request_id R n, vr_run_id = latin_text (rr_run rq), receipt = x,
               vr_specification = v, execution_context = Some c\<rparr> = Inr vq"
    and vr: "verify (rt_sha R) (rt_root R) fs (rt_verification_id R n) vq = Inr vr"
    and st': "st' = Some (st\<lparr>is_verification := Some vr\<rparr>)"
    by (auto simp: verified_def bind_res_Inr_iff lift_invalid_Inr split: option.splits)
  from make_request_Inr [OF q] have t: "vr_specification vq = v" "vs_target_path v = mi_target i" using i(4) by auto
  have zf: "se_proposal z = p" "se_verification z = vr" using z st' w by (auto simp: settled_def)
  have "status vr = PASSED \<longrightarrow> spec_holds (rt_sha R) fs (rt_root R @ path_parts (mi_target i)) v"
    using verify_passed [OF vr] t by simp
  then show ?thesis unfolding truly_settled_def zf using i v t by blast
qed

lemma run_iteration_governed:
  assumes n: "n \<in> {1, 2}" "assembled R rq n fs0 = Some (b, q)" "binding_breach rq b q = None"
    and ok: "root_ok (tree s) (run_root R)" "temps_ok R rq (tree s)"
    and run: "run_iteration R rq n previous b q s c = (s', out)"
  shows "governed_step R rq (tree s) (tree s') \<and>
    (\<forall>c' st z. out = Inr (c', st) \<and> settled st = Some z \<longrightarrow> truly_settled R rq n (tree s') z)"
proof -
  let ?st = "\<lparr>is_ledger = c, is_bundle = b, is_request = q, is_decision = [], is_workflow = None, is_authority = None,
    is_verification = None\<rparr>"
  obtain st s1 w where wf: "execute_workflow (rt_workflow R) (rt_faults R n) (rt_gateway R n) (runtime_observer R previous) q
      (latin_text (rr_run rq)) (cb_trusted b) s ?st = (st, s1, w)" by (metis prod_cases3)
  note g = workflow_governed [OF n ok wf]
  have s1: "s1 = s'" using run wf by (auto simp: run_iteration_def split: sum.splits workflow_exn.splits gateway_exn.splits)
  have "truly_settled R rq n (tree s') z" if o: "out = Inr (c', st2)" and z: "settled st2 = Some z" for c' st2 z
  proof -
    have ne: "\<forall>e. w \<noteq> Inl (ObserverRaised e)" using run wf o by (auto simp: run_iteration_def)
    have f: "is_verification st = None"
      using stands_frame [OF workflow_stands [OF wf ne]] by (simp add: same_frame_def)
    show ?thesis
    proof (cases w)
      case (Inl e)
      then have "st2 = Some st" using run wf ne o
        by (cases e) (auto simp: run_iteration_def keep_state_def bind_res_Inr_iff split: gateway_exn.splits)
      then show ?thesis using z f by (auto simp: settled_def bind_eq_Some_conv)
    next
      case (Inr wr)
      let ?s = "st\<lparr>is_workflow := Some wr\<rparr>"
      have a: "after_workflow R rq n (tree s') ?s wr = Inr (c', st2)" using run wf Inr o by (auto simp: run_iteration_def)
      show ?thesis
      proof (cases "wr_success wr \<and> wr_proposal wr \<noteq> None \<and> wr_receipt wr \<noteq> None")
        case True
        with g s1 Inr obtain i p x where i: "decided R rq q i" "wr_proposal wr = Some p" "wr_receipt wr = Some x"
          "target_path p = mi_target i" "content p = mi_content i" "re_target_path x = mi_target i"
          "tree s' (intent_target R i) = Some (File True (utf8_encode (mi_content i)))" by blast
        with a True have "verified R rq n (tree s') ?s p x = Inr (c', st2)" by (simp add: after_workflow_def)
        from verified_settled [OF this z _ i(2,3,1,4-7)] show ?thesis by simp
      next
        case False
        then have "st2 = Some ?s" using a
          by (auto simp: after_workflow_def keep_state_def bind_res_Inr_iff split: option.splits bool.splits)
        then show ?thesis using z f by (auto simp: settled_def bind_eq_Some_conv)
      qed
    qed
  qed
  then show ?thesis using g s1 by blast
qed

lemma execute_iteration_governed:
  assumes n: "n \<in> {1, 2}" and ok: "root_ok (tree s) (run_root R)" "temps_ok R rq (tree s)"
    and run: "execute_iteration R rq n previous s c = (s', out)"
  shows "governed_step R rq (tree s) (tree s') \<and>
    (\<forall>c' st z. out = Inr (c', st) \<and> settled st = Some z \<longrightarrow> truly_settled R rq n (tree s') z)"
proof -
  have stop: "?thesis" if "s' = s \<and> (\<forall>c' st. out = Inr (c', st) \<longrightarrow> st = None)"
    using that by (auto simp: governed_step_def settled_def)
  show ?thesis
  proof (cases "advance_to R c CONTEXT_ASSEMBLING [] None")
    case (Inl e)
    then show ?thesis using run by (intro stop) (auto simp: execute_iteration_def)
  next
    case c1: (Inr c1)
    show ?thesis
    proof (cases "is_terminal (state c1) \<or> assembled R rq n (tree s) = None")
      case True
      then show ?thesis using run c1
        by (intro stop) (auto simp: execute_iteration_def keep_state_def bind_res_Inr_iff split: if_splits)
    next
      case False
      then obtain b q where bq: "assembled R rq n (tree s) = Some (b, q)" by auto
      show ?thesis
      proof (cases "binding_breach rq b q")
        case (Some m)
        then show ?thesis using run c1 bq False by (intro stop) (auto simp: execute_iteration_def)
      next
        case None
        show ?thesis
        proof (cases "step_with R c1 PLANNING (plan_evidence b)")
          case (Inl e)
          then show ?thesis using run c1 bq False None by (intro stop) (auto simp: execute_iteration_def)
        next
          case (Inr c2)
          then have "run_iteration R rq n previous b q s c2 = (s', out)" using run c1 bq False None by (simp add: execute_iteration_def)
          from run_iteration_governed [OF n bq None ok this] show ?thesis .
        qed
      qed
    qed
  qed
qed

section \<open>The whole execution\<close>

text \<open>The trees an execution passes through keep the root and the temporary names.\<close>

lemma target_below: "write_admitted R q i \<Longrightarrow> run_root R \<noteq> intent_target R i"
  by (simp add: write_admitted_def intent_target_def)

lemma governed_refl: "governed_tree R rq fs fs"
  by (simp add: governed_tree_def)

lemma governed_step_tree: "governed_tree R rq fs0 fs \<Longrightarrow> governed_step R rq fs fs' \<Longrightarrow> governed_tree R rq fs0 fs'"
  by (auto simp: governed_tree_def governed_step_def)

lemma governed_step_root: "governed_step R rq fs fs' \<Longrightarrow> root_ok fs (run_root R) \<Longrightarrow> root_ok fs' (run_root R)"
  by (auto simp: governed_step_def governed_write_def root_ok_def link_free_update dest: target_below)

lemma governed_temps:
  assumes "temps_outside (wf_env (rt_workflow R)) fs0 (decision_targets R rq)" and "governed_tree R rq fs0 fs"
  shows "temps_ok R rq fs"
proof -
  have "same_outside (decision_targets R rq) fs0 fs"
    using assms(2) by (fastforce simp: same_outside_def governed_tree_def governed_write_def decision_targets_def)
  then show ?thesis using outside_temps [OF assms(1)] by (simp add: temps_ok_def)
qed

text \<open>The state at the end of the loop is the terminal tree, or what the audit observer made of it.\<close>

definition recorded :: "runtime_env \<Rightarrow> fs \<Rightarrow> fs \<Rightarrow> runtime_exn + exec_result \<Rightarrow> bool" where
  "recorded R fs fs' out \<longleftrightarrow> fs' = fs \<or> (\<exists>A x ok. rt_audit R = Some A \<and> ao_record A fs x = (fs', ok) \<and>
     (ok \<longrightarrow> out = Inr x) \<and> (\<not> ok \<longrightarrow> (\<exists>e. out = Inl e)))"

lemma recorded_refl: "recorded R fs fs out"
  by (simp add: recorded_def)

lemma terminal_recorded: "terminal_result R s c arts = (s', out) \<Longrightarrow> recorded R (tree s) (tree s') out"
  by (auto simp: terminal_result_def recorded_def split: sum.splits option.splits prod.splits if_splits) blast+

lemma conclude_recorded: "conclude R s m arts = (s', out) \<Longrightarrow> recorded R (tree s) (tree s') out"
  using terminal_recorded by (auto simp: conclude_def recorded_refl split: sum.splits)

text \<open>The state a step of the ledger ends in.\<close>

lemma advance_state:
  assumes "advance_to R c t ev why = Inr c'"
  shows "state c' = fst (spend c t) \<and> stop_reason c' = py_or (snd (snd (snd (spend c t)))) why"
  using assms
  by (auto simp: advance_to_def transition_or_raise_def transition_def advance_def Let_def bind_res_Inr_iff make_context_def
      split: sum.splits prod.splits if_splits option.splits py_error.splits)

lemma advance_free: "t \<notin> {CONTEXT_ASSEMBLING, MUTATING, VERIFYING} \<Longrightarrow> fst (spend c t) = t \<and> snd (snd (snd (spend c t))) = None"
  by (cases t) (simp_all add: spend_def)

lemma failed_state: "failed R c why = Inr c' \<Longrightarrow> state c' = FAILED"
  using advance_state [of R c FAILED "[]" "Some why" c'] advance_free [of FAILED c] by (simp add: failed_def)

lemma verified_state: "verified R rq n fs st p x = Inr (c', st') \<Longrightarrow> state c' \<in> {VERIFYING, FAILED}"
  using advance_state by (fastforce simp: verified_def step_with_def bind_res_Inr_iff spend_def split: option.splits sum.splits)

lemma iteration_state:
  assumes "execute_iteration R rq n previous s c = (s', Inr (c', st))"
  shows "state c' \<noteq> COMPLETED"
  using assms failed_state verified_state
  by (fastforce simp: execute_iteration_def run_iteration_def after_workflow_def keep_state_def bind_res_Inr_iff
      split: sum.splits option.splits if_splits prod.splits workflow_exn.splits gateway_exn.splits bool.splits)

lemma closing_state:
  assumes "closing R n ri c z verdict = Inr c'"
  shows "(state c' = COMPLETED \<longleftrightarrow> verdict = SATISFIED) \<and> (state c' = COMPLETED \<longrightarrow> stop_reason c' = Some SUCCESS)"
proof -
  define t where "t = (if verdict = SATISFIED then COMPLETED else FAILED)"
  define why where "why = (if verdict = SATISFIED then SUCCESS else VERIFICATION_FAILED)"
  from assms obtain e where "advance_to R c t [e] (Some why) = Inr c'"
    by (auto simp: closing_def closing_step_def bind_res_Inr_iff t_def why_def split: if_splits)
  from advance_state [OF this] advance_free [of t c] show ?thesis by (auto simp: t_def why_def py_or_def)
qed

lemma recovery_state:
  assumes "recovery_of R rq c z ob = Inr (c', ri)"
  shows "state c' \<noteq> COMPLETED"
proof -
  have r: "advance_to R c REPLANNING ev w = Inr c2 \<Longrightarrow> state c2 = REPLANNING" for c ev w c2
    using advance_state [of R c REPLANNING ev w c2] advance_free [of REPLANNING c] by simp
  have f: "advance_to R c FAILED ev w = Inr c2 \<Longrightarrow> state c2 = FAILED" for c ev w c2
    using advance_state [of R c FAILED ev w c2] advance_free [of FAILED c] by simp
  show ?thesis using assms r f failed_state
    by (fastforce simp: recovery_of_def replanning_step_def bind_res_Inr_iff split: option.splits if_splits)
qed

text \<open>A completed execution ends on an iteration whose mutation completed and whose verification passed.\<close>

definition success_stands :: "runtime_env \<Rightarrow> runtime_request \<Rightarrow> fs \<Rightarrow> exec_result \<Rightarrow> bool" where
  "success_stands R rq fs x \<longleftrightarrow> stop_reason (xr_context x) = Some SUCCESS \<and>
     (\<exists>n z. n \<in> {1, 2} \<and> truly_settled R rq n fs z \<and> mutation_succeeded (se_receipt z) \<and> status (se_verification z) = PASSED)"

definition run_effect :: "runtime_env \<Rightarrow> runtime_request \<Rightarrow> fs \<Rightarrow> fs \<Rightarrow> runtime_exn + exec_result \<Rightarrow> bool" where
  "run_effect R rq fs0 fs' out \<longleftrightarrow>
     (\<exists>fs. governed_tree R rq fs0 fs \<and> recorded R fs fs' out \<and> (\<forall>x. out = Inr x \<and> exec_succeeded x \<longrightarrow> success_stands R rq fs x))"

lemma assess_satisfied:
  "assess r v = Inr ob \<Longrightarrow> objective_status ob = SATISFIED \<Longrightarrow> mutation_succeeded r \<and> status v = PASSED"
  by (auto simp: assess_def Let_def make_assessment_def guarded_Inr_iff split: if_splits)

lemma ended_effect:
  assumes g: "governed_tree R rq fs0 (tree s)" and t: "terminal_result R s c arts = (s', out)"
    and c: "state c = COMPLETED \<Longrightarrow> success_stands R rq (tree s) \<lparr>xr_context = c, xr_artifacts = arts\<rparr>"
  shows "run_effect R rq fs0 (tree s') out"
proof -
  have "success_stands R rq (tree s) x" if "out = Inr x" "exec_succeeded x" for x
  proof -
    have "x = \<lparr>xr_context = c, xr_artifacts = arts\<rparr>" using terminal_result_Inr t that(1) by blast
    then show ?thesis using c that(2) by (simp add: exec_succeeded_def)
  qed
  then show ?thesis unfolding run_effect_def using g terminal_recorded [OF t] by blast
qed

lemma raised_effect: "governed_tree R rq fs0 fs \<Longrightarrow> run_effect R rq fs0 fs (Inl e)"
  unfolding run_effect_def using recorded_refl by blast

lemma concluded_effect:
  assumes g: "governed_tree R rq fs0 (tree s)" and t: "conclude R s m arts = (s', out)"
    and c: "\<And>c. m = Inr c \<Longrightarrow> state c = COMPLETED \<Longrightarrow> success_stands R rq (tree s) \<lparr>xr_context = c, xr_artifacts = arts\<rparr>"
  shows "run_effect R rq fs0 (tree s') out"
proof (cases m)
  case (Inl e)
  then show ?thesis using t g raised_effect by (auto simp: conclude_def)
next
  case (Inr c)
  then show ?thesis using t ended_effect [OF g] assms(3) by (simp add: conclude_def)
qed

lemma loop_effect:
  assumes "set ns \<subseteq> {1, 2}" and "root_ok (tree s) (run_root R)" and "governed_tree R rq fs0 (tree s)"
    and temps: "temps_outside (wf_env (rt_workflow R)) fs0 (decision_targets R rq)"
    and "serial_loop R rq ns s c arts previous ri = (s', out)"
  shows "run_effect R rq fs0 (tree s') out"
  using assms(1-3,5)
proof (induction ns arbitrary: s c arts previous ri)
  case Nil
  then show ?case using raised_effect by auto
next
  case (Cons n ns)
  have n: "n \<in> {1, 2}" using Cons.prems(1) by simp
  obtain s1 m where e: "execute_iteration R rq n previous s c = (s1, m)" by force
  from execute_iteration_governed [OF n Cons.prems(2) governed_temps [OF temps Cons.prems(3)] e]
  have step: "governed_step R rq (tree s) (tree s1)"
    and z: "\<And>c' st z. m = Inr (c', st) \<Longrightarrow> settled st = Some z \<Longrightarrow> truly_settled R rq n (tree s1) z" by blast+
  have g: "governed_tree R rq fs0 (tree s1)" and ro: "root_ok (tree s1) (run_root R)"
    using governed_step_tree [OF Cons.prems(3) step] governed_step_root [OF step Cons.prems(2)] by blast+
  show ?case
  proof (cases m)
    case (Inl er)
    then show ?thesis using Cons.prems(4) e raised_effect [OF g] by auto
  next
    case (Inr r)
    obtain c1 st where r: "r = (c1, st)" by (cases r)
    note nc = iteration_state [of R rq n previous s c s1 c1 st, unfolded e Inr r, simplified]
    define arts1 where "arts1 = arts @ (case st of None \<Rightarrow> [] | Some st \<Rightarrow> [cb_artifact (is_bundle st)])"
    have body: "(if is_terminal (state c1) then terminal_result R s1 c1 arts1
          else case settled st of
            None \<Rightarrow> (s1, Inl (CompositionBreach ''assertion''))
          | Some z \<Rightarrow>
              (case lift_invalid (assess (se_receipt z) (se_verification z)) of
                 Inl e \<Rightarrow> (s1, Inl e)
               | Inr ob \<Rightarrow>
                   if objective_status ob = SATISFIED \<or> n = 2
                   then conclude R s1 (closing R n ri c1 z (objective_status ob)) arts1
                   else (case recovery_of R rq c1 z ob of
                       Inl e \<Rightarrow> (s1, Inl e)
                     | Inr (c2, ri2) \<Rightarrow>
                         if is_terminal (state c2) then terminal_result R s1 c2 arts1
                         else (case is_authority (se_state z) of
                             None \<Rightarrow> conclude R s1 (failed R c2 UNRECOVERABLE) arts1
                           | Some a \<Rightarrow> serial_loop R rq ns s1 c2 arts1 (Some a) ri2)))) = (s', out)"
      using Cons.prems(4) unfolding serial_loop.simps(2) e Inr r prod.case sum.case Let_def arts1_def by assumption
    consider (terminal) "is_terminal (state c1)" | (raised) er where "out = Inl er" "s' = s1"
      | (reached) zz ob where "settled st = Some zz" "assess (se_receipt zz) (se_verification zz) = Inr ob" "\<not> is_terminal (state c1)"
      using body by (cases "is_terminal (state c1)"; cases "settled st") (auto simp: lift_invalid_def split: sum.splits)
    then show ?thesis
    proof cases
      case terminal
      with body have "terminal_result R s1 c1 arts1 = (s', out)" by simp
      from ended_effect [OF g this] nc show ?thesis by simp
    next
      case raised
      then show ?thesis using raised_effect [OF g] by simp
    next
      case reached
      have body2: "(if objective_status ob = SATISFIED \<or> n = 2
                   then conclude R s1 (closing R n ri c1 zz (objective_status ob)) arts1
                   else (case recovery_of R rq c1 zz ob of
                       Inl e \<Rightarrow> (s1, Inl e)
                     | Inr (c2, ri2) \<Rightarrow>
                         if is_terminal (state c2) then terminal_result R s1 c2 arts1
                         else (case is_authority (se_state zz) of
                             None \<Rightarrow> conclude R s1 (failed R c2 UNRECOVERABLE) arts1
                           | Some a \<Rightarrow> serial_loop R rq ns s1 c2 arts1 (Some a) ri2))) = (s', out)"
        using body reached by (simp add: lift_invalid_def)
      show ?thesis
      proof (cases "objective_status ob = SATISFIED \<or> n = 2")
        case True
        have "success_stands R rq (tree s1) \<lparr>xr_context = c2, xr_artifacts = arts1\<rparr>"
          if "closing R n ri c1 zz (objective_status ob) = Inr c2" "state c2 = COMPLETED" for c2
          using closing_state [OF that(1)] that(2) assess_satisfied [OF reached(2)] z [OF _ reached(1)] Inr r n
          unfolding success_stands_def by auto
        moreover have "conclude R s1 (closing R n ri c1 zz (objective_status ob)) arts1 = (s', out)" using body2 True by simp
        ultimately show ?thesis using concluded_effect [OF g] by blast
      next
        case go: False
        show ?thesis
        proof (cases "recovery_of R rq c1 zz ob")
          case (Inl er)
          then show ?thesis using body2 go raised_effect [OF g] by auto
        next
          case rec: (Inr x)
          obtain c2 ri2 where x: "x = (c2, ri2)" by (cases x)
          note nc2 = recovery_state [OF rec [unfolded x]]
          have body3: "(if is_terminal (state c2) then terminal_result R s1 c2 arts1
                         else (case is_authority (se_state zz) of
                             None \<Rightarrow> conclude R s1 (failed R c2 UNRECOVERABLE) arts1
                           | Some a \<Rightarrow> serial_loop R rq ns s1 c2 arts1 (Some a) ri2)) = (s', out)"
            using body2 go rec x by simp
          consider (t) "terminal_result R s1 c2 arts1 = (s', out)"
            | (f) "conclude R s1 (failed R c2 UNRECOVERABLE) arts1 = (s', out)"
            | (l) a where "serial_loop R rq ns s1 c2 arts1 (Some a) ri2 = (s', out)"
            using body3 by (auto split: if_splits option.splits)
          then show ?thesis
          proof cases
            case t
            from ended_effect [OF g t] nc2 show ?thesis by simp
          next
            case f
            from concluded_effect [OF g f] failed_state show ?thesis by fastforce
          next
            case l
            from Cons.IH [OF _ ro g l] Cons.prems(1) show ?thesis by simp
          qed
        qed
      qed
    qed
  qed
qed

lemma run_has_effect:
  assumes "root_ok (tree s) (run_root R)" and "temps_outside (wf_env (rt_workflow R)) (tree s) (decision_targets R rq)"
    and "execute_run R rq s = (s', out)"
  shows "run_effect R rq (tree s) (tree s') out"
proof -
  note g = governed_refl [of R rq "tree s"]
  from assms(3) consider (r) e where "out = Inl e" "s' = s" | (l) c where "serial_loop R rq [1, 2] s c [] None None = (s', out)"
    by (auto simp: execute_run_def split: if_splits sum.splits)
  then show ?thesis
  proof cases
    case r
    then show ?thesis using raised_effect [OF g] by simp
  next
    case l
    from loop_effect [OF _ assms(1) g assms(2) l] show ?thesis by simp
  qed
qed

end
