(* ===== verification/Runtime_Properties.thy ===== *)
theory Runtime_Properties
  imports RuntimeEffects Verification_Properties
begin

text \<open>
  The properties of the governed decision and of the serial runtime, and a concrete execution: one
  iteration that replaces the text of a file and verifies it.
\<close>

section \<open>A concrete execution\<close>

definition run_hash :: "bytes \<Rightarrow> string" where
  "run_hash b = (if b = utf8_encode ''old'' then replicate 64 (CHR ''0'') else replicate 64 (CHR ''1''))"

definition tally :: "nat \<Rightarrow> string" where
  "tally n = replicate n (CHR ''i'')"

definition demo_wf :: workflow_env where
  "demo_wf = \<lparr>wf_env = demo_env\<lparr>sha256 := run_hash\<rparr>, wf_policy = demo_cfg, wf_root = [''ws''],
     wf_digest = (\<lambda>d. ''d'' @ mi_id (hd (ed_intents d)))\<rparr>"

definition demo_run_policy :: intent_policy where
  "demo_run_policy = \<lparr>ip_capability = code_points ''m'', ip_operations = [code_points ''modify_file''], ip_max_content_bytes = 10,
     ip_preservation = [], ip_schema = code_points ''1.0''\<rparr>"

definition demo_run_request :: runtime_request where
  "demo_run_request = \<lparr>rr_goal = code_points ''g'', rr_workspace = [''ws''], rr_repository = [''ws''],
     rr_capabilities = [code_points ''m''], rr_intent = demo_run_policy, rr_constraints = [], rr_recovery_rules = [],
     rr_execution = code_points ''e'', rr_run = code_points ''r'',
     rr_budget = \<lparr>max_iterations = 2, max_mutations = 2, max_verifications = 2, iterations_used = 0, mutations_used = 0,
       verifications_used = 0\<rparr>,
     rr_gateway = \<lparr>gw_max_attempts = 1, gw_timeout_ms = 1000, gw_max_total_tokens = 100, gw_max_estimated_cost = NInt 1,
       gw_max_schema_repair_attempts = 0, gw_allow_fallback = False, gw_redact = True\<rparr>, rr_contract = code_points ''1.0''\<rparr>"

definition demo_intent :: "nat \<Rightarrow> mutation_intent" where
  "demo_intent n = \<lparr>mi_id = ''i'' @ tally n, mi_step = ''s'', mi_target = ''a.txt'', mi_operation = ''modify_file'',
     mi_content = ''new'', mi_rationale = ''why'', mi_grounding = [''f''], mi_dependencies = [], mi_preservation = [],
     mi_schema = ''1.0''\<rparr>"

definition demo_decision :: "nat \<Rightarrow> engineering_decision" where
  "demo_decision n = \<lparr>ed_goal = ''g'', ed_assumptions = [], ed_approach = ''a'',
     ed_plan = [\<lparr>st_id = ''s'', st_title = ''t'', st_capability = ''m'', st_dependencies = [], st_parameters = PProxy [],
       st_evidence = []\<rparr>],
     ed_capabilities = [''m''], ed_risks = [], ed_confidence = 1, ed_grounding = [''f''], ed_intents = [demo_intent n],
     ed_schema = ''1.0''\<rparr>"

definition demo_bundle :: "nat \<Rightarrow> context_bundle" where
  "demo_bundle n = \<lparr>cb_context = \<lparr>ec_repository = ''ws'', ec_summary = ''x'', ec_findings = [], ec_symbols = [], ec_constraints = [],
       ec_capabilities = [''m''], ec_evidence = [], ec_provenance = [(''f'', ''f'')],
       ec_truncation = [(''snapshot_fingerprint'', PStr ''s1''), (''context_fingerprint'', PStr (''c'' @ tally n))]\<rparr>,
     cb_artifact = \<lparr>ia_id = ''art'' @ tally n, ia_snapshot = ''s1'', ia_context = ''c'' @ tally n, ia_policy = ''1''\<rparr>,
     cb_trusted = \<lparr>ts_root = [''ws''], ts_snapshot = ''s1'', ts_context = ''c'' @ tally n, ts_policy = ''1'',
       ts_excluded = (\<lambda>p. False)\<rparr>\<rparr>"

definition demo_ask :: "nat \<Rightarrow> engineering_context \<Rightarrow> decision_request" where
  "demo_ask n c = \<lparr>dr_goal = ''g'', dr_context = c, dr_capabilities = [''m''], dr_structured = True,
     dr_policy = rr_gateway demo_run_request, dr_intents = Some demo_run_policy, dr_schema = ''1.0'',
     dr_request_id = ''q'' @ tally n\<rparr>"

definition demo_answer :: "nat \<Rightarrow> decision_result" where
  "demo_answer n = \<lparr>gr_success = True, gr_decision = Some (demo_decision n), gr_error = None, gr_violation = None\<rparr>"

definition demo_rt :: runtime_env where
  "demo_rt = \<lparr>rt_clock = (\<lambda>n. 0), rt_assemble = (\<lambda>n fs a. Some (demo_bundle n)), rt_build = (\<lambda>n r c. Some (demo_ask n c)),
     rt_gateway = (\<lambda>n q. Inr (demo_answer n)), rt_workflow = demo_wf, rt_faults = (\<lambda>n. no_faults),
     rt_specify = (\<lambda>n p. case postcondition_specification 64 p of Inl e \<Rightarrow> None | Inr v \<Rightarrow> Some v), rt_sha = run_hash,
     rt_root = [''ws''], rt_request_id = (\<lambda>n. ''vq'' @ tally n), rt_verification_id = (\<lambda>n. ''v'' @ tally n),
     rt_bus_raises = (\<lambda>e. False), rt_engine = (\<lambda>c. Inl BusRaised), rt_memory_ids = (\<lambda>n. ''id'' @ tally n),
     rt_plan = (\<lambda>r m. None), rt_audit = None\<rparr>"

definition demo_end :: mutation_state where
  "demo_end = fst (execute_run demo_rt demo_run_request demo_state)"

definition demo_out :: "runtime_exn + exec_result" where
  "demo_out = snd (execute_run demo_rt demo_run_request demo_state)"

lemma demo_run: "execute_run demo_rt demo_run_request demo_state = (demo_end, demo_out)"
  by (simp add: demo_end_def demo_out_def)

text \<open>What the evaluation shows of it: it succeeds, and its ledger can be written down as it is.\<close>

definition plain_ledger :: "exec_context \<Rightarrow> bool" where
  "plain_ledger c \<longleftrightarrow> history c \<noteq> [] \<and> list_all (\<lambda>r. occurred_at r = 0) (history c) \<and>
     list_all (\<lambda>e. digest e \<in> {[], replicate 64 (CHR ''1'')} \<and> \<not> blank (reference_id e)) (evidence c)"

lemma demo_completes: "case demo_out of Inl e \<Rightarrow> False | Inr x \<Rightarrow> exec_succeeded x \<and> plain_ledger (xr_context x)"
  unfolding demo_out_def by code_simp

lemma demo_result: "\<exists>x. demo_out = Inr x \<and> exec_succeeded x \<and> plain_ledger (xr_context x)"
proof (cases demo_out)
  case (Inl e)
  from demo_completes [unfolded this sum.case] show ?thesis by (rule FalseE)
next
  case (Inr x)
  from demo_completes [unfolded this sum.case] Inr show ?thesis by blast
qed

lemma demo_root: "root_ok (tree demo_state) (run_root demo_rt)"
  by (simp add: demo_state_def demo_rt_def demo_wf_def demo_root_ok)

lemma demo_decided: "decided demo_rt demo_run_request q i \<Longrightarrow> intent_target demo_rt i = [''ws'', ''a.txt'']"
  by (auto simp: decided_def demo_rt_def demo_answer_def demo_decision_def intent_target_def demo_wf_def demo_intent_def path_parts_def)

lemma demo_temp_name: "temp_name (wf_env (rt_workflow demo_rt)) fs p = ''.eag-mutation-x''"
  by (simp add: demo_rt_def demo_wf_def demo_env_def)

lemma demo_temps_outside: "temps_outside (wf_env (rt_workflow demo_rt)) (tree demo_state) (decision_targets demo_rt demo_run_request)"
  unfolding temps_outside_def
proof (intro allI impI)
  fix fs t
  assume same: "\<forall>q. q \<notin> decision_targets demo_rt demo_run_request \<longrightarrow> fs q = tree demo_state q"
    and "t \<in> decision_targets demo_rt demo_run_request"
  then have t: "t = [''ws'', ''a.txt'']" using demo_decided by (auto simp: decision_targets_def)
  have "[''ws'', ''.eag-mutation-x''] \<notin> decision_targets demo_rt demo_run_request"
    using demo_decided by (auto simp: decision_targets_def)
  then have "fs [''ws'', ''.eag-mutation-x''] = None" using same by (simp add: demo_state_def demo_fs_def)
  then show "temp_free (wf_env (rt_workflow demo_rt)) fs t" using t by (simp add: temp_free_def demo_temp_name)
qed

lemma demo_request_ok: "make_runtime_request fs demo_run_request = Inr demo_run_request"
  by (simp add: make_runtime_request_def guarded_Inr_iff demo_run_request_def demo_run_policy_def blank_ustring_def
      code_points_def unicode_space_def)

section \<open>Decisions\<close>

text \<open>C28. The policy of the gateway admits a decision exactly when it is admissible: the schema is the accepted one, the
  plan lists distinct steps of allowed capabilities, each after the steps it depends on, and uses exactly the capabilities
  the decision requires, no parameter has a forbidden key where the check looks, every citation is known and the decision
  of a repository-aware request has one, and the decision carries exactly the one intent the request asks for, within its
  bounds, or none. The dependencies of an admitted plan have no cycle.\<close>

theorem decision_policy_decides:
  "(validate_decision_policy d q = Inr () \<longleftrightarrow> admissible d q) \<and>
   (validate_decision_policy d q = Inr () \<longrightarrow> acyclic (depends (ed_plan d)))"
  using policy_decides [of d q] admitted_acyclic [of "ed_plan d"] by (auto simp: admissible_def)

theorem decision_policy_decides_witness:
  "(validate_decision_policy (demo_decision 1) (demo_ask 1 (cb_context (demo_bundle 1))) = Inr () \<longleftrightarrow>
      admissible (demo_decision 1) (demo_ask 1 (cb_context (demo_bundle 1)))) \<and>
   validate_decision_policy (demo_decision 1) (demo_ask 1 (cb_context (demo_bundle 1))) = Inr () \<and>
   acyclic (depends (ed_plan (demo_decision 1)))"
proof -
  have v: "validate_decision_policy (demo_decision 1) (demo_ask 1 (cb_context (demo_bundle 1))) = Inr ()" by code_simp
  from decision_policy_decides [of "demo_decision 1" "demo_ask 1 (cb_context (demo_bundle 1))"] v show ?thesis by blast
qed

section \<open>Executions\<close>

text \<open>C29. The account of an execution that returns a result, for an accepted request with an accepted budget: its context
  validates, is terminal, belongs to this execution and run, and has been through one or two iterations, each with its
  artifact; every mutation spent its own authorization, no authorization is used twice, and there are at most as many
  mutations as iterations.\<close>

theorem run_accounts:
  assumes "make_runtime_request fs rq = Inr rq" and "make_budget (rr_budget rq) = Inr (rr_budget rq)"
    and "execute_run R rq s = (s', Inr x)"
  shows "\<exists>c. c = xr_context x \<and> valid_context c \<and> is_terminal (state c) \<and> iteration c \<in> {1, 2} \<and>
    int (length (xr_artifacts x)) = iteration c \<and> execution_id c = latin_text (rr_execution rq) \<and>
    exec_context.run_id c = latin_text (rr_run rq) \<and> distinct (auth_refs c) \<and>
    int (length (auth_refs c)) = mutations_used (budget c) \<and> mutations_used (budget c) \<le> iteration c"
proof -
  have b: "budget_ok (rr_budget rq)" using assms(2) by (simp add: make_budget_Inr_iff)
  have "max_mutations (rr_budget rq) = 2" "max_verifications (rr_budget rq) = 2"
    using assms(1) by (auto simp: make_runtime_request_def guarded_Inr_iff first_error_None_iff simp del: first_error.simps)
  from run_accounted [OF assms(3) b this] obtain c0 where c0: "initial_context rq = Inr c0" "accounted c0 x" by blast
  with initial_context_ok [OF c0(1) b] show ?thesis by (auto simp: accounted_def Let_def)
qed

theorem run_accounts_witness:
  "\<exists>x. demo_out = Inr x \<and> exec_succeeded x \<and> iteration (xr_context x) \<in> {1, 2} \<and> distinct (auth_refs (xr_context x)) \<and>
    int (length (auth_refs (xr_context x))) = mutations_used (budget (xr_context x))"
proof -
  from demo_result obtain x where x: "demo_out = Inr x" "exec_succeeded x" by blast
  have b: "make_budget (rr_budget demo_run_request) = Inr (rr_budget demo_run_request)" by code_simp
  from run_accounts [OF demo_request_ok b demo_run [unfolded x(1)]] x show ?thesis by blast
qed



text \<open>C31. A completed execution is a real success: it stops for the reason of success, and the iteration it ends on wrote the
  content of a decision made in it to its target, which is still there; the receipt of that write is of a completed and
  verified mutation; and the verification that passed used the specification the factory built for the proposal of that
  decision, on its target, and the specification holds of the tree.\<close>

theorem success_is_verified:
  assumes "root_ok (tree s) (wf_root (rt_workflow R))"
    and "temps_outside (wf_env (rt_workflow R)) (tree s) (decision_targets R rq)" and "execute_run R rq s = (s', Inr x)"
    and "exec_succeeded x"
  shows "stop_reason (xr_context x) = Some SUCCESS \<and> (\<exists>fs n q i p v. recorded R fs (tree s') (Inr x) \<and> decided R rq q i \<and>
    fs (intent_target R i) = Some (File True (utf8_encode (mi_content i))) \<and>
    target_path p = mi_target i \<and> content p = mi_content i \<and> n \<in> {1, 2} \<and> rt_specify R n p = Some v \<and>
    vs_target_path v = mi_target i \<and> spec_holds (rt_sha R) fs (rt_root R @ path_parts (mi_target i)) v)"
proof -
  from run_has_effect [OF assms(1-3)] assms(4) obtain fs where "recorded R fs (tree s') (Inr x)" and "success_stands R rq fs x"
    unfolding run_effect_def by blast
  then show ?thesis unfolding success_stands_def truly_settled_def by blast
qed

theorem success_is_verified_witness:
  "\<exists>x. demo_out = Inr x \<and> stop_reason (xr_context x) = Some SUCCESS \<and>
    tree demo_end [''ws'', ''a.txt''] = Some (File True (utf8_encode ''new''))"
proof -
  from demo_result obtain x where x: "demo_out = Inr x" "exec_succeeded x" by blast
  from success_is_verified [OF demo_root demo_temps_outside demo_run [unfolded x(1)] x(2)]
  obtain fs q i where s: "stop_reason (xr_context x) = Some SUCCESS" "recorded demo_rt fs (tree demo_end) (Inr x)"
    "decided demo_rt demo_run_request q i" "fs (intent_target demo_rt i) = Some (File True (utf8_encode (mi_content i)))" by blast
  have "mi_content i = ''new''" using s(3) by (auto simp: decided_def demo_rt_def demo_answer_def demo_decision_def demo_intent_def)
  moreover have "fs = tree demo_end" using s(2) by (auto simp: recorded_def demo_rt_def)
  ultimately show ?thesis using s x(1) demo_decided by fastforce
qed

section \<open>What modelling showed\<close>

text \<open>When the context cannot be assembled, the execution ends in an exception and not in a failed result: the iteration is
  counted, but its artifact is missing, which the result refuses.\<close>

lemma assembly_failure_raises:
  "snd (execute_run (demo_rt\<lparr>rt_assemble := \<lambda>n fs a. None\<rparr>) demo_run_request demo_state) =
    Inl (RuntimeInvalid (ValueError ''iteration artifacts must match context iteration''))"
  by code_simp

text \<open>A stale authority is not a refusal of the lifecycle: the exception leaves the execution without a result.\<close>

lemma stale_authority_raises:
  assumes "checked_authority previous st p a = Inl e"
  shows "before_mutating (runtime_observer R previous) p a st = (st, Some (RuntimeInvalid e))"
  using assms by (simp add: runtime_observer_def on_mutating_def lift_invalid_def)

end
