(* ===== verification/Invocation.thy ===== *)
theory Invocation
  imports Session RuntimeEffects
begin

text \<open>
  The controlled invocation of a runtime: \<open>governed_invocation/models.py\<close> and \<open>invoker.py\<close>, on the session gate of
  theory \<open>SessionGate\<close>. The executor is supplied; the serial runtime of theory \<open>GovernedRuntime\<close> is one.

  The receipt, the requests, the observer and the availability of an invocation are the arguments of the
  gate's call, whose approval and readiness evidence are not looked at here.
\<close>

section \<open>Models\<close>

datatype invocation_disposition = RUNTIME_INVOKED | SESSION_REFUSED | RUNTIME_FAILED_AFTER_CONSUMPTION

datatype invocation_reason =
    MISSING_SESSION | EXECUTION_MISMATCH | RUN_MISMATCH | RUNTIME_BINDING_MISMATCH | INVALID_RUNTIME_EXECUTOR

text \<open>What a call of the executor gives: an exception with the name of its type, or an object, which may be a result.\<close>

datatype returned = ReturnedResult exec_result | ReturnedOther

type_synonym executor = "runtime_request \<Rightarrow> mutation_state \<Rightarrow> mutation_state \<times> (string + returned)"

record executor_binding =
  eb_runtime :: ustring
  eb_execute :: executor

definition make_binding :: "executor_binding \<Rightarrow> governed_exn + executor_binding" where
  "make_binding b = guarded [(blank_ustring (eb_runtime b), ContractError ''runtime_id cannot be empty'')] b"

record ('ca, 'ma) invocation_request =
  iv_session :: "controlled_session option"
  iv_call :: "('ca, 'ma) session_call"
  iv_binding :: executor_binding

text \<open>A refusal by the gate carries its reason, or the text for none.\<close>

datatype gate_refusal = GateReason session_reason | NoGateReason

record invocation_result =
  in_disposition :: invocation_disposition
  in_session :: "ustring option"
  in_execution :: "ustring option"
  in_run :: "ustring option"
  in_result :: "returned option"
  in_refusal :: "invocation_reason option"
  in_gate_refusal :: "gate_refusal option"
  in_failure :: "string option"

definition make_invocation_result :: "invocation_result \<Rightarrow> governed_exn + invocation_result" where
  "make_invocation_result r =
     (case in_disposition r of
        RUNTIME_INVOKED \<Rightarrow> guarded
          [(case in_result r of Some (ReturnedResult x) \<Rightarrow> False | _ \<Rightarrow> True, ContractError ''invoked result requires a GovernedExecutionResult''),
           (in_refusal r \<noteq> None \<or> in_gate_refusal r \<noteq> None, ContractError ''invoked result cannot carry refusal data'')] r
      | SESSION_REFUSED \<Rightarrow> guarded
          [(in_refusal r = None \<and> in_gate_refusal r = None, ContractError ''session refusal requires a typed reason''),
           (in_result r \<noteq> None, ContractError ''session refusal cannot expose a runtime result'')] r
      | RUNTIME_FAILED_AFTER_CONSUMPTION \<Rightarrow> guarded
          [(in_failure r = None \<or> in_failure r = Some [], ContractError ''runtime failure requires a failure_type''),
           (in_result r \<noteq> None, ContractError ''runtime failure cannot expose a runtime result''),
           (in_refusal r \<noteq> None \<or> in_gate_refusal r \<noteq> None, ContractError ''runtime failure cannot carry refusal data'')] r)"

section \<open>The invoker\<close>

definition pre_dispatch_rejection :: "('ca, 'ma) invocation_request \<Rightarrow> invocation_reason option" where
  "pre_dispatch_rejection iv =
     (case iv_session iv of
        None \<Rightarrow> Some MISSING_SESSION
      | Some s \<Rightarrow>
          if cs_execution_id s \<noteq> rr_execution (sc_runtime (iv_call iv)) then Some EXECUTION_MISMATCH
          else if cs_run_id s \<noteq> rr_run (sc_runtime (iv_call iv)) then Some RUN_MISMATCH
          else if map_option runtime_id (sc_availability (iv_call iv)) \<noteq> Some (cs_runtime_id s) then Some RUNTIME_BINDING_MISMATCH
          else if eb_runtime (iv_binding iv) \<noteq> cs_runtime_id s then Some RUNTIME_BINDING_MISMATCH
          else None)"

definition invocation_refused :: "('ca, 'ma) invocation_request \<Rightarrow> invocation_reason option \<Rightarrow> gate_refusal option
    \<Rightarrow> governed_exn + invocation_result" where
  "invocation_refused iv w g = make_invocation_result
     \<lparr>in_disposition = SESSION_REFUSED, in_session = map_option session_id (iv_session iv),
      in_execution = Some (case iv_session iv of None \<Rightarrow> rr_execution (sc_runtime (iv_call iv)) | Some s \<Rightarrow> cs_execution_id s),
      in_run = Some (case iv_session iv of None \<Rightarrow> rr_run (sc_runtime (iv_call iv)) | Some s \<Rightarrow> cs_run_id s),
      in_result = None, in_refusal = w, in_gate_refusal = g, in_failure = None\<rparr>"

text \<open>The result of the dispatch.\<close>

definition invocation_outcome :: "controlled_session \<Rightarrow> string + returned \<Rightarrow> governed_exn + invocation_result" where
  "invocation_outcome s m =
     (let result = (\<lambda>d x f. make_invocation_result
        \<lparr>in_disposition = d, in_session = Some (session_id s), in_execution = Some (cs_execution_id s), in_run = Some (cs_run_id s),
         in_result = x, in_refusal = None, in_gate_refusal = None, in_failure = f\<rparr>)
      in case m of
        Inl failure \<Rightarrow> result RUNTIME_FAILED_AFTER_CONSUMPTION None (Some failure)
      | Inr x \<Rightarrow> result RUNTIME_INVOKED (Some x) None)"

definition invoke :: "gate_env \<Rightarrow> gate_faults \<Rightarrow> ('ca, 'ma) invocation_request \<Rightarrow> mutation_state
    \<Rightarrow> mutation_state \<times> (governed_exn + invocation_result)" where
  "invoke E fl iv st =
     (case pre_dispatch_rejection iv of
        Some w \<Rightarrow> (st, invocation_refused iv (Some w) None)
      | None \<Rightarrow>
          (case iv_session iv of
             None \<Rightarrow> (st, Inl AssertionFailure)
           | Some s \<Rightarrow>
               (case consume_for_runtime_start E fl (tree st) s (iv_call iv) of
                  (fs, Inl e) \<Rightarrow> (st\<lparr>tree := fs\<rparr>, Inl e)
                | (fs, Inr d) \<Rightarrow>
                    if sd_disposition d \<noteq> RUNTIME_START_ALLOWED
                    then (st\<lparr>tree := fs\<rparr>, invocation_refused iv None
                      (Some (case sd_reason d of Some w \<Rightarrow> GateReason w | None \<Rightarrow> NoGateReason)))
                    else case eb_execute (iv_binding iv) (sc_runtime (iv_call iv)) (st\<lparr>tree := fs\<rparr>) of
                      (st', m) \<Rightarrow> (st', invocation_outcome s m))))"

text \<open>The serial runtime as an executor; \<open>name\<close> gives the name of the type of an exception.\<close>

definition runtime_executor :: "runtime_env \<Rightarrow> (runtime_exn \<Rightarrow> string) \<Rightarrow> executor" where
  "runtime_executor R name rq st =
     (case execute_run R rq st of (st, Inl e) \<Rightarrow> (st, Inl (name e)) | (st, Inr x) \<Rightarrow> (st, Inr (ReturnedResult x)))"

section \<open>When the executor is called\<close>

text \<open>The part of an invocation before the dispatch: what it leaves in the tree, and whether it dispatches.\<close>

definition invocation_attempt :: "gate_env \<Rightarrow> fs \<Rightarrow> ('ca, 'ma) invocation_request \<Rightarrow> gate_faults \<Rightarrow> fs \<times> bool" where
  "invocation_attempt E fs iv fl =
     (case (pre_dispatch_rejection iv, iv_session iv) of
        (None, Some s) \<Rightarrow>
          (case consume_for_runtime_start E fl fs s (iv_call iv) of
             (fs', Inr d) \<Rightarrow> (fs', sd_disposition d = RUNTIME_START_ALLOWED)
           | (fs', Inl _) \<Rightarrow> (fs', False))
      | _ \<Rightarrow> (fs, False))"

definition invocation_slot :: "gate_env \<Rightarrow> ('ca, 'ma) invocation_request \<Rightarrow> string option" where
  "invocation_slot E iv = Option.bind (iv_session iv) (\<lambda>s. record_slot (ge_sha E) (consumed_record_for (ge_sha E) s))"

lemma dispatched:
  assumes "snd (invocation_attempt E fs iv fl)"
  obtains s d where "iv_session iv = Some s" and "pre_dispatch_rejection iv = None"
    and "consume_for_runtime_start E fl fs s (iv_call iv) = (fst (invocation_attempt E fs iv fl), Inr d)"
    and "sd_disposition d = RUNTIME_START_ALLOWED"
  using assms by (auto simp: invocation_attempt_def split: option.splits prod.splits sum.splits)

lemma invocation_keeps: "keeps_tree fs (fst (invocation_attempt E fs iv fl))"
proof -
  have "keeps_tree fs (fst (case consume_for_runtime_start E fl fs s (iv_call iv) of
             (fs', Inr d) \<Rightarrow> (fs', sd_disposition d = RUNTIME_START_ALLOWED) | (fs', Inl _) \<Rightarrow> (fs', False)))" for s
    using consume_keeps [of fs E fl s "iv_call iv"] by (auto split: prod.splits sum.splits)
  then show ?thesis by (auto simp: invocation_attempt_def split: option.splits)
qed

lemma dispatch_claims:
  assumes "snd (invocation_attempt E fs iv fl)"
  shows "\<exists>fs1 r io. keeps_tree fs fs1 \<and> invocation_slot E iv = record_slot (ge_sha E) r \<and>
    ledger_attempt (ge_sha E) (ge_ledger E) fs1 r io = (fst (invocation_attempt E fs iv fl), True)"
proof -
  from dispatched [OF assms] obtain s d where s: "iv_session iv = Some s"
    "consume_for_runtime_start E fl fs s (iv_call iv) = (fst (invocation_attempt E fs iv fl), Inr d)"
    "sd_disposition d = RUNTIME_START_ALLOWED" by metis
  from started_session [OF s(2,3)] obtain fs1 where f: "gate_read E (gf_first fl) fs (issued_record_for (ge_sha E) s) =
      (fs1, Inr (Inr (Some (issued_record_for (ge_sha E) s))))"
    "ledger_attempt (ge_sha E) (ge_ledger E) fs1 (consumed_record_for (ge_sha E) s) (gf_second fl) =
      (fst (invocation_attempt E fs iv fl), True)" by metis
  have "keeps_tree fs fs1" using gate_read_keeps [of fs E "gf_first fl" "issued_record_for (ge_sha E) s"] f(1) by simp
  then show ?thesis using f(2) s(1) by (auto simp: invocation_slot_def)
qed

interpretation dispatches: once_store "invocation_attempt E" "invocation_slot E" "slot_taken (ge_ledger E)" for E :: gate_env
proof
  fix fs fl and iv :: "('a, 'b) invocation_request"
  assume "snd (invocation_attempt E fs iv fl)"
  then obtain fs1 r io where g: "keeps_tree fs fs1" "invocation_slot E iv = record_slot (ge_sha E) r"
      "ledger_attempt (ge_sha E) (ge_ledger E) fs1 r io = (fst (invocation_attempt E fs iv fl), True)"
    using dispatch_claims by blast
  then have "\<not> slot_taken (ge_ledger E) fs1 (invocation_slot E iv)"
      "slot_taken (ge_ledger E) (fst (invocation_attempt E fs iv fl)) (invocation_slot E iv)"
    using once.success_free [of "ge_sha E" "ge_ledger E" fs1 r io] once.success_takes [of "ge_sha E" "ge_ledger E" fs1 r io] by simp_all
  then show "\<not> slot_taken (ge_ledger E) fs (invocation_slot E iv)"
    "slot_taken (ge_ledger E) (fst (invocation_attempt E fs iv fl)) (invocation_slot E iv)"
    using keeps_taken [OF g(1)] by metis+
next
  fix fs fl x and iv :: "('a, 'b) invocation_request"
  assume "slot_taken (ge_ledger E) fs x"
  then show "slot_taken (ge_ledger E) (fst (invocation_attempt E fs iv fl)) x"
    using keeps_taken [OF invocation_keeps] by metis
qed

text \<open>A successful claim sees its own session only once: two requests for one session share the slot.\<close>

lemma invocation_slot_of: "map_option session_id (iv_session iv) = map_option session_id (iv_session iv') \<Longrightarrow>
    invocation_slot E iv = invocation_slot E iv'"
  by (cases "iv_session iv"; cases "iv_session iv'") (auto simp: invocation_slot_def consumed_record_for_def record_slot_def)

lemma invoke_eq:
  "invoke E fl iv st =
    (if snd (invocation_attempt E (tree st) iv fl)
     then (case eb_execute (iv_binding iv) (sc_runtime (iv_call iv)) (st\<lparr>tree := fst (invocation_attempt E (tree st) iv fl)\<rparr>) of
             (st', m) \<Rightarrow> (st', invocation_outcome (the (iv_session iv)) m))
     else (st\<lparr>tree := fst (invocation_attempt E (tree st) iv fl)\<rparr>, snd (invoke E fl iv st)))"
  by (auto simp: invoke_def invocation_attempt_def split: option.splits prod.splits sum.splits)

lemma successes_attempted: "r \<in> set (successes attempt s es) \<Longrightarrow> \<exists>s io. snd (attempt s r io)"
proof (induction es arbitrary: s)
  case (Cons e es)
  then show ?case by (cases e) (auto split: if_splits)
qed simp

lemma invoke_fst:
  "fst (invoke E fl iv st) =
    (if snd (invocation_attempt E (tree st) iv fl)
     then fst (eb_execute (iv_binding iv) (sc_runtime (iv_call iv)) (st\<lparr>tree := fst (invocation_attempt E (tree st) iv fl)\<rparr>))
     else st\<lparr>tree := fst (invocation_attempt E (tree st) iv fl)\<rparr>)"
  by (subst invoke_eq) (simp split: prod.splits)

end
