(* ===== verification/Invocation_Properties.thy ===== *)
theory Invocation_Properties
  imports Invocation Session_Properties
begin

text \<open>
  The property of the controlled invoker, over the concrete session of theory \<open>Session_Properties\<close>.
\<close>

section \<open>A concrete invocation\<close>

definition demo_binding :: executor_binding where
  "demo_binding = \<lparr>eb_runtime = cs_runtime_id demo_session, eb_execute = (\<lambda>rq st. (st, Inl ''RuntimeError''))\<rparr>"

definition demo_invocation :: "(unit, unit) invocation_request" where
  "demo_invocation = \<lparr>iv_session = Some demo_session, iv_call = demo_call, iv_binding = demo_binding\<rparr>"

lemma demo_no_rejection: "pre_dispatch_rejection demo_invocation = None"
  by (simp add: pre_dispatch_rejection_def demo_invocation_def demo_binding_def demo_session_def demo_call_def demo_available_def
      demo_runtime_def)

lemma demo_dispatch:
  "\<exists>fs. snd (invocation_attempt demo_env fs demo_invocation no_gate_faults)"
proof -
  obtain fs1 m where c: "create_session demo_env demo_gates no_gate_faults demo_tree demo_call = (fs1, Inr m)"
      "sd_disposition (sa_decision m) = SESSION_CREATED" "sa_session m = Some demo_session" and ok: "control_root_ok ledger_lock fs1 [''k'']"
    and free: "ledger_view [''k''] fs1 (''session_consumed-'' @ demo_hash [] @ ''.json'') = Free"
    using demo_created by auto
  have h: "hex_hash (ge_sha demo_env)" using demo_hex_hash by (simp add: demo_env_def)
  have d: "real_dir demo_tree (ge_ledger demo_env)" by (simp add: real_dir_def demo_tree_def demo_dirs_def demo_env_def)
  have u: "\<not> slot_taken (ge_ledger demo_env) fs1 (record_slot (ge_sha demo_env) (consumed_record_for (ge_sha demo_env) demo_session))"
    using free taken_iff_view [OF ok_link_free [OF ok]] demo_slot [of SESSION_CONSUMED]
    by (simp add: demo_env_def consumed_record_for_def demo_session_def)
  from created_session_starts_once [OF h demo_gates_keep d c keeps_refl u] obtain fs3 d where
    "consume_for_runtime_start demo_env no_gate_faults fs1 demo_session demo_call = (fs3, Inr d)" "sd_disposition d = RUNTIME_START_ALLOWED"
    by fastforce
  then have "snd (invocation_attempt demo_env fs1 demo_invocation no_gate_faults)"
    using demo_no_rejection by (simp add: invocation_attempt_def demo_invocation_def)
  then show ?thesis by blast
qed

section \<open>Invocation\<close>

text \<open>C32. Over any sequence of invocations, by anybody and under any failures, with others adding to the ledger in
  between, at most one dispatches for a session; an invocation that does not dispatch never calls the executor and only
  adds to the tree; and one that does has a session whose execution, run and runtime are those of the request, the
  availability and the binding, and hands over to the executor with that request in the tree the claim left.\<close>

theorem invocation_dispatches_once:
  assumes "fair_run (slot_taken (ge_ledger E)) (invocation_attempt E) fs es"
  shows "distinct (map (\<lambda>iv. map_option session_id (iv_session iv)) (successes (invocation_attempt E) fs es)) \<and>
    (\<forall>iv \<in> set (successes (invocation_attempt E) fs es). \<exists>s av. iv_session iv = Some s \<and> sc_availability (iv_call iv) = Some av \<and>
       cs_execution_id s = rr_execution (sc_runtime (iv_call iv)) \<and> cs_run_id s = rr_run (sc_runtime (iv_call iv)) \<and>
       cs_runtime_id s = runtime_id av \<and> cs_runtime_id s = eb_runtime (iv_binding iv)) \<and>
    (\<forall>iv fl st. fst (invoke E fl iv st) =
       (if snd (invocation_attempt E (tree st) iv fl)
        then fst (eb_execute (iv_binding iv) (sc_runtime (iv_call iv)) (st\<lparr>tree := fst (invocation_attempt E (tree st) iv fl)\<rparr>))
        else st\<lparr>tree := fst (invocation_attempt E (tree st) iv fl)\<rparr>) \<and>
       keeps_tree (tree st) (fst (invocation_attempt E (tree st) iv fl)))"
proof (intro conjI allI ballI)
  show "distinct (map (\<lambda>iv. map_option session_id (iv_session iv)) (successes (invocation_attempt E) fs es))"
    by (rule distinct_map_factor [OF dispatches.success_once [OF assms] invocation_slot_of])
next
  fix iv assume "iv \<in> set (successes (invocation_attempt E) fs es)"
  then have "pre_dispatch_rejection iv = None" using successes_attempted dispatched by metis
  then show "\<exists>s av. iv_session iv = Some s \<and> sc_availability (iv_call iv) = Some av \<and>
       cs_execution_id s = rr_execution (sc_runtime (iv_call iv)) \<and> cs_run_id s = rr_run (sc_runtime (iv_call iv)) \<and>
       cs_runtime_id s = runtime_id av \<and> cs_runtime_id s = eb_runtime (iv_binding iv)"
    by (auto simp: pre_dispatch_rejection_def split: option.splits if_splits)
qed (auto simp: invoke_fst invocation_keeps)

theorem invocation_dispatches_once_witness:
  "\<exists>fs. successes (invocation_attempt demo_env) fs [Attempt demo_invocation no_gate_faults, Attempt demo_invocation no_gate_faults]
     = [demo_invocation]"
proof -
  from demo_dispatch obtain fs where d: "snd (invocation_attempt demo_env fs demo_invocation no_gate_faults)" by blast
  let ?es = "[Attempt demo_invocation no_gate_faults, Attempt demo_invocation no_gate_faults]
    :: ((unit, unit) invocation_request, gate_faults, fs) store_event list"
  have "fair_run (slot_taken (ge_ledger demo_env)) (invocation_attempt demo_env) fs ?es" by simp
  from invocation_dispatches_once [OF this] d show ?thesis by (auto split: if_splits)
qed

end
