(* ===== verification/AuditRecord.thy ===== *)
theory AuditRecord
  imports ExecutionLedger ApprovalStore
begin

text \<open>
  Audit records of governed executions (\<open>governed_audit/models.py\<close>): the redacted projection of a
  context, its validation, its digest, and its JSON payload with the strict way back.

  The instants of the execution ledger are read as microseconds in UTC from the start of the year 1;
  parsing a stored time is a parameter. A digest field of a stored reference is any JSON value
  that Python counts as false, or a digest, so it is kept as a JSON value.
\<close>

section \<open>Values\<close>

fun state_value :: "exec_state \<Rightarrow> string" where
  "state_value CREATED = ''created''"
| "state_value CONTEXT_ASSEMBLING = ''context_assembling''"
| "state_value PLANNING = ''planning''"
| "state_value DECIDING = ''deciding''"
| "state_value PROPOSING = ''proposing''"
| "state_value APPROVAL_PENDING = ''approval_pending''"
| "state_value AUTHORIZING = ''authorizing''"
| "state_value MUTATING = ''mutating''"
| "state_value VERIFYING = ''verifying''"
| "state_value REFLECTING = ''reflecting''"
| "state_value REPLANNING = ''replanning''"
| "state_value COMPLETED = ''completed''"
| "state_value FAILED = ''failed''"
| "state_value ABORTED = ''aborted''"

fun stop_value :: "exec_stop_reason \<Rightarrow> string" where
  "stop_value SUCCESS = ''success''"
| "stop_value ITERATION_BUDGET_EXHAUSTED = ''iteration_budget_exhausted''"
| "stop_value MUTATION_BUDGET_EXHAUSTED = ''mutation_budget_exhausted''"
| "stop_value VERIFICATION_BUDGET_EXHAUSTED = ''verification_budget_exhausted''"
| "stop_value POLICY_REJECTED = ''policy_rejected''"
| "stop_value AUTHORIZATION_FAILED = ''authorization_failed''"
| "stop_value PROVIDER_FAILED = ''provider_failed''"
| "stop_value VERIFICATION_FAILED = ''verification_failed''"
| "stop_value UNRECOVERABLE = ''unrecoverable''"
| "stop_value USER_ABORTED = ''user_aborted''"

fun evidence_value :: "evidence_kind \<Rightarrow> string" where
  "evidence_value PLAN = ''plan''"
| "evidence_value DECISION = ''decision''"
| "evidence_value PROPOSAL = ''proposal''"
| "evidence_value AUTHORIZATION = ''authorization''"
| "evidence_value MUTATION_RECEIPT = ''mutation_receipt''"
| "evidence_value VERIFICATION = ''verification''"
| "evidence_value REFLECTION = ''reflection''"
| "evidence_value MEMORY = ''memory''"
| "evidence_value REPLANNING_EVIDENCE = ''replanning''"

datatype audit_disposition = TERMINAL | INTERRUPTED

fun audit_disposition_value :: "audit_disposition \<Rightarrow> string" where
  "audit_disposition_value TERMINAL = ''terminal''"
| "audit_disposition_value INTERRUPTED = ''interrupted''"

text \<open>The member of an enumeration with a given value.\<close>

definition member_of :: "('a \<Rightarrow> string) \<Rightarrow> 'a list \<Rightarrow> json option \<Rightarrow> 'a option" where
  "member_of val ms v = (case v of Some (JStr s) \<Rightarrow> find (\<lambda>m. code_points (val m) = s) ms | _ \<Rightarrow> None)"

definition all_states :: "exec_state list" where
  "all_states = [CREATED, CONTEXT_ASSEMBLING, PLANNING, DECIDING, PROPOSING, APPROVAL_PENDING, AUTHORIZING, MUTATING,
     VERIFYING, REFLECTING, REPLANNING, COMPLETED, FAILED, ABORTED]"

definition all_stops :: "exec_stop_reason list" where
  "all_stops = [SUCCESS, ITERATION_BUDGET_EXHAUSTED, MUTATION_BUDGET_EXHAUSTED, VERIFICATION_BUDGET_EXHAUSTED, POLICY_REJECTED,
     AUTHORIZATION_FAILED, PROVIDER_FAILED, VERIFICATION_FAILED, UNRECOVERABLE, USER_ABORTED]"

definition all_kinds :: "evidence_kind list" where
  "all_kinds = [PLAN, DECISION, PROPOSAL, AUTHORIZATION, MUTATION_RECEIPT, VERIFICATION, REFLECTION, MEMORY, REPLANNING_EVIDENCE]"

section \<open>Instants\<close>

definition leap_year :: "nat \<Rightarrow> bool" where
  "leap_year y \<longleftrightarrow> y mod 4 = 0 \<and> (y mod 100 \<noteq> 0 \<or> y mod 400 = 0)"

definition month_lengths :: "nat \<Rightarrow> nat list" where
  "month_lengths y = [31, if leap_year y then 29 else 28, 31, 30, 31, 30, 31, 31, 30, 31, 30, 31]"

text \<open>The month and the day of the month, from the day of the year.\<close>

fun month_day :: "nat list \<Rightarrow> nat \<Rightarrow> nat \<Rightarrow> nat \<times> nat" where
  "month_day [] m d = (m, d + 1)"
| "month_day (l # ls) m d = (if d < l then (m, d + 1) else month_day ls (m + 1) (d - l))"

text \<open>The date of a day, counted from the first of January of the year 1, in the Gregorian calendar.\<close>

definition date_of :: "nat \<Rightarrow> nat \<times> nat \<times> nat" where
  "date_of n =
     (let c = n mod 146097; q = c mod 36524; y = q mod 1461;
          year = n div 146097 * 400 + c div 36524 * 100 + q div 1461 * 4 + y div 365 + 1
      in if c div 36524 = 4 \<or> y div 365 = 4 then (year - 1, 12, 31)
         else (year, month_day (month_lengths year) 1 (y mod 365)))"

definition utc_of :: "int \<Rightarrow> utc_time" where
  "utc_of t =
     (let n = nat t; s = n div 1000000; (y, m, d) = date_of (s div 86400)
      in \<lparr>t_year = y, t_month = m, t_day = d, t_hour = s div 3600 mod 24, t_minute = s div 60 mod 60,
          t_second = s mod 60, t_micro = n mod 1000000\<rparr>)"

definition timestamp_text :: "int \<Rightarrow> ustring" where
  "timestamp_text t = isoformat (utc_of t)"

text \<open>What parsing a text gives: an instant in UTC, no time or a naive one, or an instant no \<open>datetime\<close> can hold.\<close>

datatype parsed_time = Instant int | NoInstant | BeyondRange

section \<open>Errors\<close>

datatype audit_exn =
    AuditError string | AuditIntegrity string | AuditCollision string | AuditWrite string | AuditRequires string
  | InterruptedRejected | BlankIdentifier | AuditEncoding | TimeOverflow

text \<open>\<open>except (KeyError, TypeError, ValueError)\<close>: an overflow is none of them.\<close>

definition as_integrity :: "string \<Rightarrow> audit_exn + 'a \<Rightarrow> audit_exn + 'a" where
  "as_integrity msg m = (case m of Inl TimeOverflow \<Rightarrow> Inl TimeOverflow | Inl _ \<Rightarrow> Inl (AuditIntegrity msg) | Inr x \<Rightarrow> Inr x)"

definition blank_check :: "ustring \<Rightarrow> string \<Rightarrow> bool \<times> audit_exn" where
  "blank_check s field = (blank_ustring s, AuditError (field @ '' cannot be empty''))"

definition digest_check :: "ustring \<Rightarrow> string \<Rightarrow> (bool \<times> audit_exn) list" where
  "digest_check s field = [blank_check s field, (\<not> hex_digest s, AuditIntegrity (field @ '' must be a lowercase SHA-256 digest''))]"

section \<open>Evidence references\<close>

text \<open>The JSON values that Python counts as false; of the floats, the two that are written back as they are.\<close>

definition zero_number :: "json \<Rightarrow> bool" where
  "zero_number j \<longleftrightarrow> j \<in> {JBool False, JInt 0, JFloat (code_points ''0.0''), JFloat (code_points ''-0.0'')}"

definition falsy :: "json \<Rightarrow> bool" where
  "falsy j \<longleftrightarrow> zero_number j \<or> j \<in> {JNull, JStr [], JArr [], JObj []}"

record audit_evidence =
  ae_kind :: evidence_kind
  ae_reference :: ustring
  ae_digest :: json

definition make_audit_evidence :: "audit_evidence \<Rightarrow> audit_exn + audit_evidence" where
  "make_audit_evidence e = guarded
     (blank_check (ae_reference e) ''reference_id'' #
      (if falsy (ae_digest e) then []
       else case ae_digest e of
           JStr s \<Rightarrow> digest_check s ''digest''
         | _ \<Rightarrow> [(True, AuditError ''digest cannot be empty'')])) e"

text \<open>Python's equality: the numbers that are zero are equal.\<close>

definition same_evidence :: "audit_evidence \<Rightarrow> audit_evidence \<Rightarrow> bool" where
  "same_evidence e f \<longleftrightarrow> ae_kind e = ae_kind f \<and> ae_reference e = ae_reference f \<and>
     (ae_digest e = ae_digest f \<or> zero_number (ae_digest e) \<and> zero_number (ae_digest f))"

definition evidence_payload :: "audit_evidence \<Rightarrow> json" where
  "evidence_payload e = JObj
     [(code_points ''digest'', ae_digest e),
      (code_points ''kind'', JStr (code_points (evidence_value (ae_kind e)))),
      (code_points ''reference_id'', JStr (ae_reference e))]"

definition evidence_from_payload :: "json \<Rightarrow> audit_exn + audit_evidence" where
  "evidence_from_payload j =
     (case j of
        JObj kvs \<Rightarrow>
          (case (member_of evidence_value all_kinds (obj_get kvs (code_points ''kind'')), text_field kvs ''reference_id'') of
             (Some k, Some i) \<Rightarrow> as_integrity ''invalid evidence reference'' (make_audit_evidence
                \<lparr>ae_kind = k, ae_reference = i,
                 ae_digest = (case obj_get kvs (code_points ''digest'') of None \<Rightarrow> JStr [] | Some v \<Rightarrow> v)\<rparr>)
           | _ \<Rightarrow> Inl (AuditIntegrity ''invalid evidence reference''))
      | _ \<Rightarrow> Inl (AuditIntegrity ''evidence reference must be an object''))"

section \<open>Transitions\<close>

record audit_transition =
  at_sequence :: int
  at_iteration :: int
  at_from :: exec_state
  at_to :: exec_state
  at_occurred :: int
  at_reason :: "exec_stop_reason option"
  at_evidence :: "audit_evidence list"

definition make_audit_transition :: "audit_transition \<Rightarrow> audit_exn + audit_transition" where
  "make_audit_transition t = guarded
     [(at_sequence t < 1, AuditError ''sequence must be a positive integer''),
      (at_iteration t < 0, AuditError ''iteration must be a non-negative integer'')] t"

definition transition_payload :: "audit_transition \<Rightarrow> json" where
  "transition_payload t = JObj
     [(code_points ''evidence'', JArr (map evidence_payload (at_evidence t))),
      (code_points ''from_state'', JStr (code_points (state_value (at_from t)))),
      (code_points ''iteration'', JInt (at_iteration t)),
      (code_points ''occurred_at'', JStr (timestamp_text (at_occurred t))),
      (code_points ''reason'', (case at_reason t of None \<Rightarrow> JNull | Some r \<Rightarrow> JStr (code_points (stop_value r)))),
      (code_points ''sequence'', JInt (at_sequence t)),
      (code_points ''to_state'', JStr (code_points (state_value (at_to t))))]"

definition int_field :: "(ustring \<times> json) list \<Rightarrow> string \<Rightarrow> int option" where
  "int_field kvs k = (case obj_get kvs (code_points k) of Some (JInt i) \<Rightarrow> Some i | _ \<Rightarrow> None)"

text \<open>An absent reason and a null one are no reason.\<close>

definition reason_field :: "(ustring \<times> json) list \<Rightarrow> exec_stop_reason option option" where
  "reason_field kvs =
     (case obj_get kvs (code_points ''reason'') of
        None \<Rightarrow> Some None | Some JNull \<Rightarrow> Some None
      | v \<Rightarrow> map_option Some (member_of stop_value all_stops v))"

definition list_field :: "json option \<Rightarrow> json list option" where
  "list_field v = (case v of Some (JArr js) \<Rightarrow> Some js | _ \<Rightarrow> None)"

definition transition_fault :: "audit_exn" where
  "transition_fault = AuditIntegrity ''invalid transition record''"

definition transition_from_payload :: "(ustring \<Rightarrow> parsed_time) \<Rightarrow> json \<Rightarrow> audit_exn + audit_transition" where
  "transition_from_payload parse j =
     (case j of
        JObj kvs \<Rightarrow>
          (case (member_of state_value all_states (obj_get kvs (code_points ''from_state'')),
                 member_of state_value all_states (obj_get kvs (code_points ''to_state'')),
                 list_field (case obj_get kvs (code_points ''evidence'') of None \<Rightarrow> Some (JArr []) | v \<Rightarrow> v),
                 text_field kvs ''occurred_at'') of
             (Some f, Some t, Some es, Some o') \<Rightarrow>
               if obj_get kvs (code_points ''sequence'') = None \<or> obj_get kvs (code_points ''iteration'') = None \<or> blank_ustring o'
               then Inl transition_fault
               else case parse o' of
                   NoInstant \<Rightarrow> Inl transition_fault
                 | BeyondRange \<Rightarrow> Inl TimeOverflow
                 | Instant i \<Rightarrow> as_integrity ''invalid transition record''
                     (case (reason_field kvs, int_field kvs ''sequence'', int_field kvs ''iteration'') of
                        (Some r, Some n, Some it) \<Rightarrow>
                          bind_res (sequence_res evidence_from_payload es) (\<lambda>ev. make_audit_transition
                            \<lparr>at_sequence = n, at_iteration = it, at_from = f, at_to = t, at_occurred = i, at_reason = r, at_evidence = ev\<rparr>)
                      | _ \<Rightarrow> Inl transition_fault)
           | _ \<Rightarrow> Inl transition_fault)
      | _ \<Rightarrow> Inl (AuditIntegrity ''transition record must be an object''))"

section \<open>The envelope\<close>

definition audit_schema :: ustring where
  "audit_schema = code_points ''1.0''"

record audit_envelope =
  en_schema :: ustring
  en_execution :: ustring
  en_run :: ustring
  en_goal_digest :: ustring
  en_disposition :: audit_disposition
  en_state :: exec_state
  en_iteration :: int
  en_budget :: execution_budget
  en_history :: "audit_transition list"
  en_evidence :: "audit_evidence list"
  en_digest :: ustring

text \<open>The local variables of the loop of \<open>_validate_structure\<close>.\<close>

record audit_scan =
  as_state :: exec_state
  as_iteration :: int
  as_mutations :: int
  as_verifications :: int
  as_evidence :: "audit_evidence list"

definition audit_start :: audit_scan where
  "audit_start = \<lparr>as_state = CREATED, as_iteration = 0, as_mutations = 0, as_verifications = 0, as_evidence = []\<rparr>"

definition audit_step :: "int \<Rightarrow> audit_scan \<Rightarrow> audit_transition \<Rightarrow> audit_exn + audit_scan" where
  "audit_step n sc t =
     (let it = as_iteration sc + (if at_to t = CONTEXT_ASSEMBLING then 1 else 0)
      in guarded
        [(at_sequence t \<noteq> n, AuditIntegrity ''audit history sequence must be contiguous from one''),
         (at_from t \<noteq> as_state sc, AuditIntegrity ''audit history must remain contiguous''),
         (at_to t \<notin> legal_transitions (at_from t), AuditIntegrity ''audit history contains an illegal transition''),
         (at_iteration t \<noteq> it, AuditIntegrity ''audit transition iteration is inconsistent'')]
        \<lparr>as_state = at_to t, as_iteration = it,
         as_mutations = as_mutations sc + (if at_to t = MUTATING then 1 else 0),
         as_verifications = as_verifications sc + (if at_to t = VERIFYING then 1 else 0),
         as_evidence = as_evidence sc @ at_evidence t\<rparr>)"

fun audit_scan_history :: "int \<Rightarrow> audit_scan \<Rightarrow> audit_transition list \<Rightarrow> audit_exn + audit_scan" where
  "audit_scan_history n sc [] = Inr sc"
| "audit_scan_history n sc (t # ts) = bind_res (audit_step n sc t) (\<lambda>sc'. audit_scan_history (n + 1) sc' ts)"

definition validate_structure :: "audit_envelope \<Rightarrow> audit_exn option" where
  "validate_structure e =
     (if en_history e = [] then Some (AuditIntegrity ''audit history cannot be empty'')
      else case audit_scan_history 1 audit_start (en_history e) of
        Inl x \<Rightarrow> Some x
      | Inr sc \<Rightarrow> first_error
          [(as_state sc \<noteq> en_state e, AuditIntegrity ''audit state must equal final history state''),
           (as_iteration sc \<noteq> en_iteration e, AuditIntegrity ''audit iteration must equal final history iteration''),
           (en_iteration e \<noteq> iterations_used (en_budget e), AuditIntegrity ''audit iteration must equal consumed iteration budget''),
           (as_mutations sc \<noteq> mutations_used (en_budget e), AuditIntegrity ''audit mutation count must equal consumed mutation budget''),
           (as_verifications sc \<noteq> verifications_used (en_budget e),
              AuditIntegrity ''audit verification count must equal consumed verification budget''),
           (\<not> list_all2 same_evidence (as_evidence sc) (en_evidence e),
              AuditIntegrity ''audit evidence must exactly flatten transition evidence''),
           (en_disposition e = TERMINAL \<and> \<not> is_terminal (en_state e),
              AuditIntegrity ''terminal audit disposition requires a terminal state''),
           (en_disposition e = INTERRUPTED \<and> is_terminal (en_state e),
              AuditIntegrity ''interrupted audit disposition requires a nonterminal state'')])"

definition budget_payload :: "execution_budget \<Rightarrow> json" where
  "budget_payload b = JObj
     [(code_points ''iterations_used'', JInt (iterations_used b)),
      (code_points ''max_iterations'', JInt (max_iterations b)),
      (code_points ''max_mutations'', JInt (max_mutations b)),
      (code_points ''max_verifications'', JInt (max_verifications b)),
      (code_points ''mutations_used'', JInt (mutations_used b)),
      (code_points ''verifications_used'', JInt (verifications_used b))]"

text \<open>The payload of the digest, in the order of its keys, and the stored payload, which adds the digest.\<close>

definition early_fields :: "audit_envelope \<Rightarrow> (ustring \<times> json) list" where
  "early_fields e =
     [(code_points ''budget'', budget_payload (en_budget e)),
      (code_points ''disposition'', JStr (code_points (audit_disposition_value (en_disposition e)))),
      (code_points ''evidence'', JArr (map evidence_payload (en_evidence e))),
      (code_points ''execution_id'', JStr (en_execution e)),
      (code_points ''goal_digest'', JStr (en_goal_digest e)),
      (code_points ''history'', JArr (map transition_payload (en_history e))),
      (code_points ''iteration'', JInt (en_iteration e))]"

definition late_fields :: "audit_envelope \<Rightarrow> (ustring \<times> json) list" where
  "late_fields e =
     [(code_points ''run_id'', JStr (en_run e)),
      (code_points ''schema_version'', JStr (en_schema e)),
      (code_points ''state'', JStr (code_points (state_value (en_state e))))]"

definition payload_without_digest :: "audit_envelope \<Rightarrow> json" where
  "payload_without_digest e = JObj (early_fields e @ late_fields e)"

definition audit_payload :: "audit_envelope \<Rightarrow> json" where
  "audit_payload e = JObj (early_fields e @ (code_points ''record_digest'', JStr (en_digest e)) # late_fields e)"

definition audit_digest :: "(bytes \<Rightarrow> string) \<Rightarrow> audit_envelope \<Rightarrow> ustring" where
  "audit_digest sha e = json_digest sha (payload_without_digest e)"

definition make_envelope :: "(bytes \<Rightarrow> string) \<Rightarrow> audit_envelope \<Rightarrow> audit_exn + audit_envelope" where
  "make_envelope sha e =
     bind_res (guarded
       ([(en_schema e \<noteq> audit_schema, AuditIntegrity ''unsupported audit schema version''),
         blank_check (en_execution e) ''execution_id'', blank_check (en_run e) ''run_id''] @
        digest_check (en_goal_digest e) ''goal_digest'' @
        [(en_iteration e < 0, AuditError ''iteration must be a non-negative integer'')]) ()) (\<lambda>_.
     case validate_structure e of
       Some x \<Rightarrow> Inl x
     | None \<Rightarrow> guarded (digest_check (en_digest e) ''record_digest'' @
         [(en_digest e \<noteq> audit_digest sha e, AuditIntegrity ''audit record digest does not match canonical payload'')]) e)"

subsection \<open>From a context\<close>

definition audited_evidence :: "evidence_ref \<Rightarrow> audit_exn + audit_evidence" where
  "audited_evidence e = make_audit_evidence
     \<lparr>ae_kind = ev_kind e, ae_reference = code_points (reference_id e), ae_digest = JStr (code_points (digest e))\<rparr>"

definition audited_transition :: "transition_record \<Rightarrow> audit_exn + audit_transition" where
  "audited_transition r =
     bind_res (sequence_res audited_evidence (rec_evidence r)) (\<lambda>ev. make_audit_transition
       \<lparr>at_sequence = sequence r, at_iteration = rec_iteration r, at_from = from_state r, at_to = to_state r,
        at_occurred = occurred_at r, at_reason = rec_reason r, at_evidence = ev\<rparr>)"

definition envelope_draft :: "(bytes \<Rightarrow> string) \<Rightarrow> exec_context \<Rightarrow> audit_disposition option \<Rightarrow> audit_transition list \<Rightarrow> audit_envelope" where
  "envelope_draft sha c d ts =
     \<lparr>en_schema = audit_schema, en_execution = code_points (execution_id c), en_run = code_points (run_id c),
      en_goal_digest = code_points (sha (utf8_encode (goal c))),
      en_disposition = (case d of Some d \<Rightarrow> d | None \<Rightarrow> if is_terminal (state c) then TERMINAL else INTERRUPTED),
      en_state = state c, en_iteration = iteration c, en_budget = budget c, en_history = ts,
      en_evidence = concat (map at_evidence ts), en_digest = replicate 64 48\<rparr>"

definition from_context :: "(bytes \<Rightarrow> string) \<Rightarrow> exec_context \<Rightarrow> audit_disposition option \<Rightarrow> audit_exn + audit_envelope" where
  "from_context sha c d =
     bind_res (sequence_res audited_transition (history c)) (\<lambda>ts.
       make_envelope sha ((envelope_draft sha c d ts)\<lparr>en_digest := audit_digest sha (envelope_draft sha c d ts)\<rparr>))"

subsection \<open>From a payload\<close>

definition budget_from_payload :: "(ustring \<times> json) list \<Rightarrow> execution_budget option" where
  "budget_from_payload kvs =
     (case (int_field kvs ''max_iterations'', int_field kvs ''max_mutations'', int_field kvs ''max_verifications'',
            int_field kvs ''iterations_used'', int_field kvs ''mutations_used'', int_field kvs ''verifications_used'') of
        (Some a, Some b, Some c, Some x, Some y, Some z) \<Rightarrow>
          (case make_budget \<lparr>max_iterations = a, max_mutations = b, max_verifications = c, iterations_used = x,
                 mutations_used = y, verifications_used = z\<rparr> of Inl _ \<Rightarrow> None | Inr b \<Rightarrow> Some b)
      | _ \<Rightarrow> None)"

definition object_field :: "(ustring \<times> json) list \<Rightarrow> string \<Rightarrow> (ustring \<times> json) list option" where
  "object_field kvs k = (case obj_get kvs (code_points k) of Some (JObj o') \<Rightarrow> Some o' | _ \<Rightarrow> None)"

text \<open>The fields evaluated before the budget, the budget, then the lists; the digest's key is looked up last.\<close>

definition envelope_of_fields :: "(bytes \<Rightarrow> string) \<Rightarrow> (ustring \<times> json) list \<Rightarrow> execution_budget
    \<Rightarrow> audit_disposition \<Rightarrow> exec_state \<Rightarrow> audit_transition list \<Rightarrow> audit_evidence list \<Rightarrow> audit_exn + audit_envelope" where
  "envelope_of_fields sha kvs b d s ts es =
     (case (text_field kvs ''schema_version'', text_field kvs ''execution_id'', text_field kvs ''run_id'', text_field kvs ''goal_digest'',
            int_field kvs ''iteration'', text_field kvs ''record_digest'') of
        (Some v, Some x, Some r, Some g, Some i, Some h) \<Rightarrow>
          make_envelope sha \<lparr>en_schema = v, en_execution = x, en_run = r, en_goal_digest = g, en_disposition = d, en_state = s,
            en_iteration = i, en_budget = b, en_history = ts, en_evidence = es, en_digest = h\<rparr>
      | _ \<Rightarrow> Inl (AuditIntegrity ''invalid audit envelope''))"

definition early_keys :: "(ustring \<times> json) list \<Rightarrow> bool" where
  "early_keys kvs \<longleftrightarrow> list_all (\<lambda>k. obj_get kvs (code_points k) \<noteq> None) [''schema_version'', ''execution_id'', ''run_id'', ''goal_digest'', ''iteration'']"

definition envelope_from_payload :: "(bytes \<Rightarrow> string) \<Rightarrow> (ustring \<Rightarrow> parsed_time) \<Rightarrow> json \<Rightarrow> audit_exn + audit_envelope" where
  "envelope_from_payload sha parse j =
     (case j of
        JObj kvs \<Rightarrow> as_integrity ''invalid audit envelope''
          (case (Option.bind (object_field kvs ''budget'') budget_from_payload,
                 list_field (obj_get kvs (code_points ''history'')), list_field (obj_get kvs (code_points ''evidence'')),
                 member_of audit_disposition_value [TERMINAL, INTERRUPTED] (obj_get kvs (code_points ''disposition'')),
                 member_of state_value all_states (obj_get kvs (code_points ''state''))) of
             (Some b, Some hs, Some es, Some d, Some s) \<Rightarrow>
               if early_keys kvs
               then bind_res (sequence_res (transition_from_payload parse) hs) (\<lambda>ts.
                    bind_res (sequence_res evidence_from_payload es) (envelope_of_fields sha kvs b d s ts))
               else Inl (AuditIntegrity ''invalid audit envelope'')
           | _ \<Rightarrow> Inl (AuditIntegrity ''invalid audit envelope''))
      | _ \<Rightarrow> Inl (AuditIntegrity ''audit envelope must be an object''))"

section \<open>Interruptions\<close>

definition make_interruption :: "audit_envelope \<Rightarrow> audit_exn + audit_envelope" where
  "make_interruption e = guarded [(en_disposition e \<noteq> INTERRUPTED, AuditError ''interruption record requires interrupted disposition'')] e"

definition reject_interrupted_continuation :: "audit_envelope \<Rightarrow> audit_exn" where
  "reject_interrupted_continuation e = InterruptedRejected"

end
