(* ===== verification/AuditFacts.thy ===== *)
theory AuditFacts
  imports AuditRecord
begin

text \<open>
  Facts about audit records: payloads read back as the values they were written from, whatever is read
  satisfies the constructors, the canonical text is what \<open>dumps\<close> writes, and a valid context that has
  started has a record.
\<close>

section \<open>Values the constructors accept\<close>

definition transition_valid :: "audit_transition \<Rightarrow> bool" where
  "transition_valid t \<longleftrightarrow> make_audit_transition t = Inr t \<and> (\<forall>e \<in> set (at_evidence t). make_audit_evidence e = Inr e)"

text \<open>The values of type \<open>GovernedExecutionAuditEnvelope\<close> the program can hold.\<close>

definition envelope_valid :: "(bytes \<Rightarrow> string) \<Rightarrow> audit_envelope \<Rightarrow> bool" where
  "envelope_valid sha e \<longleftrightarrow> make_envelope sha e = Inr e \<and> make_budget (en_budget e) = Inr (en_budget e) \<and>
     (\<forall>t \<in> set (en_history e). transition_valid t) \<and> (\<forall>x \<in> set (en_evidence e). make_audit_evidence x = Inr x)"

definition times_read_back :: "(ustring \<Rightarrow> parsed_time) \<Rightarrow> audit_envelope \<Rightarrow> bool" where
  "times_read_back parse e \<longleftrightarrow> (\<forall>t \<in> set (en_history e). parse (timestamp_text (at_occurred t)) = Instant (at_occurred t))"

lemma make_audit_evidence_Inr: "make_audit_evidence e = Inr e' \<Longrightarrow> e' = e"
  by (simp add: make_audit_evidence_def guarded_Inr_iff)

lemma evidence_valid_iff:
  "make_audit_evidence e = Inr e \<longleftrightarrow>
     \<not> blank_ustring (ae_reference e) \<and> (falsy (ae_digest e) \<or> (\<exists>s. ae_digest e = JStr s \<and> hex_digest s))"
  using hex_not_blank by (auto simp: make_audit_evidence_def guarded_Inr_iff first_error_None_iff blank_check_def digest_check_def
      simp del: first_error.simps split: json.splits)

lemma make_audit_transition_Inr: "make_audit_transition t = Inr t' \<Longrightarrow> t' = t"
  by (simp add: make_audit_transition_def guarded_Inr_iff)

lemma make_envelope_Inr: "make_envelope sha e = Inr e' \<Longrightarrow> e' = e"
  by (auto simp: make_envelope_def bind_res_Inr_iff guarded_Inr_iff split: option.splits)

lemma as_integrity_Inr [simp]: "as_integrity msg m = Inr x \<longleftrightarrow> m = Inr x"
  by (auto simp: as_integrity_def split: sum.splits audit_exn.splits)

section \<open>Payloads read back\<close>

lemma state_member: "member_of state_value all_states (Some (JStr (code_points (state_value s)))) = Some s"
  by (cases s) (simp_all add: member_of_def all_states_def code_points_inj)

lemma stop_member: "member_of stop_value all_stops (Some (JStr (code_points (stop_value r)))) = Some r"
  by (cases r) (simp_all add: member_of_def all_stops_def code_points_inj)

lemma kind_member: "member_of evidence_value all_kinds (Some (JStr (code_points (evidence_value k)))) = Some k"
  by (cases k) (simp_all add: member_of_def all_kinds_def code_points_inj)

lemma disposition_member:
  "member_of audit_disposition_value [TERMINAL, INTERRUPTED] (Some (JStr (code_points (audit_disposition_value d)))) = Some d"
  by (cases d) (simp_all add: member_of_def code_points_inj)

lemma evidence_from_to: "make_audit_evidence e = Inr e \<Longrightarrow> evidence_from_payload (evidence_payload e) = Inr e"
  by (cases e) (simp add: evidence_from_payload_def evidence_payload_def obj_get_def text_field_def code_points_inj kind_member)

lemma isoformat_not_blank: "\<not> blank_ustring (isoformat t)"
proof -
  have "45 \<in> set (isoformat t)" by (simp add: isoformat_def code_points_def)
  moreover have "\<not> unicode_space 45" by (simp add: unicode_space_def)
  ultimately show ?thesis by (auto simp: blank_ustring_def list_all_iff)
qed

lemma transition_from_to:
  assumes "transition_valid t" and "parse (timestamp_text (at_occurred t)) = Instant (at_occurred t)"
  shows "transition_from_payload parse (transition_payload t) = Inr t"
proof -
  define kvs where "kvs = (case transition_payload t of JObj k \<Rightarrow> k | _ \<Rightarrow> [])"
  have k: "transition_payload t = JObj kvs" by (simp add: kvs_def transition_payload_def)
  have f: "obj_get kvs (code_points ''evidence'') = Some (JArr (map evidence_payload (at_evidence t)))"
    "obj_get kvs (code_points ''from_state'') = Some (JStr (code_points (state_value (at_from t))))"
    "obj_get kvs (code_points ''to_state'') = Some (JStr (code_points (state_value (at_to t))))"
    "obj_get kvs (code_points ''iteration'') = Some (JInt (at_iteration t))"
    "obj_get kvs (code_points ''sequence'') = Some (JInt (at_sequence t))"
    "obj_get kvs (code_points ''occurred_at'') = Some (JStr (timestamp_text (at_occurred t)))"
    "obj_get kvs (code_points ''reason'') = Some (case at_reason t of None \<Rightarrow> JNull | Some r \<Rightarrow> JStr (code_points (stop_value r)))"
    by (simp_all add: kvs_def transition_payload_def obj_get_def code_points_inj)
  have r: "reason_field kvs = Some (at_reason t)"
    using stop_member by (cases "at_reason t") (simp_all add: reason_field_def f)
  have s: "sequence_res evidence_from_payload (map evidence_payload (at_evidence t)) = Inr (at_evidence t)"
    using assms(1) by (intro sequence_res_map) (simp add: transition_valid_def evidence_from_to)
  have "make_audit_transition \<lparr>at_sequence = at_sequence t, at_iteration = at_iteration t, at_from = at_from t, at_to = at_to t,
      at_occurred = at_occurred t, at_reason = at_reason t, at_evidence = at_evidence t\<rparr> = Inr t"
    using assms(1) by (cases t) (simp add: transition_valid_def)
  then show ?thesis
    using assms(2) isoformat_not_blank [of "utc_of (at_occurred t)"]
    by (simp add: transition_from_payload_def k f r s state_member list_field_def text_field_def int_field_def timestamp_text_def)
qed

lemma budget_from_to: "make_budget b = Inr b \<Longrightarrow> budget_payload b = JObj kvs \<Longrightarrow> budget_from_payload kvs = Some b"
  by (cases b) (auto simp: budget_from_payload_def budget_payload_def int_field_def obj_get_def code_points_inj)

lemma envelope_from_to:
  assumes v: "envelope_valid sha e" and p: "times_read_back parse e"
  shows "envelope_from_payload sha parse (audit_payload e) = Inr e"
proof -
  define kvs where "kvs = (case audit_payload e of JObj k \<Rightarrow> k | _ \<Rightarrow> [])"
  have k: "audit_payload e = JObj kvs" by (simp add: kvs_def audit_payload_def)
  have f: "obj_get kvs (code_points ''budget'') = Some (budget_payload (en_budget e))"
    "obj_get kvs (code_points ''disposition'') = Some (JStr (code_points (audit_disposition_value (en_disposition e))))"
    "obj_get kvs (code_points ''evidence'') = Some (JArr (map evidence_payload (en_evidence e)))"
    "obj_get kvs (code_points ''execution_id'') = Some (JStr (en_execution e))"
    "obj_get kvs (code_points ''goal_digest'') = Some (JStr (en_goal_digest e))"
    "obj_get kvs (code_points ''history'') = Some (JArr (map transition_payload (en_history e)))"
    "obj_get kvs (code_points ''iteration'') = Some (JInt (en_iteration e))"
    "obj_get kvs (code_points ''record_digest'') = Some (JStr (en_digest e))"
    "obj_get kvs (code_points ''run_id'') = Some (JStr (en_run e))"
    "obj_get kvs (code_points ''schema_version'') = Some (JStr (en_schema e))"
    "obj_get kvs (code_points ''state'') = Some (JStr (code_points (state_value (en_state e))))"
    by (simp_all add: kvs_def audit_payload_def early_fields_def late_fields_def obj_get_def code_points_inj)
  obtain bs where b: "budget_payload (en_budget e) = JObj bs" by (simp add: budget_payload_def)
  have bb: "budget_from_payload bs = Some (en_budget e)"
    using v b by (intro budget_from_to) (simp_all add: envelope_valid_def)
  have h: "sequence_res (transition_from_payload parse) (map transition_payload (en_history e)) = Inr (en_history e)"
    using v p by (intro sequence_res_map) (simp add: envelope_valid_def times_read_back_def transition_from_to)
  have x: "sequence_res evidence_from_payload (map evidence_payload (en_evidence e)) = Inr (en_evidence e)"
    using v by (intro sequence_res_map) (simp add: envelope_valid_def evidence_from_to)
  have "make_envelope sha \<lparr>en_schema = en_schema e, en_execution = en_execution e, en_run = en_run e, en_goal_digest = en_goal_digest e,
      en_disposition = en_disposition e, en_state = en_state e, en_iteration = en_iteration e, en_budget = en_budget e,
      en_history = en_history e, en_evidence = en_evidence e, en_digest = en_digest e\<rparr> = Inr e"
    using v by (cases e) (simp add: envelope_valid_def)
  then show ?thesis
    by (simp add: envelope_from_payload_def k f b bb h x object_field_def list_field_def early_keys_def state_member disposition_member
        envelope_of_fields_def text_field_def int_field_def)
qed

section \<open>Whatever is read satisfies the constructors\<close>

lemma evidence_read_valid: "evidence_from_payload j = Inr e \<Longrightarrow> make_audit_evidence e = Inr e"
  by (auto simp: evidence_from_payload_def split: json.splits option.splits dest: make_audit_evidence_Inr)

lemma transition_read_valid: "transition_from_payload parse j = Inr t \<Longrightarrow> transition_valid t"
proof -
  assume "transition_from_payload parse j = Inr t"
  then obtain es ev f where s: "sequence_res evidence_from_payload es = Inr ev" "make_audit_transition f = Inr t" "at_evidence f = ev"
    by (auto simp: transition_from_payload_def bind_res_Inr_iff split: json.splits option.splits if_splits parsed_time.splits prod.splits)
  then show ?thesis
    using make_audit_transition_Inr [OF s(2)] sequence_res_all [OF s(1) evidence_read_valid] by (simp add: transition_valid_def)
qed

lemma budget_read_valid: "budget_from_payload kvs = Some b \<Longrightarrow> make_budget b = Inr b"
  by (auto simp: budget_from_payload_def make_budget_Inr_iff split: option.splits sum.splits prod.splits)

lemma envelope_read_valid: "envelope_from_payload sha parse j = Inr e \<Longrightarrow> envelope_valid sha e"
proof -
  assume "envelope_from_payload sha parse j = Inr e"
  then obtain bs b hs es ts xs kvs d s where r: "budget_from_payload bs = Some b"
      "sequence_res (transition_from_payload parse) hs = Inr ts" "sequence_res evidence_from_payload es = Inr xs"
      "envelope_of_fields sha kvs b d s ts xs = Inr e"
    by (auto simp: envelope_from_payload_def bind_res_Inr_iff bind_eq_Some_conv split: json.splits option.splits if_splits prod.splits)
  then obtain f where f: "make_envelope sha f = Inr e" "en_budget f = b" "en_history f = ts" "en_evidence f = xs"
    by (auto simp: envelope_of_fields_def split: option.splits prod.splits)
  note m = f [folded make_envelope_Inr [OF f(1)]]
  have "\<forall>t \<in> set ts. transition_valid t" using r(2) transition_read_valid by (rule sequence_res_all)
  moreover have "\<forall>x \<in> set xs. make_audit_evidence x = Inr x" using r(3) evidence_read_valid by (rule sequence_res_all)
  ultimately show ?thesis using m budget_read_valid [OF r(1)] by (simp add: envelope_valid_def)
qed

section \<open>The canonical text\<close>

lemma evidence_sorted:
  assumes "make_audit_evidence e = Inr e"
  shows "sort_keys (evidence_payload e) = evidence_payload e"
proof -
  have "sort_keys (ae_digest e) = ae_digest e"
    using assms by (auto simp: evidence_valid_iff falsy_def zero_number_def)
  moreover have "sorted (map code_points [''digest'', ''kind'', ''reference_id''])" by (simp add: code_points_def)
  ultimately show ?thesis by (simp add: evidence_payload_def sort_key_id_if_sorted)
qed

lemma sort_keys_all: "\<forall>x \<in> set xs. sort_keys (f x) = f x \<Longrightarrow> map sort_keys (map f xs) = map f xs"
  by simp

lemma transition_sorted:
  assumes "transition_valid t"
  shows "sort_keys (transition_payload t) = transition_payload t"
proof -
  have "map sort_keys (map evidence_payload (at_evidence t)) = map evidence_payload (at_evidence t)"
    using assms by (intro sort_keys_all) (simp add: transition_valid_def evidence_sorted)
  moreover have "sort_keys (case at_reason t of None \<Rightarrow> JNull | Some r \<Rightarrow> JStr (code_points (stop_value r))) =
      (case at_reason t of None \<Rightarrow> JNull | Some r \<Rightarrow> JStr (code_points (stop_value r)))" by (simp split: option.splits)
  moreover have "sorted (map code_points [''evidence'', ''from_state'', ''iteration'', ''occurred_at'', ''reason'', ''sequence'', ''to_state''])"
    by (simp add: code_points_def)
  ultimately show ?thesis by (simp add: transition_payload_def sort_key_id_if_sorted del: map_map)
qed

lemma budget_sorted: "sort_keys (budget_payload b) = budget_payload b"
proof -
  have "sorted (map code_points [''iterations_used'', ''max_iterations'', ''max_mutations'', ''max_verifications'', ''mutations_used'',
      ''verifications_used''])" by (simp add: code_points_def)
  then show ?thesis by (simp add: budget_payload_def sort_key_id_if_sorted)
qed

lemma envelope_sorted:
  assumes "envelope_valid sha e"
  shows "sort_keys (audit_payload e) = audit_payload e"
proof -
  have "map sort_keys (map evidence_payload (en_evidence e)) = map evidence_payload (en_evidence e)"
      "map sort_keys (map transition_payload (en_history e)) = map transition_payload (en_history e)"
    using assms by (intro sort_keys_all, simp add: envelope_valid_def evidence_sorted transition_sorted)+
  moreover have "sorted (map code_points [''budget'', ''disposition'', ''evidence'', ''execution_id'', ''goal_digest'', ''history'', ''iteration'',
      ''record_digest'', ''run_id'', ''schema_version'', ''state''])" by (simp add: code_points_def)
  ultimately show ?thesis
    by (simp add: audit_payload_def early_fields_def late_fields_def sort_key_id_if_sorted budget_sorted del: map_map)
qed

text \<open>The texts that \<open>loads\<close> gives back as they were.\<close>

definition evidence_text_ok :: "audit_evidence \<Rightarrow> bool" where
  "evidence_text_ok e \<longleftrightarrow> ustring_ok (ae_reference e)"

definition audit_texts_ok :: "audit_envelope \<Rightarrow> bool" where
  "audit_texts_ok e \<longleftrightarrow> ustring_ok (en_execution e) \<and> ustring_ok (en_run e) \<and>
     (\<forall>x \<in> set (en_evidence e). evidence_text_ok x) \<and> (\<forall>t \<in> set (en_history e). \<forall>x \<in> set (at_evidence t). evidence_text_ok x)"

lemma zero_float_ok: "float_ok (code_points ''0.0'')" "float_ok (code_points ''-0.0'')"
  by (code_simp+)

lemma evidence_json_ok:
  assumes "make_audit_evidence e = Inr e" and "evidence_text_ok e"
  shows "json_ok (evidence_payload e)"
proof -
  have "json_ok (ae_digest e)"
    using assms(1) zero_float_ok by (auto simp: evidence_valid_iff falsy_def zero_number_def ustring_ok_def [of "[]"] hex_digest_ok)
  then show ?thesis using assms(2) ustring_ok_points by (simp add: evidence_payload_def evidence_text_ok_def)
qed

lemma transition_json_ok:
  assumes "transition_valid t" and "\<forall>x \<in> set (at_evidence t). evidence_text_ok x"
  shows "json_ok (transition_payload t)"
  using assms ustring_ok_points evidence_json_ok
  by (auto simp: transition_payload_def transition_valid_def timestamp_text_def isoformat_def split: option.splits)

lemma envelope_digests:
  assumes "make_envelope sha e = Inr e"
  shows "hex_digest (en_goal_digest e)" and "hex_digest (en_digest e)" and "en_digest e = audit_digest sha e"
    and "en_schema e = audit_schema" and "\<not> blank_ustring (en_execution e)" and "\<not> blank_ustring (en_run e)"
    and "validate_structure e = None"
  using assms by (auto simp: make_envelope_def bind_res_Inr_iff guarded_Inr_iff digest_check_def blank_check_def
      split: option.splits if_splits)

lemma envelope_json_ok:
  assumes v: "envelope_valid sha e" and t: "audit_texts_ok e"
  shows "json_ok (audit_payload e)"
proof -
  have m: "make_envelope sha e = Inr e" using v by (simp add: envelope_valid_def)
  have "\<forall>x \<in> set (en_evidence e). json_ok (evidence_payload x)" "\<forall>x \<in> set (en_history e). json_ok (transition_payload x)"
    using v t by (auto simp: envelope_valid_def audit_texts_ok_def intro: evidence_json_ok transition_json_ok)
  moreover have "json_ok (budget_payload b)" for b using ustring_ok_points by (simp add: budget_payload_def)
  moreover have "ustring_ok (en_schema e)" using envelope_digests(4) [OF m] ustring_ok_points by (simp add: audit_schema_def)
  ultimately show ?thesis
    using envelope_digests(1,2) [OF m] t ustring_ok_points hex_digest_ok
    by (simp add: audit_payload_def early_fields_def late_fields_def audit_texts_ok_def)
qed

section \<open>The record of a context\<close>

text \<open>The reference of an evidence item, and what it needs to be one.\<close>

definition evidence_copy :: "evidence_ref \<Rightarrow> audit_evidence" where
  "evidence_copy e = \<lparr>ae_kind = ev_kind e, ae_reference = code_points (reference_id e), ae_digest = JStr (code_points (digest e))\<rparr>"

definition record_copy :: "transition_record \<Rightarrow> audit_transition" where
  "record_copy r = \<lparr>at_sequence = sequence r, at_iteration = rec_iteration r, at_from = from_state r, at_to = to_state r,
     at_occurred = occurred_at r, at_reason = rec_reason r, at_evidence = map evidence_copy (rec_evidence r)\<rparr>"

definition auditable_evidence :: "evidence_ref \<Rightarrow> bool" where
  "auditable_evidence e \<longleftrightarrow> \<not> blank (reference_id e) \<and> (digest e = [] \<or> hex_digest (code_points (digest e)))"

definition auditable :: "exec_context \<Rightarrow> bool" where
  "auditable c \<longleftrightarrow> valid_context c \<and> history c \<noteq> [] \<and> (\<forall>e \<in> set (evidence c). auditable_evidence e)"

lemma blank_ustring_points: "blank_ustring (code_points s) \<longleftrightarrow> blank s"
proof -
  have "unicode_space (of_char c) \<longleftrightarrow> py_space c" for c :: char
  proof -
    define n where "n = (of_char c :: nat)"
    have "n < 256" unfolding n_def by (rule nat_of_char_less_256)
    then show ?thesis unfolding py_space_def n_def [symmetric] unicode_space_def Let_def by auto
  qed
  then show ?thesis by (simp add: blank_ustring_def blank_iff code_points_def list_all_iff)
qed

lemma audited_evidence_iff: "audited_evidence e = Inr x \<longleftrightarrow> auditable_evidence e \<and> x = evidence_copy e"
proof -
  have "falsy (JStr (code_points (digest e))) \<longleftrightarrow> digest e = []" by (simp add: falsy_def zero_number_def code_points_def)
  then have "make_audit_evidence (evidence_copy e) = Inr (evidence_copy e) \<longleftrightarrow> auditable_evidence e"
    by (simp add: evidence_valid_iff evidence_copy_def auditable_evidence_def blank_ustring_points)
  then show ?thesis using make_audit_evidence_Inr [of "evidence_copy e"] by (auto simp: audited_evidence_def evidence_copy_def)
qed

lemma copies_valid: "auditable_evidence e \<Longrightarrow> make_audit_evidence (evidence_copy e) = Inr (evidence_copy e)"
  using audited_evidence_iff [of e] by (simp add: audited_evidence_def evidence_copy_def)

lemma audit_scan_agrees:
  assumes "scan_history n sc rs = Inr sc'"
    and "as_state a = expected_state sc" "as_iteration a = expected_iteration sc" "as_mutations a = mutation_entries sc"
      "as_verifications a = verification_entries sc" "as_evidence a = map evidence_copy (ledger_evidence sc)"
  shows "\<exists>a'. audit_scan_history n a (map record_copy rs) = Inr a' \<and> as_state a' = expected_state sc' \<and>
      as_iteration a' = expected_iteration sc' \<and> as_mutations a' = mutation_entries sc' \<and>
      as_verifications a' = verification_entries sc' \<and> as_evidence a' = map evidence_copy (ledger_evidence sc')"
  using assms
proof (induction rs arbitrary: n sc a)
  case (Cons r rs)
  from Cons.prems(1) have r: "record_ok n (expected_state sc) (expected_iteration sc) r" "scan_history (n + 1) (scan_next sc r) rs = Inr sc'"
    by (auto simp: bind_res_Inr_iff scan_record_Inr_iff)
  let ?a = "\<lparr>as_state = to_state r, as_iteration = as_iteration a + entered CONTEXT_ASSEMBLING r,
     as_mutations = as_mutations a + entered MUTATING r, as_verifications = as_verifications a + entered VERIFYING r,
     as_evidence = as_evidence a @ map evidence_copy (rec_evidence r)\<rparr>"
  have s: "audit_step n a (record_copy r) = Inr ?a"
    using r(1) Cons.prems by (simp add: audit_step_def record_copy_def record_ok_def entered_def guarded_def)
  from Cons.IH [OF r(2), of ?a] s Cons.prems show ?case by (simp add: scan_next_def)
qed (use assms in auto)

lemma scan_evidence: "scan_history n sc rs = Inr sc' \<Longrightarrow> ledger_evidence sc' = ledger_evidence sc @ concat (map rec_evidence rs)"
proof (induction rs arbitrary: n sc)
  case (Cons r rs)
  then show ?case by (auto simp: bind_res_Inr_iff scan_record_Inr_iff scan_next_def)
qed simp

lemma scan_bounds:
  "scan_history n sc rs = Inr sc' \<Longrightarrow> 1 \<le> n \<Longrightarrow> 0 \<le> expected_iteration sc \<Longrightarrow> \<forall>r \<in> set rs. 1 \<le> sequence r \<and> 0 \<le> rec_iteration r"
proof (induction rs arbitrary: n sc)
  case (Cons r rs)
  then have "record_ok n (expected_state sc) (expected_iteration sc) r" "scan_history (n + 1) (scan_next sc r) rs = Inr sc'"
    by (auto simp: bind_res_Inr_iff scan_record_Inr_iff)
  with Cons.IH [of "n + 1" "scan_next sc r"] Cons.prems show ?case by (auto simp: record_ok_def scan_next_def entered_def)
qed simp

definition context_envelope :: "(bytes \<Rightarrow> string) \<Rightarrow> exec_context \<Rightarrow> audit_envelope" where
  "context_envelope sha c =
     (let d = envelope_draft sha c None (map record_copy (history c)) in d\<lparr>en_digest := audit_digest sha d\<rparr>)"

lemma digest_ignores: "audit_digest sha (e\<lparr>en_digest := x\<rparr>) = audit_digest sha e"
  by (simp add: audit_digest_def payload_without_digest_def early_fields_def late_fields_def)

lemma make_envelope_iff:
  "make_envelope sha e = Inr e \<longleftrightarrow> en_schema e = audit_schema \<and> \<not> blank_ustring (en_execution e) \<and> \<not> blank_ustring (en_run e) \<and>
     hex_digest (en_goal_digest e) \<and> 0 \<le> en_iteration e \<and> validate_structure e = None \<and> hex_digest (en_digest e) \<and>
     en_digest e = audit_digest sha e"
  using hex_not_blank
  by (auto simp: make_envelope_def bind_res_Inr_iff guarded_Inr_iff digest_check_def blank_check_def split: option.splits if_splits)

lemma same_evidence_refl: "list_all2 same_evidence es es"
  by (rule list_all2_refl) (simp add: same_evidence_def)

lemma context_recorded:
  assumes c: "auditable c" and h: "hex_hash sha"
  shows "from_context sha c None = Inr (context_envelope sha c)" and "envelope_valid sha (context_envelope sha c)"
proof -
  let ?d = "envelope_draft sha c None (map record_copy (history c))"
  have v: "valid_context c" and n: "history c \<noteq> []" using c by (simp_all add: auditable_def)
  obtain sc where sc: "scan_history 1 scan_start (history c) = Inr sc" "expected_state sc = state c"
    "expected_iteration sc = iteration c" "mutation_entries sc = mutations_used (budget c)"
    "verification_entries sc = verifications_used (budget c)" "ledger_evidence sc = evidence c"
    using v by (auto simp: valid_context_iff ledger_ok_def)
  have used: "iterations_used (budget c) = iteration c" using v by (auto simp: valid_context_iff ledger_ok_def)
  have flat: "concat (map rec_evidence (history c)) = evidence c"
    using scan_evidence [OF sc(1)] sc(6) by (simp add: scan_start_def)
  have copies: "concat (map at_evidence (map record_copy (history c))) = map evidence_copy (evidence c)"
    by (simp add: flat [symmetric] map_concat o_def record_copy_def)
  have ok: "\<forall>r \<in> set (history c). \<forall>e \<in> set (rec_evidence r). auditable_evidence e"
    using c by (auto simp: auditable_def flat [symmetric])
  have bounds: "\<forall>r \<in> set (history c). make_audit_transition (record_copy r) = Inr (record_copy r)"
    using scan_bounds [OF sc(1)]
    by (auto simp: scan_start_def make_audit_transition_def guarded_Inr_iff record_copy_def first_error_None_iff simp del: first_error.simps)
  from audit_scan_agrees [OF sc(1), of audit_start] obtain a where a: "audit_scan_history 1 audit_start (map record_copy (history c)) = Inr a"
    "as_state a = state c" "as_iteration a = iteration c" "as_mutations a = mutations_used (budget c)"
    "as_verifications a = verifications_used (budget c)" "as_evidence a = map evidence_copy (evidence c)"
    using sc by (auto simp: audit_start_def scan_start_def)
  have st: "validate_structure (context_envelope sha c) = None"
    using a n used same_evidence_refl
    by (simp add: validate_structure_def context_envelope_def envelope_draft_def Let_def copies is_terminal_def del: map_map)
  have hd: "header_ok c" "0 \<le> iteration c" using v used by (auto simp: valid_context_iff budget_ok_def)
  have dg: "en_digest (context_envelope sha c) = audit_digest sha (context_envelope sha c)"
    by (simp add: context_envelope_def Let_def digest_ignores)
  have dh: "hex_digest (audit_digest sha (context_envelope sha c))" using h by (simp add: audit_digest_def json_digest_hex)
  have fd: "en_schema (context_envelope sha c) = audit_schema" "en_execution (context_envelope sha c) = code_points (execution_id c)"
    "en_run (context_envelope sha c) = code_points (run_id c)" "en_iteration (context_envelope sha c) = iteration c"
    "en_goal_digest (context_envelope sha c) = code_points (sha (utf8_encode (goal c)))"
    by (simp_all add: context_envelope_def envelope_draft_def Let_def)
  have m: "make_envelope sha (context_envelope sha c) = Inr (context_envelope sha c)"
    unfolding make_envelope_iff dg using st hd h dh by (simp add: fd header_ok_def blank_ustring_points hex_hash_text)
  have "sequence_res audited_transition (history c) = Inr (map record_copy (history c))"
  proof (rule sequence_res_copies, rule ballI)
    fix r assume r: "r \<in> set (history c)"
    have "sequence_res audited_evidence (rec_evidence r) = Inr (map evidence_copy (rec_evidence r))"
      using ok r by (intro sequence_res_copies) (simp add: audited_evidence_iff)
    then show "audited_transition r = Inr (record_copy r)"
      using bounds r by (simp add: audited_transition_def record_copy_def)
  qed
  then show "from_context sha c None = Inr (context_envelope sha c)"
    using m by (simp add: from_context_def context_envelope_def Let_def)
  have "make_budget (budget c) = Inr (budget c)" using v by (simp add: valid_context_def)
  moreover have "\<forall>t \<in> set (map record_copy (history c)). transition_valid t"
    using bounds ok copies_valid by (simp add: transition_valid_def) (simp add: record_copy_def)
  moreover have "\<forall>e \<in> set (map evidence_copy (evidence c)). make_audit_evidence e = Inr e"
    using c copies_valid by (simp add: auditable_def)
  ultimately show "envelope_valid sha (context_envelope sha c)"
    using m by (simp add: envelope_valid_def context_envelope_def envelope_draft_def Let_def copies del: map_map)
qed

end
