(* ===== verification/AuditStore.thy ===== *)
theory AuditStore
  imports AuditFacts
begin

text \<open>
  The file-backed audit store and its query facade: \<open>governed_audit/store.py\<close> and \<open>query.py\<close>. A record
  is one file, named by the hash of its execution, written beside it and moved into place.

  A call runs under the lock of its process, so it is one step. The name \<open>mkstemp\<close> draws and the system
  calls that fail are arguments.
\<close>

section \<open>The store\<close>

record audit_io =
  aio_temp :: string
  aio_dirs :: "nat option"
  aio_create :: bool
  aio_write :: "nat option"
  aio_replace :: bool
  aio_sync :: bool
  aio_cleanup :: bool

definition audit_io_ok :: "string \<Rightarrow> audit_io" where
  "audit_io_ok t = \<lparr>aio_temp = t, aio_dirs = None, aio_create = False, aio_write = None, aio_replace = False, aio_sync = False,
     aio_cleanup = False\<rparr>"

text \<open>\<open>_path_for\<close>: the file name, unless the identity cannot be encoded.\<close>

definition audit_name :: "(bytes \<Rightarrow> string) \<Rightarrow> ustring \<Rightarrow> audit_exn + string" where
  "audit_name sha i =
     (if blank_ustring i then Inl BlankIdentifier
      else case utf8_strict i of None \<Rightarrow> Inl AuditEncoding | Some b \<Rightarrow> Inr (sha b @ ''.json''))"

definition canonical_bytes :: "audit_envelope \<Rightarrow> bytes" where
  "canonical_bytes e = encode_text (dumps (audit_payload e) @ [10])"

text \<open>
  \<open>mkdir(parents=True, exist_ok=True)\<close> below a base; the number says how many directories can be made.
\<close>

fun make_dirs :: "nat option \<Rightarrow> fs \<Rightarrow> path \<Rightarrow> path \<Rightarrow> fs \<times> bool" where
  "make_dirs k fs base [] = (fs, is_dir fs base)"
| "make_dirs k fs base (x # xs) =
     (if path_exists fs (base @ [x])
      then (if is_dir fs (base @ [x]) then make_dirs k fs (base @ [x]) xs else (fs, False))
      else if fs (place fs (base @ [x])) \<noteq> None \<or> k = Some 0 then (fs, False)
      else make_dirs (map_option (\<lambda>n. n - 1) k) (fs(place fs (base @ [x]) \<mapsto> Dir)) (base @ [x]) xs)"

definition ensure_root :: "audit_io \<Rightarrow> fs \<Rightarrow> path \<Rightarrow> fs \<times> audit_exn option" where
  "ensure_root io fs root =
     (case make_dirs (aio_dirs io) fs [] root of
        (fs1, made) \<Rightarrow> (fs1, if \<not> made then Some (AuditWrite ''audit root cannot be created'')
          else if \<not> is_dir fs1 root then Some (AuditWrite ''audit root is not a directory'') else None))"

definition temp_file :: "audit_io \<Rightarrow> string" where
  "temp_file io = ''.audit-'' @ aio_temp io @ ''.tmp''"

text \<open>\<open>_atomic_write\<close>; the \<open>finally\<close> clause removes the temporary file when it is still there and can be removed.\<close>

definition audit_atomic_write :: "audit_io \<Rightarrow> fs \<Rightarrow> path \<Rightarrow> string \<Rightarrow> bytes \<Rightarrow> fs \<times> audit_exn option" where
  "audit_atomic_write io fs root n data =
     (let t = place fs (root @ [temp_file io]);
          failure = Some (AuditWrite ''atomic audit persistence failed'');
          clean = (\<lambda>f. if aio_cleanup io then f else f(t := None))
      in if aio_create io then (fs, failure)
         else case aio_write io of
           Some k \<Rightarrow> (clean (fs(t \<mapsto> File True (take k data))), failure)
         | None \<Rightarrow>
             if aio_replace io \<or> fs (place fs (root @ [n])) = Some Dir then (clean (fs(t \<mapsto> File True data)), failure)
             else ((fs(place fs (root @ [n]) \<mapsto> File True data))(t := None),
                   if aio_sync io then Some (AuditWrite ''audit directory cannot be synchronized'') else None))"

definition load_path :: "(bytes \<Rightarrow> string) \<Rightarrow> (ustring \<Rightarrow> parsed_time) \<Rightarrow> fs \<Rightarrow> path \<Rightarrow> string \<Rightarrow> audit_exn + audit_envelope" where
  "load_path sha parse fs root n =
     (case read_bytes fs (root @ [n]) of
        None \<Rightarrow> Inl (AuditIntegrity ''audit record cannot be decoded'')
      | Some raw \<Rightarrow>
          (case Option.bind (utf8_decode raw) loads of
             None \<Rightarrow> Inl (AuditIntegrity ''audit record cannot be decoded'')
           | Some j \<Rightarrow>
               bind_res (envelope_from_payload sha parse j) (\<lambda>e.
               bind_res (audit_name sha (en_execution e)) (\<lambda>m.
                 if m \<noteq> n then Inl (AuditIntegrity ''audit filename does not match envelope execution identity'')
                 else if canonical_bytes e \<noteq> raw then Inl (AuditIntegrity ''audit record is not canonically serialized'')
                 else Inr e))))"

definition audit_append :: "(bytes \<Rightarrow> string) \<Rightarrow> (ustring \<Rightarrow> parsed_time) \<Rightarrow> audit_io \<Rightarrow> path \<Rightarrow> fs \<Rightarrow> audit_envelope
    \<Rightarrow> fs \<times> (audit_exn + audit_envelope)" where
  "audit_append sha parse io root fs e =
     (case ensure_root io fs root of
        (fs1, Some x) \<Rightarrow> (fs1, Inl x)
      | (fs1, None) \<Rightarrow>
          (case audit_name sha (en_execution e) of
             Inl x \<Rightarrow> (fs1, Inl x)
           | Inr n \<Rightarrow>
               if path_exists fs1 (root @ [n])
               then (fs1, bind_res (load_path sha parse fs1 root n) (\<lambda>x.
                 if en_digest x = en_digest e then Inr x
                 else Inl (AuditCollision ''execution ID is already bound to a different immutable audit record'')))
               else case audit_atomic_write io fs1 root n (canonical_bytes e) of
                   (fs2, Some x) \<Rightarrow> (fs2, Inl x)
                 | (fs2, None) \<Rightarrow> (fs2, bind_res (load_path sha parse fs2 root n) (\<lambda>x.
                     if en_digest x \<noteq> en_digest e
                     then Inl (AuditIntegrity ''persisted audit record differs from requested immutable record'') else Inr x))))"

section \<open>Queries\<close>

definition audit_get :: "(bytes \<Rightarrow> string) \<Rightarrow> (ustring \<Rightarrow> parsed_time) \<Rightarrow> path \<Rightarrow> fs \<Rightarrow> ustring \<Rightarrow> audit_exn + audit_envelope option" where
  "audit_get sha parse root fs i =
     bind_res (audit_name sha i) (\<lambda>n.
       if \<not> path_exists fs (root @ [n]) then Inr None
       else bind_res (load_path sha parse fs root n) (\<lambda>e. Inr (Some e)))"

definition json_file :: "string \<Rightarrow> bool" where
  "json_file n \<longleftrightarrow> 5 \<le> length n \<and> drop (length n - 5) n = ''.json''"

text \<open>The records of all files of the root, whose listing is an argument, in the order of their executions.\<close>

definition audit_list :: "(bytes \<Rightarrow> string) \<Rightarrow> (ustring \<Rightarrow> parsed_time) \<Rightarrow> path \<Rightarrow> fs \<Rightarrow> string list
    \<Rightarrow> audit_exn + audit_envelope list" where
  "audit_list sha parse root fs names =
     (if \<not> path_exists fs root then Inr []
      else if \<not> is_dir fs root then Inl (AuditWrite ''audit root is not a directory'')
      else bind_res (sequence_res (load_path sha parse fs root) (sort (filter json_file names)))
        (\<lambda>es. Inr (sort_key en_execution es)))"

definition find_by_evidence :: "(bytes \<Rightarrow> string) \<Rightarrow> (ustring \<Rightarrow> parsed_time) \<Rightarrow> path \<Rightarrow> fs \<Rightarrow> string list \<Rightarrow> ustring
    \<Rightarrow> audit_exn + audit_envelope list" where
  "find_by_evidence sha parse root fs names i =
     (if blank_ustring i then Inl BlankIdentifier
      else bind_res (audit_list sha parse root fs names)
        (\<lambda>es. Inr (filter (\<lambda>e. list_ex (\<lambda>x. ae_reference x = i) (en_evidence e)) es)))"

definition interruption_of :: "(bytes \<Rightarrow> string) \<Rightarrow> (ustring \<Rightarrow> parsed_time) \<Rightarrow> path \<Rightarrow> fs \<Rightarrow> ustring
    \<Rightarrow> audit_exn + audit_envelope option" where
  "interruption_of sha parse root fs i =
     bind_res (audit_get sha parse root fs i) (\<lambda>e.
       case e of
         None \<Rightarrow> Inr None
       | Some e \<Rightarrow> if en_disposition e \<noteq> INTERRUPTED then Inr None
           else bind_res (make_interruption e) (\<lambda>e. Inr (Some e)))"

section \<open>A root without links\<close>

definition audit_root_ok :: "fs \<Rightarrow> path \<Rightarrow> bool" where
  "audit_root_ok fs root \<longleftrightarrow> link_free fs [] root \<and> (\<forall>ps zs. root = ps @ zs \<longrightarrow> fs ps = Some Dir) \<and>
     (\<forall>n t. fs (root @ [n]) \<noteq> Some (Link t))"

text \<open>What a record file says.\<close>

definition audit_view :: "(bytes \<Rightarrow> string) \<Rightarrow> (ustring \<Rightarrow> parsed_time) \<Rightarrow> path \<Rightarrow> fs \<Rightarrow> string \<Rightarrow> audit_envelope slot" where
  "audit_view sha parse root fs n =
     (if \<not> path_exists fs (root @ [n]) then Free
      else case load_path sha parse fs root n of Inl _ \<Rightarrow> Damaged | Inr e \<Rightarrow> Held e)"

lemma made_dirs:
  assumes "link_free fs [] (base @ xs)" and "\<forall>ps zs. base @ xs = ps @ zs \<longrightarrow> fs ps = Some Dir"
  shows "make_dirs k fs base xs = (fs, True)"
  using assms
proof (induction xs arbitrary: base)
  case Nil
  have "fs base = Some Dir" using Nil.prems(2) by (metis append_Nil2)
  then show ?case using Nil.prems(1) by (simp add: is_dir_def target_entry_link_free)
next
  case (Cons x xs)
  have b: "(base @ [x]) @ xs = base @ x # xs" by simp
  have "fs (base @ [x]) = Some Dir" using Cons.prems(2) b by metis
  moreover have "link_free fs [] (base @ [x])" using Cons.prems(1) by (simp add: link_free_append split: option.splits)
  ultimately have "target_entry fs (base @ [x]) = Some Dir" by (simp add: target_entry_link_free)
  then show ?case using Cons.IH [of "base @ [x]"] Cons.prems by (simp add: path_exists_def is_dir_def)
qed

lemma root_ensured: "audit_root_ok fs root \<Longrightarrow> ensure_root io fs root = (fs, None)"
  using made_dirs [of fs "[]" root "aio_dirs io"]
  by (simp add: audit_root_ok_def ensure_root_def is_dir_def target_entry_link_free)

lemma root_entry:
  assumes "audit_root_ok fs root"
  shows "target_entry fs (root @ [n]) = fs (root @ [n])" and "place fs (root @ [n]) = root @ [n]"
    and "path_exists fs (root @ [n]) \<longleftrightarrow> fs (root @ [n]) \<noteq> None"
proof -
  have l: "link_free fs [] (root @ [n])" using assms by (auto simp: audit_root_ok_def link_free_append split: option.splits entry.splits)
  then show "target_entry fs (root @ [n]) = fs (root @ [n])" by (simp add: target_entry_plain)
  then show "path_exists fs (root @ [n]) \<longleftrightarrow> fs (root @ [n]) \<noteq> None" by (simp add: path_exists_def)
  show "place fs (root @ [n]) = root @ [n]" using assms by (simp add: audit_root_ok_def place_snoc)
qed

lemma root_update:
  assumes "audit_root_ok fs root"
  shows "audit_root_ok (fs(root @ [n] \<mapsto> File r b)) root" and "audit_root_ok (fs(root @ [n] := None)) root"
  using assms by (auto simp: audit_root_ok_def link_free_update link_free_delete)

lemma audit_view_cong:
  assumes "audit_root_ok fs root" and "audit_root_ok fs' root" and "fs' (root @ [n]) = fs (root @ [n])"
  shows "audit_view sha parse root fs' n = audit_view sha parse root fs n"
  using assms(3) root_entry [OF assms(1)] root_entry [OF assms(2)] by (simp add: audit_view_def load_path_def read_bytes_def)

lemma loaded_written:
  assumes r: "audit_root_ok fs root" and f: "fs (root @ [n]) = Some (File True (canonical_bytes e))"
    and v: "envelope_valid sha e" "audit_texts_ok e" "times_read_back parse e" and n: "audit_name sha (en_execution e) = Inr n"
  shows "load_path sha parse fs root n = Inr e"
proof -
  note ok = envelope_json_ok [OF v(1,2)]
  have "utf8_decode (canonical_bytes e) = Some (dumps (audit_payload e) @ [10])"
    unfolding canonical_bytes_def using dumps_plain [OF ok] by (intro decode_ascii) (simp add: list_all_iff)
  then show ?thesis
    using f n root_entry [OF r] loads_dumps_line [OF ok] envelope_sorted [OF v(1)] envelope_from_to [OF v(1,3)]
    by (simp add: load_path_def read_bytes_def)
qed

text \<open>Whatever is loaded is a value of the constructors, stored in its canonical form under its own name.\<close>

lemma loaded_valid:
  assumes "load_path sha parse fs root n = Inr e"
  shows "envelope_valid sha e" and "audit_name sha (en_execution e) = Inr n" and "read_bytes fs (root @ [n]) = Some (canonical_bytes e)"
  using assms envelope_read_valid
  by (auto simp: load_path_def bind_res_Inr_iff split: option.splits if_splits)

lemma name_not_temp: "audit_name sha i = Inr n \<Longrightarrow> n \<noteq> temp_file io"
proof
  assume "audit_name sha i = Inr n" "n = temp_file io"
  then obtain b where "sha b @ ''.json'' = ''.audit-'' @ aio_temp io @ ''.tmp''"
    by (auto simp: audit_name_def temp_file_def split: if_splits option.splits)
  then have "last (sha b @ ''.json'') = last (''.audit-'' @ aio_temp io @ ''.tmp'')" by (rule arg_cong)
  then show False by simp
qed

text \<open>What the atomic write leaves: the file or not, and at most a temporary file beside it.\<close>

lemma atomic_write_entries:
  assumes r: "audit_root_ok fs root" and t: "n \<noteq> temp_file io" and w: "audit_atomic_write io fs root n data = (fs', m)"
  shows "audit_root_ok fs' root" and "q \<noteq> root @ [n] \<Longrightarrow> q \<noteq> root @ [temp_file io] \<Longrightarrow> fs' q = fs q"
    and "m = None \<Longrightarrow> fs' (root @ [n]) = Some (File True data)"
    and "fs' (root @ [n]) \<in> {fs (root @ [n]), Some (File True data)}"
  using w t r root_update [OF r] root_update [OF root_update(1) [OF r]]
  by (auto simp: audit_atomic_write_def root_entry [OF r] Let_def split: if_splits option.splits)

text \<open>The specification: a slot is written once, and a record for a taken slot is admitted by its digest.\<close>

fun record_once :: "(string \<Rightarrow> audit_envelope slot) \<Rightarrow> string \<Rightarrow> audit_envelope \<Rightarrow> (string \<Rightarrow> audit_envelope slot) \<times> audit_envelope option" where
  "record_once st n e =
     (case st n of
        Free \<Rightarrow> (st(n := Held e), Some e)
      | Held x \<Rightarrow> (st, if en_digest x = en_digest e then Some x else None)
      | Damaged \<Rightarrow> (st, None))"

definition answer :: "audit_exn + audit_envelope \<Rightarrow> audit_envelope option" where
  "answer r = (case r of Inl _ \<Rightarrow> None | Inr e \<Rightarrow> Some e)"

definition agrees_beside :: "string \<Rightarrow> (string \<Rightarrow> 'a) \<Rightarrow> (string \<Rightarrow> 'a) \<Rightarrow> bool" where
  "agrees_beside t f g \<longleftrightarrow> (\<forall>m. m \<noteq> t \<longrightarrow> f m = g m)"

definition storable :: "(bytes \<Rightarrow> string) \<Rightarrow> (ustring \<Rightarrow> parsed_time) \<Rightarrow> audit_envelope \<Rightarrow> bool" where
  "storable sha parse e \<longleftrightarrow> envelope_valid sha e \<and> audit_texts_ok e \<and> times_read_back parse e"

text \<open>A call does what the specification says and answers so; or it fails and did it, or nothing.\<close>

lemma append_refines_once:
  assumes r: "audit_root_ok fs root" and e: "storable sha parse e" and n: "audit_name sha (en_execution e) = Inr n"
    and a: "audit_append sha parse io root fs e = (fs', res)"
    and spec: "record_once (audit_view sha parse root fs) n e = (st, out)"
  shows "audit_root_ok fs' root \<and>
    (agrees_beside (temp_file io) (audit_view sha parse root fs') st \<and> answer res \<in> {out, None} \<or>
     agrees_beside (temp_file io) (audit_view sha parse root fs') (audit_view sha parse root fs) \<and> answer res = None)"
proof (cases "path_exists fs (root @ [n])")
  case True
  then have f: "fs' = fs" and res: "res = bind_res (load_path sha parse fs root n) (\<lambda>x.
      if en_digest x = en_digest e then Inr x
      else Inl (AuditCollision ''execution ID is already bound to a different immutable audit record''))"
    using a n root_ensured [OF r] by (auto simp: audit_append_def)
  have "audit_view sha parse root fs n = (case load_path sha parse fs root n of Inl _ \<Rightarrow> Damaged | Inr x \<Rightarrow> Held x)"
    using True by (simp add: audit_view_def)
  then show ?thesis using r spec
    by (auto simp: f res agrees_beside_def answer_def split: sum.splits)
next
  case False
  then have free: "audit_view sha parse root fs n = Free" and none: "fs (root @ [n]) = None"
    using root_entry [OF r] by (simp_all add: audit_view_def)
  obtain fs2 m where w: "audit_atomic_write io fs root n (canonical_bytes e) = (fs2, m)"
    by (cases "audit_atomic_write io fs root n (canonical_bytes e)")
  note t = name_not_temp [OF n, of io]
  note h = atomic_write_entries [OF r t w]
  have f: "fs' = fs2" using a n False root_ensured [OF r] w by (auto simp: audit_append_def split: option.splits)
  have beside: "audit_view sha parse root fs' k = audit_view sha parse root fs k" if "k \<noteq> n" "k \<noteq> temp_file io" for k
    using audit_view_cong [OF r h(1), of k] h(2) [of "root @ [k]"] that by (simp add: f)
  have held: "audit_view sha parse root fs' n = Held e \<and> load_path sha parse fs' root n = Inr e"
    if "fs' (root @ [n]) = Some (File True (canonical_bytes e))"
    using loaded_written [OF h(1) _ _ _ _ n] that e root_entry [OF h(1), of n] by (simp add: f audit_view_def storable_def)
  have spec': "st = (audit_view sha parse root fs)(n := Held e)" "out = Some e" using spec free by simp_all
  show ?thesis
  proof (cases m)
    case None
    have i: "fs' (root @ [n]) = Some (File True (canonical_bytes e))" using h(3) [OF None] by (simp add: f)
    have "res = Inr e" using a n False root_ensured [OF r] w None held [OF i] by (simp add: audit_append_def f)
    then show ?thesis using held [OF i] beside h(1) by (simp add: spec' f agrees_beside_def answer_def)
  next
    case (Some x)
    have "answer res = None" using a n False root_ensured [OF r] w Some by (auto simp: audit_append_def answer_def)
    moreover consider "fs' (root @ [n]) = Some (File True (canonical_bytes e))" | "fs' (root @ [n]) = None"
      using h(4) none f by auto
    then have "agrees_beside (temp_file io) (audit_view sha parse root fs') st \<or>
        agrees_beside (temp_file io) (audit_view sha parse root fs') (audit_view sha parse root fs)"
    proof cases
      case 1
      then show ?thesis using held beside by (simp add: spec' agrees_beside_def)
    next
      case 2
      then have "audit_view sha parse root fs' n = Free" using root_entry [OF h(1)] by (simp add: f audit_view_def)
      then show ?thesis using free beside by (metis agrees_beside_def)
    qed
    ultimately show ?thesis using h(1) by (auto simp: f)
  qed
qed

text \<open>Without failures it does what the specification says.\<close>

lemma append_refines_ok:
  assumes r: "audit_root_ok fs root" and e: "storable sha parse e" and n: "audit_name sha (en_execution e) = Inr n"
    and f: "audit_view sha parse root fs n = Free"
  shows "snd (audit_append sha parse (audit_io_ok t) root fs e) = Inr e"
proof -
  have x: "\<not> path_exists fs (root @ [n])" using f by (simp add: audit_view_def split: if_splits sum.splits)
  obtain fs2 m where w: "audit_atomic_write (audit_io_ok t) fs root n (canonical_bytes e) = (fs2, m)"
    by (cases "audit_atomic_write (audit_io_ok t) fs root n (canonical_bytes e)")
  note h = atomic_write_entries [OF r name_not_temp [OF n, of "audit_io_ok t"] w]
  have m: "m = None" using w x root_entry [OF r] by (auto simp: audit_atomic_write_def audit_io_ok_def Let_def)
  have "load_path sha parse fs2 root n = Inr e" using loaded_written [OF h(1) h(3) [OF m] _ _ _ n] e by (simp add: storable_def)
  then show ?thesis using n x root_ensured [OF r] w m by (simp add: audit_append_def)
qed

section \<open>Sequences of appends\<close>

fun audit_run :: "(bytes \<Rightarrow> string) \<Rightarrow> (ustring \<Rightarrow> parsed_time) \<Rightarrow> path \<Rightarrow> fs \<Rightarrow> (audit_io \<times> audit_envelope) list \<Rightarrow> fs" where
  "audit_run sha parse root fs [] = fs"
| "audit_run sha parse root fs ((io, e) # es) = audit_run sha parse root (fst (audit_append sha parse io root fs e)) es"

lemma append_keeps:
  assumes r: "audit_root_ok fs root" and e: "storable sha parse e" and k: "audit_name sha i = Inr k"
    and h: "audit_view sha parse root fs k = Held x"
  shows "audit_root_ok (fst (audit_append sha parse io root fs e)) root \<and>
    audit_view sha parse root (fst (audit_append sha parse io root fs e)) k = Held x"
proof (cases "audit_name sha (en_execution e)")
  case (Inl y)
  then show ?thesis using r h root_ensured [OF r] by (simp add: audit_append_def)
next
  case (Inr n)
  obtain fs' res where a: "audit_append sha parse io root fs e = (fs', res)" by (cases "audit_append sha parse io root fs e")
  obtain st out where s: "record_once (audit_view sha parse root fs) n e = (st, out)"
    by (cases "record_once (audit_view sha parse root fs) n e")
  have "st k = Held x" using s h by (auto split: slot.splits if_splits)
  then show ?thesis using append_refines_once [OF r e Inr a s] h name_not_temp [OF k, of io] by (auto simp: a agrees_beside_def)
qed

lemma run_keeps_records:
  assumes "audit_root_ok fs root" and "\<forall>p \<in> set es. storable sha parse (snd p)" and "audit_name sha i = Inr k"
    and "audit_view sha parse root fs k = Held x"
  shows "audit_root_ok (audit_run sha parse root fs es) root \<and> audit_view sha parse root (audit_run sha parse root fs es) k = Held x"
  using assms
proof (induction es arbitrary: fs)
  case (Cons p es)
  obtain io e where p: "p = (io, e)" by (cases p)
  then have "storable sha parse e" using Cons.prems(2) by simp
  from append_keeps [OF Cons.prems(1) this Cons.prems(3,4), of io] Cons show ?case by (simp add: p)
qed simp

lemma get_view: "audit_name sha i = Inr n \<Longrightarrow> audit_view sha parse root fs n = Held x \<Longrightarrow> audit_get sha parse root fs i = Inr (Some x)"
  by (auto simp: audit_get_def audit_view_def split: if_splits sum.splits)

section \<open>The limits of immutability\<close>

text \<open>
  The lock is one of the process: a write that was decided before another process recorded the same
  execution replaces that record.
\<close>

lemma late_write_overwrites:
  assumes r: "audit_root_ok fs root" and e: "storable sha parse e" and n: "audit_name sha (en_execution e) = Inr n"
    and h: "audit_view sha parse root fs n = Held x"
  shows "audit_view sha parse root (fst (audit_atomic_write (audit_io_ok t) fs root n (canonical_bytes e))) n = Held e"
proof -
  obtain fs2 m where w: "audit_atomic_write (audit_io_ok t) fs root n (canonical_bytes e) = (fs2, m)"
    by (cases "audit_atomic_write (audit_io_ok t) fs root n (canonical_bytes e)")
  note k = atomic_write_entries [OF r name_not_temp [OF n, of "audit_io_ok t"] w]
  have "fs (root @ [n]) \<noteq> Some Dir"
    using h root_entry [OF r, of n] by (auto simp: audit_view_def load_path_def read_bytes_def split: if_splits)
  then have m: "m = None" using w root_entry [OF r] by (auto simp: audit_atomic_write_def audit_io_ok_def Let_def)
  have "load_path sha parse fs2 root n = Inr e" using loaded_written [OF k(1) k(3) [OF m] _ _ _ n] e by (simp add: storable_def)
  then show ?thesis using k(3) [OF m] root_entry [OF k(1)] by (simp add: w audit_view_def)
qed

end
