(* ===== verification/AuditRecorder.thy ===== *)
theory AuditRecorder
  imports AuditStore RuntimeEffects
begin

text \<open>
  The recorder that turns contexts into records (\<open>governed_audit/recorder.py\<close>), and the same recorder as
  the audit observer of the governed serial runtime.
\<close>

section \<open>The recorder over the file store\<close>

definition audit_preflight :: "path \<Rightarrow> fs \<Rightarrow> path \<Rightarrow> audit_exn option" where
  "audit_preflight aroot fs workspace =
     (if inside (resolve fs workspace) aroot
      then Some (AuditRequires ''audit root must be separate from the governed subject workspace'') else None)"

definition record_context :: "(bytes \<Rightarrow> string) \<Rightarrow> (ustring \<Rightarrow> parsed_time) \<Rightarrow> audit_io \<Rightarrow> path \<Rightarrow> fs \<Rightarrow> exec_context
    \<Rightarrow> fs \<times> (audit_exn + audit_envelope)" where
  "record_context sha parse io aroot fs c =
     (case from_context sha c None of Inl x \<Rightarrow> (fs, Inl x) | Inr e \<Rightarrow> audit_append sha parse io aroot fs e)"

definition record_terminal_result :: "(bytes \<Rightarrow> string) \<Rightarrow> (ustring \<Rightarrow> parsed_time) \<Rightarrow> audit_io \<Rightarrow> path \<Rightarrow> fs \<Rightarrow> exec_result
    \<Rightarrow> fs \<times> (audit_exn + audit_envelope)" where
  "record_terminal_result sha parse io aroot fs x =
     (if \<not> is_terminal (state (xr_context x))
      then (fs, Inl (AuditRequires ''only terminal governed results can be recorded as terminal''))
      else if exec_succeeded x \<noteq> (state (xr_context x) = COMPLETED)
      then (fs, Inl (AuditRequires ''terminal result success is inconsistent with context state''))
      else record_context sha parse io aroot fs (xr_context x))"

definition record_interruption :: "(bytes \<Rightarrow> string) \<Rightarrow> (ustring \<Rightarrow> parsed_time) \<Rightarrow> audit_io \<Rightarrow> path \<Rightarrow> fs \<Rightarrow> exec_context
    \<Rightarrow> fs \<times> (audit_exn + audit_envelope)" where
  "record_interruption sha parse io aroot fs c =
     (if is_terminal (state c) then (fs, Inl (AuditRequires ''terminal contexts cannot be recorded as interruptions''))
      else case from_context sha c (Some INTERRUPTED) of
        Inl x \<Rightarrow> (fs, Inl x) | Inr e \<Rightarrow> audit_append sha parse io aroot fs e)"

text \<open>The observer of the runtime: whether a call raises, and what it leaves.\<close>

definition audit_recorder :: "(bytes \<Rightarrow> string) \<Rightarrow> (ustring \<Rightarrow> parsed_time) \<Rightarrow> audit_io \<Rightarrow> path \<Rightarrow> audit_observer" where
  "audit_recorder sha parse io aroot =
     \<lparr>ao_preflight = (\<lambda>fs w. audit_preflight aroot fs w = None),
      ao_record = (\<lambda>fs x. case record_terminal_result sha parse io aroot fs x of
        (fs', Inl _) \<Rightarrow> (fs', False) | (fs', Inr _) \<Rightarrow> (fs', True))\<rparr>"

section \<open>What a call that returns has recorded\<close>

text \<open>The store has a record of that digest for the execution, whether it was written now or before.\<close>

definition on_record :: "(bytes \<Rightarrow> string) \<Rightarrow> (ustring \<Rightarrow> parsed_time) \<Rightarrow> path \<Rightarrow> fs \<Rightarrow> audit_envelope \<Rightarrow> bool" where
  "on_record sha parse aroot fs e \<longleftrightarrow> (\<exists>p. audit_get sha parse aroot fs (en_execution e) = Inr (Some p) \<and>
     envelope_valid sha p \<and> en_digest p = en_digest e)"

lemma append_recorded:
  assumes "audit_append sha parse io aroot fs e = (fs', Inr p)"
  shows "on_record sha parse aroot fs' e"
proof -
  from assms obtain n where n: "audit_name sha (en_execution e) = Inr n" and l: "load_path sha parse fs' aroot n = Inr p"
      and d: "en_digest p = en_digest e"
    by (auto simp: audit_append_def bind_res_Inr_iff split: prod.splits option.splits sum.splits if_splits)
  have "path_exists fs' (aroot @ [n])"
    using loaded_valid(3) [OF l] by (auto simp: read_bytes_def path_exists_def split: option.splits)
  then have "audit_get sha parse aroot fs' (en_execution e) = Inr (Some p)"
    using n l by (simp add: audit_get_def)
  then show ?thesis using loaded_valid(1) [OF l] d by (auto simp: on_record_def)
qed

lemma recorder_recorded:
  assumes "ao_record (audit_recorder sha parse io aroot) fs x = (fs', True)"
  obtains e where "from_context sha (xr_context x) None = Inr e" and "on_record sha parse aroot fs' e"
proof -
  from assms obtain p where "record_terminal_result sha parse io aroot fs x = (fs', Inr p)"
    by (auto simp: audit_recorder_def split: prod.splits sum.splits)
  then obtain e where e: "from_context sha (xr_context x) None = Inr e" "audit_append sha parse io aroot fs e = (fs', Inr p)"
    by (auto simp: record_terminal_result_def record_context_def split: if_splits sum.splits)
  from that [OF e(1) append_recorded [OF e(2)]] show ?thesis .
qed

section \<open>A run with an observer\<close>

text \<open>An observer changes nothing of a run but its end.\<close>

lemma audit_selectors:
  "rt_clock (R\<lparr>rt_audit := a\<rparr>) = rt_clock R" "rt_assemble (R\<lparr>rt_audit := a\<rparr>) = rt_assemble R" "rt_build (R\<lparr>rt_audit := a\<rparr>) = rt_build R"
  "rt_gateway (R\<lparr>rt_audit := a\<rparr>) = rt_gateway R" "rt_workflow (R\<lparr>rt_audit := a\<rparr>) = rt_workflow R" "rt_faults (R\<lparr>rt_audit := a\<rparr>) = rt_faults R"
  "rt_specify (R\<lparr>rt_audit := a\<rparr>) = rt_specify R" "rt_sha (R\<lparr>rt_audit := a\<rparr>) = rt_sha R" "rt_root (R\<lparr>rt_audit := a\<rparr>) = rt_root R"
  "rt_request_id (R\<lparr>rt_audit := a\<rparr>) = rt_request_id R" "rt_verification_id (R\<lparr>rt_audit := a\<rparr>) = rt_verification_id R" "rt_bus_raises (R\<lparr>rt_audit := a\<rparr>) = rt_bus_raises R"
  "rt_engine (R\<lparr>rt_audit := a\<rparr>) = rt_engine R" "rt_memory_ids (R\<lparr>rt_audit := a\<rparr>) = rt_memory_ids R" "rt_plan (R\<lparr>rt_audit := a\<rparr>) = rt_plan R"
  by simp_all

lemma ledger_audit_free:
  "advance_to (R\<lparr>rt_audit := a\<rparr>) = advance_to R"
  "decision_identity (R\<lparr>rt_audit := a\<rparr>) = decision_identity R"
  unfolding advance_to_def decision_identity_def audit_selectors by (rule refl)+

lemma audit_free:
  "step_with (R\<lparr>rt_audit := a\<rparr>) = step_with R"
  "failed (R\<lparr>rt_audit := a\<rparr>) = failed R"
  "closing_step (R\<lparr>rt_audit := a\<rparr>) = closing_step R"
  unfolding step_with_def failed_def closing_step_def audit_selectors ledger_audit_free by (rule refl)+

lemma observer_steps_free:
  "on_deciding (R\<lparr>rt_audit := a\<rparr>) = on_deciding R"
  "on_proposing (R\<lparr>rt_audit := a\<rparr>) = on_proposing R"
  "on_authorizing (R\<lparr>rt_audit := a\<rparr>) = on_authorizing R"
  "on_mutating (R\<lparr>rt_audit := a\<rparr>) = on_mutating R"
  unfolding on_deciding_def on_proposing_def on_authorizing_def on_mutating_def audit_selectors ledger_audit_free audit_free by (rule refl)+

lemma observer_audit_free:
  "runtime_observer (R\<lparr>rt_audit := a\<rparr>) = runtime_observer R"
  unfolding runtime_observer_def audit_selectors observer_steps_free by (rule refl)+

lemma verified_audit_free:
  "verified (R\<lparr>rt_audit := a\<rparr>) = verified R"
  unfolding verified_def audit_selectors audit_free by (rule refl)+

lemma workflow_audit_free:
  "after_workflow (R\<lparr>rt_audit := a\<rparr>) = after_workflow R"
  "assembled (R\<lparr>rt_audit := a\<rparr>) = assembled R"
  unfolding after_workflow_def assembled_def audit_selectors audit_free verified_audit_free by (rule refl)+

lemma run_audit_free:
  "run_iteration (R\<lparr>rt_audit := a\<rparr>) = run_iteration R"
  unfolding run_iteration_def audit_selectors audit_free workflow_audit_free observer_audit_free by (rule refl)+

lemma iteration_audit_free:
  "execute_iteration (R\<lparr>rt_audit := a\<rparr>) = execute_iteration R"
  unfolding execute_iteration_def audit_selectors ledger_audit_free audit_free workflow_audit_free run_audit_free by (rule refl)+

lemma reflection_audit_free:
  "reflected (R\<lparr>rt_audit := a\<rparr>) = reflected R"
  "next_input (R\<lparr>rt_audit := a\<rparr>) = next_input R"
  "replanned (R\<lparr>rt_audit := a\<rparr>) = replanned R"
  unfolding reflected_def next_input_def replanned_def audit_selectors ledger_audit_free by (rule refl)+

lemma replanning_audit_free:
  "replanning_step (R\<lparr>rt_audit := a\<rparr>) = replanning_step R"
  unfolding replanning_step_def audit_selectors ledger_audit_free audit_free reflection_audit_free by (rule refl)+

lemma recovery_audit_free:
  "recovery_of (R\<lparr>rt_audit := a\<rparr>) = recovery_of R"
  "closing (R\<lparr>rt_audit := a\<rparr>) = closing R"
  unfolding recovery_of_def closing_def audit_selectors ledger_audit_free audit_free reflection_audit_free replanning_audit_free by (rule refl)+

text \<open>The end of a run, as an observer sees it.\<close>

definition observed_end :: "audit_observer \<Rightarrow> mutation_state \<times> (runtime_exn + exec_result) \<Rightarrow> mutation_state \<times> (runtime_exn + exec_result)" where
  "observed_end A out =
     (case out of
        (s, Inl e) \<Rightarrow> (s, Inl e)
      | (s, Inr x) \<Rightarrow>
          (case ao_record A (tree s) x of
             (fs, ok) \<Rightarrow> (s\<lparr>tree := fs\<rparr>, if ok then Inr x
               else Inl (AuditRequired ''terminal execution result could not be persisted to the required audit store''))))"

lemma observed_Inl: "observed_end A (s, Inl e) = (s, Inl e)"
  by (simp add: observed_end_def)

lemma terminal_observed: "terminal_result (R\<lparr>rt_audit := Some A\<rparr>) s c arts = observed_end A (terminal_result (R\<lparr>rt_audit := None\<rparr>) s c arts)"
  by (simp add: terminal_result_def observed_end_def split: sum.splits)

lemma conclude_observed: "conclude (R\<lparr>rt_audit := Some A\<rparr>) s m arts = observed_end A (conclude (R\<lparr>rt_audit := None\<rparr>) s m arts)"
  by (simp add: conclude_def terminal_observed observed_Inl split: sum.splits)

lemma loop_observed:
  "serial_loop (R\<lparr>rt_audit := Some A\<rparr>) rq ns s c arts previous ri
    = observed_end A (serial_loop (R\<lparr>rt_audit := None\<rparr>) rq ns s c arts previous ri)"
proof (induction ns arbitrary: s c arts previous ri)
  case (Cons n ns)
  show ?case
    by (simp add: Let_def iteration_audit_free recovery_audit_free audit_free terminal_observed conclude_observed observed_Inl Cons.IH
        split: prod.splits sum.splits option.splits)
qed (simp add: observed_Inl)

lemma run_observed:
  "execute_run (R\<lparr>rt_audit := Some A\<rparr>) rq s =
    (if ao_preflight A (tree s) (rr_workspace rq) then observed_end A (execute_run (R\<lparr>rt_audit := None\<rparr>) rq s)
     else (s, Inl (AuditRequired ''required audit observation could not be prepared before execution'')))"
  by (simp add: execute_run_def loop_observed observed_Inl del: serial_loop.simps split: sum.splits)

text \<open>An observed run that returns left its record.\<close>

lemma observed_recorded:
  assumes "observed_end (audit_recorder sha parse io aroot) out = (s', Inr x)"
  obtains e where "from_context sha (xr_context x) None = Inr e" and "on_record sha parse aroot (tree s') e"
proof -
  from assms obtain s fs where "ao_record (audit_recorder sha parse io aroot) (tree s) x = (fs, True)" "s' = s\<lparr>tree := fs\<rparr>"
    by (auto simp: observed_end_def split: prod.splits sum.splits if_splits)
  with recorder_recorded [of sha parse io aroot "tree s" x fs] that show ?thesis by auto
qed

end
