(* ===== verification/Audit_Properties.thy ===== *)
theory Audit_Properties
  imports AuditRecorder Runtime_Properties
begin

text \<open>
  The properties of the audit records, their store and the audited runtime, over the record of the concrete
  execution of theory \<open>Runtime_Properties\<close>.
\<close>

section \<open>A concrete record\<close>

definition parse_start :: "ustring \<Rightarrow> parsed_time" where
  "parse_start s = Instant 0"

definition demo_name :: string where
  "demo_name = run_hash (encode_text (code_points ''e'')) @ ''.json''"

definition demo_recorder :: audit_observer where
  "demo_recorder = audit_recorder run_hash parse_start (audit_io_ok ''x'') []"

lemma run_hash_hex: "hex_hash run_hash"
  by (simp add: hex_hash_def run_hash_def hex_digest_def code_points_def list_all_iff lower_hex_def)

lemma latin_points: "latin_text (code_points s) = s"
  by (induction s) (simp_all add: latin_text_def code_points_def)

lemma demo_context:
  obtains x where "demo_out = Inr x" and "exec_succeeded x" and "auditable (xr_context x)" and "is_terminal (state (xr_context x))"
    and "execution_id (xr_context x) = ''e''" and "\<forall>r \<in> set (history (xr_context x)). occurred_at r = 0"
proof -
  from demo_result obtain x where x: "demo_out = Inr x" "exec_succeeded x" "plain_ledger (xr_context x)" by blast
  have b: "budget_ok (rr_budget demo_run_request)" "max_mutations (rr_budget demo_run_request) = 2"
      "max_verifications (rr_budget demo_run_request) = 2"
    by (simp_all add: demo_run_request_def budget_ok_def)
  from run_accounted [OF demo_run [unfolded x(1)] b] obtain c0 where
    c: "initial_context demo_run_request = Inr c0" "accounted c0 x" by blast
  have "execution_id (xr_context x) = latin_text (rr_execution demo_run_request)"
    using initial_context_ok [OF c(1) b(1)] c(2) by (simp add: accounted_def Let_def)
  also have "\<dots> = ''e''" by (simp add: demo_run_request_def latin_points)
  finally have e: "execution_id (xr_context x) = ''e''" .
  have "\<forall>e \<in> set (evidence (xr_context x)). auditable_evidence e"
    using x(3) run_hash_hex by (auto simp: plain_ledger_def list_all_iff auditable_evidence_def hex_digest_def code_points_def lower_hex_def)
  then have "auditable (xr_context x)" using c(2) x(3) by (simp add: auditable_def accounted_def Let_def plain_ledger_def)
  moreover have "is_terminal (state (xr_context x))" using c(2) by (simp add: accounted_def Let_def)
  ultimately show ?thesis using that x e by (simp add: plain_ledger_def list_all_iff)
qed

lemma context_storable:
  assumes "auditable c" and "hex_hash sha" and "\<forall>r \<in> set (history c). occurred_at r = 0"
  shows "storable sha parse_start (context_envelope sha c)"
proof -
  have "audit_texts_ok (context_envelope sha c)"
    using ustring_ok_points by (auto simp: audit_texts_ok_def context_envelope_def envelope_draft_def Let_def evidence_text_ok_def
        record_copy_def evidence_copy_def)
  moreover have "times_read_back parse_start (context_envelope sha c)"
    using assms(3) by (auto simp: times_read_back_def context_envelope_def envelope_draft_def Let_def record_copy_def parse_start_def)
  ultimately show ?thesis using context_recorded(2) [OF assms(1,2)] by (simp add: storable_def)
qed

section \<open>Records\<close>

lemma audit_scan_facts:
  assumes "audit_scan_history n a ts = Inr a'"
  shows "as_state a' = (if ts = [] then as_state a else at_to (last ts))"
    and "as_iteration a' = as_iteration a + int (length (filter (\<lambda>t. at_to t = CONTEXT_ASSEMBLING) ts))"
    and "as_mutations a' = as_mutations a + int (length (filter (\<lambda>t. at_to t = MUTATING) ts))"
    and "as_verifications a' = as_verifications a + int (length (filter (\<lambda>t. at_to t = VERIFYING) ts))"
    and "\<forall>i < length ts. at_sequence (ts ! i) = n + int i \<and> at_to (ts ! i) \<in> legal_transitions (at_from (ts ! i)) \<and>
      at_from (ts ! i) = (if i = 0 then as_state a else at_to (ts ! (i - 1)))"
proof -
  have "as_state a' = (if ts = [] then as_state a else at_to (last ts)) \<and>
    as_iteration a' = as_iteration a + int (length (filter (\<lambda>t. at_to t = CONTEXT_ASSEMBLING) ts)) \<and>
    as_mutations a' = as_mutations a + int (length (filter (\<lambda>t. at_to t = MUTATING) ts)) \<and>
    as_verifications a' = as_verifications a + int (length (filter (\<lambda>t. at_to t = VERIFYING) ts)) \<and>
    (\<forall>i < length ts. at_sequence (ts ! i) = n + int i \<and> at_to (ts ! i) \<in> legal_transitions (at_from (ts ! i)) \<and>
      at_from (ts ! i) = (if i = 0 then as_state a else at_to (ts ! (i - 1))))"
    using assms
  proof (induction ts arbitrary: n a)
    case (Cons t ts)
    from Cons.prems obtain b where b: "audit_step n a t = Inr b" "audit_scan_history (n + 1) b ts = Inr a'"
      by (auto simp: bind_res_Inr_iff)
    then have s: "at_sequence t = n" "at_from t = as_state a" "at_to t \<in> legal_transitions (at_from t)" "as_state b = at_to t"
        "as_iteration b = as_iteration a + (if at_to t = CONTEXT_ASSEMBLING then 1 else 0)"
        "as_mutations b = as_mutations a + (if at_to t = MUTATING then 1 else 0)"
        "as_verifications b = as_verifications a + (if at_to t = VERIFYING then 1 else 0)"
      by (auto simp: audit_step_def Let_def guarded_Inr_iff split: if_splits)
    note i = Cons.IH [OF b(2)]
    have j: "at_sequence ((t # ts) ! i) = n + int i \<and> at_to ((t # ts) ! i) \<in> legal_transitions (at_from ((t # ts) ! i)) \<and>
      at_from ((t # ts) ! i) = (if i = 0 then as_state a else at_to ((t # ts) ! (i - 1)))" if "i < length (t # ts)" for i
    proof (cases i)
      case (Suc j)
      then show ?thesis using i that s by (cases j) auto
    qed (use s in simp)
    show ?case
    proof (intro conjI)
      show "\<forall>i < length (t # ts). at_sequence ((t # ts) ! i) = n + int i \<and>
          at_to ((t # ts) ! i) \<in> legal_transitions (at_from ((t # ts) ! i)) \<and>
          at_from ((t # ts) ! i) = (if i = 0 then as_state a else at_to ((t # ts) ! (i - 1)))" using j by blast
    qed (use i s in simp_all)
  qed simp
  then show "as_state a' = (if ts = [] then as_state a else at_to (last ts))"
    and "as_iteration a' = as_iteration a + int (length (filter (\<lambda>t. at_to t = CONTEXT_ASSEMBLING) ts))"
    and "as_mutations a' = as_mutations a + int (length (filter (\<lambda>t. at_to t = MUTATING) ts))"
    and "as_verifications a' = as_verifications a + int (length (filter (\<lambda>t. at_to t = VERIFYING) ts))"
    and "\<forall>i < length ts. at_sequence (ts ! i) = n + int i \<and> at_to (ts ! i) \<in> legal_transitions (at_from (ts ! i)) \<and>
      at_from (ts ! i) = (if i = 0 then as_state a else at_to (ts ! (i - 1)))" by blast+
qed

text \<open>How often a record enters a state.\<close>

definition entries :: "exec_state \<Rightarrow> audit_envelope \<Rightarrow> int" where
  "entries s e = int (length (filter (\<lambda>t. at_to t = s) (en_history e)))"

text \<open>A history as it must be: from the start, along legal transitions, numbered, to the state of the record.\<close>

definition well_formed_history :: "audit_envelope \<Rightarrow> bool" where
  "well_formed_history e \<longleftrightarrow> en_history e \<noteq> [] \<and> en_state e = at_to (last (en_history e)) \<and>
     (\<forall>i < length (en_history e). at_sequence (en_history e ! i) = 1 + int i \<and>
        at_to (en_history e ! i) \<in> legal_transitions (at_from (en_history e ! i)) \<and>
        at_from (en_history e ! i) = (if i = 0 then CREATED else at_to (en_history e ! (i - 1))))"

lemma envelope_history:
  assumes "make_envelope sha e = Inr e"
  shows "well_formed_history e" and "entries CONTEXT_ASSEMBLING e = en_iteration e" and "en_iteration e = iterations_used (en_budget e)"
    and "entries MUTATING e = mutations_used (en_budget e)" and "entries VERIFYING e = verifications_used (en_budget e)"
    and "en_disposition e = TERMINAL \<longleftrightarrow> is_terminal (en_state e)"
proof -
  from envelope_digests(7) [OF assms] obtain a where h: "en_history e \<noteq> []" "audit_scan_history 1 audit_start (en_history e) = Inr a"
    and f: "as_state a = en_state e" "as_iteration a = en_iteration e" "en_iteration e = iterations_used (en_budget e)"
      "as_mutations a = mutations_used (en_budget e)" "as_verifications a = verifications_used (en_budget e)"
      "\<not> (en_disposition e = TERMINAL \<and> \<not> is_terminal (en_state e))" "\<not> (en_disposition e = INTERRUPTED \<and> is_terminal (en_state e))"
    by (auto simp: validate_structure_def first_error_None_iff simp del: first_error.simps split: if_splits sum.splits)
  note s = audit_scan_facts [OF h(2)]
  have z: "as_state audit_start = CREATED" by (simp add: audit_start_def)
  show "well_formed_history e" unfolding well_formed_history_def
    using h(1) s(1) f(1) s(5) [unfolded z] by (intro conjI) (simp, simp, blast)
  show "entries CONTEXT_ASSEMBLING e = en_iteration e" "entries MUTATING e = mutations_used (en_budget e)"
    "entries VERIFYING e = verifications_used (en_budget e)" using s(2-4) f by (simp_all add: entries_def audit_start_def)
  show "en_iteration e = iterations_used (en_budget e)" by (rule f(3))
  show "en_disposition e = TERMINAL \<longleftrightarrow> is_terminal (en_state e)" using f(6,7) by (cases "en_disposition e") auto
qed

text \<open>C33. Whatever a file of the audit root is, a record loaded from it satisfies its constructor and those of its parts: its
  history is a legal run of the lifecycle from the start to its state, numbered from one, its counters are what it entered,
  it is terminal exactly when its state is, its digest is that of its content, and the file holds exactly its canonical
  bytes under the name of its execution.\<close>

theorem audit_loads_typed:
  assumes "load_path sha parse fs aroot n = Inr e"
  shows "envelope_valid sha e \<and> well_formed_history e \<and> (en_disposition e = TERMINAL \<longleftrightarrow> is_terminal (en_state e)) \<and>
    entries CONTEXT_ASSEMBLING e = iterations_used (en_budget e) \<and> entries MUTATING e = mutations_used (en_budget e) \<and>
    entries VERIFYING e = verifications_used (en_budget e) \<and> budget_ok (en_budget e) \<and>
    en_digest e = audit_digest sha e \<and> hex_digest (en_digest e) \<and>
    audit_name sha (en_execution e) = Inr n \<and> read_bytes fs (aroot @ [n]) = Some (canonical_bytes e)"
proof -
  note l = loaded_valid [OF assms]
  then have m: "make_envelope sha e = Inr e" and b: "budget_ok (en_budget e)" by (simp_all add: envelope_valid_def make_budget_Inr_iff)
  show ?thesis using l b envelope_history [OF m] envelope_digests [OF m] by auto
qed

lemma demo_audit:
  obtains x where "demo_out = Inr x" and "exec_succeeded x" and "is_terminal (state (xr_context x))"
    and "from_context run_hash (xr_context x) None = Inr (context_envelope run_hash (xr_context x))"
    and "storable run_hash parse_start (context_envelope run_hash (xr_context x))"
    and "audit_name run_hash (en_execution (context_envelope run_hash (xr_context x))) = Inr demo_name"
proof -
  obtain x where x: "demo_out = Inr x" "exec_succeeded x" "auditable (xr_context x)" "is_terminal (state (xr_context x))"
      "execution_id (xr_context x) = ''e''" "\<forall>r \<in> set (history (xr_context x)). occurred_at r = 0" by (rule demo_context)
  have "en_execution (context_envelope run_hash (xr_context x)) = code_points ''e''"
    by (simp add: context_envelope_def envelope_draft_def Let_def x(5))
  moreover have "\<not> blank_ustring (code_points ''e'')" by (simp add: blank_ustring_def code_points_def unicode_space_def)
  ultimately have "audit_name run_hash (en_execution (context_envelope run_hash (xr_context x))) = Inr demo_name"
    using ustring_ok_points by (simp add: audit_name_def utf8_strict_def demo_name_def)
  with that x context_recorded(1) [OF x(3) run_hash_hex] context_storable [OF x(3) run_hash_hex x(6)] show ?thesis by blast
qed

lemma demo_tree_entries: "tree demo_end [n] = (if n = ''ws'' then Some Dir else None)" "tree demo_end [] = Some Dir"
proof -
  from run_has_effect [OF demo_root demo_temps_outside demo_run]
  have "governed_tree demo_rt demo_run_request (tree demo_state) (tree demo_end)"
    by (auto simp: run_effect_def recorded_def demo_rt_def)
  then have e: "tree demo_end t = tree demo_state t" if "t \<noteq> [''ws'', ''a.txt'']" for t
    using that demo_decided unfolding governed_tree_def governed_write_def by blast
  show "tree demo_end [n] = (if n = ''ws'' then Some Dir else None)" "tree demo_end [] = Some Dir"
    by (simp_all add: e demo_state_def demo_fs_def)
qed

lemma demo_audit_root: "audit_root_ok (tree demo_end) []"
  by (simp add: audit_root_ok_def demo_tree_entries)

lemma demo_record_free: "audit_view run_hash parse_start [] (tree demo_end) demo_name = Free"
proof -
  have "demo_name \<noteq> ''ws''" by (simp add: demo_name_def)
  then show ?thesis using root_entry(3) [OF demo_audit_root, of demo_name] by (simp add: audit_view_def demo_tree_entries)
qed

section \<open>The store\<close>

text \<open>C34. Appending a record refines writing a slot once: under any failures a call does to the record files what the
  specification does and answers so, or fails having done that or nothing; in a free slot it succeeds when no call fails.
  A record that is there stays, and is what a query for its execution answers, after any further appends by anybody,
  whatever fails in them.\<close>

theorem audit_append_refines:
  assumes "audit_root_ok fs aroot" and "storable sha parse e" and "audit_name sha (en_execution e) = Inr n"
    and "\<forall>p \<in> set es. storable sha parse (snd p)"
  shows "(case audit_append sha parse io aroot fs e of (fs', res) \<Rightarrow>
      case record_once (audit_view sha parse aroot fs) n e of (st, out) \<Rightarrow>
        agrees_beside (temp_file io) (audit_view sha parse aroot fs') st \<and> answer res \<in> {out, None} \<or>
        agrees_beside (temp_file io) (audit_view sha parse aroot fs') (audit_view sha parse aroot fs) \<and> answer res = None) \<and>
    (audit_view sha parse aroot fs n = Free \<longrightarrow> snd (audit_append sha parse (audit_io_ok t) aroot fs e) = Inr e) \<and>
    (\<forall>x. audit_view sha parse aroot fs n = Held x \<longrightarrow>
       audit_get sha parse aroot (audit_run sha parse aroot fs es) (en_execution e) = Inr (Some x))"
proof (intro conjI allI impI)
  show "case audit_append sha parse io aroot fs e of (fs', res) \<Rightarrow>
      case record_once (audit_view sha parse aroot fs) n e of (st, out) \<Rightarrow>
        agrees_beside (temp_file io) (audit_view sha parse aroot fs') st \<and> answer res \<in> {out, None} \<or>
        agrees_beside (temp_file io) (audit_view sha parse aroot fs') (audit_view sha parse aroot fs) \<and> answer res = None"
    using append_refines_once [OF assms(1-3)] by (auto split: prod.splits)
  show "audit_view sha parse aroot fs n = Free \<Longrightarrow> snd (audit_append sha parse (audit_io_ok t) aroot fs e) = Inr e"
    using append_refines_ok [OF assms(1-3)] .
  show "audit_view sha parse aroot fs n = Held x \<Longrightarrow>
      audit_get sha parse aroot (audit_run sha parse aroot fs es) (en_execution e) = Inr (Some x)" for x
    using run_keeps_records [OF assms(1,4,3)] get_view [OF assms(3)] by blast
qed

theorem audit_append_refines_witness:
  "\<exists>e. storable run_hash parse_start e \<and>
    snd (audit_append run_hash parse_start (audit_io_ok ''x'') [] (tree demo_end) e) = Inr e"
proof -
  obtain x where x: "demo_out = Inr x" "exec_succeeded x" "is_terminal (state (xr_context x))"
    "from_context run_hash (xr_context x) None = Inr (context_envelope run_hash (xr_context x))"
    "storable run_hash parse_start (context_envelope run_hash (xr_context x))"
    "audit_name run_hash (en_execution (context_envelope run_hash (xr_context x))) = Inr demo_name" by (rule demo_audit)
  have "\<forall>p \<in> set []. storable run_hash parse_start (snd p)" by simp
  from audit_append_refines [OF demo_audit_root x(5,6) this, of undefined "''x''"] x(5) demo_record_free show ?thesis by blast
qed

section \<open>The audited runtime\<close>

text \<open>C35. An observer changes nothing of an execution but its end. However an audited execution ends, the execution
  without audit in the same state decides it: if the audit root is inside the workspace, the observer cannot be prepared
  and nothing runs; if the execution without audit raises, the audited one raises the same with the same state, and
  nothing is recorded; if it returns and the recording fails, the audited one raises that the required audit is missing,
  and its state differs only by what the recording left; and otherwise it returns the very result, and the store then has
  the record of exactly its context, where a query finds it.\<close>

theorem audited_run:
  assumes "A = audit_recorder sha parse io aroot"
  shows "case execute_run (R\<lparr>rt_audit := Some A\<rparr>) rq s of
     (s', Inr x) \<Rightarrow>
       \<not> inside (resolve (tree s) (rr_workspace rq)) aroot \<and>
       (\<exists>s1 fs. execute_run (R\<lparr>rt_audit := None\<rparr>) rq s = (s1, Inr x) \<and> ao_record A (tree s1) x = (fs, True) \<and> s' = s1\<lparr>tree := fs\<rparr>) \<and>
       (\<exists>e. from_context sha (xr_context x) None = Inr e \<and> on_record sha parse aroot (tree s') e)
   | (s', Inl e) \<Rightarrow>
       if inside (resolve (tree s) (rr_workspace rq)) aroot
       then s' = s \<and> e = AuditRequired ''required audit observation could not be prepared before execution''
       else execute_run (R\<lparr>rt_audit := None\<rparr>) rq s = (s', Inl e) \<or>
         (\<exists>s1 x fs. execute_run (R\<lparr>rt_audit := None\<rparr>) rq s = (s1, Inr x) \<and> ao_record A (tree s1) x = (fs, False) \<and> s' = s1\<lparr>tree := fs\<rparr> \<and>
            e = AuditRequired ''terminal execution result could not be persisted to the required audit store'')"
proof -
  have p: "ao_preflight A (tree s) (rr_workspace rq) \<longleftrightarrow> \<not> inside (resolve (tree s) (rr_workspace rq)) aroot"
    by (simp add: assms audit_recorder_def audit_preflight_def)
  note rec = observed_recorded [of sha parse io aroot "execute_run (R\<lparr>rt_audit := None\<rparr>) rq s", folded assms]
  obtain s1 m where m: "execute_run (R\<lparr>rt_audit := None\<rparr>) rq s = (s1, m)" by force
  show ?thesis
  proof (cases m)
    case (Inl e)
    then show ?thesis using m p by (simp add: run_observed observed_end_def)
  next
    case (Inr x)
    obtain fs ok where r: "ao_record A (tree s1) x = (fs, ok)" by force
    show ?thesis
    proof (cases "ok \<and> \<not> inside (resolve (tree s) (rr_workspace rq)) aroot")
      case True
      then have o': "observed_end A (execute_run (R\<lparr>rt_audit := None\<rparr>) rq s) = (s1\<lparr>tree := fs\<rparr>, Inr x)"
        using m Inr r by (simp add: observed_end_def)
      obtain e where "from_context sha (xr_context x) None = Inr e" "on_record sha parse aroot (tree (s1\<lparr>tree := fs\<rparr>)) e"
        using rec [OF o'] by blast
      then show ?thesis using True o' p m Inr r by (simp add: run_observed)
    next
      case False
      then show ?thesis using m p Inr r by (auto simp: run_observed observed_end_def)
    qed
  qed
qed

lemma demo_audited: "\<exists>s' x. execute_run (demo_rt\<lparr>rt_audit := Some demo_recorder\<rparr>) demo_run_request demo_state = (s', Inr x)"
proof -
  obtain x where x: "demo_out = Inr x" "exec_succeeded x" "is_terminal (state (xr_context x))"
    "from_context run_hash (xr_context x) None = Inr (context_envelope run_hash (xr_context x))"
    "storable run_hash parse_start (context_envelope run_hash (xr_context x))"
    "audit_name run_hash (en_execution (context_envelope run_hash (xr_context x))) = Inr demo_name" by (rule demo_audit)
  have r: "demo_rt\<lparr>rt_audit := None\<rparr> = demo_rt" by (simp add: demo_rt_def)
  have "resolve (tree demo_state) [''ws''] = [''ws'']" by (simp add: resolve_def demo_state_def demo_fs_def)
  then have p: "ao_preflight demo_recorder (tree demo_state) (rr_workspace demo_run_request)"
    by (simp add: demo_recorder_def audit_recorder_def audit_preflight_def inside_def demo_run_request_def)
  have "snd (audit_append run_hash parse_start (audit_io_ok ''x'') [] (tree demo_end) (context_envelope run_hash (xr_context x)))
      = Inr (context_envelope run_hash (xr_context x))"
    by (rule append_refines_ok [OF demo_audit_root x(5,6) demo_record_free])
  then obtain fs where a: "audit_append run_hash parse_start (audit_io_ok ''x'') [] (tree demo_end) (context_envelope run_hash (xr_context x))
      = (fs, Inr (context_envelope run_hash (xr_context x)))" by (metis prod.collapse)
  have "ao_record demo_recorder (tree demo_end) x = (fs, True)"
    using x(2,3,4) a by (simp add: demo_recorder_def audit_recorder_def record_terminal_result_def record_context_def exec_succeeded_def)
  then show ?thesis by (simp add: run_observed p r demo_run x(1) observed_end_def)
qed

theorem audited_run_witness:
  "\<exists>s' x e. execute_run (demo_rt\<lparr>rt_audit := Some demo_recorder\<rparr>) demo_run_request demo_state = (s', Inr x) \<and>
    demo_out = Inr x \<and> from_context run_hash (xr_context x) None = Inr e \<and> on_record run_hash parse_start [] (tree s') e"
proof -
  obtain s' x where r: "execute_run (demo_rt\<lparr>rt_audit := Some demo_recorder\<rparr>) demo_run_request demo_state = (s', Inr x)"
    using demo_audited by blast
  have n: "demo_rt\<lparr>rt_audit := None\<rparr> = demo_rt" by (simp add: demo_rt_def)
  from audited_run [OF demo_recorder_def, where R = demo_rt and rq = demo_run_request and s = demo_state] show ?thesis by (auto simp: n demo_run r)
qed

theorem audit_loads_typed_witness:
  "\<exists>fs e. load_path run_hash parse_start fs [] demo_name = Inr e \<and> well_formed_history e \<and> is_terminal (en_state e)"
proof -
  obtain x where x: "demo_out = Inr x" "exec_succeeded x" "is_terminal (state (xr_context x))"
    "from_context run_hash (xr_context x) None = Inr (context_envelope run_hash (xr_context x))"
    "storable run_hash parse_start (context_envelope run_hash (xr_context x))"
    "audit_name run_hash (en_execution (context_envelope run_hash (xr_context x))) = Inr demo_name" by (rule demo_audit)
  let ?e = "context_envelope run_hash (xr_context x)"
  let ?fs = "(tree demo_end)([] @ [demo_name] \<mapsto> File True (canonical_bytes ?e))"
  have t: "is_terminal (en_state ?e)" using x(3) by (simp add: context_envelope_def envelope_draft_def Let_def)
  have l: "load_path run_hash parse_start ?fs [] demo_name = Inr ?e"
    using loaded_written [OF root_update(1) [OF demo_audit_root] _ _ _ _ x(6)] x(5) by (simp add: storable_def)
  with audit_loads_typed [OF l] t show ?thesis by blast
qed

section \<open>Findings\<close>

text \<open>A digest that is no string is accepted when Python counts it as false.\<close>

lemma falsy_digest_accepted:
  "\<not> blank_ustring i \<Longrightarrow> make_audit_evidence \<lparr>ae_kind = k, ae_reference = i, ae_digest = JInt 0\<rparr> =
     Inr \<lparr>ae_kind = k, ae_reference = i, ae_digest = JInt 0\<rparr>"
  by (simp add: evidence_valid_iff falsy_def zero_number_def)

text \<open>A valid context with evidence whose digest is no SHA-256 digest has no record, nor has one that did not start.\<close>

lemma plain_digest_unrecorded:
  assumes "r \<in> set (history c)" and "e \<in> set (rec_evidence r)" and "digest e \<noteq> []" and "\<not> hex_digest (code_points (digest e))"
  shows "\<exists>x. from_context sha c d = Inl x"
proof (cases "from_context sha c d")
  case (Inr y)
  have "sequence_res audited_transition (history c) \<noteq> Inl z" for z using Inr by (auto simp: from_context_def)
  then obtain ts where "sequence_res audited_transition (history c) = Inr ts" by (meson sumE)
  from sequence_res_elem [OF this assms(1)] obtain t where "audited_transition r = Inr t" ..
  then obtain es where "sequence_res audited_evidence (rec_evidence r) = Inr es" by (auto simp: audited_transition_def bind_res_Inr_iff)
  from sequence_res_elem [OF this assms(2)] obtain y where "audited_evidence e = Inr y" ..
  then show ?thesis using assms(3,4) by (auto simp: audited_evidence_iff auditable_evidence_def)
qed simp

lemma created_unrecorded:
  assumes "history c = []"
  shows "\<exists>x. from_context sha c d = Inl x"
proof (cases "from_context sha c d")
  case (Inr y)
  let ?e = "(envelope_draft sha c d [])\<lparr>en_digest := audit_digest sha (envelope_draft sha c d [])\<rparr>"
  from Inr assms have m: "make_envelope sha ?e = Inr y" by (simp add: from_context_def)
  then have "validate_structure ?e = None" using envelope_digests(7) make_envelope_Inr [OF m] by metis
  then show ?thesis by (simp add: validate_structure_def envelope_draft_def)
qed simp

end
