(* ===== verification/CustodyFacts.thy ===== *)
theory CustodyFacts
  imports CustodyGate
begin

text \<open>
  What the custody gate guarantees. The climb from a directory finds exactly the directories it lies in, when
  \<open>fstat\<close> tells directories apart; from this follows the declarative condition under which roots are
  admitted, and what an admitted, attested or handed over workspace is.
\<close>

section \<open>Descriptors\<close>

text \<open>What the system reports: different directories have different numbers, and a listing has the names of the entries.\<close>

definition honest_system :: "custody_env \<Rightarrow> fs \<Rightarrow> bool" where
  "honest_system E fs \<longleftrightarrow> sane_tree fs \<and>
     (\<forall>p q. fs p = Some Dir \<and> fs q = Some Dir \<and> ce_object E fs p = ce_object E fs q \<longrightarrow> p = q) \<and>
     (\<forall>p. fs p = Some Dir \<longrightarrow> set (ce_listing E fs p) = {x. fs (p @ [x]) \<noteq> None})"

definition no_custody_faults :: "store_faults \<Rightarrow> custody_faults" where
  "no_custody_faults fl = \<lparr>cf_open = (\<lambda>p. False), cf_scan = False, cf_parent = (\<lambda>p. False), cf_store = fl\<rparr>"

lemma inside_snoc: "inside q (p @ [x]) \<longleftrightarrow> q = p @ [x] \<or> inside q p"
proof (cases "length q \<le> length p")
  case True
  then show ?thesis by (auto simp: inside_def)
next
  case False
  moreover have "take (length q) p = p" using False by simp
  ultimately show ?thesis by (auto simp: inside_def)
qed

lemma climbs_to_iff:
  assumes "\<And>q r. inside q p \<Longrightarrow> fs q = Some Dir" and "fs a = Some Dir"
    and "\<And>q r. fs q = Some Dir \<Longrightarrow> fs r = Some Dir \<Longrightarrow> ident q = ident r \<Longrightarrow> q = r"
  shows "climbs_to ident (\<lambda>p. False) (ident a) p \<longleftrightarrow> inside a p"
  using assms(1)
proof (induction p rule: rev_induct)
  case Nil
  have "fs [] = Some Dir" using Nil by (simp add: inside_def)
  then show ?case using assms(2,3) by (subst climbs_to.simps) (auto simp: inside_def)
next
  case (snoc x p)
  have d: "fs (p @ [x]) = Some Dir" "fs p = Some Dir" using snoc.prems by (simp_all add: inside_def)
  have IH: "climbs_to ident (\<lambda>p. False) (ident a) p \<longleftrightarrow> inside a p" using snoc by (simp add: inside_snoc)
  have "ident p \<noteq> ident (p @ [x])" using assms(3) [OF d(2,1)] by auto
  moreover have "ident (p @ [x]) = ident a \<longleftrightarrow> p @ [x] = a" using assms(3) [OF d(1) assms(2)] by auto
  ultimately show ?case using IH inside_snoc [of a p x] by (subst climbs_to.simps) auto
qed

text \<open>A fault while climbing counts as nested, so a verdict of no nesting is right under any faults.\<close>

lemma climbs_to_fault_free: "\<not> climbs_to ident fault target p \<Longrightarrow> \<not> climbs_to ident (\<lambda>p. False) target p"
proof (induction ident fault target p rule: climbs_to.induct)
  case (1 ident fault target p)
  have "\<not> (if ident p = target then True else if fault p then True else if ident (butlast p) = ident p then False
      else climbs_to ident fault target (butlast p))"
    using 1(2) by (subst (asm) climbs_to.simps)
  then have c: "ident p \<noteq> target" "\<not> fault p" "ident (butlast p) = ident p \<or> \<not> climbs_to ident fault target (butlast p)"
    by (simp_all split: if_splits)
  show ?case
  proof (cases "ident (butlast p) = ident p")
    case True
    then show ?thesis using c(1) by (subst climbs_to.simps) simp
  next
    case False
    then have "\<not> climbs_to ident (\<lambda>p. False) target (butlast p)" using c by (intro 1(1)) simp_all
    then show ?thesis using c(1) False by (subst climbs_to.simps) simp
  qed
qed

lemma dir_prefixes: "sane_tree fs \<Longrightarrow> fs p = Some Dir \<Longrightarrow> inside q p \<Longrightarrow> fs q = Some Dir"
proof (induction p arbitrary: q rule: rev_induct)
  case (snoc x p)
  have "fs (p @ [x]) \<noteq> None" using snoc.prems(2) by simp
  then have "fs p = Some Dir" using snoc.prems(1) unfolding sane_tree_def by blast
  moreover have "q = p @ [x] \<or> inside q p" using snoc.prems(3) by (simp only: inside_snoc)
  ultimately show ?case using snoc.prems(1,2) snoc.IH [of q] by blast
qed (simp add: inside_def)

lemma climbs_inside:
  assumes "honest_system E fs" and "fs d = Some Dir" and "fs e = Some Dir"
  shows "climbs_to (ce_object E fs) (\<lambda>p. False) (ce_object E fs d) e \<longleftrightarrow> inside d e"
proof (rule climbs_to_iff [where fs = fs])
  show "inside q e \<Longrightarrow> fs q = Some Dir" for q using assms dir_prefixes [of fs e q] by (simp add: honest_system_def)
  show "fs q = Some Dir \<Longrightarrow> fs r = Some Dir \<Longrightarrow> ce_object E fs q = ce_object E fs r \<Longrightarrow> q = r" for q r
    using assms(1) unfolding honest_system_def by blast
qed (rule assms(2))

lemma is_ancestor_inside:
  assumes "honest_system E fs" and "fs d = Some Dir" and "fs e = Some Dir" and "inside d e"
  shows "is_ancestor E fl fs d e"
  using climbs_to_fault_free [of "ce_object E fs" "cf_parent fl" "ce_object E fs d" e] climbs_inside [OF assms(1-3)] assms(4)
  unfolding is_ancestor_def by blast

lemma is_ancestor_iff:
  assumes "honest_system E fs" and "fs d = Some Dir" and "fs e = Some Dir"
  shows "is_ancestor E (no_custody_faults sf) fs d e \<longleftrightarrow> inside d e"
  using climbs_inside [OF assms] by (simp add: is_ancestor_def no_custody_faults_def)

text \<open>Where the roots lead.\<close>

definition root_place :: "fs \<Rightarrow> path \<Rightarrow> path" where
  "root_place fs p = (if p = [] then [] else place fs p)"

lemma open_root_Some: "open_root fl fs p = Some d \<longleftrightarrow> d = root_place fs p \<and> fs d = Some Dir \<and> \<not> cf_open fl p"
  by (auto simp: open_root_def root_place_def Let_def)

lemma open_declared_Some:
  "open_declared_roots fl fs rs = Some ds \<longleftrightarrow>
     ds = map (\<lambda>(n, p). (n, root_place fs p)) rs \<and> (\<forall>(n, p) \<in> set rs. fs (root_place fs p) = Some Dir \<and> \<not> cf_open fl p)"
proof (induction rs arbitrary: ds)
  case (Cons r rs)
  obtain n p where r: "r = (n, p)" by (cases r)
  show ?case
  proof (cases "open_root fl fs p")
    case None
    then have "fs (root_place fs p) \<noteq> Some Dir \<or> cf_open fl p" using open_root_Some [of fl fs p "root_place fs p"] by auto
    then show ?thesis using None r by auto
  next
    case (Some d)
    note d = Some [unfolded open_root_Some]
    then have "fs (root_place fs p) = Some Dir" by (elim conjE) (simp only:)
    with d have "d = root_place fs p" "fs (root_place fs p) = Some Dir" "\<not> cf_open fl p" by blast+
    then show ?thesis using r Some by (auto simp: Cons.IH)
  qed
qed auto

definition placed_roots :: "fs \<Rightarrow> custody_request \<Rightarrow> descriptors" where
  "placed_roots fs q = map (\<lambda>(n, p). (n, root_place fs p)) (declared_roots q)"

lemma placed_roots_simps: "placed_roots fs q = [(WORKSPACE, root_place fs (cu_workspace q)), (SOURCE, root_place fs (cu_source q)),
    (AUDIT, root_place fs (cu_audit q)), (CONTROL, root_place fs (cu_control q))]"
  by (simp add: placed_roots_def declared_roots_def)

text \<open>The declarative condition: four directories, none in another, and an empty workspace if one is asked for.\<close>

definition roots_isolated :: "fs \<Rightarrow> custody_request \<Rightarrow> bool" where
  "roots_isolated fs q \<longleftrightarrow> (\<forall>(n, d) \<in> set (placed_roots fs q). fs d = Some Dir) \<and>
     (\<forall>(n, d) \<in> set (placed_roots fs q). \<forall>(m, e) \<in> set (placed_roots fs q). n \<noteq> m \<longrightarrow> \<not> inside d e) \<and>
     (cp_empty_workspace (cu_policy q) \<longrightarrow> (\<forall>x. fs (root_place fs (cu_workspace q) @ [x]) = None))"

lemma any_nested_iff:
  "any_nested E fl fs ds \<longleftrightarrow> (\<exists>(n, d) \<in> set ds. \<exists>(m, e) \<in> set ds. n \<noteq> m \<and> is_ancestor E fl fs d e)"
  by (auto simp: any_nested_def list_ex_iff)

lemma nested_sound:
  assumes "honest_system E fs" and "\<forall>(n, d) \<in> set ds. fs d = Some Dir" and "\<not> any_nested E fl fs ds"
  shows "\<forall>(n, d) \<in> set ds. \<forall>(m, e) \<in> set ds. n \<noteq> m \<longrightarrow> \<not> inside d e"
proof clarify
  fix n d m e assume m: "(n, d) \<in> set ds" "(m, e) \<in> set ds" "n \<noteq> m" "inside d e"
  then have "is_ancestor E fl fs d e" using assms(2) by (intro is_ancestor_inside [OF assms(1)]) auto
  then show False using m assms(3) unfolding any_nested_iff by blast
qed

lemma not_nested:
  assumes "honest_system E fs" and "\<forall>(n, d) \<in> set ds. fs d = Some Dir"
    and "\<forall>(n, d) \<in> set ds. \<forall>(m, e) \<in> set ds. n \<noteq> m \<longrightarrow> \<not> inside d e"
  shows "\<not> any_nested E (no_custody_faults sf) fs ds"
proof
  assume "any_nested E (no_custody_faults sf) fs ds"
  then obtain n d m e where m: "(n, d) \<in> set ds" "(m, e) \<in> set ds" "n \<noteq> m" "is_ancestor E (no_custody_faults sf) fs d e"
    unfolding any_nested_iff by blast
  then have "inside d e" using assms(2) is_ancestor_iff [OF assms(1), of d e sf] by auto
  then show False using m assms(3) by auto
qed

section \<open>Admission\<close>

text \<open>The identities that are observed, and that they differ in their digests.\<close>

lemma observe_roots_ok:
  obtains ids where "observe_roots E fs ds = Inr ids" and "length ids = length ds" and "\<forall>o' \<in> set ids. make_object_identity o' = Inr o'"
proof -
  have "\<exists>ids. observe_roots E fs ds = Inr ids \<and> length ids = length ds \<and> (\<forall>o' \<in> set ids. make_object_identity o' = Inr o')"
  proof (induction ds)
    case (Cons d ds)
    obtain n p where d: "d = (n, p)" by (cases d)
    show ?case using Cons observed_identity_ok [of "ce_object E fs p"] by (auto simp: observe_roots_def d)
  qed (simp add: observe_roots_def)
  then show thesis using that by blast
qed

definition digests_differ :: "custody_env \<Rightarrow> fs \<Rightarrow> custody_request \<Rightarrow> bool" where
  "digests_differ E fs q \<longleftrightarrow>
     (case observe_roots E fs (placed_roots fs q) of Inl _ \<Rightarrow> False | Inr ids \<Rightarrow> distinct (map (object_digest (ce_sha E)) ids))"

lemma admission_values:
  "custody_rejected w = Inr \<lparr>wad_attestation = None, wad_reason = Some w\<rparr>"
  "make_custody_admission \<lparr>wad_attestation = Some a, wad_reason = None\<rparr> = Inr \<lparr>wad_attestation = Some a, wad_reason = None\<rparr>"
  by (simp_all add: custody_rejected_def make_custody_admission_def guarded_def)

text \<open>An admission with an attestation says that the roots are isolated, whatever fails.\<close>

lemma admitted_isolated:
  assumes h: "honest_system E fs" and adm: "admit_descriptors E fl fs q occurred = (lost, Inr (adm, ds))"
    and a: "wad_attestation adm = Some a"
  shows "lost = []" and "ds = placed_roots fs q" and "wad_reason adm = None" and "roots_isolated fs q" and "ce_capable E" and "ce_probe E"
    and "resolve fs (cu_control q) = resolve fs (ce_store E)"
    and "\<exists>ids. observe_roots E fs (placed_roots fs q) = Inr ids \<and>
      issue_custody (ce_sha E) q (ids ! 0) (ids ! 1) (ids ! 2) (ids ! 3) occurred = Inr a"
proof -
  have cap: "ce_capable E" "ce_probe E" "resolve fs (cu_control q) = resolve fs (ce_store E)"
    using adm a by (auto simp: admit_descriptors_def admission_values split: if_splits)
  then obtain ds' where o': "open_declared_roots fl fs (declared_roots q) = Some ds'"
    using adm a by (auto simp: admit_descriptors_def admission_values split: option.splits)
  then have ds': "ds' = placed_roots fs q" "\<forall>(n, d) \<in> set ds'. fs d = Some Dir"
    by (auto simp: open_declared_Some placed_roots_def)
  have rest: "lost = [] \<and> ds = ds' \<and> descriptor_rejection E fl fs q ds' = Inr None \<and>
      bind_res (observe_roots E fs ds') (\<lambda>ids.
                   bind_res (issue_custody (ce_sha E) q (ids ! 0) (ids ! 1) (ids ! 2) (ids ! 3) occurred) (\<lambda>a.
                   make_custody_admission \<lparr>wad_attestation = Some a, wad_reason = None\<rparr>)) = Inr adm"
    using adm a cap o' by (auto simp: admit_descriptors_def admission_values split: sum.splits option.splits)
  then show "lost = []" "ds = placed_roots fs q" by (simp_all add: ds')
  from rest obtain ids where ids: "observe_roots E fs ds' = Inr ids"
      "issue_custody (ce_sha E) q (ids ! 0) (ids ! 1) (ids ! 2) (ids ! 3) occurred = Inr a" "wad_reason adm = None"
    using a by (auto simp: bind_res_Inr_iff admission_values)
  then show "wad_reason adm = None" "\<exists>ids. observe_roots E fs (placed_roots fs q) = Inr ids \<and>
      issue_custody (ce_sha E) q (ids ! 0) (ids ! 1) (ids ! 2) (ids ! 3) occurred = Inr a"
    by (auto simp: ds'(1))
  have r: "cp_empty_workspace (cu_policy q) \<longrightarrow> descriptor_empty E fl fs (root_place fs (cu_workspace q))" "\<not> any_nested E fl fs ds'"
    using rest ids(1) by (auto simp: descriptor_rejection_def ds'(1) placed_roots_simps split: if_splits)
  have w: "fs (root_place fs (cu_workspace q)) = Some Dir" using ds' by (simp add: placed_roots_simps)
  have "descriptor_empty E fl fs (root_place fs (cu_workspace q)) \<Longrightarrow> {x. fs (root_place fs (cu_workspace q) @ [x]) \<noteq> None} = {}"
    using h w unfolding honest_system_def descriptor_empty_def by (metis list.set(1))
  then show "roots_isolated fs q" using r(1) nested_sound [OF h ds'(2) r(2)] ds' by (auto simp: roots_isolated_def)
qed (use adm a in \<open>auto simp: admit_descriptors_def admission_values split: if_splits\<close>)

text \<open>Without failures, and when the digests of the observed identities differ, isolated roots are admitted.\<close>

lemma isolated_admitted:
  assumes h: "honest_system E fs" and cap: "ce_capable E" "ce_probe E" and c: "resolve fs (cu_control q) = resolve fs (ce_store E)"
    and iso: "roots_isolated fs q" and d: "digests_differ E fs q" and v: "hex_hash (ce_sha E)" "request_valid q"
  obtains a where "admit_descriptors E (no_custody_faults sf) fs q (Some t) =
      ([], Inr (\<lparr>wad_attestation = Some a, wad_reason = None\<rparr>, placed_roots fs q))"
proof -
  have dirs: "\<forall>(n, d) \<in> set (placed_roots fs q). fs d = Some Dir" using iso by (simp add: roots_isolated_def)
  then have o': "open_declared_roots (no_custody_faults sf) fs (declared_roots q) = Some (placed_roots fs q)"
    by (auto simp: open_declared_Some placed_roots_def no_custody_faults_def)
  obtain ids where ids: "observe_roots E fs (placed_roots fs q) = Inr ids" by (rule observe_roots_ok)
  have w: "fs (root_place fs (cu_workspace q)) = Some Dir" using dirs by (simp add: placed_roots_simps)
  have "cp_empty_workspace (cu_policy q) \<longrightarrow> descriptor_empty E (no_custody_faults sf) fs (root_place fs (cu_workspace q))"
    using h w iso by (auto simp: roots_isolated_def honest_system_def descriptor_empty_def no_custody_faults_def)
  moreover have "\<not> any_nested E (no_custody_faults sf) fs (placed_roots fs q)"
    using iso by (intro not_nested [OF h dirs]) (simp add: roots_isolated_def)
  moreover have "distinct (map (object_digest (ce_sha E)) ids)" using d ids by (simp add: digests_differ_def)
  ultimately have r: "descriptor_rejection E (no_custody_faults sf) fs q (placed_roots fs q) = Inr None"
    using ids by (simp add: descriptor_rejection_def placed_roots_simps)
  obtain iso' where "issue_custody (ce_sha E) q (ids ! 0) (ids ! 1) (ids ! 2) (ids ! 3) (Some t) =
      Inr (observed_custody (ce_sha E) q (ids ! 0) (ids ! 1) (ids ! 2) (ids ! 3) iso' t)"
    by (rule issue_custody_value [OF v])
  then show thesis using that cap c o' r ids by (simp add: admit_descriptors_def admission_values)
qed

end
