(* ===== verification/Readiness.thy ===== *)
theory Readiness
  imports Session CustodyFacts
begin

text \<open>
  The readiness gate with the custody gate and the composition gate of the program behind it, each with its
  own store: both only read, so what is known of sessions holds with them, and readiness means that
  both stores hold the evidence and that the roots are isolated.
\<close>

section \<open>Evidence lasts\<close>

lemma held_present:
  assumes "link_free fs [] root" and "evidence_view S root fs n = Held r"
  shows "fs (root @ [n]) \<noteq> None"
proof
  assume "fs (root @ [n]) = None"
  then show False using assms(2) evidence_view_free_iff [OF assms(1), where S = S and n = n] by simp
qed

context evidence_store
begin

text \<open>A claim that succeeded under any failures left the whole record in a root that is in use.\<close>

lemma claimed_held:
  assumes "control_root_ok (ef_lock S) fs root" and "valid r" and "evidence_claim S sha fl root fs r = (fs', Inr c)"
    and "ec_disposition c = EVIDENCE_CLAIMED"
  obtains n where "evidence_slot S sha r = Some n" and "root_in_use (ef_lock S) fs' root" and "evidence_view S root fs' n = Held r"
proof -
  obtain fs1 n where w: "locked_root (ef_lock S) fs root (fault_lock fl) = Inr fs1" "evidence_slot S sha r = Some n"
      "fs1 (place fs1 (root @ [n])) = None" "fs' = fs1(place fs1 (root @ [n]) \<mapsto> File True (encode_text (dumps (ef_file S r))))"
    using assms(3,4) by (rule evidence_claimed_writes)
  have u: "root_in_use (ef_lock S) fs1 root" by (rule locked_in_use [OF assms(1) w(1)])
  then have c1: "control_root_ok (ef_lock S) fs1 root" and lf: "link_free fs1 [] root" by (auto simp: root_in_use_def control_root_ok_def)
  have nl: "n \<noteq> ef_lock S" using w(2) name_not_lock by (simp add: evidence_slot_def)
  have f: "fs1 (root @ [n]) = None" "fs' = fs1(root @ [n] \<mapsto> File True (encode_text (dumps (ef_file S r))))"
    using w(3,4) place_snoc [OF lf] by simp_all
  have "control_root_ok (ef_lock S) fs' root" "evidence_view S root fs' n = Held r"
    using record_slots [OF c1 nl f(1) assms(2) f(2)] by simp_all
  moreover have "fs' (root @ [ef_lock S]) \<noteq> None" using u f(2) by (simp add: root_in_use_def)
  ultimately show thesis using that [OF w(2)] by (simp add: root_in_use_def)
qed

lemma held_stays:
  assumes "root_in_use (ef_lock S) fs root" and "evidence_view S root fs n = Held r" and "keeps_tree fs fs'"
  shows "evidence_view S root fs' n = Held r"
proof -
  have "link_free fs [] root" "link_free fs' [] root"
    using assms(1) root_in_use_keeps [OF assms(1,3)] by (auto simp: root_in_use_def control_root_ok_def)
  moreover from held_present [OF this(1) assms(2)] have "fs (root @ [n]) \<noteq> None" .
  then have "fs' (root @ [n]) = fs (root @ [n])" using assms(3) by (simp add: keeps_tree_def)
  ultimately show ?thesis using evidence_view_cong [where S = S] assms(2) by metis
qed

lemma free_claim:
  assumes "control_root_ok (ef_lock S) fs root" and "evidence_slot S sha r = Some n" and "fs (root @ [n]) = None"
  shows "\<exists>fs'. evidence_claim S sha no_store_faults root fs r = (fs', Inr \<lparr>ec_disposition = EVIDENCE_CLAIMED, ec_existing = None\<rparr>)"
proof -
  obtain fs1 where l: "locked_root (ef_lock S) fs root False = Inr fs1" using locked_root_ok [OF assms(1), of False] by simp
  have n: "evidence_name S sha (ef_identity S r) = Some n" using assms(2) by (simp add: evidence_slot_def)
  have lf: "link_free fs1 [] root" using evidence_locked_root(1) [OF assms(1) l] by (simp add: control_root_ok_def)
  have f: "fs1 (root @ [n]) = None" using evidence_locked_root(2) [OF assms(1) l name_not_lock [OF n]] assms(3) by simp
  then have "evidence_read_unlocked S sha fs1 root (ef_identity S r) = Inr None" by (rule evidence_read_free [OF lf n])
  then show ?thesis using l n f place_snoc [OF lf]
    by (simp add: evidence_claim_def no_store_faults_def evidence_write_unlocked_def write_new_def make_evidence_claim_def guarded_def)
qed

text \<open>While a record is held, no claim of its identity succeeds, whatever fails.\<close>

lemma held_refuses:
  assumes "root_in_use (ef_lock S) fs root" and "evidence_view S root fs n = Held r" and "evidence_slot S sha r' = Some n"
    and "ef_identity S r' = ef_identity S r" and "evidence_claim S sha fl root fs r' = (fs', Inr c)"
  shows "ec_disposition c \<noteq> EVIDENCE_CLAIMED"
proof -
  have lf: "link_free fs [] root" and lk: "locked_root (ef_lock S) fs root (fault_lock fl) = Inr fs"
    using assms(1) assms(5) locked_root_ok [of "ef_lock S" fs root "fault_lock fl"]
    by (auto simp: root_in_use_def control_root_ok_def evidence_claim_def split: if_splits)
  have n: "evidence_name S sha (ef_identity S r') = Some n" using assms(3) by (simp add: evidence_slot_def)
  have "fs (root @ [n]) \<noteq> None" by (rule held_present [OF lf assms(2)])
  moreover have "\<not> is_symlink fs (root @ [n])" using assms(2) by (auto simp: evidence_view_def split: if_splits)
  ultimately have "evidence_read_unlocked S sha fs root (ef_identity S r') = Inr (Some r)"
    by (rule evidence_read_view [OF lf n]) (use assms(2,4) in simp_all)
  then show ?thesis using assms(5) lk
    by (auto simp: evidence_claim_def make_evidence_claim_def guarded_def split: if_splits)
qed

end

section \<open>The gates of the program\<close>

record evidence_roots =
  er_custody :: custody_env
  er_faults :: custody_faults
  er_composition :: path
  er_store_faults :: store_faults

definition governed_gates :: "evidence_roots \<Rightarrow> (custody_attestation, composition_attestation) readiness_gates" where
  "governed_gates R =
     \<lparr>custody_validate = (\<lambda>fs a q. case custody_check (er_custody R) (er_faults R) fs (Some a) q of (fs', lost, r) \<Rightarrow> (fs', r)),
      composition_validate = (\<lambda>fs a m. composition_check (ce_sha (er_custody R)) (ce_parse (er_custody R)) (er_store_faults R)
        (er_composition R) fs (Some a) m)\<rparr>"

lemma evidence_read_keeps: "keeps_tree fs (fst (evidence_read S sha fl root fs i))"
  using evidence_read_tree [of S sha fl root fs i] locked_keeps by auto

lemma composition_check_tree:
  "fst (composition_check sha parse fl root fs (Some a) m) = fst (composition_read sha parse fl root fs (ca_attestation a))"
  by (auto simp: composition_check_def split: prod.splits sum.splits store_exn.splits option.splits)

lemma custody_check_tree:
  "fst (custody_check E fl fs (Some a) q) = fst (custody_read (ce_sha E) (ce_parse E) (cf_store fl) (ce_store E) fs (wa_attestation a))"
  by (auto simp: custody_check_def split: prod.splits sum.splits store_exn.splits option.splits)

lemma governed_gates_keep: "gates_keep (governed_gates R)"
proof -
  have "keeps_tree fs (fst (custody_validate (governed_gates R) fs a q))" for fs a q
    by (simp add: governed_gates_def split_beta custody_check_tree custody_read_def evidence_read_keeps)
  moreover have "keeps_tree fs (fst (composition_validate (governed_gates R) fs a m))" for fs a m
    by (simp add: governed_gates_def composition_check_tree composition_read_def evidence_read_keeps)
  ultimately show ?thesis by (simp add: gates_keep_def)
qed

section \<open>What a check that accepts says\<close>

lemma custody_check_accepts:
  assumes h: "honest_system E (fst (custody_check E fl fs (Some a) q))" and c: "snd (snd (custody_check E fl fs (Some a) q)) = Inr None"
  defines "fs' \<equiv> fst (custody_check E fl fs (Some a) q)"
  shows "custody_read (ce_sha E) (ce_parse E) (cf_store fl) (ce_store E) fs (wa_attestation a) = (fs', Inr (Some a))"
    and "roots_isolated fs' q" and "fst (snd (custody_check E fl fs (Some a) q)) = []"
    and "\<exists>ids. observe_roots E fs' (placed_roots fs' q) = Inr ids \<and>
      issue_custody (ce_sha E) q (ids ! 0) (ids ! 1) (ids ! 2) (ids ! 3) (Some (wa_occurred a)) = Inr a"
proof -
  obtain fs1 res where r: "custody_read (ce_sha E) (ce_parse E) (cf_store fl) (ce_store E) fs (wa_attestation a) = (fs1, res)" by fastforce
  then have fs': "fs' = fs1" by (simp add: fs'_def custody_check_tree)
  have res: "res = Inr (Some a)"
    using c r by (auto simp: custody_check_def split: sum.splits store_exn.splits option.splits if_splits)
  obtain lost out where ad: "admit_descriptors E fl fs1 q (Some (wa_occurred a)) = (lost, out)" by fastforce
  obtain adm ds where out: "out = Inr (adm, ds)" "wad_attestation adm = Some a" "wad_reason adm = None"
    using c r res ad by (cases out) (auto simp: custody_check_def split: if_splits)
  have hs: "honest_system E fs1" using h by (simp add: fs'_def [symmetric] fs')
  note ai = admitted_isolated [OF hs ad [unfolded out(1)] out(2)]
  show "custody_read (ce_sha E) (ce_parse E) (cf_store fl) (ce_store E) fs (wa_attestation a) = (fs', Inr (Some a))"
    using r res fs' by simp
  show "roots_isolated fs' q" using ai(4) fs' by simp
  show "\<exists>ids. observe_roots E fs' (placed_roots fs' q) = Inr ids \<and>
      issue_custody (ce_sha E) q (ids ! 0) (ids ! 1) (ids ! 2) (ids ! 3) (Some (wa_occurred a)) = Inr a"
    using ai(8) fs' by simp
  show "fst (snd (custody_check E fl fs (Some a) q)) = []" using r res ad out ai(1) by (simp add: custody_check_def)
qed

lemma issue_custody_fields:
  assumes "issue_custody sha q w s a c occurred = Inr x"
  shows "wa_attestation x = cu_attestation q" and "wa_request_digest x = custody_request_digest sha q" and "wa_execution x = cu_execution q"
    and "wa_run x = cu_run q" and "wa_workspace x = w" and "make_custody sha x = Inr x" and "occurred = Some (wa_occurred x)"
proof -
  obtain t iso where "x = observed_custody sha q w s a c iso t" "make_custody sha x = Inr x" "occurred = Some t"
    using assms by (auto simp: issue_custody_def bind_res_Inr_iff canonical_occurrence_def make_custody_Inr split: option.splits)
  then show "wa_attestation x = cu_attestation q" "wa_request_digest x = custody_request_digest sha q" "wa_execution x = cu_execution q"
      "wa_run x = cu_run q" "wa_workspace x = w" "make_custody sha x = Inr x" "occurred = Some (wa_occurred x)"
    by (simp_all add: observed_custody_def Let_def)
qed

text \<open>What a store returns was validated when it was read.\<close>

lemma evidence_read_stored:
  "snd (evidence_read S sha fl root fs i) = Inr (Some r) \<Longrightarrow> \<exists>j. ef_stored S j = Inr r"
  by (auto simp: evidence_read_def evidence_read_unlocked_def bind_res_Inr_iff split: sum.splits if_splits option.splits)

lemma composition_read_valid:
  assumes "snd (composition_read sha parse fl root fs i) = Inr (Some a)"
  shows "make_composition sha a = Inr a"
proof -
  obtain j where "composition_from_payload sha parse j = Inr a"
    using evidence_read_stored [OF assms [unfolded composition_read_def]] unwrapped_decodes by (fastforce simp: composition_files_def)
  then show ?thesis
    by (auto simp: composition_from_payload_def bind_res_Inr_iff make_composition_Inr split: json.splits if_splits)
qed

text \<open>A created session passed both gates, the second after the first.\<close>

lemma created_session_ready:
  assumes "create_session E G fl fs c = (fs', Inr m)" and "sd_disposition (sa_decision m) = SESSION_CREATED" and "gates_keep G"
  obtains e cu ca cm ma fsc fsm where "sc_evidence c = Some e" and "ev_custody_request e = Some cu" and "ev_custody_attestation e = Some ca"
    and "ev_manifest e = Some cm" and "ev_composition_attestation e = Some ma" and "custody_validate G fs ca cu = (fsc, Inr None)"
    and "custody_binds fs cu (sc_request c) (sc_runtime c)" and "composition_validate G fsc ma cm = (fsm, Inr None)"
    and "composition_binds cm (sc_request c) (sc_runtime c) (sc_availability c)"
proof -
  obtain a ob av fs1 where c: "call_rejection E fs c = None" "sc_receipt c = Some a" "sc_observer c = Some ob"
      "sc_availability c = Some av" "evidence_rejection E G (gf_approval fl) fs c a ob av = (fs1, Inr None)"
      "claim_and_issue E fl fs1 c a ob av = (fs', Inr m)"
    using created_session [OF assms(1,2)] by metis
  obtain fs0 x where r: "validate_readiness G fs (sc_evidence c) (sc_request c) (sc_runtime c) (sc_availability c) = (fs0, Inr x)"
      "rd_reason (ra_decision x) = None"
    using c(5) unfolding evidence_rejection_def and_then_Inr_iff by (auto simp: and_then_Inr_iff split: option.splits)
  obtain e cu ca cm ma fsc where e: "sc_evidence c = Some e" "ev_custody_request e = Some cu" "ev_custody_attestation e = Some ca"
      "ev_manifest e = Some cm" "ev_composition_attestation e = Some ma" "custody_validate G fs ca cu = (fsc, Inr None)"
      "custody_binds fsc cu (sc_request c) (sc_runtime c)" "composition_validate G fsc ma cm = (fs0, Inr None)"
      "composition_binds cm (sc_request c) (sc_runtime c) (sc_availability c)"
    using r by (rule ready_evidence)
  have "keeps_tree fs fsc" using assms(3) e(6) unfolding gates_keep_def by (metis fst_conv)
  then have "custody_binds fs cu (sc_request c) (sc_runtime c)" using e(7) custody_binds_keeps by blast
  then show thesis using that [OF e(1-6) _ e(8,9)] by blast
qed

end
