(* ===== verification/Evidence_Properties.thy ===== *)
theory Evidence_Properties
  imports Readiness Session_Properties
begin

text \<open>
  The properties of custody and composition evidence, and of sessions that rest on it; and what modelling
  them showed.
\<close>

section \<open>What stores answer\<close>

lemma read_held_iff:
  assumes s: "evidence_store S valid" and c: "control_root_ok (ef_lock S) fs root" and n: "evidence_slot S sha r = Some n"
    and b: "\<not> blank_ustring (ef_identity S r)"
  shows "snd (evidence_read S sha no_store_faults root fs (ef_identity S r)) = Inr (Some r) \<longleftrightarrow> evidence_view S root fs n = Held r"
proof
  assume "evidence_view S root fs n = Held r"
  then show "snd (evidence_read S sha no_store_faults root fs (ef_identity S r)) = Inr (Some r)"
    by (rule evidence_store.record_read_back [OF s c n _ b])
next
  assume h: "snd (evidence_read S sha no_store_faults root fs (ef_identity S r)) = Inr (Some r)"
  obtain fs1 where l: "locked_root (ef_lock S) fs root False = Inr fs1"
    using locked_root_ok [OF c, of False] by simp
  have n': "evidence_name S sha (ef_identity S r) = Some n" using n by (simp add: evidence_slot_def)
  have u: "evidence_read_unlocked S sha fs1 root (ef_identity S r) = Inr (Some r)"
    using h l b by (simp add: evidence_read_def no_store_faults_def)
  have lf: "link_free fs1 [] root" using evidence_locked_root(1) [OF c l] by (simp add: control_root_ok_def)
  have taken: "fs1 (root @ [n]) \<noteq> None"
  proof
    assume "fs1 (root @ [n]) = None"
    from evidence_read_free [OF lf n' this] show False using u by simp
  qed
  have "\<not> is_symlink fs1 (root @ [n])"
  proof
    assume "is_symlink fs1 (root @ [n])"
    from evidence_link_refused(1) [OF lf n' this] show False using u by simp
  qed
  from lf n' taken this have "evidence_view S root fs1 n = Held r"
    by (rule evidence_read_view) (simp_all add: u)
  then show "evidence_view S root fs n = Held r"
    using evidence_locked_root(3) [OF c l evidence_store.name_not_lock [OF s n'], where S = S] by simp
qed

section \<open>Handles\<close>

text \<open>The handles issued by a sequence of events, in order.\<close>

fun issued_list :: "'d handle_event list \<Rightarrow> (thread_context \<times> 'd \<times> ustring) list" where
  "issued_list [] = []"
| "issued_list (Issued c d b # es) = (c, d, b) # issued_list es"
| "issued_list (Consumed c i b # es) = issued_list es"
| "issued_list (Closed i # es) = issued_list es"

definition handle_facts :: "'d handle_world \<Rightarrow> (thread_context \<times> 'd \<times> ustring) list" where
  "handle_facts w = map (\<lambda>h. (rh_context h, rh_descriptor h, rh_binding h)) (hw_handles w)"

definition at_rest :: "'d handle_world \<Rightarrow> bool" where
  "at_rest w \<longleftrightarrow> (\<forall>h \<in> set (hw_handles w). \<not> rh_transitioning h)"

lemma update_facts:
  "i < length xs \<Longrightarrow> f y = f (xs ! i) \<Longrightarrow> map f (xs[i := y]) = map f xs"
  by (simp add: map_update list_update_same_conv)

lemma step_facts: "handle_facts (fst (handle_step w e)) = handle_facts w @ issued_list [e]"
proof (cases e)
  case (Consumed c i b)
  then show ?thesis
    by (cases "i < length (hw_handles w)")
      (auto simp: handle_facts_def consume_for_construction_def consume_handle_def split: prod.splits sum.splits
        intro!: update_facts)
next
  case (Closed i)
  then show ?thesis
    by (cases "i < length (hw_handles w)") (auto simp: handle_facts_def close_root_def close_handle_def intro!: update_facts)
qed (simp add: handle_facts_def issue_handle_world)

lemma issued_append: "issued_list (es @ fs) = issued_list es @ issued_list fs"
  by (induction es rule: issued_list.induct) simp_all

lemma run_facts: "handle_facts (fst (handle_run w es)) = handle_facts w @ issued_list es"
proof (induction es arbitrary: w)
  case (Cons e es)
  have "issued_list (e # es) = issued_list [e] @ issued_list es" using issued_append [of "[e]" es] by simp
  then show ?case using Cons.IH [of "fst (handle_step w e)"] step_facts [of w e] by (simp add: split_beta)
qed simp

lemma step_at_rest: "at_rest w \<Longrightarrow> at_rest (fst (handle_step w e))"
proof (cases e)
  case (Consumed c i b)
  assume "at_rest w"
  then show ?thesis using Consumed
    by (auto simp: at_rest_def consume_for_construction_def consume_handle_def split: prod.splits sum.splits
        dest!: set_update_subset_insert [THEN subsetD])
next
  case (Closed i)
  assume "at_rest w"
  then show ?thesis using Closed
    by (auto simp: at_rest_def close_root_def close_handle_def dest!: set_update_subset_insert [THEN subsetD])
qed (simp add: at_rest_def issue_handle_world)

lemma run_at_rest: "at_rest w \<Longrightarrow> at_rest (fst (handle_run w es))"
  by (induction es arbitrary: w) (simp_all add: split_beta step_at_rest)

lemma closed_spent: "at_rest w \<Longrightarrow> i < length (hw_handles w) \<Longrightarrow> handle_spent (fst (handle_step w (Closed i))) i"
  by (auto simp: at_rest_def close_root_def close_handle_def handle_spent_def)

lemma run_gives:
  "x \<in> set (snd (handle_run w es)) \<Longrightarrow> \<exists>pre e post. es = pre @ e # post \<and> x \<in> set (snd (handle_step (fst (handle_run w pre)) e))"
proof (induction es arbitrary: w)
  case (Cons e es)
  from Cons.prems consider "x \<in> set (snd (handle_step w e))" | "x \<in> set (snd (handle_run (fst (handle_step w e)) es))"
    by (auto simp: split_beta)
  then show ?case
  proof cases
    case 1
    then have "e # es = [] @ e # es \<and> x \<in> set (snd (handle_step (fst (handle_run w [])) e))" by simp
    then show ?thesis by blast
  next
    case 2
    then obtain pre e' post where "es = pre @ e' # post"
        "x \<in> set (snd (handle_step (fst (handle_run (fst (handle_step w e)) pre)) e'))"
      using Cons.IH by blast
    then have "e # es = (e # pre) @ e' # post \<and> x \<in> set (snd (handle_step (fst (handle_run w (e # pre))) e'))"
      by (simp add: split_beta)
    then show ?thesis by blast
  qed
qed simp

text \<open>C39. From a process without handles, whatever is issued, consumed and closed in whatever order: every handle gives its
  descriptor at most once, and only the descriptor it was issued for, to the thread it was issued in, for the
  binding it was issued with, and not after it was closed.\<close>

theorem handle_gives_once:
  fixes es :: "'d handle_event list"
  shows "distinct (map fst (snd (handle_run no_handles es))) \<and>
   (\<forall>(i, d) \<in> set (snd (handle_run no_handles es)). \<exists>pre c b post. es = pre @ Consumed c i b # post \<and>
      i < length (issued_list pre) \<and> issued_list pre ! i = (c, d, b) \<and>
      (\<forall>pre1 pre2. pre = pre1 @ Closed i # pre2 \<longrightarrow> length (issued_list pre1) \<le> i))"
proof (intro conjI run_distinct ballI)
  fix x assume x: "x \<in> set (snd (handle_run (no_handles :: 'd handle_world) es))"
  then obtain pre e post where es: "es = pre @ e # post" "x \<in> set (snd (handle_step (fst (handle_run no_handles pre)) e))"
    by (metis run_gives)
  define w where "w = fst (handle_run (no_handles :: 'd handle_world) pre)"
  obtain c b where g: "e = Consumed c (fst x) b" "fst x < length (hw_handles w)"
      "consume_for_construction c (fst x) b w = (fst (handle_step w e), Inr (snd x))"
    using es(2) unfolding w_def [symmetric] by (rule step_gives)
  have f: "handle_facts w = issued_list pre"
    using run_facts [of no_handles pre] by (simp add: w_def handle_facts_def no_handles_def)
  have "fst x < length (handle_facts w)" using g(2) by (simp add: handle_facts_def)
  then have l: "fst x < length (issued_list pre)" by (simp add: f)
  have "issued_list pre ! fst x = (c, snd x, b)"
    using consume_given(3-5) [OF g(3,2)] g(2) by (simp add: f [symmetric] handle_facts_def)
  moreover have "length (issued_list pre1) \<le> fst x" if p: "pre = pre1 @ Closed (fst x) # pre2" for pre1 pre2
  proof (rule ccontr)
    define v where "v = fst (handle_run (no_handles :: 'd handle_world) pre1)"
    assume "\<not> length (issued_list pre1) \<le> fst x"
    moreover have "handle_facts v = issued_list pre1"
      using run_facts [of no_handles pre1] by (simp add: v_def handle_facts_def no_handles_def)
    ultimately have "fst x < length (handle_facts v)" by simp
    then have "fst x < length (hw_handles v)" by (simp add: handle_facts_def)
    moreover have "at_rest v" unfolding v_def by (rule run_at_rest) (simp add: at_rest_def no_handles_def)
    ultimately have "handle_spent (fst (handle_step v (Closed (fst x)))) (fst x)" by (intro closed_spent)
    then have "handle_spent (fst (handle_run (fst (handle_step v (Closed (fst x)))) pre2)) (fst x)" using run_spent by blast
    moreover have "w = fst (handle_run (fst (handle_step v (Closed (fst x)))) pre2)"
      unfolding w_def v_def p by (simp only: run_append split_beta fst_conv snd_conv run_Cons)
    ultimately show False using consume_given(1) [OF g(3,2)] by simp
  qed
  ultimately have "es = pre @ Consumed c (fst x) b # post \<and> fst x < length (issued_list pre) \<and> issued_list pre ! fst x = (c, snd x, b) \<and>
      (\<forall>pre1 pre2. pre = pre1 @ Closed (fst x) # pre2 \<longrightarrow> length (issued_list pre1) \<le> fst x)"
    using es(1) g(1) l by simp
  then show "case x of (i, d) \<Rightarrow> \<exists>pre c b post. es = pre @ Consumed c i b # post \<and> i < length (issued_list pre) \<and>
      issued_list pre ! i = (c, d, b) \<and> (\<forall>pre1 pre2. pre = pre1 @ Closed i # pre2 \<longrightarrow> length (issued_list pre1) \<le> i)"
    unfolding case_prod_beta by blast
qed

lemma handle_gives_once_witness:
  "snd (handle_run no_handles [Issued (1, 2) (7 :: nat) [65], Consumed (1, 3) 0 [65], Consumed (1, 2) 0 [65], Consumed (1, 2) 0 [65], Closed 0])
     = [(0, 7)] \<and>
   (\<exists>pre c b post. [Issued (1, 2) (7 :: nat) [65], Consumed (1, 3) 0 [65], Consumed (1, 2) 0 [65], Consumed (1, 2) 0 [65], Closed 0]
     = pre @ Consumed c 0 b # post \<and> issued_list pre ! 0 = (c, 7, b))"
proof -
  have r: "snd (handle_run no_handles [Issued (1, 2) (7 :: nat) [65], Consumed (1, 3) 0 [65], Consumed (1, 2) 0 [65], Consumed (1, 2) 0 [65],
      Closed 0]) = [(0, 7)]"
    by (simp add: no_handles_def issue_handle_def make_handle_def guarded_def consume_for_construction_def consume_handle_def)
  then show ?thesis
    using handle_gives_once [of "[Issued (1, 2) (7 :: nat) [65], Consumed (1, 3) 0 [65], Consumed (1, 2) 0 [65], Consumed (1, 2) 0 [65],
      Closed 0]"] by fastforce
qed

section \<open>Composition evidence\<close>

text \<open>What can be written of a manifest and of the identity of an attestation.\<close>

definition attestable :: "(ustring \<Rightarrow> instant_text) \<Rightarrow> ustring \<Rightarrow> composition_manifest \<Rightarrow> utc_time \<Rightarrow> bool" where
  "attestable parse i m t \<longleftrightarrow> manifest_valid m \<and> ustring_ok i \<and> manifest_texts_ok m \<and> parse (isoformat t) = AwareInstant t"

text \<open>An admission that gives no reason claimed the attestation.\<close>

lemma composition_attested:
  assumes "composition_attest sha parse fl root fs i m occurred = (fs', Inr adm)" and "cad_reason adm = None"
  obtains a c where "issue_composition sha i m occurred = Inr a" and "composition_claim sha parse fl root fs a = (fs', Inr c)"
    and "ec_disposition c = EVIDENCE_CLAIMED" and "cad_attestation adm = Some a"
  using assms
  by (auto simp: composition_attest_def composition_rejected_def make_composition_admission_def guarded_Inr_iff
      split: sum.splits prod.splits store_exn.splits evidence_disposition.splits)

text \<open>C40. An attestation of a manifest that was recorded, under whatever failures, is accepted at any later time for
  exactly that manifest, and its identity is never attested again.\<close>

theorem composition_attested_lasts:
  assumes "control_root_ok ''.g2_4_11_runtime_composition.lock'' fs root" and "attestable parse i m t"
    and "composition_attest sha parse fl root fs i m (Some t) = (fs', Inr adm)" and "cad_reason adm = None"
    and "keeps_tree fs' fs''"
  shows "\<exists>a. cad_attestation adm = Some a \<and> ca_manifest a = m \<and>
     (\<forall>m'. snd (composition_check sha parse no_store_faults root fs'' (Some a) m') = Inr None \<longleftrightarrow> m' = m) \<and>
     (\<forall>fl' m' t' x. snd (composition_attest sha parse fl' root fs'' i m' t') = Inr x \<longrightarrow> cad_reason x \<noteq> None)"
proof -
  note store = composition_store.evidence_store_axioms [of sha parse]
  obtain a c where a: "issue_composition sha i m (Some t) = Inr a" "composition_claim sha parse fl root fs a = (fs', Inr c)"
      "ec_disposition c = EVIDENCE_CLAIMED" "cad_attestation adm = Some a"
    using assms(3,4) by (rule composition_attested)
  have m: "make_composition sha a = Inr a" "ca_manifest a = m" "ca_attestation a = i" "ca_occurred a = t"
    using a(1) by (auto simp: issue_composition_Inr) (metis composition_attestation.select_convs)+
  have v: "composition_storable sha parse a" using assms(2) m by (simp add: composition_storable_def attestable_def)
  have lock: "ef_lock (composition_files sha parse) = ''.g2_4_11_runtime_composition.lock''" by (simp add: composition_files_def)
  obtain n where n: "evidence_slot (composition_files sha parse) sha a = Some n"
      "root_in_use (ef_lock (composition_files sha parse)) fs' root" "evidence_view (composition_files sha parse) root fs' n = Held a"
    using evidence_store.claimed_held [OF store _ v] assms(1) a(2,3) unfolding composition_claim_def lock by metis
  have u: "root_in_use (ef_lock (composition_files sha parse)) fs'' root" by (rule root_in_use_keeps [OF n(2) assms(5)])
  have h: "evidence_view (composition_files sha parse) root fs'' n = Held a"
    by (rule evidence_store.held_stays [OF store n(2,3) assms(5)])
  have id: "ef_identity (composition_files sha parse) = ca_attestation" by (simp add: composition_files_def)
  have "snd (composition_read sha parse no_store_faults root fs'' (ca_attestation a)) = Inr (Some a)"
    using read_held_iff [OF store _ n(1), of fs'' root] h u m(1)
    by (simp add: composition_read_def id root_in_use_def make_composition_Inr)
  then have accepts: "snd (composition_check sha parse no_store_faults root fs'' (Some a) m') = Inr None \<longleftrightarrow> m' = m" for m'
    using composition_check_accepts [OF m(1)] m(2) by simp
  have refused: "cad_reason x \<noteq> None" if x: "snd (composition_attest sha parse fl' root fs'' i m' t') = Inr x" for fl' m' t' x
  proof
    assume "cad_reason x = None"
    then obtain b d where b: "issue_composition sha i m' t' = Inr b"
        "composition_claim sha parse fl' root fs'' b = (fst (composition_attest sha parse fl' root fs'' i m' t'), Inr d)"
        "ec_disposition d = EVIDENCE_CLAIMED"
      using x by (metis composition_attested prod.collapse)
    have "ca_attestation b = ca_attestation a" using b(1) m(3) by (auto simp: issue_composition_Inr) (metis composition_attestation.select_convs(1))
    then have "ec_disposition d \<noteq> EVIDENCE_CLAIMED"
      using b(2) n(1) by (intro evidence_store.held_refuses [OF store u h, of sha b fl'])
        (simp_all add: composition_claim_def id evidence_slot_def)
    then show False using b(3) by simp
  qed
  show ?thesis using a(4) m(2) accepts refused by blast
qed

text \<open>A hash that depends on the length of its input, and a tree with the four roots.\<close>

definition length_hash :: "bytes \<Rightarrow> string" where
  "length_hash b = ''0123456789abcdef'' ! (length b mod 16) # replicate 63 (CHR ''0'')"

lemma length_hash_hex: "hex_hash length_hash"
proof -
  have "lower_hex (of_char (''0123456789abcdef'' ! (n mod 16)))" for n :: nat
  proof -
    have "n mod 16 < 16" by simp
    moreover have "\<forall>k < 16. lower_hex (of_char (''0123456789abcdef'' ! k))" by code_simp
    ultimately show ?thesis by blast
  qed
  then show ?thesis by (simp add: hex_hash_def hex_digest_def length_hash_def code_points_def lower_hex_def list_all_iff)
qed

definition demo_parse :: "ustring \<Rightarrow> instant_text" where
  "demo_parse s = AwareInstant demo_time"

lemma demo_attestable: "attestable demo_parse (code_points ''e'') demo_manifest demo_time"
  using demo_nonblank demo_hex hex_not_blank [OF demo_hex]
  by (simp add: ustring_ok_def point_ok_def attestable_def manifest_valid_def make_manifest_def manifest_errors_def empty_field_def digest_field_def guarded_def
      demo_manifest_def make_component_Inr manifest_texts_ok_def demo_parse_def blank_ustring_def code_points_def unicode_space_def)

lemma composition_attested_lasts_witness:
  "\<exists>fs' adm a. composition_attest demo_hash demo_parse no_store_faults [''p''] demo_dirs (code_points ''e'') demo_manifest (Some demo_time)
      = (fs', Inr adm) \<and> cad_attestation adm = Some a \<and>
     snd (composition_check demo_hash demo_parse no_store_faults [''p''] fs' (Some a) demo_manifest) = Inr None"
proof -
  note store = composition_store.evidence_store_axioms [of demo_hash demo_parse]
  have c: "control_root_ok ''.g2_4_11_runtime_composition.lock'' demo_dirs [''p'']"
    by (simp add: control_root_ok_def demo_dirs_def)
  obtain a where a: "issue_composition demo_hash (code_points ''e'') demo_manifest (Some demo_time) = Inr a"
      "ca_attestation a = code_points ''e''"
    using demo_nonblank(1) demo_hex by (auto simp: issue_composition_def canonical_occurrence_def make_composition_def composition_errors_def
        composition_binding_def manifest_digest_def demo_digest empty_field_def digest_field_def guarded_def hex_not_blank [OF demo_hex])
  have n: "evidence_slot (composition_files demo_hash demo_parse) demo_hash a = Some (''attestation-'' @ demo_hash [] @ ''.json'')"
    using ustring_ok_points [of "''e''"] a(2)
    by (simp add: evidence_slot_def evidence_name_def composition_files_def utf8_strict_def demo_hash_def)
  have "\<exists>fs'. evidence_claim (composition_files demo_hash demo_parse) demo_hash no_store_faults [''p''] demo_dirs a
      = (fs', Inr \<lparr>ec_disposition = EVIDENCE_CLAIMED, ec_existing = None\<rparr>)"
    by (rule evidence_store.free_claim [OF store _ n]) (use c in \<open>simp_all add: composition_files_def demo_dirs_def\<close>)
  then obtain fs' where "composition_attest demo_hash demo_parse no_store_faults [''p''] demo_dirs (code_points ''e'') demo_manifest
      (Some demo_time) = (fs', Inr \<lparr>cad_attestation = Some a, cad_reason = None\<rparr>)"
    using a(1) by (auto simp: composition_attest_def composition_claim_def make_composition_admission_def guarded_def)
  moreover from composition_attested_lasts [OF c demo_attestable this _ keeps_refl]
  have "snd (composition_check demo_hash demo_parse no_store_faults [''p''] fs' (Some a) demo_manifest) = Inr None" by simp
  ultimately show ?thesis by force
qed

section \<open>Custody evidence\<close>

text \<open>C37. Roots are admitted exactly when they are four real directories none of which lies in another, the workspace is
  empty if that is asked for, and the control root is that of the store: the climb through open descriptors decides
  whether one directory lies in another.\<close>

theorem custody_admits_isolated:
  assumes "honest_system E fs" and "ce_capable E" and "ce_probe E" and "hex_hash (ce_sha E)" and "request_valid q" and "digests_differ E fs q"
  shows "(\<exists>a. admit_descriptors E (no_custody_faults sf) fs q (Some t) =
        ([], Inr (\<lparr>wad_attestation = Some a, wad_reason = None\<rparr>, placed_roots fs q))) \<longleftrightarrow>
     roots_isolated fs q \<and> resolve fs (cu_control q) = resolve fs (ce_store E)"
proof
  assume "\<exists>a. admit_descriptors E (no_custody_faults sf) fs q (Some t) =
        ([], Inr (\<lparr>wad_attestation = Some a, wad_reason = None\<rparr>, placed_roots fs q))"
  then show "roots_isolated fs q \<and> resolve fs (cu_control q) = resolve fs (ce_store E)"
    using admitted_isolated(4,7) [OF assms(1)] by fastforce
next
  assume "roots_isolated fs q \<and> resolve fs (cu_control q) = resolve fs (ce_store E)"
  then show "\<exists>a. admit_descriptors E (no_custody_faults sf) fs q (Some t) =
        ([], Inr (\<lparr>wad_attestation = Some a, wad_reason = None\<rparr>, placed_roots fs q))"
    using isolated_admitted [OF assms(1-3) _ _ assms(6,4,5)] by metis
qed

text \<open>The directories of the tree, each with a number of its own length; and the names a listing looks for.\<close>

definition demo_object :: "fs \<Rightarrow> path \<Rightarrow> 64 word \<times> 64 word" where
  "demo_object fs p = (1, if p = [] then 1 else if p = [''w''] then 10 else if p = [''s''] then 100 else if p = [''a''] then 1000
     else if p = [''k''] then 10000 else 100000)"

definition demo_names :: "string list" where
  "demo_names = [''approval-'' @ demo_hash [] @ ''.json'', approval_lock, ''.g2_4_10_workspace_custody.lock'', ''.g2_4_11_runtime_composition.lock'',
     ''attestation-'' @ length_hash [0, 0] @ ''.json'', ''attestation-'' @ length_hash [0] @ ''.json'']"

definition demo_custody_env :: "(bytes \<Rightarrow> string) \<Rightarrow> custody_env" where
  "demo_custody_env sha = \<lparr>ce_sha = sha, ce_parse = demo_parse, ce_store = [''p''], ce_capable = True, ce_probe = True,
     ce_object = demo_object, ce_listing = (\<lambda>fs p. filter (\<lambda>x. fs (p @ [x]) \<noteq> None)
       ([''w'', ''s'', ''a'', ''k'', ''p''] @ demo_names))\<rparr>"

definition demo_like :: "fs \<Rightarrow> bool" where
  "demo_like f \<longleftrightarrow> (\<forall>p. f p = Some Dir \<longleftrightarrow> p \<in> {[], [''w''], [''s''], [''a''], [''k''], [''p'']}) \<and>
     (\<forall>p e. f p = Some e \<and> e \<noteq> Dir \<longrightarrow> (\<exists>n \<in> set demo_names. p = [''p'', n]))"

lemma demo_dirs_like: "demo_like demo_dirs"
  by (auto simp: demo_like_def demo_dirs_def split: if_splits)

lemma demo_like_cases:
  assumes "demo_like f" and "f (p @ [x]) \<noteq> None"
  shows "p = [] \<and> x \<in> {''w'', ''s'', ''a'', ''k'', ''p''} \<or> p = [''p''] \<and> x \<in> set demo_names"
proof -
  obtain e where e: "f (p @ [x]) = Some e" using assms(2) by blast
  show ?thesis
  proof (cases "e = Dir")
    case True
    then have "f (p @ [x]) = Some Dir" using e by simp
    then have "p @ [x] \<in> {[], [''w''], [''s''], [''a''], [''k''], [''p'']}" by (rule assms(1) [unfolded demo_like_def, THEN conjunct1, rule_format, THEN iffD1])
    then show ?thesis by (cases p) auto
  next
    case False
    then obtain n where "n \<in> set demo_names" "p @ [x] = [''p'', n]"
      using assms(1) [unfolded demo_like_def, THEN conjunct2, rule_format, OF conjI, OF e] by blast
    then show ?thesis by (cases p) (auto simp: append_eq_Cons_conv)
  qed
qed

lemma demo_honest:
  assumes l: "demo_like f"
  shows "honest_system (demo_custody_env sha) f"
proof -
  have d: "f p = Some Dir \<longleftrightarrow> p \<in> {[], [''w''], [''s''], [''a''], [''k''], [''p'']}" for p using l by (simp add: demo_like_def)
  have "f p = Some Dir" if "f (p @ [x]) \<noteq> None" for p x using demo_like_cases [OF l that] by (auto simp: d)
  then have "sane_tree f" by (auto simp: sane_tree_def d)
  moreover have "p = q" if "f p = Some Dir" "f q = Some Dir" "demo_object f p = demo_object f q" for p q
    using that by (auto simp: d demo_object_def split: if_splits)
  moreover have "{x. f (p @ [x]) \<noteq> None} \<subseteq> set ([''w'', ''s'', ''a'', ''k'', ''p''] @ demo_names)" for p
    using demo_like_cases [OF l] by auto
  then have "set (filter (\<lambda>x. f (p @ [x]) \<noteq> None) ([''w'', ''s'', ''a'', ''k'', ''p''] @ demo_names)) = {x. f (p @ [x]) \<noteq> None}" for p
    unfolding set_filter by blast
  ultimately show ?thesis unfolding honest_system_def demo_custody_env_def by simp
qed

lemma demo_custody_valid: "request_valid demo_custody"
  using make_custody_request_valid [of "Some (code_points ''wa:request'')" demo_custody demo_custody]
  by (simp add: make_custody_request_def custody_request_id_for_def demo_custody_def guarded_def empty_field_def blank_ustring_def code_points_def
    unicode_space_def)

lemma demo_places: "placed_roots demo_dirs demo_custody = [(WORKSPACE, [''w'']), (SOURCE, [''s'']), (AUDIT, [''a'']), (CONTROL, [''p''])]"
  by (simp add: placed_roots_simps demo_custody_def root_place_def place_def resolve_def demo_dirs_def)

lemma demo_numbers: "show_nat 1 = ''1''" "show_nat 10 = ''10''" "show_nat 100 = ''100''" "show_nat 1000 = ''1000''" "show_nat 100000 = ''100000''"
  by (simp_all add: show_nat.simps char_of_def bit_0)

lemma demo_decimals: "list_all (\<lambda>s. decimal_text (code_points s)) [''1'', ''10'', ''100'', ''1000'', ''100000'']"
  by (simp add: decimal_text_def decimal_point_def decimal_zeros_def code_points_def)

lemma demo_identities: "observe_roots (demo_custody_env sha) fs [(WORKSPACE, [''w'']), (SOURCE, [''s'']), (AUDIT, [''a'']), (CONTROL, [''p''])] =
   Inr (map (\<lambda>n. \<lparr>oi_device = code_points ''1'', oi_inode = code_points n\<rparr>) [''10'', ''100'', ''1000'', ''100000''])"
  using demo_decimals by (simp add: observe_roots_def demo_custody_env_def demo_object_def observed_identity_def demo_numbers make_object_identity_def guarded_def del: One_nat_def)

lemma demo_digests: "distinct (map (object_digest length_hash) (map (\<lambda>n. \<lparr>oi_device = code_points ''1'', oi_inode = code_points n\<rparr>) [''10'', ''100'', ''1000'', ''100000'']))"
  by code_simp

lemma demo_isolated: "roots_isolated demo_dirs demo_custody"
  by (simp add: roots_isolated_def demo_places) (simp add: demo_custody_def root_place_def place_def resolve_def demo_dirs_def inside_def default_custody_policy_def)

theorem custody_admits_isolated_witness:
  "\<exists>a. admit_descriptors (demo_custody_env length_hash) (no_custody_faults no_store_faults) demo_dirs demo_custody (Some demo_time) =
        ([], Inr (\<lparr>wad_attestation = Some a, wad_reason = None\<rparr>, placed_roots demo_dirs demo_custody))"
proof -
  have E: "ce_capable (demo_custody_env length_hash)" "ce_probe (demo_custody_env length_hash)" "hex_hash (ce_sha (demo_custody_env length_hash))"
    using length_hash_hex by (simp_all add: demo_custody_env_def)
  have d: "digests_differ (demo_custody_env length_hash) demo_dirs demo_custody"
    using demo_digests by (simp add: digests_differ_def demo_places demo_identities) (simp add: demo_custody_env_def)
  have "resolve demo_dirs (cu_control demo_custody) = resolve demo_dirs (ce_store (demo_custody_env length_hash))"
    by (simp add: demo_custody_def demo_custody_env_def)
  then show ?thesis
    using custody_admits_isolated [OF demo_honest [OF demo_dirs_like] E demo_custody_valid d, where sf = no_store_faults and t = demo_time] demo_isolated
    by blast
qed

lemma claim_reason_free:
  "custody_claim_reason E fl fs a = (fs', Inr None) \<Longrightarrow>
     \<exists>c. custody_claim (ce_sha E) (ce_parse E) (cf_store fl) (ce_store E) fs a = (fs', Inr c) \<and> ec_disposition c = EVIDENCE_CLAIMED"
  by (auto simp: custody_claim_reason_def split: prod.splits sum.splits store_exn.splits evidence_disposition.splits)

lemma rejected_handoff_value:
  "rejected_handoff r = Inr h \<longleftrightarrow> h = \<lparr>ho_attestation = None, ho_binding = None, ho_handle = None, ho_reason = Some r\<rparr>"
  by (auto simp: rejected_handoff_def make_handoff_def guarded_def)

lemma issue_root_binding_fields:
  assumes "issue_root_binding sha q a o' capability (Some t) = Inr b"
  shows "rb_attestation b = wa_attestation a" and "rb_request_digest b = custody_request_digest sha q" and "rb_object b = o'"
    and "rb_attestation_digest b = wa_binding a"
  using assms by (auto simp: issue_root_binding_def bind_res_Inr_iff canonical_occurrence_def make_root_binding_def guarded_Inr_iff Let_def)

lemma issue_root_binding_value:
  assumes "hex_hash sha" and "request_valid q" and "\<not> blank_ustring (wa_attestation a)" and "hex_digest (wa_binding a)" and "hex_digest k"
  shows "\<exists>b. issue_root_binding sha q a o' k (Some t) = Inr b"
proof -
  have j: "hex_digest (json_digest sha x)" for x by (rule json_digest_hex [OF assms(1)])
  have "\<not> blank_ustring (wa_attestation a @ code_points '':root-binding'')" using assms(3) by (auto simp: blank_ustring_def)
  moreover have "\<not> blank_ustring handoff_profile" by (simp add: handoff_profile_def blank_ustring_def code_points_def unicode_space_def)
  moreover have "hex_digest (root_binding_digest sha b)" for b unfolding root_binding_digest_def by (rule j)
  moreover have "root_binding_digest sha (b\<lparr>rb_binding := x\<rparr>) = root_binding_digest sha b" for b x by (simp add: root_binding_digest_def)
  ultimately show ?thesis
    using assms(2-5) j hex_not_blank by (simp add: issue_root_binding_def canonical_occurrence_def make_root_binding_def guarded_def Let_def
        empty_field_def digest_field_def custody_request_digest_def request_valid_def)
qed

text \<open>A handle that was just issued gives its descriptor to its thread for its binding, and to nobody else.\<close>

lemma issued_gives:
  assumes "issue_handle c d b w = (w', i)"
  shows "snd (consume_for_construction c' i b' w') = Inr d' \<longleftrightarrow> c' = c \<and> b' = b \<and> d' = d"
proof -
  have "w' = fst (issue_handle c d b w)" "i = length (hw_handles w)" using assms issue_handle_world(2) [of c d b w] by simp_all
  then show ?thesis by (auto simp: issue_handle_world consume_for_construction_def consume_handle_def)
qed

lemma handed_over:
  assumes "acquire_root_handoff E fl c fs w q now = ((fs', w'), lost, Inr h)" and "ho_reason h = None" and hs: "honest_system E fs"
  obtains a b i where "admit_descriptors E fl fs q (Some now) = (lost, Inr (\<lparr>wad_attestation = Some a, wad_reason = None\<rparr>, placed_roots fs q))"
    and "custody_claim_reason E fl fs a = (fs', Inr None)" and "ho_attestation h = Some a" and "ho_binding h = Some b"
    and "ho_handle h = Some i" and "issue_handle c (root_place fs (cu_workspace q)) (rb_binding b) w = (w', i)"
    and "bind_res (observed_identity (ce_object E fs' (root_place fs (cu_workspace q)))) (\<lambda>o'.
      issue_root_binding (ce_sha E) q a o' (capability_digest (ce_sha E)) (Some now)) = Inr b"
proof -
  have no: "rejected_handoff r = Inr h \<Longrightarrow> False" for r using assms(2) by (simp add: rejected_handoff_value)
  have cap: "ce_capable E \<and> ce_probe E" using assms(1) no by (auto simp: acquire_root_handoff_def split: if_splits)
  obtain lost0 out where ad: "admit_descriptors E fl fs q (Some now) = (lost0, out)" by fastforce
  obtain adm ds where out: "out = Inr (adm, ds)" using assms(1) cap ad by (cases out) (auto simp: acquire_root_handoff_def)
  obtain a d where adm: "wad_reason adm = None" "wad_attestation adm = Some a" "map_of ds WORKSPACE = Some d"
    using assms(1) cap ad out no by (auto simp: acquire_root_handoff_def split: option.splits)
  have l: "adm = \<lparr>wad_attestation = Some a, wad_reason = None\<rparr>" "ds = placed_roots fs q"
    using adm admitted_isolated(2) [OF hs ad [unfolded out] adm(2)] by simp_all
  have d: "d = root_place fs (cu_workspace q)" using adm(3) by (simp add: l(2) placed_roots_simps)
  obtain r where cl: "custody_claim_reason E fl fs a = (fs', Inr r)"
    using assms(1) cap ad out adm by (auto simp: acquire_root_handoff_def split: prod.splits sum.splits option.splits)
  have r: "r = None" using assms(1) cap ad out adm cl no by (cases r) (auto simp: acquire_root_handoff_def)
  obtain b where b: "bind_res (observed_identity (ce_object E fs' d)) (\<lambda>o'.
      issue_root_binding (ce_sha E) q a o' (capability_digest (ce_sha E)) (Some now)) = Inr b"
    using assms(1) cap ad out adm cl r by (auto simp: acquire_root_handoff_def split: sum.splits)
  obtain i where i: "issue_handle c d (rb_binding b) w = (w', i)" "lost = lost0"
      "h = \<lparr>ho_attestation = Some a, ho_binding = Some b, ho_handle = Some i, ho_reason = None\<rparr>"
    using assms(1) cap ad out adm cl r b by (auto simp: acquire_root_handoff_def make_handoff_def guarded_def split: prod.splits)
  show thesis using that ad out l cl r b i d by simp
qed

lemma rejected_keeps:
  "acquire_root_handoff E fl c fs w q now = ((fs', w'), lost, Inr h) \<Longrightarrow> ho_reason h \<noteq> None \<Longrightarrow> ho_handle h = None \<and> w' = w"
  by (auto simp: acquire_root_handoff_def rejected_handoff_value make_handoff_def guarded_Inr_iff
      split: if_splits prod.splits sum.splits option.splits)

text \<open>C38. A handoff that gives no reason was claimed for four roots of which none lies in another and leaves no descriptor
  behind but that of the workspace, in a new handle of the process: the handle gives exactly that descriptor, to
  the thread it was made in, for the binding that was issued with it. A handoff with a reason makes no handle.\<close>

theorem handoff_gives_workspace:
  assumes "honest_system E fs" and "acquire_root_handoff E fl c fs w q now = ((fs', w'), lost, Inr h)"
  shows "if ho_reason h = None
     then lost = [] \<and> roots_isolated fs q \<and> resolve fs (cu_control q) = resolve fs (ce_store E) \<and>
       (\<exists>a b i. ho_attestation h = Some a \<and> ho_binding h = Some b \<and> ho_handle h = Some i \<and>
          wa_request_digest a = custody_request_digest (ce_sha E) q \<and> rb_attestation b = wa_attestation a \<and>
          (\<forall>c' b' d. snd (consume_for_construction c' i b' w') = Inr d \<longleftrightarrow>
             c' = c \<and> b' = rb_binding b \<and> d = root_place fs (cu_workspace q)))
     else ho_handle h = None \<and> w' = w"
proof (cases "ho_reason h = None")
  case True
  obtain a b i where x: "admit_descriptors E fl fs q (Some now) = (lost, Inr (\<lparr>wad_attestation = Some a, wad_reason = None\<rparr>, placed_roots fs q))"
      "custody_claim_reason E fl fs a = (fs', Inr None)" "ho_attestation h = Some a" "ho_binding h = Some b"
      "ho_handle h = Some i" "issue_handle c (root_place fs (cu_workspace q)) (rb_binding b) w = (w', i)"
      "bind_res (observed_identity (ce_object E fs' (root_place fs (cu_workspace q)))) (\<lambda>o'.
        issue_root_binding (ce_sha E) q a o' (capability_digest (ce_sha E)) (Some now)) = Inr b"
    using handed_over [OF assms(2) True assms(1)] by blast
  note ai = admitted_isolated [OF assms(1) x(1), of a]
  obtain ids where "issue_custody (ce_sha E) q (ids ! 0) (ids ! 1) (ids ! 2) (ids ! 3) (Some now) = Inr a" using ai(8) by auto
  then have "wa_request_digest a = custody_request_digest (ce_sha E) q" by (rule issue_custody_fields(2))
  moreover have "rb_attestation b = wa_attestation a" using x(7) issue_root_binding_fields(1) by (auto simp: bind_res_Inr_iff)
  moreover have "lost = []" "roots_isolated fs q" "resolve fs (cu_control q) = resolve fs (ce_store E)" using ai(1,4,7) by simp_all
  ultimately show ?thesis using True x(3-5) issued_gives [OF x(6)] by simp
next
  case False
  then show ?thesis using rejected_keeps [OF assms(2)] by simp
qed

lemma demo_custody_simps: "ce_capable (demo_custody_env sha)" "ce_probe (demo_custody_env sha)" "ce_sha (demo_custody_env sha) = sha"
    "ce_store (demo_custody_env sha) = [''p'']" "ce_parse (demo_custody_env sha) = demo_parse" "ce_object (demo_custody_env sha) = demo_object"
  by (simp_all add: demo_custody_env_def)

lemma demo_digests_differ: "digests_differ (demo_custody_env length_hash) demo_dirs demo_custody"
  using demo_digests by (simp add: digests_differ_def demo_places demo_identities demo_custody_simps)

lemma demo_admitted:
  obtains a where "admit_descriptors (demo_custody_env length_hash) (no_custody_faults no_store_faults) demo_dirs demo_custody (Some demo_time) =
      ([], Inr (\<lparr>wad_attestation = Some a, wad_reason = None\<rparr>, placed_roots demo_dirs demo_custody))"
    and "wa_attestation a = code_points ''wa''" and "make_custody length_hash a = Inr a"
proof -
  have r: "resolve demo_dirs (cu_control demo_custody) = resolve demo_dirs (ce_store (demo_custody_env length_hash))"
    by (simp add: demo_custody_def demo_custody_simps)
  obtain a where a: "admit_descriptors (demo_custody_env length_hash) (no_custody_faults no_store_faults) demo_dirs demo_custody (Some demo_time) =
      ([], Inr (\<lparr>wad_attestation = Some a, wad_reason = None\<rparr>, placed_roots demo_dirs demo_custody))"
    using isolated_admitted [OF demo_honest [OF demo_dirs_like] _ _ r demo_isolated demo_digests_differ _ demo_custody_valid, where sf = no_store_faults and t = demo_time]
      length_hash_hex by (auto simp: demo_custody_simps)
  from admitted_isolated(8) [OF demo_honest [OF demo_dirs_like] a] obtain ids where
    i: "issue_custody length_hash demo_custody (ids ! 0) (ids ! 1) (ids ! 2) (ids ! 3) (Some demo_time) = Inr a"
    by (auto simp: demo_custody_simps)
  show thesis using that [OF a] issue_custody_fields(1,6) [OF i] by (simp add: demo_custody_def)
qed

lemma demo_wa_nonblank: "\<not> blank_ustring (code_points ''wa'')"
  by (simp add: blank_ustring_def code_points_def unicode_space_def)

lemma demo_claimed:
  assumes "wa_attestation a = code_points ''wa''"
  shows "\<exists>fs'. custody_claim_reason (demo_custody_env length_hash) (no_custody_faults no_store_faults) demo_dirs a = (fs', Inr None)"
proof -
  obtain b where "utf8_strict (code_points ''wa'') = Some b" using ustring_ok_points [of "''wa''"] by (simp add: utf8_strict_def)
  then have n: "evidence_slot (custody_files length_hash demo_parse) length_hash a = Some (''attestation-'' @ length_hash b @ ''.json'')"
    using assms by (simp add: evidence_slot_def evidence_name_def custody_files_def)
  have "\<exists>fs'. evidence_claim (custody_files length_hash demo_parse) length_hash no_store_faults [''p''] demo_dirs a
      = (fs', Inr \<lparr>ec_disposition = EVIDENCE_CLAIMED, ec_existing = None\<rparr>)"
    by (rule evidence_store.free_claim [OF custody_store.evidence_store_axioms _ n])
      (simp_all add: custody_files_def control_root_ok_def demo_dirs_def)
  then show ?thesis by (auto simp: custody_claim_reason_def custody_claim_def demo_custody_simps no_custody_faults_def)
qed

theorem handoff_gives_workspace_witness:
  "\<exists>fs' w' h. acquire_root_handoff (demo_custody_env length_hash) (no_custody_faults no_store_faults) (1, 2) demo_dirs no_handles demo_custody demo_time
      = ((fs', w'), [], Inr h) \<and> ho_reason h = None \<and>
     (\<exists>b i. ho_binding h = Some b \<and> ho_handle h = Some i \<and> snd (consume_for_construction (1, 2) i (rb_binding b) w') = Inr [''w''])"
proof -
  let ?E = "demo_custody_env length_hash" and ?fl = "no_custody_faults no_store_faults"
  obtain a where a: "admit_descriptors ?E ?fl demo_dirs demo_custody (Some demo_time) =
      ([], Inr (\<lparr>wad_attestation = Some a, wad_reason = None\<rparr>, placed_roots demo_dirs demo_custody))"
      "wa_attestation a = code_points ''wa''" "make_custody length_hash a = Inr a" by (rule demo_admitted)
  obtain fs' where c: "custody_claim_reason ?E ?fl demo_dirs a = (fs', Inr None)" using demo_claimed [OF a(2)] by blast
  obtain o' where o': "observed_identity (demo_object fs' [''w'']) = Inr o'" using observed_identity_ok by blast
  have j: "hex_digest (json_digest length_hash x)" for x by (rule json_digest_hex [OF length_hash_hex])
  have "hex_digest (wa_binding a)" using a(3) unfolding make_custody_Inr custody_field_errors_None by blast
  then obtain b where b: "issue_root_binding length_hash demo_custody a o' (capability_digest length_hash) (Some demo_time) = Inr b"
    using issue_root_binding_value [OF length_hash_hex demo_custody_valid, of a "capability_digest length_hash" o' demo_time] a(2) j
      demo_wa_nonblank by (auto simp: capability_digest_def)
  have m: "map_of (placed_roots demo_dirs demo_custody) WORKSPACE = Some [''w'']" by (simp add: demo_places)
  obtain w' i where i: "issue_handle (1, 2) [''w''] (rb_binding b) (no_handles :: path handle_world) = (w', i)" by fastforce
  have ac: "acquire_root_handoff ?E ?fl (1, 2) demo_dirs no_handles demo_custody demo_time = ((fs', w'), [], Inr
      \<lparr>ho_attestation = Some a, ho_binding = Some b, ho_handle = Some i, ho_reason = None\<rparr>)"
    using a(1) c o' b m i by (simp add: acquire_root_handoff_def demo_custody_simps make_handoff_def guarded_def)
  have "root_place demo_dirs (cu_workspace demo_custody) = [''w'']" using demo_places by (simp add: placed_roots_simps)
  then have "snd (consume_for_construction (1, 2) i (rb_binding b) w') = Inr [''w'']"
    using handoff_gives_workspace [OF demo_honest [OF demo_dirs_like] ac] by simp
  then show ?thesis using ac by auto
qed

section \<open>What modelling showed\<close>

text \<open>An instant without a zone reaches \<open>issue_from_observations\<close> with the four roots open: it raises, and nobody closes them.\<close>

lemma naive_time_leaks:
  assumes "honest_system E fs" and "ce_capable E" and "ce_probe E" and "request_valid q" and "hex_hash (ce_sha E)" and "digests_differ E fs q"
    and "roots_isolated fs q" and "resolve fs (cu_control q) = resolve fs (ce_store E)"
  shows "\<exists>e. custody_attest E (no_custody_faults sf) fs q None = (fs, placed_roots fs q, Inl e)"
proof -
  obtain a where a: "admit_descriptors E (no_custody_faults sf) fs q (Some demo_time) =
      ([], Inr (\<lparr>wad_attestation = Some a, wad_reason = None\<rparr>, placed_roots fs q))"
    by (rule isolated_admitted [OF assms(1-3,8,7,6,5,4)])
  then have "open_declared_roots (no_custody_faults sf) fs (declared_roots q) = Some (placed_roots fs q) \<and>
      descriptor_rejection E (no_custody_faults sf) fs q (placed_roots fs q) = Inr None"
    using assms(2,3,8) by (auto simp: admit_descriptors_def admission_values split: sum.splits option.splits)
  moreover obtain ids where "observe_roots E fs (placed_roots fs q) = Inr ids" by (rule observe_roots_ok)
  moreover obtain iso where "request_isolation (ce_sha E) q = Inr iso" using issue_custody_value [OF assms(5,4)] by metis
  ultimately show ?thesis
    using assms(2,3,8) by (simp add: custody_attest_def admit_descriptors_def issue_custody_def canonical_occurrence_def)
qed

text \<open>Two of the three flags of the policy change nothing: roots that are not there and links are always refused.\<close>

lemma policy_flags_ignored:
  "descriptor_rejection E fl fs (q\<lparr>cu_policy := \<lparr>cp_existing_roots = x, cp_empty_workspace = cp_empty_workspace (cu_policy q), cp_no_links = y\<rparr>\<rparr>) ds
     = descriptor_rejection E fl fs q ds"
  by (cases "cp_empty_workspace (cu_policy q)") (simp_all add: descriptor_rejection_def)

text \<open>In one control root, which custody and composition may share, evidence of both under one identity has one file: where
  the one is held, the other reads as damaged.\<close>

lemma shared_attestation_name:
  "evidence_name (custody_files sha parse) sha i = evidence_name (composition_files sha parse) sha i"
  "evidence_view (custody_files sha parse) root fs n = Held a \<Longrightarrow> evidence_view (composition_files sha parse) root fs n = Damaged"
proof -
  show "evidence_name (custody_files sha parse) sha i = evidence_name (composition_files sha parse) sha i"
    by (simp add: evidence_name_def custody_files_def composition_files_def)
  assume h: "evidence_view (custody_files sha parse) root fs n = Held a"
  then obtain j where j: "\<not> is_symlink fs (root @ [n])" "read_json fs (root @ [n]) = Inr (Some j)"
      "ef_stored (custody_files sha parse) j = Inr a"
    by (auto simp: evidence_view_def split: if_splits sum.splits option.splits)
  then obtain kvs where k: "j = JObj kvs" "obj_get kvs (code_points ''schema_version'') = Some (JStr (code_points ''g2.4.10''))"
    by (cases j) (auto simp: custody_files_def unwrapped_def split: if_splits)
  have "code_points ''g2.4.10'' \<noteq> code_points ''g2.4.11''" by (simp add: code_points_inj)
  then have "ef_stored (composition_files sha parse) j = Inl (Corrupt ''unsupported record schema'')"
    using k by (simp add: composition_files_def unwrapped_def)
  then show "evidence_view (composition_files sha parse) root fs n = Damaged" using j(1,2) by (simp add: evidence_view_def)
qed

end
