(* ===== verification/SessionEvidence_Properties.thy ===== *)
theory SessionEvidence_Properties
  imports Evidence_Properties
begin

text \<open>
  Sessions that were created with the custody gate and the composition gate of the program, and a session
  with all its evidence on the tree of the demonstration.
\<close>

text \<open>C36. A session that was created with the gates of the program rests on evidence: the custody attestation it was
  given is in the store, it was issued for the presented request, the four roots are still directories none of which lies in
  another, and its paths are those of the activation; and the composition attestation is in its store and is of exactly
  the presented manifest, which names the execution, the run and the runtime of the request.\<close>

theorem session_rests_on_evidence:
  assumes "create_session E (governed_gates R) fl fs c = (fs', Inr m)" and "sd_disposition (sa_decision m) = SESSION_CREATED"
    and "\<forall>i. honest_system (er_custody R)
      (fst (custody_read (ce_sha (er_custody R)) (ce_parse (er_custody R)) (cf_store (er_faults R)) (ce_store (er_custody R)) fs i))"
  shows "\<exists>e cu ca cm ma fsc. sc_evidence c = Some e \<and> ev_custody_request e = Some cu \<and> ev_custody_attestation e = Some ca \<and>
     ev_manifest e = Some cm \<and> ev_composition_attestation e = Some ma \<and>
     custody_read (ce_sha (er_custody R)) (ce_parse (er_custody R)) (cf_store (er_faults R)) (ce_store (er_custody R)) fs
       (wa_attestation ca) = (fsc, Inr (Some ca)) \<and>
     wa_request_digest ca = custody_request_digest (ce_sha (er_custody R)) cu \<and>
     roots_isolated fsc cu \<and> custody_binds fs cu (sc_request c) (sc_runtime c) \<and>
     snd (composition_read (ce_sha (er_custody R)) (ce_parse (er_custody R)) (er_store_faults R) (er_composition R) fsc
       (ca_attestation ma)) = Inr (Some ma) \<and>
     ca_manifest ma = cm \<and> composition_binds cm (sc_request c) (sc_runtime c) (sc_availability c)"
proof -
  let ?E = "er_custody R"
  obtain e cu ca cm ma fsc fsm where r: "sc_evidence c = Some e" "ev_custody_request e = Some cu" "ev_custody_attestation e = Some ca"
      "ev_manifest e = Some cm" "ev_composition_attestation e = Some ma" "custody_validate (governed_gates R) fs ca cu = (fsc, Inr None)"
      "custody_binds fs cu (sc_request c) (sc_runtime c)" "composition_validate (governed_gates R) fsc ma cm = (fsm, Inr None)"
      "composition_binds cm (sc_request c) (sc_runtime c) (sc_availability c)"
    by (rule created_session_ready [OF assms(1,2) governed_gates_keep])
  have v: "fst (custody_check ?E (er_faults R) fs (Some ca) cu) = fsc" "snd (snd (custody_check ?E (er_faults R) fs (Some ca) cu)) = Inr None"
    using r(6) by (auto simp: governed_gates_def split: prod.splits)
  have h: "honest_system ?E (fst (custody_check ?E (er_faults R) fs (Some ca) cu))"
    using assms(3) by (simp add: custody_check_tree)
  note ac = custody_check_accepts [OF h v(2), unfolded v(1)]
  obtain ids where "issue_custody (ce_sha ?E) cu (ids ! 0) (ids ! 1) (ids ! 2) (ids ! 3) (Some (wa_occurred ca)) = Inr ca"
    using ac(4) by auto
  then have d: "wa_request_digest ca = custody_request_digest (ce_sha ?E) cu" by (rule issue_custody_fields(2))
  have s: "snd (composition_check (ce_sha ?E) (ce_parse ?E) (er_store_faults R) (er_composition R) fsc (Some ma) cm) = Inr None"
    using r(8) by (simp add: governed_gates_def)
  then have st: "snd (composition_read (ce_sha ?E) (ce_parse ?E) (er_store_faults R) (er_composition R) fsc (ca_attestation ma)) = Inr (Some ma)"
    by (auto simp: composition_check_def split: prod.splits sum.splits store_exn.splits option.splits if_splits)
  have "cm = ca_manifest ma" using s composition_check_accepts [OF composition_read_valid [OF st]] by simp
  then show ?thesis using r ac(1,2) d st by blast
qed

section \<open>A session of the demonstration that rests on evidence\<close>

definition demo_object_id :: "string \<Rightarrow> object_identity" where
  "demo_object_id n = \<lparr>oi_device = code_points ''1'', oi_inode = code_points n\<rparr>"

lemma demo_object_id_ok: "n \<in> {''10'', ''100'', ''1000'', ''100000''} \<Longrightarrow> make_object_identity (demo_object_id n) = Inr (demo_object_id n)"
  using demo_decimals by (auto simp: make_object_identity_Inr demo_object_id_def)

lemma demo_custody_issued:
  obtains a where "issue_custody length_hash demo_custody (demo_object_id ''10'') (demo_object_id ''100'') (demo_object_id ''1000'')
      (demo_object_id ''100000'') (Some demo_time) = Inr a"
    and "custody_storable length_hash demo_parse a" and "wa_attestation a = code_points ''wa''" and "wa_occurred a = demo_time"
proof -
  obtain iso where i: "issue_custody length_hash demo_custody (demo_object_id ''10'') (demo_object_id ''100'') (demo_object_id ''1000'')
      (demo_object_id ''100000'') (Some demo_time) = Inr (observed_custody length_hash demo_custody (demo_object_id ''10'')
      (demo_object_id ''100'') (demo_object_id ''1000'') (demo_object_id ''100000'') iso demo_time)"
    by (rule issue_custody_value [OF length_hash_hex demo_custody_valid])
  let ?a = "observed_custody length_hash demo_custody (demo_object_id ''10'')
      (demo_object_id ''100'') (demo_object_id ''1000'') (demo_object_id ''100000'') iso demo_time"
  have "custody_objects_ok ?a" using demo_object_id_ok by (simp add: custody_objects_ok_def observed_custody_def Let_def)
  moreover have "list_all ustring_ok [wa_attestation ?a, wa_request_id ?a, wa_execution ?a, wa_run ?a, wa_workspace_id ?a]"
    using ustring_ok_points by (simp add: observed_custody_def Let_def demo_custody_def)
  moreover have "wa_occurred ?a = demo_time" by (simp add: observed_custody_def Let_def)
  ultimately have "custody_storable length_hash demo_parse ?a"
    using issue_custody_fields(6) [OF i] by (simp add: custody_storable_def demo_parse_def)
  then show thesis using that [OF i] issue_custody_fields(1) [OF i] \<open>wa_occurred ?a = demo_time\<close> by (simp add: demo_custody_def)
qed

lemma demo_composition_issued:
  obtains b where "make_composition length_hash b = Inr b" and "composition_storable length_hash demo_parse b"
    and "ca_attestation b = code_points ''e''" and "ca_manifest b = demo_manifest"
proof -
  define b where "b = \<lparr>ca_attestation = code_points ''e'', ca_manifest = demo_manifest, ca_occurred = demo_time, ca_binding = []\<rparr>"
  let ?b = "b\<lparr>ca_binding := composition_binding length_hash b\<rparr>"
  have "composition_binding length_hash ?b = composition_binding length_hash b" by (simp add: composition_binding_def)
  moreover have "hex_digest (composition_binding length_hash b)"
    unfolding composition_binding_def by (rule json_digest_hex [OF length_hash_hex])
  ultimately have m: "make_composition length_hash ?b = Inr ?b" using demo_nonblank(1) by (simp add: make_composition_Inr b_def)
  then have "composition_storable length_hash demo_parse ?b"
    using demo_attestable by (simp add: composition_storable_def attestable_def b_def)
  then show thesis using that [OF m] by (simp add: b_def)
qed

text \<open>The tree with the approval and both attestations.\<close>

definition custody_entry :: string where
  "custody_entry = ''attestation-'' @ length_hash [0, 0] @ ''.json''"

definition composition_entry :: string where
  "composition_entry = ''attestation-'' @ length_hash [0] @ ''.json''"

lemma entry_names: "distinct [custody_entry, composition_entry, ''.g2_4_10_workspace_custody.lock'', ''.g2_4_11_runtime_composition.lock'',
    approval_lock, ''approval-'' @ demo_hash [] @ ''.json'']"
  by (simp add: custody_entry_def composition_entry_def length_hash_def demo_hash_def approval_lock_def)

definition rested_locks :: fs where
  "rested_locks = demo_tree([''p'', ''.g2_4_10_workspace_custody.lock''] \<mapsto> File True [],
     [''p'', ''.g2_4_11_runtime_composition.lock''] \<mapsto> File True [])"

definition rested_custody :: "custody_attestation \<Rightarrow> fs" where
  "rested_custody a = rested_locks([''p'', custody_entry] \<mapsto> File True (encode_text (dumps (ef_file (custody_files length_hash demo_parse) a))))"

definition rested_tree :: "custody_attestation \<Rightarrow> composition_attestation \<Rightarrow> fs" where
  "rested_tree a b = (rested_custody a)([''p'', composition_entry] \<mapsto>
     File True (encode_text (dumps (ef_file (composition_files length_hash demo_parse) b))))"

lemmas rested_defs = rested_tree_def rested_custody_def rested_locks_def demo_tree_def demo_dirs_def

lemma rested_like: "demo_like (rested_tree a b)"
proof -
  have "rested_tree a b p = Some Dir \<longleftrightarrow> demo_dirs p = Some Dir" for p
    by (simp add: rested_tree_def rested_custody_def rested_locks_def demo_tree_def) (simp add: demo_dirs_def)
  moreover have "\<exists>n \<in> set demo_names. p = [''p'', n]" if "rested_tree a b p = Some e" "e \<noteq> Dir" for p e
  proof -
    have "demo_dirs p \<noteq> Some e" using that(2) by (auto simp: demo_dirs_def split: if_splits)
    then have "p \<in> {[''p'', ''approval-'' @ demo_hash [] @ ''.json''], [''p'', approval_lock], [''p'', ''.g2_4_10_workspace_custody.lock''],
        [''p'', ''.g2_4_11_runtime_composition.lock''], [''p'', custody_entry], [''p'', composition_entry]}"
      using that(1) by (auto simp: rested_tree_def rested_custody_def rested_locks_def demo_tree_def split: if_splits)
    then show ?thesis unfolding demo_names_def custody_entry_def composition_entry_def by auto
  qed
  ultimately show ?thesis using demo_dirs_like unfolding demo_like_def by metis
qed

lemma keeps_new_file: "fs q = None \<Longrightarrow> keeps_tree fs (fs(q \<mapsto> File r b))"
  using same_links_new_file [of fs q] by (auto simp: keeps_tree_def)

lemma rested_fresh: "rested_locks [''p'', custody_entry] = None" "rested_custody a [''p'', composition_entry] = None"
    "demo_tree [''p'', ''.g2_4_10_workspace_custody.lock''] = None" "demo_tree [''p'', ''.g2_4_11_runtime_composition.lock''] = None"
  using entry_names by (auto simp: rested_custody_def rested_locks_def demo_tree_def demo_dirs_def)

lemma rested_keeps: "keeps_tree demo_tree (rested_tree a b)"
proof -
  have "keeps_tree demo_tree (demo_tree([''p'', ''.g2_4_10_workspace_custody.lock''] \<mapsto> File True []))"
    by (rule keeps_new_file) (rule rested_fresh)
  moreover have "keeps_tree (demo_tree([''p'', ''.g2_4_10_workspace_custody.lock''] \<mapsto> File True [])) rested_locks"
    unfolding rested_locks_def by (rule keeps_new_file) (simp add: rested_fresh)
  moreover have "keeps_tree rested_locks (rested_custody a)" unfolding rested_custody_def by (rule keeps_new_file) (rule rested_fresh)
  moreover have "keeps_tree (rested_custody a) (rested_tree a b)" unfolding rested_tree_def by (rule keeps_new_file) (rule rested_fresh)
  ultimately show ?thesis using keeps_trans by blast
qed

lemma rested_places: "placed_roots (rested_tree a b) demo_custody = [(WORKSPACE, [''w'']), (SOURCE, [''s'']), (AUDIT, [''a'']), (CONTROL, [''p''])]"
  using demo_places unfolding placed_roots_simps root_place_def place_def keeps_resolves [OF keeps_trans [OF demo_tree_keeps rested_keeps]] .

lemma rested_isolated: "roots_isolated (rested_tree a b) demo_custody"
proof -
  have "rested_tree a b [''w'', x] = None" for x by (simp add: rested_defs)
  moreover have "\<forall>p \<in> {[''w''], [''s''], [''a''], [''p'']}. rested_tree a b p = Some Dir" using rested_like [of a b] by (simp add: demo_like_def)
  ultimately show ?thesis using rested_places [of a b] by (simp add: roots_isolated_def placed_roots_simps inside_def)
qed

lemma demo_point_bytes: "utf8_strict (code_points ''wa'') = Some x \<Longrightarrow> length_hash x = length_hash [0, 0]"
    "utf8_strict (code_points ''e'') = Some y \<Longrightarrow> length_hash y = length_hash [0]"
  by (auto simp: utf8_strict_def length_hash_def code_points_def encode_text_def encode_point_def split: if_splits)

lemma rested_in_use: "root_in_use ''.g2_4_10_workspace_custody.lock'' (rested_tree a b) [''p'']"
    "root_in_use ''.g2_4_11_runtime_composition.lock'' (rested_tree a b) [''p'']" "root_in_use approval_lock (rested_tree a b) [''p'']"
  using entry_names by (auto simp: root_in_use_def control_root_ok_def rested_defs)

lemma rested_link_free: "link_free (rested_tree a b) [] [''p'']" "link_free (rested_custody a) [] [''p'']" "link_free rested_locks [] [''p'']"
  using entry_names by (simp_all add: rested_defs)

lemma rested_roots: "control_root_ok ''.g2_4_10_workspace_custody.lock'' rested_locks [''p'']"
    "control_root_ok ''.g2_4_11_runtime_composition.lock'' (rested_custody a) [''p'']"
  using entry_names by (auto simp: control_root_ok_def rested_custody_def rested_locks_def demo_tree_def demo_dirs_def)

lemma rested_slots:
  "wa_attestation a = code_points ''wa'' \<Longrightarrow> evidence_slot (custody_files length_hash demo_parse) length_hash a = Some custody_entry"
  "ca_attestation b = code_points ''e'' \<Longrightarrow> evidence_slot (composition_files length_hash demo_parse) length_hash b = Some composition_entry"
proof -
  obtain x y where "utf8_strict (code_points ''wa'') = Some x" "utf8_strict (code_points ''e'') = Some y"
    using ustring_ok_points [of "''wa''"] ustring_ok_points [of "''e''"] by (simp add: utf8_strict_def)
  note xy = this demo_point_bytes(1) [OF this(1)] demo_point_bytes(2) [OF this(2)]
  show "wa_attestation a = code_points ''wa'' \<Longrightarrow> evidence_slot (custody_files length_hash demo_parse) length_hash a = Some custody_entry"
    using xy by (simp add: evidence_slot_def evidence_name_def custody_files_def custody_entry_def)
  show "ca_attestation b = code_points ''e'' \<Longrightarrow> evidence_slot (composition_files length_hash demo_parse) length_hash b = Some composition_entry"
    using xy by (simp add: evidence_slot_def evidence_name_def composition_files_def composition_entry_def)
qed

lemma rested_held:
  assumes "custody_storable length_hash demo_parse a" and "composition_storable length_hash demo_parse b"
  shows "evidence_view (custody_files length_hash demo_parse) [''p''] (rested_tree a b) custody_entry = Held a"
    and "evidence_view (composition_files length_hash demo_parse) [''p''] (rested_tree a b) composition_entry = Held b"
proof -
  note cs = custody_store.evidence_store_axioms [of length_hash demo_parse]
  have "evidence_view (custody_files length_hash demo_parse) [''p''] (rested_custody a) custody_entry = Held a"
    using evidence_store.record_slots(2) [OF cs _ _ _ assms(1), of rested_locks "[''p'']" custody_entry "rested_custody a"]
      rested_roots(1) entry_names rested_fresh(1) by (simp add: custody_files_def rested_custody_def)
  moreover have "rested_tree a b ([''p''] @ [custody_entry]) = rested_custody a ([''p''] @ [custody_entry])"
    using entry_names by (simp add: rested_tree_def)
  ultimately show "evidence_view (custody_files length_hash demo_parse) [''p''] (rested_tree a b) custody_entry = Held a"
    using evidence_view_cong [OF rested_link_free(2,1)] by metis
  show "evidence_view (composition_files length_hash demo_parse) [''p''] (rested_tree a b) composition_entry = Held b"
    using evidence_store.record_slots(2) [OF composition_store.evidence_store_axioms _ _ _ assms(2), of "rested_custody a" "[''p'']"
        composition_entry "rested_tree a b"] rested_roots(2) entry_names rested_fresh(2)
    by (simp add: composition_files_def rested_tree_def)
qed

definition rested_evidence :: evidence_roots where
  "rested_evidence = \<lparr>er_custody = demo_custody_env length_hash, er_faults = no_custody_faults no_store_faults, er_composition = [''p''],
     er_store_faults = no_store_faults\<rparr>"

lemma rested_custody_read:
  assumes "custody_storable length_hash demo_parse a" and "composition_storable length_hash demo_parse b" and "wa_attestation a = code_points ''wa''"
  shows "custody_read length_hash demo_parse no_store_faults [''p''] (rested_tree a b) (code_points ''wa'') = (rested_tree a b, Inr (Some a))"
proof -
  let ?S = "custody_files length_hash demo_parse"
  have S: "ef_lock ?S = ''.g2_4_10_workspace_custody.lock''" "ef_identity ?S = wa_attestation" by (simp_all add: custody_files_def)
  have "control_root_ok (ef_lock ?S) (rested_tree a b) [''p'']" using rested_in_use(1) by (simp add: S root_in_use_def)
  from evidence_store.record_read_back [OF custody_store.evidence_store_axioms this rested_slots(1) [OF assms(3)] rested_held(1) [OF assms(1,2)]]
  have "snd (custody_read length_hash demo_parse no_store_faults [''p''] (rested_tree a b) (code_points ''wa'')) = Inr (Some a)"
    using demo_wa_nonblank assms(3) by (simp add: custody_read_def S)
  moreover have "fst (custody_read length_hash demo_parse no_store_faults [''p''] (rested_tree a b) (code_points ''wa'')) = rested_tree a b"
    using root_in_use_locked [OF rested_in_use(1)] by (simp add: custody_read_def evidence_read_def S no_store_faults_def)
  ultimately show ?thesis by (metis prod.collapse)
qed

lemma rested_composition_read:
  assumes "custody_storable length_hash demo_parse a" and "composition_storable length_hash demo_parse b" and "ca_attestation b = code_points ''e''"
  shows "composition_read length_hash demo_parse no_store_faults [''p''] (rested_tree a b) (code_points ''e'') = (rested_tree a b, Inr (Some b))"
proof -
  let ?S = "composition_files length_hash demo_parse"
  have S: "ef_lock ?S = ''.g2_4_11_runtime_composition.lock''" "ef_identity ?S = ca_attestation" by (simp_all add: composition_files_def)
  have "control_root_ok (ef_lock ?S) (rested_tree a b) [''p'']" using rested_in_use(2) by (simp add: S root_in_use_def)
  from evidence_store.record_read_back [OF composition_store.evidence_store_axioms this rested_slots(2) [OF assms(3)] rested_held(2) [OF assms(1,2)]]
  have "snd (composition_read length_hash demo_parse no_store_faults [''p''] (rested_tree a b) (code_points ''e'')) = Inr (Some b)"
    using demo_nonblank(1) assms(3) by (simp add: composition_read_def S)
  moreover have "fst (composition_read length_hash demo_parse no_store_faults [''p''] (rested_tree a b) (code_points ''e'')) = rested_tree a b"
    using root_in_use_locked [OF rested_in_use(2)] by (simp add: composition_read_def evidence_read_def S no_store_faults_def)
  ultimately show ?thesis by (metis prod.collapse)
qed

lemma rested_custody_check:
  assumes "custody_storable length_hash demo_parse a" and "composition_storable length_hash demo_parse b" and "wa_attestation a = code_points ''wa''"
    and "wa_occurred a = demo_time" and "issue_custody length_hash demo_custody (demo_object_id ''10'') (demo_object_id ''100'')
      (demo_object_id ''1000'') (demo_object_id ''100000'') (Some demo_time) = Inr a"
  shows "custody_check (demo_custody_env length_hash) (no_custody_faults no_store_faults) (rested_tree a b) (Some a) demo_custody
    = (rested_tree a b, [], Inr None)"
proof -
  let ?E = "demo_custody_env length_hash" and ?f = "rested_tree a b"
  note like = demo_honest [OF rested_like, where sha = length_hash]
  have r: "resolve ?f (cu_control demo_custody) = resolve ?f (ce_store ?E)" by (simp add: demo_custody_def demo_custody_simps)
  have d: "digests_differ ?E ?f demo_custody"
    using demo_digests by (simp add: digests_differ_def rested_places demo_identities demo_custody_simps)
  obtain x where x: "admit_descriptors ?E (no_custody_faults no_store_faults) ?f demo_custody (Some demo_time) =
      ([], Inr (\<lparr>wad_attestation = Some x, wad_reason = None\<rparr>, placed_roots ?f demo_custody))"
    using isolated_admitted [OF like _ _ r rested_isolated d _ demo_custody_valid, where sf = no_store_faults and t = demo_time]
      length_hash_hex by (auto simp: demo_custody_simps)
  have "issue_custody length_hash demo_custody (demo_object_id ''10'') (demo_object_id ''100'')
      (demo_object_id ''1000'') (demo_object_id ''100000'') (Some demo_time) = Inr x"
    using admitted_isolated(8) [OF like x] by (auto simp: rested_places demo_identities demo_custody_simps demo_object_id_def)
  then have "x = a" using assms(5) by simp
  then show ?thesis
    using x rested_custody_read [OF assms(1-3)] assms(3,4) by (simp add: custody_check_def demo_custody_simps no_custody_faults_def)
qed

lemma rested_composition_check:
  assumes "custody_storable length_hash demo_parse a" and "composition_storable length_hash demo_parse b" and "ca_attestation b = code_points ''e''"
    and "make_composition length_hash b = Inr b" and "ca_manifest b = demo_manifest"
  shows "composition_check length_hash demo_parse no_store_faults [''p''] (rested_tree a b) (Some b) demo_manifest = (rested_tree a b, Inr None)"
proof -
  note r = rested_composition_read [OF assms(1-3)]
  have "snd (composition_check length_hash demo_parse no_store_faults [''p''] (rested_tree a b) (Some b) demo_manifest) = Inr None"
    using composition_check_accepts [OF assms(4)] r assms(3,5) by simp
  moreover have "fst (composition_check length_hash demo_parse no_store_faults [''p''] (rested_tree a b) (Some b) demo_manifest) = rested_tree a b"
    using r assms(3) by (simp add: composition_check_tree)
  ultimately show ?thesis by (metis prod.collapse)
qed

text \<open>The call with the evidence.\<close>

definition rested_call :: "custody_attestation \<Rightarrow> composition_attestation \<Rightarrow> (custody_attestation, composition_attestation) session_call" where
  "rested_call a b = \<lparr>sc_receipt = Some demo_receipt, sc_approval = Some demo_approval, sc_request = demo_activation, sc_runtime = demo_runtime,
     sc_observer = Some demo_observer, sc_availability = Some demo_available,
     sc_evidence = Some \<lparr>ev_custody_request = Some demo_custody, ev_custody_attestation = Some a,
       ev_manifest = Some demo_manifest, ev_composition_attestation = Some b\<rparr>\<rparr>"

lemma rested_approval:
  "read_approval demo_hash (ge_parse demo_env) no_store_faults [''p''] (rested_tree a b) (code_points ''i'') = (rested_tree a b, Inr (Some demo_approval))"
proof -
  have name: "approval_name demo_hash (approval_id demo_approval) = Some (''approval-'' @ demo_hash [] @ ''.json'')"
    using ustring_ok_points [of "''i''"] by (simp add: approval_name_def utf8_strict_def demo_approval_def demo_hash_def)
  have "demo_tree [''p'', ''approval-'' @ demo_hash [] @ ''.json''] = Some (File True (encode_text (dumps (approval_file demo_approval))))"
    by (simp add: demo_tree_def approval_lock_def demo_hash_def)
  then have f: "rested_tree a b ([''p''] @ [''approval-'' @ demo_hash [] @ ''.json'']) = Some (File True (encode_text (dumps (approval_file demo_approval))))"
    using rested_keeps [of a b] by (simp add: keeps_tree_def)
  have "approval_read_unlocked demo_hash (ge_parse demo_env) (rested_tree a b) [''p''] (approval_id demo_approval) = Inr (Some demo_approval)"
    by (rule approval_read_written [OF rested_link_free(1) name f demo_approval_valid demo_texts_ok]) (simp add: demo_env_def demo_approval_def)
  then show ?thesis
    using root_in_use_locked [OF rested_in_use(3)] demo_nonblank by (simp add: read_approval_def no_store_faults_def demo_approval_def)
qed

lemmas rested_keeps_dirs = keeps_trans [OF demo_tree_keeps rested_keeps]

lemma rested_ready:
  assumes "custody_check (demo_custody_env length_hash) (no_custody_faults no_store_faults) (rested_tree a b) (Some a) demo_custody
      = (rested_tree a b, [], Inr None)"
    and "composition_check length_hash demo_parse no_store_faults [''p''] (rested_tree a b) (Some b) demo_manifest = (rested_tree a b, Inr None)"
  shows "evidence_rejection demo_env (governed_gates rested_evidence) no_store_faults (rested_tree a b) (rested_call a b) demo_receipt demo_observer
    demo_available = (rested_tree a b, Inr None)"
proof -
  have "custody_binds (rested_tree a b) demo_custody demo_activation demo_runtime"
    by (simp add: custody_binds_keeps [OF rested_keeps_dirs] custody_binds_def demo_custody_def demo_activation_def demo_runtime_def)
  moreover have "composition_binds demo_manifest demo_activation demo_runtime (Some demo_available)"
    by (simp add: composition_binds_def demo_manifest_def demo_activation_def demo_runtime_def demo_available_def)
  ultimately have "\<exists>x. validate_readiness (governed_gates rested_evidence) (rested_tree a b) (sc_evidence (rested_call a b)) demo_activation
      demo_runtime (Some demo_available) = (rested_tree a b, Inr x) \<and> rd_reason (ra_decision x) = None"
    using assms by (simp add: validate_readiness_def governed_gates_def rested_evidence_def rested_call_def demo_custody_simps
        make_readiness_decision_def make_readiness_admission_def guarded_def)
  moreover have "store_isolation_rejection (rested_tree a b) [''p''] demo_activation = None"
    unfolding store_isolation_keeps [OF rested_keeps_dirs]
    by (simp add: store_isolation_rejection_def demo_activation_def in_execution_roots_def inside_def demo_resolve)
  then have "validate_approval demo_env no_store_faults (rested_tree a b) (Some demo_approval) demo_receipt demo_activation demo_runtime
      demo_observer demo_available = (rested_tree a b, Inr None)"
    using rested_approval receipt_for_keeps [OF rested_keeps_dirs] demo_receipt_for
    by (simp add: validate_approval_def demo_env_def demo_approval_def)
  ultimately show ?thesis by (auto simp: evidence_rejection_def rested_call_def)
qed

lemma rested_created:
  assumes ready: "evidence_rejection demo_env (governed_gates rested_evidence) no_store_faults (rested_tree a b) (rested_call a b) demo_receipt
    demo_observer demo_available = (rested_tree a b, Inr None)"
  shows "\<exists>fs' m. create_session demo_env (governed_gates rested_evidence) no_gate_faults (rested_tree a b) (rested_call a b) = (fs', Inr m) \<and>
    sd_disposition (sa_decision m) = SESSION_CREATED"
proof -
  have "call_rejection demo_env demo_dirs (rested_call a b) = call_rejection demo_env demo_dirs demo_call"
    by (simp add: call_rejection_def rested_call_def demo_call_def cong: option.case_cong)
  then have c: "call_rejection demo_env (rested_tree a b) (rested_call a b) = None"
    using demo_call_ok by (simp add: call_keeps [OF rested_keeps_dirs])
  have r: "activation_record_for demo_hash demo_receipt = \<lparr>rec_kind = ACTIVATION_CLAIMED, identity_key = code_points (demo_hash []),
      rec_binding_digest = json_digest demo_hash (receipt_payload demo_receipt)\<rparr>"
    by (simp add: activation_record_for_def receipt_digest_def demo_receipt_def)
  have i: "issued_record_for demo_hash demo_session = \<lparr>rec_kind = SESSION_ISSUED, identity_key = code_points (demo_hash []),
      rec_binding_digest = session_binding_digest demo_hash demo_session\<rparr>"
    by (simp add: issued_record_for_def demo_session_def)
  have s: "keeps_tree (rested_tree a b) f \<Longrightarrow> session_for demo_hash f demo_receipt demo_activation demo_runtime demo_observer demo_available
      = Inr demo_session" for f
    using demo_session_for [OF keeps_trans [OF rested_keeps_dirs]] .
  have root: "control_root_ok ledger_lock (rested_tree a b) [''k'']" by (simp add: control_root_ok_def rested_defs)
  have free: "ledger_view [''k''] (rested_tree a b) n = Free" for n
    using view_free_iff [OF ok_link_free [OF root], of n] by (simp add: rested_defs)
  note f = creation_free [of demo_env "rested_tree a b" "rested_call a b" demo_receipt demo_observer demo_available
      "governed_gates rested_evidence" "rested_tree a b" demo_session
      "kind_value ACTIVATION_CLAIMED @ ''-'' @ demo_hash [] @ ''.json''" "kind_value SESSION_ISSUED @ ''-'' @ demo_hash [] @ ''.json''"]
  have "\<exists>fs'. create_session demo_env (governed_gates rested_evidence) no_gate_faults (rested_tree a b) (rested_call a b) = (fs', Inr
      \<lparr>sa_session = Some demo_session,
      sa_decision = \<lparr>sd_disposition = SESSION_CREATED, sd_session_id = Some (session_id demo_session),
      sd_execution_id = Some (cs_execution_id demo_session), sd_run_id = Some (cs_run_id demo_session), sd_reason = None\<rparr>\<rparr>) \<and>
    control_root_ok ledger_lock fs' (ge_ledger demo_env) \<and>
    (\<forall>k. k \<notin> {kind_value ACTIVATION_CLAIMED @ ''-'' @ demo_hash [] @ ''.json'', kind_value SESSION_ISSUED @ ''-'' @ demo_hash [] @ ''.json'',
      ledger_lock} \<longrightarrow> ledger_view (ge_ledger demo_env) fs' k = ledger_view (ge_ledger demo_env) (rested_tree a b) k)"
    by (rule f) (use c s demo_hex_hash ready root demo_record_valid demo_slot free in
        \<open>simp_all add: demo_env_def rested_call_def r i del: kind_value.simps\<close>)
  then show ?thesis by fastforce
qed

lemma rested_simps:
  "sc_evidence (rested_call a b) = Some \<lparr>ev_custody_request = Some demo_custody, ev_custody_attestation = Some a,
       ev_manifest = Some demo_manifest, ev_composition_attestation = Some b\<rparr>"
  "er_custody rested_evidence = demo_custody_env length_hash" "cf_store (er_faults rested_evidence) = no_store_faults"
  by (simp_all add: rested_call_def rested_evidence_def no_custody_faults_def)

lemma custody_read_like: "demo_like f \<Longrightarrow> root_in_use ''.g2_4_10_workspace_custody.lock'' f [''p''] \<Longrightarrow>
    fst (custody_read sha parse no_store_faults [''p''] f i) = f"
  using root_in_use_locked [of "''.g2_4_10_workspace_custody.lock''" f "[''p'']"]
  by (simp add: custody_read_def evidence_read_def custody_files_def no_store_faults_def)

theorem session_rests_on_evidence_witness:
  "\<exists>a b fs' m fsc. create_session demo_env (governed_gates rested_evidence) no_gate_faults (rested_tree a b) (rested_call a b) = (fs', Inr m) \<and>
     sd_disposition (sa_decision m) = SESSION_CREATED \<and> ca_manifest b = demo_manifest \<and>
     custody_read length_hash demo_parse no_store_faults [''p''] (rested_tree a b) (wa_attestation a) = (fsc, Inr (Some a)) \<and>
     roots_isolated fsc demo_custody"
proof -
  obtain a where a: "issue_custody length_hash demo_custody (demo_object_id ''10'') (demo_object_id ''100'') (demo_object_id ''1000'')
      (demo_object_id ''100000'') (Some demo_time) = Inr a" "custody_storable length_hash demo_parse a" "wa_attestation a = code_points ''wa''"
      "wa_occurred a = demo_time" by (rule demo_custody_issued)
  obtain b where b: "make_composition length_hash b = Inr b" "composition_storable length_hash demo_parse b" "ca_attestation b = code_points ''e''"
      "ca_manifest b = demo_manifest" by (rule demo_composition_issued)
  obtain fs' m where m: "create_session demo_env (governed_gates rested_evidence) no_gate_faults (rested_tree a b) (rested_call a b) = (fs', Inr m)"
      "sd_disposition (sa_decision m) = SESSION_CREATED"
    using rested_created [OF rested_ready [OF rested_custody_check [OF a(2) b(2) a(3,4,1)] rested_composition_check [OF a(2) b(2,3,1,4)]]] by blast
  have "\<forall>i. honest_system (er_custody rested_evidence) (fst (custody_read (ce_sha (er_custody rested_evidence))
      (ce_parse (er_custody rested_evidence)) (cf_store (er_faults rested_evidence)) (ce_store (er_custody rested_evidence)) (rested_tree a b) i))"
    using custody_read_like [OF rested_like rested_in_use(1)] demo_honest [OF rested_like]
    by (simp add: rested_evidence_def demo_custody_simps no_custody_faults_def)
  from session_rests_on_evidence [OF m this] obtain fsc where "custody_read length_hash demo_parse no_store_faults [''p''] (rested_tree a b)
      (wa_attestation a) = (fsc, Inr (Some a))" "roots_isolated fsc demo_custody"
    by (auto simp: rested_simps demo_custody_simps)
  then show ?thesis using m b(4) by blast
qed

end
