(* ===== verification/Spec2Isabelle.thy ===== *)
theory Spec2Isabelle
  imports Prelude Ledger_Properties Graph_Properties Mutation_Properties Recovery_Properties Session_Properties Runtime_Properties Invocation_Properties Audit_Properties SessionEvidence_Properties
begin

text \<open>
  A verification development for EAG, a platform that runs engineering work by language models under
  governance. All sources are under \<open>src/src/eag/\<close>.

  The program. A caller asks for admission of an activation (\<open>governed_activation\<close>), a human approves
  it (\<open>governed_approval\<close>), and the session gate (\<open>governed_session\<close>) exchanges the two for a session
  that can be started once, keeping its claims in a durable ledger. A started execution is a state
  machine over an immutable context with budgets and an evidence ledger (\<open>governed_execution\<close>): it
  plans, mutates one file of the workspace under a single-use authorization (\<open>mutation\<close>), verifies the
  file by its fingerprint, and after a failure reflects (\<open>reflection\<close>) and replans once under a fresh
  authority. Work is planned as graphs of tasks (\<open>task_graph\<close>) and of nodes that run in parallel
  (\<open>execution_graph\<close>), and dispatched to workers (\<open>workers\<close>) through priority queues (\<open>scheduler\<close>).

  Conventions. A dataclass is a record, its \<open>__post_init__\<close> a list of guards of which the first that
  holds is the exception (Prelude), an enum a datatype; code that raises returns a sum, and code that
  changes state returns the new state. Python integers are \<open>int\<close>; texts are strings of Latin-1
  characters, or lists of code points where they are read from or written to files. Type checks that
  the type annotations make redundant are the types of the model. Clocks, fresh identifiers, hashes and
  failures of system calls are parameters.

  The theories, in the order of their imports:

  \<^item> Prelude: guards, sums, strings, dictionaries, and the collections of simplification rules.
  \<^item> ExecutionLedger, StateMachine, ExecutionRuns, Ledger_Properties: \<open>governed_execution/models.py\<close>,
    \<open>enums.py\<close> and \<open>state_machine.py\<close>: budgets, evidence, transition records and contexts, whose
    constructor replays the history; every transition of the controller; runs as a step relation, with the
    invariant that every reachable context validates, bounds on runs and terminal states.
  \<^item> Digraph, TaskGraph, ExecutionGraph, Workers, Scheduler, ExecutionRuntime, Graph_Properties:
    cycle detection by depth-first search, readiness and topological order; the worker pool with
    its metrics and health; queues and dispatch; and the parallel runtime, which the scheduler and workers
    carry. The fuel of the cycle check is the number of nodes, that of the runtime one more than it, and
    both are shown to be enough.
  \<^item> Filesystem, Mutation, Mutation_Properties: a tree of directories, files and links with path
    resolution (at most 40 links, as the system allows), UTF-8 with its inverse, the policy, authorization,
    atomic write, rollback and receipts of \<open>mutation/\<close>, under any failure of a system call.
  \<^item> GovernedVerification, Verification_Properties: \<open>governed_execution/verification.py\<close>.
  \<^item> Reflection, Recovery, Recovery_Properties: \<open>reflection/\<close>, \<open>memory/experience.py\<close> and
    \<open>governed_execution/reflection.py\<close>, \<open>replanning.py\<close>, \<open>authority.py\<close>: reflection on a failed iteration,
    the policy that ends or continues, and the chain of authorities.
  \<^item> Json: \<open>json.dumps\<close> with sorted keys and \<open>json.loads\<close>, as a tokenizer and a stack machine, both structural,
    with the round trip. The recursion limit of the interpreter is not modelled.
  \<^item> DurableStore, ReplayLedger: the files, lock and exclusive creation behind the two durable stores, the
    abstract store they implement, the locale \<open>once_store\<close> from which single use follows, and the ledger of
    \<open>governed_session/ledger.py\<close>, which interprets it.
  \<^item> Activation, ApprovalStore, GateBindings: \<open>governed_activation/\<close>, \<open>governed_approval/\<close>, the runtime request of
    \<open>governed_runtime/models.py\<close> and the digests that bind a session to it.
  \<^item> SessionGate, Session, SessionLife, Session_Properties: \<open>governed_session/models.py\<close>, \<open>readiness.py\<close> and
    \<open>gate.py\<close>: creation and consumption of sessions, what each call leaves in the tree, and their life.
  \<^item> Decision, DecisionPolicy: the engineering decision of \<open>chief/intelligence/gateway/models.py\<close> and the policy of
    \<open>validator.py\<close>, with the declarative condition it decides.
  \<^item> Translation, Workflow: \<open>mutation_translation.py\<close> and \<open>mutation_workflow.py\<close> there: from a decision to one proposal, and
    through the mutation runtime under a lifecycle observer.
  \<^item> GovernedRuntime, RuntimeLedger, RuntimeEffects, Runtime_Properties: \<open>governed_runtime/\<close>, the composition of all of
    this into at most two iterations: what it does to its ledger, and what it does to the tree.
  \<^item> Invocation, Invocation_Properties: \<open>governed_invocation/\<close>, the one dispatch of a runtime that a consumed session allows.
  \<^item> AuditRecord, AuditFacts, AuditStore, AuditRecorder, Audit_Properties: \<open>governed_audit/\<close>: the redacted record of an
    execution, its store of one file each, and the recorder as the audit observer of the runtime.
  \<^item> EvidenceForm, EvidenceStore: the payload checks and the store of immutable evidence that custody and composition
    share, with the locale \<open>evidence_store\<close>, from which single use and persistence follow.
  \<^item> CompositionEvidence, CompositionGate: \<open>governed_composition/\<close>: manifests, attestations, their store and gate.
  \<^item> CustodyEvidence, CustodyHandle, CustodyGate, CustodyFacts: \<open>governed_workspace/\<close>: evidence of four isolated roots, its
    store, the gate over open descriptors, and the one-shot handle of the workspace.
  \<^item> Readiness, Evidence_Properties, SessionEvidence_Properties: the readiness gate with both evidence gates behind it, and
    what a session rests on.

  What is shown. Each component has the invariant its operations keep and its behaviour on every branch,
  errors included. The interfaces are locales interpreted on the model: the claims of \<open>once_store\<close> hold for
  ledger records and, through it, for the calls of the gate and of the invoker. Refinements: the ledger implements the
  abstract store, the audit store the writing of a slot once, the optimised graph routines their reference definitions. Round trips: UTF-8, JSON, records and
  receipts through their files. Liveness: enough fuel gives a result; a round of recovery always ends in a
  decision; a created session can be started. The composed
  runtime: every write of an execution is the intent of one of its decisions, and a completed execution was verified; audit changes
  nothing of it but its end.

  Atomicity. One locked access to a store is one step, and so is one call of the session gate; between steps
  others may add to the tree. The single-use theorem is stated for single claims as well, which covers calls
  that interleave inside the gate.

  Side conditions. Some code refuses, or raises, on inputs that its types allow, and the claims that need it say so:
  the scheduler needs ids without surrounding white space, the parallel runtime non-blank titles, reflection a run
  identifier without surrounding white space, and the exact check of a written file a text without carriage returns. Each
  of these has a lemma that shows the failure.

  Not modelled. The assessors that follow a run (\<open>governed_artifact_readiness\<close>, \<open>governed_promotion\<close>,
  \<open>governed_transition_authorization\<close>, \<open>governed_transition_control\<close>, \<open>governed_destination_contract\<close>,
  \<open>governed_outcome_policy\<close>, \<open>governed_attestation_policy\<close>, \<open>governed_construction_work_order\<close>) compare digests and
  fields of long immutable records and give a typed reason, and two of them keep stores of their own in a
  control root; their checks are of the form that custody and composition evidence show. \<open>governed_file_construction\<close>
  takes the one-shot handle of the workspace and creates the directories and files of a construction plan in it; it is not
  modelled, and the claims on what changes the workspace speak of the governed runtime, not of the constructor.
  Providers, presentation, source
  parsing, version control, plugins, configuration and logging are input and output around them. Floating-point
  numbers are kept as literals where they are digested and as rationals where they are averaged or compared; thread
  scheduling is modelled by the order in which results arrive.
\<close>

end
